(* ===== verification/Effects.thy ===== *)
theory Effects
  imports Main "HOL-Library.State_Monad"
begin

text \<open>
  Programs that act on the outside world, in the state monad. The state is the world, of any type, and
  the log of what was done to it with what came back; an interaction may change the world in any way.
  \<open>emits m Q\<close> is a Hoare logic over the log: the entries \<open>m\<close> appends and its value satisfy \<open>Q\<close>, in every
  world. A policy is checked at every step of a log against what came before it.
\<close>

record ('w, 's) sys =
  ext :: 'w
  trace :: "'s list"

definition effect :: "('w \<Rightarrow> 'a \<times> 'w) \<Rightarrow> ('a \<Rightarrow> 's) \<Rightarrow> (('w, 's) sys, 'a) state" where
  "effect f mk = State (\<lambda>s. case f (ext s) of (a, w) \<Rightarrow> (a, s\<lparr>ext := w, trace := trace s @ [mk a]\<rparr>))"

abbreviation ret :: "'a \<Rightarrow> (('w, 's) sys, 'a) state" where
  "ret \<equiv> State_Monad.return"

section \<open>Reasoning about the log\<close>

definition emits :: "(('w, 's) sys, 'a) state \<Rightarrow> ('a \<Rightarrow> 's list \<Rightarrow> bool) \<Rightarrow> bool" where
  "emits m Q \<longleftrightarrow> (\<forall>s. \<exists>es. trace (snd (run_state m s)) = trace s @ es \<and> Q (fst (run_state m s)) es)"

lemma emits_return: "Q a [] \<Longrightarrow> emits (State_Monad.return a) Q"
  by (simp add: emits_def State_Monad.return_def)

lemma emits_effect: "(\<And>a. Q a [mk a]) \<Longrightarrow> emits (effect f mk) Q"
  by (auto simp: emits_def effect_def split: prod.splits)

lemma emits_bind:
  assumes "emits m (\<lambda>a es. emits (k a) (\<lambda>b fs. Q b (es @ fs)))"
  shows "emits (State_Monad.bind m k) Q"
  unfolding emits_def
proof
  fix s
  obtain a s' where m: "run_state m s = (a, s')" by force
  then obtain es where es: "trace s' = trace s @ es" "emits (k a) (\<lambda>b fs. Q b (es @ fs))"
    using assms unfolding emits_def by (metis fst_conv snd_conv)
  from es(2) obtain fs where "trace (snd (run_state (k a) s')) = trace s' @ fs" "Q (fst (run_state (k a) s')) (es @ fs)"
    unfolding emits_def by blast
  then show "\<exists>es. trace (snd (run_state (State_Monad.bind m k) s)) = trace s @ es \<and>
      Q (fst (run_state (State_Monad.bind m k) s)) es"
    by (intro exI [of _ "es @ fs"]) (simp add: State_Monad.bind_def m es(1))
qed

lemma emits_weaken: "emits m P \<Longrightarrow> (\<And>a es. P a es \<Longrightarrow> Q a es) \<Longrightarrow> emits m Q"
  by (meson emits_def)

lemma emits_then:
  assumes "emits m P" "\<And>a es. P a es \<Longrightarrow> emits (k a) (\<lambda>b fs. Q b (es @ fs))"
  shows "emits (State_Monad.bind m k) Q"
  by (rule emits_bind) (rule emits_weaken [OF assms])

lemma emits_conj: "emits m P \<Longrightarrow> emits m Q \<Longrightarrow> emits m (\<lambda>a es. P a es \<and> Q a es)"
  by (auto simp: emits_def) (metis same_append_eq)

lemma emits_if: "(b \<Longrightarrow> emits m Q) \<Longrightarrow> (\<not> b \<Longrightarrow> emits n Q) \<Longrightarrow> emits (if b then m else n) Q"
  by simp

lemma emits_option:
  "(x = None \<Longrightarrow> emits m Q) \<Longrightarrow> (\<And>a. x = Some a \<Longrightarrow> emits (f a) Q) \<Longrightarrow>
   emits (case x of None \<Rightarrow> m | Some a \<Rightarrow> f a) Q"
  by (cases x) auto

lemma emits_sum:
  "(\<And>a. x = Inl a \<Longrightarrow> emits (f a) Q) \<Longrightarrow> (\<And>b. x = Inr b \<Longrightarrow> emits (g b) Q) \<Longrightarrow>
   emits (case x of Inl a \<Rightarrow> f a | Inr b \<Rightarrow> g b) Q"
  by (cases x) auto

lemma emits_prod: "(\<And>a b. x = (a, b) \<Longrightarrow> emits (f a b) Q) \<Longrightarrow> emits (case x of (a, b) \<Rightarrow> f a b) Q"
  by (cases x) auto

lemma emits_let: "(\<And>y. y = x \<Longrightarrow> emits (f y) Q) \<Longrightarrow> emits (let y = x in f y) Q"
  by simp

section \<open>One run\<close>

text \<open>The value and the log of a run from one world.\<close>

definition in_world :: "(('w, 's) sys, 'a) state \<Rightarrow> 'w \<Rightarrow> 'a \<times> 's list" where
  "in_world m w = (case run_state m \<lparr>ext = w, trace = []\<rparr> of (r, s) \<Rightarrow> (r, trace s))"

lemma in_worldD: "emits m Q \<Longrightarrow> in_world m w = (r, es) \<Longrightarrow> Q r es"
  unfolding emits_def in_world_def by (drule spec [of _ "\<lparr>ext = w, trace = []\<rparr>"]) (auto split: prod.splits)

section \<open>A part with a log of its own\<close>

text \<open>The entries of an operation that logs steps of another kind, as entries of the whole.\<close>

definition logged :: "('s \<Rightarrow> 't) \<Rightarrow> (('w, 's) sys, 'a) state \<Rightarrow> (('w, 't) sys, 'a) state" where
  "logged mk m = State (\<lambda>s. case run_state m \<lparr>ext = ext s, trace = []\<rparr> of
     (a, s') \<Rightarrow> (a, s\<lparr>ext := ext s', trace := trace s @ map mk (trace s')\<rparr>))"

lemma emits_logged:
  fixes m :: "(('w, 's) sys, 'a) state" and mk :: "'s \<Rightarrow> 't"
  assumes "emits m (\<lambda>a es. Q a (map mk es))"
  shows "emits (logged mk m) Q"
  unfolding emits_def
proof
  fix s :: "('w, 't) sys"
  obtain a s' where m: "run_state m \<lparr>ext = ext s, trace = []\<rparr> = (a, s')" by force
  with assms have "Q a (map mk (trace s'))"
    unfolding emits_def by (elim allE [of _ "\<lparr>ext = ext s, trace = []\<rparr>"]) auto
  then show "\<exists>es. trace (snd (run_state (logged mk m) s)) = trace s @ es \<and> Q (fst (run_state (logged mk m) s)) es"
    by (simp add: logged_def m)
qed

lemma emits_logged_run:
  fixes m :: "(('w, 's) sys, 'a) state" and mk :: "'s \<Rightarrow> 't"
  assumes "\<And>w a es. in_world m w = (a, es) \<Longrightarrow> Q a (map mk es)"
  shows "emits (logged mk m) Q"
  unfolding emits_def
proof
  fix s :: "('w, 't) sys"
  obtain a s' where m: "run_state m \<lparr>ext = ext s, trace = []\<rparr> = (a, s')" by force
  then have "Q a (map mk (trace s'))" by (intro assms [of "ext s"]) (simp add: in_world_def)
  then show "\<exists>es. trace (snd (run_state (logged mk m) s)) = trace s @ es \<and> Q (fst (run_state (logged mk m) s)) es"
    by (simp add: logged_def m)
qed

section \<open>Policies\<close>

text \<open>The policy holds at every step, given the steps before it.\<close>

fun each_step :: "('s list \<Rightarrow> 's \<Rightarrow> bool) \<Rightarrow> 's list \<Rightarrow> 's list \<Rightarrow> bool" where
  "each_step P before [] = True"
| "each_step P before (x # xs) = (P before x \<and> each_step P (before @ [x]) xs)"

lemma each_step_append [simp]:
  "each_step P before (es @ fs) \<longleftrightarrow> each_step P before es \<and> each_step P (before @ es) fs"
  by (induction es arbitrary: before) auto

lemma each_step_mono: "each_step P before es \<Longrightarrow> (\<And>b x. P b x \<Longrightarrow> Q b x) \<Longrightarrow> each_step Q before es"
  by (induction es arbitrary: before) auto

lemma each_step_at: "each_step P before (es @ x # fs) \<Longrightarrow> P (before @ es) x"
  by (induction es arbitrary: before) auto

lemma each_step_take: "each_step P before es \<Longrightarrow> each_step P before (take n es)"
  by (metis append_take_drop_id each_step_append)

end
