(* ===== verification/Prelude.thy ===== *)
theory Prelude
  imports Complex_Main "HOL-Library.Finite_Map" "HOL-Library.List_Lexorder" "HOL-Library.Char_ord"
begin

text \<open>
  What the component theories share: the model's readings of Go's time values and maps, the
  collections the components fill with their defining equations, and generic lemmas on finite maps,
  sorted key lists and option-valued lookups.

  Time. A Go \<open>time.Time\<close> is an \<open>int\<close>, the nanoseconds since the Unix epoch; a \<open>time.Duration\<close> is an
  \<open>int\<close> number of nanoseconds. Additions of the modelled code stay far inside the 64-bit range (see
  theory SyncLimits for the bounds of every platform-supplied duration); the one place where the code
  doubles a duration in a loop is also modelled on 64-bit words (theory Scheduler). The subtraction
  \<open>Time.Sub\<close> saturates in Go, and \<open>time_sub\<close> does too.

  Maps. A Go map is an \<open>fmap\<close>. A range over a map visits the keys in an unspecified order; the code
  that needs an order sorts the keys, and the model uses \<open>sorted_keys\<close> there.
\<close>

subsection \<open>Time\<close>

type_synonym gtime = int
type_synonym duration = int

abbreviation second :: duration where "second \<equiv> 1000000000"
abbreviation minute :: duration where "minute \<equiv> 60000000000"
abbreviation hour :: duration where "hour \<equiv> 3600000000000"

text \<open>The zero \<open>time.Time\<close>, 1 January of year 1.\<close>

definition zero_time :: gtime where
  "zero_time = - 62135596800000000000"

definition is_zero_time :: "gtime \<Rightarrow> bool" where
  "is_zero_time t \<longleftrightarrow> t = zero_time"

definition max_duration :: duration where
  "max_duration = 9223372036854775807"

definition time_sub :: "gtime \<Rightarrow> gtime \<Rightarrow> duration" where
  "time_sub t u = max (- max_duration - 1) (min max_duration (t - u))"

lemma time_sub_less_iff:
  "d \<le> max_duration \<Longrightarrow> - max_duration \<le> d \<Longrightarrow> time_sub t u < d \<longleftrightarrow> t - u < d"
  by (auto simp: time_sub_def)

lemma time_sub_ge_iff:
  "d \<le> max_duration \<Longrightarrow> - max_duration \<le> d \<Longrightarrow> d \<le> time_sub t u \<longleftrightarrow> d \<le> t - u"
  by (auto simp: time_sub_def)

subsection \<open>Collections of defining equations\<close>

named_theorems op_defs "defining equations of the operations of the components"
named_theorems inv_defs "definitions of the components' invariants"

subsection \<open>Finite maps\<close>

definition fm_or :: "('k, 'v) fmap \<Rightarrow> 'k \<Rightarrow> 'v \<Rightarrow> 'v" where
  "fm_or m k d = (case fmlookup m k of None \<Rightarrow> d | Some v \<Rightarrow> v)"

definition sorted_keys :: "('k::linorder, 'v) fmap \<Rightarrow> 'k list" where
  "sorted_keys m = sorted_list_of_fset (fmdom m)"

lemma set_sorted_keys [simp]: "set (sorted_keys m) = fmdom' m"
  by (simp add: sorted_keys_def fmdom'_alt_def)

lemma distinct_sorted_keys [simp]: "distinct (sorted_keys m)"
  by (simp add: sorted_keys_def sorted_list_of_fset.rep_eq)

lemma sorted_sorted_keys [simp]: "sorted (sorted_keys m)"
  by (simp add: sorted_keys_def sorted_list_of_fset.rep_eq)

lemma fmlookup_in_dom' [dest]: "fmlookup m k = Some v \<Longrightarrow> k \<in> fmdom' m"
  by (rule fmdom'I)

lemma sorted_keys_empty [simp]: "sorted_keys fmempty = []"
  by (simp add: sorted_keys_def sorted_list_of_fset.rep_eq)

text \<open>The keys of a map built by \<open>fmupd\<close>, for evaluating a closed map.\<close>

lemma sorted_keys_fmupd [simp]:
  "sorted_keys (fmupd k v m) = insort k (remove1 k (sorted_keys m))"
proof -
  have "sorted_list_of_set (insert k (fset (fmdom m)))
      = insort k (remove1 k (sorted_list_of_set (fset (fmdom m))))"
    by (simp add: sorted_list_of_set.sorted_key_list_of_set_insert_remove
        sorted_list_of_set.sorted_key_list_of_set_remove)
  then show ?thesis
    by (simp add: sorted_keys_def sorted_list_of_fset.rep_eq)
qed

subsection \<open>Runs of a step function\<close>

fun run :: "('s \<Rightarrow> 'e \<Rightarrow> 's) \<Rightarrow> 's \<Rightarrow> 'e list \<Rightarrow> 's" where
  "run f s [] = s"
| "run f s (e # es) = run f (f s e) es"

lemma run_append [simp]: "run f s (xs @ ys) = run f (run f s xs) ys"
  by (induction xs arbitrary: s) auto

lemma run_invariant:
  assumes "P s" and "\<And>s e. P s \<Longrightarrow> P (f s e)"
  shows "P (run f s es)"
  using assms(1) by (induction es arbitrary: s) (auto intro: assms(2))

end
