(* ===== verification/LocalFile.thy ===== *)
theory LocalFile
  imports Effects Prelude "HOL-Library.Word"
begin

unbundle bit_operations_syntax

text \<open>
  Reading the files credentials come from (\<open>gitsync/localfile.go\<close>): a file is opened once, and its type,
  size, owner and mode are judged on that descriptor before its bytes are read. The operating system is
  the world; every system call is logged. The warnings are left out. Modes are Go's: the permission
  bits in the low nine.
\<close>

section \<open>The operating system\<close>

datatype os_error = NoEnt | OtherErrno string

datatype file_fault =
    OpenFailed os_error | IoFailed os_error | NotRegularFile | FileTooLarge
  | OwnedByOther | OwnedByOtherUnsafe | UnsafeMode | WritableByOthers

record stat_info =
  si_regular :: bool
  si_size :: int
  si_mode :: "32 word"
  si_uid :: "int option"

text \<open>\<open>fw_stat\<close>, \<open>fw_chmod\<close>, \<open>fw_read\<close> and \<open>fw_close\<close> act on the open descriptor; a read gives at most so many bytes.\<close>

record 'w file_world =
  fw_open :: "string \<Rightarrow> 'w \<Rightarrow> os_error option \<times> 'w"
  fw_stat :: "'w \<Rightarrow> (os_error + stat_info) \<times> 'w"
  fw_chmod :: "32 word \<Rightarrow> 'w \<Rightarrow> bool \<times> 'w"
  fw_read :: "nat \<Rightarrow> 'w \<Rightarrow> (os_error + string) \<times> 'w"
  fw_close :: "'w \<Rightarrow> bool \<times> 'w"

datatype file_step =
    FOpened string "os_error option"
  | FStat "os_error + stat_info"
  | FChmod "32 word" bool
  | FRead "os_error + string"
  | FClosed bool

definition max_config_file_size :: nat where
  "max_config_file_size = 1048576"

definition max_token_file_size :: nat where
  "max_token_file_size = 4096"

definition reject_foreign_config_owner :: bool where
  "reject_foreign_config_owner = False"

section \<open>The rules\<close>

definition read_only_mode_acceptable :: "32 word \<Rightarrow> bool" where
  "read_only_mode_acceptable mode \<longleftrightarrow> mode AND 0x17 = 0"

definition is_foreign_uid :: "int \<Rightarrow> int \<Rightarrow> bool" where
  "is_foreign_uid uid euid \<longleftrightarrow> uid \<noteq> euid \<and> uid \<noteq> 0"

definition foreign_owner :: "int \<Rightarrow> stat_info \<Rightarrow> bool" where
  "foreign_owner euid i = (case si_uid i of None \<Rightarrow> True | Some uid \<Rightarrow> is_foreign_uid uid euid)"

text \<open>\<open>readVetted\<close>: the descriptor is closed whatever happens.\<close>

definition read_open ::
  "'w file_world \<Rightarrow> nat \<Rightarrow> (stat_info \<Rightarrow> (('w, file_step) sys, file_fault + 'a) state) \<Rightarrow>
   (('w, file_step) sys, file_fault + 'a \<times> string) state" where
  "read_open W cap vet = do {
     st \<leftarrow> effect (fw_stat W) FStat;
     (case st of
        Inl e \<Rightarrow> ret (Inl (IoFailed e))
      | Inr i \<Rightarrow>
          (if \<not> si_regular i then ret (Inl NotRegularFile)
           else if int cap < si_size i then ret (Inl FileTooLarge)
           else do {
             v \<leftarrow> vet i;
             (case v of
                Inl e \<Rightarrow> ret (Inl e)
              | Inr a \<Rightarrow> do {
                  b \<leftarrow> effect (fw_read W (cap + 1)) FRead;
                  ret (case b of Inl e \<Rightarrow> Inl (IoFailed e)
                       | Inr s \<Rightarrow> if cap < length s then Inl FileTooLarge else Inr (a, s))
                })
           }))
   }"

definition read_vetted ::
  "'w file_world \<Rightarrow> string \<Rightarrow> nat \<Rightarrow> (stat_info \<Rightarrow> (('w, file_step) sys, file_fault + 'a) state) \<Rightarrow>
   (('w, file_step) sys, file_fault + 'a \<times> string) state" where
  "read_vetted W path cap vet = do {
     e \<leftarrow> effect (fw_open W path) (FOpened path);
     (case e of
        Some er \<Rightarrow> ret (Inl (OpenFailed er))
      | None \<Rightarrow> do {
          r \<leftarrow> read_open W cap vet;
          _ \<leftarrow> effect (fw_close W) FClosed;
          ret r
        })
   }"

record provider_config_file =
  cf_data :: string
  cf_foreign_owner :: bool
  cf_loose :: bool

text \<open>The owner and mode rule of the provider file; the result is \<open>(foreignOwner, loose)\<close>.\<close>

definition vet_config ::
  "'w file_world \<Rightarrow> int \<Rightarrow> bool \<Rightarrow> bool \<Rightarrow> stat_info \<Rightarrow> (('w, file_step) sys, file_fault + bool \<times> bool) state" where
  "vet_config W euid reject_foreign tighten i =
     (let foreign = foreign_owner euid i
      in if foreign \<and> reject_foreign then ret (Inl OwnedByOther)
         else if foreign
         then ret (if \<not> read_only_mode_acceptable (si_mode i) then Inl OwnedByOtherUnsafe else Inr (True, False))
         else if \<not> tighten then ret (Inr (False, \<not> read_only_mode_acceptable (si_mode i)))
         else do {
           done \<leftarrow> effect (fw_chmod W 0x180) (FChmod 0x180);
           ret (if \<not> done \<and> \<not> read_only_mode_acceptable (si_mode i) then Inl UnsafeMode else Inr (False, False))
         })"

definition read_provider_config_mode ::
  "'w file_world \<Rightarrow> int \<Rightarrow> string \<Rightarrow> nat \<Rightarrow> bool \<Rightarrow> bool \<Rightarrow>
   (('w, file_step) sys, file_fault + provider_config_file) state" where
  "read_provider_config_mode W euid path cap reject_foreign tighten = do {
     r \<leftarrow> read_vetted W path cap (vet_config W euid reject_foreign tighten);
     ret (case r of Inl e \<Rightarrow> Inl e
          | Inr ((foreign, loose), s) \<Rightarrow> Inr \<lparr>cf_data = s, cf_foreign_owner = foreign, cf_loose = loose\<rparr>)
   }"

definition vet_token :: "int \<Rightarrow> stat_info \<Rightarrow> (('w, file_step) sys, file_fault + unit) state" where
  "vet_token euid i =
     ret (if si_mode i AND 0x12 \<noteq> 0 then Inl WritableByOthers
          else if foreign_owner euid i then Inl OwnedByOther
          else Inr ())"

definition read_token_file :: "'w file_world \<Rightarrow> int \<Rightarrow> string \<Rightarrow> (('w, file_step) sys, file_fault + string) state" where
  "read_token_file W euid path = do {
     r \<leftarrow> read_vetted W path max_token_file_size (vet_token euid);
     ret (case r of Inl e \<Rightarrow> Inl e | Inr (_, s) \<Rightarrow> Inr s)
   }"

text \<open>The error that a reload takes for a credential that was removed.\<close>

definition token_file_missing :: "file_fault \<Rightarrow> bool" where
  "token_file_missing e \<longleftrightarrow> e = OpenFailed NoEnt"

section \<open>What is read\<close>

text \<open>
  Bytes are read straight after the open and the stat of the same descriptor (and, for the provider
  file, an attempt to tighten it), and only when what they showed passes the rule for that file.
\<close>

definition config_vetted :: "int \<Rightarrow> bool \<Rightarrow> string \<Rightarrow> file_step list \<Rightarrow> bool" where
  "config_vetted euid tighten path before \<longleftrightarrow>
     (\<exists>pre i mid. before = pre @ [FOpened path None, FStat (Inr i)] @ mid \<and>
        si_regular i \<and> si_size i \<le> int max_config_file_size \<and>
        (foreign_owner euid i \<and> read_only_mode_acceptable (si_mode i) \<and> mid = [] \<or>
         \<not> foreign_owner euid i \<and> \<not> tighten \<and> mid = [] \<or>
         \<not> foreign_owner euid i \<and> tighten \<and>
           (\<exists>done. mid = [FChmod 0x180 done] \<and> (done \<or> read_only_mode_acceptable (si_mode i)))))"

definition token_vetted :: "int \<Rightarrow> string \<Rightarrow> file_step list \<Rightarrow> bool" where
  "token_vetted euid path before \<longleftrightarrow>
     (\<exists>pre i. before = pre @ [FOpened path None, FStat (Inr i)] \<and>
        si_regular i \<and> si_size i \<le> int max_token_file_size \<and>
        si_mode i AND 0x12 = 0 \<and> \<not> foreign_owner euid i)"

text \<open>The mode is touched only by a load that may, and only of a file of the user or root.\<close>

definition chmod_allowed :: "int \<Rightarrow> bool \<Rightarrow> string \<Rightarrow> file_step list \<Rightarrow> 32 word \<Rightarrow> bool" where
  "chmod_allowed euid tighten path before mode \<longleftrightarrow>
     mode = 0x180 \<and> tighten \<and>
     (\<exists>pre i. before = pre @ [FOpened path None, FStat (Inr i)] \<and> si_regular i \<and> \<not> foreign_owner euid i)"

text \<open>
  The policy of one load: \<open>path\<close> is the provider file, which is opened first and read by its own rule; every file
  opened after it is a token file and read by theirs.
\<close>

fun opens :: "file_step \<Rightarrow> bool" where
  "opens (FOpened p e) \<longleftrightarrow> True"
| "opens _ \<longleftrightarrow> False"

fun file_safe :: "int \<Rightarrow> bool \<Rightarrow> string \<Rightarrow> file_step list \<Rightarrow> file_step \<Rightarrow> bool" where
  "file_safe euid tighten path before (FRead r) \<longleftrightarrow>
     (if length (filter opens before) \<le> 1 then config_vetted euid tighten path before else \<exists>p. token_vetted euid p before)"
| "file_safe euid tighten path before (FChmod mode done) \<longleftrightarrow> chmod_allowed euid tighten path before mode"
| "file_safe euid tighten path before _ \<longleftrightarrow> True"

declare file_safe.simps [simp del]

lemma file_safe_other [simp]:
  "file_safe euid tighten path before (FOpened p e)" "file_safe euid tighten path before (FStat st)"
  "file_safe euid tighten path before (FClosed c)"
  by (simp_all add: file_safe.simps)

lemmas file_intros = emits_bind emits_effect emits_return emits_sum emits_if emits_option emits_let

lemma config_vetted_plain:
  "si_regular i \<Longrightarrow> si_size i \<le> int max_config_file_size \<Longrightarrow>
   (if foreign_owner euid i then read_only_mode_acceptable (si_mode i) else \<not> tighten) \<Longrightarrow>
   config_vetted euid tighten path (before @ [FOpened path None, FStat (Inr i)])"
  by (auto simp: config_vetted_def split: if_splits)

lemma config_vetted_chmod:
  "si_regular i \<Longrightarrow> si_size i \<le> int max_config_file_size \<Longrightarrow> \<not> foreign_owner euid i \<Longrightarrow> tighten \<Longrightarrow>
   done \<or> read_only_mode_acceptable (si_mode i) \<Longrightarrow>
   config_vetted euid tighten path (before @ [FOpened path None, FStat (Inr i), FChmod 0x180 done])"
  unfolding config_vetted_def
  by (rule exI [of _ before], rule exI [of _ i], rule exI [of _ "[FChmod 0x180 done]"]) auto

lemma chmod_allowedI:
  "si_regular i \<Longrightarrow> \<not> foreign_owner euid i \<Longrightarrow> tighten \<Longrightarrow>
   chmod_allowed euid tighten path (before @ [FOpened path None, FStat (Inr i)]) 0x180"
  by (auto simp: chmod_allowed_def)

lemma token_vettedI:
  "si_regular i \<Longrightarrow> si_size i \<le> int max_token_file_size \<Longrightarrow> si_mode i AND 0x12 = 0 \<Longrightarrow> \<not> foreign_owner euid i \<Longrightarrow>
   token_vetted euid path (before @ [FOpened path None, FStat (Inr i)])"
  by (auto simp: token_vetted_def)

lemma opened_before: "list_ex opens before \<Longrightarrow> \<not> length (filter opens before) \<le> 0"
  by (auto simp: list_ex_iff filter_empty_conv)

lemma read_config_safe:
  "\<not> list_ex opens before \<Longrightarrow>
   emits (read_provider_config_mode W euid path max_config_file_size False tighten)
     (\<lambda>r es. each_step (file_safe euid tighten path) before es)"
  unfolding read_provider_config_mode_def read_vetted_def read_open_def vet_config_def
  apply (intro file_intros)
  apply (simp_all add: file_safe.simps list_ex_iff filter_empty_conv)
  apply (auto intro!: config_vetted_plain config_vetted_chmod chmod_allowedI split: if_splits)
  done

lemma read_token_safe:
  "list_ex opens before \<Longrightarrow>
   emits (read_token_file W euid p) (\<lambda>r es. each_step (file_safe euid tighten path) before es)"
  unfolding read_token_file_def read_vetted_def read_open_def vet_token_def
  apply (drule opened_before)
  apply (intro file_intros)
  apply (simp_all add: file_safe.simps)
  apply (auto intro!: exI [of _ p] token_vettedI split: if_splits)
  done

text \<open>A read opens its file first and nothing after it.\<close>

fun tightens :: "file_step \<Rightarrow> bool" where
  "tightens (FChmod mode done) \<longleftrightarrow> True"
| "tightens _ \<longleftrightarrow> False"

lemma read_token_shape:
  "emits (read_token_file W euid p) (\<lambda>r es. \<exists>e rest. es = FOpened p e # rest \<and> \<not> list_ex opens rest)"
  unfolding read_token_file_def read_vetted_def read_open_def vet_token_def
  by (intro file_intros) auto

lemma read_config_shape:
  "emits (read_provider_config_mode W euid path cap False tighten)
     (\<lambda>r es. (\<exists>e rest. es = FOpened path e # rest \<and> \<not> list_ex opens rest) \<and>
        (case r of Inl f \<Rightarrow> True
         | Inr c \<Rightarrow> \<exists>i mid x. es = FOpened path None # FStat (Inr i) # mid @ [FRead (Inr (cf_data c)), FClosed x] \<and>
             list_all tightens mid \<and> cf_foreign_owner c = foreign_owner euid i \<and> length (cf_data c) \<le> cap))"
  unfolding read_provider_config_mode_def read_vetted_def read_open_def vet_config_def
  apply (intro file_intros)
  apply (auto split: sum.splits if_splits)
  done

end
