(* ===== verification/GoStrings.thy ===== *)
theory GoStrings
  imports Prelude "HOL-Library.Sublist"
begin

text \<open>
  What the program uses of Go's strings. A Go string is its bytes, so a string of the model is a list
  of \<open>char\<close>s read as bytes. \<open>runes\<close> is the UTF-8 decoding a \<open>range\<close> loop, \<open>strings.ContainsFunc\<close> and
  \<open>utf8.RuneCountInString\<close> see, with U+FFFD for every byte that starts no valid encoding. \<open>cut\<close>,
  \<open>split_on\<close>, \<open>trim_suffix\<close>, \<open>itoa\<close> and \<open>atoi\<close> are the functions of packages \<open>strings\<close> and
  \<open>strconv\<close> of those names; \<open>strings.HasPrefix\<close>, \<open>HasSuffix\<close> and \<open>Contains\<close> are the library's
  \<open>prefix\<close>, \<open>suffix\<close> and \<open>sublist\<close>.
\<close>

type_synonym bytes = string

abbreviation byte :: "char \<Rightarrow> nat" where
  "byte c \<equiv> of_char c"

definition newline :: char where
  "newline = CHR 0x0A"

definition tab :: char where
  "tab = CHR 0x09"

section \<open>Character classes\<close>

definition is_digit :: "char \<Rightarrow> bool" where
  "is_digit c \<longleftrightarrow> 48 \<le> byte c \<and> byte c \<le> 57"

definition is_upper :: "char \<Rightarrow> bool" where
  "is_upper c \<longleftrightarrow> 65 \<le> byte c \<and> byte c \<le> 90"

definition is_lower :: "char \<Rightarrow> bool" where
  "is_lower c \<longleftrightarrow> 97 \<le> byte c \<and> byte c \<le> 122"

definition is_alpha :: "char \<Rightarrow> bool" where
  "is_alpha c \<longleftrightarrow> is_upper c \<or> is_lower c"

definition is_hex_lower :: "char \<Rightarrow> bool" where
  "is_hex_lower c \<longleftrightarrow> is_digit c \<or> (97 \<le> byte c \<and> byte c \<le> 102)"

definition is_hex_digit :: "char \<Rightarrow> bool" where
  "is_hex_digit c \<longleftrightarrow> is_hex_lower c \<or> (65 \<le> byte c \<and> byte c \<le> 70)"

text \<open>ASCII lower case of one byte.\<close>

definition lower_char :: "char \<Rightarrow> char" where
  "lower_char c = (if is_upper c then char_of (byte c + 32) else c)"

lemma byte_less [simp]: "byte c < 256"
  by (metis of_char_mod_256 mod_less_divisor zero_less_numeral)

lemma byte_lower_char: "byte (lower_char c) = (if is_upper c then byte c + 32 else byte c)"
  by (simp add: lower_char_def is_upper_def take_bit_eq_mod)

lemma not_upper_lower_char [simp]: "\<not> is_upper (lower_char c)"
  by (simp add: is_upper_def byte_lower_char)

lemma lower_char_idem [simp]: "lower_char (lower_char c) = lower_char c"
  using not_upper_lower_char [of c] by (simp add: lower_char_def)

lemma lower_char_digit [simp]: "is_digit (lower_char c) = is_digit c"
  by (auto simp: is_digit_def byte_lower_char is_upper_def)

section \<open>UTF-8\<close>

text \<open>
  The rune at the head of a non-empty string and how many bytes it takes: an encoding must use the
  shortest form, be no surrogate and be at most U+10FFFF; otherwise the head byte alone decodes to
  U+FFFD.
\<close>

definition cont :: "nat \<Rightarrow> nat \<Rightarrow> char \<Rightarrow> bool" where
  "cont lo hi c \<longleftrightarrow> lo \<le> byte c \<and> byte c \<le> hi"

definition rune_error :: nat where
  "rune_error = 65533"

fun decode_rune :: "char \<Rightarrow> string \<Rightarrow> nat \<times> nat" where
  "decode_rune c cs =
     (let b = byte c;
          lo = (if b = 224 then 160 else if b = 240 then 144 else 128);
          hi = (if b = 237 then 159 else if b = 244 then 143 else 191)
      in if b < 128 then (b, 1)
         else if b < 194 \<or> 244 < b then (rune_error, 1)
         else if b < 224 then
           (case cs of
              x # _ \<Rightarrow> if cont lo hi x then ((b - 192) * 64 + (byte x - 128), 2) else (rune_error, 1)
            | _ \<Rightarrow> (rune_error, 1))
         else if b < 240 then
           (case cs of
              x # y # _ \<Rightarrow>
                if cont lo hi x \<and> cont 128 191 y
                then ((b - 224) * 4096 + (byte x - 128) * 64 + (byte y - 128), 3) else (rune_error, 1)
            | _ \<Rightarrow> (rune_error, 1))
         else
           (case cs of
              x # y # z # _ \<Rightarrow>
                if cont lo hi x \<and> cont 128 191 y \<and> cont 128 191 z
                then ((b - 240) * 262144 + (byte x - 128) * 4096 + (byte y - 128) * 64 + (byte z - 128), 4)
                else (rune_error, 1)
            | _ \<Rightarrow> (rune_error, 1)))"

function runes :: "string \<Rightarrow> nat list" where
  "runes [] = []"
| "runes (c # cs) = (case decode_rune c cs of (r, w) \<Rightarrow> r # runes (drop (w - 1) cs))"
  by pat_completeness auto
termination by (relation "measure length") auto

text \<open>\<open>utf8.ValidString\<close>: no byte decodes to U+FFFD on its own (the encoding of U+FFFD takes three).\<close>

function valid_utf8 :: "string \<Rightarrow> bool" where
  "valid_utf8 [] = True"
| "valid_utf8 (c # cs) =
     (case decode_rune c cs of (r, w) \<Rightarrow> (r, w) \<noteq> (rune_error, 1) \<and> valid_utf8 (drop (w - 1) cs))"
  by pat_completeness auto
termination by (relation "measure length") auto

text \<open>\<open>unicode.IsControl\<close> and \<open>unicode.IsSpace\<close>.\<close>

definition is_control :: "nat \<Rightarrow> bool" where
  "is_control r \<longleftrightarrow> r < 32 \<or> 127 \<le> r \<and> r < 160"

definition is_space :: "nat \<Rightarrow> bool" where
  "is_space r \<longleftrightarrow> 9 \<le> r \<and> r \<le> 13 \<or> r = 32 \<or> r = 133 \<or> r = 160 \<or> r = 5760 \<or>
     8192 \<le> r \<and> r \<le> 8202 \<or> r = 8232 \<or> r = 8233 \<or> r = 8239 \<or> r = 8287 \<or> r = 12288"

lemma runes_ascii: "list_all (\<lambda>c. byte c < 128) s \<Longrightarrow> runes s = map byte s"
  by (induction s) (simp_all add: Let_def)

text \<open>An ASCII byte is always a rune of its own, wherever it stands: no encoding contains one.\<close>

lemma ascii_rune: "c \<in> set s \<Longrightarrow> byte c < 128 \<Longrightarrow> byte c \<in> set (runes s)"
proof (induction s rule: runes.induct)
  case (2 d cs)
  obtain r w where d: "decode_rune d cs = (r, w)" by (metis surj_pair)
  have keep: "c \<in> set (drop (w - 1) cs)" if "c \<in> set cs" "byte d \<ge> 128"
  proof (rule ccontr)
    assume "c \<notin> set (drop (w - 1) cs)"
    with that(1) have "c \<in> set (take (w - 1) cs)"
      by (metis Un_iff append_take_drop_id set_append)
    with d that(2) \<open>byte c < 128\<close> show False
      by (auto simp: Let_def cont_def split: if_splits list.splits)
  qed
  show ?case
  proof (cases "byte d < 128")
    case True
    then have "r = byte d" "w = 1" using d by (simp_all add: Let_def)
    with 2 d show ?thesis by (auto split: prod.splits)
  next
    case False
    with 2 d keep show ?thesis by (auto split: prod.splits)
  qed
qed simp

lemma no_control_bytes:
  "\<forall>r\<in>set (runes s). \<not> is_control r \<Longrightarrow> c \<in> set s \<Longrightarrow> 32 \<le> byte c \<and> byte c \<noteq> 127"
  using ascii_rune [of c s] by (force simp: is_control_def)

section \<open>Cutting and splitting\<close>

fun split_on :: "char \<Rightarrow> string \<Rightarrow> string list" where
  "split_on d [] = [[]]"
| "split_on d (c # cs) =
     (if c = d then [] # split_on d cs
      else (case split_on d cs of x # xs \<Rightarrow> (c # x) # xs | [] \<Rightarrow> [[c]]))"

fun join :: "string \<Rightarrow> string list \<Rightarrow> string" where
  "join d [] = []"
| "join d [x] = x"
| "join d (x # y # xs) = x @ d @ join d (y # xs)"

lemma split_on_nonempty [simp]: "split_on d s \<noteq> []"
  by (cases s) (auto split: list.splits)

lemma join_split_on [simp]: "join [d] (split_on d s) = s"
proof (induction s)
  case (Cons c cs)
  then show ?case
    by (cases "split_on d cs"; cases "tl (split_on d cs)") auto
qed simp

lemma split_on_free: "x \<in> set (split_on d s) \<Longrightarrow> d \<notin> set x"
  by (induction s arbitrary: x) (fastforce split: list.splits if_splits)+

lemma split_on_word: "d \<notin> set x \<Longrightarrow> split_on d x = [x]"
  by (induction x) auto

lemma split_on_append: "d \<notin> set x \<Longrightarrow> split_on d (x @ d # s) = x # split_on d s"
  by (induction x) auto

lemma split_on_join: "es \<noteq> [] \<Longrightarrow> list_all (\<lambda>e. d \<notin> set e) es \<Longrightarrow> split_on d (join [d] es) = es"
  by (induction "[d]" es rule: join.induct) (auto simp: split_on_word split_on_append)

lemma split_on_map:
  assumes "\<And>c. f c = d \<longleftrightarrow> c = d"
  shows "split_on d (map f s) = map (map f) (split_on d s)"
  by (induction s) (auto simp: assms split: list.splits)

text \<open>\<open>strings.Cut\<close> at a one-byte separator.\<close>

definition cut :: "char \<Rightarrow> string \<Rightarrow> string \<times> string \<times> bool" where
  "cut d s = (takeWhile (\<lambda>c. c \<noteq> d) s, drop 1 (dropWhile (\<lambda>c. c \<noteq> d) s), d \<in> set s)"

definition trim_suffix :: "string \<Rightarrow> string \<Rightarrow> string" where
  "trim_suffix s suf = (if suffix suf s then take (length s - length suf) s else s)"

definition contains_any :: "string \<Rightarrow> string \<Rightarrow> bool" where
  "contains_any s cs \<longleftrightarrow> list_ex (\<lambda>c. c \<in> set cs) s"

section \<open>Decimal numbers\<close>

definition digit_char :: "nat \<Rightarrow> char" where
  "digit_char n = char_of (48 + n)"

fun itoa :: "nat \<Rightarrow> string" where
  "itoa n = (if n < 10 then [digit_char n] else itoa (n div 10) @ [digit_char (n mod 10)])"

declare itoa.simps [simp del]

definition of_digits :: "string \<Rightarrow> nat" where
  "of_digits s = foldl (\<lambda>n c. 10 * n + (byte c - 48)) 0 s"

text \<open>\<open>strconv.Atoi\<close>: an optional sign, one or more digits, and a value that fits 64 bits.\<close>

definition atoi :: "string \<Rightarrow> int option" where
  "atoi s =
     (let neg = prefix ''-'' s; ds = (if neg \<or> prefix ''+'' s then drop 1 s else s);
          n = (if neg then - int (of_digits ds) else int (of_digits ds))
      in if ds \<noteq> [] \<and> list_all is_digit ds \<and> - (2 ^ 63) \<le> n \<and> n < 2 ^ 63 then Some n else None)"

lemma byte_digit_char: "n < 10 \<Longrightarrow> byte (digit_char n) = 48 + n"
  by (simp add: digit_char_def take_bit_eq_mod)

lemma itoa_digits: "list_all is_digit (itoa n) \<and> itoa n \<noteq> []"
proof (induction n rule: itoa.induct)
  case (1 n)
  have "is_digit (digit_char m)" if "m < 10" for m
    using that by (simp add: is_digit_def byte_digit_char)
  with 1 show ?case by (cases "n < 10") (simp_all add: itoa.simps [of n])
qed

lemma of_digits_itoa [simp]: "of_digits (itoa n) = n"
proof (induction n rule: itoa.induct)
  case (1 n)
  then show ?case by (subst itoa.simps) (simp add: of_digits_def byte_digit_char)
qed

lemma itoa_inject [simp]: "itoa m = itoa n \<longleftrightarrow> m = n"
  by (metis of_digits_itoa)

lemma atoi_itoa: "n < 2 ^ 63 \<Longrightarrow> atoi (itoa n) = Some (int n)"
proof -
  assume "n < 2 ^ 63"
  obtain c cs where s: "itoa n = c # cs" "is_digit c"
    using itoa_digits [of n] by (cases "itoa n") auto
  then have "\<not> prefix ''-'' (itoa n)" "\<not> prefix ''+'' (itoa n)"
    by (auto simp: is_digit_def)
  with \<open>n < 2 ^ 63\<close> itoa_digits [of n] show ?thesis by (simp add: atoi_def Let_def)
qed

lemma digit_not: "is_digit c \<Longrightarrow> c \<noteq> CHR '':''"
  by (auto simp: is_digit_def)

text \<open>A length prefix delimits what follows it, so a sequence of such fields reads back one way only.\<close>

lemma length_prefixed_inject:
  assumes "itoa (length x) @ '':'' @ x @ r = itoa (length y) @ '':'' @ y @ r'"
  shows "x = y \<and> r = r'"
proof -
  have digits: "\<forall>c\<in>set (itoa n). c \<noteq> CHR '':''" for n
    using itoa_digits [of n] digit_not by (auto simp: list_all_iff)
  have "takeWhile (\<lambda>c. c \<noteq> CHR '':'') (itoa n @ '':'' @ s) = itoa n" for n s
    using digits by (subst takeWhile_append2) auto
  from this [of "length x" "x @ r"] this [of "length y" "y @ r'"] assms
  have "length x = length y" by simp
  with assms show ?thesis by simp
qed

end
