(* ===== verification/GoPath.thy ===== *)
theory GoPath
  imports GoStrings
begin

text \<open>
  Go's \<open>path.Clean\<close>, \<open>filepath.Dir\<close> and \<open>filepath.Join\<close> on slash-separated paths, by their documented
  rules: empty and \<open>.\<close> elements go, \<open>..\<close> takes the element before it with it, and at the root it is dropped.
\<close>

definition slash :: char where
  "slash = CHR ''/''"

text \<open>The elements kept so far are in reverse; \<open>rooted\<close> says whether the path began with a slash.\<close>

definition clean_step :: "bool \<Rightarrow> string list \<Rightarrow> string \<Rightarrow> string list" where
  "clean_step rooted kept e =
     (if e = [] \<or> e = ''.'' then kept
      else if e = ''..''
      then (case kept of
              [] \<Rightarrow> if rooted then [] else [''..'']
            | k # rest \<Rightarrow> if k = ''..'' then ''..'' # kept else rest)
      else e # kept)"

definition clean_elements :: "string \<Rightarrow> string list" where
  "clean_elements p = rev (foldl (clean_step (take 1 p = [slash])) [] (split_on slash p))"

definition path_clean :: "string \<Rightarrow> string" where
  "path_clean p =
     (let body = join [slash] (clean_elements p)
      in if take 1 p = [slash] then slash # body else if body = [] then ''.'' else body)"

definition path_dir :: "string \<Rightarrow> string" where
  "path_dir p = path_clean (rev (dropWhile (\<lambda>c. c \<noteq> slash) (rev p)))"

definition path_join :: "string \<Rightarrow> string \<Rightarrow> string" where
  "path_join d f = (if d = [] then (if f = [] then [] else path_clean f) else path_clean (d @ slash # f))"

section \<open>What is left\<close>

text \<open>An element of a clean path is none of the empty, \<open>.\<close> and, under a root, \<open>..\<close>.\<close>

definition plain_element :: "string \<Rightarrow> bool" where
  "plain_element e \<longleftrightarrow> e \<noteq> [] \<and> e \<noteq> ''.'' \<and> e \<noteq> ''..'' \<and> slash \<notin> set e"

lemma clean_step_plain:
  "list_all plain_element kept \<Longrightarrow> slash \<notin> set e \<Longrightarrow> list_all plain_element (clean_step True kept e)"
  by (auto simp: clean_step_def plain_element_def split: list.splits)

lemma clean_fold_plain:
  "list_all plain_element kept \<Longrightarrow> list_all (\<lambda>e. slash \<notin> set e) es \<Longrightarrow>
   list_all plain_element (foldl (clean_step True) kept es)"
  by (induction es arbitrary: kept) (auto simp: clean_step_plain)

lemma clean_elements_plain: "take 1 p = [slash] \<Longrightarrow> list_all plain_element (clean_elements p)"
  using clean_fold_plain [of "[]" "split_on slash p"]
  by (simp add: clean_elements_def list_all_iff split_on_free)

lemma path_clean_rooted: "take 1 p = [slash] \<Longrightarrow> path_clean p = slash # join [slash] (clean_elements p)"
  by (simp add: path_clean_def Let_def)

definition rooted :: "string \<Rightarrow> bool" where
  "rooted p \<longleftrightarrow> take 1 p = [slash]"

lemma rooted_Cons [simp]: "rooted (c # cs) \<longleftrightarrow> c = slash" "\<not> rooted []"
  by (simp_all add: rooted_def)

lemma rooted_append: "rooted p \<Longrightarrow> rooted (p @ q)"
  by (cases p) auto

text \<open>A cleaned rooted path is rooted and has no empty, \<open>.\<close> or \<open>..\<close> element, the root itself apart.\<close>

lemma path_clean_elements:
  assumes "rooted p"
  shows "rooted (path_clean p) \<and> ''..'' \<notin> set (split_on slash (path_clean p))"
proof -
  have c: "path_clean p = slash # join [slash] (clean_elements p)"
    and plain: "list_all plain_element (clean_elements p)"
    using assms path_clean_rooted clean_elements_plain by (simp_all add: rooted_def)
  have "''..'' \<notin> set (split_on slash (join [slash] (clean_elements p)))"
  proof (cases "clean_elements p = []")
    case False
    have "list_all (\<lambda>e. slash \<notin> set e) (clean_elements p)"
      using plain by (auto simp: list_all_iff plain_element_def)
    from split_on_join [OF False this] plain show ?thesis by (auto simp: list_all_iff plain_element_def)
  qed simp
  then show ?thesis by (simp add: c)
qed

end
