(* ===== verification/StartConfig.thy ===== *)
theory StartConfig
  imports LocalFile GoPath
begin

text \<open>
  The settings the connector starts with (\<open>config/config.go\<close>, \<open>config/registration_token.go\<close>,
  \<open>gitsync/keyfile.go\<close>): the gateway's URL, the identifiers, the paths, and the registration token, which a file
  may give. The environment is a function; the file is read through the world of theory LocalFile. The parser of
  URLs, the loopback test of an address and Unicode case folding are parameters.
\<close>

section \<open>The gateway's URL\<close>

text \<open>\<open>gu_user\<close> is the user information, name and password, \<open>gu_path\<close> the path as it is written.\<close>

record gateway_url =
  gu_scheme :: string
  gu_user :: "string option"
  gu_host :: string
  gu_hostname :: string
  gu_port :: string
  gu_path :: string
  gu_query :: string
  gu_fragment :: string

record start_lib =
  sl_url_parse :: "string \<Rightarrow> gateway_url option"
  sl_loopback_ip :: "string \<Rightarrow> bool"
  sl_equal_fold :: "string \<Rightarrow> string \<Rightarrow> bool"

datatype token_fault =
    TokenPathRelative | TokenOpenFailed os_error | TokenIo os_error | TokenNotRegular | TokenUnsafeMode
  | TokenTooLarge | TokenEmpty

datatype start_fault =
    GatewayUrlMissing | GatewayUrlNotAbsolute | GatewayUrlPlaintext | GatewayUrlNotLoopback
  | ConnectorIdMissing | HomeUnknown | CaBundleRelative | TokenFileFault token_fault

type_synonym environ = "string \<Rightarrow> string"

definition loopback_host :: "start_lib \<Rightarrow> string \<Rightarrow> bool" where
  "loopback_host L host \<longleftrightarrow> sl_equal_fold L host ''localhost'' \<or> sl_loopback_ip L host"

definition parse_gateway_url :: "start_lib \<Rightarrow> environ \<Rightarrow> string \<Rightarrow> start_fault + gateway_url" where
  "parse_gateway_url L getenv raw =
     (if raw = [] then Inl GatewayUrlMissing
      else (case sl_url_parse L raw of
          None \<Rightarrow> Inl GatewayUrlNotAbsolute
        | Some u \<Rightarrow>
            if gu_host u = [] \<or> gu_scheme u \<noteq> ''ws'' \<and> gu_scheme u \<noteq> ''wss'' then Inl GatewayUrlNotAbsolute
            else if gu_scheme u = ''ws'' \<and> getenv ''ALLOW_INSECURE_GATEWAY'' \<noteq> ''true'' then Inl GatewayUrlPlaintext
            else if gu_scheme u = ''ws'' \<and> \<not> loopback_host L (gu_hostname u) then Inl GatewayUrlNotLoopback
            else Inr u))"

section \<open>The registration token\<close>

datatype token_source = TokenFromNone | TokenFromEnv | TokenFromFile

definition max_registration_token_file_size :: nat where
  "max_registration_token_file_size = 4096"

definition token_file_mode_acceptable :: "32 word \<Rightarrow> bool" where
  "token_file_mode_acceptable mode \<longleftrightarrow> mode AND 0x17 = 0"

text \<open>One line ending at the end goes, a line feed with the carriage return before it.\<close>

definition trim_line_ending :: "string \<Rightarrow> string" where
  "trim_line_ending s =
     (if suffix [newline] s then trim_suffix [CHR 0x0D] (butlast s) else s)"

definition check_token :: "string \<Rightarrow> token_fault + string" where
  "check_token content =
     (if max_registration_token_file_size < length content then Inl TokenTooLarge
      else if trim_line_ending content = [] then Inl TokenEmpty
      else Inr (trim_line_ending content))"

definition read_token_open :: "'w file_world \<Rightarrow> (('w, file_step) sys, token_fault + string) state" where
  "read_token_open W = do {
     st \<leftarrow> effect (fw_stat W) FStat;
     (case st of
        Inl e \<Rightarrow> ret (Inl (TokenIo e))
      | Inr i \<Rightarrow>
          (if \<not> si_regular i then ret (Inl TokenNotRegular)
           else if \<not> token_file_mode_acceptable (si_mode i) then ret (Inl TokenUnsafeMode)
           else do {
             b \<leftarrow> effect (fw_read W (max_registration_token_file_size + 1)) FRead;
             ret (case b of Inl e \<Rightarrow> Inl (TokenIo e) | Inr content \<Rightarrow> check_token content)
           }))
   }"

definition read_registration_token_file ::
  "'w file_world \<Rightarrow> string \<Rightarrow> (('w, file_step) sys, token_fault + string) state" where
  "read_registration_token_file W path =
     (if \<not> rooted path then ret (Inl TokenPathRelative)
      else do {
        e \<leftarrow> effect (fw_open W path) (FOpened path);
        (case e of
           Some er \<Rightarrow> ret (Inl (TokenOpenFailed er))
         | None \<Rightarrow> do {
             r \<leftarrow> read_token_open W;
             _ \<leftarrow> effect (fw_close W) FClosed;
             ret r
           })
      })"

definition resolve_registration_token ::
  "'w file_world \<Rightarrow> environ \<Rightarrow> (('w, file_step) sys, token_source \<times> (token_fault + string)) state" where
  "resolve_registration_token W getenv =
     (let path = getenv ''REGISTRATION_TOKEN_FILE'' in
      if path = []
      then (if getenv ''REGISTRATION_TOKEN'' \<noteq> [] then ret (TokenFromEnv, Inr (getenv ''REGISTRATION_TOKEN''))
            else ret (TokenFromNone, Inr []))
      else do {
        r \<leftarrow> read_registration_token_file W path;
        ret (TokenFromFile, r)
      })"

text \<open>\<open>CheckRegistrationToken\<close> says where the token comes from and what is wrong with it, never what it is.\<close>

definition check_registration_token ::
  "'w file_world \<Rightarrow> environ \<Rightarrow> (('w, file_step) sys, token_source \<times> token_fault option) state" where
  "check_registration_token W getenv = do {
     r \<leftarrow> resolve_registration_token W getenv;
     ret (fst r, case snd r of Inl e \<Rightarrow> Some e | Inr t \<Rightarrow> None)
   }"

section \<open>The configuration\<close>

record start_config =
  sc_gateway_url :: string
  sc_connector_id :: string
  sc_registration_token :: string
  sc_key_file :: string
  sc_protocol_version :: string
  sc_ca_bundle :: string

definition default_protocol_version :: string where
  "default_protocol_version = ''v1''"

definition key_file_or :: "string \<Rightarrow> string option \<Rightarrow> string \<Rightarrow> string option" where
  "key_file_or file home name =
     (if file \<noteq> [] then Some file else map_option (\<lambda>h. path_join (path_join h ''.mkonnect'') name) home)"

text \<open>\<open>KeyFilePath\<close> of the git-sync connector, whose default is another file.\<close>

definition git_key_file_path :: "environ \<Rightarrow> string option \<Rightarrow> string option" where
  "git_key_file_path getenv home = key_file_or (getenv ''KEY_FILE'') home ''gitsync-key''"

definition load_start_config ::
  "start_lib \<Rightarrow> 'w file_world \<Rightarrow> environ \<Rightarrow> string option \<Rightarrow> (('w, file_step) sys, start_fault + start_config) state" where
  "load_start_config L W getenv home =
     (case parse_gateway_url L getenv (getenv ''GATEWAY_URL'') of
        Inl e \<Rightarrow> ret (Inl e)
      | Inr u \<Rightarrow>
          (if getenv ''CONNECTOR_ID'' = [] then ret (Inl ConnectorIdMissing)
           else (case key_file_or (getenv ''KEY_FILE'') home ''key'' of
               None \<Rightarrow> ret (Inl HomeUnknown)
             | Some key \<Rightarrow>
                 (let version = (if getenv ''PROTOCOL_VERSION'' = [] then default_protocol_version
                                 else getenv ''PROTOCOL_VERSION'');
                      ca = getenv ''CA_BUNDLE''
                  in if ca \<noteq> [] \<and> \<not> rooted ca then ret (Inl CaBundleRelative)
                     else do {
                       r \<leftarrow> resolve_registration_token W getenv;
                       ret (case snd r of
                          Inl e \<Rightarrow> Inl (TokenFileFault e)
                        | Inr token \<Rightarrow> Inr \<lparr>sc_gateway_url = getenv ''GATEWAY_URL'', sc_connector_id = getenv ''CONNECTOR_ID'',
                            sc_registration_token = token, sc_key_file = key, sc_protocol_version = version,
                            sc_ca_bundle = ca\<rparr>)
                     }))))"

section \<open>What a started connector has\<close>

text \<open>The token of the environment, or of a file that was opened once, judged and read on that descriptor.\<close>

definition start_token_vetted :: "environ \<Rightarrow> string \<Rightarrow> file_step list \<Rightarrow> bool" where
  "start_token_vetted getenv token es \<longleftrightarrow>
     (if getenv ''REGISTRATION_TOKEN_FILE'' = [] then token = getenv ''REGISTRATION_TOKEN'' \<and> es = []
      else rooted (getenv ''REGISTRATION_TOKEN_FILE'') \<and> token \<noteq> [] \<and>
        (case es of
           [FOpened path None, FStat (Inr i), FRead (Inr content), FClosed shut] \<Rightarrow>
             path = getenv ''REGISTRATION_TOKEN_FILE'' \<and> si_regular i \<and> si_mode i AND 0x17 = 0 \<and>
             length content \<le> max_registration_token_file_size \<and> token = trim_line_ending content
         | _ \<Rightarrow> False))"

lemmas start_intros = emits_bind emits_effect emits_return emits_sum emits_if emits_option emits_let

lemma check_token_Inr:
  "check_token content = Inr token \<Longrightarrow>
   length content \<le> max_registration_token_file_size \<and> token \<noteq> [] \<and> token = trim_line_ending content"
  by (auto simp: check_token_def split: if_splits)

lemma token_resolved:
  "emits (resolve_registration_token W getenv) (\<lambda>r es. case snd r of Inl e \<Rightarrow> True | Inr token \<Rightarrow> start_token_vetted getenv token es)"
  unfolding resolve_registration_token_def read_registration_token_file_def read_token_open_def
  by (intro start_intros)
     (auto simp: start_token_vetted_def token_file_mode_acceptable_def dest: check_token_Inr split: sum.splits)

definition config_sound :: "start_lib \<Rightarrow> environ \<Rightarrow> start_config \<Rightarrow> file_step list \<Rightarrow> bool" where
  "config_sound L getenv cfg es \<longleftrightarrow>
     (case sl_url_parse L (sc_gateway_url cfg) of
        None \<Rightarrow> False
      | Some u \<Rightarrow> gu_host u \<noteq> [] \<and>
          (gu_scheme u = ''wss'' \<or>
           gu_scheme u = ''ws'' \<and> getenv ''ALLOW_INSECURE_GATEWAY'' = ''true'' \<and> loopback_host L (gu_hostname u))) \<and>
     sc_connector_id cfg \<noteq> [] \<and> sc_protocol_version cfg \<noteq> [] \<and>
     (sc_ca_bundle cfg = [] \<or> rooted (sc_ca_bundle cfg)) \<and> start_token_vetted getenv (sc_registration_token cfg) es"

lemma load_start_config_sound:
  "emits (load_start_config L W getenv home) (\<lambda>r es. case r of Inl e \<Rightarrow> True | Inr cfg \<Rightarrow>
     config_sound L getenv cfg es \<and> key_file_or (getenv ''KEY_FILE'') home ''key'' = Some (sc_key_file cfg))"
proof (cases "parse_gateway_url L getenv (getenv ''GATEWAY_URL'')")
  case (Inr u)
  then have u: "sl_url_parse L (getenv ''GATEWAY_URL'') = Some u" "gu_host u \<noteq> []"
    "gu_scheme u = ''wss'' \<or>
     gu_scheme u = ''ws'' \<and> getenv ''ALLOW_INSECURE_GATEWAY'' = ''true'' \<and> loopback_host L (gu_hostname u)"
    by (auto simp: parse_gateway_url_def split: if_splits option.splits)
  show ?thesis
    unfolding load_start_config_def Inr sum.case Let_def
    by (intro emits_if emits_option emits_return emits_then [OF token_resolved])
       (auto simp: config_sound_def u default_protocol_version_def intro!: emits_return split: sum.splits)
qed (simp add: load_start_config_def emits_return)

text \<open>C37. In every world, a connector that starts has a gateway URL that is wss, or ws to a loopback host
with the explicit permission of the environment, an identifier, a version and an absolute CA path if
any; and its registration token is the one of the environment only when no token file is named, and
otherwise the vetted, whole, nonempty content of that file, opened once, with one line ending off.\<close>

theorem started_config_sound:
  "emits (load_start_config L W getenv home) (\<lambda>r es. case r of
     Inl e \<Rightarrow> True
   | Inr cfg \<Rightarrow>
       (case sl_url_parse L (sc_gateway_url cfg) of
          None \<Rightarrow> False
        | Some u \<Rightarrow> gu_host u \<noteq> [] \<and>
            (gu_scheme u = ''wss'' \<or>
             gu_scheme u = ''ws'' \<and> getenv ''ALLOW_INSECURE_GATEWAY'' = ''true'' \<and> loopback_host L (gu_hostname u))) \<and>
       sc_connector_id cfg \<noteq> [] \<and> sc_protocol_version cfg \<noteq> [] \<and>
       (sc_ca_bundle cfg = [] \<or> rooted (sc_ca_bundle cfg)) \<and> start_token_vetted getenv (sc_registration_token cfg) es)"
  by (rule emits_weaken [OF load_start_config_sound]) (simp add: config_sound_def split: sum.split_asm sum.split)

text \<open>A file that is named is the only source: whatever is wrong with it, the environment's token is not used.\<close>

lemma token_file_never_bypassed:
  "emits (resolve_registration_token W getenv) (\<lambda>r es.
     if getenv ''REGISTRATION_TOKEN_FILE'' = [] then es = [] else fst r = TokenFromFile)"
  unfolding resolve_registration_token_def read_registration_token_file_def read_token_open_def
  by (intro start_intros) simp_all

end
