(* ===== verification/AtomicSave.thy ===== *)
theory AtomicSave
  imports LocalFile GoPath
begin

text \<open>
  Writing a file through a temporary one: the file-system calls the key store, the credential store and
  the run state share, the rule all three follow, and what the rule gives at every point of a write, so
  also after a crash: the file is the old one or the whole new one, never a part of it.
\<close>

section \<open>The file system calls\<close>

text \<open>A call answers the error it met, if any; \<open>os.CreateTemp\<close> answers the new file's name.\<close>

record 'w disk =
  dk_mkdir :: "string \<Rightarrow> 32 word \<Rightarrow> 'w \<Rightarrow> os_error option \<times> 'w"
  dk_create :: "string \<Rightarrow> string \<Rightarrow> 'w \<Rightarrow> (os_error + string) \<times> 'w"
  dk_chmod :: "string \<Rightarrow> 32 word \<Rightarrow> 'w \<Rightarrow> os_error option \<times> 'w"
  dk_write :: "string \<Rightarrow> string \<Rightarrow> 'w \<Rightarrow> os_error option \<times> 'w"
  dk_sync :: "string \<Rightarrow> 'w \<Rightarrow> os_error option \<times> 'w"
  dk_close :: "string \<Rightarrow> 'w \<Rightarrow> os_error option \<times> 'w"
  dk_rename :: "string \<Rightarrow> string \<Rightarrow> 'w \<Rightarrow> os_error option \<times> 'w"
  dk_sync_dir :: "string \<Rightarrow> 'w \<Rightarrow> os_error option \<times> 'w"
  dk_remove :: "string \<Rightarrow> 'w \<Rightarrow> os_error option \<times> 'w"

datatype disk_step =
    DMkdir string "32 word" "os_error option"
  | DCreate string string "os_error + string"
  | DChmod string "32 word" "os_error option"
  | DWrite string string "os_error option"
  | DSync string "os_error option"
  | DClose string "os_error option"
  | DRename string string "os_error option"
  | DSyncDir string "os_error option"
  | DRemove string "os_error option"

text \<open>The step of a write that failed, as its error says.\<close>

datatype save_stage = AtEncode | AtMkdir | AtCreate | AtChmod | AtWrite | AtSync | AtClose | AtRename | AtDirSync

type_synonym save_error = "save_stage \<times> os_error"

abbreviation owner_only :: "32 word" where
  "owner_only \<equiv> 0x180"

section \<open>What the calls leave\<close>

text \<open>A file's bytes and mode; a write that failed leaves bytes nobody knows.\<close>

datatype content = Bytes string | Torn

fun appended :: "content \<Rightarrow> string \<Rightarrow> content" where
  "appended (Bytes s) d = Bytes (s @ d)"
| "appended Torn d = Torn"

type_synonym files = "string \<Rightarrow> (content \<times> 32 word) option"

fun disk_apply :: "files \<Rightarrow> disk_step \<Rightarrow> files" where
  "disk_apply fs (DCreate d pat (Inr n)) = fs(n \<mapsto> (Bytes [], owner_only))"
| "disk_apply fs (DChmod n m None) = fs(n := map_option (\<lambda>(c, _). (c, m)) (fs n))"
| "disk_apply fs (DWrite n d e) =
     fs(n := map_option (\<lambda>(c, m). (if e = None then appended c d else Torn, m)) (fs n))"
| "disk_apply fs (DRename a b None) = (fs(a := None))(b := fs a)"
| "disk_apply fs (DRemove n None) = fs(n := None)"
| "disk_apply fs _ = fs"

definition disk_after :: "files \<Rightarrow> disk_step list \<Rightarrow> files" where
  "disk_after = foldl disk_apply"

lemma disk_after_simps [simp]:
  "disk_after fs [] = fs" "disk_after fs (es @ [x]) = disk_apply (disk_after fs es) x"
  by (simp_all add: disk_after_def)

section \<open>The rule\<close>

definition made :: "string \<Rightarrow> disk_step list \<Rightarrow> bool" where
  "made n before \<longleftrightarrow> list_ex (\<lambda>x. case x of DCreate d pat (Inr n') \<Rightarrow> n' = n | _ \<Rightarrow> False) before"

fun makes :: "disk_step \<Rightarrow> bool" where
  "makes (DCreate d pat (Inr n)) \<longleftrightarrow> True"
| "makes _ \<longleftrightarrow> False"

fun writes :: "disk_step \<Rightarrow> bool" where
  "writes (DWrite n d e) \<longleftrightarrow> True"
| "writes _ \<longleftrightarrow> False"

fun moves :: "disk_step \<Rightarrow> bool" where
  "moves (DRename a b None) \<longleftrightarrow> True"
| "moves _ \<longleftrightarrow> False"

fun drops :: "disk_step \<Rightarrow> bool" where
  "drops (DRemove n e) \<longleftrightarrow> True"
| "drops _ \<longleftrightarrow> False"

text \<open>
  One temporary file, private before anything is written to it, written once, and moved over the file
  only when it was made private, written whole, closed and, with \<open>synced\<close>, flushed.
\<close>

fun install_allowed :: "bool \<Rightarrow> string \<Rightarrow> string \<Rightarrow> disk_step list \<Rightarrow> disk_step \<Rightarrow> bool" where
  "install_allowed synced path data before (DCreate d pat r) \<longleftrightarrow> \<not> list_ex makes before"
| "install_allowed synced path data before (DChmod n m e) \<longleftrightarrow> made n before \<and> m = owner_only"
| "install_allowed synced path data before (DWrite n d e) \<longleftrightarrow>
     made n before \<and> d = data \<and> DChmod n owner_only None \<in> set before \<and> \<not> list_ex writes before \<and>
     \<not> list_ex moves before"
| "install_allowed synced path data before (DSync n e) \<longleftrightarrow> made n before"
| "install_allowed synced path data before (DClose n e) \<longleftrightarrow> made n before"
| "install_allowed synced path data before (DRename a b e) \<longleftrightarrow>
     b = path \<and> made a before \<and> DChmod a owner_only None \<in> set before \<and> DWrite a data None \<in> set before \<and>
     DClose a None \<in> set before \<and> (synced \<longrightarrow> DSync a None \<in> set before) \<and>
     \<not> list_ex moves before \<and> \<not> list_ex drops before"
| "install_allowed synced path data before (DRemove n e) \<longleftrightarrow> made n before"
| "install_allowed synced path data before _ \<longleftrightarrow> True"

text \<open>A new temporary file is not the file itself.\<close>

fun fresh_name :: "string \<Rightarrow> disk_step \<Rightarrow> bool" where
  "fresh_name path (DCreate d pat (Inr n)) \<longleftrightarrow> n \<noteq> path"
| "fresh_name path _ \<longleftrightarrow> True"

definition renamed :: "string \<Rightarrow> disk_step list \<Rightarrow> bool" where
  "renamed path es \<longleftrightarrow> list_ex (\<lambda>x. case x of DRename a b None \<Rightarrow> b = path | _ \<Rightarrow> False) es"

text \<open>The temporary file was taken away, or became the file.\<close>

definition cleaned :: "string \<Rightarrow> disk_step list \<Rightarrow> bool" where
  "cleaned path es \<longleftrightarrow> renamed path es \<or>
     list_all (\<lambda>x. case x of DCreate d pat (Inr n) \<Rightarrow> list_ex (\<lambda>y. case y of DRemove m e \<Rightarrow> m = n | _ \<Rightarrow> False) es | _ \<Rightarrow> True) es"

lemma made_simps [simp]:
  "made n [] = False"
  "made n (x # xs) = ((case x of DCreate d pat (Inr n') \<Rightarrow> n' = n | _ \<Rightarrow> False) \<or> made n xs)"
  "made n (xs @ ys) = (made n xs \<or> made n ys)"
  by (auto simp: made_def)

lemma renamed_simps [simp]:
  "renamed p [] = False"
  "renamed p (x # xs) = ((case x of DRename a b None \<Rightarrow> b = p | _ \<Rightarrow> False) \<or> renamed p xs)"
  "renamed p (xs @ ys) = (renamed p xs \<or> renamed p ys)"
  by (auto simp: renamed_def)

section \<open>Old or new\<close>

text \<open>What the disk holds at a point of a write that keeps to the rule.\<close>

definition install_inv :: "string \<Rightarrow> string \<Rightarrow> files \<Rightarrow> disk_step list \<Rightarrow> files \<Rightarrow> bool" where
  "install_inv path data fs0 before fs \<longleftrightarrow>
     fs path = (if list_ex moves before then Some (Bytes data, owner_only) else fs0 path) \<and>
     (list_ex moves before \<longleftrightarrow> renamed path before) \<and>
     (list_ex writes before \<longrightarrow> list_ex makes before) \<and>
     (\<forall>n. made n before \<longrightarrow> n \<noteq> path \<and> list_ex makes before) \<and>
     (\<forall>n. made n before \<longrightarrow> \<not> list_ex moves before \<longrightarrow> \<not> list_ex drops before \<longrightarrow>
        (\<exists>c. fs n = Some (c, owner_only) \<and>
           (\<not> list_ex writes before \<longrightarrow> c = Bytes []) \<and> (DWrite n data None \<in> set before \<longrightarrow> c = Bytes data)))"

lemma written_once: "DWrite n d e \<in> set before \<Longrightarrow> list_ex writes before"
  by (auto simp: list_ex_iff intro!: bexI [of _ "DWrite n d e"])

lemma install_inv_step:
  assumes inv: "install_inv path data fs0 before fs"
    and ok: "install_allowed synced path data before x" "fresh_name path x"
  shows "install_inv path data fs0 (before @ [x]) (disk_apply fs x)"
proof (cases x)
  case (DCreate d pat r)
  have nomake: "\<not> list_ex makes before" using ok DCreate by simp
  have nomade: "\<not> made n before" and nowrite: "\<not> list_ex writes before" for n
    using inv nomake unfolding install_inv_def by blast+
  have "DWrite n data None \<notin> set before" for n using written_once nowrite by blast
  with nomade nowrite nomake show ?thesis using inv ok DCreate unfolding install_inv_def
    by (cases r) auto
next
  case (DChmod n m e)
  then show ?thesis using inv ok unfolding install_inv_def by (cases e) (auto split: if_splits)
next
  case (DWrite n d e)
  have "made n before" "\<not> list_ex writes before" "d = data" "\<not> list_ex moves before" using ok DWrite by auto
  then show ?thesis using inv DWrite written_once [of n data None before]
    unfolding install_inv_def by (cases e) (auto split: if_splits)
next
  case (DRename a b e)
  then show ?thesis using inv ok unfolding install_inv_def by (cases e) (auto split: if_splits)
next
  case (DRemove n e)
  then show ?thesis using inv ok unfolding install_inv_def by (cases e) (auto split: if_splits)
qed (use inv in \<open>auto simp: install_inv_def split: if_splits\<close>)

lemma install_inv_all:
  "install_inv path data fs0 before (disk_after fs0 before) \<Longrightarrow>
   each_step (install_allowed synced path data) before es \<Longrightarrow> list_all (fresh_name path) es \<Longrightarrow>
   install_inv path data fs0 (before @ es) (disk_after fs0 (before @ es))"
proof (induction es arbitrary: before)
  case (Cons x xs)
  have "install_inv path data fs0 (before @ [x]) (disk_after fs0 (before @ [x]))"
    using install_inv_step [OF Cons.prems(1), of synced x] Cons.prems(2,3) by simp
  then show ?case using Cons.IH [of "before @ [x]"] Cons.prems(2,3) by simp
qed simp

lemma install_inv_start: "install_inv path data fs0 [] fs0"
  by (simp add: install_inv_def)

lemma old_or_new:
  assumes "each_step (install_allowed synced path data) [] es" "list_all (fresh_name path) es"
  shows "disk_after fs es path = (if renamed path es then Some (Bytes data, owner_only) else fs path)"
  using install_inv_all [OF _ assms, of fs] install_inv_start [of path data fs]
  by (auto simp: install_inv_def)

section \<open>The contract of a save\<close>

text \<open>The file was replaced: only the flush of the directory may still have failed.\<close>

definition installed :: "save_error option \<Rightarrow> bool" where
  "installed r \<longleftrightarrow> (case r of None \<Rightarrow> True | Some (stage, e) \<Rightarrow> stage = AtDirSync)"

lemma installed_simps [simp]: "installed None" "installed (Some (stage, e)) \<longleftrightarrow> stage = AtDirSync"
  by (simp_all add: installed_def)

text \<open>
  After every step of a save, so wherever it is cut off, the file is what it was or the whole of the
  data, private; at its end it is the data exactly when the save says so.
\<close>

definition saved_whole :: "string \<Rightarrow> string \<Rightarrow> files \<Rightarrow> save_error option \<Rightarrow> disk_step list \<Rightarrow> bool" where
  "saved_whole path data fs r es \<longleftrightarrow>
     (if list_all (fresh_name path) es
      then list_all (\<lambda>n. disk_after fs (take n es) path = fs path \<or>
             disk_after fs (take n es) path = Some (Bytes data, owner_only)) [0..<length es + 1] \<and>
           disk_after fs es path = (if installed r then Some (Bytes data, owner_only) else fs path)
      else True)"

text \<open>
  \<open>save\<close> keeps to the rule and reports that it replaced the file exactly when it moved the new one into
  place.
\<close>

locale atomic_save =
  fixes save :: "string \<Rightarrow> string \<Rightarrow> (('w, disk_step) sys, save_error option) state"
    and synced :: bool
  assumes rule: "emits (save path data) (\<lambda>r es. each_step (install_allowed synced path data) [] es)"
    and outcome: "emits (save path data) (\<lambda>r es. renamed path es \<longleftrightarrow> installed r)"
begin

lemma whole: "emits (save path data) (\<lambda>r es. saved_whole path data fs r es)"
proof (rule emits_weaken [OF emits_conj [OF rule outcome]], elim conjE)
  fix r es
  assume keeps: "each_step (install_allowed synced path data) [] es" and end_of: "renamed path es \<longleftrightarrow> installed r"
  have part: "disk_after fs (take n es) path = fs path \<or> disk_after fs (take n es) path = Some (Bytes data, owner_only)"
    if "list_all (fresh_name path) es" for n
  proof -
    have "list_all (fresh_name path) (take n es)" using that by (auto simp: list_all_iff dest: in_set_takeD)
    then show ?thesis using old_or_new [OF each_step_take [OF keeps], of n fs] by simp
  qed
  show "saved_whole path data fs r es"
    using old_or_new [OF keeps, of fs] part end_of by (simp add: saved_whole_def list_all_iff)
qed

end

section \<open>Steps that may fail\<close>

text \<open>\<open>if err := m; err != nil { return err }\<close>, and the same with a clean-up before the return.\<close>

definition try_step ::
  "(('w, 's) sys, os_error option) state \<Rightarrow> save_stage \<Rightarrow> (('w, 's) sys, save_error option) state \<Rightarrow>
   (('w, 's) sys, save_error option) state" where
  "try_step m stage k = do {
     e \<leftarrow> m;
     (case e of Some er \<Rightarrow> ret (Some (stage, er)) | None \<Rightarrow> k)
   }"

definition try_or ::
  "(('w, 's) sys, 'b) state \<Rightarrow> (('w, 's) sys, os_error option) state \<Rightarrow> save_stage \<Rightarrow>
   (('w, 's) sys, save_error option) state \<Rightarrow> (('w, 's) sys, save_error option) state" where
  "try_or clean m stage k = do {
     e \<leftarrow> m;
     (case e of Some er \<Rightarrow> do { _ \<leftarrow> clean; ret (Some (stage, er)) } | None \<Rightarrow> k)
   }"

lemmas save_defs = try_step_def try_or_def

end
