(* ===== verification/KeyStore.thy ===== *)
theory KeyStore
  imports AtomicSave
begin

text \<open>
  The connector's private key (\<open>auth/keystore.go\<close>, \<open>auth/mldsa.go\<close>): reading it with its permissions
  judged on the open file, probing that it could be stored, storing it through a temporary file, and the
  message a challenge is signed over. The ML-DSA-65 library is a parameter.
\<close>

section \<open>The signature library\<close>

text \<open>\<open>mldsa65.PrivateKeySize\<close>, \<open>Unpack\<close> (of a packed key of that size), \<open>Pack\<close> and \<open>SignTo\<close>.\<close>

record 'k mldsa =
  key_size :: nat
  unpack_key :: "string \<Rightarrow> 'k"
  pack_key :: "'k \<Rightarrow> string"
  sign_to :: "'k \<Rightarrow> string \<Rightarrow> string"

text \<open>A packed key has the documented size and unpacks to itself.\<close>

definition mldsa_ok :: "'k mldsa \<Rightarrow> bool" where
  "mldsa_ok L \<longleftrightarrow> (\<forall>k. length (pack_key L k) = key_size L \<and> unpack_key L (pack_key L k) = k)"

definition unmarshal_private_key :: "'k mldsa \<Rightarrow> string \<Rightarrow> 'k option" where
  "unmarshal_private_key L data = (if length data \<noteq> key_size L then None else Some (unpack_key L data))"

text \<open>The buffer's first 32 bytes are the challenge, the rest the connector's id.\<close>

definition sign_challenge :: "'k mldsa \<Rightarrow> 'k \<Rightarrow> string \<Rightarrow> string \<Rightarrow> string" where
  "sign_challenge L priv challenge connector_id = sign_to L priv (challenge @ connector_id)"

section \<open>Loading\<close>

datatype key_fault =
    KeyReadFailed os_error | KeyStatFailed | KeyNotRegular | KeyUnsafePermissions | KeyUnparsable

record 'w key_world =
  kw_file :: "'w file_world"
  kw_disk :: "'w disk"
  kw_read_all :: "'w \<Rightarrow> (os_error + string) \<times> 'w"

datatype key_step = KFile file_step | KDisk disk_step | KReadAll "os_error + string"

abbreviation kfile :: "('w \<Rightarrow> 'a \<times> 'w) \<Rightarrow> ('a \<Rightarrow> file_step) \<Rightarrow> (('w, key_step) sys, 'a) state" where
  "kfile f mk \<equiv> effect f (KFile \<circ> mk)"

text \<open>\<open>Load\<close> once the file is open; the deferred close comes last. \<open>Inr None\<close> is \<open>(nil, false, nil)\<close>.\<close>

definition key_read_open ::
  "'k mldsa \<Rightarrow> 'w key_world \<Rightarrow> (('w, key_step) sys, key_fault + 'k option) state" where
  "key_read_open L W = do {
     st \<leftarrow> kfile (fw_stat (kw_file W)) FStat;
     (case st of
        Inl e \<Rightarrow> ret (Inl KeyStatFailed)
      | Inr i \<Rightarrow>
          (if \<not> si_regular i then ret (Inl KeyNotRegular)
           else if si_mode i AND 0x3F \<noteq> 0 then ret (Inl KeyUnsafePermissions)
           else do {
             b \<leftarrow> effect (kw_read_all W) KReadAll;
             ret (case b of
                Inl e \<Rightarrow> Inl (KeyReadFailed e)
              | Inr data \<Rightarrow>
                  (case unmarshal_private_key L data of
                     None \<Rightarrow> Inl KeyUnparsable
                   | Some priv \<Rightarrow> Inr (Some priv)))
           }))
   }"

definition key_load ::
  "'k mldsa \<Rightarrow> 'w key_world \<Rightarrow> string \<Rightarrow> (('w, key_step) sys, key_fault + 'k option) state" where
  "key_load L W path = do {
     e \<leftarrow> kfile (fw_open (kw_file W) path) (FOpened path);
     (case e of
        Some er \<Rightarrow> ret (if er = NoEnt then Inr None else Inl (KeyReadFailed er))
      | None \<Rightarrow> do {
          r \<leftarrow> key_read_open L W;
          _ \<leftarrow> kfile (fw_close (kw_file W)) FClosed;
          ret r
        })
   }"

section \<open>Probing and storing\<close>

text \<open>The error joined from a write and a close.\<close>

definition probe_writable :: "'k mldsa \<Rightarrow> 'w disk \<Rightarrow> string \<Rightarrow> (('w, disk_step) sys, save_error option) state" where
  "probe_writable L D path = do {
     f \<leftarrow> effect (dk_create D (path_dir path) ''.keycheck-*.tmp'') (DCreate (path_dir path) ''.keycheck-*.tmp'');
     (case f of
        Inl e \<Rightarrow> ret (Some (AtCreate, e))
      | Inr n \<Rightarrow> (let zeros = replicate (key_size L) (CHR 0x00) in do {
          w \<leftarrow> effect (dk_write D n zeros) (DWrite n zeros);
          c \<leftarrow> effect (dk_close D n) (DClose n);
          _ \<leftarrow> effect (dk_remove D n) (DRemove n);
          ret (case w of Some e \<Rightarrow> Some (AtWrite, e) | None \<Rightarrow> map_option (Pair AtClose) c)
        }))
   }"

definition ensure_writable :: "'k mldsa \<Rightarrow> 'w disk \<Rightarrow> string \<Rightarrow> (('w, disk_step) sys, save_error option) state" where
  "ensure_writable L D path =
     try_step (effect (dk_mkdir D (path_dir path) 0x1C0) (DMkdir (path_dir path) 0x1C0)) AtMkdir
       (probe_writable L D path)"

text \<open>The part of \<open>Save\<close> between the creation of the temporary file and the deferred close and removal.\<close>

definition key_fill :: "'w disk \<Rightarrow> string \<Rightarrow> string \<Rightarrow> string \<Rightarrow> (('w, disk_step) sys, save_error option) state" where
  "key_fill D path data n =
     try_step (effect (dk_chmod D n owner_only) (DChmod n owner_only)) AtChmod
       (try_step (effect (dk_write D n data) (DWrite n data)) AtWrite
         (try_step (effect (dk_close D n) (DClose n)) AtClose
           (try_step (effect (dk_rename D n path) (DRename n path)) AtRename (ret None))))"

definition key_store_data :: "'w disk \<Rightarrow> string \<Rightarrow> string \<Rightarrow> (('w, disk_step) sys, save_error option) state" where
  "key_store_data D path data =
     try_step (effect (dk_mkdir D (path_dir path) 0x1C0) (DMkdir (path_dir path) 0x1C0)) AtMkdir (do {
       f \<leftarrow> effect (dk_create D (path_dir path) ''.key-*.tmp'') (DCreate (path_dir path) ''.key-*.tmp'');
       (case f of
          Inl e \<Rightarrow> ret (Some (AtCreate, e))
        | Inr n \<Rightarrow> do {
            r \<leftarrow> key_fill D path data n;
            _ \<leftarrow> effect (dk_close D n) (DClose n);
            _ \<leftarrow> effect (dk_remove D n) (DRemove n);
            ret r
          })
     })"

definition key_save :: "'k mldsa \<Rightarrow> 'w disk \<Rightarrow> string \<Rightarrow> 'k \<Rightarrow> (('w, disk_step) sys, save_error option) state" where
  "key_save L D path priv = key_store_data D path (pack_key L priv)"

section \<open>Lemmas\<close>

lemmas key_intros = emits_bind emits_effect emits_return emits_sum emits_if emits_option emits_let

lemma key_store_rule:
  "emits (key_store_data D path data) (\<lambda>r es. each_step (install_allowed False path data) [] es)"
  unfolding key_store_data_def key_fill_def save_defs by (intro key_intros) simp_all

lemma key_store_outcome:
  "emits (key_store_data D path data)
     (\<lambda>r es. renamed path es \<longleftrightarrow> installed r)"
  unfolding key_store_data_def key_fill_def save_defs by (intro key_intros) auto

lemma key_store_cleaned: "emits (key_store_data D path data) (\<lambda>r es. cleaned path es)"
  unfolding key_store_data_def key_fill_def save_defs by (intro key_intros) (simp_all add: cleaned_def)

interpretation key_file: atomic_save "key_store_data D" False for D :: "'w disk"
  by unfold_locales (rule key_store_rule, rule key_store_outcome)

text \<open>The loader of a key judges the open file before it reads a byte.\<close>

lemma key_load_vetted:
  "emits (key_load L W path) (\<lambda>r es.
     (\<forall>b. KReadAll b \<in> set es \<longrightarrow> (\<exists>i. take 2 es = [KFile (FOpened path None), KFile (FStat (Inr i))] \<and>
         si_regular i \<and> si_mode i AND 0x3F = 0)) \<and>
     (case r of
        Inr None \<Rightarrow> es = [KFile (FOpened path (Some NoEnt))]
      | Inr (Some k) \<Rightarrow> \<exists>data. KReadAll (Inr data) \<in> set es \<and> unmarshal_private_key L data = Some k
      | Inl e \<Rightarrow> KFile (FOpened path (Some NoEnt)) \<notin> set es))"
  unfolding key_load_def key_read_open_def comp_def
  by (intro key_intros) (auto split: sum.splits option.splits if_splits)

end
