(* ===== verification/TempHomes.thy ===== *)
theory TempHomes
  imports LocalFile GoPath
begin

text \<open>
  The directories git works in (\<open>gitsync/gitexec.go\<close>): the temporary root, the home of one operation and the sweep of
  the homes a crash left; and what the preflight command asks of directories (\<open>gitsync/preflight.go\<close>). The file system is
  the world, and every call is logged.
\<close>

section \<open>Directories\<close>

text \<open>
  \<open>dw_stat\<close> says whether there is a directory, \<open>dw_lstat\<close> whether the entry itself is one and when it was modified;
  \<open>dw_access\<close> whether it can be written and entered.
\<close>

record 'w dir_world =
  dw_stat :: "string \<Rightarrow> 'w \<Rightarrow> (os_error + bool) \<times> 'w"
  dw_lstat :: "string \<Rightarrow> 'w \<Rightarrow> (os_error + bool \<times> gtime) \<times> 'w"
  dw_access :: "string \<Rightarrow> 'w \<Rightarrow> bool \<times> 'w"
  dw_read_dir :: "string \<Rightarrow> 'w \<Rightarrow> (os_error + string list) \<times> 'w"
  dw_mkdir_all :: "string \<Rightarrow> 32 word \<Rightarrow> 'w \<Rightarrow> os_error option \<times> 'w"
  dw_mkdir_temp :: "string \<Rightarrow> string \<Rightarrow> 'w \<Rightarrow> (os_error + string) \<times> 'w"
  dw_remove :: "string \<Rightarrow> 'w \<Rightarrow> os_error option \<times> 'w"
  dw_remove_all :: "string \<Rightarrow> 'w \<Rightarrow> os_error option \<times> 'w"
  dw_create :: "string \<Rightarrow> 'w \<Rightarrow> os_error option \<times> 'w"
  dw_write :: "string \<Rightarrow> string \<Rightarrow> 'w \<Rightarrow> os_error option \<times> 'w"
  dw_close :: "string \<Rightarrow> 'w \<Rightarrow> os_error option \<times> 'w"

datatype dir_step =
    DirStat string "os_error + bool" | DirLstat string "os_error + bool \<times> gtime" | DirAccess string bool
  | DirRead string "os_error + string list" | DirMade string "32 word" "os_error option"
  | DirTemp string string "os_error + string" | DirRemoved string "os_error option" | TreeRemoved string "os_error option"
  | FileMade string "os_error option" | FileWritten string string "os_error option" | FileShut string "os_error option"

section \<open>The temporary root\<close>

definition temp_home_prefix :: string where
  "temp_home_prefix = ''gitsync-home-''"

text \<open>\<open>os.TempDir\<close> is \<open>TMPDIR\<close> or \<open>/tmp\<close>. The path, if it is absolute, and the variable it came from.\<close>

definition temp_root_path :: "(string \<Rightarrow> string) \<Rightarrow> string option \<times> string" where
  "temp_root_path getenv =
     (let own = getenv ''GIT_SYNC_TMP_DIR'';
          dir = (if own \<noteq> [] then own else if getenv ''TMPDIR'' \<noteq> [] then getenv ''TMPDIR'' else ''/tmp'');
          var = (if own \<noteq> [] then ''GIT_SYNC_TMP_DIR'' else ''TMPDIR'')
      in (if rooted dir then Some (path_clean dir) else None, var))"

datatype temp_fault = TempRelative string | TempUnusable os_error | TempNotWritable os_error | TempNotRemovable os_error

definition resolve_temp_root ::
  "(string \<Rightarrow> string) \<Rightarrow> 'w dir_world \<Rightarrow> (('w, dir_step) sys, temp_fault + string) state" where
  "resolve_temp_root getenv W =
     (case temp_root_path getenv of
        (None, var) \<Rightarrow> ret (Inl (TempRelative var))
      | (Some dir, var) \<Rightarrow> do {
          e \<leftarrow> effect (dw_mkdir_all W dir 0x1C0) (DirMade dir 0x1C0);
          ret (case e of Some er \<Rightarrow> Inl (TempUnusable er) | None \<Rightarrow> Inr dir)
        })"

definition temp_root :: "(string \<Rightarrow> string) \<Rightarrow> 'w dir_world \<Rightarrow> (('w, dir_step) sys, temp_fault + string) state" where
  "temp_root getenv W = do {
     r \<leftarrow> resolve_temp_root getenv W;
     (case r of
        Inl e \<Rightarrow> ret (Inl e)
      | Inr dir \<Rightarrow> do {
          p \<leftarrow> effect (dw_mkdir_temp W dir temp_home_prefix) (DirTemp dir temp_home_prefix);
          (case p of
             Inl e \<Rightarrow> ret (Inl (TempNotWritable e))
           | Inr probe \<Rightarrow> do {
               e \<leftarrow> effect (dw_remove W probe) (DirRemoved probe);
               ret (case e of Some er \<Rightarrow> Inl (TempNotRemovable er) | None \<Rightarrow> Inr dir)
             })
        })
   }"

text \<open>\<open>newTempHome\<close>; its clean-up is \<open>drop_temp_home\<close>.\<close>

definition new_temp_home :: "(string \<Rightarrow> string) \<Rightarrow> 'w dir_world \<Rightarrow> (('w, dir_step) sys, temp_fault + string) state" where
  "new_temp_home getenv W = do {
     r \<leftarrow> resolve_temp_root getenv W;
     (case r of
        Inl e \<Rightarrow> ret (Inl e)
      | Inr dir \<Rightarrow> do {
          p \<leftarrow> effect (dw_mkdir_temp W dir temp_home_prefix) (DirTemp dir temp_home_prefix);
          ret (case p of Inl e \<Rightarrow> Inl (TempNotWritable e) | Inr home \<Rightarrow> Inr home)
        })
   }"

definition drop_temp_home :: "'w dir_world \<Rightarrow> string \<Rightarrow> (('w, dir_step) sys, os_error option) state" where
  "drop_temp_home W home = effect (dw_remove_all W home) (TreeRemoved home)"

section \<open>The sweep\<close>

definition first_of :: "os_error option \<Rightarrow> os_error \<Rightarrow> os_error option" where
  "first_of first e = (case first of None \<Rightarrow> Some e | Some f \<Rightarrow> Some f)"

text \<open>One entry: how many directories were removed so far, and the first error.\<close>

definition sweep_entry ::
  "'w dir_world \<Rightarrow> string \<Rightarrow> gtime \<Rightarrow> string \<Rightarrow> nat \<times> os_error option \<Rightarrow> (('w, dir_step) sys, nat \<times> os_error option) state" where
  "sweep_entry W dir cutoff name acc =
     (if \<not> prefix temp_home_prefix name then ret acc
      else (let path = path_join dir name in do {
        i \<leftarrow> effect (dw_lstat W path) (DirLstat path);
        (case i of
           Inl e \<Rightarrow> ret (if e = NoEnt then acc else (fst acc, first_of (snd acc) e))
         | Inr (is_dir, mtime) \<Rightarrow>
             (if \<not> is_dir \<or> cutoff < mtime then ret acc
              else do {
                e \<leftarrow> effect (dw_remove_all W path) (TreeRemoved path);
                ret (case e of Some er \<Rightarrow> (fst acc, first_of (snd acc) er) | None \<Rightarrow> (fst acc + 1, snd acc))
              }))
      }))"

fun sweep_loop ::
  "'w dir_world \<Rightarrow> string \<Rightarrow> gtime \<Rightarrow> string list \<Rightarrow> nat \<times> os_error option \<Rightarrow> (('w, dir_step) sys, nat \<times> os_error option) state" where
  "sweep_loop W dir cutoff [] acc = ret acc"
| "sweep_loop W dir cutoff (n # ns) acc = do { a \<leftarrow> sweep_entry W dir cutoff n acc; sweep_loop W dir cutoff ns a }"

definition relative_root :: os_error where
  "relative_root = OtherErrno ''relative''"

definition sweep_stale_homes ::
  "'w dir_world \<Rightarrow> gtime \<Rightarrow> string \<Rightarrow> duration \<Rightarrow> (('w, dir_step) sys, nat \<times> os_error option) state" where
  "sweep_stale_homes W now dir older =
     (if \<not> rooted dir then ret (0, Some relative_root)
      else do {
        l \<leftarrow> effect (dw_read_dir W dir) (DirRead dir);
        (case l of
           Inl e \<Rightarrow> ret (0, if e = NoEnt then None else Some e)
         | Inr names \<Rightarrow> sweep_loop W dir (now - older) names (0, None))
      })"

text \<open>
  A tree is removed right after its entry was seen to be a directory, itself and no link, that carries the prefix, stands
  in the root and is old enough; nothing else is changed.
\<close>

fun sweep_allowed :: "string \<Rightarrow> string list \<Rightarrow> gtime \<Rightarrow> dir_step list \<Rightarrow> dir_step \<Rightarrow> bool" where
  "sweep_allowed dir names cutoff before (TreeRemoved p e) \<longleftrightarrow>
     list_ex (\<lambda>n. prefix temp_home_prefix n \<and> p = path_join dir n) names \<and>
     (case rev before of DirLstat q (Inr (is_dir, mtime)) # _ \<Rightarrow> q = p \<and> is_dir \<and> mtime \<le> cutoff | _ \<Rightarrow> False)"
| "sweep_allowed dir names cutoff before (DirLstat p r) \<longleftrightarrow> True"
| "sweep_allowed dir names cutoff before (DirRead p r) \<longleftrightarrow> p = dir \<and> before = []"
| "sweep_allowed dir names cutoff before x \<longleftrightarrow> False"

definition trees_removed :: "dir_step list \<Rightarrow> nat" where
  "trees_removed es = length (filter (\<lambda>x. case x of TreeRemoved p None \<Rightarrow> True | _ \<Rightarrow> False) es)"

text \<open>The errors worth a note, in order: of an entry that is not simply gone, or of a removal.\<close>

fun step_error :: "dir_step \<Rightarrow> os_error option" where
  "step_error (DirLstat p (Inl e)) = (if e = NoEnt then None else Some e)"
| "step_error (TreeRemoved p e) = e"
| "step_error _ = None"

fun first_noted :: "dir_step list \<Rightarrow> os_error option" where
  "first_noted [] = None"
| "first_noted (x # es) = (case step_error x of None \<Rightarrow> first_noted es | Some e \<Rightarrow> Some e)"

lemma trees_removed_append [simp]: "trees_removed (es @ fs) = trees_removed es + trees_removed fs"
  by (simp add: trees_removed_def)

lemma first_noted_append [simp]:
  "first_noted (es @ fs) = (case first_noted es of None \<Rightarrow> first_noted fs | Some e \<Rightarrow> Some e)"
  by (induction es) (auto split: option.splits)

definition swept :: "string \<Rightarrow> string list \<Rightarrow> gtime \<Rightarrow> nat \<times> os_error option \<Rightarrow> nat \<times> os_error option \<Rightarrow> dir_step list \<Rightarrow> bool" where
  "swept dir names cutoff acc r es \<longleftrightarrow>
     (\<forall>before. each_step (sweep_allowed dir names cutoff) before es) \<and>
     fst r = fst acc + trees_removed es \<and>
     snd r = (case snd acc of None \<Rightarrow> first_noted es | Some e \<Rightarrow> Some e)"

lemmas dir_intros = emits_bind emits_effect emits_return emits_sum emits_if emits_option emits_let emits_prod

lemma sweep_entry_swept: "n \<in> set names \<Longrightarrow> emits (sweep_entry W dir cutoff n acc) (swept dir names cutoff acc)"
  unfolding sweep_entry_def Let_def
  by (intro dir_intros)
     (auto simp: swept_def trees_removed_def first_of_def list_ex_iff
        split: option.splits)

lemma sweep_loop_swept: "set ns \<subseteq> set names \<Longrightarrow> emits (sweep_loop W dir cutoff ns acc) (swept dir names cutoff acc)"
proof (induction ns arbitrary: acc)
  case Nil
  show ?case by (simp add: emits_return swept_def trees_removed_def split: option.split)
next
  case (Cons n ns)
  have ns: "set ns \<subseteq> set names" and n: "n \<in> set names" using Cons.prems by auto
  show ?case
    unfolding sweep_loop.simps
    by (rule emits_then [OF sweep_entry_swept [OF n]], rule emits_weaken [OF Cons.IH [OF ns]])
       (auto simp: swept_def split: option.splits)
qed

text \<open>In every world, the sweep removes a tree only right after its entry, a direct child of the root with
the prefix, was seen to be a directory itself, no link, last modified before the cutoff; it changes
nothing else, goes on after failures, and returns how many trees it removed and the first failure.\<close>

theorem sweep_removes_stale_only:
  "emits (sweep_stale_homes W now dir older) (\<lambda>r es.
     (case es of
        DirRead d (Inr names) # rest \<Rightarrow> each_step (sweep_allowed dir names (now - older)) [] es
      | _ \<Rightarrow> trees_removed es = 0 \<and> length es \<le> 1) \<and>
     fst r = trees_removed es \<and>
     (case es of DirRead d (Inr names) # rest \<Rightarrow> snd r = first_noted rest | _ \<Rightarrow> True))"
  unfolding sweep_stale_homes_def
proof (intro emits_if emits_return emits_bind emits_effect emits_sum)
  fix l :: "os_error + string list" and names
  assume l: "l = Inr names"
  show "emits (sweep_loop W dir (now - older) names (0, None)) (\<lambda>b fs.
      (case [DirRead dir l] @ fs of
         DirRead d (Inr names) # rest \<Rightarrow> each_step (sweep_allowed dir names (now - older)) [] ([DirRead dir l] @ fs)
       | _ \<Rightarrow> trees_removed ([DirRead dir l] @ fs) = 0 \<and> length ([DirRead dir l] @ fs) \<le> 1) \<and>
      fst b = trees_removed ([DirRead dir l] @ fs) \<and>
      (case [DirRead dir l] @ fs of DirRead d (Inr names) # rest \<Rightarrow> snd b = first_noted rest | _ \<Rightarrow> True))"
    by (rule emits_weaken [OF sweep_loop_swept [of names names]])
       (auto simp: l swept_def trees_removed_def)
qed (auto simp: trees_removed_def)

section \<open>What preflight asks of directories\<close>

text \<open>\<open>CheckTempRootWritable\<close>: None when the root is usable.\<close>

datatype root_fault = RootMissing | RootError os_error | RootNotDir

definition root_fault_of :: "os_error \<Rightarrow> root_fault" where
  "root_fault_of e = (if e = NoEnt then RootMissing else RootError e)"

definition preflight_probe_prefix :: string where
  "preflight_probe_prefix = temp_home_prefix @ ''preflight-''"

definition probe_file :: "'w dir_world \<Rightarrow> string \<Rightarrow> (('w, dir_step) sys, root_fault option) state" where
  "probe_file W path = do {
     c \<leftarrow> effect (dw_create W path) (FileMade path);
     (case c of
        Some e \<Rightarrow> ret (Some (root_fault_of e))
      | None \<Rightarrow> do {
          w \<leftarrow> effect (dw_write W path ''probe'') (FileWritten path ''probe'');
          s \<leftarrow> effect (dw_close W path) (FileShut path);
          ret (case w of Some e \<Rightarrow> Some (root_fault_of e) | None \<Rightarrow> map_option root_fault_of s)
        })
   }"

definition check_temp_root_writable :: "'w dir_world \<Rightarrow> string \<Rightarrow> (('w, dir_step) sys, root_fault option) state" where
  "check_temp_root_writable W dir = do {
     s \<leftarrow> effect (dw_stat W dir) (DirStat dir);
     (case s of
        Inl e \<Rightarrow> ret (Some (root_fault_of e))
      | Inr is_dir \<Rightarrow>
          (if \<not> is_dir then ret (Some RootNotDir)
           else do {
             t \<leftarrow> effect (dw_mkdir_temp W dir preflight_probe_prefix) (DirTemp dir preflight_probe_prefix);
             (case t of
                Inl e \<Rightarrow> ret (Some (root_fault_of e))
              | Inr sub \<Rightarrow> do {
                  r \<leftarrow> probe_file W (path_join sub ''probe'');
                  _ \<leftarrow> effect (dw_remove_all W sub) (TreeRemoved sub);
                  ret r
                })
           }))
   }"

text \<open>The check makes one directory of its own in the root and a file in it, and takes both away in the end.\<close>

lemma root_check_leaves_nothing:
  "emits (check_temp_root_writable W dir) (\<lambda>r es. case es of
     [DirStat d s] \<Rightarrow> d = dir \<and> r \<noteq> None
   | [DirStat d s, DirTemp d2 p (Inl e)] \<Rightarrow> r \<noteq> None
   | DirStat d s # DirTemp d2 p (Inr sub) # rest \<Rightarrow> d2 = dir \<and> prefix temp_home_prefix p \<and>
       (case rev rest of
          TreeRemoved q e # made \<Rightarrow> q = sub \<and>
            list_all (\<lambda>x. case x of FileMade f e \<Rightarrow> f = path_join sub ''probe'' | FileWritten f b e \<Rightarrow> f = path_join sub ''probe''
                         | FileShut f e \<Rightarrow> True | _ \<Rightarrow> False) made
        | _ \<Rightarrow> False)
   | _ \<Rightarrow> False)"
  unfolding check_temp_root_writable_def probe_file_def
  by (intro dir_intros) (auto simp: preflight_probe_prefix_def)

section \<open>The nearest existing directory\<close>

text \<open>How long a clean path is, by its elements.\<close>

definition weight :: "string list \<Rightarrow> nat" where
  "weight es = sum_list (map (\<lambda>e. Suc (length e)) es)"

lemma weight_simps [simp]:
  "weight [] = 0" "weight (e # es) = Suc (length e) + weight es" "weight (es @ fs) = weight es + weight fs"
  by (simp_all add: weight_def)

lemma weight_rev [simp]: "weight (rev es) = weight es"
  by (induction es) auto

lemma weight_clean_step: "weight (clean_step r kept e) \<le> weight kept + (if e = [] then 0 else Suc (length e))"
  by (auto simp: clean_step_def split: list.split)

lemma weight_clean_fold: "weight (foldl (clean_step r) kept es) \<le> weight kept + weight (filter (\<lambda>e. e \<noteq> []) es)"
proof (induction es arbitrary: kept)
  case (Cons e es)
  show ?case using Cons.IH [of "clean_step r kept e"] weight_clean_step [of r kept e] by (auto split: if_splits)
qed simp

lemma length_join: "length (join [d] es) = weight es - 1"
  by (induction "[d]" es rule: join.induct) auto

lemma weight_split: "weight (split_on d s) = Suc (length s)"
  by (induction s) (auto split: list.splits)

lemma weight_filter: "weight (filter P es) \<le> weight es"
  by (induction es) auto

lemma split_on_ended: "split_on d (s @ [d]) = split_on d s @ [[]]"
  by (induction s) (auto split: list.splits)

lemma length_path_clean: "length (path_clean p) \<le> max 1 (length p)"
proof -
  have w: "weight (clean_elements p) \<le> weight (filter (\<lambda>e. e \<noteq> []) (split_on slash p))"
    using weight_clean_fold [of _ "[]"] by (simp add: clean_elements_def)
  show ?thesis
  proof (cases "take 1 p = [slash]")
    case True
    then obtain q where p: "p = slash # q" by (cases p) auto
    then have "weight (clean_elements p) \<le> length p"
      using w weight_filter [of "\<lambda>e. e \<noteq> []" "split_on slash q"] by (simp add: weight_split)
    with True show ?thesis by (simp add: path_clean_def Let_def length_join)
  next
    case False
    have "weight (clean_elements p) - 1 \<le> length p"
      using w weight_filter [of "\<lambda>e. e \<noteq> []" "split_on slash p"] by (simp add: weight_split)
    with False show ?thesis by (simp add: path_clean_def Let_def length_join le_max_iff_disj)
  qed
qed

text \<open>Going up makes a path shorter, but at the root and at the working directory.\<close>

lemma path_dir_shorter: "path_dir p = ''.'' \<or> path_dir p = [slash] \<or> length (path_dir p) < length p"
proof -
  define q where "q = rev (dropWhile (\<lambda>c. c \<noteq> slash) (rev p))"
  have q_le: "length q \<le> length p" unfolding q_def by (metis length_dropWhile_le length_rev)
  have dir: "path_dir p = path_clean q" by (simp add: path_dir_def q_def)
  show ?thesis
  proof (cases "slash \<in> set p")
    case False
    then have "dropWhile (\<lambda>c. c \<noteq> slash) (rev p) = []" by (auto simp: dropWhile_eq_Nil_conv)
    then have "q = []" by (simp add: q_def)
    then show ?thesis by (simp add: dir path_clean_def clean_elements_def clean_step_def)
  next
    case True
    then have ne: "dropWhile (\<lambda>c. c \<noteq> slash) (rev p) \<noteq> []" by (auto simp: dropWhile_eq_Nil_conv)
    then obtain c t where ct: "dropWhile (\<lambda>c. c \<noteq> slash) (rev p) = c # t" by (cases "dropWhile (\<lambda>c. c \<noteq> slash) (rev p)") auto
    with hd_dropWhile [OF ne] have "dropWhile (\<lambda>c. c \<noteq> slash) (rev p) = slash # t" by simp
    then have q: "q = rev t @ [slash]" by (simp add: q_def)
    have w: "weight (clean_elements q) \<le> weight (filter (\<lambda>e. e \<noteq> []) (split_on slash (rev t)))"
      using weight_clean_fold [of _ "[]" "split_on slash q"] by (simp add: clean_elements_def q split_on_ended)
    show ?thesis
    proof (cases "take 1 q = [slash]")
      case rooted: True
      show ?thesis
      proof (cases "rev t")
        case Nil
        then show ?thesis by (simp add: dir q path_clean_def clean_elements_def clean_step_def)
      next
        case (Cons c u)
        with rooted q have "rev t = slash # u" by simp
        with w have "weight (clean_elements q) \<le> Suc (length u)"
          using weight_filter [of "\<lambda>e. e \<noteq> []" "split_on slash u"] by (simp add: weight_split)
        moreover have "length q = Suc (Suc (length u))" using q \<open>rev t = slash # u\<close> by simp
        ultimately have "clean_elements q = [] \<or> Suc (weight (clean_elements q) - 1) < length p" using q_le by auto
        then show ?thesis using rooted by (auto simp: dir path_clean_def Let_def length_join)
      qed
    next
      case False
      have "weight (clean_elements q) \<le> length q"
        using w weight_filter [of "\<lambda>e. e \<noteq> []" "split_on slash (rev t)"] by (simp add: weight_split q)
      then show ?thesis using False q_le q by (auto simp: dir path_clean_def Let_def length_join)
    qed
  qed
qed

lemma path_dir_fixed: "path_dir ''.'' = ''.''" "path_dir [slash] = [slash]"
  by (simp_all add: path_dir_def path_clean_def clean_elements_def clean_step_def slash_def)

text \<open>How far up a path can still go.\<close>

definition height :: "string \<Rightarrow> nat" where
  "height p = (if p = ''.'' \<or> p = [slash] then 0 else Suc (length p))"

lemma height_decreases: "path_dir p \<noteq> p \<Longrightarrow> height (path_dir p) < height p"
  using path_dir_shorter [of p] path_dir_fixed by (auto simp: height_def)

text \<open>\<open>CanCreateDir\<close>: the loop has no bound of its own.\<close>

function can_create_from :: "'w dir_world \<Rightarrow> string \<Rightarrow> (('w, dir_step) sys, bool) state" where
  "can_create_from W dir = do {
     s \<leftarrow> effect (dw_stat W dir) (DirStat dir);
     (case s of
        Inr is_dir \<Rightarrow> if is_dir then effect (dw_access W dir) (DirAccess dir) else ret False
      | Inl e \<Rightarrow> if e \<noteq> NoEnt \<or> dir = path_dir dir then ret False else can_create_from W (path_dir dir))
   }"
  by pat_completeness auto
termination
  by (relation "measure (\<lambda>(W, dir). height dir)") (auto simp: height_decreases)

declare can_create_from.simps [simp del]

definition can_create_dir :: "'w dir_world \<Rightarrow> string \<Rightarrow> (('w, dir_step) sys, bool) state" where
  "can_create_dir W path = can_create_from W (path_dir (path_clean path))"

text \<open>The walk: every step but the last found nothing; the first that found something decides.\<close>

fun walk :: "string \<Rightarrow> bool \<Rightarrow> dir_step list \<Rightarrow> bool" where
  "walk dir r [] \<longleftrightarrow> False"
| "walk dir r (x # es) \<longleftrightarrow>
     (case x of
        DirStat d (Inr is_dir) \<Rightarrow> d = dir \<and>
          (case es of [] \<Rightarrow> \<not> is_dir \<and> \<not> r | [DirAccess a ok] \<Rightarrow> is_dir \<and> a = dir \<and> r = ok | _ \<Rightarrow> False)
      | DirStat d (Inl e) \<Rightarrow> d = dir \<and>
          (if e = NoEnt \<and> path_dir dir \<noteq> dir then walk (path_dir dir) r es else es = [] \<and> \<not> r)
      | _ \<Rightarrow> False)"

lemma can_create_walk: "emits (can_create_from W dir) (\<lambda>r es. walk dir r es \<and> length es \<le> height dir + 2)"
proof (induction W dir rule: can_create_from.induct)
  case (1 W dir)
  have up: "emits (can_create_from W (path_dir dir))
      (\<lambda>r es. walk dir r (DirStat dir (Inl NoEnt) # es) \<and> Suc (length es) \<le> height dir + 2)" if "dir \<noteq> path_dir dir"
    using 1 [of NoEnt] that height_decreases [of dir] by (auto elim!: emits_weaken)
  show ?case
    unfolding can_create_from.simps [of W dir]
    by (intro emits_bind emits_effect emits_sum emits_if emits_return) (use up in \<open>auto simp: emits_def\<close>)
qed

text \<open>C22. In every world, the walk up a path ends after no more steps than the path is long, plus a few:
it asks for each ancestor in turn, goes on only past one that does not exist, and its answer is that
of the nearest one that does.\<close>

theorem can_create_dir_ends:
  "emits (can_create_dir W path) (\<lambda>r es. walk (path_dir (path_clean path)) r es \<and> length es \<le> length path + 5)"
proof -
  have "height (path_dir (path_clean path)) \<le> length path + 3"
    using path_dir_shorter [of "path_clean path"] length_path_clean [of path]
    by (auto simp: height_def max_def split: if_splits)
  then show ?thesis
    unfolding can_create_dir_def by (auto intro: emits_weaken [OF can_create_walk])
qed

end
