(* ===== verification/Hosts.thy ===== *)
theory Hosts
  imports GoStrings
begin

text \<open>
  The URL and host rules every URL the connector dials goes through (\<open>gitsync/localconfig.go\<close>), and
  the replica host pin (\<open>gitsync/replicahost.go\<close>). \<open>go_lib\<close> holds the two parsers of the Go library
  the code calls, \<open>url.Parse\<close> and \<open>netip.ParseAddr\<close> (its \<open>Zone()\<close> and \<open>String()\<close>),
  \<open>URL.EscapedPath\<close>, and, for the theories above this one, \<open>sha256.Sum256\<close> in hex and
  \<open>json.Valid\<close>; the theorems hold whatever they return, but for the named hypothesis \<open>addr_ok\<close>.
  The error messages of the code are constructors of \<open>host_error\<close> and \<open>pin_error\<close>.
\<close>

record go_url =
  u_scheme :: string
  u_user :: "string option"
  u_hostname :: string
  u_port :: string
  u_path :: string
  u_raw_path :: string
  u_raw_query :: string
  u_fragment :: string

record go_lib =
  url_parse :: "string \<Rightarrow> go_url option"
  parse_addr :: "string \<Rightarrow> (string \<times> string) option"
  escaped_path :: "string \<Rightarrow> string \<Rightarrow> string"
  sha256_hex :: "string \<Rightarrow> string"
  json_valid :: "string \<Rightarrow> bool"

datatype host_error =
    UrlRequired | UrlTooLong | UrlBadCharacters | UrlNotAbsolute | UrlHasExtras
  | HostMissing | HostHasZone | HostInvalid | HostNotAscii | HostAmbiguous | PortInvalid

section \<open>Canonical hosts and URLs\<close>

definition max_url_length :: nat where
  "max_url_length = 2048"

definition valid_provider_name :: "string \<Rightarrow> bool" where
  "valid_provider_name name \<longleftrightarrow>
     list_all (\<lambda>c. is_alpha c \<or> is_digit c \<or> c \<in> set ''._-'') name \<and> 1 \<le> length name \<and> length name \<le> 64"

definition validate_remote_url :: "go_lib \<Rightarrow> string \<Rightarrow> host_error + go_url" where
  "validate_remote_url lib raw =
     (if raw = [] then Inl UrlRequired
      else if max_url_length < length raw then Inl UrlTooLong
      else if list_ex (\<lambda>r. r = 92 \<or> is_space r \<or> is_control r) (runes raw) then Inl UrlBadCharacters
      else (case url_parse lib raw of
          None \<Rightarrow> Inl UrlNotAbsolute
        | Some u \<Rightarrow>
            if (u_scheme u \<noteq> ''http'' \<and> u_scheme u \<noteq> ''https'') \<or> u_hostname u = [] then Inl UrlNotAbsolute
            else if u_user u \<noteq> None \<or> u_raw_query u \<noteq> [] \<or> u_fragment u \<noteq> [] then Inl UrlHasExtras
            else Inr u))"

definition numeric_host_label :: "string \<Rightarrow> bool" where
  "numeric_host_label l \<longleftrightarrow>
     (l \<noteq> [] \<and> list_all is_digit l) \<or>
     (case l of z # x # hs \<Rightarrow> z = CHR ''0'' \<and> x \<in> set ''xX'' \<and> list_all is_hex_digit hs | _ \<Rightarrow> False)"

definition ascii_to_lower :: "string \<Rightarrow> string" where
  "ascii_to_lower s = map lower_char s"

definition host_char :: "char \<Rightarrow> bool" where
  "host_char c \<longleftrightarrow> is_digit c \<or> is_alpha c \<or> c = CHR ''-'' \<or> c = CHR ''_''"

text \<open>The loop over the labels: it stops at the first bad one.\<close>

fun check_labels :: "string list \<Rightarrow> host_error option" where
  "check_labels [] = None"
| "check_labels (l # ls) =
     (if l = [] \<or> 63 < length l then Some HostInvalid
      else if list_all host_char l then check_labels ls
      else Some HostNotAscii)"

definition canonical_ascii_host :: "go_lib \<Rightarrow> string \<Rightarrow> host_error + string" where
  "canonical_ascii_host lib host =
     (if host = [] then Inl HostMissing
      else (case parse_addr lib host of
          Some (zone, text) \<Rightarrow> if zone \<noteq> [] then Inl HostHasZone else Inr text
        | None \<Rightarrow>
            (let labels = split_on (CHR ''.'') host
             in case check_labels labels of
                  Some e \<Rightarrow> Inl e
                | None \<Rightarrow>
                    if numeric_host_label (List.last labels) then Inl HostAmbiguous
                    else Inr (ascii_to_lower host))))"

definition canonical_port :: "go_url \<Rightarrow> host_error + string" where
  "canonical_port u =
     (if u_port u = [] then Inr (if u_scheme u = ''https'' then ''443'' else ''80'')
      else (case atoi (u_port u) of
          None \<Rightarrow> Inl PortInvalid
        | Some n \<Rightarrow> if n \<le> 0 \<or> 65535 < n then Inl PortInvalid else Inr (itoa (nat n))))"

text \<open>\<open>net.JoinHostPort\<close>, and \<open>URL.String\<close> of a URL with a scheme, a host and a path only.\<close>

definition join_host_port :: "string \<Rightarrow> string \<Rightarrow> string" where
  "join_host_port host port =
     (if CHR '':'' \<in> set host then ''['' @ host @ '']:'' @ port else host @ '':'' @ port)"

definition url_string :: "go_lib \<Rightarrow> string \<Rightarrow> string \<Rightarrow> string \<Rightarrow> string \<Rightarrow> string" where
  "url_string lib scheme authority path raw_path =
     (let p = escaped_path lib path raw_path
      in scheme @ ''://'' @ authority @ (if p \<noteq> [] \<and> hd p \<noteq> CHR ''/'' then CHR ''/'' # p else p))"

definition canonical_remote_url :: "go_lib \<Rightarrow> string \<Rightarrow> host_error + (string \<times> string)" where
  "canonical_remote_url lib raw =
     (case validate_remote_url lib raw of
        Inl e \<Rightarrow> Inl e
      | Inr u \<Rightarrow>
          (case canonical_ascii_host lib (trim_suffix (u_hostname u) ''.'') of
             Inl e \<Rightarrow> Inl e
           | Inr host \<Rightarrow>
               (case canonical_port u of
                  Inl e \<Rightarrow> Inl e
                | Inr port \<Rightarrow>
                    (let authority = join_host_port host port
                     in Inr (u_scheme u @ ''://'' @ authority,
                             url_string lib (u_scheme u) authority (u_path u) (u_raw_path u))))))"

definition canonical_host_key :: "go_lib \<Rightarrow> string \<Rightarrow> host_error + string" where
  "canonical_host_key lib raw =
     (case canonical_remote_url lib raw of Inl e \<Rightarrow> Inl e | Inr (key, _) \<Rightarrow> Inr key)"

section \<open>The replica host pin\<close>

datatype pin_error =
    PinNotSet | PinTooLong | PinNotAscii | PinHasScheme | PinNotHostOnly | PinBadHost
  | PinHostError host_error | PinHyphenLabel

definition max_replica_host_length :: nat where
  "max_replica_host_length = 262"

definition parse_replica_host :: "go_lib \<Rightarrow> string \<Rightarrow> pin_error + string" where
  "parse_replica_host lib raw =
     (if raw = [] then Inl PinNotSet
      else if max_replica_host_length < length raw then Inl PinTooLong
      else if list_ex (\<lambda>c. byte c \<le> 32 \<or> 127 \<le> byte c) raw then Inl PinNotAscii
      else if sublist ''://'' raw then Inl PinHasScheme
      else if contains_any raw (''/?#@%'' @ [CHR 0x5C]) \<or> suffix '':'' raw then Inl PinNotHostOnly
      else (case url_parse lib (''https://'' @ raw) of
          None \<Rightarrow> Inl PinBadHost
        | Some u \<Rightarrow>
            if u_user u \<noteq> None \<or> u_path u \<noteq> [] \<or> u_hostname u = [] then Inl PinBadHost
            else (case canonical_ascii_host lib (trim_suffix (u_hostname u) ''.'') of
                Inl e \<Rightarrow> Inl (PinHostError e)
              | Inr host \<Rightarrow>
                  if CHR '':'' \<notin> set host \<and>
                     list_ex (\<lambda>l. prefix ''-'' l \<or> suffix ''-'' l) (split_on (CHR ''.'') host)
                  then Inl PinHyphenLabel
                  else (case canonical_port u of
                      Inl e \<Rightarrow> Inl (PinHostError e)
                    | Inr port \<Rightarrow> Inr (join_host_port host port)))))"

text \<open>What \<open>NewClient\<close> makes of the configured pin: an unset or invalid one is no pin.\<close>

definition pin_replica_host :: "go_lib \<Rightarrow> string \<Rightarrow> string" where
  "pin_replica_host lib raw = (case parse_replica_host lib raw of Inl _ \<Rightarrow> [] | Inr host \<Rightarrow> host)"

datatype replica_verdict = ReplicaOK | ReplicaInvalid | ReplicaMismatch

definition check_replica_url :: "go_lib \<Rightarrow> string \<Rightarrow> string \<Rightarrow> string \<times> replica_verdict" where
  "check_replica_url lib raw pin =
     (if raw = [] then ([], ReplicaInvalid)
      else let pin_key = ''https://'' @ pin in
        (case canonical_remote_url lib raw of
          Inr (key, full) \<Rightarrow>
            if pin \<noteq> [] \<and> key = pin_key then (full, ReplicaOK) else ([], ReplicaMismatch)
        | Inl _ \<Rightarrow>
            (case url_parse lib raw of
               None \<Rightarrow> ([], ReplicaMismatch)
             | Some u \<Rightarrow>
                 if u_hostname u = [] then ([], ReplicaMismatch)
                 else (case canonical_ascii_host lib (trim_suffix (u_hostname u) ''.'') of
                     Inl _ \<Rightarrow> ([], ReplicaMismatch)
                   | Inr host \<Rightarrow>
                       (case canonical_port u of
                          Inl _ \<Rightarrow> ([], ReplicaMismatch)
                        | Inr port \<Rightarrow>
                            if pin \<noteq> [] \<and>
                               ascii_to_lower (u_scheme u) @ ''://'' @ join_host_port host port = pin_key
                            then ([], ReplicaInvalid) else ([], ReplicaMismatch))))))"

section \<open>Lemmas\<close>

lemma validate_remote_urlD:
  assumes "validate_remote_url lib raw = Inr u"
  shows "url_parse lib raw = Some u \<and> u_scheme u \<in> {''http'', ''https''} \<and> u_hostname u \<noteq> [] \<and>
    u_user u = None \<and> u_raw_query u = [] \<and> u_fragment u = [] \<and>
    (\<forall>r\<in>set (runes raw). \<not> is_space r \<and> \<not> is_control r)"
  using assms
  by (auto simp: validate_remote_url_def list_ex_iff split: if_splits option.splits)

lemma canonical_remote_urlD:
  assumes "canonical_remote_url lib raw = Inr (key, full)"
  obtains u host port where "validate_remote_url lib raw = Inr u"
    "canonical_ascii_host lib (trim_suffix (u_hostname u) ''.'') = Inr host"
    "canonical_port u = Inr port"
    "key = u_scheme u @ ''://'' @ join_host_port host port"
    "full = url_string lib (u_scheme u) (join_host_port host port) (u_path u) (u_raw_path u)"
  using assms
  by (auto simp: canonical_remote_url_def Let_def split: sum.splits)

text \<open>The key and the dialled URL are built from one authority.\<close>

lemma canonical_key_prefix:
  "canonical_remote_url lib raw = Inr (key, full) \<Longrightarrow> prefix key full"
  by (erule canonical_remote_urlD) (auto simp: url_string_def Let_def prefix_def)

lemma check_labels_None:
  "check_labels ls = None \<longleftrightarrow> (\<forall>l\<in>set ls. l \<noteq> [] \<and> length l \<le> 63 \<and> list_all host_char l)"
  by (induction ls) auto

lemma canonical_port_range:
  "canonical_port u = Inr port \<Longrightarrow> \<exists>n. 1 \<le> n \<and> n \<le> 65535 \<and> port = itoa n"
proof -
  assume c: "canonical_port u = Inr port"
  show ?thesis
  proof (cases "u_port u = []")
    case True
    have "itoa 443 = ''443''" "itoa 80 = ''80''"
      by code_simp+
    with c True show ?thesis
      by (auto simp: canonical_port_def intro: exI [of _ "443"] exI [of _ "80"] split: if_splits)
  next
    case False
    with c show ?thesis
      by (auto simp: canonical_port_def split: option.splits if_splits intro!: exI [of _ "nat _"])
  qed
qed

section \<open>What the pin guarantees\<close>

lemma check_replica_OK:
  assumes "check_replica_url lib raw pin = (full, ReplicaOK)"
  shows "pin \<noteq> [] \<and> (\<exists>u. url_parse lib raw = Some u \<and> u_scheme u = ''https'' \<and> u_user u = None \<and>
      u_raw_query u = [] \<and> u_fragment u = [] \<and>
      full = url_string lib ''https'' pin (u_path u) (u_raw_path u)) \<and>
    (\<forall>r\<in>set (runes raw). \<not> is_space r \<and> \<not> is_control r)"
proof -
  from assms obtain key where c: "canonical_remote_url lib raw = Inr (key, full)"
    and pin: "pin \<noteq> []" "key = ''https://'' @ pin"
    by (auto simp: check_replica_url_def Let_def split: if_splits sum.splits option.splits)
  from c obtain u host port where u: "validate_remote_url lib raw = Inr u"
    and key: "key = u_scheme u @ ''://'' @ join_host_port host port"
    and full: "full = url_string lib (u_scheme u) (join_host_port host port) (u_path u) (u_raw_path u)"
    by (rule canonical_remote_urlD)
  note uD = validate_remote_urlD [OF u]
  have "u_scheme u = ''https'' \<and> join_host_port host port = pin"
    using uD key pin(2) by auto
  with uD full pin(1) show ?thesis by auto
qed

text \<open>A refusal carries no URL.\<close>

lemma check_replica_refused: "snd (check_replica_url lib raw pin) \<noteq> ReplicaOK \<Longrightarrow> fst (check_replica_url lib raw pin) = []"
  by (auto simp: check_replica_url_def Let_def split: if_splits sum.splits option.splits prod.splits)

text \<open>C2. Whatever URL, pin and library: when checkReplicaURL accepts, it returns a re-serialised https
URL whose canonical host and port are exactly the pin, and with no pin nothing is accepted; with
every other verdict it returns no URL at all.\<close>

theorem replica_url_pinned:
  "case check_replica_url lib raw pin of (full, verdict) \<Rightarrow>
     if verdict = ReplicaOK
     then pin \<noteq> [] \<and> (\<exists>u. url_parse lib raw = Some u \<and> u_scheme u = ''https'' \<and> u_user u = None \<and>
            u_raw_query u = [] \<and> u_fragment u = [] \<and>
            full = url_string lib ''https'' pin (u_path u) (u_raw_path u)) \<and>
          (\<forall>r\<in>set (runes raw). \<not> is_space r \<and> \<not> is_control r)
     else full = []"
proof (cases "check_replica_url lib raw pin")
  case (Pair full verdict)
  show ?thesis
  proof (cases "verdict = ReplicaOK")
    case True
    with Pair have "check_replica_url lib raw pin = (full, ReplicaOK)" by simp
    then show ?thesis unfolding Pair prod.case True by (subst if_P [OF refl]) (rule check_replica_OK, simp add: Pair True)
  next
    case False
    with check_replica_refused [of lib raw pin] Pair show ?thesis by simp
  qed
qed

text \<open>A parser good enough for one URL, to apply the theorems to.\<close>

definition example_url :: go_url where
  "example_url = \<lparr>u_scheme = ''https'', u_user = None, u_hostname = ''Git.Example.'', u_port = [],
     u_path = ''/r.git'', u_raw_path = [], u_raw_query = [], u_fragment = []\<rparr>"

definition example_lib :: go_lib where
  "example_lib = \<lparr>url_parse = (\<lambda>s. if s = ''https://Git.Example./r.git'' then Some example_url else None),
     parse_addr = (\<lambda>_. None), escaped_path = (\<lambda>p _. p),
     sha256_hex = (\<lambda>s. s), json_valid = (\<lambda>s. s \<noteq> [])\<rparr>"

lemma example_host: "canonical_ascii_host example_lib ''Git.Example'' = Inr ''git.example''"
  by (simp add: canonical_ascii_host_def example_lib_def host_char_def is_alpha_def is_upper_def
      is_lower_def numeric_host_label_def is_digit_def ascii_to_lower_def lower_char_def char_of_def bit_Suc_0_iff)

lemma example_canon:
  "canonical_remote_url example_lib ''https://Git.Example./r.git'' =
     Inr (''https://git.example:443'', ''https://git.example:443/r.git'')"
proof -
  have "runes ''https://Git.Example./r.git'' = map byte ''https://Git.Example./r.git''"
    by (rule runes_ascii) simp
  then have v: "validate_remote_url example_lib ''https://Git.Example./r.git'' = Inr example_url"
    by (simp add: validate_remote_url_def max_url_length_def example_lib_def example_url_def
        is_space_def is_control_def)
  show ?thesis
    by (simp add: canonical_remote_url_def v Let_def example_url_def
        trim_suffix_def suffix_def example_host canonical_port_def join_host_port_def url_string_def)
      (simp add: example_lib_def)
qed

lemma example_check:
  "check_replica_url example_lib ''https://Git.Example./r.git'' ''git.example:443'' =
     (''https://git.example:443/r.git'', ReplicaOK)"
  by (simp add: check_replica_url_def example_canon)

theorem replica_url_pinned_witness:
  "prefix (''https://'' @ ''git.example:443'')
     (fst (check_replica_url example_lib ''https://Git.Example./r.git'' ''git.example:443''))"
  using replica_url_pinned [where lib = example_lib and raw = "''https://Git.Example./r.git''" and pin = "''git.example:443''"]
  by (auto simp: example_check url_string_def Let_def)

text \<open>
  \<open>netip.ParseAddr\<close> reads the text of an address back as that address, and whether a string is an
  address does not depend on the case of its letters.
\<close>

definition addr_ok :: "go_lib \<Rightarrow> bool" where
  "addr_ok lib \<longleftrightarrow>
     (\<forall>s t. parse_addr lib s = Some ([], t) \<longrightarrow> t \<noteq> [] \<and> parse_addr lib t = Some ([], t)) \<and>
     (\<forall>s. parse_addr lib (map lower_char s) = None \<longleftrightarrow> parse_addr lib s = None)"

lemma lower_char_special:
  "d \<in> set ''.-_0'' \<Longrightarrow> lower_char c = d \<longleftrightarrow> c = d"
  by (cases "is_upper c") (auto simp: lower_char_def is_upper_def dest: arg_cong [where f = byte])

lemma host_char_lower [simp]: "host_char (lower_char c) = host_char c"
  by (auto simp: host_char_def lower_char_special is_alpha_def is_upper_def is_lower_def byte_lower_char)

lemma map_lower_eq_Cons:
  "map lower_char s = d # ds \<longleftrightarrow> (\<exists>c cs. s = c # cs \<and> lower_char c = d \<and> map lower_char cs = ds)"
  by (cases s) auto

lemma numeric_host_label_lower: "numeric_host_label (map lower_char l) = numeric_host_label l"
proof -
  have hex: "is_hex_digit (lower_char c) = is_hex_digit c" for c
    by (auto simp: is_hex_digit_def is_hex_lower_def byte_lower_char is_upper_def)
  have x: "lower_char c = CHR ''x'' \<or> lower_char c = CHR ''X'' \<longleftrightarrow> c = CHR ''x'' \<or> c = CHR ''X''" for c
  proof -
    have "c = CHR ''x'' \<or> c = CHR ''X'' \<longleftrightarrow> byte c = 120 \<or> byte c = 88" for c
      using of_char_eq_iff [of c "CHR ''x''", where 'a = nat] of_char_eq_iff [of c "CHR ''X''", where 'a = nat]
      by auto
    then show ?thesis by (auto simp: byte_lower_char is_upper_def)
  qed
  show ?thesis
    by (simp add: numeric_host_label_def list.pred_map o_def hex lower_char_special x split: list.splits)
qed

lemma check_labels_lower: "check_labels (map (map lower_char) ls) = check_labels ls"
  by (induction ls) (auto simp: list_all_iff)

text \<open>Canonicalising an accepted host again gives the same host: the accepted form is lower-case ASCII
with no trailing dot and is a fixpoint.\<close>

theorem canonical_host_fixpoint:
  assumes ok: "addr_ok lib" and c: "canonical_ascii_host lib host = Inr h"
  shows "canonical_ascii_host lib h = Inr h \<and> h \<noteq> [] \<and>
    (parse_addr lib host = None \<longrightarrow>
       (\<forall>l\<in>set (split_on (CHR ''.'') h). 1 \<le> length l \<and> length l \<le> 63 \<and>
          list_all (\<lambda>c. is_digit c \<or> is_lower c \<or> c = CHR ''-'' \<or> c = CHR ''_'') l) \<and>
       \<not> numeric_host_label (List.last (split_on (CHR ''.'') h)))"
proof (cases "parse_addr lib host")
  case None
  let ?ls = "split_on (CHR ''.'') host"
  have host: "host \<noteq> []" "check_labels ?ls = None" "\<not> numeric_host_label (List.last ?ls)"
    and h: "h = map lower_char host"
    using c None
    by (auto simp: canonical_ascii_host_def ascii_to_lower_def Let_def split: if_splits option.splits)
  have ls: "split_on (CHR ''.'') h = map (map lower_char) ?ls"
    unfolding h by (rule split_on_map) (simp add: lower_char_special)
  have "parse_addr lib h = None" using ok None by (simp add: addr_ok_def h)
  moreover have "h \<noteq> []" "ascii_to_lower h = h"
    using host(1) by (simp_all add: h ascii_to_lower_def o_def)
  moreover have num: "\<not> numeric_host_label (List.last (map (map lower_char) ?ls))"
    using host(3) by (simp add: last_map numeric_host_label_lower)
  ultimately have fp: "canonical_ascii_host lib h = Inr h"
    using host(2) by (simp add: canonical_ascii_host_def ls check_labels_lower Let_def)
  have "1 \<le> length (map lower_char l) \<and> length (map lower_char l) \<le> 63 \<and>
      list_all (\<lambda>c. is_digit c \<or> is_lower c \<or> c = CHR ''-'' \<or> c = CHR ''_'') (map lower_char l)"
    if "l \<in> set ?ls" for l
  proof -
    have "l \<noteq> [] \<and> length l \<le> 63 \<and> list_all host_char l"
      using host(2) that by (simp add: check_labels_None)
    moreover have "is_digit (lower_char c) \<or> is_lower (lower_char c) \<or> lower_char c = CHR ''-'' \<or>
        lower_char c = CHR ''_''" if "host_char c" for c
      using that by (auto simp: host_char_def is_alpha_def is_upper_def is_lower_def byte_lower_char
          lower_char_special)
    ultimately show ?thesis by (auto simp: list_all_iff Suc_le_eq)
  qed
  with fp num \<open>h \<noteq> []\<close> show ?thesis by (simp add: ls)
next
  case (Some a)
  then have "parse_addr lib host = Some ([], h)"
    using c by (cases a) (auto simp: canonical_ascii_host_def split: if_splits)
  with ok have "h \<noteq> [] \<and> parse_addr lib h = Some ([], h)" by (auto simp: addr_ok_def)
  with Some show ?thesis by (simp add: canonical_ascii_host_def)
qed

theorem canonical_host_fixpoint_witness:
  "canonical_ascii_host example_lib ''git.example'' = Inr ''git.example''"
proof -
  have "addr_ok example_lib" by (simp add: addr_ok_def example_lib_def)
  from canonical_host_fixpoint [OF this example_host] show ?thesis by simp
qed

end
