(* ===== verification/SyncTypes.thy ===== *)
theory SyncTypes
  imports Prelude
begin

text \<open>
  The data the git-sync components exchange: bindings (\<open>providers.go\<close>), provider entries
  (\<open>entry.go\<close>), the lifecycle states and typed error codes (\<open>client.go\<close>), and the task and result
  of one sync (\<open>sync.go\<close>). The code's string enumerations are datatypes; \<open>state_string\<close> and
  \<open>error_string\<close> give the wire spelling. Secrets are plain strings.
\<close>

text \<open>
  A provider and the generation of its credential. The zero binding is "unbound". The generation is a
  counter the process draws from; the model counts it in \<open>nat\<close> (the code's \<open>uint64\<close> would wrap after
  \<open>2^64\<close> credential changes).
\<close>

datatype binding = Binding (provider: string) (generation: nat)

definition unbound :: binding where
  "unbound = Binding [] 0"

type_synonym repo_id = string

record local_entry =
  le_base_url :: string
  le_auth :: string
  le_username :: string
  le_token :: string
  le_token_file :: string

datatype sync_state = StateNone | StatePending | StateSyncing | StateOK | StateError

fun state_string :: "sync_state \<Rightarrow> string" where
  "state_string StateNone = ''''"
| "state_string StatePending = ''pending''"
| "state_string StateSyncing = ''syncing''"
| "state_string StateOK = ''ok''"
| "state_string StateError = ''error''"

datatype error_type =
    NoError | OriginUnreachable | OriginAccessDenied | ReplicaUnreachable | CredentialRejected
  | ReplicaRejected | PushTimeout | LocalDiskExhausted | JobOutOfMemory | RepositoryOverLimit
  | PushTokenExpired | Unclassified

fun error_string :: "error_type \<Rightarrow> string" where
  "error_string NoError = ''''"
| "error_string OriginUnreachable = ''origin_unreachable''"
| "error_string OriginAccessDenied = ''origin_access_denied''"
| "error_string ReplicaUnreachable = ''replica_unreachable''"
| "error_string CredentialRejected = ''credential_rejected''"
| "error_string ReplicaRejected = ''replica_rejected''"
| "error_string PushTimeout = ''push_timeout''"
| "error_string LocalDiskExhausted = ''local_disk_exhausted''"
| "error_string JobOutOfMemory = ''job_out_of_memory''"
| "error_string RepositoryOverLimit = ''repository_over_limit''"
| "error_string PushTokenExpired = ''push_token_expired''"
| "error_string Unclassified = ''unclassified''"

text \<open>No two codes share a spelling, so the datatype loses nothing against the strings.\<close>

lemma state_string_inject: "state_string a = state_string b \<longleftrightarrow> a = b"
  by (cases a; cases b) simp_all

lemma error_string_inject: "error_string a = error_string b \<longleftrightarrow> a = b"
  by (cases a; cases b) simp_all

record sync_stats =
  started_at :: gtime
  duration_of :: duration
  refs_pushed :: "nat option"
  newest_commit_at :: gtime
  default_branch :: string

definition no_stats :: sync_stats where
  "no_stats = \<lparr>started_at = zero_time, duration_of = 0, refs_pushed = None,
     newest_commit_at = zero_time, default_branch = []\<rparr>"

record sync_result =
  res_state :: sync_state
  error_type :: error_type
  error_detail :: string
  origin_credential_rejected :: bool
  warnings :: "string list"
  warnings_undecided :: bool
  stats :: sync_stats

text \<open>The zero \<open>syncResult\<close>, and the two shapes the code builds literally.\<close>

definition no_result :: sync_result where
  "no_result = \<lparr>res_state = StateNone, error_type = NoError, error_detail = [],
     origin_credential_rejected = False, warnings = [], warnings_undecided = False, stats = no_stats\<rparr>"

definition pending_result :: sync_result where
  "pending_result = no_result\<lparr>res_state := StatePending\<rparr>"

definition error_result :: "error_type \<Rightarrow> string \<Rightarrow> sync_result" where
  "error_result e d = no_result\<lparr>res_state := StateError, error_type := e, error_detail := d\<rparr>"

definition ok_result :: sync_result where
  "ok_result = no_result\<lparr>res_state := StateOK\<rparr>"

lemma result_sel [simp]:
  "res_state no_result = StateNone" "res_state pending_result = StatePending"
  "res_state (error_result e d) = StateError" "res_state ok_result = StateOK"
  "error_type (error_result e d) = e" "error_detail (error_result e d) = d"
  "error_type ok_result = NoError"
  by (simp_all add: no_result_def pending_result_def error_result_def ok_result_def)

record sync_task =
  task_repo :: repo_id
  canonical_url :: string
  origin :: local_entry
  replica_url :: string
  push_token :: string
  token_expires_at :: string
  task_bind :: binding
  attempt_seq :: nat

end
