(* ===== verification/Providers.thy ===== *)
theory Providers
  imports Hosts SyncTypes
begin

text \<open>
  The local provider configuration in force (\<open>gitsync/providers.go\<close>) and a repository's binding to it
  (\<open>repoState\<close>, \<open>bindRepo\<close>, \<open>sameSyncIdentity\<close> and the validity checks of \<open>gitsync/config.go\<close>). A
  provider set is an immutable snapshot; a store is the list of its named entries in the order the
  map iteration happens to visit them, so what is proved holds for every order.
\<close>

section \<open>Provider sets\<close>

record provider_entry =
  pe_entry :: local_entry
  pe_host_key :: string
  pe_gen :: nat

record provider_set =
  by_name :: "(string, provider_entry) fmap"
  by_host :: "(string, string) fmap"

definition empty_providers :: provider_set where
  "empty_providers = \<lparr>by_name = fmempty, by_host = fmempty\<rparr>"

definition same_credential :: "local_entry \<Rightarrow> local_entry \<Rightarrow> bool" where
  "same_credential a b \<longleftrightarrow>
     le_auth a = le_auth b \<and> le_username a = le_username b \<and> le_token a = le_token b"

text \<open>The generation a provider of the previous set hands on to the entry now under its name.\<close>

definition kept_gen :: "provider_set \<Rightarrow> string \<Rightarrow> string \<Rightarrow> local_entry \<Rightarrow> nat option" where
  "kept_gen prev name hk e =
     (case fmlookup (by_name prev) name of
        None \<Rightarrow> None
      | Some old \<Rightarrow>
          if pe_host_key old = hk \<and> same_credential (pe_entry old) e then Some (pe_gen old) else None)"

text \<open>One iteration of the loop of \<open>buildProviderSet\<close>: the set so far and the generation counter.\<close>

definition add_provider ::
  "go_lib \<Rightarrow> provider_set \<Rightarrow> string \<times> local_entry \<Rightarrow> provider_set \<times> nat \<Rightarrow> provider_set \<times> nat" where
  "add_provider lib prev ne acc =
     (case ne of (name, e) \<Rightarrow> case acc of (put, g) \<Rightarrow>
        (case canonical_host_key lib (le_base_url e) of
           Inl _ \<Rightarrow> (put, g)
         | Inr hk \<Rightarrow>
             (let (gen, g1) = (case kept_gen prev name hk e of Some k \<Rightarrow> (k, g) | None \<Rightarrow> (g + 1, g + 1));
                  pe = \<lparr>pe_entry = e, pe_host_key = hk, pe_gen = gen\<rparr>
              in (put\<lparr>by_name := fmupd name pe (by_name put), by_host := fmupd hk name (by_host put)\<rparr>, g1))))"

text \<open>\<open>st\<close> is None for a nil store.\<close>

definition build_provider_set ::
  "go_lib \<Rightarrow> (string \<times> local_entry) list option \<Rightarrow> provider_set \<Rightarrow> nat \<Rightarrow> provider_set \<times> nat" where
  "build_provider_set lib st prev g =
     (case st of None \<Rightarrow> (empty_providers, g)
      | Some es \<Rightarrow> fold (add_provider lib prev) es (empty_providers, g))"

definition match_host :: "provider_set \<Rightarrow> string \<Rightarrow> (provider_entry \<times> string) option" where
  "match_host ps host_key =
     (if host_key = [] then None
      else (case fmlookup (by_host ps) host_key of
          None \<Rightarrow> None
        | Some name \<Rightarrow>
            (case fmlookup (by_name ps) name of
               None \<Rightarrow> Some (\<lparr>pe_entry = \<lparr>le_base_url = [], le_auth = [], le_username = [], le_token = [],
                              le_token_file = []\<rparr>, pe_host_key = [], pe_gen = 0\<rparr>, name)
             | Some pe \<Rightarrow> Some (pe, name))))"

definition providers_equal :: "provider_set \<Rightarrow> provider_set \<Rightarrow> bool" where
  "providers_equal a b \<longleftrightarrow>
     length (sorted_keys (by_name a)) = length (sorted_keys (by_name b)) \<and>
     list_all (\<lambda>name.
       case (fmlookup (by_name a) name, fmlookup (by_name b) name) of
         (Some pe, Some oe) \<Rightarrow> pe_host_key pe = pe_host_key oe \<and>
           le_base_url (pe_entry pe) = le_base_url (pe_entry oe) \<and>
           same_credential (pe_entry pe) (pe_entry oe)
       | _ \<Rightarrow> False) (sorted_keys (by_name a))"

definition probe_targets :: "provider_set \<Rightarrow> (local_entry \<times> binding) list" where
  "probe_targets ps =
     List.map_filter (\<lambda>name. map_option (\<lambda>pe. (pe_entry pe, Binding name (pe_gen pe))) (fmlookup (by_name ps) name))
       (sorted_keys (by_name ps))"

section \<open>A configured repository\<close>

record repo_state =
  rs_repo_id :: repo_id
  rs_expires_at :: string
  rs_origin_url :: string
  rs_origin_host_key :: string
  rs_target :: string
  rs_replica_usable :: bool
  rs_replica_url :: string
  rs_push_token :: string
  rs_bind :: binding
  rs_provider :: string
  rs_canonical_url :: string
  rs_matched :: bool
  rs_result :: sync_result
  rs_syncing :: bool
  rs_attempt_started_at :: gtime

definition err_invalid_replica :: string where
  "err_invalid_replica = ''invalid replica configuration''"

definition bind_repo :: "repo_state \<Rightarrow> provider_set \<Rightarrow> repo_state" where
  "bind_repo r ps =
     (let old = rs_bind r;
          r1 = (case match_host ps (rs_origin_host_key r) of
                  Some (pe, name) \<Rightarrow>
                    r\<lparr>rs_bind := Binding name (pe_gen pe), rs_provider := name,
                      rs_canonical_url := rs_origin_url r, rs_matched := True\<rparr>
                | None \<Rightarrow>
                    r\<lparr>rs_bind := unbound, rs_provider := [], rs_canonical_url := [], rs_matched := False\<rparr>);
          r2 = (if rs_bind r1 \<noteq> old then r1\<lparr>rs_result := no_result\<rparr> else r1)
      in if rs_matched r2 \<and> \<not> rs_replica_usable r2
         then r2\<lparr>rs_result := error_result Unclassified err_invalid_replica\<rparr> else r2)"

definition max_repo_id_length :: nat where
  "max_repo_id_length = 256"

definition valid_repo_id :: "string \<Rightarrow> bool" where
  "valid_repo_id rid \<longleftrightarrow>
     list_all (\<lambda>c. is_alpha c \<or> is_digit c \<or> c \<in> set ''._-'') rid \<and>
     1 \<le> length rid \<and> length rid \<le> max_repo_id_length \<and> rid \<noteq> ''.'' \<and> rid \<noteq> ''..''"

definition valid_push_token :: "string \<Rightarrow> bool" where
  "valid_push_token tok \<longleftrightarrow> tok \<noteq> [] \<and> \<not> list_ex is_control (runes tok)"

definition same_sync_identity :: "repo_state \<Rightarrow> repo_state \<Rightarrow> bool" where
  "same_sync_identity a b \<longleftrightarrow>
     rs_bind a = rs_bind b \<and> rs_canonical_url a = rs_canonical_url b \<and> rs_replica_url a = rs_replica_url b"

text \<open>The guard the manager, the scheduler and the claim share.\<close>

definition can_sync :: "repo_state \<Rightarrow> bool" where
  "can_sync r \<longleftrightarrow> rs_matched r \<and> rs_replica_url r \<noteq> []"

section \<open>What a provider set guarantees\<close>

text \<open>
  The entry under a name has the host key of its base URL and a generation already drawn; a host key
  leads to a provider of that host.
\<close>

definition provs_ok :: "go_lib \<Rightarrow> provider_set \<Rightarrow> nat \<Rightarrow> bool" where
  "provs_ok lib ps g \<longleftrightarrow>
     (\<forall>name pe. fmlookup (by_name ps) name = Some pe \<longrightarrow>
        canonical_host_key lib (le_base_url (pe_entry pe)) = Inr (pe_host_key pe) \<and> pe_gen pe \<le> g) \<and>
     (\<forall>hk name. fmlookup (by_host ps) hk = Some name \<longrightarrow>
        (\<exists>pe. fmlookup (by_name ps) name = Some pe \<and> pe_host_key pe = hk))"

text \<open>
  How a new set relates to the one before it: a provider kept its generation when its credential and
  host stayed, and otherwise has a new one.
\<close>

definition gens_fresh :: "provider_set \<Rightarrow> nat \<Rightarrow> provider_set \<Rightarrow> bool" where
  "gens_fresh prev g ps \<longleftrightarrow>
     (\<forall>name pe. fmlookup (by_name ps) name = Some pe \<longrightarrow>
        (case kept_gen prev name (pe_host_key pe) (pe_entry pe) of
           Some k \<Rightarrow> pe_gen pe = k | None \<Rightarrow> g < pe_gen pe))"

lemma provs_ok_empty [simp]: "provs_ok lib empty_providers g"
  by (simp add: provs_ok_def empty_providers_def)

lemma same_credential_refl [simp]: "same_credential a a"
  by (simp add: same_credential_def)

lemma same_credential_trans: "same_credential a b \<Longrightarrow> same_credential b c \<Longrightarrow> same_credential a c"
  by (simp add: same_credential_def)

lemma same_credential_sym: "same_credential a b \<Longrightarrow> same_credential b a"
  by (simp add: same_credential_def)

lemma provs_ok_gen: "provs_ok lib ps g \<Longrightarrow> fmlookup (by_name ps) n = Some pe \<Longrightarrow> pe_gen pe \<le> g"
  unfolding provs_ok_def by blast

lemma add_provider_ok:
  assumes a: "add_provider lib prev (name, e) (put, g) = (put1, g1)" and "g0 \<le> g"
    and prev: "provs_ok lib prev g0" and name: "fmlookup (by_name put) name = None"
    and put: "provs_ok lib put g" "gens_fresh prev g0 put"
  shows "provs_ok lib put1 g1 \<and> gens_fresh prev g0 put1 \<and> g \<le> g1 \<and>
    fmdom' (by_name put1) \<subseteq> insert name (fmdom' (by_name put))"
proof (cases "canonical_host_key lib (le_base_url e)")
  case (Inl x)
  with a put show ?thesis by (auto simp: add_provider_def)
next
  case (Inr hk)
  obtain gen where put1: "put1 = put\<lparr>by_name := fmupd name \<lparr>pe_entry = e, pe_host_key = hk, pe_gen = gen\<rparr> (by_name put),
        by_host := fmupd hk name (by_host put)\<rparr>"
    and gen: "case kept_gen prev name hk e of Some k \<Rightarrow> gen = k \<and> g1 = g | None \<Rightarrow> gen = g + 1 \<and> g1 = g + 1"
  proof (cases "kept_gen prev name hk e")
    case None
    show ?thesis by (rule that [of "g + 1"]) (use a Inr None in \<open>auto simp: add_provider_def\<close>)
  next
    case (Some k)
    show ?thesis by (rule that [of k]) (use a Inr Some in \<open>auto simp: add_provider_def\<close>)
  qed
  have le: "k \<le> g0" if "kept_gen prev name hk e = Some k" for k
    using provs_ok_gen [OF prev] that by (auto simp: kept_gen_def split: option.splits if_splits)
  have gs: "gen \<le> g1" "g \<le> g1" "case kept_gen prev name hk e of Some k \<Rightarrow> gen = k | None \<Rightarrow> g0 < gen"
    using gen le \<open>g0 \<le> g\<close> by (cases "kept_gen prev name hk e"; force)+
  have "provs_ok lib put1 g1"
    unfolding provs_ok_def
  proof (intro conjI allI impI)
    fix n pe assume "fmlookup (by_name put1) n = Some pe"
    then have look: "fmlookup (fmupd name \<lparr>pe_entry = e, pe_host_key = hk, pe_gen = gen\<rparr> (by_name put)) n = Some pe"
      by (simp add: put1)
    have "canonical_host_key lib (le_base_url (pe_entry pe)) = Inr (pe_host_key pe) \<and> pe_gen pe \<le> g1"
    proof (cases "n = name")
      case True
      with look have "pe = \<lparr>pe_entry = e, pe_host_key = hk, pe_gen = gen\<rparr>" by simp
      with Inr gs(1) show ?thesis by simp
    next
      case False
      with look have "fmlookup (by_name put) n = Some pe" by simp
      with put(1) have "canonical_host_key lib (le_base_url (pe_entry pe)) = Inr (pe_host_key pe) \<and> pe_gen pe \<le> g"
        unfolding provs_ok_def by blast
      with gs(2) show ?thesis by simp
    qed
    then show "canonical_host_key lib (le_base_url (pe_entry pe)) = Inr (pe_host_key pe)" "pe_gen pe \<le> g1"
      by simp_all
  next
    fix h n assume h: "fmlookup (by_host put1) h = Some n"
    show "\<exists>pe. fmlookup (by_name put1) n = Some pe \<and> pe_host_key pe = h"
    proof (cases "h = hk")
      case False
      with h have "fmlookup (by_host put) h = Some n" by (simp add: put1)
      with put(1) obtain pe where "fmlookup (by_name put) n = Some pe" "pe_host_key pe = h"
        unfolding provs_ok_def by blast
      with name show ?thesis by (auto simp: put1)
    qed (use h in \<open>simp add: put1\<close>)
  qed
  moreover have "gens_fresh prev g0 put1"
    using put(2) gs(3) by (cases "kept_gen prev name hk e") (auto simp: put1 gens_fresh_def)
  ultimately show ?thesis using gs(2) by (auto simp: put1 fmlookup_dom'_iff)
qed

lemma fold_add_provider_ok:
  "fold (add_provider lib prev) es (put, g) = (ps, g') \<Longrightarrow> g0 \<le> g \<Longrightarrow> provs_ok lib prev g0 \<Longrightarrow>
   distinct (map fst es) \<Longrightarrow> fst ` set es \<inter> fmdom' (by_name put) = {} \<Longrightarrow>
   provs_ok lib put g \<Longrightarrow> gens_fresh prev g0 put \<Longrightarrow>
   provs_ok lib ps g' \<and> gens_fresh prev g0 ps \<and> g \<le> g'"
proof (induction es arbitrary: put g)
  case (Cons ne es)
  obtain name e where ne: "ne = (name, e)" by (cases ne)
  obtain put1 g1 where a: "add_provider lib prev (name, e) (put, g) = (put1, g1)" by (metis surj_pair)
  have "fmlookup (by_name put) name = None" using Cons.prems(5) ne by (auto simp: fmlookup_dom'_iff)
  note step = add_provider_ok [OF a Cons.prems(2,3) this Cons.prems(6,7)]
  have "fst ` set es \<inter> fmdom' (by_name put1) = {}"
    using step Cons.prems(4,5) ne by auto
  with Cons.IH [of put1 g1] step Cons.prems a ne show ?case by auto
qed auto

lemma build_provider_set_ok:
  assumes "build_provider_set lib st prev g = (ps, g')" and "provs_ok lib prev g"
    and "\<forall>es. st = Some es \<longrightarrow> distinct (map fst es)"
  shows "provs_ok lib ps g' \<and> gens_fresh prev g ps \<and> g \<le> g'"
proof (cases st)
  case None
  with assms show ?thesis by (auto simp: build_provider_set_def gens_fresh_def empty_providers_def provs_ok_def)
next
  case (Some es)
  with assms show ?thesis
    using fold_add_provider_ok [of lib prev es empty_providers g ps g' g]
    by (simp add: build_provider_set_def gens_fresh_def) (simp add: empty_providers_def)
qed

lemma match_host_Some:
  assumes ok: "provs_ok lib ps g" and m: "match_host ps hk = Some (pe, name)"
  shows "fmlookup (by_name ps) name = Some pe \<and> pe_host_key pe = hk \<and> hk \<noteq> []"
proof -
  from m have hk: "hk \<noteq> []" and h: "fmlookup (by_host ps) hk = Some name"
    by (auto simp: match_host_def split: if_splits option.splits)
  from ok h obtain pe' where "fmlookup (by_name ps) name = Some pe'" "pe_host_key pe' = hk"
    unfolding provs_ok_def by blast
  with m hk h show ?thesis by (simp add: match_host_def)
qed

section \<open>What binding a repository establishes\<close>

text \<open>The derived fields are those \<open>bindRepo\<close> computes from the host key.\<close>

definition bound_to :: "provider_set \<Rightarrow> repo_state \<Rightarrow> bool" where
  "bound_to ps r \<longleftrightarrow>
     (case match_host ps (rs_origin_host_key r) of
        Some (pe, name) \<Rightarrow>
          rs_bind r = Binding name (pe_gen pe) \<and> rs_provider r = name \<and>
          rs_canonical_url r = rs_origin_url r \<and> rs_matched r
      | None \<Rightarrow> rs_bind r = unbound \<and> rs_provider r = [] \<and> rs_canonical_url r = [] \<and> \<not> rs_matched r)"

lemma bind_repo_bound: "bound_to ps (bind_repo r ps)"
  by (auto simp: bind_repo_def bound_to_def Let_def split: option.splits)

lemma bound_to_update [simp]:
  "bound_to ps (r\<lparr>rs_syncing := b\<rparr>) = bound_to ps r"
  "bound_to ps (r\<lparr>rs_attempt_started_at := t\<rparr>) = bound_to ps r"
  "bound_to ps (r\<lparr>rs_result := res\<rparr>) = bound_to ps r"
  by (auto simp: bound_to_def split: option.splits)

lemma bind_repo_keeps [simp]:
  "rs_repo_id (bind_repo r ps) = rs_repo_id r" "rs_expires_at (bind_repo r ps) = rs_expires_at r"
  "rs_origin_url (bind_repo r ps) = rs_origin_url r"
  "rs_origin_host_key (bind_repo r ps) = rs_origin_host_key r" "rs_target (bind_repo r ps) = rs_target r"
  "rs_replica_usable (bind_repo r ps) = rs_replica_usable r"
  "rs_replica_url (bind_repo r ps) = rs_replica_url r" "rs_push_token (bind_repo r ps) = rs_push_token r"
  "rs_syncing (bind_repo r ps) = rs_syncing r"
  "rs_attempt_started_at (bind_repo r ps) = rs_attempt_started_at r"
  by (simp_all add: bind_repo_def Let_def split: option.splits)

text \<open>Rebuilding the provider set keeps the generation of a provider whose credential is unchanged and
gives any other a fresh one above every earlier generation, so a binding names exactly one
credential.\<close>

theorem generation_names_credential:
  assumes "provs_ok lib prev g" and "build_provider_set lib st prev g = (ps, g')"
    and "\<forall>es. st = Some es \<longrightarrow> distinct (map fst es)"
    and old: "fmlookup (by_name prev) name = Some old" and pe: "fmlookup (by_name ps) name' = Some pe"
  shows "Binding name (pe_gen old) = Binding name' (pe_gen pe) \<longleftrightarrow>
    name = name' \<and> pe_host_key old = pe_host_key pe \<and> same_credential (pe_entry old) (pe_entry pe)"
proof -
  have "gens_fresh prev g ps" using build_provider_set_ok [OF assms(2,1,3)] by simp
  with pe have "case kept_gen prev name' (pe_host_key pe) (pe_entry pe) of
      Some k \<Rightarrow> pe_gen pe = k | None \<Rightarrow> g < pe_gen pe"
    unfolding gens_fresh_def by blast
  moreover have "pe_gen old \<le> g" using assms(1) old unfolding provs_ok_def by blast
  ultimately show ?thesis
    using old by (cases "name = name'") (auto simp: kept_gen_def split: if_splits)
qed

text \<open>Rotating a token draws a new generation; changing only the path of the base URL does not.\<close>

definition example_local :: "string \<Rightarrow> local_entry" where
  "example_local tok = \<lparr>le_base_url = ''https://Git.Example./r.git'', le_auth = ''bearer'',
     le_username = [], le_token = tok, le_token_file = []\<rparr>"

definition example_store :: "string \<Rightarrow> (string \<times> local_entry) list" where
  "example_store tok = [(''corp'', example_local tok)]"

lemma example_key: "canonical_host_key example_lib ''https://Git.Example./r.git'' = Inr ''https://git.example:443''"
  by (simp add: canonical_host_key_def example_canon)

definition example_set :: "string \<Rightarrow> nat \<Rightarrow> provider_set" where
  "example_set tok gen =
     \<lparr>by_name = fmupd ''corp'' \<lparr>pe_entry = example_local tok, pe_host_key = ''https://git.example:443'', pe_gen = gen\<rparr> fmempty,
      by_host = fmupd ''https://git.example:443'' ''corp'' fmempty\<rparr>"

lemma example_build:
  "build_provider_set example_lib (Some (example_store tok)) empty_providers 0 = (example_set tok 1, 1)"
  "tok \<noteq> tok' \<Longrightarrow>
     build_provider_set example_lib (Some (example_store tok')) (example_set tok 1) 1 = (example_set tok' 2, 2)"
  by (simp_all add: build_provider_set_def example_store_def add_provider_def example_local_def example_key
      kept_gen_def empty_providers_def example_set_def same_credential_def numeral_2_eq_2)

lemma example_set_ok: "provs_ok example_lib (example_set ''t1'' 1) 1"
  using build_provider_set_ok [OF example_build(1) [of "''t1''"] provs_ok_empty]
  by (simp add: example_store_def)

theorem generation_names_credential_witness:
  "Binding ''corp'' (pe_gen \<lparr>pe_entry = example_local ''t1'', pe_host_key = ''https://git.example:443'', pe_gen = 1\<rparr>)
   \<noteq> Binding ''corp'' (pe_gen \<lparr>pe_entry = example_local ''t2'', pe_host_key = ''https://git.example:443'', pe_gen = 2\<rparr>)"
proof -
  have b: "build_provider_set example_lib (Some (example_store ''t2'')) (example_set ''t1'' 1) 1 = (example_set ''t2'' 2, 2)"
    by (rule example_build) simp
  show ?thesis
    by (subst generation_names_credential [OF example_set_ok b])
      (simp_all add: example_store_def example_set_def same_credential_def example_local_def)
qed

end
