(* ===== verification/SyncStats.thy ===== *)
theory SyncStats
  imports GoStrings
begin

text \<open>
  What a sync learns from git's standard output (\<open>gitsync/syncstats.go\<close>): the streaming counter of
  the refs a push changed, the tracker of the newest commit, and the origin's default branch. A
  writer's \<open>Write\<close> is a fold of its one-byte step, so its state after a list of chunks is
  \<open>fold pc_write\<close>; the theorems compare what the writer reports with a definition on the whole output.
\<close>

section \<open>The push counter\<close>

definition max_rejected_line :: nat where
  "max_rejected_line = 1024"

definition max_rejection_text :: nat where
  "max_rejection_text = 8192"

record push_counter =
  refs :: nat
  rejected :: nat
  pc_text :: string
  col :: nat
  flag :: char
  pc_tab :: bool
  tabs :: nat
  summary :: string

definition new_push_counter :: push_counter where
  "new_push_counter = \<lparr>refs = 0, rejected = 0, pc_text = [], col = 0, flag = CHR 0x00, pc_tab = False,
     tabs = 0, summary = []\<rparr>"

definition retain_rejection :: "push_counter \<Rightarrow> push_counter" where
  "retain_rejection p =
     (let sm = trim_suffix (summary p) [CHR 0x0D];
          row = '' ! ref -> ref'' @ (if sm \<noteq> [] then '' '' @ sm else []) @ [newline]
      in if length (pc_text p) + length row \<le> max_rejection_text
         then p\<lparr>pc_text := pc_text p @ row\<rparr> else p)"

definition pc_end_line :: "push_counter \<Rightarrow> push_counter" where
  "pc_end_line p =
     (let p1 = (if col p \<ge> 2 \<and> pc_tab p then
                  (if flag p \<in> set ''* +-'' then p\<lparr>refs := refs p + 1\<rparr>
                   else if flag p = CHR ''!'' then retain_rejection (p\<lparr>rejected := rejected p + 1\<rparr>)
                   else p)
                else p)
      in p1\<lparr>col := 0, flag := CHR 0x00, pc_tab := False, tabs := 0, summary := []\<rparr>)"

definition pc_byte :: "char \<Rightarrow> push_counter \<Rightarrow> push_counter" where
  "pc_byte c p =
     (if c = newline then pc_end_line p
      else
        (let p1 =
           (if col p = 0 then p\<lparr>flag := c\<rparr>
            else if col p = 1 then
              (let t = (c = tab) in p\<lparr>pc_tab := t, tabs := (if t then 1 else tabs p)\<rparr>)
            else if flag p = CHR ''!'' \<and> pc_tab p then
              (if tabs p \<ge> 2 then
                 (if length (summary p) < max_rejected_line then p\<lparr>summary := summary p @ [c]\<rparr> else p)
               else if c = tab then p\<lparr>tabs := 2\<rparr> else p)
            else p)
         in p1\<lparr>col := col p1 + 1\<rparr>))"

definition pc_write :: "string \<Rightarrow> push_counter \<Rightarrow> push_counter" where
  "pc_write b p = fold pc_byte b p"

definition pc_settle :: "push_counter \<Rightarrow> push_counter" where
  "pc_settle p = (if col p > 0 then pc_end_line p else p)"

definition pc_refs :: "push_counter \<Rightarrow> nat" where
  "pc_refs p = refs (pc_settle p)"

definition pc_rejected :: "push_counter \<Rightarrow> nat" where
  "pc_rejected p = rejected (pc_settle p)"

definition pc_rejection_text :: "push_counter \<Rightarrow> string" where
  "pc_rejection_text p = pc_text (pc_settle p)"

section \<open>The newest commit\<close>

definition max_format_line :: nat where
  "max_format_line = 64"

definition max_commit_unix :: int where
  "max_commit_unix = 253402300799"

record newest_tracker =
  ceiling_at :: int
  newest_max :: int
  nt_line :: string
  over :: bool

definition new_newest_tracker :: "int \<Rightarrow> newest_tracker" where
  "new_newest_tracker c = \<lparr>ceiling_at = c, newest_max = 0, nt_line = [], over = False\<rparr>"

definition eff_ceiling :: "int \<Rightarrow> int" where
  "eff_ceiling c = (if c \<le> 0 \<or> c > max_commit_unix then max_commit_unix else c)"

definition take_field :: "int \<Rightarrow> string \<Rightarrow> int \<Rightarrow> int" where
  "take_field c f m =
     (case atoi f of None \<Rightarrow> m | Some v \<Rightarrow> if v > 0 \<and> v \<le> c \<and> v > m then v else m)"

definition nt_end_line :: "newest_tracker \<Rightarrow> newest_tracker" where
  "nt_end_line n =
     (let m = (if over n then newest_max n
               else fold (take_field (eff_ceiling (ceiling_at n))) (split_on (CHR ''|'') (nt_line n)) (newest_max n))
      in n\<lparr>newest_max := m, nt_line := [], over := False\<rparr>)"

definition nt_byte :: "char \<Rightarrow> newest_tracker \<Rightarrow> newest_tracker" where
  "nt_byte c n =
     (if c = newline then nt_end_line n
      else if length (nt_line n) < max_format_line then n\<lparr>nt_line := nt_line n @ [c]\<rparr>
      else n\<lparr>over := True\<rparr>)"

definition nt_write :: "string \<Rightarrow> newest_tracker \<Rightarrow> newest_tracker" where
  "nt_write b n = fold nt_byte b n"

text \<open>\<open>Newest\<close>: the Unix time in nanoseconds, None when no usable line was seen.\<close>

definition nt_newest :: "newest_tracker \<Rightarrow> gtime option" where
  "nt_newest n =
     (let n1 = (if nt_line n \<noteq> [] then nt_end_line n else n)
      in if newest_max n1 = 0 then None else Some (newest_max n1 * second))"

section \<open>The default branch\<close>

definition max_branch_name_length :: nat where
  "max_branch_name_length = 255"

text \<open>Unicode category Cf.\<close>

definition format_ranges :: "(nat \<times> nat) list" where
  "format_ranges =
     [(0xAD, 0xAD), (0x600, 0x605), (0x61C, 0x61C), (0x6DD, 0x6DD), (0x70F, 0x70F), (0x890, 0x891),
      (0x8E2, 0x8E2), (0x180E, 0x180E), (0x200B, 0x200F), (0x202A, 0x202E), (0x2060, 0x2064),
      (0x2066, 0x206F), (0xFEFF, 0xFEFF), (0xFFF9, 0xFFFB), (0x110BD, 0x110BD), (0x110CD, 0x110CD),
      (0x13430, 0x1343F), (0x1BCA0, 0x1BCA3), (0x1D173, 0x1D17A), (0xE0001, 0xE0001), (0xE0020, 0xE007F)]"

definition is_format :: "nat \<Rightarrow> bool" where
  "is_format r \<longleftrightarrow> list_ex (\<lambda>(lo, hi). lo \<le> r \<and> r \<le> hi) format_ranges"

definition bad_branch_runes :: "string" where
  "bad_branch_runes = '' ~^:?*['' @ [CHR 0x5C]"

definition valid_branch_name :: "string \<Rightarrow> bool" where
  "valid_branch_name name \<longleftrightarrow>
     \<not> (name = [] \<or> length name > max_branch_name_length \<or> \<not> valid_utf8 name) \<and>
     \<not> (prefix ''/'' name \<or> suffix ''/'' name \<or> suffix ''.'' name \<or> suffix ''.lock'' name \<or>
        sublist ''..'' name \<or> sublist ''//'' name \<or> sublist [CHR ''@'', CHR ''{''] name) \<and>
     \<not> list_ex (\<lambda>r. is_control r \<or> is_format r \<or> r \<in> set (map byte bad_branch_runes)) (runes name)"

definition symref_prefix :: string where
  "symref_prefix = ''ref: refs/heads/''"

definition symref_suffix :: string where
  "symref_suffix = tab # ''HEAD''"

fun symref_lines :: "string list \<Rightarrow> string option" where
  "symref_lines [] = None"
| "symref_lines (l # ls) =
     (if prefix symref_prefix l then
        (let r = drop (length symref_prefix) l
         in if suffix symref_suffix r then
              (let name = take (length r - length symref_suffix) r
               in if valid_branch_name name then Some name else None)
            else symref_lines ls)
      else symref_lines ls)"

definition parse_symref_head :: "string \<Rightarrow> string option" where
  "parse_symref_head out = symref_lines (split_on newline out)"

section \<open>Reading a stream line by line\<close>

text \<open>
  A writer that steps on bytes, whose state is a function \<open>mid\<close> of what the completed lines left and
  of the line so far, is a fold over the lines, however its input was cut into chunks.
\<close>

lemma fold_lines:
  assumes step: "\<And>acc l c. c \<noteq> newline \<Longrightarrow> f c (mid acc l) = mid acc (l @ [c])"
    and finish: "\<And>acc l. f newline (mid acc l) = mid (count l acc) []"
  shows "fold f s (mid acc l) =
    (case split_on newline s of
       x # xs \<Rightarrow> if xs = [] then mid acc (l @ x)
                 else mid (fold count (butlast xs) (count (l @ x) acc)) (List.last xs)
     | [] \<Rightarrow> mid acc l)"
proof (induction s arbitrary: acc l)
  case (Cons c s)
  obtain x xs where sp: "split_on newline s = x # xs" by (cases "split_on newline s") auto
  show ?case
  proof (cases "c = newline")
    case True
    with Cons.IH [of "count l acc" "[]"] sp show ?thesis by (simp add: finish)
  next
    case False
    with Cons.IH [of acc "l @ [c]"] sp show ?thesis by (simp add: step)
  qed
qed simp

lemma fold_lines_new:
  assumes step: "\<And>acc l c. c \<noteq> newline \<Longrightarrow> f c (mid acc l) = mid acc (l @ [c])"
    and finish: "\<And>acc l. f newline (mid acc l) = mid (count l acc) []"
  shows "fold f s (mid acc []) =
    mid (fold count (butlast (split_on newline s)) acc) (List.last (split_on newline s))"
proof -
  obtain x xs where sp: "split_on newline s = x # xs" by (cases "split_on newline s") auto
  show ?thesis
    using fold_lines [where f = f and mid = mid and count = count, OF step finish, of s acc "[]"] sp by simp
qed

lemma fold_last:
  "xs \<noteq> [] \<Longrightarrow> count (List.last xs) (fold count (butlast xs) acc) = fold count xs acc"
  by (cases xs rule: rev_cases) simp_all

lemma fold_concat: "fold (fold f) chunks acc = fold f (concat chunks) acc"
  by (induction chunks arbitrary: acc) simp_all

section \<open>The counter against the whole output\<close>

text \<open>The lines of \<open>git push --porcelain\<close>: status lines, their flag, and the summary of a rejected one.\<close>

definition status_line :: "string \<Rightarrow> bool" where
  "status_line l \<longleftrightarrow> length l \<ge> 2 \<and> l ! 1 = tab"

definition changed_line :: "string \<Rightarrow> bool" where
  "changed_line l \<longleftrightarrow> status_line l \<and> hd l \<in> set ''* +-''"

definition rejected_line :: "string \<Rightarrow> bool" where
  "rejected_line l \<longleftrightarrow> status_line l \<and> hd l = CHR ''!''"

definition line_summary :: "string \<Rightarrow> string" where
  "line_summary l = take max_rejected_line (drop 1 (dropWhile (\<lambda>c. c \<noteq> tab) (drop 2 l)))"

definition rejection_row :: "string \<Rightarrow> string" where
  "rejection_row l =
     (let sm = trim_suffix (line_summary l) [CHR 0x0D]
      in '' ! ref -> ref'' @ (if sm \<noteq> [] then '' '' @ sm else []) @ [newline])"

definition add_row :: "string \<Rightarrow> string \<Rightarrow> string" where
  "add_row row text = (if length text + length row \<le> max_rejection_text then text @ row else text)"

definition count_line :: "string \<Rightarrow> nat \<times> nat \<times> string \<Rightarrow> nat \<times> nat \<times> string" where
  "count_line l acc =
     (case acc of (a, r, t) \<Rightarrow>
        if changed_line l then (a + 1, r, t)
        else if rejected_line l then (a, r + 1, add_row (rejection_row l) t)
        else acc)"

definition mid_counter :: "nat \<times> nat \<times> string \<Rightarrow> string \<Rightarrow> push_counter" where
  "mid_counter acc l =
     (case acc of (a, r, t) \<Rightarrow>
        \<lparr>refs = a, rejected = r, pc_text = t, col = length l,
         flag = (if l = [] then CHR 0x00 else hd l), pc_tab = status_line l,
         tabs = (if status_line l then (if hd l = CHR ''!'' \<and> tab \<in> set (drop 2 l) then 2 else 1) else 0),
         summary = (if rejected_line l then line_summary l else [])\<rparr>)"

lemma short_line: "length l < 2 \<Longrightarrow> \<not> status_line l \<and> \<not> rejected_line l"
  by (simp add: status_line_def rejected_line_def)

lemma status_line_snoc:
  "length l \<ge> 2 \<Longrightarrow> status_line (l @ [c]) = status_line l"
  by (auto simp: status_line_def nth_append)

lemma line_summary_snoc:
  assumes "length l \<ge> 2"
  shows "line_summary (l @ [c]) =
    (if tab \<in> set (drop 2 l) then (if length (line_summary l) < max_rejected_line then line_summary l @ [c]
                                  else line_summary l) else [])"
proof -
  obtain m where m: "drop 2 (l @ [c]) = m @ [c]" "drop 2 l = m" using assms by simp
  show ?thesis
  proof (cases "tab \<in> set m")
    case True
    then obtain u v where "dropWhile (\<lambda>x. x \<noteq> tab) m = u # v"
      by (metis (full_types) dropWhile_eq_Nil_conv neq_Nil_conv)
    with True m show ?thesis by (auto simp: line_summary_def dropWhile_append)
  next
    case False
    then have "dropWhile (\<lambda>x. x \<noteq> tab) m = []" by auto
    with False m show ?thesis by (auto simp: line_summary_def dropWhile_append)
  qed
qed

lemma line_summary_none: "tab \<notin> set (drop 2 l) \<Longrightarrow> line_summary l = []"
proof -
  assume "tab \<notin> set (drop 2 l)"
  then have "dropWhile (\<lambda>c. c \<noteq> tab) (drop 2 l) = []" by auto
  then show ?thesis unfolding line_summary_def by (simp only: drop_Nil take_Nil)
qed

lemma mid_counter_byte:
  assumes "c \<noteq> newline"
  shows "pc_byte c (mid_counter acc l) = mid_counter acc (l @ [c])"
proof -
  obtain a r t where acc: "acc = (a, r, t)" by (metis prod_cases3)
  consider "l = []" | d where "l = [d]" | "length l \<ge> 2" by (cases l; cases "tl l") auto
  then show ?thesis
  proof cases
    case 1
    with assms show ?thesis by (simp add: pc_byte_def mid_counter_def acc Let_def short_line)
  next
    case 2
    with assms show ?thesis
      by (auto simp: pc_byte_def mid_counter_def acc Let_def status_line_def rejected_line_def
          line_summary_def)
  next
    case 3
    then have "hd (l @ [c]) = hd l" by (cases l) auto
    with 3 assms show ?thesis
      by (auto simp: pc_byte_def mid_counter_def acc Let_def status_line_snoc rejected_line_def
          line_summary_snoc line_summary_none hd_append)
  qed
qed

lemma mid_counter_newline: "pc_byte newline (mid_counter acc l) = mid_counter (count_line l acc) []"
proof -
  obtain a r t where acc: "acc = (a, r, t)" by (metis prod_cases3)
  show ?thesis
    by (cases "status_line l"; cases l)
      (auto simp: pc_byte_def pc_end_line_def mid_counter_def count_line_def acc Let_def changed_line_def
        rejected_line_def retain_rejection_def add_row_def rejection_row_def short_line status_line_def)
qed

lemma count_line_empty: "count_line [] acc = acc"
  by (simp add: count_line_def changed_line_def rejected_line_def status_line_def split: prod.splits)

lemma settle_mid: "pc_settle (mid_counter acc l) = mid_counter (count_line l acc) []"
  using mid_counter_newline [of acc l]
  by (cases l) (auto simp: pc_settle_def pc_byte_def count_line_empty mid_counter_def split: prod.splits)

lemma pc_stream_from:
  "pc_settle (fold pc_write chunks (mid_counter acc [])) =
     mid_counter (fold count_line (split_on newline (concat chunks)) acc) []"
proof -
  have w: "pc_write = fold pc_byte" by (simp add: pc_write_def fun_eq_iff)
  show ?thesis
    unfolding w fold_concat
    by (subst fold_lines_new [where f = pc_byte and mid = mid_counter and count = count_line])
      (simp_all add: mid_counter_byte mid_counter_newline settle_mid fold_last)
qed

lemma new_push_counter_mid: "new_push_counter = mid_counter (0, 0, []) []"
  by (simp add: new_push_counter_def mid_counter_def status_line_def rejected_line_def)

lemma pc_stream:
  "pc_settle (fold pc_write chunks new_push_counter) =
     mid_counter (fold count_line (split_on newline (concat chunks)) (0, 0, [])) []"
  by (simp only: new_push_counter_mid pc_stream_from)

lemma count_line_fst: "fst (fold count_line ls (a, r, t)) = a + length (filter changed_line ls)"
  by (induction ls arbitrary: a r t) (auto simp: count_line_def)

lemma count_line_snd: "fst (snd (fold count_line ls (a, r, t))) = r + length (filter rejected_line ls)"
  by (induction ls arbitrary: a r t) (auto simp: count_line_def changed_line_def rejected_line_def)

lemma count_line_text:
  "snd (snd (fold count_line ls (a, r, t))) =
     fold add_row (map rejection_row (filter rejected_line ls)) t"
  by (induction ls arbitrary: a r t) (auto simp: count_line_def changed_line_def rejected_line_def)

lemma add_row_bound: "length t \<le> max_rejection_text \<Longrightarrow> length (fold add_row rows t) \<le> max_rejection_text"
  by (induction rows arbitrary: t) (auto simp: add_row_def)

text \<open>However the output of git push is split into writes, the counter reports exactly the changed and the
rejected lines of the whole output and the bounded rejection texts of the rejected ones.\<close>

theorem push_counter_exact:
  "let p = fold pc_write chunks new_push_counter; ls = split_on newline (concat chunks)
   in pc_refs p = length (filter changed_line ls) \<and>
      pc_rejected p = length (filter rejected_line ls) \<and>
      pc_rejection_text p = fold add_row (map rejection_row (filter rejected_line ls)) [] \<and>
      length (pc_rejection_text p) \<le> max_rejection_text \<and>
      length (summary p) \<le> max_rejected_line"
proof -
  let ?ls = "split_on newline (concat chunks)"
  obtain a r t where acc: "fold count_line ?ls (0, 0, []) = (a, r, t)" by (metis prod_cases3)
  have s: "pc_settle (fold pc_write chunks new_push_counter) = mid_counter (a, r, t) []"
    by (simp add: pc_stream acc)
  have parts: "a = length (filter changed_line ?ls)" "r = length (filter rejected_line ?ls)"
    "t = fold add_row (map rejection_row (filter rejected_line ?ls)) []"
    using count_line_fst [of ?ls 0 0 "[]"] count_line_snd [of ?ls 0 0 "[]"] count_line_text [of ?ls 0 0 "[]"]
    by (simp_all add: acc)
  have step: "length (summary (pc_byte c p)) \<le> max_rejected_line"
    if "length (summary p) \<le> max_rejected_line" for c p
    using that by (auto simp: pc_byte_def pc_end_line_def Let_def)
  have "length (summary (fold pc_byte s p)) \<le> max_rejected_line"
    if "length (summary p) \<le> max_rejected_line" for s p
    using that by (induction s arbitrary: p) (auto intro: step)
  then have "length (summary (fold pc_write chunks p)) \<le> max_rejected_line"
    if "length (summary p) \<le> max_rejected_line" for p
    using that by (induction chunks arbitrary: p) (auto simp: pc_write_def)
  from this [of new_push_counter] s parts show ?thesis
    using add_row_bound [of "[]"]
    by (simp add: Let_def pc_refs_def pc_rejected_def pc_rejection_text_def mid_counter_def new_push_counter_def)
qed

section \<open>The tracker against the whole output\<close>

definition line_times :: "int \<Rightarrow> string \<Rightarrow> int set" where
  "line_times c l =
     {v. \<exists>f \<in> set (split_on (CHR ''|'') l). atoi f = Some v \<and> 0 < v \<and> v \<le> eff_ceiling c \<and>
         length l \<le> max_format_line}"

definition tracker_line :: "int \<Rightarrow> string \<Rightarrow> int \<Rightarrow> int" where
  "tracker_line c l m =
     (if length l \<le> max_format_line then fold (take_field (eff_ceiling c)) (split_on (CHR ''|'') l) m else m)"

definition mid_tracker :: "int \<Rightarrow> int \<Rightarrow> string \<Rightarrow> newest_tracker" where
  "mid_tracker c m l = \<lparr>ceiling_at = c, newest_max = m, nt_line = take max_format_line l,
     over = (max_format_line < length l)\<rparr>"

lemma mid_tracker_byte: "x \<noteq> newline \<Longrightarrow> nt_byte x (mid_tracker c m l) = mid_tracker c m (l @ [x])"
  by (auto simp: nt_byte_def mid_tracker_def)

lemma mid_tracker_newline: "nt_byte newline (mid_tracker c m l) = mid_tracker c (tracker_line c l m) []"
  by (auto simp: nt_byte_def nt_end_line_def mid_tracker_def tracker_line_def Let_def)

lemma Max_insert_Max:
  assumes "finite A" and "finite B"
  shows "Max (insert (Max (insert m A)) B) = Max (insert (m::int) (A \<union> B))"
proof (cases "B = {}")
  case False
  have "insert m (A \<union> B) = insert m A \<union> B" by simp
  with False assms show ?thesis by (simp add: Max_Un del: Max_insert Un_insert_left) simp
qed simp

definition usable :: "int \<Rightarrow> string \<Rightarrow> int set" where
  "usable c f = {v. atoi f = Some v \<and> 0 < v \<and> v \<le> c}"

lemma finite_usable [simp]: "finite (usable c f)"
  by (rule finite_subset [of _ "{0..c}"]) (auto simp: usable_def)

lemma take_field_Max: "take_field c f m = Max (insert m (usable c f))"
proof (cases "atoi f")
  case (Some v)
  then have "usable c f = (if 0 < v \<and> v \<le> c then {v} else {})" by (auto simp: usable_def)
  with Some show ?thesis by (auto simp: take_field_def)
qed (simp add: take_field_def usable_def)

lemma fold_take_field: "fold (take_field c) fs m = Max (insert m (\<Union>f \<in> set fs. usable c f))"
proof (induction fs arbitrary: m)
  case (Cons f fs)
  then show ?case
    using Max_insert_Max [of "usable c f" "\<Union>f \<in> set fs. usable c f" m] by (simp add: take_field_Max)
qed simp

lemma finite_line_times [simp]: "finite (line_times c l)"
  by (rule finite_subset [of _ "{0..eff_ceiling c}"]) (auto simp: line_times_def)

lemma tracker_line_Max: "tracker_line c l m = Max (insert m (line_times c l))"
proof -
  have "line_times c l =
      (if length l \<le> max_format_line then \<Union>f \<in> set (split_on (CHR ''|'') l). usable (eff_ceiling c) f else {})"
    by (auto simp: line_times_def usable_def)
  then show ?thesis by (simp add: tracker_line_def fold_take_field)
qed

lemma fold_tracker: "fold (tracker_line c) ls m = Max (insert m (\<Union>l \<in> set ls. line_times c l))"
proof (induction ls arbitrary: m)
  case (Cons l ls)
  then show ?case
    using Max_insert_Max [of "line_times c l" "\<Union>l \<in> set ls. line_times c l" m] by (simp add: tracker_line_Max)
qed simp

text \<open>However its input is split, the newest-commit tracker reports the maximum of the usable time fields
of all lines: positive, not above the ceiling, on lines of at most 64 bytes.\<close>

theorem newest_tracker_exact:
  "let ts = (\<Union>l \<in> set (split_on newline (concat chunks)). line_times c l)
   in nt_newest (fold nt_write chunks (new_newest_tracker c)) =
        (if ts = {} then None else Some (Max ts * second))"
proof -
  let ?ls = "split_on newline (concat chunks)"
  let ?ts = "\<Union>l \<in> set ?ls. line_times c l"
  have w: "nt_write = fold nt_byte" by (simp add: nt_write_def fun_eq_iff)
  have new: "new_newest_tracker c = mid_tracker c 0 []"
    by (simp add: new_newest_tracker_def mid_tracker_def)
  have stream: "fold nt_write chunks (new_newest_tracker c) =
      mid_tracker c (fold (tracker_line c) (butlast ?ls) 0) (List.last ?ls)"
    unfolding w fold_concat new
    by (rule fold_lines_new) (simp_all add: mid_tracker_byte mid_tracker_newline)
  have empty: "tracker_line c [] m = m" for m
    by (simp add: tracker_line_def take_field_def atoi_def Let_def)
  have nt: "(let n1 = (if nt_line (mid_tracker c m l) \<noteq> [] then nt_end_line (mid_tracker c m l)
             else mid_tracker c m l) in newest_max n1) = tracker_line c l m" for m l
    using mid_tracker_newline [of c m l]
    by (cases l) (auto simp: nt_byte_def empty mid_tracker_def Let_def max_format_line_def)
  have "nt_newest (fold nt_write chunks (new_newest_tracker c)) =
      (let m = fold (tracker_line c) ?ls 0 in if m = 0 then None else Some (m * second))"
    using nt [of "fold (tracker_line c) (butlast ?ls) 0" "List.last ?ls"]
    by (simp add: stream nt_newest_def Let_def fold_last)
  also have "fold (tracker_line c) ?ls 0 = Max (insert 0 ?ts)" by (rule fold_tracker)
  finally have r: "nt_newest (fold nt_write chunks (new_newest_tracker c)) =
      (let m = Max (insert 0 ?ts) in if m = 0 then None else Some (m * second))" .
  show ?thesis
  proof (cases "?ts = {}")
    case False
    have pos: "\<And>v. v \<in> ?ts \<Longrightarrow> 0 < v" by (auto simp: line_times_def)
    have "0 < Max ?ts" using False pos by (intro pos Max_in) simp_all
    with False r show ?thesis by (simp add: Let_def)
  qed (use r in \<open>simp add: Let_def\<close>)
qed

section \<open>The default branch\<close>

definition symref_line :: "string \<Rightarrow> string \<Rightarrow> bool" where
  "symref_line l name \<longleftrightarrow> l = symref_prefix @ name @ symref_suffix"

lemma symref_lines_Some:
  "symref_lines ls = Some name \<longleftrightarrow>
     (\<exists>pre l post. ls = pre @ l # post \<and> symref_line l name \<and> valid_branch_name name \<and>
        list_all (\<lambda>x. \<forall>n. \<not> symref_line x n) pre)"
proof (induction ls)
  case (Cons l ls)
  show ?case
  proof (cases "\<exists>n. symref_line l n")
    case True
    then obtain n where n: "l = symref_prefix @ n @ symref_suffix" by (auto simp: symref_line_def)
    have "symref_lines (l # ls) = (if valid_branch_name n then Some n else None)"
      by (simp add: n Let_def suffix_def)
    moreover have "(\<exists>pre l' post. l # ls = pre @ l' # post \<and> symref_line l' name \<and> valid_branch_name name \<and>
        list_all (\<lambda>x. \<forall>n. \<not> symref_line x n) pre) \<longleftrightarrow> symref_line l name \<and> valid_branch_name name"
    proof
      assume "\<exists>pre l' post. l # ls = pre @ l' # post \<and> symref_line l' name \<and> valid_branch_name name \<and>
        list_all (\<lambda>x. \<forall>n. \<not> symref_line x n) pre"
      then obtain pre l' post where d: "l # ls = pre @ l' # post" "symref_line l' name" "valid_branch_name name"
        and pre: "list_all (\<lambda>x. \<forall>n. \<not> symref_line x n) pre" by blast
      have "pre = []" using pre True d(1) by (cases pre) simp_all
      with d show "symref_line l name \<and> valid_branch_name name" by simp
    qed (auto intro: exI [of _ "[]"])
    ultimately show ?thesis by (auto simp: n symref_line_def)
  next
    case False
    have "symref_lines (l # ls) = symref_lines ls"
      using False by (auto simp: symref_line_def prefix_def suffix_def Let_def)
    moreover have "(\<exists>pre l' post. l # ls = pre @ l' # post \<and> symref_line l' name \<and> valid_branch_name name \<and>
        list_all (\<lambda>x. \<forall>n. \<not> symref_line x n) pre) \<longleftrightarrow>
      (\<exists>pre l' post. ls = pre @ l' # post \<and> symref_line l' name \<and> valid_branch_name name \<and>
        list_all (\<lambda>x. \<forall>n. \<not> symref_line x n) pre)" (is "?L = ?R")
    proof
      assume ?L
      then obtain pre l' post where d: "l # ls = pre @ l' # post" "symref_line l' name" "valid_branch_name name"
        and pre: "list_all (\<lambda>x. \<forall>n. \<not> symref_line x n) pre" by blast
      from d False obtain pre' where "pre = l # pre'" by (cases pre) auto
      with d pre show ?R by auto
    next
      assume ?R
      then obtain pre l' post where "ls = pre @ l' # post" "symref_line l' name" "valid_branch_name name"
        "list_all (\<lambda>x. \<forall>n. \<not> symref_line x n) pre" by blast
      with False show ?L by (intro exI [of _ "l # pre"] exI [of _ l'] exI [of _ post]) simp
    qed
    ultimately show ?thesis using Cons.IH by simp
  qed
qed (simp add: symref_line_def)

text \<open>parseSymrefHead returns a branch name exactly when the first matching symref line names HEAD with a
valid branch name.\<close>

theorem symref_head_exact:
  "parse_symref_head out = Some name \<longleftrightarrow>
     (\<exists>pre l post. split_on newline out = pre @ l # post \<and> symref_line l name \<and>
        list_all (\<lambda>x. \<forall>n. \<not> symref_line x n) pre) \<and>
     valid_branch_name name \<and> length name \<le> max_branch_name_length \<and>
     list_all (\<lambda>c. 32 < byte c \<and> byte c \<noteq> 127) name"
proof -
  have "list_all (\<lambda>c. 32 < byte c \<and> byte c \<noteq> 127) name" if v: "valid_branch_name name"
    unfolding list_all_iff
  proof
    fix c assume c: "c \<in> set name"
    have ok: "\<not> is_control r \<and> r \<noteq> 32" if "r \<in> set (runes name)" for r
      using v that by (auto simp: valid_branch_name_def list_ex_iff bad_branch_runes_def)
    show "32 < byte c \<and> byte c \<noteq> 127"
    proof (cases "byte c < 128")
      case True
      from ok [OF ascii_rune [OF c True]] True show ?thesis by (auto simp: is_control_def)
    qed simp
  qed
  moreover have "length name \<le> max_branch_name_length" if "valid_branch_name name"
    using that by (simp add: valid_branch_name_def)
  ultimately show ?thesis
    by (auto simp: parse_symref_head_def symref_lines_Some)
qed

end
