(* ===== verification/RunRecords.thy ===== *)
theory RunRecords
  imports Providers SyncStats
begin

text \<open>
  What is remembered of a repository's attempts (\<open>runRecord\<close> and \<open>targetFingerprint\<close> of
  \<open>gitsync/runstate.go\<close>) and how a finished attempt is folded into it (\<open>recordAttempt\<close> and
  \<open>utcSeconds\<close> of \<open>gitsync/client.go\<close>).
\<close>

record run_record =
  rr_target :: string
  last_attempt_at :: gtime
  last_success_at :: gtime
  duration_ms :: "int option"
  rr_refs_pushed :: "int option"
  newest_origin_commit_at :: gtime
  origin_default_branch :: string

definition no_record :: run_record where
  "no_record = \<lparr>rr_target = [], last_attempt_at = zero_time, last_success_at = zero_time, duration_ms = None,
     rr_refs_pushed = None, newest_origin_commit_at = zero_time, origin_default_branch = []\<rparr>"

text \<open>What is hashed: both parts with their lengths.\<close>

definition fingerprint_text :: "string \<Rightarrow> string \<Rightarrow> string" where
  "fingerprint_text origin_url replica =
     itoa (length origin_url) @ '':'' @ origin_url @ itoa (length replica) @ '':'' @ replica"

definition target_fingerprint :: "go_lib \<Rightarrow> string \<Rightarrow> string \<Rightarrow> string" where
  "target_fingerprint lib origin_url replica = sha256_hex lib (fingerprint_text origin_url replica)"

text \<open>\<open>Time.Unix\<close> of a time in nanoseconds, and the checks of \<open>valid\<close>.\<close>

definition unix :: "gtime \<Rightarrow> int" where
  "unix t = t div second"

definition valid_record :: "run_record \<Rightarrow> bool" where
  "valid_record r \<longleftrightarrow>
     (length (rr_target r) = 64 \<and> list_all is_hex_digit (rr_target r) \<and>
      rr_target r = map lower_char (rr_target r)) \<and>
     list_all (\<lambda>t. is_zero_time t \<or> \<not> (unix t \<le> 0 \<or> unix t > max_commit_unix))
       [last_attempt_at r, last_success_at r, newest_origin_commit_at r] \<and>
     (case duration_ms r of None \<Rightarrow> True | Some d \<Rightarrow> \<not> (d < 0 \<or> d > 2 ^ 40)) \<and>
     (case rr_refs_pushed r of None \<Rightarrow> True | Some n \<Rightarrow> \<not> (n < 0 \<or> n > 2 ^ 30)) \<and>
     (origin_default_branch r = [] \<or> valid_branch_name (origin_default_branch r))"

definition utc_seconds :: "gtime \<Rightarrow> gtime" where
  "utc_seconds t = t - (t - zero_time) mod second"

text \<open>\<open>Duration.Milliseconds\<close>: Go's division truncates towards zero.\<close>

definition milliseconds :: "duration \<Rightarrow> int" where
  "milliseconds d = (if d < 0 then - ((- d) div 1000000) else d div 1000000)"

definition record_attempt :: "gtime \<Rightarrow> run_record \<Rightarrow> string \<Rightarrow> sync_result \<Rightarrow> run_record" where
  "record_attempt now rec target res =
     (let rec0 = (if rr_target rec \<noteq> [] \<and> rr_target rec \<noteq> target then no_record else rec);
          took = duration_of (stats res);
          started = (if is_zero_time (started_at (stats res)) then now - took else started_at (stats res));
          rec1 = rec0\<lparr>rr_target := target, last_attempt_at := utc_seconds started,
                   duration_ms := Some (milliseconds took),
                   rr_refs_pushed := map_option int (refs_pushed (stats res))\<rparr>;
          rec2 = (if res_state res = StateOK then rec1\<lparr>last_success_at := utc_seconds (started + took)\<rparr> else rec1);
          rec3 = (if \<not> is_zero_time (newest_commit_at (stats res))
                  then rec2\<lparr>newest_origin_commit_at := utc_seconds (newest_commit_at (stats res))\<rparr> else rec2)
      in if default_branch (stats res) \<noteq> []
         then rec3\<lparr>origin_default_branch := default_branch (stats res)\<rparr> else rec3)"

section \<open>Lemmas\<close>

lemma fingerprint_text_inject:
  "fingerprint_text a b = fingerprint_text c d \<longleftrightarrow> a = c \<and> b = d"
proof
  assume "fingerprint_text a b = fingerprint_text c d"
  then have "a = c \<and> itoa (length b) @ '':'' @ b @ [] = itoa (length d) @ '':'' @ d @ []"
    using length_prefixed_inject [of a "itoa (length b) @ '':'' @ b" c "itoa (length d) @ '':'' @ d"]
    by (simp add: fingerprint_text_def)
  then show "a = c \<and> b = d" using length_prefixed_inject [of b "[]" d "[]"] by blast
qed simp

lemma unix_zero_time: "unix zero_time < 0"
  by (simp add: unix_def zero_time_def)

lemma utc_seconds_whole: "utc_seconds t = unix t * second"
proof -
  have "(t - zero_time) mod second = t mod second"
  proof -
    have "t - zero_time = t + 62135596800 * second" by (simp add: zero_time_def)
    then show ?thesis by (simp only: mod_mult_self1)
  qed
  then show ?thesis by (simp add: utc_seconds_def unix_def minus_mod_eq_div_mult)
qed

lemma unix_utc_seconds [simp]: "unix (utc_seconds t) = unix t"
  by (simp add: utc_seconds_whole unix_def)

text \<open>What an attempt records, on every branch: a success replaces the record, a failure keeps the last
success and its statistics and records the failure.\<close>

theorem record_attempt_spec:
  "let r = record_attempt now rec target res; other = (rr_target rec \<noteq> [] \<and> rr_target rec \<noteq> target);
       st = stats res
   in rr_target r = target \<and>
      last_success_at r =
        (if res_state res = StateOK
         then utc_seconds ((if is_zero_time (started_at st) then now - duration_of st else started_at st) + duration_of st)
         else if other then zero_time else last_success_at rec) \<and>
      last_attempt_at r =
        utc_seconds (if is_zero_time (started_at st) then now - duration_of st else started_at st) \<and>
      duration_ms r = Some (milliseconds (duration_of st)) \<and>
      rr_refs_pushed r = map_option int (refs_pushed st) \<and>
      newest_origin_commit_at r =
        (if \<not> is_zero_time (newest_commit_at st) then utc_seconds (newest_commit_at st)
         else if other then zero_time else newest_origin_commit_at rec) \<and>
      origin_default_branch r =
        (if default_branch st \<noteq> [] then default_branch st
         else if other then [] else origin_default_branch rec)"
  by (simp add: record_attempt_def Let_def no_record_def)

section \<open>What is recorded is accepted back\<close>

text \<open>What the sync guarantees of what it measured, and the documented range of the clock.\<close>

definition sane_time :: "gtime \<Rightarrow> bool" where
  "sane_time t \<longleftrightarrow> 0 < unix t \<and> unix t \<le> max_commit_unix"

definition sane_stats :: "gtime \<Rightarrow> sync_stats \<Rightarrow> bool" where
  "sane_stats now st \<longleftrightarrow>
     sane_time (if is_zero_time (started_at st) then now - duration_of st else started_at st) \<and>
     sane_time ((if is_zero_time (started_at st) then now - duration_of st else started_at st) + duration_of st) \<and>
     0 \<le> duration_of st \<and> duration_of st \<le> 2 ^ 40 * 1000000 \<and>
     (case refs_pushed st of None \<Rightarrow> True | Some n \<Rightarrow> n \<le> 2 ^ 30) \<and>
     (is_zero_time (newest_commit_at st) \<or> sane_time (newest_commit_at st)) \<and>
     (default_branch st = [] \<or> valid_branch_name (default_branch st))"

text \<open>\<open>hex.EncodeToString\<close> of a SHA-256 sum is 64 lower-case hex digits.\<close>

definition sha_ok :: "go_lib \<Rightarrow> bool" where
  "sha_ok lib \<longleftrightarrow> (\<forall>s. length (sha256_hex lib s) = 64 \<and> list_all is_hex_lower (sha256_hex lib s))"

lemma lower_hex: "list_all is_hex_lower s \<Longrightarrow> map lower_char s = s"
  by (induction s) (auto simp: lower_char_def is_hex_lower_def is_digit_def is_upper_def)

lemma target_fingerprint_hex:
  assumes "sha_ok lib"
  shows "length (target_fingerprint lib a b) = 64 \<and> list_all is_hex_digit (target_fingerprint lib a b) \<and>
    map lower_char (target_fingerprint lib a b) = target_fingerprint lib a b"
  using assms by (auto simp: target_fingerprint_def sha_ok_def lower_hex is_hex_digit_def list_all_iff)

lemma sane_recorded: "sane_time t \<Longrightarrow> is_zero_time (utc_seconds t) \<or> \<not> (unix t \<le> 0 \<or> max_commit_unix < unix t)"
  by (simp add: sane_time_def)

text \<open>A record the loader would accept stays acceptable after any attempt with sane statistics is recorded
in it.\<close>

theorem recorded_stays_valid:
  assumes "sha_ok lib" and st: "sane_stats now (stats res)" and rec: "rec = no_record \<or> valid_record rec"
  shows "valid_record (record_attempt now rec (target_fingerprint lib a b) res)"
proof -
  let ?target = "target_fingerprint lib a b"
  let ?r = "record_attempt now rec ?target res"
  have spec: "rr_target ?r = ?target"
    "last_success_at ?r \<in> {utc_seconds ((if is_zero_time (started_at (stats res)) then now - duration_of (stats res)
        else started_at (stats res)) + duration_of (stats res)), zero_time, last_success_at rec}"
    "last_attempt_at ?r = utc_seconds (if is_zero_time (started_at (stats res)) then now - duration_of (stats res)
        else started_at (stats res))"
    "newest_origin_commit_at ?r \<in> {zero_time, newest_origin_commit_at rec} \<or>
     \<not> is_zero_time (newest_commit_at (stats res)) \<and>
        newest_origin_commit_at ?r = utc_seconds (newest_commit_at (stats res))"
    "origin_default_branch ?r \<in> {[], origin_default_branch rec, default_branch (stats res)}"
    "duration_ms ?r = Some (milliseconds (duration_of (stats res)))"
    "rr_refs_pushed ?r = map_option int (refs_pushed (stats res))"
    by (simp_all add: record_attempt_def Let_def no_record_def)
  define ok where "ok = (\<lambda>t. is_zero_time t \<or> \<not> (unix t \<le> 0 \<or> unix t > max_commit_unix))"
  have old: "ok (last_success_at rec)" "ok (newest_origin_commit_at rec)" "ok zero_time"
    "origin_default_branch rec = [] \<or> valid_branch_name (origin_default_branch rec)"
    using rec by (auto simp: ok_def valid_record_def no_record_def is_zero_time_def)
  have sane: "ok (utc_seconds t)" if "sane_time t" for t
    using that by (simp add: ok_def sane_time_def)
  have "ok (last_attempt_at ?r)" "ok (last_success_at ?r)" "ok (newest_origin_commit_at ?r)"
    using spec(2,3,4) old sane st unfolding sane_stats_def by auto
  moreover have "0 \<le> milliseconds (duration_of (stats res)) \<and> milliseconds (duration_of (stats res)) \<le> 2 ^ 40"
    using st by (auto simp: sane_stats_def milliseconds_def)
  moreover have "origin_default_branch ?r = [] \<or> valid_branch_name (origin_default_branch ?r)"
    using spec(5) old(4) st unfolding sane_stats_def by auto
  moreover have "case rr_refs_pushed ?r of None \<Rightarrow> True | Some n \<Rightarrow> \<not> (n < 0 \<or> n > 2 ^ 30)"
    using st unfolding spec(7) sane_stats_def by (cases "refs_pushed (stats res)") auto
  ultimately show ?thesis
    using target_fingerprint_hex [OF assms(1), of a b]
    by (simp add: valid_record_def spec(1,6) ok_def)
qed

text \<open>A first attempt of two seconds that pushed three refs.\<close>

definition hash_lib :: go_lib where
  "hash_lib = example_lib\<lparr>sha256_hex := (\<lambda>_. replicate 64 (CHR ''a''))\<rparr>"

definition example_stats :: sync_stats where
  "example_stats = \<lparr>started_at = 1700000000 * second, duration_of = 2 * second, refs_pushed = Some 3,
     newest_commit_at = zero_time, default_branch = []\<rparr>"

theorem recorded_stays_valid_witness:
  "valid_record (record_attempt 0 no_record (target_fingerprint hash_lib ''https://a'' ''https://b'')
     (ok_result\<lparr>stats := example_stats\<rparr>))"
proof (rule recorded_stays_valid)
  show "sha_ok hash_lib"
    by (simp add: sha_ok_def hash_lib_def is_hex_lower_def list_all_iff)
  show "sane_stats 0 (stats (ok_result\<lparr>stats := example_stats\<rparr>))"
    by (simp add: sane_stats_def example_stats_def is_zero_time_def zero_time_def sane_time_def unix_def
        max_commit_unix_def)
qed simp

end
