(* ===== verification/ProviderGates.thy ===== *)
theory ProviderGates
  imports SyncTypes
begin

text \<open>
  The per-credential side of retry backoff, \<open>internal/gitsync/providergate.go\<close>. A gate holds back the
  repositories of a credential the origin refused; a pass lets one repository claim once while the
  gate is closed. All state is behind one leaf mutex, so every method is one atomic operation on the
  record \<open>provider_gates\<close>. The closure \<open>beginProbe\<close> returns is the datatype \<open>probe_undo\<close> of what it
  captured, and \<open>apply_undo\<close> is its body.
\<close>

subsection \<open>State\<close>

record provider_gate =
  armed_at :: gtime
  until :: gtime

record provider_gates =
  gates :: "(binding, provider_gate) fmap"
  passes :: "(repo_id, binding) fmap"
  manual :: "(repo_id, gtime) fmap"

datatype gate_state = GateNone | GateClosed | GateHalfOpen

definition manual_pass_gap :: duration where
  "manual_pass_gap = minute"

definition new_provider_gates :: provider_gates where
  "new_provider_gates = \<lparr>gates = fmempty, passes = fmempty, manual = fmempty\<rparr>"

subsection \<open>Operations\<close>

definition gate_held :: "provider_gates \<Rightarrow> binding \<Rightarrow> bool" where
  "gate_held g b \<longleftrightarrow> fmlookup (gates g) b \<noteq> None"

definition state :: "provider_gates \<Rightarrow> binding \<Rightarrow> gtime \<Rightarrow> gate_state" where
  "state g b now =
     (case fmlookup (gates g) b of
        None \<Rightarrow> GateNone
      | Some gate \<Rightarrow> if now < until gate then GateClosed else GateHalfOpen)"

definition arm :: "binding \<Rightarrow> gtime \<Rightarrow> duration \<Rightarrow> provider_gates \<Rightarrow> bool \<times> provider_gates" where
  "arm b now tier g =
     (if provider b = [] then (False, g)
      else (gate_held g b, g\<lparr>gates := fmupd b \<lparr>armed_at = now, until = now + tier\<rparr> (gates g)\<rparr>))"

definition drop_passes_locked :: "binding \<Rightarrow> provider_gates \<Rightarrow> provider_gates" where
  "drop_passes_locked b g =
     g\<lparr>passes := fmfilter (\<lambda>r. fmlookup (passes g) r \<noteq> Some b) (passes g)\<rparr>"

definition succeeded :: "binding \<Rightarrow> gtime \<Rightarrow> provider_gates \<Rightarrow> bool \<times> provider_gates" where
  "succeeded b started g =
     (case fmlookup (gates g) b of
        None \<Rightarrow> (False, g)
      | Some gate \<Rightarrow>
          if \<not> armed_at gate < started then (False, g)
          else (True, drop_passes_locked b (g\<lparr>gates := fmdrop b (gates g)\<rparr>)))"

datatype probe_undo =
    NoUndo
  | Undo (undo_binding: binding) (undo_repo: repo_id) (handed_until: gtime) (prev_until: gtime)
      (prev_pass: "binding option")

definition begin_probe ::
  "binding \<Rightarrow> repo_id \<Rightarrow> gtime \<Rightarrow> duration \<Rightarrow> provider_gates \<Rightarrow> probe_undo \<times> provider_gates" where
  "begin_probe b repo now window g =
     (case fmlookup (gates g) b of
        None \<Rightarrow> (NoUndo, g)
      | Some gate \<Rightarrow>
          (Undo b repo (now + window) (until gate) (fmlookup (passes g) repo),
           g\<lparr>gates := fmupd b (gate\<lparr>until := now + window\<rparr>) (gates g),
             passes := fmupd repo b (passes g)\<rparr>))"

definition restore_until :: "binding \<Rightarrow> gtime \<Rightarrow> gtime \<Rightarrow> provider_gates \<Rightarrow> provider_gates" where
  "restore_until b handed prev g =
     (case fmlookup (gates g) b of
        None \<Rightarrow> g
      | Some gate \<Rightarrow>
          if until gate = handed then g\<lparr>gates := fmupd b (gate\<lparr>until := prev\<rparr>) (gates g)\<rparr> else g)"

fun apply_undo :: "probe_undo \<Rightarrow> provider_gates \<Rightarrow> provider_gates" where
  "apply_undo NoUndo g = g"
| "apply_undo (Undo b repo handed prev pass) g =
     (let g1 = restore_until b handed prev g
      in case pass of
           Some pb \<Rightarrow> g1\<lparr>passes := fmupd repo pb (passes g1)\<rparr>
         | None \<Rightarrow> g1\<lparr>passes := fmdrop repo (passes g1)\<rparr>)"

definition admit_manual :: "binding \<Rightarrow> repo_id \<Rightarrow> gtime \<Rightarrow> provider_gates \<Rightarrow> bool \<times> provider_gates" where
  "admit_manual b repo now g =
     (if \<not> gate_held g b then (True, g)
      else if (case fmlookup (manual g) repo of
                 None \<Rightarrow> False
               | Some prev \<Rightarrow> time_sub now prev < manual_pass_gap) then (False, g)
      else (True, g\<lparr>manual := fmupd repo now (manual g), passes := fmupd repo b (passes g)\<rparr>))"

definition claim ::
  "binding \<Rightarrow> repo_id \<Rightarrow> gtime \<Rightarrow> duration \<Rightarrow> provider_gates \<Rightarrow> bool \<times> provider_gates" where
  "claim b repo now window g =
     (case fmlookup (gates g) b of
        None \<Rightarrow> (True, g)
      | Some gate \<Rightarrow>
          if fmlookup (passes g) repo \<noteq> Some b then (False, g)
          else (let g1 = g\<lparr>passes := fmdrop repo (passes g)\<rparr>
                in if \<not> now < until gate
                   then (True, g1\<lparr>gates := fmupd b (gate\<lparr>until := now + window\<rparr>) (gates g1)\<rparr>)
                   else (True, g1)))"

definition drop_pass :: "repo_id \<Rightarrow> provider_gates \<Rightarrow> provider_gates" where
  "drop_pass repo g = g\<lparr>passes := fmdrop repo (passes g)\<rparr>"

definition retain :: "binding set \<Rightarrow> repo_id set \<Rightarrow> provider_gates \<Rightarrow> provider_gates" where
  "retain in_use repos g =
     (let gs = fmfilter (\<lambda>b. b \<in> in_use) (gates g)
      in g\<lparr>gates := gs,
           passes := fmfilter (\<lambda>r. case fmlookup (passes g) r of
                        None \<Rightarrow> False | Some b \<Rightarrow> fmlookup gs b \<noteq> None \<and> r \<in> repos) (passes g),
           manual := fmfilter (\<lambda>r. r \<in> repos) (manual g)\<rparr>)"

lemmas [op_defs] = state_def arm_def succeeded_def begin_probe_def restore_until_def admit_manual_def
  claim_def drop_pass_def retain_def gate_held_def drop_passes_locked_def

lemma state_none_iff: "state g b now = GateNone \<longleftrightarrow> \<not> gate_held g b"
  by (auto simp: state_def gate_held_def split: option.splits)

lemma state_closed_iff:
  "state g b now = GateClosed \<longleftrightarrow> (\<exists>gt. fmlookup (gates g) b = Some gt \<and> now < until gt)"
  by (auto simp: state_def split: option.splits)

lemma state_half_open_iff:
  "state g b now = GateHalfOpen \<longleftrightarrow> (\<exists>gt. fmlookup (gates g) b = Some gt \<and> until gt \<le> now)"
  by (auto simp: state_def split: option.splits)

subsection \<open>Passes held for a credential\<close>

definition pass_holders :: "binding \<Rightarrow> provider_gates \<Rightarrow> repo_id set" where
  "pass_holders b g = {r. fmlookup (passes g) r = Some b}"

lemma finite_pass_holders [simp]: "finite (pass_holders b g)"
proof (rule finite_subset)
  show "pass_holders b g \<subseteq> fmdom' (passes g)" by (auto simp: pass_holders_def)
qed simp

lemma card_pass_holders_upd:
  "card (pass_holders b (g\<lparr>passes := fmupd r b' (passes g)\<rparr>))
     \<le> card (pass_holders b g) + (if b = b' then 1 else 0)"
proof -
  have "pass_holders b (g\<lparr>passes := fmupd r b' (passes g)\<rparr>)
      \<subseteq> (if b = b' then insert r (pass_holders b g) else pass_holders b g)"
    by (auto simp: pass_holders_def split: if_splits)
  then have "card (pass_holders b (g\<lparr>passes := fmupd r b' (passes g)\<rparr>))
      \<le> card (if b = b' then insert r (pass_holders b g) else pass_holders b g)"
    by (intro card_mono) auto
  also have "\<dots> \<le> card (pass_holders b g) + (if b = b' then 1 else 0)"
    by (simp add: card_insert_if)
  finally show ?thesis .
qed

lemma card_pass_holders_drop:
  "card (pass_holders b (g\<lparr>passes := fmdrop r (passes g)\<rparr>))
     = card (pass_holders b g) - (if r \<in> pass_holders b g then 1 else 0)"
proof -
  have "pass_holders b (g\<lparr>passes := fmdrop r (passes g)\<rparr>) = pass_holders b g - {r}"
    by (auto simp: pass_holders_def)
  then show ?thesis by simp
qed

lemma pass_holders_gates_upd [simp]:
  "pass_holders b (g\<lparr>gates := x\<rparr>) = pass_holders b g"
  "pass_holders b (g\<lparr>manual := y\<rparr>) = pass_holders b g"
  by (simp_all add: pass_holders_def)

subsection \<open>The interface the scheduler and the claim check rely on\<close>

text \<open>
  A pass keeper holds one-shot permissions. What its clients use of it: a claim without a gate
  succeeds and changes nothing, a claim on a gated credential succeeds exactly with a pass for it, and
  uses that pass up and no other.
\<close>

locale pass_keeper =
  fixes gated :: "'g \<Rightarrow> 'b \<Rightarrow> bool"
    and holders :: "'b \<Rightarrow> 'g \<Rightarrow> repo_id set"
    and try_claim :: "'b \<Rightarrow> repo_id \<Rightarrow> gtime \<Rightarrow> duration \<Rightarrow> 'g \<Rightarrow> bool \<times> 'g"
  assumes open_claim: "\<not> gated g b \<Longrightarrow> try_claim b r now w g = (True, g)"
    and gated_claim: "gated g b \<Longrightarrow> fst (try_claim b r now w g) \<longleftrightarrow> r \<in> holders b g"
    and claim_keeps_gates: "gated (snd (try_claim b r now w g)) b' \<longleftrightarrow> gated g b'"
    and claim_uses: "gated g b \<Longrightarrow> r \<in> holders b g \<Longrightarrow>
          holders b (snd (try_claim b r now w g)) = holders b g - {r}"
    and claim_other: "b' \<noteq> b \<Longrightarrow> holders b' (snd (try_claim b r now w g)) = holders b' g"
    and claim_refused: "gated g b \<Longrightarrow> r \<notin> holders b g \<Longrightarrow> try_claim b r now w g = (False, g)"
    and finite_holders: "finite (holders b g)"
begin

text \<open>A burst of claims, as a configuration or a restart queues them, and how many on \<open>b\<close> succeed.\<close>

fun burst :: "'b \<Rightarrow> ('b \<times> repo_id \<times> gtime \<times> duration) list \<Rightarrow> 'g \<Rightarrow> nat \<times> 'g" where
  "burst b [] g = (0, g)"
| "burst b ((c, r, now, w) # cs) g =
     (case try_claim c r now w g of
        (ok, g1) \<Rightarrow> (case burst b cs g1 of (n, g2) \<Rightarrow> (n + of_bool (ok \<and> c = b), g2)))"

lemma claim_card:
  assumes "gated g b" and "try_claim c r now w g = (ok, g1)"
  shows "card (holders b g1) + of_bool (ok \<and> c = b) \<le> card (holders b g)"
proof (cases "c = b")
  case True
  show ?thesis
  proof (cases "r \<in> holders b g")
    case h: True
    have "holders b g1 = holders b g - {r}"
      using claim_uses [OF assms(1) h, of now w] assms(2) True by simp
    moreover have "card (holders b g) = Suc (card (holders b g - {r}))"
      using finite_holders h by (rule card.remove)
    ultimately show ?thesis by simp
  next
    case False
    then show ?thesis
      using claim_refused [OF assms(1) False, of now w] assms(2) True by auto
  qed
next
  case False
  then show ?thesis
    using claim_other [of b c r now w g] assms(2) by simp
qed

lemma burst_bound:
  "gated g b \<Longrightarrow> burst b cs g = (n, g') \<Longrightarrow> n + card (holders b g') \<le> card (holders b g) \<and> gated g' b"
proof (induction cs arbitrary: g n)
  case (Cons x cs)
  obtain c r now w where x: "x = (c, r, now, w)" by (cases x) auto
  obtain ok g1 where t: "try_claim c r now w g = (ok, g1)" by (metis surj_pair)
  obtain m where m: "burst b cs g1 = (m, g')" and n: "n = m + of_bool (ok \<and> c = b)"
    using Cons.prems(2) x t by (auto split: prod.splits)
  have "gated g1 b" using Cons.prems(1) claim_keeps_gates [of c r now w g b] t by simp
  from Cons.IH [OF this m] claim_card [OF Cons.prems(1) t] n show ?case by simp
qed simp

end

lemma gated_claim_iff: "gate_held g b \<Longrightarrow> fst (claim b r now w g) \<longleftrightarrow> r \<in> pass_holders b g"
  by (auto simp: claim_def gate_held_def pass_holders_def Let_def split: option.splits)

lemma claim_gate_held: "gate_held (snd (claim b r now w g)) b' \<longleftrightarrow> gate_held g b'"
  by (auto simp: claim_def gate_held_def Let_def split: option.splits)

lemma claim_pass_holders:
  "gate_held g b \<Longrightarrow> r \<in> pass_holders b g \<Longrightarrow>
     pass_holders b (snd (claim b r now w g)) = pass_holders b g - {r}"
  by (auto simp: claim_def gate_held_def pass_holders_def Let_def split: option.splits)

lemma claim_pass_holders_other:
  "b' \<noteq> b \<Longrightarrow> pass_holders b' (snd (claim b r now w g)) = pass_holders b' g"
  by (auto simp: claim_def gate_held_def pass_holders_def Let_def split: option.splits)

interpretation pk: pass_keeper gate_held pass_holders claim
proof unfold_locales
  show "\<not> gate_held g b \<Longrightarrow> claim b r now w g = (True, g)" for g b r now w
    by (simp add: claim_def gate_held_def)
  show "gate_held g b \<Longrightarrow> r \<notin> pass_holders b g \<Longrightarrow> claim b r now w g = (False, g)" for g b r now w
    by (auto simp: claim_def gate_held_def pass_holders_def split: option.splits)
qed (auto simp: gated_claim_iff claim_gate_held claim_pass_holders claim_pass_holders_other)

subsection \<open>Runs of the gates\<close>

text \<open>
  The calls the scheduler and the claim check make, in any order. \<open>Probe\<close> is one turn of the half-open
  loop of \<open>poll\<close>: \<open>beginProbe\<close>, then the manager's answer, then the undo when it did not start the
  sync; \<open>mid\<close> are claims of other goroutines that slip in between, since only the gates' own mutex
  protects them.
\<close>

type_synonym claim_args = "binding \<times> repo_id \<times> gtime \<times> duration"

datatype gate_event =
    Arm binding gtime duration
  | Success binding gtime
  | Probe binding repo_id gtime duration "claim_args list" bool
  | Admit binding repo_id gtime
  | Claim binding repo_id gtime duration
  | DropPass repo_id
  | Retain "binding set" "repo_id set"

text \<open>One event: how many gated claims on \<open>b\<close> succeeded in it, and the new state.\<close>

fun gate_step :: "binding \<Rightarrow> provider_gates \<Rightarrow> gate_event \<Rightarrow> nat \<times> provider_gates" where
  "gate_step b g (Arm c now tier) = (0, snd (arm c now tier g))"
| "gate_step b g (Success c t0) = (0, snd (succeeded c t0 g))"
| "gate_step b g (Probe c r now w mid ok) =
     (case begin_probe c r now w g of
        (u, g1) \<Rightarrow>
          (case pk.burst b mid g1 of
             (n, g2) \<Rightarrow> (n, if ok then g2 else apply_undo u g2)))"
| "gate_step b g (Admit c r now) = (0, snd (admit_manual c r now g))"
| "gate_step b g (Claim c r now w) = pk.burst b [(c, r, now, w)] g"
| "gate_step b g (DropPass r) = (0, drop_pass r g)"
| "gate_step b g (Retain bs rs) = (0, retain bs rs g)"

text \<open>The passes an event grants for \<open>b\<close>: a turn on a half-open gate, or an admitted manual request.\<close>

fun grants :: "binding \<Rightarrow> gate_event \<Rightarrow> nat" where
  "grants b (Probe c r now w mid ok) = of_bool (c = b)"
| "grants b (Admit c r now) = of_bool (c = b)"
| "grants b e = 0"

fun gate_run :: "binding \<Rightarrow> provider_gates \<Rightarrow> gate_event list \<Rightarrow> nat \<times> provider_gates" where
  "gate_run b g [] = (0, g)"
| "gate_run b g (e # es) =
     (case gate_step b g e of
        (n, g1) \<Rightarrow> (case gate_run b g1 es of (m, g2) \<Rightarrow> (n + m, g2)))"

text \<open>The gate of \<open>b\<close> stays throughout: no success clears it and no reconciliation drops it.\<close>

fun gated_run :: "binding \<Rightarrow> provider_gates \<Rightarrow> gate_event list \<Rightarrow> bool" where
  "gated_run b g [] = gate_held g b"
| "gated_run b g (e # es) = (gate_held g b \<and> gated_run b (snd (gate_step b g e)) es)"

lemma gated_run_held: "gated_run b g es \<Longrightarrow> gate_held g b"
  by (cases es) auto

lemma restore_until_pass_holders [simp]: "pass_holders b (restore_until c h p g) = pass_holders b g"
  by (auto simp: restore_until_def split: option.splits)

lemma card_undo:
  "card (pass_holders b (apply_undo (Undo c r h p pass) g))
     \<le> card (pass_holders b g) + (if pass = Some b then 1 else 0)"
proof (cases pass)
  case None
  then show ?thesis
    using card_pass_holders_drop [where b = b and g = "restore_until c h p g" and r = r]
    by (simp add: Let_def)
next
  case (Some pb)
  then show ?thesis
    using card_pass_holders_upd [where b = b and g = "restore_until c h p g" and r = r and b' = pb]
    by (auto simp: Let_def)
qed

lemma card_begin:
  assumes "begin_probe c r now w g = (u, g1)" and "gate_held g c"
  shows "\<exists>h p. u = Undo c r h p (fmlookup (passes g) r)"
    and "card (pass_holders b g1) + (if fmlookup (passes g) r = Some b then 1 else 0)
      \<le> card (pass_holders b g) + of_bool (c = b)"
proof -
  obtain gt where gt: "fmlookup (gates g) c = Some gt" using assms(2) by (auto simp: gate_held_def)
  show "\<exists>h p. u = Undo c r h p (fmlookup (passes g) r)"
    using assms(1) gt by (auto simp: begin_probe_def)
  let ?g = "g\<lparr>passes := fmupd r c (passes g)\<rparr>"
  have "pass_holders b g1 = pass_holders b ?g"
    using assms(1) gt by (auto simp: begin_probe_def pass_holders_def)
  moreover have "pass_holders b ?g = (if c = b then insert r (pass_holders b g) else pass_holders b g - {r})"
    by (auto simp: pass_holders_def)
  moreover have "r \<in> pass_holders b g \<longleftrightarrow> fmlookup (passes g) r = Some b"
    by (simp add: pass_holders_def)
  moreover have "r \<in> pass_holders b g \<Longrightarrow> 0 < card (pass_holders b g)"
    by (auto simp: card_gt_0_iff)
  ultimately show "card (pass_holders b g1) + (if fmlookup (passes g) r = Some b then 1 else 0)
      \<le> card (pass_holders b g) + of_bool (c = b)"
    by (auto simp: card_insert_if card_Diff_singleton_if)
qed

lemma pass_holders_mono:
  "(\<And>r. fmlookup (passes g') r = Some b \<Longrightarrow> fmlookup (passes g) r = Some b) \<Longrightarrow>
     card (pass_holders b g') \<le> card (pass_holders b g)"
  by (intro card_mono finite_pass_holders) (auto simp: pass_holders_def)

lemma gate_step_budget:
  assumes held: "gate_held g b" and step: "gate_step b g e = (n, g')"
  shows "n + card (pass_holders b g') \<le> card (pass_holders b g) + grants b e"
proof (cases e)
  case (Arm c now tier)
  with step show ?thesis by (auto simp: arm_def split: if_splits)
next
  case (Success c t0)
  have "card (pass_holders b (snd (succeeded c t0 g))) \<le> card (pass_holders b g)"
    by (rule pass_holders_mono)
       (auto simp: succeeded_def drop_passes_locked_def split: option.splits if_splits)
  with Success step show ?thesis by auto
next
  case (Probe c r now w mid ok)
  obtain u g1 where bp: "begin_probe c r now w g = (u, g1)" by (metis surj_pair)
  obtain m g2 where mid: "pk.burst b mid g1 = (m, g2)" by (metis surj_pair)
  have "gate_held g1 b"
    using bp held by (auto simp: begin_probe_def gate_held_def split: option.splits)
  from pk.burst_bound [OF this mid] have bb: "m + card (pass_holders b g2) \<le> card (pass_holders b g1)"
    by simp
  have n: "n = m" and g': "g' = (if ok then g2 else apply_undo u g2)"
    using step Probe bp mid by auto
  show ?thesis
  proof (cases "gate_held g c")
    case True
    from card_begin(1) [OF bp True] obtain h p where u: "u = Undo c r h p (fmlookup (passes g) r)" by auto
    show ?thesis
      using card_begin(2) [OF bp True, of b] bb n g' u
        card_undo [of b c r h p "fmlookup (passes g) r" g2] Probe
      by (auto split: if_splits)
  next
    case False
    then have "u = NoUndo" and "g1 = g" using bp by (auto simp: begin_probe_def gate_held_def)
    with bb n g' show ?thesis by simp
  qed
next
  case (Admit c r now)
  with step show ?thesis
    using card_pass_holders_upd
      [where b = b and g = "g\<lparr>manual := fmupd r now (manual g)\<rparr>" and r = r and b' = c]
    by (auto simp: admit_manual_def split: if_splits)
next
  case (Claim c r now w)
  with step have "pk.burst b [(c, r, now, w)] g = (n, g')" by simp
  from pk.burst_bound [OF held this] Claim show ?thesis by simp
next
  case (DropPass r)
  with step show ?thesis using card_pass_holders_drop [where b = b and g = g and r = r] by (auto simp: drop_pass_def)
next
  case (Retain bs rs)
  have "card (pass_holders b (retain bs rs g)) \<le> card (pass_holders b g)"
    by (rule pass_holders_mono) (auto simp: retain_def Let_def split: if_splits)
  with Retain step show ?thesis by auto
qed

text \<open>While a credential stays gated, the number of syncs that are allowed to claim it is at most the
passes outstanding at the start plus the passes granted meanwhile (one per probe, one per admitted
manual request): a refused credential never costs the origin more logins than that, whatever the
interleaving.\<close>

theorem login_budget:
  assumes "gated_run b g es"
  shows "fst (gate_run b g es) \<le> card (pass_holders b g) + sum_list (map (grants b) es)"
  using assms
proof (induction es arbitrary: g)
  case (Cons e es)
  obtain n g1 where st: "gate_step b g e = (n, g1)" by (metis surj_pair)
  obtain m g2 where rn: "gate_run b g1 es = (m, g2)" by (metis surj_pair)
  have "gate_held g b" and "gated_run b g1 es" using Cons.prems st by auto
  from gate_step_budget [OF this(1) st] Cons.IH [OF this(2)] rn st show ?case by simp
qed simp

definition example_binding :: binding where
  "example_binding = Binding ''forge'' 3"

definition example_gates :: provider_gates where
  "example_gates = snd (arm example_binding 100 hour new_provider_gates)"

lemma example_gates_eq:
  "example_gates = \<lparr>gates = fmupd example_binding \<lparr>armed_at = 100, until = 100 + hour\<rparr> fmempty,
     passes = fmempty, manual = fmempty\<rparr>"
  by (simp add: example_gates_def arm_def new_provider_gates_def example_binding_def)

text \<open>Five queued syncs and one admitted request for an immediate one: one login reaches the origin.\<close>

theorem login_budget_witness:
  "fst (gate_run example_binding example_gates
     [Claim example_binding ''a'' 200 hour, Admit example_binding ''b'' 300,
      Claim example_binding ''b'' 400 hour, Claim example_binding ''b'' 500 hour]) \<le> 1"
proof -
  have "gated_run example_binding example_gates
     [Claim example_binding ''a'' 200 hour, Admit example_binding ''b'' 300,
      Claim example_binding ''b'' 400 hour, Claim example_binding ''b'' 500 hour]"
    by (simp add: example_gates_eq claim_def admit_manual_def gate_held_def)
  from login_budget [OF this] show ?thesis
    by (simp add: example_gates_eq pass_holders_def)
qed

subsection \<open>Only fresh evidence opens a gate\<close>

text \<open>
  An event says nothing against a refusal recorded at \<open>t0\<close> when it is not the success of an attempt
  that began later, and does not drop the credential from use.
\<close>

fun keeps_refusal :: "binding \<Rightarrow> gtime \<Rightarrow> gate_event \<Rightarrow> bool" where
  "keeps_refusal b t0 (Success c started) = (c \<noteq> b \<or> started \<le> t0)"
| "keeps_refusal b t0 (Arm c now tier) = (c \<noteq> b \<or> t0 \<le> now)"
| "keeps_refusal b t0 (Retain bs rs) = (b \<in> bs)"
| "keeps_refusal b t0 e = True"

definition refused_since :: "provider_gates \<Rightarrow> binding \<Rightarrow> gtime \<Rightarrow> bool" where
  "refused_since g b t0 \<longleftrightarrow> (\<exists>gt. fmlookup (gates g) b = Some gt \<and> t0 \<le> armed_at gt)"

lemma refused_claim: "refused_since g b t0 \<Longrightarrow> refused_since (snd (claim c r now w g)) b t0"
  by (auto simp: claim_def refused_since_def Let_def split: option.splits)

lemma refused_burst:
  "refused_since g b t0 \<Longrightarrow> pk.burst c cs g = (n, g') \<Longrightarrow> refused_since g' b t0"
proof (induction cs arbitrary: g n)
  case (Cons x cs)
  obtain d r now w where x: "x = (d, r, now, w)" by (cases x) auto
  obtain ok g1 where t: "claim d r now w g = (ok, g1)" by (metis surj_pair)
  then have "refused_since g1 b t0" using refused_claim [OF Cons.prems(1), of d r now w] by simp
  with Cons.IH Cons.prems(2) x t show ?case by (auto split: prod.splits)
qed simp

lemma refused_undo: "refused_since g b t0 \<Longrightarrow> refused_since (apply_undo u g) b t0"
  by (cases u) (auto simp: refused_since_def restore_until_def Let_def split: option.splits)

lemma gate_step_refused:
  assumes "refused_since g b t0" and "keeps_refusal b t0 e"
  shows "refused_since (snd (gate_step c g e)) b t0"
proof (cases e)
  case (Probe d r now w mid ok)
  obtain u g1 where bp: "begin_probe d r now w g = (u, g1)" by (metis surj_pair)
  obtain m g2 where mid: "pk.burst c mid g1 = (m, g2)" by (metis surj_pair)
  have "refused_since g1 b t0"
    using bp assms(1) by (auto simp: begin_probe_def refused_since_def split: option.splits)
  from refused_burst [OF this mid] Probe bp mid show ?thesis by (auto intro: refused_undo)
next
  case (Claim d r now w)
  obtain n g1 where "pk.burst c [(d, r, now, w)] g = (n, g1)" by (metis surj_pair)
  with refused_burst [OF assms(1) this] Claim show ?thesis by simp
qed (use assms in \<open>auto simp: arm_def succeeded_def drop_passes_locked_def admit_manual_def drop_pass_def
    retain_def refused_since_def Let_def split: option.splits if_splits\<close>)

text \<open>A refused credential stays gated through any run of operations in which no sync that started after
the refusal succeeds: a success of a sync already running when the refusal came does not open the
gate.\<close>

theorem refusal_outlasts_stale_success:
  assumes "refused_since g b t0" and "list_all (keeps_refusal b t0) es"
  shows "gate_held (snd (gate_run c g es)) b"
  using assms
proof (induction es arbitrary: g)
  case Nil
  then show ?case by (auto simp: refused_since_def gate_held_def)
next
  case (Cons e es)
  have "refused_since (snd (gate_step c g e)) b t0"
    using gate_step_refused [OF Cons.prems(1)] Cons.prems(2) by simp
  from Cons.IH [OF this] Cons.prems(2) show ?case by (auto split: prod.splits)
qed

theorem refusal_outlasts_stale_success_witness:
  "gate_held (snd (gate_run example_binding example_gates
     [Success example_binding 90, Probe example_binding ''a'' 5000 hour [] True,
      Success example_binding 100])) example_binding"
  by (rule refusal_outlasts_stale_success [where ?t0.0 = 100])
     (simp_all add: example_gates_eq refused_since_def)

subsection \<open>Taking a probe back\<close>

lemma begin_probe_undone:
  assumes "begin_probe b repo now window g = (u, g1)"
  shows "apply_undo u g1 = g"
proof (cases "fmlookup (gates g) b")
  case None
  then show ?thesis using assms by (auto simp: begin_probe_def)
next
  case (Some gt)
  have same: "fmupd b gt (gates g) = gates g" using Some by (intro fmap_ext) auto
  show ?thesis
  proof (cases "fmlookup (passes g) repo")
    case None
    have "fmdrop repo (fmupd repo b (passes g)) = passes g"
      using None by (intro fmap_ext) auto
    with assms Some None same show ?thesis by (auto simp: begin_probe_def restore_until_def)
  next
    case p: (Some pb)
    have "fmupd repo pb (fmupd repo b (passes g)) = passes g"
      using p by (intro fmap_ext) auto
    with assms Some p same show ?thesis by (auto simp: begin_probe_def restore_until_def)
  qed
qed

text \<open>The undo that beginProbe returns restores the gates to what they were before the probe began: a
probe whose sync could not be enqueued costs the credential nothing.\<close>

theorem undo_begin_probe:
  assumes "begin_probe b repo now window g = (u, g1)"
  shows "apply_undo u g1 = g"
  using assms by (rule begin_probe_undone)

theorem undo_begin_probe_witness:
  "apply_undo (fst (begin_probe example_binding ''a'' 5000 hour example_gates))
     (snd (begin_probe example_binding ''a'' 5000 hour example_gates)) = example_gates"
  by (rule undo_begin_probe) simp

subsection \<open>The rate limit of immediate-sync requests\<close>

text \<open>The times at which requests for \<open>repo\<close> were granted a pass, in a run.\<close>

fun manual_times :: "repo_id \<Rightarrow> provider_gates \<Rightarrow> gate_event list \<Rightarrow> gtime list" where
  "manual_times repo g [] = []"
| "manual_times repo g (e # es) =
     (case e of
        Admit c r now \<Rightarrow>
          (if r = repo \<and> gate_held g c \<and> fst (admit_manual c r now g) then [now] else [])
      | _ \<Rightarrow> []) @ manual_times repo (snd (gate_step unbound g e)) es"

definition keeps_repo :: "repo_id \<Rightarrow> gate_event \<Rightarrow> bool" where
  "keeps_repo repo e = (case e of Retain bs rs \<Rightarrow> repo \<in> rs | _ \<Rightarrow> True)"

lemma manual_claim [simp]: "manual (snd (claim c r now w g)) = manual g"
  by (auto simp: claim_def Let_def split: option.splits)

lemma manual_burst [simp]: "manual (snd (pk.burst c cs g)) = manual g"
proof (induction cs arbitrary: g)
  case (Cons x cs)
  obtain d r now w where x: "x = (d, r, now, w)" by (cases x) auto
  obtain ok g1 where t: "claim d r now w g = (ok, g1)" by (metis surj_pair)
  then have "manual g1 = manual g" by (metis manual_claim snd_conv)
  with Cons.IH [of g1] x t show ?case by (auto split: prod.splits)
qed simp

lemma manual_undo [simp]: "manual (apply_undo u g) = manual g"
  by (cases u) (auto simp: restore_until_def Let_def split: option.splits)

lemma manual_begin [simp]: "manual (snd (begin_probe c r now w g)) = manual g"
  by (auto simp: begin_probe_def split: option.splits)

lemma gate_step_manual:
  assumes "keeps_repo repo e"
  shows "fmlookup (manual (snd (gate_step c g e))) repo =
    (case e of
       Admit d r now \<Rightarrow>
         (if r = repo \<and> gate_held g d \<and> fst (admit_manual d r now g) then Some now
          else fmlookup (manual g) repo)
     | _ \<Rightarrow> fmlookup (manual g) repo)"
proof (cases e)
  case (Probe d r now w mid ok)
  obtain u g1 where bp: "begin_probe d r now w g = (u, g1)" by (metis surj_pair)
  obtain m g2 where mid: "pk.burst c mid g1 = (m, g2)" by (metis surj_pair)
  have "manual g2 = manual g"
    using manual_begin [of d r now w g] manual_burst [of c mid g1] bp mid by simp
  then show ?thesis using Probe bp mid by simp
next
  case (Claim d r now w)
  then show ?thesis using manual_burst [of c "[(d, r, now, w)]" g] by simp
qed (use assms in \<open>auto simp: arm_def succeeded_def drop_passes_locked_def admit_manual_def drop_pass_def
    retain_def keeps_repo_def Let_def split: option.splits if_splits\<close>)

lemma manual_times_after:
  "list_all (keeps_repo repo) es \<Longrightarrow> fmlookup (manual g) repo = Some t \<Longrightarrow>
   successively (\<lambda>t u. manual_pass_gap \<le> u - t) (t # manual_times repo g es)"
proof (induction es arbitrary: g t)
  case (Cons e es)
  let ?g = "snd (gate_step unbound g e)"
  have ke: "keeps_repo repo e" and kes: "list_all (keeps_repo repo) es" using Cons.prems(1) by auto
  show ?case
  proof (cases "\<exists>d now. e = Admit d repo now \<and> gate_held g d \<and> fst (admit_manual d repo now g)")
    case True
    then obtain d now where e: "e = Admit d repo now" "gate_held g d" "fst (admit_manual d repo now g)"
      by auto
    have "fmlookup (manual ?g) repo = Some now" using gate_step_manual [OF ke, of unbound g] e by simp
    from Cons.IH [OF kes this] have "successively (\<lambda>t u. manual_pass_gap \<le> u - t)
        (now # manual_times repo ?g es)" .
    moreover have "\<not> time_sub now t < manual_pass_gap"
      using e Cons.prems(2) by (auto simp: admit_manual_def split: if_splits)
    then have "manual_pass_gap \<le> now - t"
      by (simp add: time_sub_less_iff manual_pass_gap_def max_duration_def)
    ultimately show ?thesis using e by simp
  next
    case False
    then have "fmlookup (manual ?g) repo = Some t"
      using gate_step_manual [OF ke, of unbound g] Cons.prems(2)
      by (cases e) auto
    from Cons.IH [OF kes this] False show ?thesis by (cases e) auto
  qed
qed simp

text \<open>Through any run of operations that keeps a repository configured, two admitted manual requests for
it that got past a gate are at least manualPassGap apart.\<close>

theorem manual_rate_limit:
  assumes "list_all (keeps_repo repo) es"
  shows "successively (\<lambda>t u. manual_pass_gap \<le> u - t) (manual_times repo g es)"
  using assms
proof (induction es arbitrary: g)
  case (Cons e es)
  let ?g = "snd (gate_step unbound g e)"
  have ke: "keeps_repo repo e" and kes: "list_all (keeps_repo repo) es" using Cons.prems by auto
  show ?case
  proof (cases "\<exists>d now. e = Admit d repo now \<and> gate_held g d \<and> fst (admit_manual d repo now g)")
    case True
    then obtain d now where e: "e = Admit d repo now" "gate_held g d" "fst (admit_manual d repo now g)"
      by auto
    have "fmlookup (manual ?g) repo = Some now" using gate_step_manual [OF ke, of unbound g] e by simp
    from manual_times_after [OF kes this] e show ?thesis by simp
  next
    case False
    with Cons.IH [OF kes, of ?g] show ?thesis by (cases e) auto
  qed
qed simp

theorem manual_rate_limit_witness:
  "successively (\<lambda>t u. manual_pass_gap \<le> u - t) (manual_times ''a'' example_gates
     [Admit example_binding ''a'' 300, Admit example_binding ''a'' 400,
      Retain {example_binding} {''a''}, Admit example_binding ''a'' (300 + minute)])"
  by (rule manual_rate_limit) (simp add: keeps_repo_def)

end
