(* ===== verification/SyncLimits.thy ===== *)
theory SyncLimits
  imports Prelude
begin

text \<open>
  The schedule and resource limits of \<open>internal/gitsync/limits.go\<close>: the built-in defaults, the
  accepted range of every platform-supplied value, and \<open>ResolveLimits\<close>, which either applies a whole
  configuration or rejects it. The loop over the table of fields is \<open>apply_fields\<close>, a recursion over
  the same table in the same order, so that the first offending field is the one reported.
\<close>

subsection \<open>Data\<close>

record limits =
  interval :: duration
  push_timeout :: duration
  max_concurrency :: int
  push_batch_refs :: int
  pack_threads :: int
  pack_window_memory_mb :: int
  max_repository_mb :: int

text \<open>The wire messages: a pointer field is an option.\<close>

record wire_schedule =
  w_interval_seconds :: "int option"

record wire_limits =
  w_max_concurrency :: "int option"
  w_push_batch_refs :: "int option"
  w_pack_threads :: "int option"
  w_pack_window_memory_mb :: "int option"
  w_max_repository_mb :: "int option"
  w_push_timeout_seconds :: "int option"

record bound =
  b_field :: string
  b_min :: int
  b_max :: int
  b_zero_ok :: bool

text \<open>\<open>LimitsError\<close>: its reason is always the same, so only the offending field is carried.\<close>

datatype limits_error = LimitsError (offending_field: string)

definition default_sync_interval :: duration where
  "default_sync_interval = 15 * minute"

definition default_push_timeout :: duration where
  "default_push_timeout = 30 * minute"

definition default_sync_concurrency :: int where
  "default_sync_concurrency = 4"

definition default_limits :: limits where
  "default_limits =
     \<lparr>interval = default_sync_interval, push_timeout = default_push_timeout,
      max_concurrency = default_sync_concurrency, push_batch_refs = 0, pack_threads = 0,
      pack_window_memory_mb = 0, max_repository_mb = 0\<rparr>"

subsection \<open>The accepted ranges\<close>

definition check :: "bound \<Rightarrow> int \<Rightarrow> limits_error option" where
  "check b v =
     (if (b_zero_ok b \<and> v = 0) \<or> (b_min b \<le> v \<and> v \<le> b_max b) then None
      else Some (LimitsError (b_field b)))"

definition bound_interval :: bound where
  "bound_interval = \<lparr>b_field = ''interval_seconds'', b_min = 60, b_max = 86400, b_zero_ok = False\<rparr>"

definition bound_max_concurrency :: bound where
  "bound_max_concurrency =
     \<lparr>b_field = ''max_concurrency'', b_min = 1, b_max = 32, b_zero_ok = False\<rparr>"

definition bound_push_batch_refs :: bound where
  "bound_push_batch_refs =
     \<lparr>b_field = ''push_batch_refs'', b_min = 100, b_max = 100000, b_zero_ok = True\<rparr>"

definition bound_pack_threads :: bound where
  "bound_pack_threads = \<lparr>b_field = ''pack_threads'', b_min = 0, b_max = 64, b_zero_ok = False\<rparr>"

definition bound_pack_window_mb :: bound where
  "bound_pack_window_mb =
     \<lparr>b_field = ''pack_window_memory_mb'', b_min = 16, b_max = 65536, b_zero_ok = True\<rparr>"

definition bound_max_repo_mb :: bound where
  "bound_max_repo_mb =
     \<lparr>b_field = ''max_repository_mb'', b_min = 1, b_max = 10485760, b_zero_ok = True\<rparr>"

definition bound_push_timeout :: bound where
  "bound_push_timeout =
     \<lparr>b_field = ''push_timeout_seconds'', b_min = 60, b_max = 86400, b_zero_ok = False\<rparr>"

lemmas bound_defs = bound_interval_def bound_max_concurrency_def bound_push_batch_refs_def
  bound_pack_threads_def bound_pack_window_mb_def bound_max_repo_mb_def bound_push_timeout_def

subsection \<open>ResolveLimits\<close>

text \<open>One row of the table the code ranges over: the bound, the wire value and the setter.\<close>

type_synonym limit_row = "bound \<times> int option \<times> (int \<Rightarrow> limits \<Rightarrow> limits)"

definition limit_rows :: "wire_limits \<Rightarrow> limit_row list" where
  "limit_rows l =
     [(bound_max_concurrency, w_max_concurrency l, \<lambda>v out. out\<lparr>max_concurrency := v\<rparr>),
      (bound_push_batch_refs, w_push_batch_refs l, \<lambda>v out. out\<lparr>push_batch_refs := v\<rparr>),
      (bound_pack_threads, w_pack_threads l, \<lambda>v out. out\<lparr>pack_threads := v\<rparr>),
      (bound_pack_window_mb, w_pack_window_memory_mb l,
         \<lambda>v out. out\<lparr>pack_window_memory_mb := v\<rparr>),
      (bound_max_repo_mb, w_max_repository_mb l, \<lambda>v out. out\<lparr>max_repository_mb := v\<rparr>),
      (bound_push_timeout, w_push_timeout_seconds l,
         \<lambda>v out. out\<lparr>push_timeout := v * second\<rparr>)]"

fun apply_fields :: "limit_row list \<Rightarrow> limits \<Rightarrow> limits_error + limits" where
  "apply_fields [] out = Inr out"
| "apply_fields ((b, i, put) # rows) out =
     (case i of
        None \<Rightarrow> apply_fields rows out
      | Some v \<Rightarrow>
          (case check b v of
             Some e \<Rightarrow> Inl e
           | None \<Rightarrow> apply_fields rows (put v out)))"

definition resolve_schedule :: "wire_schedule option \<Rightarrow> limits_error + limits" where
  "resolve_schedule s =
     (case s of
        None \<Rightarrow> Inr default_limits
      | Some sc \<Rightarrow>
          (case w_interval_seconds sc of
             None \<Rightarrow> Inr default_limits
           | Some v \<Rightarrow>
               (case check bound_interval v of
                  Some e \<Rightarrow> Inl e
                | None \<Rightarrow> Inr (default_limits\<lparr>interval := v * second\<rparr>))))"

definition resolve_limits ::
  "wire_schedule option \<Rightarrow> wire_limits option \<Rightarrow> limits_error + limits" where
  "resolve_limits s l =
     (case resolve_schedule s of
        Inl e \<Rightarrow> Inl e
      | Inr out \<Rightarrow> (case l of None \<Rightarrow> Inr out | Some wl \<Rightarrow> apply_fields (limit_rows wl) out))"

definition eff_push_timeout :: "limits \<Rightarrow> duration" where
  "eff_push_timeout l = (if push_timeout l > 0 then push_timeout l else default_push_timeout)"

subsection \<open>Facts\<close>

text \<open>A wire value is acceptable when it is absent or inside its bound.\<close>

definition in_bound :: "bound \<Rightarrow> int option \<Rightarrow> bool" where
  "in_bound b i = (case i of None \<Rightarrow> True | Some v \<Rightarrow> check b v = None)"

definition row_ok :: "limit_row \<Rightarrow> bool" where
  "row_ok r = in_bound (fst r) (fst (snd r))"

definition supplied :: "wire_schedule option \<Rightarrow> int option" where
  "supplied s = Option.bind s w_interval_seconds"

text \<open>The value a field ends up with.\<close>

definition chosen :: "int option \<Rightarrow> int \<Rightarrow> int" where
  "chosen i d = (case i of None \<Rightarrow> d | Some v \<Rightarrow> v)"

definition secs :: "int option \<Rightarrow> duration \<Rightarrow> duration" where
  "secs i d = (case i of None \<Rightarrow> d | Some v \<Rightarrow> v * second)"

lemma apply_fields_fold:
  "apply_fields rows out = Inr r \<Longrightarrow>
   r = fold (\<lambda>(b, i, put) o1. case i of None \<Rightarrow> o1 | Some v \<Rightarrow> put v o1) rows out"
  by (induction rows out rule: apply_fields.induct) (auto split: option.splits)

text \<open>An optional assignment is an assignment of the chosen value.\<close>

lemma optional_assignments:
  "(case i of None \<Rightarrow> o1 | Some v \<Rightarrow> o1\<lparr>max_concurrency := v\<rparr>)
     = (o1::limits)\<lparr>max_concurrency := chosen i (max_concurrency o1)\<rparr>"
  "(case i of None \<Rightarrow> o1 | Some v \<Rightarrow> o1\<lparr>push_batch_refs := v\<rparr>)
     = o1\<lparr>push_batch_refs := chosen i (push_batch_refs o1)\<rparr>"
  "(case i of None \<Rightarrow> o1 | Some v \<Rightarrow> o1\<lparr>pack_threads := v\<rparr>)
     = o1\<lparr>pack_threads := chosen i (pack_threads o1)\<rparr>"
  "(case i of None \<Rightarrow> o1 | Some v \<Rightarrow> o1\<lparr>pack_window_memory_mb := v\<rparr>)
     = o1\<lparr>pack_window_memory_mb := chosen i (pack_window_memory_mb o1)\<rparr>"
  "(case i of None \<Rightarrow> o1 | Some v \<Rightarrow> o1\<lparr>max_repository_mb := v\<rparr>)
     = o1\<lparr>max_repository_mb := chosen i (max_repository_mb o1)\<rparr>"
  "(case i of None \<Rightarrow> o1 | Some v \<Rightarrow> o1\<lparr>push_timeout := v * second\<rparr>)
     = o1\<lparr>push_timeout := secs i (push_timeout o1)\<rparr>"
  by (cases i; simp add: chosen_def secs_def)+

lemma apply_limit_rows:
  assumes "apply_fields (limit_rows wl) out = Inr r"
  shows "r = \<lparr>interval = interval out,
     push_timeout = secs (w_push_timeout_seconds wl) (push_timeout out),
     max_concurrency = chosen (w_max_concurrency wl) (max_concurrency out),
     push_batch_refs = chosen (w_push_batch_refs wl) (push_batch_refs out),
     pack_threads = chosen (w_pack_threads wl) (pack_threads out),
     pack_window_memory_mb = chosen (w_pack_window_memory_mb wl) (pack_window_memory_mb out),
     max_repository_mb = chosen (w_max_repository_mb wl) (max_repository_mb out)\<rparr>"
  using apply_fields_fold [OF assms] by (simp add: limit_rows_def optional_assignments)

text \<open>
  The reference reading of \<open>ResolveLimits\<close>: every supplied value in the code's order, and the limits
  made of the supplied values and the defaults.
\<close>

definition wire_field :: "wire_limits option \<Rightarrow> (wire_limits \<Rightarrow> int option) \<Rightarrow> int option" where
  "wire_field l f = Option.bind l f"

definition requested ::
  "wire_schedule option \<Rightarrow> wire_limits option \<Rightarrow> (bound \<times> int option) list" where
  "requested s l =
     [(bound_interval, supplied s),
      (bound_max_concurrency, wire_field l w_max_concurrency),
      (bound_push_batch_refs, wire_field l w_push_batch_refs),
      (bound_pack_threads, wire_field l w_pack_threads),
      (bound_pack_window_mb, wire_field l w_pack_window_memory_mb),
      (bound_max_repo_mb, wire_field l w_max_repository_mb),
      (bound_push_timeout, wire_field l w_push_timeout_seconds)]"

definition offending ::
  "wire_schedule option \<Rightarrow> wire_limits option \<Rightarrow> (bound \<times> int option) list" where
  "offending s l = filter (\<lambda>(b, i). \<not> in_bound b i) (requested s l)"

definition limits_spec :: "wire_schedule option \<Rightarrow> wire_limits option \<Rightarrow> limits" where
  "limits_spec s l =
     \<lparr>interval = secs (supplied s) default_sync_interval,
      push_timeout = secs (wire_field l w_push_timeout_seconds) default_push_timeout,
      max_concurrency = chosen (wire_field l w_max_concurrency) default_sync_concurrency,
      push_batch_refs = chosen (wire_field l w_push_batch_refs) 0,
      pack_threads = chosen (wire_field l w_pack_threads) 0,
      pack_window_memory_mb = chosen (wire_field l w_pack_window_memory_mb) 0,
      max_repository_mb = chosen (wire_field l w_max_repository_mb) 0\<rparr>"

lemma check_Some: "check b v = Some e \<Longrightarrow> e = LimitsError (b_field b)"
  by (auto simp: check_def split: if_splits)

lemma apply_fields_eq:
  "apply_fields rows out =
     (case filter (\<lambda>r. \<not> row_ok r) rows of
        [] \<Rightarrow> apply_fields rows out
      | r # _ \<Rightarrow> Inl (LimitsError (b_field (fst r))))"
  by (induction rows out rule: apply_fields.induct)
     (auto simp: row_ok_def in_bound_def split: option.splits list.splits dest: check_Some)

lemma resolve_schedule_eq:
  "resolve_schedule s =
     (if in_bound bound_interval (supplied s)
      then Inr (default_limits\<lparr>interval := secs (supplied s) default_sync_interval\<rparr>)
      else Inl (LimitsError (b_field bound_interval)))"
  by (auto simp: resolve_schedule_def in_bound_def supplied_def secs_def default_limits_def
      split: option.splits dest: check_Some)

lemma requested_Some:
  "requested s (Some wl) =
     (bound_interval, supplied s) # map (\<lambda>r. (fst r, fst (snd r))) (limit_rows wl)"
  by (simp add: requested_def limit_rows_def wire_field_def)

lemma apply_fields_ok:
  assumes "list_all row_ok rows"
  obtains r where "apply_fields rows out = Inr r"
  using assms
  by (induction rows out rule: apply_fields.induct)
     (auto simp: row_ok_def in_bound_def split: option.splits)

lemma offending_Some:
  "in_bound bound_interval (supplied s) \<Longrightarrow>
   offending s (Some wl) = map (\<lambda>r. (fst r, fst (snd r))) (filter (\<lambda>r. \<not> row_ok r) (limit_rows wl))"
  by (simp add: offending_def requested_Some filter_map row_ok_def comp_def)

lemma offending_None:
  "offending s None = (if in_bound bound_interval (supplied s) then [] else [(bound_interval, supplied s)])"
  by (simp add: offending_def requested_def wire_field_def in_bound_def [of _ None])

lemma resolve_limits_accepts:
  assumes "in_bound bound_interval (supplied s)" and "list_all row_ok (limit_rows wl)"
  shows "resolve_limits s (Some wl) = Inr (limits_spec s (Some wl))"
proof -
  obtain r where r: "apply_fields (limit_rows wl)
      (default_limits\<lparr>interval := secs (supplied s) default_sync_interval\<rparr>) = Inr r"
    using assms(2) by (rule apply_fields_ok)
  from apply_limit_rows [OF r] r assms(1) show ?thesis
    by (simp add: resolve_limits_def resolve_schedule_eq limits_spec_def wire_field_def default_limits_def)
qed

lemma resolve_limits_char:
  "resolve_limits s l =
     (case offending s l of
        [] \<Rightarrow> Inr (limits_spec s l)
      | (b, _) # _ \<Rightarrow> Inl (LimitsError (b_field b)))"
proof (cases "in_bound bound_interval (supplied s)")
  case False
  then show ?thesis
    by (cases l) (simp_all add: resolve_limits_def resolve_schedule_eq offending_def requested_def)
next
  case inb: True
  show ?thesis
  proof (cases l)
    case None
    with inb show ?thesis
      by (simp add: resolve_limits_def resolve_schedule_eq offending_None limits_spec_def
          wire_field_def chosen_def secs_def default_limits_def)
  next
    case (Some wl)
    show ?thesis
    proof (cases "list_all row_ok (limit_rows wl)")
      case True
      then have "filter (\<lambda>r. \<not> row_ok r) (limit_rows wl) = []"
        by (simp add: filter_empty_conv list_all_iff)
      with Some inb True show ?thesis
        by (simp add: resolve_limits_accepts offending_Some)
    next
      case False
      then obtain r rs where "filter (\<lambda>r. \<not> row_ok r) (limit_rows wl) = r # rs"
        by (metis filter_empty_conv list_all_iff neq_Nil_conv)
      with Some inb show ?thesis
        by (simp add: resolve_limits_def resolve_schedule_eq offending_Some
            apply_fields_eq [of "limit_rows wl"])
    qed
  qed
qed

text \<open>ResolveLimits is exactly its specification: with no supplied value out of range it returns the
default limits overridden by the supplied fields, and otherwise the error naming the first offending
field in the fixed order, applying nothing.\<close>

theorem resolve_limits_spec:
  "resolve_limits s l =
     (case offending s l of
        [] \<Rightarrow> Inr (limits_spec s l)
      | (b, _) # _ \<Rightarrow> Inl (LimitsError (b_field b)))"
  by (rule resolve_limits_char)

text \<open>What every accepted configuration guarantees to the code that reads the limits.\<close>

definition limits_wf :: "limits \<Rightarrow> bool" where
  "limits_wf r \<longleftrightarrow>
     60 * second \<le> interval r \<and> interval r \<le> 86400 * second \<and>
     60 * second \<le> push_timeout r \<and> push_timeout r \<le> 86400 * second \<and>
     1 \<le> max_concurrency r \<and> max_concurrency r \<le> 32 \<and>
     (push_batch_refs r = 0 \<or> 100 \<le> push_batch_refs r \<and> push_batch_refs r \<le> 100000) \<and>
     0 \<le> pack_threads r \<and> pack_threads r \<le> 64 \<and>
     (pack_window_memory_mb r = 0 \<or> 16 \<le> pack_window_memory_mb r \<and> pack_window_memory_mb r \<le> 65536) \<and>
     (max_repository_mb r = 0 \<or> 1 \<le> max_repository_mb r \<and> max_repository_mb r \<le> 10485760)"

lemma default_limits_wf: "limits_wf default_limits"
  by (simp add: limits_wf_def default_limits_def default_sync_interval_def default_push_timeout_def
      default_sync_concurrency_def)

lemma secs_range:
  "in_bound b i \<Longrightarrow> \<not> b_zero_ok b \<Longrightarrow> b_min b * second \<le> d \<Longrightarrow> d \<le> b_max b * second \<Longrightarrow>
     b_min b * second \<le> secs i d \<and> secs i d \<le> b_max b * second"
  by (cases i) (auto simp: in_bound_def check_def secs_def split: if_splits)

lemma chosen_range:
  "in_bound b i \<Longrightarrow> \<not> b_zero_ok b \<Longrightarrow> b_min b \<le> d \<Longrightarrow> d \<le> b_max b \<Longrightarrow>
     b_min b \<le> chosen i d \<and> chosen i d \<le> b_max b"
  by (cases i) (auto simp: in_bound_def check_def chosen_def split: if_splits)

lemma chosen_zero_range:
  "in_bound b i \<Longrightarrow> b_zero_ok b \<Longrightarrow>
     chosen i 0 = 0 \<or> (b_min b \<le> chosen i 0 \<and> chosen i 0 \<le> b_max b)"
  by (cases i) (auto simp: in_bound_def check_def chosen_def split: if_splits)

lemma offending_Nil: "offending s l = [] \<Longrightarrow> \<forall>(b, i) \<in> set (requested s l). in_bound b i"
  by (auto simp: offending_def filter_empty_conv)

lemma resolve_limits_in_range:
  assumes "resolve_limits s l = Inr r"
  shows "limits_wf r"
proof -
  have off: "offending s l = []" and r: "r = limits_spec s l"
    using assms by (auto simp: resolve_limits_char split: list.splits)
  note ib = offending_Nil [OF off, unfolded requested_def]
  have iv: "in_bound bound_interval (supplied s)"
    and pt: "in_bound bound_push_timeout (wire_field l w_push_timeout_seconds)"
    and mc: "in_bound bound_max_concurrency (wire_field l w_max_concurrency)"
    and pb: "in_bound bound_push_batch_refs (wire_field l w_push_batch_refs)"
    and th: "in_bound bound_pack_threads (wire_field l w_pack_threads)"
    and pw: "in_bound bound_pack_window_mb (wire_field l w_pack_window_memory_mb)"
    and mr: "in_bound bound_max_repo_mb (wire_field l w_max_repository_mb)"
    using ib by simp_all
  note ranges = secs_range [OF iv, of default_sync_interval] secs_range [OF pt, of default_push_timeout]
    chosen_range [OF mc, of default_sync_concurrency] chosen_zero_range [OF pb]
    chosen_range [OF th, of 0] chosen_zero_range [OF pw] chosen_zero_range [OF mr]
  note ranges = ranges [unfolded bound_defs default_sync_interval_def default_push_timeout_def
    default_sync_concurrency_def, simplified]
  show ?thesis
    unfolding r limits_wf_def limits_spec_def default_sync_interval_def default_push_timeout_def
      default_sync_concurrency_def
    using ranges by simp
qed

text \<open>Limits that ResolveLimits accepts are well formed: every field lies in the range the bounds table
gives it or keeps its (well-formed) default, so the interval is at least a minute and the
concurrency at least one.\<close>

theorem resolve_limits_wf:
  assumes "resolve_limits s l = Inr r"
  shows "limits_wf r"
  using assms by (rule resolve_limits_in_range)

theorem resolve_limits_wf_witness:
  "limits_wf (default_limits\<lparr>interval := 90 * second\<rparr>)"
proof (rule resolve_limits_wf)
  show "resolve_limits (Some \<lparr>w_interval_seconds = Some 90\<rparr>) None
      = Inr (default_limits\<lparr>interval := 90 * second\<rparr>)"
    by (simp add: resolve_limits_def resolve_schedule_def check_def bound_interval_def)
qed

end
