(* ===== verification/Scheduler.thy ===== *)
theory Scheduler
  imports ProviderGates SyncLimits "HOL-Library.Word"
begin

text \<open>
  The periodic scheduler of \<open>internal/gitsync/scheduler.go\<close>. Its state is the record \<open>scheduler\<close>; the
  hooks that connect it to the client are the record \<open>sched_hooks\<close>, functions over a state \<open>'w\<close> of the
  rest of the connector, which theory Client instantiates. Every method runs under the scheduler's
  mutex and is one function. \<open>poll\<close> also returns the calls of \<open>hooks.enqueue\<close> it made, in order, with
  their answers.

  Random draws are rationals: \<open>go_float\<close> is what the random source may return, and the product
  \<open>time.Duration(r * float64(n))\<close> is the integer part of the exact product, where the code rounds the
  product to a float64 first (both lie between 0 and \<open>n\<close>).
\<close>

subsection \<open>Data\<close>

record target_key =
  key_canonical_url :: string
  key_replica_url :: string
  key_bind :: binding

datatype go_float = NaN | NegInf | PosInf | Fin rat

record sched_entry =
  key :: target_key
  base :: gtime
  rnd :: rat
  staggered :: bool
  synced :: bool
  failures :: nat
  last_err :: error_type
  not_before :: gtime

record scheduler =
  entries :: "(repo_id, sched_entry) fmap"
  was_suspended :: bool
  sgates :: provider_gates

record 'w sched_hooks =
  h_repos :: "'w \<Rightarrow> (repo_id, target_key) fmap"
  h_enqueue :: "repo_id \<Rightarrow> 'w \<Rightarrow> bool \<times> 'w"
  h_suspended :: "'w \<Rightarrow> bool"
  h_limits :: "'w \<Rightarrow> limits"
  h_now :: "'w \<Rightarrow> gtime"
  h_rand :: "'w \<Rightarrow> go_float \<times> 'w"

definition max_stagger :: duration where
  "max_stagger = 2 * minute"

definition backoff_cap :: duration where
  "backoff_cap = hour"

definition credential_errors :: "error_type list" where
  "credential_errors = [OriginAccessDenied, CredentialRejected, PushTokenExpired]"

definition new_scheduler :: scheduler where
  "new_scheduler = \<lparr>entries = fmempty, was_suspended = False, sgates = new_provider_gates\<rparr>"

subsection \<open>When an entry is due\<close>

definition clamp_draw :: "go_float \<Rightarrow> rat" where
  "clamp_draw f =
     (case f of
        NaN \<Rightarrow> 0
      | NegInf \<Rightarrow> 0
      | PosInf \<Rightarrow> 1 - 1 / 1000000000
      | Fin r \<Rightarrow> if \<not> r > 0 then 0 else if r \<ge> 1 then 1 - 1 / 1000000000 else r)"

definition draw :: "'w sched_hooks \<Rightarrow> 'w \<Rightarrow> rat \<times> 'w" where
  "draw h w = (case h_rand h w of (f, w1) \<Rightarrow> (clamp_draw f, w1))"

definition effective_interval :: "limits \<Rightarrow> duration" where
  "effective_interval l = (if interval l \<le> 0 then default_sync_interval else interval l)"

definition jitter :: "rat \<Rightarrow> duration \<Rightarrow> duration" where
  "jitter r n = \<lfloor>r * of_int n\<rfloor>"

text \<open>The doubling loop; its argument is how many iterations \<open>i < failures\<close> leaves.\<close>

fun backoff_double :: "nat \<Rightarrow> duration \<Rightarrow> duration" where
  "backoff_double 0 d = d"
| "backoff_double (Suc n) d = (if d < backoff_cap then backoff_double n (d * 2) else d)"

definition backoff_floor :: "duration \<Rightarrow> nat \<Rightarrow> error_type \<Rightarrow> duration" where
  "backoff_floor iv fails err =
     (if err \<in> set credential_errors then max iv backoff_cap
      else max iv (min (backoff_double (fails - 1) iv) backoff_cap))"

definition delay :: "sched_entry \<Rightarrow> limits \<Rightarrow> duration" where
  "delay e l =
     (let iv = effective_interval l
      in if failures e > 0
         then (let fl = backoff_floor iv (failures e) (last_err e) in fl + jitter (rnd e) (fl div 5))
         else if staggered e then iv + jitter (rnd e) (min iv max_stagger)
         else iv - iv div 10 + jitter (rnd e) (iv div 5))"

definition later :: "gtime \<Rightarrow> gtime \<Rightarrow> gtime" where
  "later a b = (if a < b then b else a)"

definition due :: "sched_entry \<Rightarrow> limits \<Rightarrow> gtime" where
  "due e l = later (base e + delay e l) (not_before e)"

definition due_ids :: "scheduler \<Rightarrow> gtime \<Rightarrow> limits \<Rightarrow> repo_id list" where
  "due_ids s now l =
     filter (\<lambda>rid. case fmlookup (entries s) rid of None \<Rightarrow> False | Some e \<Rightarrow> \<not> now < due e l)
       (sorted_keys (entries s))"

definition next_due :: "'w sched_hooks \<Rightarrow> 'w \<Rightarrow> repo_id \<Rightarrow> scheduler \<Rightarrow> gtime option" where
  "next_due h w rid s = map_option (\<lambda>e. due e (h_limits h w)) (fmlookup (entries s) rid)"

subsection \<open>reconcile\<close>

definition fresh_entry :: "target_key \<Rightarrow> gtime \<Rightarrow> rat \<Rightarrow> sched_entry" where
  "fresh_entry k now r =
     \<lparr>key = k, base = now, rnd = r, staggered = True, synced = False, failures = 0,
      last_err = NoError, not_before = zero_time\<rparr>"

fun reconcile_ids ::
  "'w sched_hooks \<Rightarrow> (repo_id, target_key) fmap \<Rightarrow> gtime \<Rightarrow> repo_id list \<Rightarrow>
   (repo_id, sched_entry) fmap \<Rightarrow> 'w \<Rightarrow> (repo_id, sched_entry) fmap \<times> 'w" where
  "reconcile_ids h want now [] es w = (es, w)"
| "reconcile_ids h want now (rid # rids) es w =
     (case fmlookup want rid of
        None \<Rightarrow> reconcile_ids h want now rids es w
      | Some k \<Rightarrow>
          if (case fmlookup es rid of None \<Rightarrow> False | Some e \<Rightarrow> key e = k)
          then reconcile_ids h want now rids es w
          else (case draw h w of
                  (r, w1) \<Rightarrow> reconcile_ids h want now rids (fmupd rid (fresh_entry k now r) es) w1))"

definition reconcile :: "'w sched_hooks \<Rightarrow> scheduler \<Rightarrow> 'w \<Rightarrow> scheduler \<times> 'w" where
  "reconcile h s w =
     (let want = h_repos h w;
          es0 = fmfilter (\<lambda>rid. fmlookup want rid \<noteq> None) (entries s);
          now = h_now h w
      in case reconcile_ids h want now (sorted_keys want) es0 w of
           (es, w1) \<Rightarrow>
             (s\<lparr>entries := es,
                sgates := retain (key_bind ` fset (fmran want)) (fmdom' want) (sgates s)\<rparr>, w1))"

subsection \<open>completed\<close>

definition task_key :: "sync_task \<Rightarrow> target_key" where
  "task_key t = \<lparr>key_canonical_url = canonical_url t, key_replica_url = replica_url t,
     key_bind = task_bind t\<rparr>"

definition completed ::
  "'w sched_hooks \<Rightarrow> repo_id \<Rightarrow> sync_task \<Rightarrow> sync_result \<Rightarrow> scheduler \<Rightarrow> 'w \<Rightarrow> scheduler \<times> 'w" where
  "completed h rid t res s w =
     (if res_state res \<noteq> StateOK \<and> res_state res \<noteq> StateError then (s, w)
      else case fmlookup (entries s) rid of
        None \<Rightarrow> (s, w)
      | Some e \<Rightarrow>
          if key e \<noteq> task_key t then (s, w)
          else
            (let success = (res_state res = StateOK);
                 now = h_now h w;
                 b = key_bind (key e);
                 e1 = (if success then e\<lparr>failures := 0, last_err := NoError\<rparr>
                       else e\<lparr>failures := failures e + 1, last_err := error_type res\<rparr>);
                 g1 = (if success then snd (succeeded b (started_at (stats res)) (sgates s))
                       else if origin_credential_rejected res
                       then snd (arm b now (max (effective_interval (h_limits h w)) backoff_cap) (sgates s))
                       else sgates s)
             in case draw h w of
                  (r, w1) \<Rightarrow>
                    (s\<lparr>entries := fmupd rid (e1\<lparr>staggered := success \<and> \<not> synced e, synced := True,
                                               base := now, rnd := r\<rparr>) (entries s),
                       sgates := g1\<rparr>, w1)))"

subsection \<open>poll\<close>

definition dispatch ::
  "'w sched_hooks \<Rightarrow> repo_id \<Rightarrow> gtime \<Rightarrow> probe_undo \<Rightarrow> scheduler \<Rightarrow> 'w \<Rightarrow> bool \<times> scheduler \<times> 'w" where
  "dispatch h rid now u s w =
     (case h_enqueue h rid w of
        (ok, w1) \<Rightarrow>
          if \<not> ok then (False, s\<lparr>sgates := apply_undo u (sgates s)\<rparr>, w1)
          else case fmlookup (entries s) rid of
            None \<Rightarrow> (True, s, w1)
          | Some e \<Rightarrow>
              (case draw h w1 of
                 (r, w2) \<Rightarrow>
                   (True,
                    s\<lparr>entries := fmupd rid (e\<lparr>base := now, rnd := r, not_before := zero_time\<rparr>) (entries s)\<rparr>,
                    w2)))"

definition bind_of :: "scheduler \<Rightarrow> repo_id \<Rightarrow> binding" where
  "bind_of s rid = (case fmlookup (entries s) rid of None \<Rightarrow> unbound | Some e \<Rightarrow> key_bind (key e))"

text \<open>The spread applied when a suspension lifts.\<close>

fun spread_due ::
  "'w sched_hooks \<Rightarrow> gtime \<Rightarrow> duration \<Rightarrow> repo_id list \<Rightarrow> scheduler \<Rightarrow> 'w \<Rightarrow> scheduler \<times> 'w" where
  "spread_due h now spread [] s w = (s, w)"
| "spread_due h now spread (rid # rids) s w =
     (case draw h w of
        (r, w1) \<Rightarrow>
          spread_due h now spread rids
            (case fmlookup (entries s) rid of
               None \<Rightarrow> s
             | Some e \<Rightarrow> s\<lparr>entries := fmupd rid (e\<lparr>not_before := now + jitter r spread\<rparr>) (entries s)\<rparr>)
            w1)"

text \<open>The first loop of \<open>poll\<close>: dispatch what no gate holds back, collect the half-open candidates.\<close>

fun poll_open ::
  "'w sched_hooks \<Rightarrow> gtime \<Rightarrow> repo_id list \<Rightarrow> scheduler \<Rightarrow> 'w \<Rightarrow>
   (repo_id \<times> bool) list \<times> repo_id list \<times> scheduler \<times> 'w" where
  "poll_open h now [] s w = ([], [], s, w)"
| "poll_open h now (rid # rids) s w =
     (case state (sgates s) (bind_of s rid) now of
        GateClosed \<Rightarrow> poll_open h now rids s w
      | GateHalfOpen \<Rightarrow>
          (case poll_open h now rids s w of (calls, half, s1, w1) \<Rightarrow> (calls, rid # half, s1, w1))
      | GateNone \<Rightarrow>
          (case dispatch h rid now NoUndo s w of
             (ok, s1, w1) \<Rightarrow>
               (case poll_open h now rids s1 w1 of
                  (calls, half, s2, w2) \<Rightarrow> ((rid, ok) # calls, half, s2, w2))))"

text \<open>The second loop: one probe per half-open credential.\<close>

fun poll_probe ::
  "'w sched_hooks \<Rightarrow> gtime \<Rightarrow> limits \<Rightarrow> repo_id list \<Rightarrow> scheduler \<Rightarrow> 'w \<Rightarrow>
   (repo_id \<times> bool) list \<times> scheduler \<times> 'w" where
  "poll_probe h now l [] s w = ([], s, w)"
| "poll_probe h now l (rid # rids) s w =
     (let b = bind_of s rid
      in if state (sgates s) b now \<noteq> GateHalfOpen then poll_probe h now l rids s w
         else (case begin_probe b rid now (effective_interval l) (sgates s) of
                 (u, g1) \<Rightarrow>
                   (case dispatch h rid now u (s\<lparr>sgates := g1\<rparr>) w of
                      (ok, s1, w1) \<Rightarrow>
                        (case poll_probe h now l rids s1 w1 of
                           (calls, s2, w2) \<Rightarrow> ((rid, ok) # calls, s2, w2)))))"

definition failures_of :: "scheduler \<Rightarrow> repo_id \<Rightarrow> nat" where
  "failures_of s rid = (case fmlookup (entries s) rid of None \<Rightarrow> 0 | Some e \<Rightarrow> failures e)"

definition poll_due ::
  "'w sched_hooks \<Rightarrow> gtime \<Rightarrow> limits \<Rightarrow> repo_id list \<Rightarrow> scheduler \<Rightarrow> 'w \<Rightarrow>
   (repo_id \<times> bool) list \<times> scheduler \<times> 'w" where
  "poll_due h now l rids s w =
     (case poll_open h now rids s w of
        (calls, half, s1, w1) \<Rightarrow>
          (case poll_probe h now l (sort_key (failures_of s1) half) s1 w1 of
             (probes, s2, w2) \<Rightarrow> (calls @ probes, s2, w2)))"

definition poll ::
  "'w sched_hooks \<Rightarrow> bool \<Rightarrow> scheduler \<Rightarrow> 'w \<Rightarrow> (repo_id \<times> bool) list \<times> scheduler \<times> 'w" where
  "poll h ctx_done s w =
     (if ctx_done then ([], s, w)
      else if h_suspended h w then ([], s\<lparr>was_suspended := True\<rparr>, w)
      else
        (let now = h_now h w; l = h_limits h w; rids = due_ids s now l
         in if was_suspended s
            then (case spread_due h now (min (effective_interval l) max_stagger) rids
                         (s\<lparr>was_suspended := False\<rparr>) w of
                    (s1, w1) \<Rightarrow> poll_due h now l (due_ids s1 now l) s1 w1)
            else poll_due h now l rids s w))"

subsection \<open>Immediate syncs and claims\<close>

definition sched_admit_manual :: "'w sched_hooks \<Rightarrow> repo_id \<Rightarrow> scheduler \<Rightarrow> 'w \<Rightarrow> bool \<times> scheduler" where
  "sched_admit_manual h rid s w =
     (case fmlookup (entries s) rid of
        None \<Rightarrow> (True, s)
      | Some e \<Rightarrow>
          (case admit_manual (key_bind (key e)) rid (h_now h w) (sgates s) of
             (ok, g1) \<Rightarrow> (ok, s\<lparr>sgates := g1\<rparr>)))"

definition may_claim :: "'w sched_hooks \<Rightarrow> repo_id \<Rightarrow> binding \<Rightarrow> scheduler \<Rightarrow> 'w \<Rightarrow> bool \<times> scheduler" where
  "may_claim h rid b s w =
     (case claim b rid (h_now h w) (effective_interval (h_limits h w)) (sgates s) of
        (ok, g1) \<Rightarrow> (ok, s\<lparr>sgates := g1\<rparr>))"

definition release_pass :: "repo_id \<Rightarrow> scheduler \<Rightarrow> scheduler" where
  "release_pass rid s = s\<lparr>sgates := drop_pass rid (sgates s)\<rparr>"

subsection \<open>Draws and delays\<close>

lemma clamp_draw_range: "0 \<le> clamp_draw f \<and> clamp_draw f < 1"
  by (auto simp: clamp_draw_def not_less split: go_float.splits)

lemma draw_range: "draw h w = (r, w1) \<Longrightarrow> 0 \<le> r \<and> r < 1"
  using clamp_draw_range by (auto simp: draw_def split: prod.splits)

lemma jitter_nonneg: "0 \<le> r \<Longrightarrow> 0 \<le> n \<Longrightarrow> 0 \<le> jitter r n"
  by (simp add: jitter_def)

lemma jitter_less: "r < 1 \<Longrightarrow> 0 < n \<Longrightarrow> jitter r n < n"
proof -
  assume "r < 1" and "0 < n"
  then have "r * of_int n < 1 * of_int n" by (intro mult_strict_right_mono) auto
  then show ?thesis by (simp add: jitter_def floor_less_iff)
qed

lemma jitter_le: "r < 1 \<Longrightarrow> 0 \<le> n \<Longrightarrow> jitter r n \<le> n"
  using jitter_less [of r n] by (cases "n = 0") (auto simp: jitter_def)

lemma effective_interval_pos: "0 < effective_interval l"
  by (simp add: effective_interval_def default_sync_interval_def)

lemma effective_interval_wf: "limits_wf l \<Longrightarrow> effective_interval l = interval l"
  by (simp add: effective_interval_def limits_wf_def)

lemma backoff_double_ge: "0 < d \<Longrightarrow> d \<le> backoff_double n d"
  by (induction n d rule: backoff_double.induct) auto

lemma backoff_double_min:
  "0 < d \<Longrightarrow> min (backoff_double n d) backoff_cap = min (d * 2 ^ n) backoff_cap"
proof (induction n d rule: backoff_double.induct)
  case (2 n d)
  show ?case
  proof (cases "d < backoff_cap")
    case True
    with "2.IH" "2.prems" show ?thesis by (simp add: mult.assoc)
  next
    case False
    have "(1::int) \<le> 2 ^ Suc n" by (rule one_le_power) simp
    then have "d * 1 \<le> d * 2 ^ Suc n" using "2.prems" by (intro mult_left_mono) auto
    then have "backoff_cap \<le> d * 2 ^ Suc n" using False by linarith
    with False show ?thesis by simp
  qed
qed simp

lemma backoff_floor_closed:
  "0 < iv \<Longrightarrow> backoff_floor iv n err =
     (if err \<in> set credential_errors then max iv backoff_cap
      else max iv (min (iv * 2 ^ (n - 1)) backoff_cap))"
  by (simp add: backoff_floor_def backoff_double_min)

lemma backoff_floor_ge: "0 < iv \<Longrightarrow> iv \<le> backoff_floor iv n err"
  by (auto simp: backoff_floor_def)

text \<open>The bounds of the delay, branch by branch.\<close>

lemma delay_bounds_branches:
  assumes "0 \<le> rnd e" and "rnd e < 1"
    and iv_def: "iv = effective_interval l"
    and fl_def: "fl = backoff_floor (effective_interval l) (failures e) (last_err e)"
  shows "0 < failures e \<Longrightarrow> fl \<le> delay e l \<and> delay e l \<le> fl + fl div 5"
    and "failures e = 0 \<Longrightarrow> staggered e \<Longrightarrow> iv \<le> delay e l \<and> delay e l < iv + min iv max_stagger"
    and "failures e = 0 \<Longrightarrow> \<not> staggered e \<Longrightarrow>
      iv - iv div 10 \<le> delay e l \<and> delay e l \<le> iv - iv div 10 + iv div 5"
proof -
  have iv: "0 < iv" by (simp add: iv_def effective_interval_pos)
  then have fl: "0 < fl" using backoff_floor_ge [of iv "failures e" "last_err e"] by (simp add: fl_def iv_def)
  show "0 < failures e \<Longrightarrow> fl \<le> delay e l \<and> delay e l \<le> fl + fl div 5"
    using jitter_nonneg [OF assms(1), of "fl div 5"] jitter_le [OF assms(2), of "fl div 5"] fl
    by (simp add: delay_def Let_def fl_def)
  show "failures e = 0 \<Longrightarrow> staggered e \<Longrightarrow> iv \<le> delay e l \<and> delay e l < iv + min iv max_stagger"
    using jitter_nonneg [OF assms(1), of "min iv max_stagger"] jitter_less [OF assms(2), of "min iv max_stagger"] iv
    by (simp add: delay_def Let_def iv_def max_stagger_def)
  show "failures e = 0 \<Longrightarrow> \<not> staggered e \<Longrightarrow>
      iv - iv div 10 \<le> delay e l \<and> delay e l \<le> iv - iv div 10 + iv div 5"
    using jitter_nonneg [OF assms(1), of "iv div 5"] jitter_le [OF assms(2), of "iv div 5"] iv
    by (simp add: delay_def Let_def iv_def)
qed

lemma delay_lower:
  assumes "0 \<le> rnd e" and "rnd e < 1"
  shows "effective_interval l - effective_interval l div 10 \<le> delay e l"
  using delay_bounds_branches [OF assms refl refl, of l]
    backoff_floor_ge [OF effective_interval_pos, of l "failures e" "last_err e"]
    effective_interval_pos [of l]
  by (cases "0 < failures e"; cases "staggered e") (auto simp: pos_imp_zdiv_nonneg_iff)

text \<open>After n > 0 consecutive failures the delay of a repository lies between the back-off floor and 120%
of it, the floor being max(interval, min(interval*2^(n-1), one hour)), or max(interval, one hour)
from the first failure for a credential error; it is never below the interval.\<close>

theorem retry_delay:
  assumes "0 \<le> rnd e" and "rnd e < 1" and "0 < failures e" and "limits_wf l"
  shows "let iv = interval l;
           fl = (if last_err e \<in> set credential_errors then max iv hour
                 else max iv (min (iv * 2 ^ (failures e - 1)) hour))
         in fl \<le> delay e l \<and> delay e l \<le> fl + fl div 5 \<and> iv \<le> delay e l"
proof -
  have iv: "effective_interval l = interval l" and pos: "0 < interval l"
    using assms(4) effective_interval_wf effective_interval_pos by (metis)+
  let ?fl = "backoff_floor (interval l) (failures e) (last_err e)"
  have "?fl \<le> delay e l \<and> delay e l \<le> ?fl + ?fl div 5"
    using delay_bounds_branches(1) [OF assms(1,2) refl refl assms(3), of l] by (simp add: iv)
  moreover have "interval l \<le> ?fl" by (rule backoff_floor_ge [OF pos])
  ultimately show ?thesis
    unfolding Let_def backoff_floor_closed [OF pos, unfolded backoff_cap_def, symmetric] by simp
qed

definition example_entry :: sched_entry where
  "example_entry = (fresh_entry \<lparr>key_canonical_url = ''https://git.example:443/a'',
      key_replica_url = ''https://replica.example:443/a'', key_bind = example_binding\<rparr> 1000 (1/2))"

theorem retry_delay_witness:
  "let iv = interval default_limits; fl = max iv (min (iv * 2 ^ 2) hour)
   in fl \<le> delay (example_entry\<lparr>failures := 3, last_err := PushTimeout\<rparr>) default_limits"
  using retry_delay [of "example_entry\<lparr>failures := 3, last_err := PushTimeout\<rparr>" default_limits]
  by (simp add: example_entry_def fresh_entry_def default_limits_wf credential_errors_def Let_def)

subsection \<open>The doubling loop at 64 bits\<close>

text \<open>
  The code's loop on \<open>time.Duration\<close>, a signed 64-bit integer whose multiplication wraps.
\<close>

fun backoff_double64 :: "nat \<Rightarrow> 64 word \<Rightarrow> 64 word" where
  "backoff_double64 0 d = d"
| "backoff_double64 (Suc n) d = (if sint d < backoff_cap then backoff_double64 n (d * 2) else d)"

definition backoff_floor64 :: "64 word \<Rightarrow> nat \<Rightarrow> error_type \<Rightarrow> 64 word" where
  "backoff_floor64 iv fails err =
     (let cap = word_of_int backoff_cap;
          smax = (\<lambda>a b. if sint a < sint b then b else a);
          smin = (\<lambda>a b. if sint b < sint a then b else a)
      in if err \<in> set credential_errors then smax iv cap
         else smax iv (smin (backoff_double64 (fails - 1) iv) cap))"

lemma sint_double: "0 \<le> sint d \<Longrightarrow> sint d < backoff_cap \<Longrightarrow> sint (d * 2 :: 64 word) = sint d * 2"
  by (simp add: sint_word_ariths signed_take_bit_int_eq_self backoff_cap_def)

lemma sint_backoff_double64:
  "0 < sint d \<Longrightarrow> sint (backoff_double64 n d) = backoff_double n (sint d)"
  by (induction n d rule: backoff_double64.induct) (auto simp: sint_double)

lemma sint_backoff_cap: "sint (word_of_int backoff_cap :: 64 word) = backoff_cap"
  by (simp add: backoff_cap_def)

text \<open>C40. Computed on 64-bit signed durations with wrap-around, as Go does, the back-off floor of a
positive interval equals the one on unbounded integers: the doubling loop stops before it can
overflow.\<close>

theorem backoff_no_overflow:
  assumes "0 < sint iv"
  shows "sint (backoff_floor64 iv n err) = backoff_floor (sint iv) n err"
  using sint_backoff_double64 [OF assms, of "n - 1"]
  by (auto simp: backoff_floor64_def backoff_floor_def Let_def sint_backoff_cap max_def min_def)

theorem backoff_no_overflow_witness:
  "sint (backoff_floor64 60000000000 70 OriginUnreachable) = hour"
proof -
  have "0 < sint (60000000000 :: 64 word)" by simp
  from backoff_no_overflow [OF this, of 70 OriginUnreachable] show ?thesis
    by (simp add: backoff_floor_closed credential_errors_def backoff_cap_def)
qed

subsection \<open>reconcile\<close>

lemma reconcile_ids_lookup:
  "reconcile_ids h want now rids es w = (es', w') \<Longrightarrow>
   fmlookup es' rid =
     (case fmlookup want rid of
        None \<Rightarrow> fmlookup es rid
      | Some k \<Rightarrow>
          if rid \<notin> set rids \<or> (\<exists>e. fmlookup es rid = Some e \<and> key e = k) then fmlookup es rid
          else fmlookup es' rid)
   \<and> (rid \<in> set rids \<longrightarrow> (\<forall>k. fmlookup want rid = Some k \<longrightarrow>
        (\<forall>e. fmlookup es rid = Some e \<longrightarrow> key e \<noteq> k) \<longrightarrow>
        (\<exists>r. 0 \<le> r \<and> r < 1 \<and> fmlookup es' rid = Some (fresh_entry k now r))))"
proof (induction h want now rids es w arbitrary: es' rule: reconcile_ids.induct)
  case (2 h want now i rids es w)
  show ?case
  proof (cases "fmlookup want i")
    case None
    then show ?thesis using "2.IH"(1) [OF None] "2.prems" by (auto split: option.splits)
  next
    case (Some k)
    show ?thesis
    proof (cases "case fmlookup es i of None \<Rightarrow> False | Some e \<Rightarrow> key e = k")
      case True
      then show ?thesis
        using "2.IH"(2) [OF Some True] "2.prems" Some by (auto split: option.splits)
    next
      case False
      obtain r w1 where d: "draw h w = (r, w1)" by (metis surj_pair)
      have rec: "reconcile_ids h want now rids (fmupd i (fresh_entry k now r) es) w1 = (es', w')"
        using "2.prems" Some False d by auto
      note ih = "2.IH"(3) [OF Some False d [symmetric] rec]
      have kf: "key (fresh_entry k now r) = k" by (simp add: fresh_entry_def)
      show ?thesis
      proof (cases "rid = i")
        case True
        then have "fmlookup es' rid = Some (fresh_entry k now r)"
          using ih Some kf by (auto split: if_splits)
        then show ?thesis using True Some False draw_range [OF d] by (auto split: option.splits)
      next
        case neq: False
        with ih show ?thesis by (auto split: option.splits if_splits)
      qed
    qed
  qed
qed (auto split: option.splits)

text \<open>After reconcile the schedule holds exactly the repositories that can be synced: one whose target is
unchanged keeps its entry (with its back-off), a new or retargeted one starts over now with a draw
in [0,1), and any other is gone.\<close>

theorem reconcile_entries:
  "\<exists>r. 0 \<le> r \<and> r < 1 \<and>
     fmlookup (entries (fst (reconcile h s w))) rid =
       (case fmlookup (h_repos h w) rid of
          None \<Rightarrow> None
        | Some k \<Rightarrow>
            (case fmlookup (entries s) rid of
               None \<Rightarrow> Some (fresh_entry k (h_now h w) r)
             | Some e \<Rightarrow> if key e = k then Some e else Some (fresh_entry k (h_now h w) r)))"
proof -
  let ?want = "h_repos h w"
  let ?es0 = "fmfilter (\<lambda>i. fmlookup ?want i \<noteq> None) (entries s)"
  obtain es' w' where rec: "reconcile_ids h ?want (h_now h w) (sorted_keys ?want) ?es0 w = (es', w')"
    by (metis surj_pair)
  have es': "entries (fst (reconcile h s w)) = es'"
    using rec by (simp add: reconcile_def Let_def)
  show ?thesis
  proof (cases "fmlookup ?want rid")
    case None
    then have "fmlookup es' rid = None" using reconcile_ids_lookup [OF rec, of rid] by simp
    with None es' show ?thesis by (intro exI[of _ 0]) simp
  next
    case (Some k)
    have mem: "rid \<in> set (sorted_keys ?want)" using Some by auto
    have lk: "fmlookup ?es0 rid = fmlookup (entries s) rid" using Some by simp
    show ?thesis
    proof (cases "\<exists>e. fmlookup (entries s) rid = Some e \<and> key e = k")
      case True
      then have "fmlookup es' rid = fmlookup (entries s) rid"
        using reconcile_ids_lookup [OF rec, of rid] Some lk by auto
      with True Some es' show ?thesis by (intro exI[of _ 0]) auto
    next
      case False
      then obtain r where "0 \<le> r" "r < 1" "fmlookup es' rid = Some (fresh_entry k (h_now h w) r)"
        using reconcile_ids_lookup [OF rec, of rid] Some lk mem by auto
      with False Some es' show ?thesis by (intro exI[of _ r]) (auto split: option.splits)
    qed
  qed
qed

subsection \<open>completed\<close>

text \<open>A finished sync the schedule takes into account.\<close>

definition counts :: "repo_id \<Rightarrow> sync_task \<Rightarrow> sync_result \<Rightarrow> scheduler \<Rightarrow> bool" where
  "counts rid t res s \<longleftrightarrow>
     (res_state res = StateOK \<or> res_state res = StateError) \<and>
     (\<exists>e. fmlookup (entries s) rid = Some e \<and> key e = task_key t)"

lemma completed_ignored: "\<not> counts rid t res s \<Longrightarrow> completed h rid t res s w = (s, w)"
  by (auto simp: completed_def counts_def split: option.splits)

lemma completed_gates:
  assumes "counts rid t res s"
  shows "sgates (fst (completed h rid t res s w)) =
    (if res_state res = StateOK then snd (succeeded (task_bind t) (started_at (stats res)) (sgates s))
     else if origin_credential_rejected res
     then snd (arm (task_bind t) (h_now h w)
            (max (effective_interval (h_limits h w)) backoff_cap) (sgates s))
     else sgates s)"
proof -
  obtain e where e: "fmlookup (entries s) rid = Some e" "key e = task_key t"
    using assms by (auto simp: counts_def)
  have kb: "key_bind (task_key t) = task_bind t" by (simp add: task_key_def)
  show ?thesis
    using assms e kb by (auto simp: completed_def counts_def Let_def split: prod.splits)
qed

text \<open>Once a counted sync ends with its origin credential rejected, no other repository on that binding
may claim it (unless it already holds a pass) until max(interval, one hour) has passed, and the gate
is closed until then.\<close>

theorem rejection_holds_siblings:
  assumes "counts rid t res s" and "res_state res = StateError" and "origin_credential_rejected res"
    and "provider (task_bind t) \<noteq> []"
    and "other \<notin> pass_holders (task_bind t) (sgates s)"
    and "now < h_now h w + max (effective_interval (h_limits h w)) backoff_cap"
  defines "s1 \<equiv> fst (completed h rid t res s w)"
  shows "\<not> fst (may_claim h' other (task_bind t) s1 w') \<and>
    state (sgates s1) (task_bind t) now = GateClosed"
proof -
  have g: "sgates s1 = snd (arm (task_bind t) (h_now h w)
      (max (effective_interval (h_limits h w)) backoff_cap) (sgates s))"
    using completed_gates [OF assms(1), of h w] assms(2,3) by (simp add: s1_def)
  then have held: "gate_held (sgates s1) (task_bind t)"
    and ph: "pass_holders (task_bind t) (sgates s1) = pass_holders (task_bind t) (sgates s)"
    and st: "state (sgates s1) (task_bind t) now = GateClosed"
    using assms(4,6) by (auto simp: arm_def gate_held_def state_def)
  have "\<not> fst (claim (task_bind t) other n v (sgates s1))" for n v
    using pk.gated_claim [OF held] assms(5) ph by simp
  then show ?thesis using st by (simp add: may_claim_def case_prod_beta)
qed

definition example_task :: sync_task where
  "example_task =
     \<lparr>task_repo = ''a'', canonical_url = ''https://git.example:443/a'',
      origin = \<lparr>le_base_url = ''https://git.example'', le_auth = ''bearer'', le_username = [],
        le_token = ''0123456789abcdef'', le_token_file = []\<rparr>,
      replica_url = ''https://replica.example:443/a'', push_token = ''push'', token_expires_at = [],
      task_bind = example_binding, attempt_seq = 1\<rparr>"

definition example_hooks :: "gtime sched_hooks" where
  "example_hooks =
     \<lparr>h_repos = (\<lambda>_. fmempty), h_enqueue = (\<lambda>_ w. (True, w)), h_suspended = (\<lambda>_. False),
      h_limits = (\<lambda>_. default_limits), h_now = (\<lambda>w. w), h_rand = (\<lambda>w. (Fin (1/2), w))\<rparr>"

definition example_scheduler :: scheduler where
  "example_scheduler = new_scheduler\<lparr>entries := fmupd ''a'' example_entry (fmupd ''b'' example_entry fmempty)\<rparr>"

definition example_rejection :: sync_result where
  "example_rejection = (error_result OriginAccessDenied [])\<lparr>origin_credential_rejected := True\<rparr>"

text \<open>An hour after the refusal of repository a's login, b may still not claim without a pass.\<close>

theorem rejection_holds_siblings_witness:
  "\<not> fst (may_claim example_hooks ''b'' example_binding
     (fst (completed example_hooks ''a'' example_task example_rejection example_scheduler 0)) 3000000000000)"
proof -
  have "counts ''a'' example_task example_rejection example_scheduler"
    by (simp add: counts_def example_rejection_def example_scheduler_def example_entry_def
        fresh_entry_def task_key_def example_task_def error_result_def no_result_def)
  moreover have "res_state example_rejection = StateError" "origin_credential_rejected example_rejection"
    by (simp_all add: example_rejection_def)
  moreover have "provider (task_bind example_task) \<noteq> []"
    "''b'' \<notin> pass_holders (task_bind example_task) (sgates example_scheduler)"
    "0 < h_now example_hooks 0 + max (effective_interval (h_limits example_hooks 0)) backoff_cap"
    by (simp_all add: example_task_def example_binding_def example_scheduler_def new_scheduler_def
        pass_holders_def new_provider_gates_def example_hooks_def backoff_cap_def)
  ultimately show ?thesis
    using rejection_holds_siblings [of "''a''" example_task example_rejection example_scheduler "''b''" 0
        example_hooks 0 example_hooks 3000000000000]
    by (simp add: example_task_def)
qed

subsection \<open>poll\<close>

lemma dispatch_sgates:
  "dispatch h rid now u s w = (ok, s1, w1) \<Longrightarrow>
     sgates s1 = (if ok then sgates s else apply_undo u (sgates s))"
  by (auto simp: dispatch_def split: prod.splits if_splits option.splits)

lemma dispatch_other:
  "dispatch h rid now u s w = (ok, s1, w1) \<Longrightarrow> \<not> (ok \<and> i = rid) \<Longrightarrow>
     fmlookup (entries s1) i = fmlookup (entries s) i"
  by (auto simp: dispatch_def split: prod.splits if_splits option.splits)

lemma dispatch_started:
  assumes "dispatch h rid now u s w = (True, s1, w1)" and "fmlookup (entries s) rid = Some e"
  shows "\<exists>r. 0 \<le> r \<and> r < 1 \<and>
    fmlookup (entries s1) rid = Some (e\<lparr>base := now, rnd := r, not_before := zero_time\<rparr>)"
proof -
  obtain w0 where en: "h_enqueue h rid w = (True, w0)"
    using assms(1) by (auto simp: dispatch_def split: prod.splits if_splits)
  obtain r w2 where d: "draw h w0 = (r, w2)" by (metis surj_pair)
  have "fmlookup (entries s1) rid = Some (e\<lparr>base := now, rnd := r, not_before := zero_time\<rparr>)"
    using assms en d by (auto simp: dispatch_def)
  with draw_range [OF d] show ?thesis by blast
qed

lemma dispatch_none:
  "dispatch h rid now u s w = (ok, s1, w1) \<Longrightarrow> fmlookup (entries s) rid = None \<Longrightarrow>
     fmlookup (entries s1) i = fmlookup (entries s) i"
  by (auto simp: dispatch_def split: prod.splits if_splits option.splits)

lemma dispatch_bind:
  assumes "dispatch h rid now u s w = (ok, s1, w1)"
  shows "bind_of s1 i = bind_of s i"
proof (cases "ok \<and> i = rid")
  case False
  then show ?thesis using dispatch_other [OF assms, of i] by (simp add: bind_of_def)
next
  case True
  show ?thesis
  proof (cases "fmlookup (entries s) rid")
    case None
    then show ?thesis using dispatch_none [OF assms None, of i] by (simp add: bind_of_def)
  next
    case (Some e)
    with True assms dispatch_started [of h rid now u s w s1 w1 e] show ?thesis
      by (auto simp: bind_of_def)
  qed
qed

lemma poll_open_props:
  "poll_open h now rids s w = (calls, half, s', w') \<Longrightarrow>
   sgates s' = sgates s \<and> bind_of s' = bind_of s \<and>
   half = filter (\<lambda>r. state (sgates s) (bind_of s r) now = GateHalfOpen) rids \<and>
   map fst calls = filter (\<lambda>r. state (sgates s) (bind_of s r) now = GateNone) rids"
proof (induction rids arbitrary: s w calls half)
  case (Cons r rids)
  show ?case
  proof (cases "state (sgates s) (bind_of s r) now")
    case GateNone
    obtain ok s1 w1 where d: "dispatch h r now NoUndo s w = (ok, s1, w1)" by (metis prod_cases3)
    obtain c1 h1 s2 w2 where rec: "poll_open h now rids s1 w1 = (c1, h1, s2, w2)" by (metis prod_cases4)
    have same: "sgates s1 = sgates s" "bind_of s1 = bind_of s"
      using dispatch_sgates [OF d] dispatch_bind [OF d] by (auto simp: fun_eq_iff)
    have eq: "calls = (r, ok) # c1" "half = h1" "s' = s2" "w' = w2"
      using Cons.prems GateNone d rec by simp_all
    from Cons.IH [of s1 w1 c1 h1] rec eq same GateNone show ?thesis by simp
  next
    case GateClosed
    with Cons show ?thesis by simp
  next
    case GateHalfOpen
    obtain c1 h1 s2 w2 where rec: "poll_open h now rids s w = (c1, h1, s2, w2)" by (metis prod_cases4)
    have eq: "calls = c1" "half = r # h1" "s' = s2" "w' = w2"
      using Cons.prems GateHalfOpen rec by simp_all
    from Cons.IH [of s w c1 h1] rec eq GateHalfOpen show ?thesis by simp
  qed
qed simp

text \<open>One probe per credential: once one has started, the gate is closed again for this tick.\<close>

lemma half_open_after_probe:
  assumes bp: "begin_probe b rid now window g = (u, g1)" and "0 < window"
    and d: "dispatch h rid now u (s\<lparr>sgates := g1\<rparr>) w = (ok, s1, w1)" and "sgates s = g"
  shows "state (sgates s1) c now = GateHalfOpen \<Longrightarrow> state g c now = GateHalfOpen"
    and "ok \<Longrightarrow> state (sgates s1) b now \<noteq> GateHalfOpen"
proof -
  have g1: "sgates s1 = (if ok then g1 else g)"
    using dispatch_sgates [OF d] begin_probe_undone [OF bp] by simp
  show "state (sgates s1) c now = GateHalfOpen \<Longrightarrow> state g c now = GateHalfOpen"
    and "ok \<Longrightarrow> state (sgates s1) b now \<noteq> GateHalfOpen"
    using bp assms(2) unfolding g1
    by (auto simp: begin_probe_def state_def split: option.splits if_splits)
qed

lemma poll_probe_props:
  "poll_probe h now l rids s w = (calls, s', w') \<Longrightarrow>
   bind_of s' = bind_of s \<and>
   (\<forall>r ok. (r, ok) \<in> set calls \<longrightarrow> r \<in> set rids \<and> state (sgates s) (bind_of s r) now = GateHalfOpen) \<and>
   (distinct rids \<longrightarrow> distinct (map fst calls)) \<and>
   (distinct rids \<longrightarrow> (\<forall>r r'. (r, True) \<in> set calls \<longrightarrow> (r', True) \<in> set calls \<longrightarrow>
      bind_of s r = bind_of s r' \<longrightarrow> r = r'))"
proof (induction rids arbitrary: s w calls)
  case (Cons r rids)
  show ?case
  proof (cases "state (sgates s) (bind_of s r) now = GateHalfOpen")
    case False
    with Cons.prems have "poll_probe h now l rids s w = (calls, s', w')" by simp
    from Cons.IH [OF this] show ?thesis by auto
  next
    case True
    obtain u g1 where bp: "begin_probe (bind_of s r) r now (effective_interval l) (sgates s) = (u, g1)"
      by (metis surj_pair)
    obtain ok s1 w1 where d: "dispatch h r now u (s\<lparr>sgates := g1\<rparr>) w = (ok, s1, w1)"
      by (metis prod_cases3)
    obtain c1 s2 w2 where rec: "poll_probe h now l rids s1 w1 = (c1, s2, w2)" by (metis prod_cases3)
    have eq: "calls = (r, ok) # c1" "s' = s2" "w' = w2"
      using Cons.prems True bp d rec by (simp_all add: Let_def)
    have bs: "bind_of s1 = bind_of s"
      using dispatch_bind [OF d] by (auto simp: bind_of_def fun_eq_iff)
    note ih = Cons.IH [of s1 w1 c1, unfolded bs, folded eq(2,3), OF rec [folded eq(2,3)]]
    note hp = half_open_after_probe [OF bp effective_interval_pos d refl]
    have mem: "i \<in> set rids \<and> state (sgates s1) (bind_of s i) now = GateHalfOpen"
      if "(i, b) \<in> set c1" for i b using ih that by blast
    then have half: "i \<in> set rids \<and> state (sgates s) (bind_of s i) now = GateHalfOpen"
      if "(i, b) \<in> set c1" for i b using that hp(1) by blast
    have new: "bind_of s i \<noteq> bind_of s r" if "(i, True) \<in> set c1" "ok" for i
      using mem [OF that(1)] hp(2) [OF that(2)] by metis
    have dist: "distinct (map fst calls)" if "distinct (r # rids)"
      using ih that half eq(1) by fastforce
    have one: "i = j" if "distinct (r # rids)" "(i, True) \<in> set calls" "(j, True) \<in> set calls"
      "bind_of s i = bind_of s j" for i j
      using that ih new [of i] new [of j] unfolding eq(1)
      by (auto simp: eq_commute [of "bind_of s r"])
    show ?thesis
      using ih half True eq(1) dist one by auto
  qed
qed simp

lemma set_due_ids:
  "r \<in> set (due_ids s now l) \<longleftrightarrow> (\<exists>e. fmlookup (entries s) r = Some e \<and> due e l \<le> now)"
  by (auto simp: due_ids_def not_less split: option.splits)

lemma distinct_due_ids [simp]: "distinct (due_ids s now l)"
  by (simp add: due_ids_def)

lemma due_base: "due e l \<le> now \<Longrightarrow> base e + delay e l \<le> now"
  by (auto simp: due_def later_def split: if_splits)

lemma spread_due_props:
  "spread_due h now sp rids s w = (s', w') \<Longrightarrow>
     sgates s' = sgates s \<and>
     (\<exists>nb. fmlookup (entries s') i = map_option (\<lambda>e. e\<lparr>not_before := nb\<rparr>) (fmlookup (entries s) i))"
proof (induction rids arbitrary: s w)
  case Nil
  then show ?case
    by (cases "fmlookup (entries s) i") (auto intro: exI[of _ "not_before (the (fmlookup (entries s) i))"])
next
  case (Cons r rids)
  obtain q w1 where d: "draw h w = (q, w1)" by (metis surj_pair)
  let ?s1 = "case fmlookup (entries s) r of None \<Rightarrow> s
     | Some e \<Rightarrow> s\<lparr>entries := fmupd r (e\<lparr>not_before := now + jitter q sp\<rparr>) (entries s)\<rparr>"
  have "spread_due h now sp rids ?s1 w1 = (s', w')" using Cons.prems d by simp
  from Cons.IH [OF this] show ?case
    by (cases "fmlookup (entries s) r"; cases "fmlookup (entries s) i"; cases "r = i") auto
qed

lemma spread_due_bind:
  "spread_due h now sp rids s w = (s', w') \<Longrightarrow> bind_of s' i = bind_of s i"
  using spread_due_props [of h now sp rids s w s' w' i]
  by (cases "fmlookup (entries s) i") (auto simp: bind_of_def)

lemma delay_not_before [simp]: "delay (e\<lparr>not_before := nb\<rparr>) l = delay e l"
  by (cases e) (auto simp: delay_def Let_def)

text \<open>What one pass over the due repositories dispatches.\<close>

lemma poll_due_props:
  assumes "poll_due h now l rids s w = (calls, s', w')" and dist: "distinct rids"
  shows "(\<forall>r ok. (r, ok) \<in> set calls \<longrightarrow> r \<in> set rids \<and> state (sgates s) (bind_of s r) now \<noteq> GateClosed) \<and>
    distinct (map fst calls) \<and>
    (\<forall>r r'. (r, True) \<in> set calls \<longrightarrow> (r', True) \<in> set calls \<longrightarrow> bind_of s r = bind_of s r' \<longrightarrow>
       gate_held (sgates s) (bind_of s r) \<longrightarrow> r = r')"
proof -
  obtain c1 half s1 w1 where o: "poll_open h now rids s w = (c1, half, s1, w1)" by (metis prod_cases4)
  obtain c2 s2 w2 where p: "poll_probe h now l (sort_key (failures_of s1) half) s1 w1 = (c2, s2, w2)"
    by (metis prod_cases3)
  have calls: "calls = c1 @ c2" using assms(1) o p by (simp add: poll_due_def)
  have po: "sgates s1 = sgates s" "bind_of s1 = bind_of s"
    "half = filter (\<lambda>r. state (sgates s) (bind_of s r) now = GateHalfOpen) rids"
    "map fst c1 = filter (\<lambda>r. state (sgates s) (bind_of s r) now = GateNone) rids"
    using poll_open_props [OF o] by simp_all
  have dh: "distinct (sort_key (failures_of s1) half)" using dist po(3) by simp
  note pp = poll_probe_props [OF p, unfolded po(1,2)]
  have in1: "r \<in> set rids \<and> state (sgates s) (bind_of s r) now = GateNone" if "(r, ok) \<in> set c1" for r ok
  proof -
    have "r \<in> set (map fst c1)" using that by force
    then show ?thesis unfolding po(4) by simp
  qed
  have in2: "r \<in> set rids \<and> state (sgates s) (bind_of s r) now = GateHalfOpen" if "(r, ok) \<in> set c2" for r ok
    using pp that po(3) by auto
  have "distinct (map fst c1)" using dist po(4) by simp
  moreover have "distinct (map fst c2)" using pp dh by simp
  moreover have "set (map fst c1) \<inter> set (map fst c2) = {}" using in1 in2 by fastforce
  ultimately have d: "distinct (map fst calls)" by (simp add: calls)
  have one: "r = r'" if "(r, True) \<in> set calls" "(r', True) \<in> set calls" "bind_of s r = bind_of s r'"
    "gate_held (sgates s) (bind_of s r)" for r r'
  proof -
    have "(i, True) \<in> set c2" if "(i, True) \<in> set calls" "gate_held (sgates s) (bind_of s i)" for i
      using that in1 [of i] by (auto simp: calls state_none_iff)
    with that have "(r, True) \<in> set c2" "(r', True) \<in> set c2" by simp_all
    with pp dh that(3) show ?thesis by blast
  qed
  show ?thesis using in1 in2 d one by (auto simp: calls)
qed

text \<open>A poll enqueues only repositories whose delay has elapsed and whose credential is not held back;
each at most once, and of the repositories sharing a gated credential at most one is accepted (the
probe).\<close>

theorem poll_respects_gates:
  assumes "poll h ctx_done s w = (calls, s', w')"
  shows "(\<forall>(r, ok) \<in> set calls. \<exists>e. fmlookup (entries s) r = Some e \<and>
      base e + delay e (h_limits h w) \<le> h_now h w \<and>
      state (sgates s) (key_bind (key e)) (h_now h w) \<noteq> GateClosed) \<and>
    distinct (map fst calls) \<and>
    (\<forall>r r'. (r, True) \<in> set calls \<longrightarrow> (r', True) \<in> set calls \<longrightarrow> bind_of s r = bind_of s r' \<longrightarrow>
       gate_held (sgates s) (bind_of s r) \<longrightarrow> r = r')"
proof (cases "ctx_done \<or> h_suspended h w")
  case True
  then show ?thesis using assms by (auto simp: poll_def split: if_splits)
next
  case run: False
  let ?now = "h_now h w" and ?l = "h_limits h w"
  obtain s0 w0 where s0: "poll_due h ?now ?l (due_ids s0 ?now ?l) s0 w0 = (calls, s', w')"
    and g: "sgates s0 = sgates s" and bs: "\<And>i. bind_of s0 i = bind_of s i"
    and en: "\<And>i. \<exists>nb. fmlookup (entries s0) i = map_option (\<lambda>e. e\<lparr>not_before := nb\<rparr>) (fmlookup (entries s) i)"
  proof (cases "was_suspended s")
    case True
    obtain s1 w1 where sp: "spread_due h ?now (min (effective_interval ?l) max_stagger) (due_ids s ?now ?l)
        (s\<lparr>was_suspended := False\<rparr>) w = (s1, w1)" by (metis surj_pair)
    show ?thesis
    proof (rule that [of s1 w1])
      show "poll_due h ?now ?l (due_ids s1 ?now ?l) s1 w1 = (calls, s', w')"
        using assms run True sp by (simp add: poll_def Let_def)
      show "sgates s1 = sgates s" using spread_due_props [OF sp] by simp
      show "bind_of s1 i = bind_of s i" for i using spread_due_bind [OF sp, of i] by (simp add: bind_of_def)
      show "\<exists>nb. fmlookup (entries s1) i = map_option (\<lambda>e. e\<lparr>not_before := nb\<rparr>) (fmlookup (entries s) i)" for i
        using spread_due_props [OF sp, of i] by simp
    qed
  next
    case False
    show ?thesis
    proof (rule that [of s w])
      show "poll_due h ?now ?l (due_ids s ?now ?l) s w = (calls, s', w')"
        using assms run False by (simp add: poll_def Let_def)
      show "\<exists>nb. fmlookup (entries s) i = map_option (\<lambda>e. e\<lparr>not_before := nb\<rparr>) (fmlookup (entries s) i)" for i
        by (cases "fmlookup (entries s) i") (auto intro: exI[of _ "not_before (the (fmlookup (entries s) i))"])
    qed simp_all
  qed
  note pd = poll_due_props [OF s0 distinct_due_ids, unfolded g bs]
  have "\<exists>e. fmlookup (entries s) r = Some e \<and> base e + delay e ?l \<le> ?now \<and>
      state (sgates s) (key_bind (key e)) ?now \<noteq> GateClosed" if c: "(r, ok) \<in> set calls" for r ok
  proof -
    have "r \<in> set (due_ids s0 ?now ?l)" and st: "state (sgates s) (bind_of s r) ?now \<noteq> GateClosed"
      using pd c by auto
    then obtain e0 where e0: "fmlookup (entries s0) r = Some e0" "due e0 ?l \<le> ?now" by (auto simp: set_due_ids)
    moreover obtain nb where "fmlookup (entries s0) r =
        map_option (\<lambda>e. e\<lparr>not_before := nb\<rparr>) (fmlookup (entries s) r)"
      using en [of r] by blast
    ultimately obtain e where e: "fmlookup (entries s) r = Some e" "e0 = e\<lparr>not_before := nb\<rparr>"
      by (cases "fmlookup (entries s) r") auto
    then have "base e + delay e ?l \<le> ?now" using due_base [OF e0(2)] by simp
    with e st show ?thesis by (simp add: bind_of_def)
  qed
  with pd show ?thesis by auto
qed

text \<open>A credential's gate is half open and both its repositories are due: only one of them probes.\<close>

definition example_half_open :: scheduler where
  "example_half_open = example_scheduler\<lparr>sgates := snd (arm example_binding 0 1 new_provider_gates)\<rparr>"

theorem poll_respects_gates_witness:
  "let calls = fst (poll example_hooks False example_half_open 3000000000000)
   in calls \<noteq> [] \<and> distinct (map fst calls)"
proof -
  obtain calls s' w' where p: "poll example_hooks False example_half_open 3000000000000 = (calls, s', w')"
    by (metis prod_cases3)
  have "distinct (map fst calls)" using poll_respects_gates [OF p] by simp
  moreover have "calls \<noteq> []"
  proof
    assume "calls = []"
    then have "fst (poll example_hooks False example_half_open 3000000000000) = []" using p by simp
    then show False
      by (simp add: poll_def example_hooks_def example_half_open_def example_scheduler_def due_ids_def
          due_def later_def delay_def example_entry_def fresh_entry_def new_scheduler_def Let_def
          effective_interval_def default_limits_def default_sync_interval_def max_stagger_def jitter_def
          zero_time_def poll_due_def state_def arm_def bind_of_def example_binding_def
          new_provider_gates_def begin_probe_def dispatch_def failures_of_def draw_def clamp_draw_def
          split: prod.splits)
  qed
  ultimately show ?thesis using p by simp
qed

subsection \<open>A dispatched repository is not due again at once\<close>

definition started_now :: "gtime \<Rightarrow> scheduler \<Rightarrow> repo_id \<Rightarrow> bool" where
  "started_now now s r \<longleftrightarrow>
     (\<exists>e. fmlookup (entries s) r = Some e \<and> base e = now \<and> 0 \<le> rnd e \<and> rnd e < 1)"

lemma dispatch_started_now:
  assumes d: "dispatch h rid now u s w = (ok, s1, w1)"
  shows "started_now now s r \<Longrightarrow> started_now now s1 r"
    and "ok \<Longrightarrow> fmlookup (entries s) rid \<noteq> None \<Longrightarrow> started_now now s1 rid"
    and "fmdom' (entries s1) = fmdom' (entries s)"
proof -
  show new: "started_now now s1 rid" if "ok" "fmlookup (entries s) rid \<noteq> None"
    using that d dispatch_started [of h rid now u s w s1 w1] by (fastforce simp: started_now_def)
  show "started_now now s r \<Longrightarrow> started_now now s1 r"
  proof (cases "ok \<and> r = rid")
    case True
    then show "started_now now s r \<Longrightarrow> started_now now s1 r"
      using new by (auto simp: started_now_def)
  next
    case False
    then show "started_now now s r \<Longrightarrow> started_now now s1 r"
      using dispatch_other [OF d False] by (simp add: started_now_def)
  qed
  show "fmdom' (entries s1) = fmdom' (entries s)"
    using d by (auto simp: dispatch_def split: prod.splits if_splits option.splits)
qed

lemma poll_open_started:
  "poll_open h now rids s w = (calls, half, s', w') \<Longrightarrow>
   (started_now now s r \<longrightarrow> started_now now s' r) \<and> fmdom' (entries s') = fmdom' (entries s) \<and>
   ((r, True) \<in> set calls \<longrightarrow> r \<in> fmdom' (entries s) \<longrightarrow> started_now now s' r)"
proof (induction rids arbitrary: s w calls half)
  case (Cons i rids)
  show ?case
  proof (cases "state (sgates s) (bind_of s i) now")
    case GateNone
    obtain ok s1 w1 where d: "dispatch h i now NoUndo s w = (ok, s1, w1)" by (metis prod_cases3)
    obtain c1 h1 s2 w2 where rec: "poll_open h now rids s1 w1 = (c1, h1, s2, w2)" by (metis prod_cases4)
    have eq: "calls = (i, ok) # c1" "half = h1" "s' = s2" "w' = w2"
      using Cons.prems GateNone d rec by simp_all
    show ?thesis
      using Cons.IH [of s1 w1 c1 h1] rec eq dispatch_started_now(1) [OF d, of r]
        dispatch_started_now(2,3) [OF d] by (auto simp: fmlookup_dom'_iff)
  next
    case GateClosed
    with Cons show ?thesis by simp
  next
    case GateHalfOpen
    obtain c1 h1 s2 w2 where rec: "poll_open h now rids s w = (c1, h1, s2, w2)" by (metis prod_cases4)
    have eq: "calls = c1" "half = i # h1" "s' = s2" "w' = w2"
      using Cons.prems GateHalfOpen rec by simp_all
    from Cons.IH [of s w c1 h1] rec eq show ?thesis by simp
  qed
qed simp

lemma poll_probe_started:
  "poll_probe h now l rids s w = (calls, s', w') \<Longrightarrow>
   (started_now now s r \<longrightarrow> started_now now s' r) \<and> fmdom' (entries s') = fmdom' (entries s) \<and>
   ((r, True) \<in> set calls \<longrightarrow> r \<in> fmdom' (entries s) \<longrightarrow> started_now now s' r)"
proof (induction rids arbitrary: s w calls)
  case (Cons i rids)
  show ?case
  proof (cases "state (sgates s) (bind_of s i) now = GateHalfOpen")
    case False
    with Cons show ?thesis by simp
  next
    case True
    obtain u g1 where bp: "begin_probe (bind_of s i) i now (effective_interval l) (sgates s) = (u, g1)"
      by (metis surj_pair)
    obtain ok s1 w1 where d: "dispatch h i now u (s\<lparr>sgates := g1\<rparr>) w = (ok, s1, w1)"
      by (metis prod_cases3)
    obtain c1 s2 w2 where rec: "poll_probe h now l rids s1 w1 = (c1, s2, w2)" by (metis prod_cases3)
    have eq: "calls = (i, ok) # c1" "s' = s2" "w' = w2"
      using Cons.prems True bp d rec by (simp_all add: Let_def)
    have keep: "started_now now (s\<lparr>sgates := g1\<rparr>) r = started_now now s r" by (simp add: started_now_def)
    show ?thesis
      using Cons.IH [of s1 w1 c1] rec eq dispatch_started_now(1) [OF d, of r] keep
        dispatch_started_now(2,3) [OF d] by (auto simp: fmlookup_dom'_iff)
  qed
qed simp

lemma poll_due_started:
  assumes "poll_due h now l rids s w = (calls, s', w')" and "(r, True) \<in> set calls"
    and "r \<in> fmdom' (entries s)"
  shows "started_now now s' r"
proof -
  obtain c1 half s1 w1 where o: "poll_open h now rids s w = (c1, half, s1, w1)" by (metis prod_cases4)
  obtain c2 s2 w2 where p: "poll_probe h now l (sort_key (failures_of s1) half) s1 w1 = (c2, s2, w2)"
    by (metis prod_cases3)
  show ?thesis
    using assms o p poll_open_started [OF o, of r] poll_probe_started [OF p, of r]
    by (auto simp: poll_due_def)
qed

lemma due_after_start:
  assumes "started_now now s r"
  shows "\<exists>e. fmlookup (entries s) r = Some e \<and>
    now + effective_interval l - effective_interval l div 10 \<le> due e l"
proof -
  obtain e where e: "fmlookup (entries s) r = Some e" "base e = now" "0 \<le> rnd e" "rnd e < 1"
    using assms by (auto simp: started_now_def)
  show ?thesis
    using e delay_lower [OF e(3,4), of l] by (auto simp: due_def later_def)
qed

text \<open>A repository whose sync the poll has just started is not due again before nine tenths of an interval
have passed, so the scheduler never starts it back to back.\<close>

theorem dispatched_not_due:
  assumes "poll h ctx_done s w = (calls, s', w')" and "(r, True) \<in> set calls"
  shows "\<exists>e. fmlookup (entries s') r = Some e \<and>
    h_now h w + effective_interval l - effective_interval l div 10 \<le> due e l"
proof -
  let ?now = "h_now h w" and ?l = "h_limits h w"
  have run: "\<not> ctx_done" "\<not> h_suspended h w" using assms by (auto simp: poll_def split: if_splits)
  have "started_now ?now s' r"
  proof (cases "was_suspended s")
    case True
    obtain s1 w1 where sp: "spread_due h ?now (min (effective_interval ?l) max_stagger) (due_ids s ?now ?l)
        (s\<lparr>was_suspended := False\<rparr>) w = (s1, w1)" by (metis surj_pair)
    have pd: "poll_due h ?now ?l (due_ids s1 ?now ?l) s1 w1 = (calls, s', w')"
      using assms(1) run True sp by (simp add: poll_def Let_def)
    with poll_due_props [OF pd distinct_due_ids] assms(2) have "r \<in> set (due_ids s1 ?now ?l)" by auto
    then show ?thesis using poll_due_started [OF pd assms(2)] by (auto simp: set_due_ids)
  next
    case False
    have pd: "poll_due h ?now ?l (due_ids s ?now ?l) s w = (calls, s', w')"
      using assms(1) run False by (simp add: poll_def Let_def)
    with poll_due_props [OF pd distinct_due_ids] assms(2) have "r \<in> set (due_ids s ?now ?l)" by auto
    then show ?thesis using poll_due_started [OF pd assms(2)] by (auto simp: set_due_ids)
  qed
  then show ?thesis by (rule due_after_start)
qed

text \<open>Both repositories of the example are polled once their interval has passed; each one that the manager
accepts is not due for at least another nine tenths of an interval.\<close>

theorem dispatched_not_due_witness:
  "\<exists>r e. fmlookup (entries (fst (snd (poll example_hooks False example_scheduler 3000000000000)))) r = Some e \<and>
     3000000000000 + effective_interval default_limits - effective_interval default_limits div 10
       \<le> due e default_limits"
proof -
  obtain calls s' w' where p: "poll example_hooks False example_scheduler 3000000000000 = (calls, s', w')"
    by (metis prod_cases3)
  have "(''a'', True) \<in> set (fst (poll example_hooks False example_scheduler 3000000000000))"
    by (simp add: poll_def example_hooks_def example_scheduler_def due_ids_def
          due_def later_def delay_def example_entry_def fresh_entry_def new_scheduler_def Let_def
          effective_interval_def default_limits_def default_sync_interval_def max_stagger_def jitter_def
          zero_time_def poll_due_def state_def example_binding_def bind_of_def
          new_provider_gates_def dispatch_def draw_def clamp_draw_def
          split: prod.splits)
  then have r: "(''a'', True) \<in> set calls" using p by simp
  have "h_now example_hooks 3000000000000 = 3000000000000" by (simp add: example_hooks_def)
  with dispatched_not_due [OF p r, of default_limits] p show ?thesis by auto
qed

end
