(* ===== verification/Engine.thy ===== *)
theory Engine
  imports RunRecords Scheduler
begin

text \<open>
  The connector's state under \<open>Client.mu\<close> and the operations on it: claiming and ending sync attempts
  (\<open>gitsync/attempts.go\<close>), replacing the providers (\<open>gitsync/providerswap.go\<close>), applying a
  configuration (\<open>gitsync/config.go\<close>), and starting, finishing and triggering syncs
  (\<open>gitsync/client.go\<close>). Each operation is one hold of the mutex, so any interleaving of goroutines is
  a sequence of these operations.

  An attempt's context is the flag \<open>at_cancelled\<close>; the goroutines, the status messages and the logs
  are not part of the state. The scheduler is the record of theory Scheduler; the manager is theory
  Manager.
\<close>

section \<open>State\<close>

record attempt =
  at_seq :: nat
  at_bind :: binding
  at_cancelled :: bool
  at_superseded :: bool

text \<open>The last origin check and when it was made (\<open>proto.OriginCheck\<close>).\<close>

record origin_check =
  oc_result :: string
  oc_checked_at :: string

record client =
  replica_host :: string
  cl_limits :: limits
  critical_patch :: bool
  config_accepted :: bool
  config_version :: "string option"
  config_err :: "(string option \<times> string) option"
  repos :: "(repo_id, repo_state) fmap"
  providers :: provider_set
  provider_gen :: nat
  provider_epoch :: nat
  attempts :: "(repo_id, attempt) fmap"
  cl_attempt_seq :: nat
  runs :: "(repo_id, run_record) fmap"
  sched :: scheduler
  origin_check :: "origin_check option"
  last_probe :: gtime
  probe_cancelled :: bool

text \<open>The hooks \<open>NewClient\<close> gives the scheduler; the world is the stream of the random draws.\<close>

type_synonym draws = "nat \<Rightarrow> go_float"

definition schedulable_targets :: "client \<Rightarrow> (repo_id, target_key) fmap" where
  "schedulable_targets c =
     fmmap (\<lambda>r. \<lparr>key_canonical_url = rs_canonical_url r, key_replica_url = rs_replica_url r, key_bind = rs_bind r\<rparr>)
       (fmfilter (\<lambda>rid. case fmlookup (repos c) rid of None \<Rightarrow> False | Some r \<Rightarrow> can_sync r) (repos c))"

definition client_hooks :: "client \<Rightarrow> gtime \<Rightarrow> draws sched_hooks" where
  "client_hooks c now =
     \<lparr>h_repos = (\<lambda>_. schedulable_targets c), h_enqueue = (\<lambda>_ w. (False, w)),
      h_suspended = (\<lambda>_. critical_patch c), h_limits = (\<lambda>_. cl_limits c), h_now = (\<lambda>_. now),
      h_rand = (\<lambda>w. (w 0, \<lambda>n. w (Suc n)))\<rparr>"

section \<open>Claiming and ending attempts\<close>

definition syncable :: "repo_id \<Rightarrow> client \<Rightarrow> bool" where
  "syncable rid c = (case fmlookup (repos c) rid of None \<Rightarrow> False | Some r \<Rightarrow> can_sync r)"

definition task_of :: "repo_id \<Rightarrow> repo_state \<Rightarrow> provider_entry \<Rightarrow> nat \<Rightarrow> sync_task" where
  "task_of rid r pe n =
     \<lparr>task_repo = rid, canonical_url = rs_canonical_url r, origin = pe_entry pe,
      replica_url = rs_replica_url r, push_token = rs_push_token r, token_expires_at = rs_expires_at r,
      task_bind = rs_bind r, attempt_seq = n\<rparr>"

definition claim_task :: "go_lib \<Rightarrow> gtime \<Rightarrow> repo_id \<Rightarrow> client \<Rightarrow> sync_task option \<times> client" where
  "claim_task lib now rid c =
     (case fmlookup (repos c) rid of
        None \<Rightarrow> (None, c)
      | Some r \<Rightarrow>
          if \<not> rs_matched r \<or> rs_replica_url r = [] then (None, c)
          else if snd (check_replica_url lib (rs_replica_url r) (replica_host c)) \<noteq> ReplicaOK then (None, c)
          else (case fmlookup (by_name (providers c)) (rs_provider r) of
              None \<Rightarrow> (None, c)
            | Some pe \<Rightarrow>
                if pe_gen pe \<noteq> generation (rs_bind r) then (None, c)
                else
                  (let n = cl_attempt_seq c + 1; c1 = c\<lparr>cl_attempt_seq := n\<rparr>
                   in if fmlookup (attempts c1) rid \<noteq> None then (None, c1)
                      else (case may_claim (client_hooks c1 now) rid (rs_bind r) (sched c1) (\<lambda>_. Fin 0) of
                          (ok, s1) \<Rightarrow>
                            if \<not> ok then (None, c1\<lparr>sched := s1\<rparr>)
                            else (Some (task_of rid r pe n),
                              c1\<lparr>attempts := fmupd rid \<lparr>at_seq = n, at_bind = rs_bind r, at_cancelled = False,
                                                         at_superseded = False\<rparr> (attempts c1),
                                 sched := s1\<rparr>)))))"

text \<open>\<open>endAttemptLocked\<close>: whether the attempt was superseded and whether the finisher is stale.\<close>

definition end_attempt :: "repo_id \<Rightarrow> nat \<Rightarrow> client \<Rightarrow> (bool \<times> bool) \<times> client" where
  "end_attempt rid n c =
     (case fmlookup (attempts c) rid of
        None \<Rightarrow> ((False, False), c)
      | Some a \<Rightarrow>
          if at_seq a \<noteq> n then ((False, True), c)
          else ((at_superseded a, False), c\<lparr>attempts := fmdrop rid (attempts c)\<rparr>))"

section \<open>Starting and finishing a sync\<close>

definition target_matches :: "repo_state \<Rightarrow> sync_task \<Rightarrow> bool" where
  "target_matches r t \<longleftrightarrow> rs_origin_url r = canonical_url t \<and> rs_replica_url r = replica_url t"

definition set_syncing :: "repo_id \<Rightarrow> bool \<Rightarrow> client \<Rightarrow> client" where
  "set_syncing rid syncing c =
     (case fmlookup (repos c) rid of
        None \<Rightarrow> c
      | Some r \<Rightarrow>
          (let r1 = r\<lparr>rs_syncing := syncing\<rparr>;
               r2 = (if \<not> syncing then r1\<lparr>rs_attempt_started_at := zero_time\<rparr> else r1)
           in c\<lparr>repos := fmupd rid r2 (repos c)\<rparr>))"

definition begin_sync :: "repo_id \<Rightarrow> client \<Rightarrow> client" where
  "begin_sync rid c = set_syncing rid True c"

definition release_sync :: "repo_id \<Rightarrow> client \<Rightarrow> client" where
  "release_sync rid c = set_syncing rid False (c\<lparr>sched := release_pass rid (sched c)\<rparr>)"

definition start_attempt :: "repo_id \<Rightarrow> sync_task \<Rightarrow> gtime \<Rightarrow> client \<Rightarrow> client" where
  "start_attempt rid t at_time c =
     (case fmlookup (repos c) rid of
        None \<Rightarrow> c
      | Some r \<Rightarrow>
          if target_matches r t \<and> rs_bind r = task_bind t
          then c\<lparr>repos := fmupd rid (r\<lparr>rs_attempt_started_at := at_time\<rparr>) (repos c)\<rparr> else c)"

definition finish_sync ::
  "repo_id \<Rightarrow> sync_task \<Rightarrow> sync_result \<Rightarrow> gtime \<Rightarrow> client \<Rightarrow> bool \<times> client" where
  "finish_sync rid t res now c =
     (case end_attempt rid (attempt_seq t) c of
        ((superseded, stale), c1) \<Rightarrow>
          if stale then (False, c1)
          else (case fmlookup (repos c1) rid of
              None \<Rightarrow> (False, c1)
            | Some r \<Rightarrow>
                if \<not> target_matches r t then (False, c1)
                else
                  (let r1 = r\<lparr>rs_syncing := False, rs_attempt_started_at := zero_time\<rparr>
                   in if superseded \<or> rs_bind r \<noteq> task_bind t
                      then (False, c1\<lparr>repos := fmupd rid r1 (repos c1)\<rparr>)
                      else if res_state res = StatePending
                      then (False, c1\<lparr>repos := fmupd rid r1 (repos c1)\<rparr>)
                      else
                        (let res1 = (if res_state res = StateOK \<and> warnings_undecided res \<and>
                                        res_state (rs_result r) = StateOK
                                     then res\<lparr>warnings := warnings (rs_result r)\<rparr> else res)
                         in (True, c1\<lparr>repos := fmupd rid (r1\<lparr>rs_result := res1\<rparr>) (repos c1),
                                     runs := fmupd rid (record_attempt now (fm_or (runs c1) rid no_record)
                                                          (rs_target r) res1) (runs c1)\<rparr>)))))"

definition finish_and_reschedule ::
  "repo_id \<Rightarrow> sync_task \<Rightarrow> sync_result \<Rightarrow> gtime \<Rightarrow> draws \<Rightarrow> client \<Rightarrow> bool \<times> client" where
  "finish_and_reschedule rid t res now w c =
     (case finish_sync rid t res now c of
        (kept, c1) \<Rightarrow>
          (kept, if kept then c1\<lparr>sched := fst (completed (client_hooks c1 now) rid t res (sched c1) w)\<rparr> else c1))"

section \<open>Replacing the providers\<close>

text \<open>
  The critical section of \<open>setProviders\<close>, and the repositories it then starts and the attempts it
  then waits for; None when the configuration is the one already in force.
\<close>

definition in_force :: "provider_set \<Rightarrow> binding \<Rightarrow> bool" where
  "in_force ps b = (case fmlookup (by_name ps) (provider b) of None \<Rightarrow> False | Some pe \<Rightarrow> pe_gen pe = generation b)"

definition supersede :: "provider_set \<Rightarrow> attempt \<Rightarrow> attempt" where
  "supersede ps a = (if in_force ps (at_bind a) then a else a\<lparr>at_superseded := True, at_cancelled := True\<rparr>)"

definition set_providers ::
  "go_lib \<Rightarrow> (string \<times> local_entry) list option \<Rightarrow> client \<Rightarrow> (repo_id list \<times> repo_id list) option \<times> client" where
  "set_providers lib st c =
     (case build_provider_set lib st (providers c) (provider_gen c) of
        (put, g) \<Rightarrow>
          if providers_equal put (providers c) then (None, c\<lparr>provider_gen := g\<rparr>)
          else
            (let repos1 = fmmap (\<lambda>r. bind_repo r put) (repos c);
                 resync = filter (\<lambda>rid. case fmlookup (repos c) rid of
                     None \<Rightarrow> False
                   | Some r \<Rightarrow>
                       (let nr = bind_repo r put; queued = rs_syncing r \<and> fmlookup (attempts c) rid = None
                        in rs_matched nr \<and> rs_bind nr \<noteq> rs_bind r \<and> \<not> queued)) (sorted_keys (repos c));
                 stopped = filter (\<lambda>rid. case fmlookup (attempts c) rid of
                     None \<Rightarrow> False | Some a \<Rightarrow> \<not> in_force put (at_bind a)) (sorted_keys (attempts c))
             in (Some (resync, stopped),
                 c\<lparr>providers := put, provider_gen := g, provider_epoch := provider_epoch c + 1,
                   repos := repos1, attempts := fmmap (supersede put) (attempts c),
                   origin_check := None, last_probe := 0, probe_cancelled := True\<rparr>)))"

section \<open>Applying a configuration\<close>

record repo_config =
  rc_repo_id :: string
  rc_origin_url :: string
  rc_replica_push_url :: string
  rc_push_token :: string
  rc_expires_at :: string

record config_msg =
  cm_version :: "string option"
  cm_repos :: "repo_config list option"
  cm_schedule :: "wire_schedule option"
  cm_limits :: "wire_limits option"

text \<open>
  The two decodings of a \<open>git_sync_config\<close>: its version alone, and the whole message (None when it
  does not decode).
\<close>

record config_wire =
  cw_version :: "string option"
  cw_msg :: "config_msg option"

definition max_config_repos :: nat where
  "max_config_repos = 4096"

definition max_config_version_size :: nat where
  "max_config_version_size = 256"

text \<open>\<open>bytes.TrimSpace\<close> of valid JSON, whose leading white space is ASCII.\<close>

definition json_space :: "char \<Rightarrow> bool" where
  "json_space c \<longleftrightarrow> byte c \<in> {9, 10, 11, 12, 13, 32}"

definition is_scalar_json :: "go_lib \<Rightarrow> string \<Rightarrow> bool" where
  "is_scalar_json lib b \<longleftrightarrow>
     json_valid lib b \<and>
     (case dropWhile json_space b of [] \<Rightarrow> False | c # _ \<Rightarrow> c \<noteq> CHR ''{'' \<and> c \<noteq> CHR ''['')"

definition version_ok :: "go_lib \<Rightarrow> string \<Rightarrow> bool" where
  "version_ok lib v \<longleftrightarrow> length v \<le> max_config_version_size \<and> is_scalar_json lib v"

definition reject_config :: "go_lib \<Rightarrow> string option \<Rightarrow> string \<Rightarrow> client \<Rightarrow> client" where
  "reject_config lib version reason c =
     c\<lparr>config_err := Some (case version of None \<Rightarrow> None | Some v \<Rightarrow> if version_ok lib v then Some v else None, reason)\<rparr>"

text \<open>The state a repository entry becomes, before it is bound.\<close>

definition configured :: "go_lib \<Rightarrow> string \<times> replica_verdict \<Rightarrow> repo_config \<Rightarrow> repo_state" where
  "configured lib chk r =
     (let (origin_url, host_key) =
            (case canonical_remote_url lib (rc_origin_url r) of Inl _ \<Rightarrow> ([], []) | Inr (hk, full) \<Rightarrow> (full, hk));
          usable = (snd chk = ReplicaOK \<and> valid_push_token (rc_push_token r))
      in \<lparr>rs_repo_id = rc_repo_id r, rs_expires_at = rc_expires_at r, rs_origin_url = origin_url,
          rs_origin_host_key = host_key, rs_target = target_fingerprint lib origin_url (fst chk),
          rs_replica_usable = usable, rs_replica_url = (if usable then fst chk else []),
          rs_push_token = (if usable then rc_push_token r else []),
          rs_bind = unbound, rs_provider = [], rs_canonical_url = [], rs_matched = False,
          rs_result = no_result, rs_syncing = False, rs_attempt_started_at = zero_time\<rparr>)"

fun build_repos ::
  "go_lib \<Rightarrow> ((string \<times> replica_verdict) \<times> repo_config) list \<Rightarrow> (repo_id, repo_state) fmap \<Rightarrow>
   string + (repo_id, repo_state) fmap" where
  "build_repos lib [] next = Inr next"
| "build_repos lib ((chk, r) # rs) next =
     (if \<not> valid_repo_id (rc_repo_id r) then Inl ''invalid_repo_id''
      else if fmlookup next (rc_repo_id r) \<noteq> None then Inl ''duplicate_repo_id''
      else build_repos lib rs (fmupd (rc_repo_id r) (configured lib chk r) next))"

text \<open>Everything that can reject a message, in the order of the code.\<close>

definition check_config ::
  "go_lib \<Rightarrow> string \<Rightarrow> config_wire \<Rightarrow>
   string + (config_msg \<times> limits \<times> (repo_id, repo_state) fmap)" where
  "check_config lib pin wire =
     (if pin = [] then Inl ''replica_host_not_pinned''
      else (case cw_msg wire of
          None \<Rightarrow> Inl ''malformed_message''
        | Some msg \<Rightarrow>
            (case cm_repos msg of
               None \<Rightarrow> Inl ''malformed_message''
             | Some rs \<Rightarrow>
                 if max_config_repos < length rs then Inl ''too_many_repositories''
                 else
                   (let chks = map (\<lambda>r. check_replica_url lib (rc_replica_push_url r) pin) rs
                    in if list_ex (\<lambda>chk. snd chk = ReplicaMismatch) chks then Inl ''replica_host_mismatch''
                       else if (case cm_version msg of None \<Rightarrow> False | Some v \<Rightarrow> \<not> version_ok lib v)
                       then Inl ''invalid_config_version''
                       else (case resolve_limits (cm_schedule msg) (cm_limits msg) of
                           Inl _ \<Rightarrow> Inl ''limits_out_of_range''
                         | Inr l \<Rightarrow>
                             (case build_repos lib (zip chks rs) fmempty of
                                Inl reason \<Rightarrow> Inl reason
                              | Inr next \<Rightarrow> Inr (msg, l, next)))))))"

text \<open>A repository of the new configuration, bound and with what carries over from the old one.\<close>

definition install_repo :: "client \<Rightarrow> repo_id \<Rightarrow> repo_state \<Rightarrow> repo_state" where
  "install_repo c rid st0 =
     (let st = bind_repo st0 (providers c)
      in case fmlookup (repos c) rid of
           None \<Rightarrow> st
         | Some old \<Rightarrow>
             if same_sync_identity old st
             then (let st1 = (if res_state (rs_result st) = StateNone then st\<lparr>rs_result := rs_result old\<rparr> else st)
                   in st1\<lparr>rs_syncing := rs_syncing old, rs_attempt_started_at := rs_attempt_started_at old\<rparr>)
             else st)"

definition reconcile_runs ::
  "(repo_id, repo_state) fmap \<Rightarrow> (repo_id, run_record) fmap \<Rightarrow> (repo_id, run_record) fmap" where
  "reconcile_runs next rs =
     fmfilter (\<lambda>rid.
       case fmlookup rs rid of
         None \<Rightarrow> False
       | Some rec \<Rightarrow>
           \<not> ((next \<noteq> fmempty \<and> fmlookup next rid = None) \<or>
              (case fmlookup next rid of None \<Rightarrow> False | Some st \<Rightarrow> rr_target rec \<noteq> rs_target st))) rs"

definition install_config ::
  "config_msg \<Rightarrow> limits \<Rightarrow> (repo_id, repo_state) fmap \<Rightarrow> client \<Rightarrow> client" where
  "install_config msg l next0 c =
     (let next = fmmap_keys (install_repo c) next0
      in c\<lparr>repos := next, config_version := cm_version msg, config_accepted := True, config_err := None,
           cl_limits := l,
           runs := reconcile_runs next (runs c)\<rparr>)"

text \<open>
  None when the message is rejected; otherwise the concurrency \<open>mgr.resize\<close> is called with (the
  manager's pool is not part of this state; see theory Manager).
\<close>

definition apply_config :: "go_lib \<Rightarrow> config_wire \<Rightarrow> client \<Rightarrow> int option \<times> client" where
  "apply_config lib wire c =
     (case check_config lib (replica_host c) wire of
        Inl reason \<Rightarrow> (None, reject_config lib (cw_version wire) reason c)
      | Inr (msg, l, next) \<Rightarrow> (Some (max_concurrency l), install_config msg l next c))"

section \<open>Triggers\<close>

definition syncable_repos :: "client \<Rightarrow> repo_id list" where
  "syncable_repos c = filter (\<lambda>rid. syncable rid c) (sorted_keys (repos c))"

definition sync_targets :: "repo_id \<Rightarrow> client \<Rightarrow> repo_id list" where
  "sync_targets rid c =
     (let all = syncable_repos c
      in if rid = [] then all else if rid \<in> set all then [rid] else [])"

definition handle_sync_now :: "gtime \<Rightarrow> repo_id \<Rightarrow> client \<Rightarrow> repo_id list \<times> client" where
  "handle_sync_now now rid c =
     (if critical_patch c then ([], c)
      else
        (let targets = sync_targets rid c
         in if rid \<noteq> [] \<and> targets = [] then ([], c)
            else if rid = [] then (targets, c)
            else (case sched_admit_manual (client_hooks c now) rid (sched c) (\<lambda>_. Fin 0) of
                (ok, s1) \<Rightarrow> (if ok then targets else [], c\<lparr>sched := s1\<rparr>))))"

definition sched_reconcile :: "gtime \<Rightarrow> draws \<Rightarrow> client \<Rightarrow> client" where
  "sched_reconcile now w c = c\<lparr>sched := fst (reconcile (client_hooks c now) (sched c) w)\<rparr>"

text \<open>\<open>NewClient\<close>: the pin and the providers of the startup configuration.\<close>

definition new_client ::
  "go_lib \<Rightarrow> string \<Rightarrow> (string \<times> local_entry) list option \<Rightarrow> (repo_id, run_record) fmap \<Rightarrow> client" where
  "new_client lib raw_pin st loaded =
     (case build_provider_set lib st empty_providers 0 of
        (put, g) \<Rightarrow>
          \<lparr>replica_host = pin_replica_host lib raw_pin, cl_limits = default_limits, critical_patch = False,
           config_accepted = False, config_version = None, config_err = None, repos = fmempty,
           providers = put, provider_gen = g, provider_epoch = 0, attempts = fmempty, cl_attempt_seq = 0,
           runs = loaded, sched = new_scheduler,
           origin_check = None, last_probe = 0, probe_cancelled = False\<rparr>)"

end
