(* ===== verification/EngineSafety.thy ===== *)
theory EngineSafety
  imports Engine
begin

text \<open>
  The connector as a state machine: any sequence of the operations of theory Engine, with the set of
  the sync tasks that have been claimed and not finished. The invariant ties every running task to
  its registration and its credential to the providers in force.
\<close>

section \<open>The state machine\<close>

record engine =
  eng :: client
  running :: "sync_task set"

datatype engine_event =
    EClaim repo_id gtime
  | EStart sync_task gtime
  | EFinish sync_task sync_result gtime draws
  | EProviders "(string \<times> local_entry) list option"
  | EConfig config_wire
  | EBegin repo_id
  | ERelease repo_id
  | ESyncNow repo_id gtime
  | EReconcile gtime draws
  | EPatch bool
  | ESched scheduler

text \<open>
  \<open>ESched\<close> is any other operation of the scheduler (its poll). A store lists each provider once; a
  task is started and finished only while it runs.
\<close>

fun engine_step :: "go_lib \<Rightarrow> engine \<Rightarrow> engine_event \<Rightarrow> engine" where
  "engine_step lib s (EClaim rid now) =
     (case claim_task lib now rid (eng s) of
        (None, c) \<Rightarrow> s\<lparr>eng := c\<rparr>
      | (Some t, c) \<Rightarrow> s\<lparr>eng := c, running := insert t (running s)\<rparr>)"
| "engine_step lib s (EStart t at_time) =
     (if t \<in> running s then s\<lparr>eng := start_attempt (task_repo t) t at_time (eng s)\<rparr> else s)"
| "engine_step lib s (EFinish t res now w) =
     (if t \<in> running s
      then s\<lparr>eng := snd (finish_and_reschedule (task_repo t) t res now w (eng s)), running := running s - {t}\<rparr>
      else s)"
| "engine_step lib s (EProviders st) =
     (if case st of None \<Rightarrow> True | Some es \<Rightarrow> distinct (map fst es)
      then s\<lparr>eng := snd (set_providers lib st (eng s))\<rparr> else s)"
| "engine_step lib s (EConfig wire) = s\<lparr>eng := snd (apply_config lib wire (eng s))\<rparr>"
| "engine_step lib s (EBegin rid) = s\<lparr>eng := begin_sync rid (eng s)\<rparr>"
| "engine_step lib s (ERelease rid) = s\<lparr>eng := release_sync rid (eng s)\<rparr>"
| "engine_step lib s (ESyncNow rid now) = s\<lparr>eng := snd (handle_sync_now now rid (eng s))\<rparr>"
| "engine_step lib s (EReconcile now w) = s\<lparr>eng := sched_reconcile now w (eng s)\<rparr>"
| "engine_step lib s (EPatch b) = s\<lparr>eng := (eng s)\<lparr>critical_patch := b\<rparr>\<rparr>"
| "engine_step lib s (ESched sc) = s\<lparr>eng := (eng s)\<lparr>sched := sc\<rparr>\<rparr>"

definition init_engine ::
  "go_lib \<Rightarrow> string \<Rightarrow> (string \<times> local_entry) list option \<Rightarrow> (repo_id, run_record) fmap \<Rightarrow> engine" where
  "init_engine lib raw_pin st loaded =
     \<lparr>eng = new_client lib raw_pin
        (case st of None \<Rightarrow> None | Some es \<Rightarrow> if distinct (map fst es) then st else None) loaded,
      running = {}\<rparr>"

definition engine_after ::
  "go_lib \<Rightarrow> string \<Rightarrow> (string \<times> local_entry) list option \<Rightarrow> (repo_id, run_record) fmap \<Rightarrow> engine_event list \<Rightarrow> engine" where
  "engine_after lib raw_pin st loaded es = run (engine_step lib) (init_engine lib raw_pin st loaded) es"

section \<open>The invariant\<close>

definition conf_ok :: "go_lib \<Rightarrow> string \<Rightarrow> repo_state \<Rightarrow> bool" where
  "conf_ok lib pin r \<longleftrightarrow>
     (rs_origin_host_key r = [] \<or>
      (\<exists>raw. canonical_remote_url lib raw = Inr (rs_origin_host_key r, rs_origin_url r))) \<and>
     (if rs_replica_usable r
      then valid_push_token (rs_push_token r) \<and>
           (\<exists>raw. check_replica_url lib raw pin = (rs_replica_url r, ReplicaOK))
      else rs_replica_url r = [] \<and> rs_push_token r = [])"

definition repo_ok :: "go_lib \<Rightarrow> provider_set \<Rightarrow> string \<Rightarrow> repo_state \<Rightarrow> bool" where
  "repo_ok lib ps pin r \<longleftrightarrow> bound_to ps r \<and> conf_ok lib pin r"

text \<open>The credential a task holds is the one now configured for its provider, and for the host it dials.\<close>

definition credential_current :: "go_lib \<Rightarrow> provider_set \<Rightarrow> sync_task \<Rightarrow> bool" where
  "credential_current lib ps t \<longleftrightarrow>
     (\<exists>pe raw. fmlookup (by_name ps) (provider (task_bind t)) = Some pe \<and>
        pe_gen pe = generation (task_bind t) \<and> same_credential (pe_entry pe) (origin t) \<and>
        canonical_remote_url lib raw = Inr (pe_host_key pe, canonical_url t))"

definition task_ok :: "go_lib \<Rightarrow> client \<Rightarrow> sync_task \<Rightarrow> bool" where
  "task_ok lib c t \<longleftrightarrow>
     (\<exists>a. fmlookup (attempts c) (task_repo t) = Some a \<and> at_seq a = attempt_seq t \<and>
        at_bind a = task_bind t \<and> (at_superseded a \<or> credential_current lib (providers c) t)) \<and>
     (\<exists>raw. check_replica_url lib raw (replica_host c) = (replica_url t, ReplicaOK))"

definition attempt_ok :: "client \<Rightarrow> attempt \<Rightarrow> bool" where
  "attempt_ok c a \<longleftrightarrow> at_seq a \<le> cl_attempt_seq c \<and> at_cancelled a = at_superseded a \<and>
     (in_force (providers c) (at_bind a) \<or> at_superseded a)"

definition engine_inv :: "go_lib \<Rightarrow> engine \<Rightarrow> bool" where
  "engine_inv lib s \<longleftrightarrow>
     provs_ok lib (providers (eng s)) (provider_gen (eng s)) \<and>
     fmpred (\<lambda>_. repo_ok lib (providers (eng s)) (replica_host (eng s))) (repos (eng s)) \<and>
     fmpred (\<lambda>_. attempt_ok (eng s)) (attempts (eng s)) \<and>
     (\<forall>t\<in>running s. task_ok lib (eng s) t) \<and>
     inj_on task_repo (running s) \<and>
     task_repo ` running s = fmdom' (attempts (eng s))"

text \<open>The part of a client the invariant reads besides its repositories.\<close>

definition same_core :: "client \<Rightarrow> client \<Rightarrow> bool" where
  "same_core c d \<longleftrightarrow> providers c = providers d \<and> provider_gen c = provider_gen d \<and>
     replica_host c = replica_host d \<and> attempts c = attempts d \<and> cl_attempt_seq c = cl_attempt_seq d"

lemma engine_inv_core:
  assumes "engine_inv lib s" and "same_core c (eng s)"
    and "fmpred (\<lambda>_. repo_ok lib (providers (eng s)) (replica_host (eng s))) (repos c)"
  shows "engine_inv lib (s\<lparr>eng := c\<rparr>)"
  using assms by (simp add: engine_inv_def same_core_def task_ok_def [abs_def] attempt_ok_def [abs_def])

lemma repo_ok_update [simp]:
  "repo_ok lib ps pin (r\<lparr>rs_syncing := b\<rparr>) = repo_ok lib ps pin r"
  "repo_ok lib ps pin (r\<lparr>rs_attempt_started_at := t\<rparr>) = repo_ok lib ps pin r"
  "repo_ok lib ps pin (r\<lparr>rs_result := res\<rparr>) = repo_ok lib ps pin r"
  by (simp_all add: repo_ok_def conf_ok_def)

lemma conf_ok_bind [simp]: "conf_ok lib pin (bind_repo r ps) = conf_ok lib pin r"
  by (simp add: conf_ok_def)

lemma repo_ok_bind: "conf_ok lib pin r \<Longrightarrow> repo_ok lib ps pin (bind_repo r ps)"
  using bind_repo_bound [of ps r] by (simp add: repo_ok_def)

lemma fmpred_look: "fmpred P m \<Longrightarrow> fmlookup m k = Some v \<Longrightarrow> P k v"
  by (rule fmpredD)

section \<open>Every operation keeps it\<close>

lemma repos_ok:
  "engine_inv lib s \<Longrightarrow> fmpred (\<lambda>_. repo_ok lib (providers (eng s)) (replica_host (eng s))) (repos (eng s))"
  by (simp add: engine_inv_def)

lemma repos_ok_look:
  "engine_inv lib s \<Longrightarrow> fmlookup (repos (eng s)) rid = Some r \<Longrightarrow>
   repo_ok lib (providers (eng s)) (replica_host (eng s)) r"
  using fmpredD [OF repos_ok] by blast

lemma attempts_ok_look:
  "engine_inv lib s \<Longrightarrow> fmlookup (attempts (eng s)) rid = Some a \<Longrightarrow> attempt_ok (eng s) a"
  unfolding engine_inv_def by (elim conjE) (rule fmpredD)

lemma inv_repo_upd:
  assumes inv: "engine_inv lib s" and "repo_ok lib (providers (eng s)) (replica_host (eng s)) r"
  shows "engine_inv lib (s\<lparr>eng := (eng s)\<lparr>repos := fmupd rid r (repos (eng s))\<rparr>\<rparr>)"
  by (rule engine_inv_core [OF inv]) (use assms(2) repos_ok [OF inv] in \<open>simp_all add: same_core_def fmpred_upd\<close>)

lemma inv_set_syncing:
  assumes inv: "engine_inv lib s"
  shows "engine_inv lib (s\<lparr>eng := set_syncing rid b (eng s)\<rparr>)"
proof (cases "fmlookup (repos (eng s)) rid")
  case None
  with inv show ?thesis by (simp add: set_syncing_def)
next
  case (Some r)
  then show ?thesis
    using inv_repo_upd [OF inv] repos_ok_look [OF inv Some] by (simp add: set_syncing_def Let_def)
qed

lemma inv_sched:
  assumes "engine_inv lib s"
  shows "engine_inv lib (s\<lparr>eng := (eng s)\<lparr>sched := sc\<rparr>\<rparr>)"
  by (rule engine_inv_core [OF assms]) (use assms in \<open>simp_all add: same_core_def engine_inv_def\<close>)

lemma inv_patch:
  assumes "engine_inv lib s"
  shows "engine_inv lib (s\<lparr>eng := (eng s)\<lparr>critical_patch := b\<rparr>\<rparr>)"
  by (rule engine_inv_core [OF assms]) (use assms in \<open>simp_all add: same_core_def engine_inv_def\<close>)

lemma inv_release:
  assumes "engine_inv lib s"
  shows "engine_inv lib (s\<lparr>eng := release_sync rid (eng s)\<rparr>)"
  using inv_set_syncing [OF inv_sched [OF assms, of "release_pass rid (sched (eng s))"], of rid False]
  by (simp add: release_sync_def)

lemma inv_start:
  assumes inv: "engine_inv lib s"
  shows "engine_inv lib (s\<lparr>eng := start_attempt rid t u (eng s)\<rparr>)"
proof (cases "fmlookup (repos (eng s)) rid")
  case None
  with inv show ?thesis by (simp add: start_attempt_def)
next
  case (Some r)
  then show ?thesis
    using inv inv_repo_upd [OF inv] repos_ok_look [OF inv Some] by (simp add: start_attempt_def)
qed

lemma handle_sync_now_core:
  "\<exists>sc. snd (handle_sync_now now rid c) = c\<lparr>sched := sc\<rparr>"
proof -
  obtain ok s1 where "sched_admit_manual (client_hooks c now) rid (sched c) (\<lambda>_. Fin 0) = (ok, s1)"
    by (metis surj_pair)
  then have "snd (handle_sync_now now rid c) \<in> {c, c\<lparr>sched := s1\<rparr>}"
    unfolding handle_sync_now_def Let_def by simp
  then consider "snd (handle_sync_now now rid c) = c\<lparr>sched := sched c\<rparr>" | "snd (handle_sync_now now rid c) = c\<lparr>sched := s1\<rparr>"
    by auto
  then show ?thesis by cases blast+
qed

lemma inv_sync_now:
  assumes "engine_inv lib s"
  shows "engine_inv lib (s\<lparr>eng := snd (handle_sync_now now rid (eng s))\<rparr>)"
  using handle_sync_now_core [of now rid "eng s"] inv_sched [OF assms] by fastforce

lemma inv_reconcile:
  "engine_inv lib s \<Longrightarrow> engine_inv lib (s\<lparr>eng := sched_reconcile now w (eng s)\<rparr>)"
  unfolding sched_reconcile_def by (rule inv_sched)

subsection \<open>A configuration\<close>

lemma conf_ok_configured: "conf_ok lib pin (configured lib (check_replica_url lib u pin) r)"
proof -
  obtain full v where chk: "check_replica_url lib u pin = (full, v)" by (metis surj_pair)
  show ?thesis
    using chk by (cases "canonical_remote_url lib (rc_origin_url r)")
      (auto simp: conf_ok_def configured_def Let_def)
qed

lemma build_repos_ok:
  "build_repos lib crs next = Inr m \<Longrightarrow>
   list_all (\<lambda>(chk, r). chk = check_replica_url lib (rc_replica_push_url r) pin) crs \<Longrightarrow>
   fmpred (\<lambda>_. conf_ok lib pin) next \<Longrightarrow> fmpred (\<lambda>_. conf_ok lib pin) m"
proof (induction lib crs "next" rule: build_repos.induct)
  case (2 lib chk r rs "next")
  then show ?case
    by (auto split: if_splits intro!: fmpred_upd conf_ok_configured)
qed simp

lemma fmdom'_map_keys [simp]: "fmdom' (fmmap_keys f m) = fmdom' m"
  by (auto simp: fmlookup_dom'_iff)

lemma build_repos_dom:
  "build_repos lib crs next = Inr m \<Longrightarrow>
   fmdom' m = fmdom' next \<union> (rc_repo_id \<circ> snd) ` set crs \<and> list_all (\<lambda>x. valid_repo_id (rc_repo_id (snd x))) crs \<and>
   distinct (map (rc_repo_id \<circ> snd) crs) \<and> fmdom' next \<inter> (rc_repo_id \<circ> snd) ` set crs = {}"
proof (induction lib crs "next" rule: build_repos.induct)
  case (2 lib chk r rs "next")
  then show ?case
    by (auto split: if_splits simp: fmdom'_notI)
qed simp

lemma build_repos_ids:
  assumes "build_repos lib (zip (map f rs) rs) fmempty = Inr m"
  shows "fmdom' m = rc_repo_id ` set rs \<and> list_all (\<lambda>r. valid_repo_id (rc_repo_id r)) rs \<and>
    distinct (map rc_repo_id rs)"
proof -
  have "(rc_repo_id \<circ> snd) ` set (zip (map f rs) rs) = rc_repo_id ` snd ` set (zip (map f rs) rs)"
    by (simp add: image_comp)
  moreover have "snd ` set (zip (map f rs) rs) = set rs" by (metis length_map map_snd_zip set_map)
  moreover have "map (rc_repo_id \<circ> snd) (zip (map f rs) rs) = map rc_repo_id rs"
    by (metis length_map map_map map_snd_zip)
  moreover have "list_all (\<lambda>x. valid_repo_id (rc_repo_id (snd x))) (zip (map f rs) rs) \<longleftrightarrow>
      list_all (\<lambda>r. valid_repo_id (rc_repo_id r)) rs"
    by (induction rs) auto
  ultimately show ?thesis using build_repos_dom [OF assms] by simp
qed

lemma build_repos_fresh_gen:
  "build_repos lib crs next = Inr m \<Longrightarrow>
   fmpred (\<lambda>_ r. rs_result r = no_result \<and> \<not> rs_syncing r \<and> rs_attempt_started_at r = zero_time) next \<Longrightarrow>
   fmpred (\<lambda>_ r. rs_result r = no_result \<and> \<not> rs_syncing r \<and> rs_attempt_started_at r = zero_time) m"
proof (induction lib crs "next" rule: build_repos.induct)
  case (2 lib chk r rs "next")
  have "rs_result (configured lib chk r) = no_result \<and> \<not> rs_syncing (configured lib chk r) \<and>
      rs_attempt_started_at (configured lib chk r) = zero_time"
    by (simp add: configured_def Let_def split: prod.splits)
  with 2 show ?case by (auto split: if_splits intro!: fmpred_upd)
qed simp

lemma build_repos_fresh:
  "build_repos lib crs fmempty = Inr m \<Longrightarrow> fmlookup m rid = Some r \<Longrightarrow>
   rs_result r = no_result \<and> \<not> rs_syncing r \<and> rs_attempt_started_at r = zero_time"
  using fmpredD [OF build_repos_fresh_gen [of lib crs fmempty m], of rid r] by simp

lemma list_all_zip_map: "list_all (\<lambda>(chk, r). chk = f r) (zip (map f rs) rs)"
  by (induction rs) auto

lemma check_config_Inr:
  assumes "check_config lib pin wire = Inr (msg, l, next)"
  shows "pin \<noteq> [] \<and> cw_msg wire = Some msg \<and> resolve_limits (cm_schedule msg) (cm_limits msg) = Inr l \<and>
    (\<exists>rs. cm_repos msg = Some rs \<and> length rs \<le> max_config_repos \<and>
       list_all (\<lambda>r. snd (check_replica_url lib (rc_replica_push_url r) pin) \<noteq> ReplicaMismatch) rs \<and>
       build_repos lib (zip (map (\<lambda>r. check_replica_url lib (rc_replica_push_url r) pin) rs) rs) fmempty = Inr next)"
  using assms
  by (auto simp: check_config_def Let_def list_all_iff list_ex_iff not_less split: if_splits option.splits sum.splits)

lemma install_repo_ok:
  assumes "conf_ok lib pin st"
  shows "repo_ok lib (providers c) pin (install_repo c rid st)"
  using repo_ok_bind [OF assms, of "providers c"]
  by (auto simp: install_repo_def Let_def split: option.splits)

lemma inv_config:
  assumes inv: "engine_inv lib s"
  shows "engine_inv lib (s\<lparr>eng := snd (apply_config lib wire (eng s))\<rparr>)"
proof (cases "check_config lib (replica_host (eng s)) wire")
  case (Inl reason)
  show ?thesis
    by (rule engine_inv_core [OF inv])
      (use Inl repos_ok [OF inv] in \<open>simp_all add: apply_config_def reject_config_def same_core_def\<close>)
next
  case (Inr x)
  obtain msg l nxt where x: "x = (msg, l, nxt)" by (metis prod_cases3)
  from check_config_Inr [OF Inr [unfolded x]] obtain rs where
    "build_repos lib (zip (map (\<lambda>r. check_replica_url lib (rc_replica_push_url r) (replica_host (eng s))) rs) rs)
       fmempty = Inr nxt" by blast
  from build_repos_ok [OF this list_all_zip_map] have "fmpred (\<lambda>_. conf_ok lib (replica_host (eng s))) nxt"
    by simp
  then have "fmpred (\<lambda>_. repo_ok lib (providers (eng s)) (replica_host (eng s)))
      (fmmap_keys (install_repo (eng s)) nxt)"
    using install_repo_ok by (auto intro!: fmpredI dest: fmpredD)
  then show ?thesis
    by (intro engine_inv_core [OF inv])
      (use Inr x in \<open>simp_all add: apply_config_def install_config_def same_core_def Let_def\<close>)
qed

subsection \<open>Claims\<close>

lemma claim_task_Some:
  assumes "claim_task lib now rid c = (Some t, c')"
  obtains r pe sc where "fmlookup (repos c) rid = Some r" "can_sync r"
    "snd (check_replica_url lib (rs_replica_url r) (replica_host c)) = ReplicaOK"
    "fmlookup (by_name (providers c)) (rs_provider r) = Some pe" "pe_gen pe = generation (rs_bind r)"
    "fmlookup (attempts c) rid = None" "t = task_of rid r pe (cl_attempt_seq c + 1)"
    "may_claim (client_hooks (c\<lparr>cl_attempt_seq := cl_attempt_seq c + 1\<rparr>) now) rid (rs_bind r) (sched c)
       (\<lambda>_. Fin 0) = (True, sc)"
    "c' = c\<lparr>cl_attempt_seq := cl_attempt_seq c + 1,
       attempts := fmupd rid \<lparr>at_seq = cl_attempt_seq c + 1, at_bind = rs_bind r, at_cancelled = False,
          at_superseded = False\<rparr> (attempts c), sched := sc\<rparr>"
  using assms
  by (auto simp: claim_task_def can_sync_def Let_def split: option.splits if_splits prod.splits)

lemma claim_task_None:
  assumes "claim_task lib now rid c = (None, c')"
  shows "\<exists>n sc. c' = c\<lparr>cl_attempt_seq := n, sched := sc\<rparr> \<and> cl_attempt_seq c \<le> n"
proof -
  define P where "P = (\<lambda>d. \<exists>n sc. d = c\<lparr>cl_attempt_seq := n, sched := sc\<rparr> \<and> cl_attempt_seq c \<le> n)"
  have P1: "P (c\<lparr>cl_attempt_seq := n, sched := sc\<rparr>)" if "cl_attempt_seq c \<le> n" for n sc
    using that unfolding P_def by blast
  have "P c" using P1 [of "cl_attempt_seq c" "sched c"] by simp
  moreover have "P (c\<lparr>cl_attempt_seq := Suc (cl_attempt_seq c)\<rparr>)"
    using P1 [of "Suc (cl_attempt_seq c)" "sched c"] by simp
  moreover note P1 [of "Suc (cl_attempt_seq c)"]
  ultimately have "P c'"
    using assms by (auto simp: claim_task_def Let_def split: option.splits if_splits prod.splits)
  then show ?thesis by (simp add: P_def)
qed

lemma attempt_ok_mono:
  "attempt_ok c a \<Longrightarrow> providers d = providers c \<Longrightarrow> cl_attempt_seq c \<le> cl_attempt_seq d \<Longrightarrow> attempt_ok d a"
  by (auto simp: attempt_ok_def)

lemma inv_claim:
  assumes inv: "engine_inv lib s"
  shows "engine_inv lib (engine_step lib s (EClaim rid now))"
proof (cases "claim_task lib now rid (eng s)")
  case (Pair o1 c')
  show ?thesis
  proof (cases o1)
    case None
    with Pair obtain n sc where c': "c' = (eng s)\<lparr>cl_attempt_seq := n, sched := sc\<rparr>" "cl_attempt_seq (eng s) \<le> n"
      using claim_task_None by blast
    have "fmpred (\<lambda>_. attempt_ok c') (attempts (eng s))"
      using c' by (auto intro!: fmpredI attempt_ok_mono [OF attempts_ok_look [OF inv]])
    then show ?thesis
      using inv c' Pair None by (simp add: engine_inv_def task_ok_def [abs_def])
  next
    case (Some t)
    with Pair have claimed: "claim_task lib now rid (eng s) = (Some t, c')" by simp
    from claimed obtain r pe sc where r: "fmlookup (repos (eng s)) rid = Some r" and sync: "can_sync r"
      and pin: "snd (check_replica_url lib (rs_replica_url r) (replica_host (eng s))) = ReplicaOK"
      and pe: "fmlookup (by_name (providers (eng s))) (rs_provider r) = Some pe"
      "pe_gen pe = generation (rs_bind r)"
      and free: "fmlookup (attempts (eng s)) rid = None"
      and t: "t = task_of rid r pe (cl_attempt_seq (eng s) + 1)"
      and c': "c' = (eng s)\<lparr>cl_attempt_seq := cl_attempt_seq (eng s) + 1,
       attempts := fmupd rid \<lparr>at_seq = cl_attempt_seq (eng s) + 1, at_bind = rs_bind r, at_cancelled = False,
          at_superseded = False\<rparr> (attempts (eng s)), sched := sc\<rparr>"
      by (rule claim_task_Some)
    have rok: "repo_ok lib (providers (eng s)) (replica_host (eng s)) r" by (rule repos_ok_look [OF inv r])
    have prov: "provs_ok lib (providers (eng s)) (provider_gen (eng s))" using inv by (simp add: engine_inv_def)
    obtain pe' name where m: "match_host (providers (eng s)) (rs_origin_host_key r) = Some (pe', name)"
      and b: "rs_bind r = Binding name (pe_gen pe')" "rs_provider r = name" "rs_canonical_url r = rs_origin_url r"
      using rok sync by (auto simp: repo_ok_def bound_to_def can_sync_def split: option.splits)
    have look: "fmlookup (by_name (providers (eng s))) name = Some pe'" "pe_host_key pe' = rs_origin_host_key r"
      "rs_origin_host_key r \<noteq> []"
      using match_host_Some [OF prov m] by simp_all
    then have [simp]: "pe' = pe" using pe(1) b(2) by simp
    have cur: "credential_current lib (providers (eng s)) t"
      using rok look b by (auto simp: credential_current_def t task_of_def repo_ok_def conf_ok_def)
    have force: "in_force (providers (eng s)) (rs_bind r)"
      using look b by (simp add: in_force_def)
    have old: "task_repo u \<noteq> rid" if "u \<in> running s" for u
      using inv that free unfolding engine_inv_def by (metis image_eqI fmdom'_notI)
    have tok: "task_ok lib c' u" if "u \<in> running s" for u
    proof -
      have "task_ok lib (eng s) u" using inv that by (simp add: engine_inv_def)
      with old [OF that] show ?thesis by (simp add: task_ok_def c')
    qed
    have tnew: "task_ok lib c' t"
      using cur rok sync
      by (auto simp: task_ok_def c' t task_of_def can_sync_def repo_ok_def conf_ok_def split: if_splits)
    have "fmpred (\<lambda>_. attempt_ok c') (attempts (eng s))"
      using c' by (auto intro!: fmpredI attempt_ok_mono [OF attempts_ok_look [OF inv]])
    then have att: "fmpred (\<lambda>_. attempt_ok c') (attempts c')"
      using force by (auto simp: c' attempt_ok_def intro!: fmpred_upd)
    have "inj_on task_repo (insert t (running s))"
      using inv old by (auto simp: engine_inv_def t task_of_def)
    moreover have "task_repo ` insert t (running s) = fmdom' (attempts c')"
      using inv by (simp add: engine_inv_def c' t task_of_def)
    moreover have "provs_ok lib (providers c') (provider_gen c')" using prov by (simp add: c')
    moreover have "fmpred (\<lambda>_. repo_ok lib (providers c') (replica_host c')) (repos c')"
      using repos_ok [OF inv] by (simp add: c')
    ultimately show ?thesis
      using claimed tok tnew att by (simp add: engine_inv_def)
  qed
qed

subsection \<open>The end of an attempt\<close>

lemma running_attempt:
  assumes "engine_inv lib s" and "t \<in> running s"
  obtains a where "fmlookup (attempts (eng s)) (task_repo t) = Some a" "at_seq a = attempt_seq t"
    "at_bind a = task_bind t" "at_superseded a \<or> credential_current lib (providers (eng s)) t"
  using assms by (auto simp: engine_inv_def task_ok_def)

lemma inv_end:
  assumes inv: "engine_inv lib s" and t: "t \<in> running s"
  shows "engine_inv lib (s\<lparr>eng := (eng s)\<lparr>attempts := fmdrop (task_repo t) (attempts (eng s))\<rparr>,
    running := running s - {t}\<rparr>)"
proof -
  let ?c = "(eng s)\<lparr>attempts := fmdrop (task_repo t) (attempts (eng s))\<rparr>"
  have inj: "inj_on task_repo (running s)" and img: "task_repo ` running s = fmdom' (attempts (eng s))"
    using inv by (simp_all add: engine_inv_def)
  have "task_ok lib ?c u" if "u \<in> running s - {t}" for u
  proof -
    have "task_repo u \<noteq> task_repo t" using inj that t by (auto dest: inj_onD)
    moreover have "task_ok lib (eng s) u" using inv that by (simp add: engine_inv_def)
    ultimately show ?thesis by (simp add: task_ok_def)
  qed
  moreover have "fmpred (\<lambda>_. attempt_ok ?c) (attempts ?c)"
    by (auto intro!: fmpredI attempt_ok_mono [OF attempts_ok_look [OF inv]] split: if_splits)
  moreover have "inj_on task_repo (running s - {t})" using inj by (rule inj_on_diff)
  moreover have "task_repo ` (running s - {t}) = fmdom' (attempts ?c)"
    using inj_on_image_set_diff [OF inj, of "running s" "{t}"] t img by (simp add: fmdom'_drop)
  ultimately show ?thesis using inv by (simp add: engine_inv_def)
qed

lemma inv_runs:
  assumes "engine_inv lib s"
  shows "engine_inv lib (s\<lparr>eng := (eng s)\<lparr>runs := m\<rparr>\<rparr>)"
  by (rule engine_inv_core [OF assms]) (use repos_ok [OF assms] in \<open>simp_all add: same_core_def\<close>)

text \<open>What ending the attempt of a running task finds, and what finishing then does.\<close>

lemma end_running:
  assumes "engine_inv lib s" and "t \<in> running s"
  shows "\<exists>a. fmlookup (attempts (eng s)) (task_repo t) = Some a \<and>
    end_attempt (task_repo t) (attempt_seq t) (eng s) =
      ((at_superseded a, False), (eng s)\<lparr>attempts := fmdrop (task_repo t) (attempts (eng s))\<rparr>)"
  using assms by (rule running_attempt) (simp add: end_attempt_def)

lemma inv_finish_sync:
  assumes inv: "engine_inv lib s" and t: "t \<in> running s"
    and f: "finish_sync (task_repo t) t res now (eng s) = (kept, c')"
  shows "engine_inv lib (s\<lparr>eng := c', running := running s - {t}\<rparr>)"
proof -
  let ?c = "(eng s)\<lparr>attempts := fmdrop (task_repo t) (attempts (eng s))\<rparr>"
  let ?s = "s\<lparr>eng := ?c, running := running s - {t}\<rparr>"
  have inv1: "engine_inv lib ?s" by (rule inv_end [OF inv t])
  obtain a :: attempt where e: "end_attempt (task_repo t) (attempt_seq t) (eng s) = ((at_superseded a, False), ?c)"
    using end_running [OF inv t] by (elim exE conjE)
  show ?thesis
  proof (cases "fmlookup (repos (eng s)) (task_repo t)")
    case None
    with f e inv1 show ?thesis by (simp add: finish_sync_def)
  next
    case (Some r)
    have ok: "repo_ok lib (providers (eng s)) (replica_host (eng s)) r" by (rule repos_ok_look [OF inv Some])
    obtain r' m where c': "c' = ?c \<or>
        c' = ?c\<lparr>repos := fmupd (task_repo t) r' (repos ?c)\<rparr> \<or>
        c' = ?c\<lparr>repos := fmupd (task_repo t) r' (repos ?c), runs := m\<rparr>"
      and ok': "repo_ok lib (providers (eng s)) (replica_host (eng s)) r'"
    proof (cases "target_matches r t \<and> \<not> at_superseded a \<and> rs_bind r = task_bind t \<and> res_state res \<noteq> StatePending")
      case True
      with f e Some ok show ?thesis by (auto simp: finish_sync_def Let_def intro!: that)
    next
      case False
      show ?thesis
      proof (rule that [of "r\<lparr>rs_syncing := False, rs_attempt_started_at := zero_time\<rparr>" "runs ?c"])
        show "c' = ?c \<or>
          c' = ?c\<lparr>repos := fmupd (task_repo t) (r\<lparr>rs_syncing := False, rs_attempt_started_at := zero_time\<rparr>) (repos ?c)\<rparr> \<or>
          c' = ?c\<lparr>repos := fmupd (task_repo t) (r\<lparr>rs_syncing := False, rs_attempt_started_at := zero_time\<rparr>) (repos ?c),
                 runs := runs ?c\<rparr>"
          using False f e Some by (auto simp: finish_sync_def Let_def split: if_splits)
      qed (use ok in simp)
    qed
    from inv_repo_upd [OF inv1, of r' "task_repo t"] ok'
    have upd: "engine_inv lib (?s\<lparr>eng := ?c\<lparr>repos := fmupd (task_repo t) r' (repos ?c)\<rparr>\<rparr>)" by simp
    from c' upd inv1 inv_runs [OF upd, of m] show ?thesis by (cases s) auto
  qed
qed

lemma inv_finish:
  assumes inv: "engine_inv lib s" and t: "t \<in> running s"
  shows "engine_inv lib (engine_step lib s (EFinish t res now w))"
proof -
  obtain kept c' where f: "finish_sync (task_repo t) t res now (eng s) = (kept, c')" by (metis surj_pair)
  note inv1 = inv_finish_sync [OF inv t f]
  show ?thesis
    using inv1 inv_sched [OF inv1, of "fst (completed (client_hooks c' now) (task_repo t) t res (sched c') w)"] f t
    by (cases s) (simp add: finish_and_reschedule_def)
qed

subsection \<open>New providers\<close>

lemma credential_kept:
  assumes cur: "credential_current lib ps t" and ok: "provs_ok lib ps g" and fresh: "gens_fresh ps g ps'"
    and force: "in_force ps' (task_bind t)"
  shows "credential_current lib ps' t"
proof -
  let ?name = "provider (task_bind t)"
  from cur obtain pe raw where pe: "fmlookup (by_name ps) ?name = Some pe" "pe_gen pe = generation (task_bind t)"
    "same_credential (pe_entry pe) (origin t)" "canonical_remote_url lib raw = Inr (pe_host_key pe, canonical_url t)"
    unfolding credential_current_def by blast
  from force obtain pe' where pe': "fmlookup (by_name ps') ?name = Some pe'" "pe_gen pe' = generation (task_bind t)"
    by (auto simp: in_force_def split: option.splits)
  have le: "pe_gen pe' \<le> g" using provs_ok_gen [OF ok pe(1)] pe(2) pe'(2) by simp
  have "case kept_gen ps ?name (pe_host_key pe') (pe_entry pe') of Some k \<Rightarrow> pe_gen pe' = k | None \<Rightarrow> g < pe_gen pe'"
    using fresh pe'(1) unfolding gens_fresh_def by blast
  with le pe(1) have "pe_host_key pe = pe_host_key pe' \<and> same_credential (pe_entry pe) (pe_entry pe')"
    by (auto simp: kept_gen_def split: option.splits if_splits)
  with pe pe' show ?thesis
    unfolding credential_current_def by (metis same_credential_sym same_credential_trans)
qed

lemma set_providers_cases:
  assumes "set_providers lib st c = (out, c')"
  obtains g where "build_provider_set lib st (providers c) (provider_gen c) = (fst (build_provider_set lib st (providers c) (provider_gen c)), g)"
    "out = None" "c' = c\<lparr>provider_gen := g\<rparr>"
  | put g resync stopped where "build_provider_set lib st (providers c) (provider_gen c) = (put, g)"
    "out = Some (resync, stopped)"
    "c' = c\<lparr>providers := put, provider_gen := g, provider_epoch := provider_epoch c + 1,
       repos := fmmap (\<lambda>r. bind_repo r put) (repos c), attempts := fmmap (supersede put) (attempts c),
       origin_check := None, last_probe := 0, probe_cancelled := True\<rparr>"
  using assms by (auto simp: set_providers_def Let_def split: prod.splits if_splits)

lemma provs_ok_mono: "provs_ok lib ps g \<Longrightarrow> g \<le> g' \<Longrightarrow> provs_ok lib ps g'"
  unfolding provs_ok_def by (meson le_trans)

lemma supersede_ok:
  "attempt_ok c a \<Longrightarrow> providers d = put \<Longrightarrow> cl_attempt_seq d = cl_attempt_seq c \<Longrightarrow> attempt_ok d (supersede put a)"
  by (auto simp: attempt_ok_def supersede_def)

lemma inv_providers:
  assumes inv: "engine_inv lib s" and dist: "\<forall>es. st = Some es \<longrightarrow> distinct (map fst es)"
    and sp: "set_providers lib st (eng s) = (out, c')"
  shows "engine_inv lib (s\<lparr>eng := c'\<rparr>)"
proof -
  have prov: "provs_ok lib (providers (eng s)) (provider_gen (eng s))" using inv by (simp add: engine_inv_def)
  from sp show ?thesis
  proof (cases rule: set_providers_cases)
    case (1 g)
    have "provider_gen (eng s) \<le> g" using build_provider_set_ok [OF 1(1) prov dist] by simp
    with prov have "provs_ok lib (providers (eng s)) g" by (rule provs_ok_mono)
    then show ?thesis
      using inv 1 by (simp add: engine_inv_def task_ok_def [abs_def] attempt_ok_def [abs_def])
  next
    case (2 put g resync stopped)
    have b: "provs_ok lib put g" "gens_fresh (providers (eng s)) (provider_gen (eng s)) put"
      using build_provider_set_ok [OF 2(1) prov dist] by simp_all
    have "fmpred (\<lambda>_. repo_ok lib put (replica_host (eng s))) (fmmap (\<lambda>r. bind_repo r put) (repos (eng s)))"
      using repos_ok_look [OF inv] by (auto simp: repo_ok_def bind_repo_bound intro!: fmpredI)
    moreover have "fmpred (\<lambda>_. attempt_ok c') (fmmap (supersede put) (attempts (eng s)))"
      using 2(3) by (auto intro!: fmpredI supersede_ok [OF attempts_ok_look [OF inv]])
    moreover have "task_ok lib c' t" if run: "t \<in> running s" for t
    proof -
      obtain a where a: "fmlookup (attempts (eng s)) (task_repo t) = Some a" "at_seq a = attempt_seq t"
        "at_bind a = task_bind t" "at_superseded a \<or> credential_current lib (providers (eng s)) t"
        by (rule running_attempt [OF inv run])
      have "at_superseded (supersede put a) \<or> credential_current lib put t"
        using a(3,4) credential_kept [OF _ prov b(2)] by (auto simp: supersede_def)
      moreover have "\<exists>raw. check_replica_url lib raw (replica_host (eng s)) = (replica_url t, ReplicaOK)"
        using inv run by (auto simp: engine_inv_def task_ok_def)
      ultimately show ?thesis using a 2(3) by (simp add: task_ok_def) (simp add: supersede_def)
    qed
    ultimately show ?thesis using inv b(1) 2(3) by (simp add: engine_inv_def)
  qed
qed

section \<open>Reachable states\<close>

lemma init_inv: "engine_inv lib (init_engine lib raw_pin st loaded)"
proof -
  let ?st = "case st of None \<Rightarrow> None | Some es \<Rightarrow> if distinct (map fst es) then st else None"
  obtain put g where b: "build_provider_set lib ?st empty_providers 0 = (put, g)" by (metis surj_pair)
  have "provs_ok lib put g"
    using build_provider_set_ok [OF b provs_ok_empty] by (auto split: option.splits if_splits)
  with b show ?thesis by (simp add: init_engine_def new_client_def engine_inv_def)
qed

lemma step_inv:
  assumes inv: "engine_inv lib s"
  shows "engine_inv lib (engine_step lib s e)"
proof (cases e)
  case (EClaim rid now)
  then show ?thesis using inv_claim [OF inv] by simp
next
  case (EFinish t res now w)
  then show ?thesis using inv inv_finish [OF inv] by (cases "t \<in> running s") simp_all
next
  case (EProviders st)
  obtain out c' where "set_providers lib st (eng s) = (out, c')" by (metis surj_pair)
  then show ?thesis using inv EProviders inv_providers [OF inv, of st out c'] by (auto split: option.splits)
next
  case (EConfig wire)
  then show ?thesis using inv_config [OF inv] by simp
qed (use inv in \<open>simp_all add: inv_start inv_set_syncing inv_release inv_sync_now inv_reconcile inv_patch
      inv_sched begin_sync_def\<close>)

lemma engine_after_inv: "engine_inv lib (engine_after lib raw_pin st loaded es)"
  unfolding engine_after_def by (rule run_invariant) (auto intro: init_inv step_inv)

section \<open>A run to apply the properties to\<close>

text \<open>One provider, one repository whose origin and replica share the pinned host, one claim.\<close>

definition demo_url :: go_url where
  "demo_url = \<lparr>u_scheme = ''https'', u_user = None, u_hostname = ''git.example'', u_port = ''443'',
     u_path = ''/r.git'', u_raw_path = [], u_raw_query = [], u_fragment = []\<rparr>"

definition demo_lib :: go_lib where
  "demo_lib = \<lparr>url_parse = (\<lambda>s. if s = ''https://git.example:443/r.git'' then Some demo_url
       else if s = ''https://git.example:443'' then Some (demo_url\<lparr>u_path := []\<rparr>) else None),
     parse_addr = (\<lambda>_. None), escaped_path = (\<lambda>p _. p), sha256_hex = (\<lambda>s. s), json_valid = (\<lambda>s. s \<noteq> [])\<rparr>"

definition demo_local :: "string \<Rightarrow> local_entry" where
  "demo_local tok = \<lparr>le_base_url = ''https://git.example:443/r.git'', le_auth = ''bearer'', le_username = [],
     le_token = tok, le_token_file = []\<rparr>"

definition demo_wire :: config_wire where
  "demo_wire = \<lparr>cw_version = Some ''7'', cw_msg = Some \<lparr>cm_version = Some ''7'',
     cm_repos = Some [\<lparr>rc_repo_id = ''r1'', rc_origin_url = ''https://git.example:443/r.git'',
       rc_replica_push_url = ''https://git.example:443/r.git'', rc_push_token = ''push'', rc_expires_at = []\<rparr>],
     cm_schedule = None, cm_limits = None\<rparr>\<rparr>"

lemma demo_host: "canonical_ascii_host demo_lib ''git.example'' = Inr ''git.example''"
  by (simp add: canonical_ascii_host_def demo_lib_def host_char_def is_alpha_def is_upper_def
      is_lower_def numeric_host_label_def is_digit_def ascii_to_lower_def lower_char_def)

lemma demo_port: "canonical_port (demo_url\<lparr>u_path := p\<rparr>) = Inr ''443''" "canonical_port demo_url = Inr ''443''"
proof -
  have a: "atoi ''443'' = Some 443"
    using atoi_itoa [of 443] by (simp add: itoa.simps digit_char_def char_of_def bit_Suc_0_iff)
  have i: "itoa 443 = ''443''" by (simp add: itoa.simps digit_char_def char_of_def bit_Suc_0_iff)
  show "canonical_port (demo_url\<lparr>u_path := p\<rparr>) = Inr ''443''" "canonical_port demo_url = Inr ''443''"
    by (simp_all add: canonical_port_def demo_url_def a i)
qed

lemma demo_canon:
  "canonical_remote_url demo_lib ''https://git.example:443/r.git'' =
     Inr (''https://git.example:443'', ''https://git.example:443/r.git'')"
proof -
  have "runes ''https://git.example:443/r.git'' = map byte ''https://git.example:443/r.git''"
    by (rule runes_ascii) simp
  then have v: "validate_remote_url demo_lib ''https://git.example:443/r.git'' = Inr demo_url"
    by (simp add: validate_remote_url_def max_url_length_def demo_lib_def demo_url_def
        is_space_def is_control_def)
  have "u_hostname demo_url = ''git.example''" by (simp add: demo_url_def)
  with v show ?thesis
    by (simp add: canonical_remote_url_def Let_def trim_suffix_def suffix_def demo_host demo_port)
      (simp add: demo_url_def demo_lib_def join_host_port_def url_string_def)
qed

lemma demo_key: "canonical_host_key demo_lib ''https://git.example:443/r.git'' = Inr ''https://git.example:443''"
  by (simp add: canonical_host_key_def demo_canon)

lemma demo_check:
  "check_replica_url demo_lib ''https://git.example:443/r.git'' ''git.example:443'' =
     (''https://git.example:443/r.git'', ReplicaOK)"
  by (simp add: check_replica_url_def demo_canon)

lemma demo_pin: "pin_replica_host demo_lib ''git.example:443'' = ''git.example:443''"
proof -
  have u: "url_parse demo_lib ''https://git.example:443'' = Some (demo_url\<lparr>u_path := []\<rparr>)"
    by (simp add: demo_lib_def)
  have f: "u_user (demo_url\<lparr>u_path := []\<rparr>) = None" "u_hostname (demo_url\<lparr>u_path := []\<rparr>) = ''git.example''"
    "u_path (demo_url\<lparr>u_path := []\<rparr>) = []"
    by (simp_all add: demo_url_def)
  have "\<not> sublist ''://'' ''git.example:443''" by (simp add: sublist_code)
  then show ?thesis
    by (simp add: pin_replica_host_def parse_replica_host_def max_replica_host_length_def u demo_port f
        contains_any_def suffix_def trim_suffix_def demo_host join_host_port_def prefix_def)
qed

lemma demo_token: "valid_push_token ''push''"
proof -
  have "runes ''push'' = map byte ''push''" by (rule runes_ascii) simp
  then show ?thesis by (simp add: valid_push_token_def is_control_def)
qed

definition demo_set :: "string \<Rightarrow> nat \<Rightarrow> provider_set" where
  "demo_set tok gen =
     \<lparr>by_name = fmupd ''corp'' \<lparr>pe_entry = demo_local tok, pe_host_key = ''https://git.example:443'', pe_gen = gen\<rparr> fmempty,
      by_host = fmupd ''https://git.example:443'' ''corp'' fmempty\<rparr>"

lemma demo_build:
  "build_provider_set demo_lib (Some [(''corp'', demo_local tok)]) empty_providers 0 = (demo_set tok 1, 1)"
  by (simp add: build_provider_set_def add_provider_def demo_local_def demo_key
      kept_gen_def empty_providers_def demo_set_def)

definition demo_repo :: repo_state where
  "demo_repo = \<lparr>rs_repo_id = ''r1'', rs_expires_at = [], rs_origin_url = ''https://git.example:443/r.git'',
     rs_origin_host_key = ''https://git.example:443'',
     rs_target = target_fingerprint demo_lib ''https://git.example:443/r.git'' ''https://git.example:443/r.git'',
     rs_replica_usable = True, rs_replica_url = ''https://git.example:443/r.git'', rs_push_token = ''push'',
     rs_bind = unbound, rs_provider = [], rs_canonical_url = [], rs_matched = False, rs_result = no_result,
     rs_syncing = False, rs_attempt_started_at = zero_time\<rparr>"

lemma demo_check_config:
  "\<exists>msg. check_config demo_lib ''git.example:443'' demo_wire =
     Inr (msg, default_limits, fmupd ''r1'' demo_repo fmempty) \<and> cm_version msg = Some ''7''"
proof -
  have v: "version_ok demo_lib ''7''"
    by (simp add: version_ok_def max_config_version_size_def is_scalar_json_def demo_lib_def json_space_def)
  have l: "resolve_limits None None = Inr default_limits"
    by (simp add: resolve_limits_def resolve_schedule_def)
  have n: "valid_repo_id ''r1''"
    by (simp add: valid_repo_id_def max_repo_id_length_def is_alpha_def is_digit_def is_lower_def is_upper_def)
  show ?thesis
    by (simp add: check_config_def demo_wire_def demo_check v l n max_config_repos_def configured_def demo_canon
        demo_token demo_repo_def)
qed

definition demo_bound :: repo_state where
  "demo_bound = demo_repo\<lparr>rs_bind := Binding ''corp'' 1, rs_provider := ''corp'',
     rs_canonical_url := ''https://git.example:443/r.git'', rs_matched := True\<rparr>"

lemma demo_bind: "bind_repo demo_repo (demo_set tok (Suc 0)) = demo_bound"
  by (simp add: bind_repo_def demo_repo_def demo_set_def match_host_def unbound_def demo_bound_def Let_def)

definition demo_task :: "string \<Rightarrow> sync_task" where
  "demo_task tok = task_of ''r1'' demo_bound
     \<lparr>pe_entry = demo_local tok, pe_host_key = ''https://git.example:443'', pe_gen = 1\<rparr> 1"

definition demo_events :: "engine_event list" where
  "demo_events = [EConfig demo_wire, EClaim ''r1'' 0]"

definition demo_engine :: "string \<Rightarrow> engine" where
  "demo_engine tok =
     engine_after demo_lib ''git.example:443'' (Some [(''corp'', demo_local tok)]) fmempty demo_events"

definition demo_client :: "string \<Rightarrow> client" where
  "demo_client tok =
     eng (engine_after demo_lib ''git.example:443'' (Some [(''corp'', demo_local tok)]) fmempty [EConfig demo_wire])"

lemma demo_configured:
  "replica_host (demo_client tok) = ''git.example:443'' \<and> providers (demo_client tok) = demo_set tok 1 \<and>
   provider_gen (demo_client tok) = 1 \<and> attempts (demo_client tok) = fmempty \<and>
   cl_attempt_seq (demo_client tok) = 0 \<and> sched (demo_client tok) = new_scheduler \<and>
   fmlookup (repos (demo_client tok)) ''r1'' = Some demo_bound \<and> \<not> critical_patch (demo_client tok)"
proof -
  define s0 where "s0 = init_engine demo_lib ''git.example:443'' (Some [(''corp'', demo_local tok)]) fmempty"
  have s0: "replica_host (eng s0) = ''git.example:443''" "providers (eng s0) = demo_set tok 1"
    "provider_gen (eng s0) = 1" "attempts (eng s0) = fmempty" "cl_attempt_seq (eng s0) = 0"
    "sched (eng s0) = new_scheduler" "repos (eng s0) = fmempty" "\<not> critical_patch (eng s0)"
    by (simp_all add: s0_def init_engine_def new_client_def demo_build demo_pin)
  obtain msg where msg: "check_config demo_lib ''git.example:443'' demo_wire =
      Inr (msg, default_limits, fmupd ''r1'' demo_repo fmempty)" using demo_check_config by blast
  show ?thesis
    by (simp add: demo_client_def engine_after_def s0_def [symmetric] apply_config_def s0 msg
        install_config_def Let_def install_repo_def demo_bind)
qed

text \<open>Claiming works whether or not the repository is already shown as syncing.\<close>

lemma demo_claim:
  assumes "fmlookup (repos c) ''r1'' = Some (demo_bound\<lparr>rs_syncing := b\<rparr>)" "replica_host c = ''git.example:443''"
    "providers c = demo_set tok 1" "attempts c = fmempty" "cl_attempt_seq c = 0" "sched c = new_scheduler"
  shows "\<exists>sc. claim_task demo_lib now ''r1'' c = (Some (demo_task tok),
      c\<lparr>cl_attempt_seq := 1, attempts := fmupd ''r1'' \<lparr>at_seq = 1, at_bind = Binding ''corp'' 1,
          at_cancelled = False, at_superseded = False\<rparr> fmempty, sched := sc\<rparr>)"
  using assms(1) by (simp add: claim_task_def assms(2-) demo_bound_def demo_repo_def demo_check demo_set_def
      may_claim_def claim_def new_scheduler_def new_provider_gates_def client_hooks_def demo_task_def task_of_def)
    blast

lemma demo_claimed:
  "running (demo_engine tok) = {demo_task tok} \<and>
   providers (eng (demo_engine tok)) = demo_set tok 1 \<and> provider_gen (eng (demo_engine tok)) = 1 \<and>
   fmlookup (attempts (eng (demo_engine tok))) ''r1'' =
     Some \<lparr>at_seq = 1, at_bind = Binding ''corp'' 1, at_cancelled = False, at_superseded = False\<rparr> \<and>
   fmlookup (repos (eng (demo_engine tok))) ''r1'' = Some demo_bound \<and>
   replica_host (eng (demo_engine tok)) = ''git.example:443''"
proof -
  note c = demo_configured [of tok]
  have "demo_bound = demo_bound\<lparr>rs_syncing := False\<rparr>" by (simp add: demo_bound_def demo_repo_def)
  with c have r: "fmlookup (repos (demo_client tok)) ''r1'' = Some (demo_bound\<lparr>rs_syncing := False\<rparr>)" by simp
  have "\<exists>sc. claim_task demo_lib 0 ''r1'' (demo_client tok) = (Some (demo_task tok),
      (demo_client tok)\<lparr>cl_attempt_seq := 1, attempts := fmupd ''r1'' \<lparr>at_seq = 1, at_bind = Binding ''corp'' 1,
          at_cancelled = False, at_superseded = False\<rparr> fmempty, sched := sc\<rparr>)"
    by (rule demo_claim [OF r]) (use c in simp_all)
  moreover have "running (init_engine demo_lib ''git.example:443'' (Some [(''corp'', demo_local tok)]) fmempty) = {}"
    by (simp add: init_engine_def)
  ultimately show ?thesis
    using c by (auto simp: demo_engine_def engine_after_def demo_events_def demo_client_def)
qed

text \<open>C6. In every state the connector can reach, a running sync has its own attempt registered under its
sequence number, and either that attempt has been superseded or the credential the sync holds is the
one configured now for the host it dials.\<close>

theorem running_syncs_revocable:
  assumes "t \<in> running (engine_after lib raw_pin st loaded es)"
  defines "c \<equiv> eng (engine_after lib raw_pin st loaded es)"
  shows "(\<exists>a. fmlookup (attempts c) (task_repo t) = Some a \<and> at_seq a = attempt_seq t \<and>
      (at_cancelled a \<or> credential_current lib (providers c) t)) \<and>
    (\<forall>u \<in> running (engine_after lib raw_pin st loaded es). task_repo u = task_repo t \<longrightarrow> u = t)"
proof -
  let ?s = "engine_after lib raw_pin st loaded es"
  have inv: "engine_inv lib ?s" by (rule engine_after_inv)
  obtain a where a: "fmlookup (attempts c) (task_repo t) = Some a" "at_seq a = attempt_seq t"
    "at_superseded a \<or> credential_current lib (providers c) t"
    unfolding c_def by (rule running_attempt [OF inv assms(1)])
  have "at_cancelled a = at_superseded a"
    using attempts_ok_look [OF inv, of "task_repo t" a] a(1) by (simp add: c_def attempt_ok_def)
  moreover have "inj_on task_repo (running ?s)" using inv by (simp add: engine_inv_def)
  ultimately show ?thesis using a assms(1) by (auto dest: inj_onD)
qed

theorem running_syncs_revocable_witness:
  "\<exists>a. fmlookup (attempts (eng (demo_engine ''t1''))) ''r1'' = Some a \<and>
     credential_current demo_lib (providers (eng (demo_engine ''t1''))) (demo_task ''t1'')"
proof -
  have t: "demo_task ''t1'' \<in> running (demo_engine ''t1'')" using demo_claimed by simp
  have r: "task_repo (demo_task ''t1'') = ''r1''" by (simp add: demo_task_def task_of_def)
  from running_syncs_revocable [OF t [unfolded demo_engine_def], folded demo_engine_def] demo_claimed [of "''t1''"]
  show ?thesis by (auto simp: r)
qed

lemma in_force_iff_unchanged:
  assumes ok: "provs_ok lib ps g" and fresh: "gens_fresh ps g put"
    and old: "fmlookup (by_name ps) (provider b) = Some old" "pe_gen old = generation b"
  shows "in_force put b \<longleftrightarrow>
    (\<exists>pe. fmlookup (by_name put) (provider b) = Some pe \<and> pe_host_key pe = pe_host_key old \<and>
       same_credential (pe_entry pe) (pe_entry old))"
proof (cases "fmlookup (by_name put) (provider b)")
  case None
  then show ?thesis by (simp add: in_force_def)
next
  case (Some pe)
  have le: "pe_gen old \<le> g" by (rule provs_ok_gen [OF ok old(1)])
  have "case kept_gen ps (provider b) (pe_host_key pe) (pe_entry pe) of Some k \<Rightarrow> pe_gen pe = k | None \<Rightarrow> g < pe_gen pe"
    using fresh Some unfolding gens_fresh_def by blast
  then have "pe_gen pe = pe_gen old \<longleftrightarrow> pe_host_key old = pe_host_key pe \<and> same_credential (pe_entry old) (pe_entry pe)"
    using old(1) le by (auto simp: kept_gen_def split: if_splits)
  then show ?thesis using Some old by (auto simp: in_force_def same_credential_sym)
qed

text \<open>C5. Replacing the providers cancels a running sync exactly when its credential is not in force any
more, and never lets go of a registration.\<close>

theorem swap_cancels_exactly:
  assumes t: "t \<in> running (engine_after lib raw_pin st loaded es)"
    and a: "fmlookup (attempts (eng (engine_after lib raw_pin st loaded es))) (task_repo t) = Some a"
    and live: "\<not> at_cancelled a"
    and dist: "\<forall>es'. st' = Some es' \<longrightarrow> distinct (map fst es')"
  defines "s \<equiv> engine_after lib raw_pin st loaded es"
  defines "s' \<equiv> engine_step lib s (EProviders st')"
  shows "\<exists>old a'. fmlookup (by_name (providers (eng s))) (provider (task_bind t)) = Some old \<and>
    fmlookup (attempts (eng s')) (task_repo t) = Some a' \<and>
    (at_cancelled a' \<longleftrightarrow>
       \<not> (\<exists>pe. fmlookup (by_name (providers (eng s'))) (provider (task_bind t)) = Some pe \<and>
            pe_host_key pe = pe_host_key old \<and> same_credential (pe_entry pe) (pe_entry old)))"
proof -
  have inv: "engine_inv lib s" unfolding s_def by (rule engine_after_inv)
  have prov: "provs_ok lib (providers (eng s)) (provider_gen (eng s))" using inv by (simp add: engine_inv_def)
  obtain b where b: "fmlookup (attempts (eng s)) (task_repo t) = Some b" "at_bind b = task_bind t"
    "at_superseded b \<or> credential_current lib (providers (eng s)) t"
    using t unfolding s_def [symmetric] by (rule running_attempt [OF inv])
  have ab: "b = a" using a b(1) by (simp add: s_def)
  have sup: "\<not> at_superseded a"
    using attempts_ok_look [OF inv, of "task_repo t" a] b(1) live by (simp add: ab attempt_ok_def)
  with b(3) ab obtain old where old: "fmlookup (by_name (providers (eng s))) (provider (task_bind t)) = Some old"
    "pe_gen old = generation (task_bind t)"
    by (auto simp: credential_current_def)
  obtain out c' where sp: "set_providers lib st' (eng s) = (out, c')" by (metis surj_pair)
  have s': "eng s' = c'" using dist sp by (auto simp: s'_def split: option.splits)
  from sp show ?thesis
  proof (cases rule: set_providers_cases)
    case (1 g)
    with old b(1) ab live show ?thesis by (auto simp: s')
  next
    case (2 put g resync stopped)
    have fresh: "gens_fresh (providers (eng s)) (provider_gen (eng s)) put"
      using build_provider_set_ok [OF 2(1) prov dist] by simp
    have a': "fmlookup (attempts c') (task_repo t) = Some (supersede put a)"
      using b(1) ab 2(3) by simp
    have "at_cancelled (supersede put a) \<longleftrightarrow> \<not> in_force put (task_bind t)"
      using live b(2) ab by (auto simp: supersede_def)
    with a' old in_force_iff_unchanged [OF prov fresh old] 2(3) show ?thesis by (auto simp: s')
  qed
qed

text \<open>Removing the provider cancels the demo sync.\<close>

theorem swap_cancels_exactly_witness:
  "\<exists>a'. fmlookup (attempts (eng (engine_step demo_lib (demo_engine ''t1'') (EProviders None)))) ''r1'' = Some a' \<and>
     at_cancelled a'"
proof -
  have t: "demo_task ''t1'' \<in> running (demo_engine ''t1'')" using demo_claimed by simp
  have r: "task_repo (demo_task ''t1'') = ''r1''" by (simp add: demo_task_def task_of_def)
  note d = demo_claimed [of "''t1''"]
  have a: "fmlookup (attempts (eng (demo_engine ''t1''))) (task_repo (demo_task ''t1'')) =
      Some \<lparr>at_seq = 1, at_bind = Binding ''corp'' 1, at_cancelled = False, at_superseded = False\<rparr>"
    using d by (simp add: r)
  have p: "providers (eng (engine_step demo_lib (demo_engine ''t1'') (EProviders None))) = empty_providers"
    using d by (simp add: set_providers_def build_provider_set_def providers_equal_def Let_def demo_set_def
        empty_providers_def)
  from swap_cancels_exactly [OF t [unfolded demo_engine_def] a [unfolded demo_engine_def], of None,
      folded demo_engine_def] p
  show ?thesis by (auto simp: r empty_providers_def)
qed

text \<open>C7. What finishing a running sync does to the repository it belongs to: a result is attributed only
if the target is unchanged, and a superseded attempt leaves no verdict of the old credential.\<close>

theorem results_attributed:
  assumes t: "t \<in> running (engine_after lib raw_pin st loaded es)"
    and f: "finish_sync (task_repo t) t res now (eng (engine_after lib raw_pin st loaded es)) = (kept, c')"
  defines "c \<equiv> eng (engine_after lib raw_pin st loaded es)"
  shows "(kept \<longleftrightarrow> res_state res \<noteq> StatePending \<and>
      (\<exists>r a. fmlookup (repos c) (task_repo t) = Some r \<and> target_matches r t \<and> rs_bind r = task_bind t \<and>
         fmlookup (attempts c) (task_repo t) = Some a \<and> \<not> at_cancelled a)) \<and>
    (kept \<longrightarrow> credential_current lib (providers c') t \<and>
       (\<exists>r'. fmlookup (repos c') (task_repo t) = Some r' \<and> res_state (rs_result r') = res_state res \<and>
          error_type (rs_result r') = error_type res \<and> rs_bind r' = task_bind t \<and> \<not> rs_syncing r' \<and>
          fmlookup (runs c') (task_repo t) =
            Some (record_attempt now (fm_or (runs c) (task_repo t) no_record) (rs_target r') (rs_result r')))) \<and>
    (\<not> kept \<longrightarrow> runs c' = runs c \<and>
       (\<forall>rid. map_option rs_result (fmlookup (repos c') rid) = map_option rs_result (fmlookup (repos c) rid)))"
proof -
  let ?s = "engine_after lib raw_pin st loaded es"
  have inv: "engine_inv lib ?s" by (rule engine_after_inv)
  obtain a where a: "fmlookup (attempts c) (task_repo t) = Some a" "at_seq a = attempt_seq t"
    "at_superseded a \<or> credential_current lib (providers c) t"
    unfolding c_def by (rule running_attempt [OF inv t])
  have can: "at_cancelled a = at_superseded a"
    using attempts_ok_look [OF inv, of "task_repo t" a] a(1) by (simp add: c_def attempt_ok_def)
  have e: "end_attempt (task_repo t) (attempt_seq t) c =
      ((at_superseded a, False), c\<lparr>attempts := fmdrop (task_repo t) (attempts c)\<rparr>)"
    using a by (simp add: end_attempt_def)
  have f': "finish_sync (task_repo t) t res now c = (kept, c')" using f by (simp add: c_def)
  show ?thesis
  proof (cases "fmlookup (repos c) (task_repo t)")
    case None
    with f' e a(1) can show ?thesis by (auto simp: finish_sync_def)
  next
    case (Some r)
    consider (other) "\<not> target_matches r t" | (super) "target_matches r t" "at_superseded a \<or> rs_bind r \<noteq> task_bind t"
      | (pending) "target_matches r t" "\<not> at_superseded a" "rs_bind r = task_bind t" "res_state res = StatePending"
      | (keep) "target_matches r t" "\<not> at_superseded a" "rs_bind r = task_bind t" "res_state res \<noteq> StatePending"
      by blast
    then show ?thesis
    proof cases
      case other
      with f' e a(1) Some show ?thesis by (auto simp: finish_sync_def)
    next
      case super
      with f' e a(1) Some can show ?thesis by (auto simp: finish_sync_def Let_def)
    next
      case pending
      with f' e a(1) Some can show ?thesis by (auto simp: finish_sync_def Let_def)
    next
      case keep
      with f' e a Some can show ?thesis by (auto simp: finish_sync_def Let_def)
    qed
  qed
qed

theorem results_attributed_witness:
  "\<exists>c' r'. finish_sync ''r1'' (demo_task ''t1'') ok_result 0 (eng (demo_engine ''t1'')) = (True, c') \<and>
     fmlookup (repos c') ''r1'' = Some r' \<and> res_state (rs_result r') = StateOK"
proof -
  have t: "demo_task ''t1'' \<in> running (demo_engine ''t1'')" using demo_claimed by simp
  have r: "task_repo (demo_task ''t1'') = ''r1''" by (simp add: demo_task_def task_of_def)
  obtain kept c' where f: "finish_sync (task_repo (demo_task ''t1'')) (demo_task ''t1'') ok_result 0
      (eng (demo_engine ''t1'')) = (kept, c')" by (metis surj_pair)
  have m: "target_matches demo_bound (demo_task ''t1'')" "rs_bind demo_bound = task_bind (demo_task ''t1'')"
    by (simp_all add: target_matches_def demo_bound_def demo_repo_def demo_task_def task_of_def)
  from results_attributed [OF t [unfolded demo_engine_def] f [unfolded demo_engine_def], folded demo_engine_def]
    demo_claimed [of "''t1''"] m
  show ?thesis using f by (auto simp: r)
qed

text \<open>C3. A running sync pushes only to the canonical form of a URL at the pinned replica host; without a
pin no sync ever runs.\<close>

theorem push_token_pinned:
  assumes t: "t \<in> running (engine_after lib raw_pin st loaded es)"
  defines "pin \<equiv> pin_replica_host lib raw_pin"
  shows "pin \<noteq> [] \<and> (\<exists>p rp. replica_url t = url_string lib ''https'' pin p rp)"
proof -
  let ?s = "engine_after lib raw_pin st loaded es"
  have host: "replica_host (eng (engine_step lib s e)) = replica_host (eng s)" for s e
  proof (cases e)
    case (EClaim rid now)
    obtain o1 c' where cl: "claim_task lib now rid (eng s) = (o1, c')" by (metis surj_pair)
    have "replica_host c' = replica_host (eng s)"
      using cl by (cases o1) (auto dest: claim_task_None elim: claim_task_Some)
    with cl EClaim show ?thesis by (auto split: option.splits)
  next
    case (EFinish u res now w)
    show ?thesis
      by (auto simp: EFinish finish_and_reschedule_def finish_sync_def end_attempt_def Let_def
          split: prod.splits option.splits if_splits)
  next
    case (EProviders st')
    obtain out c' where sp: "set_providers lib st' (eng s) = (out, c')" by (metis surj_pair)
    then have "replica_host c' = replica_host (eng s)" by (cases rule: set_providers_cases) simp_all
    with sp EProviders show ?thesis by (auto split: option.splits)
  next
    case (ESyncNow rid now)
    then show ?thesis using handle_sync_now_core [of now rid "eng s"] by auto
  qed (auto simp: start_attempt_def apply_config_def reject_config_def install_config_def begin_sync_def
      release_sync_def set_syncing_def sched_reconcile_def Let_def split: option.splits sum.splits)
  have "replica_host (eng ?s) = pin"
    unfolding engine_after_def pin_def
    by (rule run_invariant [where P = "\<lambda>s. replica_host (eng s) = pin_replica_host lib raw_pin"])
      (auto simp: host init_engine_def new_client_def split: prod.splits)
  moreover obtain raw where "check_replica_url lib raw (replica_host (eng ?s)) = (replica_url t, ReplicaOK)"
    using engine_after_inv [of lib raw_pin st loaded es] t unfolding engine_inv_def task_ok_def by blast
  ultimately have "check_replica_url lib raw pin = (replica_url t, ReplicaOK)" by simp
  from check_replica_OK [OF this] show ?thesis by blast
qed

theorem push_token_pinned_witness:
  "prefix ''https://git.example:443'' (replica_url (demo_task ''t1''))"
proof -
  have t: "demo_task ''t1'' \<in> running (demo_engine ''t1'')" using demo_claimed by simp
  from push_token_pinned [OF t [unfolded demo_engine_def]] show ?thesis
    by (auto simp: demo_pin url_string_def Let_def)
qed

text \<open>A configuration is applied whole or not at all: a rejected one changes nothing but the reported
error, an accepted one installs exactly its repositories, all with valid distinct ids and no replica
on another host.\<close>

theorem config_all_or_nothing:
  assumes "apply_config lib wire c = (outcome, c')"
  shows "(outcome = None \<longrightarrow>
      (\<exists>v reason. c' = c\<lparr>config_err := Some (v, reason)\<rparr> \<and> (v = None \<or> (\<exists>x. v = Some x \<and> version_ok lib x)))) \<and>
    (outcome \<noteq> None \<longrightarrow>
      (\<exists>msg rs. cw_msg wire = Some msg \<and> cm_repos msg = Some rs \<and> length rs \<le> max_config_repos \<and>
         replica_host c \<noteq> [] \<and>
         list_all (\<lambda>r. valid_repo_id (rc_repo_id r) \<and>
           snd (check_replica_url lib (rc_replica_push_url r) (replica_host c)) \<noteq> ReplicaMismatch) rs \<and>
         distinct (map rc_repo_id rs) \<and> fmdom' (repos c') = rc_repo_id ` set rs \<and>
         config_version c' = cm_version msg \<and> config_err c' = None \<and> limits_wf (cl_limits c') \<and>
         outcome = Some (max_concurrency (cl_limits c')) \<and>
         providers c' = providers c \<and> attempts c' = attempts c))"
proof (cases "check_config lib (replica_host c) wire")
  case (Inl reason)
  let ?v = "case cw_version wire of None \<Rightarrow> None | Some v \<Rightarrow> if version_ok lib v then Some v else None"
  have "outcome = None" "c' = c\<lparr>config_err := Some (?v, reason)\<rparr>"
    using assms Inl by (simp_all add: apply_config_def reject_config_def)
  moreover have "?v = None \<or> (\<exists>x. ?v = Some x \<and> version_ok lib x)" by (simp split: option.splits)
  ultimately show ?thesis by blast
next
  case (Inr x)
  obtain msg l nxt where x: "x = (msg, l, nxt)" by (metis prod_cases3)
  note chk = check_config_Inr [OF Inr [unfolded x]]
  then obtain rs where rs: "cm_repos msg = Some rs" "length rs \<le> max_config_repos"
    "list_all (\<lambda>r. snd (check_replica_url lib (rc_replica_push_url r) (replica_host c)) \<noteq> ReplicaMismatch) rs"
    and b: "build_repos lib (zip (map (\<lambda>r. check_replica_url lib (rc_replica_push_url r) (replica_host c)) rs) rs) fmempty = Inr nxt"
    by blast
  note ids = build_repos_ids [OF b]
  have c': "outcome = Some (max_concurrency l)" "c' = install_config msg l nxt c" using assms Inr x by (simp_all add: apply_config_def)
  have "limits_wf l" using chk resolve_limits_in_range by blast
  moreover have "fmdom' (repos c') = rc_repo_id ` set rs"
    using ids by (simp add: c'(2) install_config_def Let_def)
  moreover have "list_all (\<lambda>r. valid_repo_id (rc_repo_id r)) rs" "distinct (map rc_repo_id rs)"
    using ids by simp_all
  moreover have "config_version c' = cm_version msg" "config_err c' = None" "cl_limits c' = l"
    "providers c' = providers c" "attempts c' = attempts c"
    by (simp_all add: c'(2) install_config_def Let_def)
  moreover have "list_all (\<lambda>r. valid_repo_id (rc_repo_id r) \<and>
      snd (check_replica_url lib (rc_replica_push_url r) (replica_host c)) \<noteq> ReplicaMismatch) rs"
    using rs(3) ids by (simp add: list_all_iff)
  moreover have "cw_msg wire = Some msg" "replica_host c \<noteq> []" using chk by simp_all
  ultimately show ?thesis
    using rs(1,2) c'(1) by (intro conjI impI exI [of _ msg] exI [of _ rs]) simp_all
qed

theorem config_all_or_nothing_witness:
  "fmdom' (repos (snd (apply_config demo_lib demo_wire (eng (init_engine demo_lib ''git.example:443'' None fmempty))))) =
     {''r1''}"
proof -
  let ?c = "eng (init_engine demo_lib ''git.example:443'' None fmempty)"
  obtain acc c' where a: "apply_config demo_lib demo_wire ?c = (acc, c')" by (metis surj_pair)
  have host: "replica_host ?c = ''git.example:443''"
    by (simp add: init_engine_def new_client_def build_provider_set_def demo_pin)
  then have "acc \<noteq> None" using a demo_check_config by (auto simp: apply_config_def)
  with config_all_or_nothing [OF a] have "fmdom' (repos c') = rc_repo_id ` set (the (cm_repos (the (cw_msg demo_wire))))"
    by auto
  with a show ?thesis by (simp add: demo_wire_def)
qed

text \<open>A configuration that leaves the sync identity of a repository unchanged keeps its in-flight marker,
start time and result; any other starts over.\<close>

theorem config_resend_keeps:
  assumes "apply_config lib wire c = (Some n, c')"
    and old: "fmlookup (repos c) rid = Some old" and new: "fmlookup (repos c') rid = Some new"
  shows "(same_sync_identity old new \<longrightarrow>
      rs_syncing new = rs_syncing old \<and> rs_attempt_started_at new = rs_attempt_started_at old \<and>
      rs_result new = (if rs_matched new \<and> \<not> rs_replica_usable new
                       then error_result Unclassified err_invalid_replica else rs_result old)) \<and>
    (\<not> same_sync_identity old new \<longrightarrow>
      \<not> rs_syncing new \<and> rs_attempt_started_at new = zero_time \<and>
      rs_result new = (if rs_matched new \<and> \<not> rs_replica_usable new
                       then error_result Unclassified err_invalid_replica else no_result)) \<and>
    bound_to (providers c) new"
proof -
  obtain msg l nxt where chk: "check_config lib (replica_host c) wire = Inr (msg, l, nxt)"
    and c': "c' = install_config msg l nxt c"
    using assms(1) by (auto simp: apply_config_def split: sum.splits prod.splits)
  obtain rs where b: "build_repos lib (zip (map (\<lambda>r. check_replica_url lib (rc_replica_push_url r) (replica_host c)) rs) rs) fmempty = Inr nxt"
    using check_config_Inr [OF chk] by blast
  obtain st where st: "fmlookup nxt rid = Some st" and new': "new = install_repo c rid st"
    using new by (auto simp: c' install_config_def Let_def)
  have fresh: "rs_result st = no_result \<and> \<not> rs_syncing st \<and> rs_attempt_started_at st = zero_time"
    using build_repos_fresh [OF b] st by simp
  have res: "rs_result (bind_repo st (providers c)) =
      (if rs_matched (bind_repo st (providers c)) \<and> \<not> rs_replica_usable st
       then error_result Unclassified err_invalid_replica else no_result)"
    using fresh by (auto simp: bind_repo_def Let_def split: option.splits)
  have same: "same_sync_identity old (x\<lparr>rs_syncing := b1, rs_attempt_started_at := t1\<rparr>) = same_sync_identity old x"
    "same_sync_identity old (x\<lparr>rs_result := q\<rparr>) = same_sync_identity old x" for x b1 t1 q
    by (simp_all add: same_sync_identity_def)
  show ?thesis
    using fresh bind_repo_bound [of "providers c" st] old
    by (cases "same_sync_identity old (bind_repo st (providers c))")
      (simp_all add: new' install_repo_def Let_def res same)
qed

text \<open>The demo configuration sent again.\<close>

theorem config_resend_keeps_witness:
  "\<exists>n c' new. apply_config demo_lib demo_wire (eng (demo_engine ''t1'')) = (Some n, c') \<and>
     fmlookup (repos c') ''r1'' = Some new \<and> rs_result new = rs_result demo_bound \<and> \<not> rs_syncing new"
proof -
  let ?c = "eng (demo_engine ''t1'')"
  note d = demo_claimed [of "''t1''"]
  obtain msg where msg: "check_config demo_lib ''git.example:443'' demo_wire =
      Inr (msg, default_limits, fmupd ''r1'' demo_repo fmempty)" using demo_check_config by blast
  obtain c' where a: "apply_config demo_lib demo_wire ?c = (Some (max_concurrency default_limits), c')"
    and c': "c' = install_config msg default_limits (fmupd ''r1'' demo_repo fmempty) ?c"
    using d msg by (simp add: apply_config_def)
  let ?new = "install_repo ?c ''r1'' demo_repo"
  have new: "fmlookup (repos c') ''r1'' = Some ?new"
    by (simp add: c' install_config_def Let_def)
  have same: "same_sync_identity demo_bound ?new"
    using d by (simp add: install_repo_def Let_def demo_bind same_sync_identity_def)
  have usable: "rs_replica_usable ?new"
    using d by (simp add: install_repo_def Let_def demo_bind demo_bound_def demo_repo_def same_sync_identity_def)
  from config_resend_keeps [OF a _ new] d same usable
  have "rs_result ?new = rs_result demo_bound \<and> rs_syncing ?new = rs_syncing demo_bound" by simp
  with a new show ?thesis by (simp add: demo_bound_def demo_repo_def)
qed

text \<open>After an accepted configuration a run record survives exactly if its repository is still listed with
the same target, or the configuration lists no repository at all.\<close>

theorem runs_follow_targets:
  assumes "apply_config lib wire c = (Some n, c')"
  shows "fmlookup (runs c') rid = Some rec \<longleftrightarrow>
    fmlookup (runs c) rid = Some rec \<and>
    (case fmlookup (repos c') rid of
       Some st \<Rightarrow> rr_target rec = rs_target st
     | None \<Rightarrow> fmdom' (repos c') = {})"
proof -
  obtain msg l nxt where c': "c' = install_config msg l nxt c"
    using assms(1) by (auto simp: apply_config_def split: sum.splits prod.splits)
  let ?next = "fmmap_keys (install_repo c) nxt"
  have e: "?next = fmempty \<longleftrightarrow> fmdom' ?next = {}"
    by (metis fmdom'_empty fmlookup_dom'_iff empty_iff fmap_ext fmempty_lookup not_Some_eq)
  show ?thesis
    by (cases "fmlookup (runs c) rid"; cases "fmlookup ?next rid")
      (auto simp: c' install_config_def Let_def reconcile_runs_def e)
qed

text \<open>A record of a repository the configuration does not list is dropped.\<close>

theorem runs_follow_targets_witness:
  "fmlookup (runs (snd (apply_config demo_lib demo_wire (eng (init_engine demo_lib ''git.example:443'' None
     (fmupd ''r2'' no_record fmempty)))))) ''r2'' \<noteq> Some no_record"
proof -
  let ?c = "eng (init_engine demo_lib ''git.example:443'' None (fmupd ''r2'' no_record fmempty))"
  obtain acc c' where a: "apply_config demo_lib demo_wire ?c = (acc, c')" by (metis surj_pair)
  have host: "replica_host ?c = ''git.example:443''"
    by (simp add: init_engine_def new_client_def build_provider_set_def demo_pin)
  obtain msg where msg: "check_config demo_lib ''git.example:443'' demo_wire =
      Inr (msg, default_limits, fmupd ''r1'' demo_repo fmempty)" using demo_check_config by blast
  then have acc: "acc = Some (max_concurrency default_limits)" and c': "c' = install_config msg default_limits (fmupd ''r1'' demo_repo fmempty) ?c"
    using a host by (simp_all add: apply_config_def)
  have "fmlookup (repos c') ''r2'' = None" "fmdom' (repos c') = {''r1''}"
    by (simp_all add: c' install_config_def Let_def)
  with runs_follow_targets [of demo_lib demo_wire ?c "max_concurrency default_limits" c' "''r2''" no_record] a acc show ?thesis by simp
qed

end
