(* ===== verification/GitEnv.thy ===== *)
theory GitEnv
  imports Hosts SyncTypes SyncLimits "HOL-Library.Multiset"
begin

text \<open>
  How a git process is set up: its environment and injected configuration (\<open>gitsync/gitexec.go\<close>), the
  directory of a mirror (\<open>gitsync/mirror.go\<close>) and the removal of credentials from what git prints
  (\<open>gitsync/redact.go\<close>). The process environment of the connector is the argument \<open>getenv\<close>.
\<close>

section \<open>Base64\<close>

definition base64_chars :: string where
  "base64_chars = ''ABCDEFGHIJKLMNOPQRSTUVWXYZabcdefghijklmnopqrstuvwxyz0123456789+/''"

definition sextet :: "nat \<Rightarrow> nat \<Rightarrow> char" where
  "sextet n k = base64_chars ! ((n div 64 ^ k) mod 64)"

text \<open>\<open>base64.StdEncoding.EncodeToString\<close>.\<close>

fun base64 :: "string \<Rightarrow> string" where
  "base64 (a # b # c # s) =
     (let n = byte a * 65536 + byte b * 256 + byte c in [sextet n 3, sextet n 2, sextet n 1, sextet n 0] @ base64 s)"
| "base64 [a, b] = (let n = byte a * 65536 + byte b * 256 in [sextet n 3, sextet n 2, sextet n 1] @ ''='')"
| "base64 [a] = (let n = byte a * 65536 in [sextet n 3, sextet n 2] @ ''=='')"
| "base64 [] = []"

section \<open>The environment of a git process\<close>

definition passed_through :: "string list" where
  "passed_through =
     [''HTTPS_PROXY'', ''https_proxy'', ''HTTP_PROXY'', ''http_proxy'', ''NO_PROXY'', ''no_proxy'',
      ''SSL_CERT_FILE'', ''SSL_CERT_DIR'', ''GIT_SSL_CAINFO'']"

definition git_base_env :: "(string \<Rightarrow> string option) \<Rightarrow> string \<Rightarrow> string list" where
  "git_base_env getenv home =
     [''PATH='' @ (case getenv ''PATH'' of None \<Rightarrow> [] | Some v \<Rightarrow> v),
      ''HOME='' @ home, ''TMPDIR='' @ home, ''LC_ALL=C'', ''LANGUAGE='', ''GIT_CONFIG_NOSYSTEM=1'',
      ''GIT_CONFIG_GLOBAL=/dev/null'', ''GIT_TERMINAL_PROMPT=0'', ''GIT_ASKPASS=''] @
     [k @ ''='' @ the (getenv k). k \<leftarrow> passed_through, getenv k \<noteq> None]"

fun config_vars :: "nat \<Rightarrow> (string \<times> string) list \<Rightarrow> string list" where
  "config_vars i [] = []"
| "config_vars i ((k, v) # cfg) =
     (''GIT_CONFIG_KEY_'' @ itoa i @ ''='' @ k) # (''GIT_CONFIG_VALUE_'' @ itoa i @ ''='' @ v) # config_vars (i + 1) cfg"

definition git_config_env :: "string list \<Rightarrow> (string \<times> string) list \<Rightarrow> string list" where
  "git_config_env base cfg = base @ [''GIT_CONFIG_COUNT='' @ itoa (length cfg)] @ config_vars 0 cfg"

definition hardening :: "(string \<times> string) list" where
  "hardening = [(''http.followRedirects'', ''false''), (''credential.helper'', []), (''core.askPass'', [])]"

definition header_key :: "string \<Rightarrow> string" where
  "header_key remote_url = ''http.'' @ trim_suffix remote_url ''/'' @ ''/.extraHeader''"

definition cred_config :: "string \<Rightarrow> string \<Rightarrow> string \<Rightarrow> string \<Rightarrow> (string \<times> string) list" where
  "cred_config remote_url auth username token =
     (if auth = ''bearer'' then hardening @ [(header_key remote_url, ''Authorization: Bearer '' @ token)]
      else if auth = ''basic''
      then hardening @ [(header_key remote_url, ''Authorization: Basic '' @ base64 (username @ '':'' @ token))]
      else hardening)"

text \<open>\<open>strconv.Itoa\<close> of an \<open>int\<close>.\<close>

definition itoa_int :: "int \<Rightarrow> string" where
  "itoa_int i = (if i < 0 then ''-'' @ itoa (nat (- i)) else itoa (nat i))"

definition pack_config :: "limits \<Rightarrow> (string \<times> string) list" where
  "pack_config l =
     (if pack_threads l > 0 then [(''pack.threads'', itoa_int (pack_threads l))] else []) @
     (if pack_window_memory_mb l > 0 then [(''pack.windowMemory'', itoa_int (pack_window_memory_mb l) @ ''m'')] else [])"

definition maintenance_config :: "(string \<times> string) list" where
  "maintenance_config = [(''gc.autoDetach'', ''false''), (''maintenance.autoDetach'', ''false'')]"

definition replica_auth :: string where
  "replica_auth = ''bearer''"

definition origin_env :: "(string \<Rightarrow> string option) \<Rightarrow> string \<Rightarrow> sync_task \<Rightarrow> string list" where
  "origin_env getenv home t =
     git_config_env (git_base_env getenv home)
       (cred_config (canonical_url t) (le_auth (origin t)) (le_username (origin t)) (le_token (origin t)))"

definition fetch_env :: "(string \<Rightarrow> string option) \<Rightarrow> string \<Rightarrow> sync_task \<Rightarrow> limits \<Rightarrow> string list" where
  "fetch_env getenv home t l =
     git_config_env (git_base_env getenv home)
       (cred_config (canonical_url t) (le_auth (origin t)) (le_username (origin t)) (le_token (origin t)) @
        pack_config l @ maintenance_config)"

definition replica_env :: "(string \<Rightarrow> string option) \<Rightarrow> string \<Rightarrow> sync_task \<Rightarrow> limits \<Rightarrow> string list" where
  "replica_env getenv home t l =
     git_config_env (git_base_env getenv home)
       (cred_config (replica_url t) replica_auth [] (push_token t) @ pack_config l)"

section \<open>The directory of a mirror\<close>

text \<open>\<open>filepath.Clean\<close> and \<open>filepath.Join\<close> on a Unix system.\<close>

definition clean_step :: "bool \<Rightarrow> string \<Rightarrow> string list \<Rightarrow> string list" where
  "clean_step rooted c st =
     (if c = ''..''
      then (if st \<noteq> [] \<and> List.last st \<noteq> ''..'' then butlast st else if rooted then st else st @ [''..''])
      else st @ [c])"

definition clean_path :: "string \<Rightarrow> string" where
  "clean_path p =
     (let rooted = prefix ''/'' p;
          st = fold (clean_step rooted) (filter (\<lambda>c. c \<noteq> [] \<and> c \<noteq> ''.'') (split_on (CHR ''/'') p)) [];
          out = (if rooted then ''/'' else []) @ join ''/'' st
      in if out = [] then ''.'' else out)"

definition join_path :: "string \<Rightarrow> string \<Rightarrow> string" where
  "join_path a b =
     (if a = [] \<and> b = [] then [] else if a = [] then clean_path b
      else if b = [] then clean_path a else clean_path (a @ ''/'' @ b))"

definition mirror_dir :: "go_lib \<Rightarrow> string \<Rightarrow> repo_id \<Rightarrow> string" where
  "mirror_dir lib base rid = join_path base (sha256_hex lib rid @ ''.git'')"

section \<open>Removing credentials from git's output\<close>

definition min_redact_length :: nat where
  "min_redact_length = 8"

definition redacted :: string where
  "redacted = ''<redacted>''"

definition secret_forms :: "local_entry \<Rightarrow> string \<Rightarrow> string list" where
  "secret_forms e tok =
     filter (\<lambda>s. min_redact_length \<le> length s)
       ([le_token e, tok] @ (if le_auth e = ''basic'' then [base64 (le_username e @ '':'' @ le_token e)] else []))"

text \<open>\<open>bytes.ReplaceAll\<close> of a non-empty string.\<close>

function replace_all :: "string \<Rightarrow> string \<Rightarrow> string \<Rightarrow> string" where
  "replace_all f r [] = []"
| "replace_all f r (c # cs) =
     (if f \<noteq> [] \<and> prefix f (c # cs) then r @ replace_all f r (drop (length f) (c # cs))
      else c # replace_all f r cs)"
  by pat_completeness auto
termination by (relation "measure (\<lambda>(f, r, s). length s)") auto

definition redact_secrets :: "string \<Rightarrow> string list \<Rightarrow> string" where
  "redact_secrets b forms = fold (\<lambda>f b. replace_all f redacted b) forms b"

section \<open>What git reads back\<close>

text \<open>Git's view of its environment: the value of a variable, and the injected configuration.\<close>

definition env_get :: "string list \<Rightarrow> string \<Rightarrow> string option" where
  "env_get env k = map_option (drop (length k + 1)) (find (prefix (k @ ''='')) env)"

definition git_config_of :: "string list \<Rightarrow> (string \<times> string) list" where
  "git_config_of env =
     (case env_get env ''GIT_CONFIG_COUNT'' of
        None \<Rightarrow> []
      | Some n \<Rightarrow> (case atoi n of
            None \<Rightarrow> []
          | Some c \<Rightarrow> map (\<lambda>i. (the (env_get env (''GIT_CONFIG_KEY_'' @ itoa i)),
                                the (env_get env (''GIT_CONFIG_VALUE_'' @ itoa i)))) [0..<nat c]))"

lemma find_skip: "(\<And>x. x \<in> set xs \<Longrightarrow> \<not> P x) \<Longrightarrow> find P (xs @ ys) = find P ys"
  by (induction xs) auto

lemma prefix_itoa: "prefix (itoa i @ ''='') (itoa j @ ''='' @ s) \<longleftrightarrow> i = j"
proof
  assume "prefix (itoa i @ ''='') (itoa j @ ''='' @ s)"
  then obtain r where r: "itoa j @ ''='' @ s = (itoa i @ ''='') @ r" by (rule prefixE)
  have d: "\<forall>c\<in>set (itoa n). c \<noteq> CHR ''=''" for n
    using itoa_digits [of n] by (auto simp: list_all_iff is_digit_def)
  have t: "takeWhile (\<lambda>c. c \<noteq> CHR ''='') (itoa n @ ''='' @ s) = itoa n" for n s
    using d by (subst takeWhile_append2) auto
  from t [of j s] t [of i r] r have "itoa i = itoa j" by simp
  then show "i = j" by simp
qed simp

lemma base_env_names:
  assumes "x \<in> set (git_base_env getenv home)"
  shows "\<not> prefix ''GIT_CONFIG_COUNT='' x \<and> \<not> prefix (''GIT_CONFIG_KEY_'' @ s) x \<and> \<not> prefix (''GIT_CONFIG_VALUE_'' @ s) x"
  using assms by (auto simp: git_base_env_def passed_through_def split: if_splits)

lemma config_vars_key:
  "i \<le> n \<Longrightarrow> n < i + length cfg \<Longrightarrow>
   find (prefix (''GIT_CONFIG_KEY_'' @ itoa n @ ''='')) (config_vars i cfg) =
     Some (''GIT_CONFIG_KEY_'' @ itoa n @ ''='' @ fst (cfg ! (n - i)))"
proof (induction i cfg rule: config_vars.induct)
  case (2 i k v cfg)
  show ?case
  proof (cases "n = i")
    case True
    then show ?thesis by simp
  next
    case False
    with 2 have "find (prefix (''GIT_CONFIG_KEY_'' @ itoa n @ ''='')) (config_vars (i + 1) cfg) =
        Some (''GIT_CONFIG_KEY_'' @ itoa n @ ''='' @ fst (cfg ! (n - (i + 1))))" by simp
    with False 2(2) prefix_itoa [of n i k] show ?thesis by (simp add: nth_Cons')
  qed
qed simp

lemma config_vars_value:
  "i \<le> n \<Longrightarrow> n < i + length cfg \<Longrightarrow>
   find (prefix (''GIT_CONFIG_VALUE_'' @ itoa n @ ''='')) (config_vars i cfg) =
     Some (''GIT_CONFIG_VALUE_'' @ itoa n @ ''='' @ snd (cfg ! (n - i)))"
proof (induction i cfg rule: config_vars.induct)
  case (2 i k v cfg)
  show ?case
  proof (cases "n = i")
    case True
    then show ?thesis by simp
  next
    case False
    with 2 have "find (prefix (''GIT_CONFIG_VALUE_'' @ itoa n @ ''='')) (config_vars (i + 1) cfg) =
        Some (''GIT_CONFIG_VALUE_'' @ itoa n @ ''='' @ snd (cfg ! (n - (i + 1))))" by simp
    with False 2(2) prefix_itoa [of n i v] show ?thesis by (simp add: nth_Cons')
  qed
qed simp

lemma env_get_count:
  "env_get (git_config_env (git_base_env getenv home) cfg) ''GIT_CONFIG_COUNT'' = Some (itoa (length cfg))"
proof -
  have "find (prefix ''GIT_CONFIG_COUNT='') (git_config_env (git_base_env getenv home) cfg) =
      Some (''GIT_CONFIG_COUNT='' @ itoa (length cfg))"
    unfolding git_config_env_def by (subst find_skip) (use base_env_names in \<open>auto\<close>)
  then show ?thesis by (simp add: env_get_def)
qed

lemma env_get_key:
  assumes "n < length cfg"
  shows "env_get (git_config_env (git_base_env getenv home) cfg) (''GIT_CONFIG_KEY_'' @ itoa n) = Some (fst (cfg ! n))"
proof -
  have "find (prefix (''GIT_CONFIG_KEY_'' @ itoa n @ ''='')) (git_config_env (git_base_env getenv home) cfg) =
      Some (''GIT_CONFIG_KEY_'' @ itoa n @ ''='' @ fst (cfg ! n))"
    unfolding git_config_env_def
    by (subst find_skip) (use base_env_names config_vars_key [of 0 n cfg] assms in \<open>auto\<close>)
  then show ?thesis by (simp add: env_get_def)
qed

lemma env_get_value:
  assumes "n < length cfg"
  shows "env_get (git_config_env (git_base_env getenv home) cfg) (''GIT_CONFIG_VALUE_'' @ itoa n) = Some (snd (cfg ! n))"
proof -
  have "find (prefix (''GIT_CONFIG_VALUE_'' @ itoa n @ ''='')) (git_config_env (git_base_env getenv home) cfg) =
      Some (''GIT_CONFIG_VALUE_'' @ itoa n @ ''='' @ snd (cfg ! n))"
    unfolding git_config_env_def
    by (subst find_skip) (use base_env_names config_vars_value [of 0 n cfg] assms in \<open>auto\<close>)
  then show ?thesis by (simp add: env_get_def)
qed

lemma git_reads_config:
  assumes "length cfg < 2 ^ 63"
  shows "git_config_of (git_config_env (git_base_env getenv home) cfg) = cfg"
proof -
  let ?env = "git_config_env (git_base_env getenv home) cfg"
  have "git_config_of ?env =
      map (\<lambda>i. (the (env_get ?env (''GIT_CONFIG_KEY_'' @ itoa i)), the (env_get ?env (''GIT_CONFIG_VALUE_'' @ itoa i))))
        [0..<length cfg]"
    using atoi_itoa [OF assms] by (simp only: git_config_of_def env_get_count option.case nat_int)
  also have "\<dots> = map (\<lambda>i. (fst (cfg ! i), snd (cfg ! i))) [0..<length cfg]"
    by (rule map_cong [OF refl]) (simp only: env_get_key env_get_value option.sel set_upt atLeastLessThan_iff)
  also have "\<dots> = cfg" by (simp add: map_nth)
  finally show ?thesis .
qed

lemma pack_config_short: "length (pack_config l) \<le> 2"
  by (simp add: pack_config_def)


section \<open>No credential survives redaction\<close>

text \<open>The forms for which replacing is enough: those that cannot be put together from the marker.\<close>

definition plain_form :: "string \<Rightarrow> bool" where
  "plain_form f \<longleftrightarrow> f \<noteq> [] \<and> CHR ''<'' \<notin> set f \<and> CHR ''>'' \<notin> set f \<and> \<not> sublist f ''redacted''"

lemma sublist_cut: "d \<notin> set f \<Longrightarrow> sublist f (x @ d # y) \<longleftrightarrow> sublist f x \<or> sublist f y"
  by (auto simp: sublist_append sublist_Cons_right prefix_append prefix_Cons suffix_append suffix_Cons)

lemma sublist_marker:
  assumes "plain_form f"
  shows "sublist f (x @ redacted @ y) \<longleftrightarrow> sublist f x \<or> sublist f y"
proof -
  have e: "x @ redacted @ y = x @ CHR ''<'' # (''redacted'' @ CHR ''>'' # y)" by (simp add: redacted_def)
  have f: "CHR ''<'' \<notin> set f" "CHR ''>'' \<notin> set f" "\<not> sublist f ''redacted''" "\<not> sublist f []"
    using assms by (simp_all add: plain_form_def)
  show ?thesis
    unfolding e sublist_cut [OF f(1)] sublist_cut [OF f(2)] using f(3) by blast
qed

lemma replace_all_keeps:
  assumes g: "plain_form g"
  shows "\<not> sublist g (acc @ s) \<Longrightarrow> \<not> sublist g (acc @ replace_all f redacted s)"
proof (induction f redacted s arbitrary: acc rule: replace_all.induct)
  case (2 f c cs)
  show ?case
  proof (cases "f \<noteq> [] \<and> prefix f (c # cs)")
    case True
    have "sublist g acc \<Longrightarrow> sublist g (acc @ c # cs)" by (simp add: sublist_append)
    moreover have "sublist g (drop (length f) (c # cs)) \<Longrightarrow> sublist g (acc @ c # cs)"
      by (metis append_take_drop_id sublist_append sublist_appendI)
    ultimately have "\<not> sublist g acc" "\<not> sublist g ([] @ replace_all f redacted (drop (length f) (c # cs)))"
      using 2(1) [OF True, of "[]"] 2(3) by auto
    then have "\<not> sublist g (acc @ redacted @ replace_all f redacted (drop (length f) (c # cs)))"
      by (simp add: sublist_marker [OF g])
    with True show ?thesis by simp
  next
    case False
    with 2(2) [OF False, of "acc @ [c]"] 2(3) show ?thesis by auto
  qed
qed simp

lemma sublist_iff_drop: "f \<noteq> [] \<Longrightarrow> sublist f s \<longleftrightarrow> (\<exists>i < length s. prefix f (drop i s))"
proof
  assume f: "f \<noteq> []" "sublist f s"
  then obtain x y where s: "s = x @ f @ y" by (auto simp: sublist_def)
  with f show "\<exists>i < length s. prefix f (drop i s)" by (intro exI [of _ "length x"]) simp
next
  assume "\<exists>i < length s. prefix f (drop i s)"
  then obtain i y where "drop i s = f @ y" by (auto elim: prefixE)
  then have "s = take i s @ f @ y" by (metis append_take_drop_id)
  then show "sublist f s" unfolding sublist_def by blast
qed

lemma replace_all_removes:
  assumes f: "plain_form f"
  shows "\<forall>i < length acc. \<not> prefix f (drop i (acc @ s)) \<Longrightarrow> \<not> sublist f (acc @ replace_all f redacted s)"
  using f
proof (induction f redacted s arbitrary: acc rule: replace_all.induct)
  case (1 f)
  then have "f \<noteq> []" by (simp add: plain_form_def)
  with 1 show ?case by (simp add: sublist_iff_drop)
next
  case (2 f c cs)
  have ne: "f \<noteq> []" using 2(4) by (simp add: plain_form_def)
  show ?case
  proof (cases "f \<noteq> [] \<and> prefix f (c # cs)")
    case True
    have "\<not> sublist f acc"
    proof
      assume "sublist f acc"
      then obtain i where "i < length acc" "prefix f (drop i acc)" using ne by (auto simp: sublist_iff_drop)
      then have "prefix f (drop i (acc @ c # cs))" by (simp add: prefix_append)
      with 2(3) \<open>i < length acc\<close> show False by blast
    qed
    moreover have "\<not> sublist f ([] @ replace_all f redacted (drop (length f) (c # cs)))"
      using 2(1) [OF True, of "[]"] 2(4) by simp
    ultimately have "\<not> sublist f (acc @ redacted @ replace_all f redacted (drop (length f) (c # cs)))"
      using 2(4) by (simp add: sublist_marker)
    with True show ?thesis by simp
  next
    case False
    then have "\<not> prefix f (c # cs)" using ne by blast
    then have "\<forall>i < length (acc @ [c]). \<not> prefix f (drop i ((acc @ [c]) @ cs))"
      using 2(3) by (auto simp: less_Suc_eq)
    from 2(2) [OF False this 2(4)] False show ?thesis by auto
  qed
qed

lemma redact_keeps:
  "plain_form g \<Longrightarrow> \<not> sublist g b \<Longrightarrow> \<not> sublist g (redact_secrets b forms)"
proof (induction forms arbitrary: b)
  case (Cons f forms)
  from replace_all_keeps [OF Cons.prems(1), of "[]" b f] Cons.prems(2)
  have "\<not> sublist g (replace_all f redacted b)" by simp
  from Cons.IH [OF Cons.prems(1) this] show ?case by (simp add: redact_secrets_def)
qed (simp add: redact_secrets_def)

lemma redact_removes:
  assumes "plain_form f" and "f \<in> set forms"
  shows "\<not> sublist f (redact_secrets b forms)"
  using assms(2)
proof (induction forms arbitrary: b)
  case (Cons g forms)
  show ?case
  proof (cases "f = g")
    case True
    have "\<not> sublist f (replace_all f redacted b)"
      using replace_all_removes [OF assms(1), of "[]" b] by simp
    from redact_keeps [OF assms(1) this, of forms] True show ?thesis by (simp add: redact_secrets_def)
  next
    case False
    with Cons.IH [of "replace_all g redacted b"] Cons.prems show ?thesis by (simp add: redact_secrets_def)
  qed
qed simp

text \<open>C31. After redaction no credential of the sync occurs in the text: not the token of the origin, not
the push token and, with basic authentication, not the base64 of user name and token; provided it
has at least eight characters and shares no text with the placeholder.\<close>

theorem redaction_complete:
  assumes "f = le_token e \<or> f = tok \<or> le_auth e = ''basic'' \<and> f = base64 (le_username e @ '':'' @ le_token e)"
    and "8 \<le> length f" and "plain_form f"
  shows "\<not> sublist f (redact_secrets b (secret_forms e tok))"
  by (rule redact_removes) (use assms in \<open>auto simp: secret_forms_def min_redact_length_def\<close>)

definition demo_token_entry :: local_entry where
  "demo_token_entry =
     \<lparr>le_base_url = ''https://git.example'', le_auth = ''bearer'', le_username = [], le_token = ''0123456789abcdef'',
      le_token_file = []\<rparr>"

theorem redaction_complete_witness:
  "\<not> sublist ''0123456789abcdef''
     (redact_secrets ''remote: got 0123456789abcdef0123456789abcdef''
        (secret_forms demo_token_entry ''push''))"
proof -
  have "\<not> sublist ''0123456789abcdef'' ''redacted''"
    by (auto dest: sublist_length_le)
  then have p: "plain_form ''0123456789abcdef''" by (simp add: plain_form_def)
  show ?thesis by (rule redaction_complete) (simp_all add: p demo_token_entry_def)
qed

section \<open>Every repository has a mirror of its own\<close>

lemma split_on_snoc:
  "CHR ''/'' \<notin> set c \<Longrightarrow> split_on (CHR ''/'') (a @ ''/'' @ c) = split_on (CHR ''/'') a @ [c]"
proof (induction a)
  case Nil
  then have "split_on (CHR ''/'') c = [c]" by (induction c) auto
  then show ?case by simp
next
  case (Cons x a)
  then show ?case by (cases "split_on (CHR ''/'') a") auto
qed

lemma join_snoc: "join d (st @ [c]) = (if st = [] then c else join d st @ d @ c)"
  by (induction d st rule: join.induct) auto

lemma clean_path_last:
  assumes "CHR ''/'' \<notin> set c" and "c \<noteq> []" "c \<noteq> ''.''" "c \<noteq> ''..''"
  shows "\<exists>x. \<forall>c. CHR ''/'' \<notin> set c \<longrightarrow> c \<noteq> [] \<longrightarrow> c \<noteq> ''.'' \<longrightarrow> c \<noteq> ''..'' \<longrightarrow> clean_path (a @ ''/'' @ c) = x @ c"
proof -
  let ?rooted = "prefix ''/'' (a @ ''/'')"
  let ?st = "fold (clean_step ?rooted) (filter (\<lambda>c. c \<noteq> [] \<and> c \<noteq> ''.'') (split_on (CHR ''/'') a)) []"
  have "clean_path (a @ ''/'' @ c) =
      ((if ?rooted then ''/'' else []) @ (if ?st = [] then [] else join ''/'' ?st @ ''/'')) @ c"
    if c: "CHR ''/'' \<notin> set c" "c \<noteq> []" "c \<noteq> ''.''" "c \<noteq> ''..''" for c
  proof -
    have r: "prefix ''/'' (a @ ''/'' @ c) = ?rooted" by (cases a) auto
    have st: "fold (clean_step ?rooted) (filter (\<lambda>c. c \<noteq> [] \<and> c \<noteq> ''.'') (split_on (CHR ''/'') (a @ ''/'' @ c))) [] =
        ?st @ [c]"
      unfolding split_on_snoc [OF c(1)] using c by (simp add: clean_step_def)
    show ?thesis
      unfolding clean_path_def Let_def r st join_snoc using c by simp
  qed
  then show ?thesis by blast
qed

lemma mirror_dir_name:
  assumes "\<And>s. CHR ''/'' \<notin> set (sha256_hex lib s)"
  shows "\<exists>x. \<forall>rid. mirror_dir lib base rid = x @ sha256_hex lib rid @ ''.git''"
proof -
  let ?n = "\<lambda>rid. sha256_hex lib rid @ ''.git''"
  have n: "CHR ''/'' \<notin> set (?n rid)" "?n rid \<noteq> []" "?n rid \<noteq> ''.''" "?n rid \<noteq> ''..''" for rid
    using assms [of rid] by (auto simp: append_eq_Cons_conv)
  show ?thesis
  proof (cases "base = []")
    case True
    have "clean_path (?n rid) = ?n rid" for rid
    proof -
      have "split_on (CHR ''/'') (?n rid) = [?n rid]"
        using n(1) [of rid] by (rule split_on_word)
      moreover have "\<not> prefix ''/'' (?n rid)" using n(1) [of rid] by (cases "sha256_hex lib rid") auto
      ultimately show ?thesis using n [of rid] by (simp add: clean_path_def clean_step_def Let_def)
    qed
    with True show ?thesis by (intro exI [of _ "[]"]) (simp add: mirror_dir_def join_path_def)
  next
    case False
    obtain x where "\<forall>c. CHR ''/'' \<notin> set c \<longrightarrow> c \<noteq> [] \<longrightarrow> c \<noteq> ''.'' \<longrightarrow> c \<noteq> ''..'' \<longrightarrow> clean_path (base @ ''/'' @ c) = x @ c"
      using clean_path_last [OF n] by blast
    with n False show ?thesis by (intro exI [of _ x]) (simp add: mirror_dir_def join_path_def)
  qed
qed

text \<open>Two repositories whose identifiers hash differently never share a mirror directory, whatever the
mirror root.\<close>

theorem mirrors_distinct:
  assumes "\<And>s. CHR ''/'' \<notin> set (sha256_hex lib s)" and "sha256_hex lib r1 \<noteq> sha256_hex lib r2"
  shows "mirror_dir lib base r1 \<noteq> mirror_dir lib base r2"
  using mirror_dir_name [OF assms(1), of base] assms(2) by auto

theorem mirrors_distinct_witness:
  "mirror_dir (example_lib\<lparr>sha256_hex := \<lambda>s. itoa (length s)\<rparr>) ''/data/mirrors'' ''a'' \<noteq>
   mirror_dir (example_lib\<lparr>sha256_hex := \<lambda>s. itoa (length s)\<rparr>) ''/data/mirrors'' ''ab''"
proof (rule mirrors_distinct)
  fix s :: string
  have "list_all is_digit (itoa (length s))" using itoa_digits by blast
  then show "CHR ''/'' \<notin> set (sha256_hex (example_lib\<lparr>sha256_hex := \<lambda>s. itoa (length s)\<rparr>) s)"
    by (auto simp: list_all_iff is_digit_def)
qed simp

end
