(* ===== verification/GoRegexp.thy ===== *)
theory GoRegexp
  imports GoStrings
begin

text \<open>
  The regular expressions of package \<open>regexp\<close>, as far as the connector uses them: leftmost matches
  with greedy repetition and preference for the left alternative, one capturing group, the assertions
  at the ends of the text and of a line and at an ASCII word boundary. They are matched on bytes. Every
  expression modelled here starts with an ASCII character or an assertion and excludes only ASCII
  characters from its classes, so a match never begins or ends inside the encoding of a rune, and
  matching bytes and matching runes agree.
\<close>

section \<open>Matching\<close>

datatype re =
    Eps
  | Chr "char \<Rightarrow> bool"
  | Cat re re
  | Alt re re
  | Rep re
  | Grp re
  | TextStart
  | TextEnd
  | LineStart
  | WordEdge

text \<open>A position: the text before it, reversed, the text from it on, and what the group has captured.\<close>

type_synonym pos = "string \<times> string \<times> string option"

definition is_word :: "char \<Rightarrow> bool" where
  "is_word c \<longleftrightarrow> is_alpha c \<or> is_digit c \<or> c = CHR ''_''"

definition word_at :: "string \<Rightarrow> bool" where
  "word_at s \<longleftrightarrow> (case s of [] \<Rightarrow> False | c # _ \<Rightarrow> is_word c)"

abbreviation rest_of :: "pos \<Rightarrow> string" where
  "rest_of p \<equiv> fst (snd p)"

text \<open>All the ways to match at a position, in the order in which they are preferred.\<close>

function ways :: "re \<Rightarrow> pos \<Rightarrow> pos list" where
  "ways Eps p = [p]"
| "ways (Chr f) (b, s, g) = (case s of c # cs \<Rightarrow> if f c then [(c # b, cs, g)] else [] | [] \<Rightarrow> [])"
| "ways (Cat r1 r2) p = concat (map (ways r2) (ways r1 p))"
| "ways (Alt r1 r2) p = ways r1 p @ ways r2 p"
| "ways (Rep r) p =
     concat (map (ways (Rep r)) (filter (\<lambda>q. length (rest_of q) < length (rest_of p)) (ways r p))) @ [p]"
| "ways (Grp r) (b, s, g) =
     map (\<lambda>(b', s', _). (b', s', Some (take (length s - length s') s))) (ways r (b, s, g))"
| "ways TextStart p = (if fst p = [] then [p] else [])"
| "ways TextEnd p = (if rest_of p = [] then [p] else [])"
| "ways LineStart p = (if fst p = [] \<or> hd (fst p) = newline then [p] else [])"
| "ways WordEdge p = (if word_at (fst p) \<noteq> word_at (rest_of p) then [p] else [])"
  by pat_completeness auto
termination by (relation "measures [\<lambda>(r, p). size r, \<lambda>(r, p). length (rest_of p)]") auto

declare ways.simps [simp del]

text \<open>A match: what precedes it (reversed), the matched text, what the group captured, and what follows.\<close>

record re_match =
  m_text :: string
  m_group :: "string option"
  m_rest :: pos

definition match_at :: "re \<Rightarrow> string \<Rightarrow> string \<Rightarrow> re_match option" where
  "match_at r b s =
     (case ways r (b, s, None) of
        [] \<Rightarrow> None
      | (b', s', g) # _ \<Rightarrow> Some \<lparr>m_text = take (length s - length s') s, m_group = g, m_rest = (b', s', None)\<rparr>)"

fun search_from :: "re \<Rightarrow> string \<Rightarrow> string \<Rightarrow> re_match option" where
  "search_from r b s =
     (case match_at r b s of
        Some m \<Rightarrow> Some m
      | None \<Rightarrow> (case s of [] \<Rightarrow> None | c # cs \<Rightarrow> search_from r (c # b) cs))"

declare search_from.simps [simp del]

definition find_match :: "re \<Rightarrow> string \<Rightarrow> re_match option" where
  "find_match r s = search_from r [] s"

definition matches :: "re \<Rightarrow> string \<Rightarrow> bool" where
  "matches r s \<longleftrightarrow> find_match r s \<noteq> None"

text \<open>
  \<open>ReplaceAllString\<close>, for expressions that match no empty text: what replaces a match is a function of
  the captured group.
\<close>

function replace_from :: "re \<Rightarrow> (string option \<Rightarrow> string) \<Rightarrow> string \<Rightarrow> string \<Rightarrow> string" where
  "replace_from r f b s =
     (case match_at r b s of
        Some m \<Rightarrow>
          if length (rest_of (m_rest m)) < length s
          then f (m_group m) @ replace_from r f (fst (m_rest m)) (rest_of (m_rest m))
          else (case s of [] \<Rightarrow> [] | c # cs \<Rightarrow> c # replace_from r f (c # b) cs)
      | None \<Rightarrow> (case s of [] \<Rightarrow> [] | c # cs \<Rightarrow> c # replace_from r f (c # b) cs))"
  by pat_completeness auto
termination by (relation "measure (\<lambda>(r, f, b, s). length s)") auto

declare replace_from.simps [simp del]

definition replace_matches :: "re \<Rightarrow> (string option \<Rightarrow> string) \<Rightarrow> string \<Rightarrow> string" where
  "replace_matches r f s = replace_from r f [] s"

section \<open>Building expressions\<close>

definition one :: "char \<Rightarrow> re" where
  "one c = Chr (\<lambda>x. x = c)"

definition lit :: "string \<Rightarrow> re" where
  "lit s = foldr (\<lambda>c r. Cat (one c) r) s Eps"

definition opt :: "re \<Rightarrow> re" where
  "opt r = Alt r Eps"

definition plus :: "re \<Rightarrow> re" where
  "plus r = Cat r (Rep r)"

definition seqs :: "re list \<Rightarrow> re" where
  "seqs rs = foldr Cat rs Eps"

text \<open>\<open>\s\<close> and \<open>\S\<close>.\<close>

definition re_space :: "char \<Rightarrow> bool" where
  "re_space c \<longleftrightarrow> byte c \<in> {9, 10, 12, 13, 32}"

definition space :: re where
  "space = Chr re_space"

definition non_space :: re where
  "non_space = Chr (\<lambda>c. \<not> re_space c)"

definition none_of :: "string \<Rightarrow> re" where
  "none_of cs = Chr (\<lambda>c. c \<notin> set cs)"

text \<open>A literal under \<open>(?i)\<close>: the letter k also matches the Kelvin sign (U+212A).\<close>

definition fold_char :: "char \<Rightarrow> re" where
  "fold_char c =
     (if c = CHR ''k'' then Alt (Chr (\<lambda>x. lower_char x = c)) (lit [CHR 0xE2, CHR 0x84, CHR 0xAA])
      else Chr (\<lambda>x. lower_char x = c))"

definition fold_lit :: "string \<Rightarrow> re" where
  "fold_lit s = foldr (\<lambda>c r. Cat (fold_char c) r) s Eps"

section \<open>Basic facts\<close>

text \<open>A way of matching consumes a part of the text.\<close>

definition consumes :: "pos \<Rightarrow> pos \<Rightarrow> bool" where
  "consumes p q \<longleftrightarrow> rev (fst q) @ rest_of q = rev (fst p) @ rest_of p \<and> suffix (rest_of q) (rest_of p)"

lemma consumes_refl [simp]: "consumes p p"
  by (simp add: consumes_def)

lemma consumes_trans: "consumes p q \<Longrightarrow> consumes q r \<Longrightarrow> consumes p r"
  by (auto simp: consumes_def intro: suffix_order.trans)

lemma ways_consume: "q \<in> set (ways r p) \<Longrightarrow> consumes p q"
proof (induction r p arbitrary: q rule: ways.induct)
  case (2 f b s g)
  then show ?case by (cases s) (auto simp: ways.simps consumes_def suffix_Cons split: if_splits)
next
  case (3 r1 r2 p)
  then obtain x where "x \<in> set (ways r1 p)" "q \<in> set (ways r2 x)" by (auto simp: ways.simps(3))
  with 3(1,2) consumes_trans show ?case by blast
next
  case (5 r p)
  show ?case
  proof (cases "q = p")
    case True
    then show ?thesis by simp
  next
    case False
    with 5(3) obtain x where x: "x \<in> set (filter (\<lambda>q. length (rest_of q) < length (rest_of p)) (ways r p))"
      "q \<in> set (ways (Rep r) x)"
      by (auto simp: ways.simps(5) [of r p])
    then have "x \<in> set (ways r p)" by simp
    with 5(1) 5(2) [OF x] consumes_trans show ?thesis by blast
  qed
next
  case (6 r b s g)
  then show ?case by (force simp: ways.simps consumes_def)
qed (auto simp: ways.simps split: if_splits)

lemma match_at_text:
  assumes "match_at r b s = Some m"
  shows "s = m_text m @ rest_of (m_rest m)"
proof -
  obtain x xs where x: "ways r (b, s, None) = x # xs"
    using assms by (auto simp: match_at_def split: list.splits)
  obtain b' s' g where p: "x = (b', s', g)" by (metis prod_cases3)
  have w: "(b', s', g) \<in> set (ways r (b, s, None))" "rest_of (m_rest m) = s'"
    "m_text m = take (length s - length s') s"
    using assms x p by (auto simp: match_at_def)
  then have "suffix s' s" using ways_consume [OF w(1)] by (simp add: consumes_def)
  then obtain u where "s = u @ s'" by (rule suffixE)
  with w show ?thesis by simp
qed

text \<open>Nothing the expression matches is left at the position where its first match was found.\<close>

lemma search_first:
  "search_from r b s = Some m \<Longrightarrow> \<exists>u b'. s = u @ m_text m @ rest_of (m_rest m) \<and> match_at r b' (m_text m @ rest_of (m_rest m)) = Some m"
proof (induction r b s rule: search_from.induct)
  case (1 r b s)
  show ?case
  proof (cases "match_at r b s")
    case (Some m')
    with 1(2) have m: "m' = m" by (simp add: search_from.simps [of r b s])
    have s: "s = m_text m @ rest_of (m_rest m)" using match_at_text [OF Some] m by simp
    show ?thesis
    proof (intro exI conjI)
      show "s = [] @ m_text m @ rest_of (m_rest m)" using s by simp
      show "match_at r b (m_text m @ rest_of (m_rest m)) = Some m" using Some m s by simp
    qed
  next
    case None
    with 1(2) obtain c cs where s: "s = c # cs" "search_from r (c # b) cs = Some m"
      by (auto simp: search_from.simps [of r b s] split: list.splits)
    from 1(1) [OF None s] obtain u b' where
      "cs = u @ m_text m @ rest_of (m_rest m)" "match_at r b' (m_text m @ rest_of (m_rest m)) = Some m" by blast
    then have "s = (c # u) @ m_text m @ rest_of (m_rest m)" using s by simp
    with \<open>match_at r b' _ = Some m\<close> show ?thesis by blast
  qed
qed

end
