(* ===== verification/GoText.thy ===== *)
theory GoText
  imports GoStrings
begin

text \<open>
  The functions of package \<open>strings\<close> that walk over the runes of a string. A string is cut into the
  bytes of its runes, a byte that decodes to nothing being a rune of its own.
\<close>

function chunks :: "string \<Rightarrow> string list" where
  "chunks [] = []"
| "chunks (c # cs) = (case decode_rune c cs of (r, w) \<Rightarrow> (c # take (w - 1) cs) # chunks (drop (w - 1) cs))"
  by pat_completeness auto
termination by (relation "measure length") auto

definition rune_of :: "string \<Rightarrow> nat" where
  "rune_of ch = fst (decode_rune (hd ch) (tl ch))"

definition broken :: "string \<Rightarrow> bool" where
  "broken ch \<longleftrightarrow> decode_rune (hd ch) (tl ch) = (rune_error, 1)"

definition rune_error_bytes :: string where
  "rune_error_bytes = [CHR 0xEF, CHR 0xBF, CHR 0xBD]"

definition space_chunk :: "string \<Rightarrow> bool" where
  "space_chunk ch \<longleftrightarrow> is_space (rune_of ch)"

text \<open>\<open>strings.TrimSpace\<close> and \<open>strings.Fields\<close>.\<close>

definition trim_space :: "string \<Rightarrow> string" where
  "trim_space s = concat (rev (dropWhile space_chunk (rev (dropWhile space_chunk (chunks s)))))"

fun split_at :: "('a \<Rightarrow> bool) \<Rightarrow> 'a list \<Rightarrow> 'a list list" where
  "split_at P [] = [[]]"
| "split_at P (x # xs) =
     (if P x then [] # split_at P xs
      else (case split_at P xs of y # ys \<Rightarrow> (x # y) # ys | [] \<Rightarrow> [[x]]))"

definition text_fields :: "string \<Rightarrow> string list" where
  "text_fields s = filter (\<lambda>f. f \<noteq> []) (map concat (split_at space_chunk (chunks s)))"

text \<open>\<open>strings.Map\<close> with a mapping that turns the control characters into spaces.\<close>

definition blank_chunk :: "string \<Rightarrow> string" where
  "blank_chunk ch = (if is_control (rune_of ch) then '' '' else if broken ch then rune_error_bytes else ch)"

definition blank_controls :: "string \<Rightarrow> string" where
  "blank_controls s = concat (map blank_chunk (chunks s))"

section \<open>Basic facts\<close>

lemma concat_chunks [simp]: "concat (chunks s) = s"
proof (induction s rule: chunks.induct)
  case (2 c cs)
  obtain r w where d: "decode_rune c cs = (r, w)" by (metis surj_pair)
  with 2 show ?case by simp
qed simp

lemma chunk_bytes: "ch \<in> set (chunks s) \<Longrightarrow> set ch \<subseteq> set s"
  by (metis concat_chunks set_concat UN_upper image_set)

lemma chunk_nonempty: "ch \<in> set (chunks s) \<Longrightarrow> ch \<noteq> []"
proof (induction s rule: chunks.induct)
  case (2 c cs)
  obtain r w where d: "decode_rune c cs = (r, w)" by (metis surj_pair)
  with 2 show ?case by auto
qed simp

lemma split_at_nonempty [simp]: "split_at P xs \<noteq> []"
  by (cases xs) (auto split: list.splits)

lemma split_at_elems: "f \<in> set (split_at P xs) \<Longrightarrow> x \<in> set f \<Longrightarrow> x \<in> set xs \<and> \<not> P x"
proof (induction xs arbitrary: f)
  case (Cons a xs)
  obtain y ys where s: "split_at P xs = y # ys" by (cases "split_at P xs") auto
  have y: "x \<in> set y \<Longrightarrow> x \<in> set xs \<and> \<not> P x" using Cons.IH [of y] s by simp
  show ?case
  proof (cases "P a")
    case True
    with Cons show ?thesis by auto
  next
    case False
    with Cons.prems s consider "f = a # y" | "f \<in> set ys" by auto
    then show ?thesis
    proof cases
      case 1
      with Cons.prems(2) False y show ?thesis by auto
    next
      case 2
      with Cons.IH [of f] Cons.prems(2) s show ?thesis by simp
    qed
  qed
qed simp

lemma set_join: "set (join d xs) \<subseteq> set d \<union> \<Union> (set ` set xs)"
  by (induction d xs rule: join.induct) auto

lemma text_fields_bytes: "f \<in> set (text_fields s) \<Longrightarrow> set f \<subseteq> set s"
proof
  fix x assume f: "f \<in> set (text_fields s)" "x \<in> set f"
  then obtain chs where c: "chs \<in> set (split_at space_chunk (chunks s))" "f = concat chs"
    by (auto simp: text_fields_def)
  with f(2) obtain ch where ch: "ch \<in> set chs" "x \<in> set ch" by auto
  then have "ch \<in> set (chunks s)" using split_at_elems [OF c(1) ch(1)] by simp
  with ch(2) chunk_bytes show "x \<in> set s" by blast
qed

text \<open>What \<open>blank_controls\<close> leaves has no ASCII control characters.\<close>

lemma ascii_chunk:
  assumes "ch \<in> set (chunks s)" and "x \<in> set ch" and "byte x < 128"
  shows "ch = [x]"
  using assms
proof (induction s rule: chunks.induct)
  case (2 c cs)
  obtain r w where d: "decode_rune c cs = (r, w)" by (metis surj_pair)
  show ?case
  proof (cases "ch \<in> set (chunks (drop (w - 1) cs))")
    case True
    with 2 d show ?thesis by auto
  next
    case False
    with 2(2) d have ch: "ch = c # take (w - 1) cs" by auto
    have "w = 1 \<or> (\<forall>y \<in> set (take (w - 1) cs). 128 \<le> byte y) \<and> 128 \<le> byte c"
      using d by (auto simp: Let_def cont_def split: if_splits list.splits)
    with 2(3,4) ch show ?thesis by auto
  qed
qed simp

lemma blank_controls_bytes:
  assumes "x \<in> set (blank_controls s)"
  shows "32 \<le> byte x \<and> byte x \<noteq> 127"
proof -
  obtain ch where ch: "ch \<in> set (chunks s)" "x \<in> set (blank_chunk ch)"
    using assms by (auto simp: blank_controls_def)
  show ?thesis
  proof (cases "is_control (rune_of ch)")
    case True
    with ch show ?thesis by (simp add: blank_chunk_def)
  next
    case nc: False
    show ?thesis
    proof (cases "broken ch")
      case True
      with nc ch show ?thesis by (auto simp: blank_chunk_def rune_error_bytes_def)
    next
      case False
      with nc ch have x: "x \<in> set ch" by (simp add: blank_chunk_def)
      show ?thesis
      proof (cases "byte x < 128")
        case True
        from ascii_chunk [OF ch(1) x this] have "ch = [x]" .
        with nc True have "\<not> is_control (byte x)" by (simp add: rune_of_def Let_def)
        with True show ?thesis by (simp add: is_control_def)
      qed simp
    qed
  qed
qed

end
