(* ===== verification/Classify.thy ===== *)
theory Classify
  imports GoRegexp GoText SyncTypes
begin

text \<open>
  What a failed git process means (\<open>gitsync/classify.go\<close>, and the probe's reading of \<open>git ls-remote\<close> and
  the capped stderr buffer of \<open>gitsync/probe.go\<close>). The argument \<open>lower\<close> is \<open>strings.ToLower\<close>, which needs
  the Unicode case tables.
\<close>

section \<open>Errors of a git process\<close>

text \<open>
  The errors the code tells apart: one that wraps \<open>context.DeadlineExceeded\<close>, an exit status, git (or a
  file) that could not be started, the sentinel \<open>errNoRefs\<close>, and any other, with its text.
\<close>

datatype git_error =
    TimedOut string
  | ExitStatus int string
  | NotStarted string
  | NoRefs
  | OtherError string

fun error_text :: "git_error \<Rightarrow> string" where
  "error_text (TimedOut what) = what @ '' timed out: context deadline exceeded''"
| "error_text (ExitStatus n text) = text"
| "error_text (NotStarted text) = text"
| "error_text NoRefs = ''mirror has no branches or tags''"
| "error_text (OtherError text) = text"

fun is_deadline :: "git_error \<Rightarrow> bool" where
  "is_deadline (TimedOut _) = True"
| "is_deadline _ = False"

section \<open>The patterns\<close>

definition quote_char :: char where
  "quote_char = CHR 0x27"

definition digit_re :: re where
  "digit_re = Chr is_digit"

definition http_status_re :: re where
  "http_status_re = Cat (lit ''returned error: '') (Grp (seqs [digit_re, digit_re, digit_re]))"

definition quoted_re :: re where
  "quoted_re = seqs [one quote_char, Rep (none_of [quote_char]), one quote_char]"

definition url_re :: re where
  "url_re = seqs [lit ''http'', opt (one (CHR ''s'')), lit ''://'', plus non_space]"

definition path_re :: re where
  "path_re =
     seqs [Grp (Alt TextStart (Chr (\<lambda>c. re_space c \<or> c = CHR ''(''))), one (CHR ''/''),
           plus (Chr (\<lambda>c. \<not> re_space c \<and> c \<noteq> CHR '')''))]"

definition host_label :: re where
  "host_label = plus (Chr (\<lambda>c. is_alpha c \<or> is_digit c \<or> c = CHR ''-''))"

definition host_re :: re where
  "host_re =
     seqs [WordEdge, plus (Cat host_label (one (CHR ''.''))), host_label,
           opt (Cat (one (CHR '':'')) (plus digit_re)), WordEdge]"

definition ref_status_re :: re where
  "ref_status_re = seqs [TextStart, one (CHR '' ''), Chr (\<lambda>c. c \<in> set ''!*+=-''), one (CHR '' '')]"

definition remote_header_re :: re where
  "remote_header_re =
     seqs [TextStart, Alt (lit ''To'') (lit ''From''), one (CHR '' ''), plus non_space, TextEnd]"

definition bracket_re :: re where
  "bracket_re = seqs [one (CHR ''[''), Rep (none_of '']''), one (CHR '']'')]"

definition reason_re :: re where
  "reason_re = seqs [one (CHR ''(''), Grp (Rep (none_of ''()'')), one (CHR '')''), Rep space, TextEnd]"

definition remote_text_re :: re where
  "remote_text_re =
     seqs [Grp (Alt (Cat TextStart (fold_lit ''remote:''))
                    (seqs [WordEdge, fold_lit ''remote '', Alt (fold_lit ''error'') (fold_lit ''unpack failed''),
                           one (CHR '':'')])),
           Rep space, non_space, Rep (none_of [newline]), TextEnd]"

definition child_killed_re :: re where
  "child_killed_re =
     seqs [LineStart, Rep space, Alt (lit ''error'') (lit ''fatal''), lit '': '', plus non_space,
           lit '' died of signal 9'', WordEdge]"

section \<open>The markers\<close>

definition auth_markers :: "string list" where
  "auth_markers =
     [''authentication failed'', ''could not read username'', ''could not read password'',
      ''terminal prompts disabled'', ''401 unauthorized'', ''403 forbidden'', ''http basic: access denied'']"

definition conn_markers :: "string list" where
  "conn_markers =
     [''could not resolve host'', ''couldn'' @ [quote_char] @ ''t resolve host'', ''could not resolve proxy'',
      ''connection refused'', ''connection timed out'', ''timed out'', ''could not connect'', ''failed to connect'',
      ''network is unreachable'', ''no route to host'', ''connection reset'', ''ssl'', ''tls'', ''certificate'']"

definition disk_markers :: "string list" where
  "disk_markers = [''no space left on device'', ''disk quota exceeded'']"

definition memory_markers :: "string list" where
  "memory_markers = [''out of memory'', ''cannot allocate memory'', ''std::bad_alloc'']"

definition replica_quota_markers :: "string list" where
  "replica_quota_markers = [''size limit'', ''maximum allowed size'', ''too large'', ''quota'']"

definition rejected_markers :: "string list" where
  "rejected_markers = [''remote rejected'', ''hook declined'', ''pre-receive hook'', ''unpacker error'']"

definition credential_markers :: "string list" where
  "credential_markers =
     [''authentication failed'', ''could not read username'', ''could not read password'',
      ''terminal prompts disabled'', ''401 unauthorized'', ''http basic: access denied'']"

definition corrupt_mirror_markers :: "string list" where
  "corrupt_mirror_markers = [''not a git repository'', ''corrupt'', ''bad object'']"

definition has_marker :: "string \<Rightarrow> string list \<Rightarrow> bool" where
  "has_marker s markers \<longleftrightarrow> list_ex (\<lambda>m. sublist m s) markers"

section \<open>The text keywords are looked for in\<close>

definition lines_of :: "string \<Rightarrow> string list" where
  "lines_of s = split_on newline s"

definition scrub_line :: "string \<Rightarrow> string list" where
  "scrub_line line =
     (if matches remote_header_re line then []
      else if matches ref_status_re line \<and> sublist ''->'' line then
        (let kept0 = (case find_match bracket_re line of None \<Rightarrow> [] | Some m \<Rightarrow> m_text m);
             kept1 = (case find_match reason_re line of
                        None \<Rightarrow> kept0
                      | Some m \<Rightarrow> kept0 @ '' ('' @ (case m_group m of None \<Rightarrow> [] | Some g \<Rightarrow> g) @ '')'');
             kept = trim_space kept1
         in if kept \<noteq> [] then [kept] else [])
      else [line])"

definition scrub_ref_lines :: "string \<Rightarrow> string" where
  "scrub_ref_lines s = join [newline] (concat (map scrub_line (lines_of s)))"

definition match_text :: "(string \<Rightarrow> string) \<Rightarrow> string \<Rightarrow> string" where
  "match_text lower stderr =
     lower (replace_matches quoted_re (\<lambda>_. [quote_char, quote_char]) (scrub_ref_lines stderr))"

definition local_lines :: "string \<Rightarrow> string" where
  "local_lines s =
     concat (map (\<lambda>line. line @ [newline]) (filter (\<lambda>line. \<not> prefix ''remote:'' (trim_space line)) (lines_of s)))"

definition is_corrupt_mirror :: "(string \<Rightarrow> string) \<Rightarrow> string \<Rightarrow> bool" where
  "is_corrupt_mirror lower stderr = has_marker (local_lines (match_text lower stderr)) corrupt_mirror_markers"

definition http_status :: "string \<Rightarrow> string option" where
  "http_status s = (case find_match http_status_re s of None \<Rightarrow> None | Some m \<Rightarrow> m_group m)"

section \<open>The detail of an unclassified failure\<close>

definition max_error_detail :: nat where
  "max_error_detail = 200"

fun pick_line :: "(string \<Rightarrow> string) \<Rightarrow> string \<Rightarrow> string list \<Rightarrow> string" where
  "pick_line lower last_line [] = last_line"
| "pick_line lower last_line (l # ls) =
     (let line = trim_space l
      in if line = [] then pick_line lower last_line ls
         else if prefix ''fatal:'' (lower line) \<or> prefix ''error:'' (lower line) then line
         else pick_line lower line ls)"

definition pick_detail_line :: "(string \<Rightarrow> string) \<Rightarrow> string \<Rightarrow> string" where
  "pick_detail_line lower stderr = pick_line lower [] (lines_of stderr)"

function cut_to_valid :: "string \<Rightarrow> string" where
  "cut_to_valid s = (if valid_utf8 s then s else cut_to_valid (butlast s))"
  by pat_completeness auto
termination
proof (relation "measure length")
  fix s :: string assume "\<not> valid_utf8 s"
  then have "s \<noteq> []" by auto
  then show "(butlast s, s) \<in> measure length" by (cases s) simp_all
qed simp

declare cut_to_valid.simps [simp del]

definition group_or_empty :: "string option \<Rightarrow> string" where
  "group_or_empty g = (case g of None \<Rightarrow> [] | Some s \<Rightarrow> s)"

definition raw_detail :: "(string \<Rightarrow> string) \<Rightarrow> git_error \<Rightarrow> string \<Rightarrow> string" where
  "raw_detail lower err stderr =
     (let l0 = pick_detail_line lower (scrub_ref_lines stderr);
          l1 = (if l0 = [] then error_text err else l0);
          l2 = replace_matches remote_text_re (\<lambda>g. group_or_empty g @ '' <text from the remote withheld>'') l1;
          l3 = replace_matches quoted_re (\<lambda>_. [quote_char, quote_char]) l2;
          l4 = replace_matches url_re (\<lambda>_. ''<url>'') l3;
          l5 = replace_matches path_re (\<lambda>g. group_or_empty g @ ''<path>'') l4;
          l6 = replace_matches host_re (\<lambda>_. ''<host>'') l5;
          l7 = join '' '' (text_fields (blank_controls l6));
          l8 = (if max_error_detail < length l7 then cut_to_valid (take max_error_detail l7) else l7)
      in if l8 = [] then ''git failed'' else l8)"

section \<open>Classification\<close>

datatype git_side = OriginSide | ReplicaSide

definition classify_git_failure ::
  "(string \<Rightarrow> string) \<Rightarrow> git_side \<Rightarrow> git_error option \<Rightarrow> string \<Rightarrow> bool \<Rightarrow> error_type \<times> string" where
  "classify_git_failure lower side err stderr token_expired =
     (case err of
        None \<Rightarrow> (NoError, [])
      | Some e \<Rightarrow>
          if is_deadline e then (if side = ReplicaSide then (PushTimeout, []) else (OriginUnreachable, []))
          else
            (let s = match_text lower stderr; loc = local_lines s
             in if has_marker loc disk_markers then (LocalDiskExhausted, [])
                else if has_marker loc memory_markers \<or> matches child_killed_re loc \<or>
                        sublist ''signal: killed'' (error_text e)
                then (JobOutOfMemory, [])
                else
                  (let status = group_or_empty (http_status s);
                       server_error = (length status = 3 \<and> status ! 0 = CHR ''5'');
                       auth_failed = (status = ''401'' \<or> status = ''403'' \<or> has_marker s auth_markers)
                   in if side = OriginSide then
                        (if auth_failed \<or> status = ''404'' \<or> (sublist ''repository'' s \<and> sublist ''not found'' s)
                         then (OriginAccessDenied, [])
                         else if status = ''407'' \<or> server_error \<or> has_marker s conn_markers
                         then (OriginUnreachable, [])
                         else (Unclassified, raw_detail lower e stderr))
                      else if status = ''413'' \<or> has_marker s replica_quota_markers then (ReplicaRejected, [])
                      else if auth_failed then (if token_expired then (PushTokenExpired, []) else (CredentialRejected, []))
                      else if has_marker s rejected_markers then (ReplicaRejected, [])
                      else if status = ''407'' \<or> server_error \<or> has_marker s conn_markers then (ReplicaUnreachable, [])
                      else (Unclassified, raw_detail lower e stderr))))"

definition credential_rejected_by_origin :: "(string \<Rightarrow> string) \<Rightarrow> string \<Rightarrow> bool" where
  "credential_rejected_by_origin lower stderr =
     (let s = local_lines (match_text lower stderr)
      in http_status s = Some ''401'' \<or> has_marker s credential_markers)"

datatype origin_verdict = OriginReachable | OriginDenied | OriginDown

definition classify_ls_remote :: "(string \<Rightarrow> string) \<Rightarrow> git_error option \<Rightarrow> string \<Rightarrow> origin_verdict" where
  "classify_ls_remote lower err stderr =
     (case err of
        None \<Rightarrow> OriginReachable
      | Some e \<Rightarrow>
          (let s = match_text lower stderr
           in if has_marker s auth_markers then OriginDenied
              else (case http_status s of
                  Some st \<Rightarrow>
                    if st = ''401'' \<or> st = ''403'' then OriginDenied
                    else if st = ''407'' then OriginDown
                    else OriginReachable
                | None \<Rightarrow>
                    if has_marker s [''not found'', ''invalid server response'', ''not a valid repository'']
                    then OriginReachable
                    else if has_marker s conn_markers then OriginDown
                    else OriginDown)))"

section \<open>The capped stderr buffer\<close>

record limited_buffer =
  lb_max :: nat
  lb_head :: string
  lb_tail :: string
  lb_dropped :: bool

definition new_limited_buffer :: "nat \<Rightarrow> limited_buffer" where
  "new_limited_buffer n = \<lparr>lb_max = n, lb_head = [], lb_tail = [], lb_dropped = False\<rparr>"

definition truncation_marker :: string where
  "truncation_marker = [newline] @ ''[... output truncated ...]'' @ [newline]"

definition lb_write :: "string \<Rightarrow> limited_buffer \<Rightarrow> limited_buffer" where
  "lb_write p l =
     (let head_cap = lb_max l div 2; room = head_cap - length (lb_head l);
          l1 = l\<lparr>lb_head := lb_head l @ take room p\<rparr>; p1 = drop room p
      in if p1 = [] then l1
         else
           (let tail_cap = lb_max l - head_cap; t = lb_tail l1 @ p1
            in if tail_cap < length t
               then l1\<lparr>lb_tail := drop (length t - tail_cap) t, lb_dropped := True\<rparr>
               else l1\<lparr>lb_tail := t\<rparr>))"

definition lb_bytes :: "limited_buffer \<Rightarrow> string" where
  "lb_bytes l = lb_head l @ (if lb_dropped l then truncation_marker else []) @ lb_tail l"

section \<open>What a failure is reported as\<close>

text \<open>Text that is safe in a status: one line without ASCII control characters, not empty, bounded.\<close>

definition clean_detail :: "string \<Rightarrow> bool" where
  "clean_detail d \<longleftrightarrow> d \<noteq> [] \<and> length d \<le> max_error_detail \<and> (\<forall>c \<in> set d. 32 \<le> byte c \<and> byte c \<noteq> 127)"

lemma cut_to_valid_prefix: "prefix (cut_to_valid s) s \<and> valid_utf8 (cut_to_valid s)"
proof (induction s rule: cut_to_valid.induct)
  case (1 s)
  show ?case
  proof (cases "valid_utf8 s")
    case True
    then show ?thesis by (simp add: cut_to_valid.simps [of s])
  next
    case False
    have "prefix (butlast s) s" by (metis append_butlast_last_id butlast.simps(1) prefix_def prefix_order.refl)
    with 1 [OF False] False show ?thesis
      by (metis cut_to_valid.simps [of s] prefix_order.trans)
  qed
qed

lemma raw_detail_clean: "clean_detail (raw_detail lower e stderr)"
proof -
  obtain l6 where raw: "raw_detail lower e stderr =
      (let l7 = join '' '' (text_fields (blank_controls l6));
           l8 = (if max_error_detail < length l7 then cut_to_valid (take max_error_detail l7) else l7)
       in if l8 = [] then ''git failed'' else l8)"
    unfolding raw_detail_def Let_def by blast
  define l7 where "l7 = join '' '' (text_fields (blank_controls l6))"
  define l8 where "l8 = (if max_error_detail < length l7 then cut_to_valid (take max_error_detail l7) else l7)"
  have l7: "32 \<le> byte c \<and> byte c \<noteq> 127" if "c \<in> set l7" for c
  proof -
    from that set_join [of "'' ''"] consider "c = CHR '' ''" | f where "f \<in> set (text_fields (blank_controls l6))" "c \<in> set f"
      unfolding l7_def by fastforce
    then show ?thesis
    proof cases
      case 1
      then show ?thesis by simp
    next
      case 2
      then have "c \<in> set (blank_controls l6)" using text_fields_bytes by blast
      then show ?thesis by (rule blank_controls_bytes)
    qed
  qed
  have cut: "prefix (cut_to_valid (take max_error_detail l7)) (take max_error_detail l7)"
    using cut_to_valid_prefix by blast
  have len: "length l8 \<le> max_error_detail"
    using prefix_length_le [OF cut] by (simp add: l8_def)
  have sub: "set l8 \<subseteq> set l7"
    using set_mono_prefix [OF cut] set_take_subset [of max_error_detail l7] by (auto simp: l8_def)
  have "raw_detail lower e stderr = (if l8 = [] then ''git failed'' else l8)"
    by (simp only: raw Let_def l7_def [symmetric] l8_def [symmetric])
  then show ?thesis
    using len sub l7 by (auto simp: clean_detail_def max_error_detail_def)
qed

definition origin_types :: "error_type set" where
  "origin_types = {OriginUnreachable, OriginAccessDenied, LocalDiskExhausted, JobOutOfMemory, Unclassified}"

definition replica_types :: "error_type set" where
  "replica_types =
     {PushTimeout, ReplicaRejected, PushTokenExpired, CredentialRejected, ReplicaUnreachable, LocalDiskExhausted,
      JobOutOfMemory, Unclassified}"

lemma classify_cases:
  "classify_git_failure lower side (Some e) stderr expired \<in>
     {(ty, []) | ty. ty \<in> (if side = OriginSide then origin_types else replica_types) - {Unclassified}} \<union>
     {(Unclassified, raw_detail lower e stderr)}"
proof (cases side)
  case OriginSide
  then show ?thesis
    unfolding classify_git_failure_def option.case Let_def by (simp add: origin_types_def)
next
  case ReplicaSide
  then show ?thesis
    unfolding classify_git_failure_def option.case Let_def by (simp add: replica_types_def)
qed

text \<open>Every failed git invocation is reported with an error type of its side of the sync, timeouts always
as such, and a detail only when unclassified: non-empty, bounded and without control characters.\<close>

theorem failure_reported:
  "let (ty, detail) = classify_git_failure lower side (Some e) stderr expired
   in ty \<in> (case side of OriginSide \<Rightarrow> origin_types | ReplicaSide \<Rightarrow> replica_types) \<and>
      ty \<notin> {NoError, RepositoryOverLimit} \<and>
      (if ty = Unclassified then clean_detail detail else detail = []) \<and>
      (if is_deadline e then ty = (case side of OriginSide \<Rightarrow> OriginUnreachable | ReplicaSide \<Rightarrow> PushTimeout)
       else ty \<noteq> PushTimeout)"
proof -
  obtain ty detail where c: "classify_git_failure lower side (Some e) stderr expired = (ty, detail)" by (metis surj_pair)
  have mem: "ty \<in> (if side = OriginSide then origin_types else replica_types)" "ty \<noteq> Unclassified \<longrightarrow> detail = []"
    "ty = Unclassified \<longrightarrow> detail = raw_detail lower e stderr"
    using classify_cases [of lower side e stderr expired] c by (auto simp: origin_types_def replica_types_def)
  have dl: "is_deadline e \<Longrightarrow> ty = (if side = ReplicaSide then PushTimeout else OriginUnreachable)"
    using c by (auto simp: classify_git_failure_def split: if_splits)
  have nd: "ty \<noteq> PushTimeout" if "\<not> is_deadline e"
  proof -
    have "fst (classify_git_failure lower side (Some e) stderr expired) \<noteq> PushTimeout"
      unfolding classify_git_failure_def option.case Let_def using that by (simp split del: if_split) simp
    with c show ?thesis by simp
  qed
  show ?thesis
    unfolding c Let_def prod.case
    using mem dl nd raw_detail_clean by (cases side) (auto simp: origin_types_def replica_types_def)
qed

section \<open>The capped buffer against the whole output\<close>

definition lb_of :: "nat \<Rightarrow> string \<Rightarrow> limited_buffer" where
  "lb_of n s =
     \<lparr>lb_max = n, lb_head = take (n div 2) s,
      lb_tail = (if length s \<le> n then drop (n div 2) s else drop (length s - (n - n div 2)) s),
      lb_dropped = (n < length s)\<rparr>"

lemma lb_step: "lb_write p (lb_of n s) = lb_of n (s @ p)"
proof -
  define h where "h = n div 2"
  have h: "h \<le> n" by (simp add: h_def)
  show ?thesis
  proof (cases "length s \<le> h")
    case True
    then have t: "drop h s = []" "take h s = s" by simp_all
    show ?thesis
    proof (cases "drop (h - length s) p = []")
      case drop: True
      with True h t show ?thesis by (simp add: lb_write_def lb_of_def Let_def h_def [symmetric])
    next
      case False
      with True h t show ?thesis by (auto simp: lb_write_def lb_of_def Let_def h_def [symmetric])
    qed
  next
    case False
    then have r: "h - length (take h s) = 0" by simp
    show ?thesis
    proof (cases "length s \<le> n")
      case True
      with False h r show ?thesis by (auto simp: lb_write_def lb_of_def Let_def h_def [symmetric])
    next
      case over: False
      show ?thesis
      proof (cases "p = []")
        case True
        with False over h r show ?thesis by (simp add: lb_write_def lb_of_def Let_def h_def [symmetric])
      next
        case ne: False
        then have "n - h < n + length p - h" using h by (cases p) simp_all
        moreover have "length p + (length s + h) - n = length s + length p + h - n" by simp
        ultimately show ?thesis
          using False over h r ne by (simp add: lb_write_def lb_of_def Let_def h_def [symmetric])
      qed
    qed
  qed
qed

lemma lb_fold: "fold lb_write ws (lb_of n s) = lb_of n (s @ concat ws)"
  by (induction ws arbitrary: s) (simp_all add: lb_step)

text \<open>However it is written, the capped buffer returns the output unchanged when it fits and otherwise its
first and last halves with a marker between.\<close>

theorem limited_buffer_exact:
  "lb_bytes (fold lb_write ws (new_limited_buffer n)) =
    (let s = concat ws
     in if length s \<le> n then s
        else take (n div 2) s @ truncation_marker @ drop (length s - (n - n div 2)) s)"
proof -
  have "new_limited_buffer n = lb_of n []" by (simp add: new_limited_buffer_def lb_of_def)
  then show ?thesis using lb_fold [of ws n "[]"] by (simp add: lb_bytes_def lb_of_def Let_def)
qed

end
