(* ===== verification/OriginProbe.thy ===== *)
theory OriginProbe
  imports EngineSafety GitEnv Classify Effects
begin

text \<open>
  The check whether the origins can be reached: git's version and one \<open>git ls-remote\<close> (\<open>gitsync/probe.go\<close>), the
  providers of one check (\<open>runProbe\<close>), and when a check runs and whether its result is kept (\<open>maybeProbe\<close>,
  \<open>gitsync/originprobe.go\<close>) while connections come and go and the providers are replaced under it.
\<close>

section \<open>The version of git\<close>

fun digits_upto :: "nat \<Rightarrow> re" where
  "digits_upto 0 = Eps"
| "digits_upto (Suc n) = opt (Cat digit_re (digits_upto n))"

definition six_digits :: re where
  "six_digits = Cat digit_re (digits_upto 5)"

text \<open>The expression has three groups; each reading of it keeps one of them.\<close>

definition git_version_re :: "(re \<Rightarrow> re) \<Rightarrow> (re \<Rightarrow> re) \<Rightarrow> (re \<Rightarrow> re) \<Rightarrow> re" where
  "git_version_re g1 g2 g3 =
     seqs [TextStart, lit ''git version '',
       g1 (seqs [g2 six_digits, one (CHR ''.''), g3 six_digits, opt (Cat (one (CHR ''.'')) six_digits)])]"

definition version_group :: "re \<Rightarrow> string \<Rightarrow> string option" where
  "version_group r line = (case find_match r line of None \<Rightarrow> None | Some m \<Rightarrow> m_group m)"

definition parse_git_version :: "string \<Rightarrow> (string \<times> int \<times> int) option" where
  "parse_git_version out =
     (let line = fst (cut newline (trim_space out))
      in case (version_group (git_version_re Grp id id) line, version_group (git_version_re id Grp id) line,
               version_group (git_version_re id id Grp) line) of
           (Some v, Some a, Some b) \<Rightarrow>
             (case (atoi a, atoi b) of (Some major, Some minor) \<Rightarrow> Some (v, major, minor) | _ \<Rightarrow> None)
         | _ \<Rightarrow> None)"

definition git_version_supported :: "int \<Rightarrow> int \<Rightarrow> bool" where
  "git_version_supported major minor \<longleftrightarrow> major > 2 \<or> (major = 2 \<and> minor \<ge> 31)"

text \<open>\<open>GitVersionOK\<close> on the output of \<open>git --version\<close>, None when it could not be run.\<close>

definition git_version_ok :: "string option \<Rightarrow> bool \<times> string" where
  "git_version_ok out =
     (case out of
        None \<Rightarrow> (False, ''git was not found on PATH or did not respond'')
      | Some o1 \<Rightarrow>
          (case parse_git_version o1 of
             None \<Rightarrow> (False, ''unrecognised `git --version` output'')
           | Some (ver, major, minor) \<Rightarrow>
               if git_version_supported major minor then (True, ver)
               else (False, ''git '' @ ver @ '' is older than the required 2.31'')))"

section \<open>One probe\<close>

text \<open>
  The world of a check: whether its context has ended, whether a credential is held back, a temporary home, git
  with its capped stderr, the removal of the home.
\<close>

record 'w origin_ops =
  op_done :: "'w \<Rightarrow> bool \<times> 'w"
  op_held :: "binding \<Rightarrow> 'w \<Rightarrow> bool \<times> 'w"
  op_home :: "'w \<Rightarrow> (git_error + string) \<times> 'w"
  op_git :: "string list \<Rightarrow> string list \<Rightarrow> string \<Rightarrow> 'w \<Rightarrow> (git_error option \<times> string) \<times> 'w"
  op_remove :: "string \<Rightarrow> 'w \<Rightarrow> unit \<times> 'w"

datatype origin_step =
    ODone bool | OHeld binding bool | OHome "git_error + string"
  | OGit "string list" "string list" string "git_error option \<times> string" | ORemoved string

definition probe_env :: "(string \<Rightarrow> string option) \<Rightarrow> local_entry \<Rightarrow> string \<Rightarrow> string list" where
  "probe_env getenv e home =
     git_config_env (git_base_env getenv home) (cred_config (le_base_url e) (le_auth e) (le_username e) (le_token e))"

definition probe_argv :: "local_entry \<Rightarrow> string list" where
  "probe_argv e = [''git'', ''ls-remote'', ''--'', le_base_url e, ''HEAD'']"

text \<open>git that could not be started is a local fault and says nothing of the origin.\<close>

definition probe_verdict :: "(string \<Rightarrow> string) \<Rightarrow> git_error option \<times> string \<Rightarrow> git_error + origin_verdict" where
  "probe_verdict lower r =
     (case r of
        (Some (NotStarted m), _) \<Rightarrow> Inl (NotStarted m)
      | (err, stderr) \<Rightarrow> Inr (classify_ls_remote lower err stderr))"

definition origin_probe ::
  "(string \<Rightarrow> string) \<Rightarrow> (string \<Rightarrow> string option) \<Rightarrow> 'w origin_ops \<Rightarrow> local_entry \<Rightarrow>
   (('w, origin_step) sys, git_error + origin_verdict) state" where
  "origin_probe lower getenv W e = do {
     h \<leftarrow> effect (op_home W) OHome;
     (case h of
        Inl er \<Rightarrow> ret (Inl er)
      | Inr home \<Rightarrow> do {
          r \<leftarrow> effect (op_git W (probe_argv e) (probe_env getenv e home) home)
                (OGit (probe_argv e) (probe_env getenv e home) home);
          _ \<leftarrow> effect (op_remove W home) (\<lambda>_. ORemoved home);
          ret (probe_verdict lower r)
        })
   }"

section \<open>The providers of a check\<close>

fun verdict_rank :: "origin_verdict \<Rightarrow> nat" where
  "verdict_rank OriginReachable = 0"
| "verdict_rank OriginDown = 1"
| "verdict_rank OriginDenied = 2"

definition worse :: "origin_verdict \<Rightarrow> origin_verdict \<Rightarrow> origin_verdict" where
  "worse v worst = (if verdict_rank v > verdict_rank worst then v else worst)"

text \<open>The verdicts by their rank, so that the worst of some is the library's maximum.\<close>

instantiation origin_verdict :: linorder
begin

definition less_eq_origin_verdict :: "origin_verdict \<Rightarrow> origin_verdict \<Rightarrow> bool" where
  "v \<le> u \<longleftrightarrow> verdict_rank v \<le> verdict_rank u"

definition less_origin_verdict :: "origin_verdict \<Rightarrow> origin_verdict \<Rightarrow> bool" where
  "v < u \<longleftrightarrow> verdict_rank v < verdict_rank u"

instance
proof
  fix v u :: origin_verdict
  show "v \<le> u \<Longrightarrow> u \<le> v \<Longrightarrow> v = u"
    by (cases v; cases u) (simp_all add: less_eq_origin_verdict_def)
qed (auto simp: less_eq_origin_verdict_def less_origin_verdict_def)

end

lemma worse_max: "worse v u = max v u"
  by (simp add: worse_def max_def less_eq_origin_verdict_def)

lemma reachable_least: "OriginReachable \<le> v"
  by (simp add: less_eq_origin_verdict_def)

definition probe_target ::
  "(string \<Rightarrow> string) \<Rightarrow> (string \<Rightarrow> string option) \<Rightarrow> 'w origin_ops \<Rightarrow> local_entry \<Rightarrow> binding \<Rightarrow>
   (('w, origin_step) sys, git_error + origin_verdict) state" where
  "probe_target lower getenv W e b = do {
     held \<leftarrow> effect (op_held W b) (OHeld b);
     (if held then ret (Inr OriginDenied) else origin_probe lower getenv W e)
   }"

text \<open>The loop of \<open>runProbe\<close>, with the worst answer so far and whether there was one; None when it has no result.\<close>

fun run_targets ::
  "(string \<Rightarrow> string) \<Rightarrow> (string \<Rightarrow> string option) \<Rightarrow> 'w origin_ops \<Rightarrow> (local_entry \<times> binding) list \<Rightarrow> origin_verdict \<Rightarrow>
   bool \<Rightarrow> (('w, origin_step) sys, origin_verdict option) state" where
  "run_targets lower getenv W [] worst answered = ret (if answered then Some worst else None)"
| "run_targets lower getenv W ((e, b) # ts) worst answered = do {
     over \<leftarrow> effect (op_done W) ODone;
     (if over then ret None
      else do {
        r \<leftarrow> probe_target lower getenv W e b;
        (case r of
           Inl er \<Rightarrow> run_targets lower getenv W ts worst answered
         | Inr v \<Rightarrow> run_targets lower getenv W ts (worse v worst) True)
      })
   }"

definition run_probe ::
  "(string \<Rightarrow> string) \<Rightarrow> (string \<Rightarrow> string option) \<Rightarrow> 'w origin_ops \<Rightarrow> (local_entry \<times> binding) list \<Rightarrow>
   (('w, origin_step) sys, origin_verdict option) state" where
  "run_probe lower getenv W targets = run_targets lower getenv W targets OriginReachable False"

text \<open>The answers of a check, read off its log.\<close>

fun answers :: "(string \<Rightarrow> string) \<Rightarrow> origin_step list \<Rightarrow> origin_verdict list" where
  "answers lower [] = []"
| "answers lower (OHeld b True # es) = OriginDenied # answers lower es"
| "answers lower (OGit argv env dir r # es) =
     (case probe_verdict lower r of Inl er \<Rightarrow> answers lower es | Inr v \<Rightarrow> v # answers lower es)"
| "answers lower (x # es) = answers lower es"

lemma answers_append [simp]: "answers lower (xs @ ys) = answers lower xs @ answers lower ys"
  by (induction lower xs rule: answers.induct) (auto split: sum.splits)

text \<open>
  A target is dialled only when its gate was just read as open, with its own command and environment; the home
  is made in between.
\<close>

fun dial_allowed :: "(string \<Rightarrow> string option) \<Rightarrow> (local_entry \<times> binding) list \<Rightarrow> origin_step list \<Rightarrow> origin_step \<Rightarrow> bool" where
  "dial_allowed getenv targets before (OGit argv env dir r) \<longleftrightarrow>
     list_ex (\<lambda>(e, b). argv = probe_argv e \<and> env = probe_env getenv e dir \<and>
       suffix [ODone False, OHeld b False, OHome (Inr dir)] before) targets"
| "dial_allowed getenv targets before (OHeld b held) \<longleftrightarrow> before \<noteq> [] \<and> last before = ODone False"
| "dial_allowed getenv targets before x \<longleftrightarrow> True"

lemmas origin_intros = emits_bind emits_effect emits_return emits_sum emits_if emits_option emits_let

text \<open>What a part of a check does: it keeps to the rule after any earlier steps, and answers what its log says.\<close>

lemma target_checked:
  assumes "(e, b) \<in> set targets"
  shows "emits (probe_target lower getenv W e b) (\<lambda>r es.
    each_step (dial_allowed getenv targets) (before @ [ODone False]) es \<and>
    answers lower es = (case r of Inl er \<Rightarrow> [] | Inr v \<Rightarrow> [v]))"
  unfolding probe_target_def origin_probe_def
  by (intro origin_intros)
     (use assms in \<open>auto simp: list_ex_iff suffix_def split: sum.splits intro!: bexI [of _ "(e, b)"]\<close>)

definition worst_of :: "origin_verdict list \<Rightarrow> origin_verdict" where
  "worst_of vs = foldl (\<lambda>w v. worse v w) OriginReachable vs"

lemma targets_checked:
  assumes "set ts \<subseteq> set targets"
  shows "emits (run_targets lower getenv W ts worst answered) (\<lambda>r es.
    each_step (dial_allowed getenv targets) before es \<and>
    (case r of
       Some v \<Rightarrow> v = foldl (\<lambda>w v. worse v w) worst (answers lower es) \<and> (answered \<or> answers lower es \<noteq> [])
     | None \<Rightarrow> es \<noteq> [] \<and> last es = ODone True \<or> \<not> answered \<and> answers lower es = []))"
  using assms
proof (induction lower getenv W ts worst answered arbitrary: before rule: run_targets.induct)
  case (2 lower getenv W e b ts worst answered)
  show ?case unfolding run_targets.simps
  proof (rule emits_bind, rule emits_effect, rule emits_if)
    fix over
    assume "\<not> over"
    show "emits (probe_target lower getenv W e b >>= (\<lambda>r. case r of
         Inl er \<Rightarrow> run_targets lower getenv W ts worst answered
       | Inr v \<Rightarrow> run_targets lower getenv W ts (worse v worst) True))
      (\<lambda>r fs. each_step (dial_allowed getenv targets) before ([ODone over] @ fs) \<and>
        (case r of
           Some v \<Rightarrow> v = foldl (\<lambda>w v. worse v w) worst (answers lower ([ODone over] @ fs)) \<and>
             (answered \<or> answers lower ([ODone over] @ fs) \<noteq> [])
         | None \<Rightarrow> [ODone over] @ fs \<noteq> [] \<and> last ([ODone over] @ fs) = ODone True \<or>
             \<not> answered \<and> answers lower ([ODone over] @ fs) = []))"
    proof (rule emits_then [OF target_checked [of e b targets lower getenv W before]])
      fix r es
      assume t: "each_step (dial_allowed getenv targets) (before @ [ODone False]) es \<and>
        answers lower es = (case r of Inl er \<Rightarrow> [] | Inr v \<Rightarrow> [v])"
      show "emits (case r of
           Inl er \<Rightarrow> run_targets lower getenv W ts worst answered
         | Inr v \<Rightarrow> run_targets lower getenv W ts (worse v worst) True)
        (\<lambda>r fs. each_step (dial_allowed getenv targets) before ([ODone over] @ es @ fs) \<and>
          (case r of
             Some v \<Rightarrow> v = foldl (\<lambda>w v. worse v w) worst (answers lower ([ODone over] @ es @ fs)) \<and>
               (answered \<or> answers lower ([ODone over] @ es @ fs) \<noteq> [])
           | None \<Rightarrow> [ODone over] @ es @ fs \<noteq> [] \<and> last ([ODone over] @ es @ fs) = ODone True \<or>
               \<not> answered \<and> answers lower ([ODone over] @ es @ fs) = []))"
      proof (cases r)
        case (Inl er)
        have "emits (run_targets lower getenv W ts worst answered) (\<lambda>r fs.
          each_step (dial_allowed getenv targets) (before @ ODone False # es) fs \<and>
          (case r of
             Some v \<Rightarrow> v = foldl (\<lambda>w v. worse v w) worst (answers lower fs) \<and> (answered \<or> answers lower fs \<noteq> [])
           | None \<Rightarrow> fs \<noteq> [] \<and> last fs = ODone True \<or> \<not> answered \<and> answers lower fs = []))"
          by (rule "2.IH"(1) [OF \<open>\<not> over\<close>]) (use 2 Inl in auto)
        then show ?thesis using t Inl \<open>\<not> over\<close>
          by simp (erule emits_weaken, auto split: option.splits)
      next
        case (Inr v)
        have "emits (run_targets lower getenv W ts (worse v worst) True) (\<lambda>r fs.
          each_step (dial_allowed getenv targets) (before @ ODone False # es) fs \<and>
          (case r of
             Some u \<Rightarrow> u = foldl (\<lambda>w v. worse v w) (worse v worst) (answers lower fs) \<and> (True \<or> answers lower fs \<noteq> [])
           | None \<Rightarrow> fs \<noteq> [] \<and> last fs = ODone True \<or> \<not> True \<and> answers lower fs = []))"
          by (rule "2.IH"(2) [OF \<open>\<not> over\<close>]) (use 2 Inr in auto)
        then show ?thesis using t Inr \<open>\<not> over\<close>
          by simp (erule emits_weaken, auto split: option.splits)
      qed
    qed (use 2 in auto)
  qed (auto intro!: emits_return)
qed (auto intro!: emits_return)

text \<open>The worst is an answer, and none is worse.\<close>

lemma worst_of_Max: "worst_of vs = Max (set (OriginReachable # vs))"
  unfolding worst_of_def worse_max Max.set_eq_fold foldl_conv_fold by simp

lemma worst_of_max:
  assumes "vs \<noteq> []"
  shows "worst_of vs \<in> set vs \<and> (\<forall>v \<in> set vs. verdict_rank v \<le> verdict_rank (worst_of vs))"
proof -
  have "worst_of vs = Max (set vs)"
    unfolding worst_of_Max list.set
    by (subst Max_insert) (use assms in \<open>auto intro: max.absorb2 reachable_least\<close>)
  then show ?thesis using assms by (simp flip: less_eq_origin_verdict_def)
qed

text \<open>In every world, a check dials a provider only right after its gate was read as open, with its own
argv and environment, and its result is an answer of the check that no other answer is worse than;
it has none only when its context ended or no provider gave a usable answer.\<close>

theorem origin_check_aggregates:
  "emits (run_probe lower getenv W targets) (\<lambda>r es.
     each_step (dial_allowed getenv targets) [] es \<and>
     (case r of
        Some v \<Rightarrow> v \<in> set (answers lower es) \<and> list_all (\<lambda>u. verdict_rank u \<le> verdict_rank v) (answers lower es)
      | None \<Rightarrow> es \<noteq> [] \<and> last es = ODone True \<or> answers lower es = []))"
  unfolding run_probe_def
  by (rule emits_weaken [OF targets_checked [of targets targets, OF subset_refl, where before = "[]"]])
     (auto simp: worst_of_max list_all_iff simp flip: worst_of_def split: option.splits)

section \<open>When a check runs, and what becomes of it\<close>

text \<open>
  A check that was started: its time, the connection and the providers it was started for, and whether its
  context was cancelled. Its goroutine dials, then commits under the lock, then settles: it gives its slot back
  and, when it was overtaken by new providers, calls \<open>maybeProbe\<close> once more (\<open>pb_again\<close> counts those that are
  about to). \<open>pb_registered\<close> is the check \<open>probeCancel\<close> would cancel, \<open>pb_closed\<close> the connections whose context
  has ended; \<open>pb_source\<close> is what the cached check came from, which the code does not keep.
\<close>

record probe_run =
  pr_id :: nat
  pr_start :: gtime
  pr_conn :: nat
  pr_epoch :: nat
  pr_targets :: "(local_entry \<times> binding) list"
  pr_cancelled :: bool

datatype probe_stage = Dialling | Settling bool bool

record prober =
  pb_engine :: engine
  pb_conn :: nat
  pb_closed :: "nat set"
  pb_probing :: bool
  pb_goroutines :: "(probe_run \<times> probe_stage) list"
  pb_next :: nat
  pb_registered :: "nat option"
  pb_again :: nat
  pb_source :: "(probe_run \<times> origin_verdict) option"

abbreviation pb_client :: "prober \<Rightarrow> client" where
  "pb_client p \<equiv> eng (pb_engine p)"

definition new_prober :: "engine \<Rightarrow> prober" where
  "new_prober s =
     \<lparr>pb_engine = s, pb_conn = 0, pb_closed = {}, pb_probing = False, pb_goroutines = [], pb_next = 0,
      pb_registered = None, pb_again = 0, pb_source = None\<rparr>"

definition heartbeat_interval :: duration where
  "heartbeat_interval = 30 * second"

definition origin_check_interval :: duration where
  "origin_check_interval = 5 * minute"

text \<open>A tenth early; a clock that stepped back counts as elapsed.\<close>

definition probe_due :: "gtime \<Rightarrow> client \<Rightarrow> bool" where
  "probe_due now c =
     (let spacing = (if config_accepted c then origin_check_interval else heartbeat_interval);
          since = now - last_probe c
      in \<not> (0 \<le> since \<and> since < spacing - spacing div 10))"

definition start_probe :: "gtime \<Rightarrow> prober \<Rightarrow> prober" where
  "start_probe now p =
     (let c = pb_client p;
          r = \<lparr>pr_id = pb_next p, pr_start = now, pr_conn = pb_conn p, pr_epoch = provider_epoch c,
               pr_targets = probe_targets (providers c), pr_cancelled = False\<rparr>
      in p\<lparr>pb_engine := (pb_engine p)\<lparr>eng := c\<lparr>last_probe := now\<rparr>\<rparr>, pb_probing := True,
           pb_goroutines := (r, Dialling) # pb_goroutines p, pb_next := pb_next p + 1, pb_registered := Some (pb_next p)\<rparr>)"

definition maybe_probe :: "gtime \<Rightarrow> prober \<Rightarrow> prober" where
  "maybe_probe now p =
     (if pb_conn p = 0 \<or> pb_conn p \<in> pb_closed p \<or> by_name (providers (pb_client p)) = fmempty then p
      else if pb_probing p then p
      else if \<not> probe_due now (pb_client p) then p
      else start_probe now p)"

fun verdict_text :: "origin_verdict \<Rightarrow> string" where
  "verdict_text OriginReachable = ''reachable''"
| "verdict_text OriginDenied = ''access_denied''"
| "verdict_text OriginDown = ''unreachable''"

text \<open>The commit of the check \<open>r\<close> with its result, at the time whose text is \<open>at_text\<close>.\<close>

definition commit_probe :: "probe_run \<Rightarrow> origin_verdict option \<Rightarrow> string \<Rightarrow> prober \<Rightarrow> prober \<times> probe_stage" where
  "commit_probe r result at_text p =
     (let c = pb_client p;
          live = (pb_conn p = pr_conn r \<and> pr_conn r \<notin> pb_closed p);
          current = (provider_epoch c = pr_epoch r);
          c1 = c\<lparr>origin_check :=
                 (case result of None \<Rightarrow> None | Some v \<Rightarrow> Some \<lparr>oc_result = verdict_text v, oc_checked_at = at_text\<rparr>)\<rparr>
      in if live \<and> current
         then (p\<lparr>pb_engine := (pb_engine p)\<lparr>eng := c1\<rparr>, pb_source := map_option (Pair r) result\<rparr>, Settling False False)
         else (p, Settling True (live \<and> \<not> current)))"

definition settle_probe :: "probe_run \<Rightarrow> bool \<Rightarrow> bool \<Rightarrow> prober \<Rightarrow> prober" where
  "settle_probe r give_back stale p =
     (let c = pb_client p;
          c1 = (if give_back \<and> last_probe c = pr_start r then c\<lparr>last_probe := 0\<rparr> else c)
      in p\<lparr>pb_engine := (pb_engine p)\<lparr>eng := c1\<rparr>, pb_probing := False,
           pb_again := (if stale then pb_again p + 1 else pb_again p)\<rparr>)"

definition cancel_where :: "(probe_run \<Rightarrow> bool) \<Rightarrow> prober \<Rightarrow> prober" where
  "cancel_where P p =
     p\<lparr>pb_goroutines := map (\<lambda>(r, st). (if P r then r\<lparr>pr_cancelled := True\<rparr> else r, st)) (pb_goroutines p)\<rparr>"

text \<open>
  What can happen: a connection, the end of one, a call of \<open>maybeProbe\<close> (a connection, a heartbeat, new
  providers), the commit and the settling of a goroutine, the repeated call, and any operation of the engine.
\<close>

datatype probe_event =
    PbConnect | PbClose nat | PbMaybe gtime | PbCommit nat "origin_verdict option" string | PbSettle nat
  | PbAgain gtime | PbEngine engine_event

definition goroutine_at :: "nat \<Rightarrow> prober \<Rightarrow> (probe_run \<times> probe_stage) option" where
  "goroutine_at i p = (if i < length (pb_goroutines p) then Some (pb_goroutines p ! i) else None)"

fun probe_move :: "go_lib \<Rightarrow> prober \<Rightarrow> probe_event \<Rightarrow> prober" where
  "probe_move lib p PbConnect = p\<lparr>pb_conn := pb_conn p + 1\<rparr>"
| "probe_move lib p (PbClose g) =
     (if g \<le> pb_conn p then cancel_where (\<lambda>r. pr_conn r = g) (p\<lparr>pb_closed := insert g (pb_closed p)\<rparr>) else p)"
| "probe_move lib p (PbMaybe now) = maybe_probe now p"
| "probe_move lib p (PbCommit i result at_text) =
     (case goroutine_at i p of
        Some (r, Dialling) \<Rightarrow>
          (case commit_probe r result at_text p of
             (p1, st) \<Rightarrow> p1\<lparr>pb_goroutines := (pb_goroutines p1)[i := (r, st)]\<rparr>)
      | _ \<Rightarrow> p)"
| "probe_move lib p (PbSettle i) =
     (case goroutine_at i p of
        Some (r, Settling give_back stale) \<Rightarrow>
          settle_probe r give_back stale (p\<lparr>pb_goroutines := take i (pb_goroutines p) @ drop (i + 1) (pb_goroutines p)\<rparr>)
      | _ \<Rightarrow> p)"
| "probe_move lib p (PbAgain now) = (if 0 < pb_again p then maybe_probe now (p\<lparr>pb_again := pb_again p - 1\<rparr>) else p)"
| "probe_move lib p (PbEngine e) =
     (let p1 = p\<lparr>pb_engine := engine_step lib (pb_engine p) e\<rparr>
      in if provider_epoch (pb_client p1) = provider_epoch (pb_client p) then p1
         else cancel_where (\<lambda>r. Some (pr_id r) = pb_registered p1) p1)"

section \<open>The cached check\<close>

text \<open>What the cached check is about.\<close>

definition probe_view :: "client \<Rightarrow> provider_set \<times> nat \<times> origin_check option" where
  "probe_view c = (providers c, provider_epoch c, origin_check c)"

text \<open>
  At most one check runs, it is the registered one, it has the providers of its epoch, and only a check whose
  connection is over or whose providers were replaced has been cancelled.
\<close>

definition run_ok :: "prober \<Rightarrow> probe_run \<Rightarrow> bool" where
  "run_ok p r \<longleftrightarrow> pb_registered p = Some (pr_id r) \<and> pr_conn r \<le> pb_conn p \<and>
     pr_epoch r \<le> provider_epoch (pb_client p) \<and>
     (pr_epoch r = provider_epoch (pb_client p) \<longrightarrow> pr_targets r = probe_targets (providers (pb_client p))) \<and>
     (pr_cancelled r \<longrightarrow> pr_conn r \<in> pb_closed p \<or> pr_epoch r < provider_epoch (pb_client p))"

definition source_ok :: "client \<Rightarrow> (probe_run \<times> origin_verdict) option \<Rightarrow> bool" where
  "source_ok c src \<longleftrightarrow>
     (case origin_check c of
        None \<Rightarrow> True
      | Some oc \<Rightarrow>
          (case src of
             None \<Rightarrow> False
           | Some (r, v) \<Rightarrow> \<not> pr_cancelled r \<and> pr_epoch r = provider_epoch c \<and>
               pr_targets r = probe_targets (providers c) \<and> oc_result oc = verdict_text v))"

definition check_ok :: "prober \<Rightarrow> bool" where
  "check_ok p \<longleftrightarrow> source_ok (pb_client p) (pb_source p)"

lemma source_ok_view: "probe_view c = probe_view d \<Longrightarrow> source_ok c = source_ok d"
  by (rule ext) (simp add: probe_view_def source_ok_def split: option.split)

lemma source_ok_None [simp]: "origin_check c = None \<Longrightarrow> source_ok c src"
  by (simp add: source_ok_def)

lemma source_ok_last_probe [simp]: "source_ok (c\<lparr>last_probe := t\<rparr>) src = source_ok c src"
  by (simp add: source_ok_def split: option.split)

definition prober_ok :: "prober \<Rightarrow> bool" where
  "prober_ok p \<longleftrightarrow>
     (pb_goroutines p = [] \<and> \<not> pb_probing p \<or>
      (\<exists>r st. pb_goroutines p = [(r, st)] \<and> pb_probing p \<and> run_ok p r)) \<and>
     check_ok p"

text \<open>An operation of the engine keeps the providers and the check, or replaces the one and drops the other.\<close>

lemma probe_view_sched [simp]: "probe_view (c\<lparr>sched := x\<rparr>) = probe_view c"
  by (simp add: probe_view_def)

lemma claim_view: "probe_view (snd (claim_task lib now rid c)) = probe_view c"
  by (auto simp: claim_task_def probe_view_def Let_def split: option.splits prod.splits)

lemma set_syncing_view: "probe_view (set_syncing rid b c) = probe_view c"
  by (auto simp: set_syncing_def probe_view_def Let_def split: option.splits)

lemma start_view: "probe_view (start_attempt rid t u c) = probe_view c"
  by (auto simp: start_attempt_def probe_view_def split: option.splits)

lemma end_view: "probe_view (snd (end_attempt rid n c)) = probe_view c"
  by (auto simp: end_attempt_def probe_view_def split: option.splits)

lemma finish_view: "probe_view (snd (finish_and_reschedule rid t res now w c)) = probe_view c"
proof -
  obtain su st c1 where e: "end_attempt rid (attempt_seq t) c = ((su, st), c1)" by (metis surj_pair)
  have "probe_view (snd (finish_sync rid t res now c)) = probe_view c1"
    by (auto simp: finish_sync_def e probe_view_def Let_def split: option.splits)
  also have "probe_view c1 = probe_view c" using end_view [of rid "attempt_seq t" c] by (simp add: e)
  finally have f: "probe_view (snd (finish_sync rid t res now c)) = probe_view c" .
  obtain kept c2 where "finish_sync rid t res now c = (kept, c2)" by force
  with f show ?thesis by (simp add: finish_and_reschedule_def)
qed

lemma config_view: "probe_view (snd (apply_config lib wire c)) = probe_view c"
  by (auto simp: apply_config_def install_config_def reject_config_def probe_view_def Let_def split: sum.splits)

lemma providers_view:
  "probe_view (snd (set_providers lib st c)) = probe_view c \<or>
   provider_epoch (snd (set_providers lib st c)) = provider_epoch c + 1 \<and> origin_check (snd (set_providers lib st c)) = None"
  by (auto simp: set_providers_def probe_view_def Let_def split: prod.splits)

lemma engine_step_view:
  "probe_view (eng (engine_step lib s e)) = probe_view (eng s) \<or>
   provider_epoch (eng (engine_step lib s e)) = provider_epoch (eng s) + 1 \<and> origin_check (eng (engine_step lib s e)) = None"
proof (cases e)
  case (EClaim rid now)
  then show ?thesis using claim_view [of lib now rid "eng s"] by (auto split: prod.splits option.splits)
next
  case (EProviders st)
  then show ?thesis using providers_view [of lib st "eng s"] by auto
next
  case (ESyncNow rid now)
  obtain sc where "snd (handle_sync_now now rid (eng s)) = (eng s)\<lparr>sched := sc\<rparr>" using handle_sync_now_core by blast
  with ESyncNow show ?thesis by simp
qed (simp_all add: start_view finish_view config_view set_syncing_view begin_sync_def release_sync_def
       sched_reconcile_def, simp add: probe_view_def)

section \<open>Every step keeps it\<close>

lemma prober_ok_start: "prober_ok p \<Longrightarrow> \<not> pb_probing p \<Longrightarrow> prober_ok (start_probe now p)"
  by (auto simp: prober_ok_def start_probe_def run_ok_def check_ok_def Let_def split: option.splits)

lemma prober_ok_maybe: "prober_ok p \<Longrightarrow> prober_ok (maybe_probe now p)"
  by (simp add: maybe_probe_def prober_ok_start)

lemma run_ok_cancelled:
  "run_ok p r \<Longrightarrow> pr_conn r \<in> pb_closed p \<or> pr_epoch r < provider_epoch (pb_client p) \<Longrightarrow> run_ok p (r\<lparr>pr_cancelled := True\<rparr>)"
  by (simp add: run_ok_def)

lemma prober_ok_engine:
  assumes ok: "prober_ok p"
  shows "prober_ok (probe_move lib p (PbEngine e))"
proof -
  let ?p1 = "p\<lparr>pb_engine := engine_step lib (pb_engine p) e\<rparr>"
  consider (same) "probe_view (pb_client ?p1) = probe_view (pb_client p)"
    | (new) "provider_epoch (pb_client ?p1) = provider_epoch (pb_client p) + 1" "origin_check (pb_client ?p1) = None"
    using engine_step_view [of lib "pb_engine p" e] by auto
  then show ?thesis
  proof cases
    case same
    then show ?thesis using ok
      using source_ok_view [OF same] by (auto simp: probe_view_def prober_ok_def run_ok_def check_ok_def Let_def)
  next
    case new
    then show ?thesis using ok
      by (auto simp: prober_ok_def run_ok_def check_ok_def cancel_where_def Let_def)
  qed
qed

lemma commit_ok:
  assumes check: "check_ok p" and run: "run_ok p r" and c: "commit_probe r result at_text p = (p1, st)"
  shows "check_ok p1 \<and> run_ok p1 r \<and> pb_goroutines p1 = pb_goroutines p \<and> pb_probing p1 = pb_probing p"
proof (cases "pb_conn p = pr_conn r \<and> pr_conn r \<notin> pb_closed p \<and> provider_epoch (pb_client p) = pr_epoch r")
  case True
  then have p1: "p1 = p\<lparr>pb_engine := (pb_engine p)\<lparr>eng := (pb_client p)\<lparr>origin_check := (case result of None \<Rightarrow> None |
      Some v \<Rightarrow> Some \<lparr>oc_result = verdict_text v, oc_checked_at = at_text\<rparr>)\<rparr>\<rparr>, pb_source := map_option (Pair r) result\<rparr>"
    using c by (simp add: commit_probe_def Let_def)
  have "\<not> pr_cancelled r" "pr_targets r = probe_targets (providers (pb_client p))" using run True by (auto simp: run_ok_def)
  then show ?thesis using True run by (cases result) (simp_all add: p1 check_ok_def source_ok_def run_ok_def)
next
  case False
  then have "p1 = p" using c by (auto simp: commit_probe_def Let_def split: if_splits)
  with check run show ?thesis by simp
qed

lemma goroutine_one:
  assumes "prober_ok p" "goroutine_at i p = Some (r, st)"
  shows "pb_goroutines p = [(r, st)] \<and> i = 0 \<and> pb_probing p \<and> run_ok p r"
  using assms by (auto simp: prober_ok_def goroutine_at_def split: if_splits)

lemma prober_ok_commit:
  assumes ok: "prober_ok p"
  shows "prober_ok (probe_move lib p (PbCommit i result at_text))"
proof (cases "goroutine_at i p")
  case (Some g)
  obtain r st where g: "g = (r, st)" by force
  note one = goroutine_one [OF ok Some [unfolded g]]
  show ?thesis
  proof (cases st)
    case Dialling
    obtain p1 st1 where c: "commit_probe r result at_text p = (p1, st1)" by force
    have "check_ok p" using ok by (simp add: prober_ok_def)
    from commit_ok [OF this _ c] one have k: "check_ok p1" "run_ok p1 r" "pb_goroutines p1 = [(r, st)]" "pb_probing p1"
      by simp_all
    then show ?thesis using Some g Dialling c one
      by (simp add: prober_ok_def run_ok_def check_ok_def)
  qed (use Some g ok in simp)
qed (use ok in simp)

lemma prober_ok_settle:
  assumes ok: "prober_ok p"
  shows "prober_ok (probe_move lib p (PbSettle i))"
proof (cases "goroutine_at i p")
  case (Some g)
  then obtain r st where g: "pb_goroutines p = [(r, st)]" "i = 0" "g = (r, st)"
    using ok by (auto simp: prober_ok_def goroutine_at_def split: if_splits)
  with Some ok show ?thesis
    by (cases st) (auto simp: prober_ok_def settle_probe_def check_ok_def Let_def split: option.splits)
qed (use ok in simp)

lemma prober_ok_close:
  assumes ok: "prober_ok p"
  shows "prober_ok (probe_move lib p (PbClose g))"
proof (cases "pb_goroutines p = []")
  case True
  with ok show ?thesis by (auto simp: prober_ok_def check_ok_def cancel_where_def split: option.splits)
next
  case False
  with ok obtain r st where r: "pb_goroutines p = [(r, st)]" "pb_probing p" "run_ok p r" "check_ok p"
    by (auto simp: prober_ok_def)
  let ?p = "cancel_where (\<lambda>r. pr_conn r = g) (p\<lparr>pb_closed := insert g (pb_closed p)\<rparr>)"
  let ?r = "if pr_conn r = g then r\<lparr>pr_cancelled := True\<rparr> else r"
  have "run_ok ?p ?r" using r(3) by (cases "pr_conn r = g") (simp_all add: run_ok_def cancel_where_def)
  moreover have "check_ok ?p" "pb_goroutines ?p = [(?r, st)]" "pb_probing ?p"
    using r by (simp_all add: check_ok_def cancel_where_def)
  ultimately show ?thesis using ok by (simp add: prober_ok_def)
qed

lemma prober_ok_again: "prober_ok p \<Longrightarrow> prober_ok (p\<lparr>pb_again := n\<rparr>)"
  by (simp add: prober_ok_def run_ok_def check_ok_def)

lemma prober_ok_connect: "prober_ok p \<Longrightarrow> prober_ok (p\<lparr>pb_conn := Suc (pb_conn p)\<rparr>)"
  by (auto simp: prober_ok_def run_ok_def check_ok_def)

lemma prober_ok_step: "prober_ok p \<Longrightarrow> prober_ok (probe_move lib p e)"
  by (cases e)
     (simp_all add: prober_ok_maybe prober_ok_engine prober_ok_commit prober_ok_settle prober_ok_close prober_ok_again
        prober_ok_connect del: probe_move.simps(2,4,5,7))

lemma prober_ok_run: "prober_ok p \<Longrightarrow> prober_ok (run (probe_move lib) p es)"
  by (induction es arbitrary: p) (simp_all add: prober_ok_step)

text \<open>C39. Whatever the interleaving of connections, heartbeats, provider replacements and checks, at most
one check runs, and a cached origin check is the result of a check that was never cancelled, by the
end of its connection or by a replacement of the providers, and was made with exactly the providers
in force now. (A git that ran out of its own time limit was not cancelled in this sense: it is an
answer of the check, unreachable.)\<close>

theorem origin_check_vouched:
  "let p = run (probe_move lib) (new_prober (init_engine lib raw_pin st loaded)) es
   in length (pb_goroutines p) = (if pb_probing p then 1 else 0) \<and>
      (case origin_check (pb_client p) of
          None \<Rightarrow> True
        | Some oc \<Rightarrow>
            (case pb_source p of
               None \<Rightarrow> False
             | Some (r, v) \<Rightarrow> oc_result oc = verdict_text v \<and> \<not> pr_cancelled r \<and>
                 pr_epoch r = provider_epoch (pb_client p) \<and> pr_targets r = probe_targets (providers (pb_client p))))"
proof -
  let ?p = "run (probe_move lib) (new_prober (init_engine lib raw_pin st loaded)) es"
  have "origin_check (eng (init_engine lib raw_pin st loaded)) = None"
    by (simp add: init_engine_def new_client_def split: prod.splits)
  then have "prober_ok (new_prober (init_engine lib raw_pin st loaded))"
    by (simp add: prober_ok_def new_prober_def check_ok_def)
  then have "prober_ok ?p" by (rule prober_ok_run)
  then show ?thesis by (auto simp: Let_def prober_ok_def check_ok_def source_ok_def split: option.splits)
qed

text \<open>
  A check overtaken by new providers on a live connection gives its slot back, if nothing has taken it since,
  and is followed by another call of \<open>maybeProbe\<close>, which then finds the slot free.
\<close>

lemma overtaken_check_repeated:
  assumes "goroutine_at i p = Some (r, Settling True True)" "p' = probe_move lib p (PbSettle i)"
  shows "0 < pb_again p' \<and> \<not> pb_probing p' \<and> (last_probe (pb_client p) = pr_start r \<longrightarrow> last_probe (pb_client p') = 0)"
  using assms by (simp add: settle_probe_def Let_def)

text \<open>Providers replaced after the commit of a check and before its goroutine settles are not probed by either.\<close>

lemma reload_after_commit_unprobed:
  assumes "pb_goroutines p = [(r, Settling False False)]" "pb_probing p" "pb_again p = 0"
    and "p1 = probe_move lib p (PbEngine (EProviders st))" "p2 = probe_move lib p1 (PbMaybe now)"
    and "p3 = probe_move lib p2 (PbSettle 0)"
  shows "pb_goroutines p3 = [] \<and> \<not> pb_probing p3 \<and> pb_again p3 = 0"
proof -
  obtain r1 where "pb_goroutines p1 = [(r1, Settling False False)]" "pb_probing p1" "pb_again p1 = 0"
    using assms(1-4) by (auto simp: cancel_where_def Let_def simp del: engine_step.simps split: if_splits)
  then show ?thesis using assms(5,6) by (simp add: maybe_probe_def goroutine_at_def settle_probe_def Let_def)
qed

end
