(* ===== verification/ProviderConfig.thy ===== *)
theory ProviderConfig
  imports LocalFile GoText Providers
begin

text \<open>
  The provider configuration file (\<open>gitsync/entry.go\<close>, \<open>gitsync/configload.go\<close> and what they use of
  \<open>gitsync/sources.go\<close>): its entries, their validation, and the load in two passes, the second of which
  reads the token files. The JSON decoder and HMAC are Go's and parameters. A message is a constructor
  with what its text shows, the log is left out.
\<close>

section \<open>The file as written\<close>

record disk_entry =
  de_base_url :: string
  de_auth :: string
  de_username :: string
  de_token :: "string option"
  de_token_file :: "string option"

definition str_val :: "string option \<Rightarrow> string" where
  "str_val p = (case p of None \<Rightarrow> [] | Some s \<Rightarrow> s)"

definition str_ptr :: "string \<Rightarrow> string option" where
  "str_ptr s = (if s = [] then None else Some s)"

text \<open>
  How the strict decoder fails: a syntax error with its offset, the end of the input, a value of the
  wrong type (whether a string was expected, the path of the field, the offset), an unknown field.
\<close>

datatype decode_failure =
    JsonSyntax int | JsonEOF | JsonType bool string int | JsonUnknownField | JsonOther

text \<open>
  \<open>ld_decode\<close> gives the decoded object and whether nothing but blanks follows it. \<open>ld_hmac\<close> is
  HMAC-SHA256 under the random key of the process.
\<close>

record load_deps =
  ld_lib :: go_lib
  ld_decode :: "string \<Rightarrow> decode_failure + (string, disk_entry) fmap \<times> bool"
  ld_hmac :: "string \<Rightarrow> string"
  ld_euid :: int

section \<open>Validation of an entry\<close>

datatype config_field = FieldBaseURL | FieldAuth | FieldUsername | FieldToken | FieldTokenFile

datatype entry_problem =
    BadBaseURL host_error | CredentialsNeedMode | BearerWithUsername | BasicNeedsUsername
  | UsernameHasColon | UnsupportedMode | NeedsHttps | TokenTooShort | TokenHasControl
  | BothTokens | TokenFileEmpty | TokenPathTooLong | TokenPathRelative | TokenPathCharacters | NeedsToken

fun problem_field :: "entry_problem \<Rightarrow> config_field" where
  "problem_field (BadBaseURL e) = FieldBaseURL"
| "problem_field CredentialsNeedMode = FieldAuth"
| "problem_field BearerWithUsername = FieldUsername"
| "problem_field BasicNeedsUsername = FieldUsername"
| "problem_field UsernameHasColon = FieldUsername"
| "problem_field UnsupportedMode = FieldAuth"
| "problem_field NeedsHttps = FieldBaseURL"
| "problem_field TokenTooShort = FieldToken"
| "problem_field TokenHasControl = FieldToken"
| "problem_field NeedsToken = FieldToken"
| "problem_field _ = FieldTokenFile"

definition min_token_length :: nat where
  "min_token_length = 16"

definition max_token_file_path_length :: nat where
  "max_token_file_path_length = 4096"

definition validate_settings :: "go_lib \<Rightarrow> local_entry \<Rightarrow> entry_problem option" where
  "validate_settings lib e =
     (case validate_remote_url lib (le_base_url e) of
        Inl er \<Rightarrow> Some (BadBaseURL er)
      | Inr u \<Rightarrow>
          if le_auth e = [] then
            (if le_username e \<noteq> [] \<or> le_token e \<noteq> [] \<or> le_token_file e \<noteq> [] then Some CredentialsNeedMode else None)
          else if le_auth e = ''bearer'' then
            (if le_username e \<noteq> [] then Some BearerWithUsername
             else if u_scheme u \<noteq> ''https'' then Some NeedsHttps else None)
          else if le_auth e = ''basic'' then
            (if le_username e = [] then Some BasicNeedsUsername
             else if CHR '':'' \<in> set (le_username e) then Some UsernameHasColon
             else if u_scheme u \<noteq> ''https'' then Some NeedsHttps else None)
          else Some UnsupportedMode)"

definition validate_token :: "local_entry \<Rightarrow> entry_problem option" where
  "validate_token e =
     (if le_auth e = [] then None
      else if length (runes (le_token e)) < min_token_length then Some TokenTooShort
      else if list_ex is_control (runes (le_token e)) then Some TokenHasControl
      else None)"

definition validate_entry :: "go_lib \<Rightarrow> local_entry \<Rightarrow> entry_problem option" where
  "validate_entry lib e = (case validate_settings lib e of Some p \<Rightarrow> Some p | None \<Rightarrow> validate_token e)"

text \<open>The format characters (category Cf) of Unicode 15.\<close>

definition is_format_char :: "nat \<Rightarrow> bool" where
  "is_format_char r \<longleftrightarrow>
     r = 0xAD \<or> (0x600 \<le> r \<and> r \<le> 0x605) \<or> r = 0x61C \<or> r = 0x6DD \<or> r = 0x70F \<or> r = 0x890 \<or> r = 0x891 \<or>
     r = 0x8E2 \<or> r = 0x180E \<or> (0x200B \<le> r \<and> r \<le> 0x200F) \<or> (0x202A \<le> r \<and> r \<le> 0x202E) \<or>
     (0x2060 \<le> r \<and> r \<le> 0x2064) \<or> (0x2066 \<le> r \<and> r \<le> 0x206F) \<or> r = 0xFEFF \<or> (0xFFF9 \<le> r \<and> r \<le> 0xFFFB) \<or>
     r = 0x110BD \<or> r = 0x110CD \<or> (0x13430 \<le> r \<and> r \<le> 0x1343F) \<or> (0x1BCA0 \<le> r \<and> r \<le> 0x1BCA3) \<or>
     (0x1D173 \<le> r \<and> r \<le> 0x1D17A) \<or> r = 0xE0001 \<or> (0xE0020 \<le> r \<and> r \<le> 0xE007F)"

definition is_control_or_format :: "nat \<Rightarrow> bool" where
  "is_control_or_format r \<longleftrightarrow> is_control r \<or> is_format_char r"

definition validate_token_file_path :: "string \<Rightarrow> entry_problem option" where
  "validate_token_file_path path =
     (if max_token_file_path_length < length path then Some TokenPathTooLong
      else if \<not> prefix ''/'' path then Some TokenPathRelative
      else if \<not> valid_utf8 path \<or> list_ex is_control_or_format (runes path) then Some TokenPathCharacters
      else None)"

definition validate_credential_source :: "disk_entry \<Rightarrow> entry_problem option" where
  "validate_credential_source de =
     (case de_token_file de of
        Some f \<Rightarrow>
          if de_token de \<noteq> None then Some BothTokens
          else if f = [] then Some TokenFileEmpty
          else validate_token_file_path f
      | None \<Rightarrow> if de_auth de \<noteq> [] \<and> de_token de = None then Some NeedsToken else None)"

text \<open>What a token file holds: its bytes less one trailing newline.\<close>

datatype token_problem =
    TokenNotUtf8 | TokenEmpty | TokenCarriageReturn | TokenManyLines | TokenInvisible | TokenWhitespace

definition token_file_value :: "string \<Rightarrow> token_problem + string" where
  "token_file_value raw =
     (if \<not> valid_utf8 raw then Inl TokenNotUtf8
      else (let s = trim_suffix raw [newline]
            in if trim_space s = [] then Inl TokenEmpty
               else if suffix [CHR 0x0D] s then Inl TokenCarriageReturn
               else if newline \<in> set s then Inl TokenManyLines
               else if list_ex is_control_or_format (runes s) then Inl TokenInvisible
               else if is_space (hd (runes s)) \<or> is_space (List.last (runes s)) then Inl TokenWhitespace
               else Inr s))"

section \<open>Problems\<close>

datatype issue_class =
    IssueFile | IssueSyntax | IssueSchema | IssueProviderName | IssueBaseURL | IssueCredentials | IssueDuplicateHost

datatype name_problem = NameEmpty | NameTooLong nat | NameBadCharacter nat | NameInvalid

datatype issue_cause =
    FileFault file_fault | TokenFileForeign
  | NotJson int | EndsEarly | TrailingData | WrongType "config_field option" int | UnknownField | NotAConfig
  | BadName name_problem | EntryProblem entry_problem | HostProblem host_error | SameHost string
  | TokenFileFault string file_fault | TokenFileContent string token_problem | TokenFileToken string entry_problem

record config_issue =
  ci_class :: issue_class
  ci_provider :: string
  ci_field :: "config_field option"
  ci_cause :: issue_cause

definition config_issue_of :: "issue_class \<Rightarrow> string \<Rightarrow> config_field option \<Rightarrow> issue_cause \<Rightarrow> config_issue" where
  "config_issue_of cl p f w = \<lparr>ci_class = cl, ci_provider = p, ci_field = f, ci_cause = w\<rparr>"

fun field_name :: "config_field \<Rightarrow> string" where
  "field_name FieldBaseURL = ''base_url''"
| "field_name FieldAuth = ''auth''"
| "field_name FieldUsername = ''username''"
| "field_name FieldToken = ''token''"
| "field_name FieldTokenFile = ''token_file''"

text \<open>The setting a dotted path of the decoder ends in, when it is a known one.\<close>

definition known_config_field :: "string \<Rightarrow> config_field option" where
  "known_config_field path =
     (let name = List.last (split_on (CHR ''.'') path)
      in find (\<lambda>f. field_name f = name) [FieldBaseURL, FieldAuth, FieldUsername, FieldToken, FieldTokenFile])"

definition decode_issue :: "decode_failure \<Rightarrow> config_issue" where
  "decode_issue e =
     (case e of
        JsonSyntax off \<Rightarrow> config_issue_of IssueSyntax [] None (NotJson off)
      | JsonEOF \<Rightarrow> config_issue_of IssueSyntax [] None EndsEarly
      | JsonType is_string path off \<Rightarrow>
          (let f = (if is_string then known_config_field path else None)
           in config_issue_of IssueSchema [] f (WrongType f off))
      | JsonUnknownField \<Rightarrow> config_issue_of IssueSchema [] None UnknownField
      | JsonOther \<Rightarrow> config_issue_of IssueSchema [] None NotAConfig)"

definition decode_config :: "load_deps \<Rightarrow> string \<Rightarrow> config_issue + (string, disk_entry) fmap" where
  "decode_config d data =
     (case ld_decode d data of
        Inl e \<Rightarrow> Inl (decode_issue e)
      | Inr (dc, at_end) \<Rightarrow>
          if \<not> at_end then Inl (config_issue_of IssueSyntax [] None TrailingData) else Inr dc)"

definition name_char :: "char \<Rightarrow> bool" where
  "name_char c \<longleftrightarrow> is_alpha c \<or> is_digit c \<or> c \<in> set ''._-''"

definition describe_bad_provider_name :: "string \<Rightarrow> name_problem" where
  "describe_bad_provider_name name =
     (if name = [] then NameEmpty
      else if 64 < length name then NameTooLong (length name)
      else let ok = takeWhile name_char name
           in if length ok < length name then NameBadCharacter (length ok) else NameInvalid)"

definition entry_issue :: "string \<Rightarrow> entry_problem \<Rightarrow> config_issue" where
  "entry_issue name p =
     (let f = problem_field p
      in config_issue_of (if f = FieldBaseURL then IssueBaseURL else IssueCredentials) name (Some f) (EntryProblem p))"

definition token_file_issue :: "string \<Rightarrow> issue_cause \<Rightarrow> config_issue" where
  "token_file_issue name w = config_issue_of IssueCredentials name (Some FieldTokenFile) w"

section \<open>The files of a load\<close>

record source =
  src_path :: string
  src_read :: bool
  src_digest :: string

definition unread_source :: "string \<Rightarrow> source" where
  "unread_source p = \<lparr>src_path = p, src_read = False, src_digest = []\<rparr>"

definition new_source :: "load_deps \<Rightarrow> string \<Rightarrow> string \<Rightarrow> source" where
  "new_source d p content = \<lparr>src_path = p, src_read = True, src_digest = ld_hmac d content\<rparr>"

type_synonym source_set = "(string, source) fmap"

definition add_source :: "source \<Rightarrow> source_set \<Rightarrow> source_set" where
  "add_source s m = fmupd (src_path s) s m"

definition sorted_sources :: "source_set \<Rightarrow> source list" where
  "sorted_sources m = map (\<lambda>k. the (fmlookup m k)) (sorted_keys m)"

record loaded_config =
  lc_entries :: "(string, local_entry) fmap"
  lc_host_keys :: "(string, string) fmap"
  lc_missing :: bool
  lc_issues :: "config_issue list"
  lc_loose :: bool
  lc_missing_token :: "string list"
  lc_sources :: source_set

definition nothing_loaded :: loaded_config where
  "nothing_loaded = \<lparr>lc_entries = fmempty, lc_host_keys = fmempty, lc_missing = False, lc_issues = [],
     lc_loose = False, lc_missing_token = [], lc_sources = fmempty\<rparr>"

section \<open>The first pass\<close>

record pass_one =
  po_issues :: "config_issue list"
  po_owners :: "(string, string) fmap"
  po_host_keys :: "(string, string) fmap"
  po_entries :: "(string, local_entry) fmap"
  po_pending :: "(string, local_entry) fmap"

definition nothing_checked :: pass_one where
  "nothing_checked = \<lparr>po_issues = [], po_owners = fmempty, po_host_keys = fmempty, po_entries = fmempty,
     po_pending = fmempty\<rparr>"

definition entry_of :: "disk_entry \<Rightarrow> local_entry" where
  "entry_of de = \<lparr>le_base_url = de_base_url de, le_auth = de_auth de, le_username = de_username de,
     le_token = str_val (de_token de), le_token_file = str_val (de_token_file de)\<rparr>"

text \<open>What is wrong with a provider by itself: the first of its settings, credential source, inline token.\<close>

definition entry_fault :: "go_lib \<Rightarrow> disk_entry \<Rightarrow> entry_problem option" where
  "entry_fault lib de =
     (case validate_settings lib (entry_of de) of
        Some p \<Rightarrow> Some p
      | None \<Rightarrow> (case validate_credential_source de of
          Some p \<Rightarrow> Some p
        | None \<Rightarrow> if le_token_file (entry_of de) = [] then validate_token (entry_of de) else None))"

definition report :: "config_issue \<Rightarrow> pass_one \<Rightarrow> pass_one" where
  "report i st = st\<lparr>po_issues := po_issues st @ [i]\<rparr>"

definition check_provider :: "go_lib \<Rightarrow> string \<times> disk_entry \<Rightarrow> pass_one \<Rightarrow> pass_one" where
  "check_provider lib ne st =
     (case ne of (name, de) \<Rightarrow>
        if \<not> valid_provider_name name
        then report (config_issue_of IssueProviderName [] None (BadName (describe_bad_provider_name name))) st
        else (case entry_fault lib de of
            Some p \<Rightarrow> report (entry_issue name p) st
          | None \<Rightarrow>
              (let e = entry_of de
               in case canonical_host_key lib (le_base_url e) of
                    Inl er \<Rightarrow> report (config_issue_of IssueBaseURL name (Some FieldBaseURL) (HostProblem er)) st
                  | Inr hk \<Rightarrow>
                      (case fmlookup (po_owners st) hk of
                         Some other \<Rightarrow> report (config_issue_of IssueDuplicateHost name (Some FieldBaseURL) (SameHost other)) st
                       | None \<Rightarrow>
                           (let st1 = st\<lparr>po_owners := fmupd hk name (po_owners st),
                                         po_host_keys := fmupd name hk (po_host_keys st)\<rparr>
                            in if le_token_file e \<noteq> [] then st1\<lparr>po_pending := fmupd name e (po_pending st1)\<rparr>
                               else st1\<lparr>po_entries := fmupd name e (po_entries st1)\<rparr>)))))"

definition named_entries :: "(string, disk_entry) fmap \<Rightarrow> (string \<times> disk_entry) list" where
  "named_entries dc = map (\<lambda>n. (n, the (fmlookup dc n))) (sorted_keys dc)"

definition check_providers :: "go_lib \<Rightarrow> (string, disk_entry) fmap \<Rightarrow> pass_one" where
  "check_providers lib dc = fold (check_provider lib) (named_entries dc) nothing_checked"

definition uses_token_file :: "(string, disk_entry) fmap \<Rightarrow> bool" where
  "uses_token_file dc \<longleftrightarrow> list_ex (\<lambda>(n, de). de_token_file de \<noteq> None) (named_entries dc)"

text \<open>Every well-formed token file is watched, whether the load succeeds or not.\<close>

definition watch_token_files :: "(string, disk_entry) fmap \<Rightarrow> source_set \<Rightarrow> source_set" where
  "watch_token_files dc m =
     fold (\<lambda>(n, de) m. case de_token_file de of
             Some f \<Rightarrow> if validate_token_file_path f = None then add_source (unread_source f) m else m
           | None \<Rightarrow> m) (named_entries dc) m"

section \<open>The second pass\<close>

record pass_two =
  pt_contents :: "(string, string) fmap"
  pt_issues :: "config_issue list"
  pt_missing :: "string list"
  pt_entries :: "(string, local_entry) fmap"
  pt_sources :: source_set

text \<open>The bytes of a token file give a provider its credential.\<close>

definition take_token :: "string \<Rightarrow> local_entry \<Rightarrow> string \<Rightarrow> pass_two \<Rightarrow> pass_two" where
  "take_token name e raw st =
     (case token_file_value raw of
        Inl p \<Rightarrow> st\<lparr>pt_issues := pt_issues st @ [token_file_issue name (TokenFileContent (le_token_file e) p)]\<rparr>
      | Inr token \<Rightarrow>
          (let e1 = e\<lparr>le_token := token\<rparr>
           in case validate_token e1 of
                Some p \<Rightarrow> st\<lparr>pt_issues := pt_issues st @ [token_file_issue name (TokenFileToken (le_token_file e) p)]\<rparr>
              | None \<Rightarrow> st\<lparr>pt_entries := fmupd name e1 (pt_entries st)\<rparr>))"

definition load_token ::
  "'w file_world \<Rightarrow> load_deps \<Rightarrow> string \<Rightarrow> local_entry \<Rightarrow> pass_two \<Rightarrow> (('w, file_step) sys, pass_two) state" where
  "load_token W d name e st =
     (case fmlookup (pt_contents st) (le_token_file e) of
        Some raw \<Rightarrow> ret (take_token name e raw st)
      | None \<Rightarrow> do {
          r \<leftarrow> read_token_file W (ld_euid d) (le_token_file e);
          ret (case r of
                 Inl f \<Rightarrow>
                   st\<lparr>pt_issues := pt_issues st @ [token_file_issue name (TokenFileFault (le_token_file e) f)],
                      pt_missing := (if token_file_missing f then pt_missing st @ [name] else pt_missing st)\<rparr>
               | Inr raw \<Rightarrow>
                   take_token name e raw
                     (st\<lparr>pt_contents := fmupd (le_token_file e) raw (pt_contents st),
                         pt_sources := add_source (new_source d (le_token_file e) raw) (pt_sources st)\<rparr>))
        })"

fun load_tokens ::
  "'w file_world \<Rightarrow> load_deps \<Rightarrow> (string, local_entry) fmap \<Rightarrow> string list \<Rightarrow> pass_two \<Rightarrow>
   (('w, file_step) sys, pass_two) state" where
  "load_tokens W d pending [] st = ret st"
| "load_tokens W d pending (name # names) st =
     (case fmlookup pending name of
        None \<Rightarrow> load_tokens W d pending names st
      | Some e \<Rightarrow> do { st1 \<leftarrow> load_token W d name e st; load_tokens W d pending names st1 })"

section \<open>The load\<close>

text \<open>What follows the decoded file.\<close>

definition load_decoded ::
  "'w file_world \<Rightarrow> load_deps \<Rightarrow> bool \<Rightarrow> (string, disk_entry) fmap \<Rightarrow> loaded_config \<Rightarrow>
   (('w, file_step) sys, loaded_config) state" where
  "load_decoded W d foreign dc res =
     (let res1 = res\<lparr>lc_sources := watch_token_files dc (lc_sources res)\<rparr>
      in if foreign \<and> uses_token_file dc
         then ret (res1\<lparr>lc_issues := [config_issue_of IssueFile [] None TokenFileForeign]\<rparr>)
         else
           (let po = check_providers (ld_lib d) dc;
                res2 = res1\<lparr>lc_issues := po_issues po, lc_host_keys := po_host_keys po, lc_entries := po_entries po\<rparr>
            in if po_issues po \<noteq> [] then ret res2
               else do {
                 pt \<leftarrow> load_tokens W d (po_pending po) (sorted_keys dc)
                   \<lparr>pt_contents = fmempty, pt_issues = [], pt_missing = [], pt_entries = lc_entries res2,
                    pt_sources = lc_sources res2\<rparr>;
                 ret (res2\<lparr>lc_issues := pt_issues pt, lc_entries := pt_entries pt, lc_sources := pt_sources pt,
                           lc_missing_token := (if length (pt_missing pt) = length (pt_issues pt) then pt_missing pt else [])\<rparr>)
               }))"

definition load_config_mode ::
  "'w file_world \<Rightarrow> load_deps \<Rightarrow> string \<Rightarrow> bool \<Rightarrow> (('w, file_step) sys, loaded_config) state" where
  "load_config_mode W d path tighten = do {
     r \<leftarrow> read_provider_config_mode W (ld_euid d) path max_config_file_size reject_foreign_config_owner tighten;
     (case r of
        Inl f \<Rightarrow>
          (let res1 = nothing_loaded\<lparr>lc_sources := add_source (unread_source path) fmempty\<rparr>
           in ret (if f = OpenFailed NoEnt \<or> f = IoFailed NoEnt then res1\<lparr>lc_missing := True\<rparr>
                   else res1\<lparr>lc_issues := [config_issue_of IssueFile [] None (FileFault f)]\<rparr>))
      | Inr cfg \<Rightarrow>
          (let res1 = nothing_loaded\<lparr>lc_sources := add_source (new_source d path (cf_data cfg)) fmempty, lc_loose := cf_loose cfg\<rparr>
           in case decode_config d (cf_data cfg) of
                Inl i \<Rightarrow> ret (res1\<lparr>lc_issues := [i]\<rparr>)
              | Inr dc \<Rightarrow> load_decoded W d (cf_foreign_owner cfg) dc res1))
   }"

definition load_config ::
  "'w file_world \<Rightarrow> load_deps \<Rightarrow> string \<Rightarrow> (('w, file_step) sys, loaded_config) state" where
  "load_config W d path = load_config_mode W d path True"

end
