(* ===== verification/ConfigSafety.thy ===== *)
theory ConfigSafety
  imports ProviderConfig
begin

text \<open>
  What a load of the provider configuration guarantees: every entry it hands on is valid and hosts are
  distinct, every provider is an entry or a problem, and token files are opened only for a
  configuration that is otherwise acceptable.
\<close>

section \<open>The first pass\<close>

text \<open>What holds of a provider that passed, but for its token when that is still in its file.\<close>

definition accepted :: "go_lib \<Rightarrow> string \<Rightarrow> local_entry \<Rightarrow> string \<Rightarrow> bool" where
  "accepted lib name e hk \<longleftrightarrow>
     valid_provider_name name \<and> validate_settings lib e = None \<and> canonical_host_key lib (le_base_url e) = Inr hk \<and>
     (le_token_file e = [] \<or> validate_token_file_path (le_token_file e) = None)"

definition pass_one_ok :: "go_lib \<Rightarrow> pass_one \<Rightarrow> bool" where
  "pass_one_ok lib st \<longleftrightarrow>
     (\<forall>name e. fmlookup (po_entries st) name = Some e \<longrightarrow>
        (\<exists>hk. fmlookup (po_host_keys st) name = Some hk \<and> accepted lib name e hk) \<and> validate_token e = None) \<and>
     (\<forall>name e. fmlookup (po_pending st) name = Some e \<longrightarrow>
        (\<exists>hk. fmlookup (po_host_keys st) name = Some hk \<and> accepted lib name e hk) \<and> le_token_file e \<noteq> []) \<and>
     (\<forall>name hk. fmlookup (po_host_keys st) name = Some hk \<longrightarrow> fmlookup (po_owners st) hk = Some name) \<and>
     fmdom' (po_host_keys st) = fmdom' (po_entries st) \<union> fmdom' (po_pending st) \<and>
     fmdom' (po_entries st) \<inter> fmdom' (po_pending st) = {}"

definition provider_fine :: "go_lib \<Rightarrow> string \<times> disk_entry \<Rightarrow> bool" where
  "provider_fine lib ne \<longleftrightarrow>
     (case ne of (name, de) \<Rightarrow> valid_provider_name name \<and> entry_fault lib de = None \<and>
        (case canonical_host_key lib (de_base_url de) of Inl e \<Rightarrow> False | Inr hk \<Rightarrow> True))"

definition host_of :: "go_lib \<Rightarrow> string \<times> disk_entry \<Rightarrow> string" where
  "host_of lib ne = (case canonical_host_key lib (de_base_url (snd ne)) of Inl e \<Rightarrow> [] | Inr hk \<Rightarrow> hk)"

text \<open>One provider: it is added with a host no other has, or it is a problem.\<close>

definition adds :: "go_lib \<Rightarrow> string \<times> disk_entry \<Rightarrow> pass_one \<Rightarrow> bool" where
  "adds lib ne st \<longleftrightarrow> provider_fine lib ne \<and> host_of lib ne \<notin> fmdom' (po_owners st)"

lemma check_provider_step:
  "if adds lib ne st
   then po_issues (check_provider lib ne st) = po_issues st \<and>
        po_owners (check_provider lib ne st) = fmupd (host_of lib ne) (fst ne) (po_owners st) \<and>
        po_host_keys (check_provider lib ne st) = fmupd (fst ne) (host_of lib ne) (po_host_keys st)
   else \<exists>i. check_provider lib ne st = report i st"
  by (cases ne)
    (auto simp: check_provider_def adds_def provider_fine_def host_of_def Let_def entry_of_def report_def fmlookup_dom'_iff
      split: option.splits sum.splits)

lemma entry_faultD:
  assumes "entry_fault lib de = None"
  shows "validate_settings lib (entry_of de) = None" "le_token_file (entry_of de) = [] \<Longrightarrow> validate_token (entry_of de) = None"
    "le_token_file (entry_of de) = [] \<or> validate_token_file_path (le_token_file (entry_of de)) = None"
  using assms by (auto simp: entry_fault_def validate_credential_source_def entry_of_def str_val_def split: option.splits if_splits)

lemma addsE:
  assumes "adds lib (name, de) st"
  obtains hk where "canonical_host_key lib (de_base_url de) = Inr hk" "valid_provider_name name"
    "entry_fault lib de = None" "fmlookup (po_owners st) hk = None"
    "check_provider lib (name, de) st =
       (let st1 = st\<lparr>po_owners := fmupd hk name (po_owners st), po_host_keys := fmupd name hk (po_host_keys st)\<rparr>
        in if le_token_file (entry_of de) \<noteq> [] then st1\<lparr>po_pending := fmupd name (entry_of de) (po_pending st1)\<rparr>
           else st1\<lparr>po_entries := fmupd name (entry_of de) (po_entries st1)\<rparr>)"
proof -
  from assms obtain hk where hk: "canonical_host_key lib (de_base_url de) = Inr hk" "valid_provider_name name"
    "entry_fault lib de = None" "fmlookup (po_owners st) hk = None"
    by (auto simp: adds_def provider_fine_def host_of_def fmlookup_dom'_iff split: sum.splits)
  moreover have "le_base_url (entry_of de) = de_base_url de" by (simp add: entry_of_def)
  ultimately show thesis by (intro that) (simp_all add: check_provider_def Let_def)
qed

lemma check_provider_ok:
  assumes "pass_one_ok lib st" "fst ne \<notin> fmdom' (po_host_keys st)"
  shows "pass_one_ok lib (check_provider lib ne st)"
proof -
  obtain name de where ne: "ne = (name, de)" by force
  show ?thesis
  proof (cases "adds lib ne st")
    case False
    then obtain i where "check_provider lib ne st = report i st" using check_provider_step [of lib ne st] by auto
    with assms(1) show ?thesis by (simp add: pass_one_ok_def report_def)
  next
    case True
    then obtain hk where hk: "canonical_host_key lib (de_base_url de) = Inr hk" "valid_provider_name name"
      "entry_fault lib de = None" "fmlookup (po_owners st) hk = None"
      and c: "check_provider lib ne st =
        (let st1 = st\<lparr>po_owners := fmupd hk name (po_owners st), po_host_keys := fmupd name hk (po_host_keys st)\<rparr>
         in if le_token_file (entry_of de) \<noteq> [] then st1\<lparr>po_pending := fmupd name (entry_of de) (po_pending st1)\<rparr>
            else st1\<lparr>po_entries := fmupd name (entry_of de) (po_entries st1)\<rparr>)"
      unfolding ne by (rule addsE)
    let ?e = "entry_of de"
    have acc: "accepted lib name ?e hk"
      using hk entry_faultD [OF hk(3)] by (simp add: accepted_def) (simp add: entry_of_def)
    have new: "fmlookup (po_entries st) name = None" "fmlookup (po_pending st) name = None"
      using assms unfolding pass_one_ok_def ne by (auto simp: fmlookup_dom'_iff)
    show ?thesis
    proof (cases "le_token_file ?e = []")
      case True
      then show ?thesis
        using assms acc hk entry_faultD [OF hk(3)] new unfolding pass_one_ok_def c by (auto simp: ne Let_def)
    next
      case False
      then show ?thesis
        using assms acc hk new unfolding pass_one_ok_def c by (auto simp: ne Let_def)
    qed
  qed
qed

lemma check_providers_fold:
  assumes "pass_one_ok lib st" "distinct (map fst nes)" "fmdom' (po_host_keys st) \<inter> fst ` set nes = {}"
    "fmdom' (po_owners st) = hosts"
  shows "pass_one_ok lib (fold (check_provider lib) nes st) \<and>
    length (po_issues (fold (check_provider lib) nes st)) + card (fmdom' (po_host_keys (fold (check_provider lib) nes st))) =
      length (po_issues st) + card (fmdom' (po_host_keys st)) + length nes \<and>
    fmdom' (po_host_keys (fold (check_provider lib) nes st)) \<subseteq> fmdom' (po_host_keys st) \<union> fst ` set nes \<and>
    (po_issues (fold (check_provider lib) nes st) = [] \<longleftrightarrow>
       po_issues st = [] \<and> list_all (provider_fine lib) nes \<and> distinct (map (host_of lib) nes) \<and>
       hosts \<inter> host_of lib ` set nes = {})"
  using assms
proof (induction nes arbitrary: st hosts)
  case Nil
  then show ?case by simp
next
  case (Cons ne nes)
  let ?st = "check_provider lib ne st"
  have ok: "pass_one_ok lib ?st" using Cons.prems by (intro check_provider_ok) auto
  show ?case
  proof (cases "adds lib ne st")
    case True
    then have step: "po_issues ?st = po_issues st" "po_owners ?st = fmupd (host_of lib ne) (fst ne) (po_owners st)"
      "po_host_keys ?st = fmupd (fst ne) (host_of lib ne) (po_host_keys st)"
      using check_provider_step [of lib ne st] by auto
    have new: "fst ne \<notin> fmdom' (po_host_keys st)" using Cons.prems(3) by auto
    have fine: "provider_fine lib ne" "host_of lib ne \<notin> hosts" using True Cons.prems(4) by (auto simp: adds_def)
    have "card (fmdom' (po_host_keys ?st)) = Suc (card (fmdom' (po_host_keys st)))"
      using new by (simp add: step)
    moreover have "fmdom' (po_host_keys ?st) \<inter> fst ` set nes = {}"
      using Cons.prems(2,3) by (auto simp: step)
    moreover have "fmdom' (po_owners ?st) = insert (host_of lib ne) hosts" using Cons.prems(4) by (simp add: step)
    ultimately show ?thesis
      using Cons.IH [OF ok, of "insert (host_of lib ne) hosts"] Cons.prems(2) fine step by auto
  next
    case False
    then obtain i where "?st = report i st" using check_provider_step [of lib ne st] by auto
    then have step: "po_issues ?st = po_issues st @ [i]" "po_owners ?st = po_owners st" "po_host_keys ?st = po_host_keys st"
      by (simp_all add: report_def)
    have "\<not> (list_all (provider_fine lib) (ne # nes) \<and> hosts \<inter> host_of lib ` set (ne # nes) = {})"
      using False Cons.prems(4) by (auto simp: adds_def)
    then show ?thesis
      using Cons.IH [OF ok, of hosts] Cons.prems step by auto
  qed
qed

lemma named_entries_fst [simp]: "map fst (named_entries dc) = sorted_keys dc"
  by (simp add: named_entries_def comp_def)

lemma nothing_checked_ok: "pass_one_ok lib nothing_checked"
  by (simp add: pass_one_ok_def nothing_checked_def)

text \<open>The first pass over the provider file accounts for every provider: each is either accepted or
reported as exactly one problem, and there is no problem exactly when every provider is valid by
itself and no two resolve to the same host.\<close>

theorem check_providers_exact:
  "let po = check_providers lib dc in
   length (po_issues po) + card (fmdom' (po_host_keys po)) = card (fmdom' dc) \<and>
   (po_issues po = [] \<longleftrightarrow>
      list_all (provider_fine lib) (named_entries dc) \<and> distinct (map (host_of lib) (named_entries dc)))"
proof -
  have "length (named_entries dc) = card (fmdom' dc)"
    using distinct_card [OF distinct_sorted_keys [of dc]] by (simp add: named_entries_def)
  then show ?thesis
    using check_providers_fold [OF nothing_checked_ok, where nes = "named_entries dc" and lib = lib and hosts = "{}"]
    by (simp add: check_providers_def nothing_checked_def Let_def)
qed

lemma check_providers_ok: "pass_one_ok lib (check_providers lib dc)"
  using check_providers_fold [OF nothing_checked_ok, where nes = "named_entries dc" and lib = lib and hosts = "{}"]
  by (simp add: check_providers_def nothing_checked_def)

section \<open>The second pass\<close>

definition entries_valid :: "go_lib \<Rightarrow> (string, string) fmap \<Rightarrow> (string, local_entry) fmap \<Rightarrow> bool" where
  "entries_valid lib hks es \<longleftrightarrow>
     (\<forall>name e. fmlookup es name = Some e \<longrightarrow>
        (\<exists>hk. fmlookup hks name = Some hk \<and> accepted lib name e hk) \<and> validate_token e = None)"

definition pending_valid :: "go_lib \<Rightarrow> (string, string) fmap \<Rightarrow> (string, local_entry) fmap \<Rightarrow> bool" where
  "pending_valid lib hks es \<longleftrightarrow>
     (\<forall>name e. fmlookup es name = Some e \<longrightarrow>
        (\<exists>hk. fmlookup hks name = Some hk \<and> accepted lib name e hk) \<and> le_token_file e \<noteq> [])"

lemma token_accepted:
  "accepted lib name e hk \<Longrightarrow> le_token_file e \<noteq> [] \<Longrightarrow> accepted lib name (e\<lparr>le_token := t\<rparr>) hk"
  by (auto simp: accepted_def validate_settings_def split: sum.splits if_splits)

lemma take_token_valid:
  assumes "pending_valid lib hks pending" "fmlookup pending name = Some e" "entries_valid lib hks (pt_entries st)"
  shows "entries_valid lib hks (pt_entries (take_token name e raw st))"
proof -
  obtain hk where hk: "fmlookup hks name = Some hk" "accepted lib name e hk" "le_token_file e \<noteq> []"
    using assms(1,2) unfolding pending_valid_def by blast
  show ?thesis
  proof (cases "token_file_value raw")
    case (Inl p)
    with assms(3) show ?thesis by (simp add: take_token_def)
  next
    case (Inr t)
    show ?thesis
    proof (cases "validate_token (e\<lparr>le_token := t\<rparr>)")
      case None
      with assms(3) hk token_accepted [OF hk(2,3)] show ?thesis
        by (simp add: take_token_def Inr entries_valid_def)
    next
      case (Some p)
      with assms(3) show ?thesis by (simp add: take_token_def Inr)
    qed
  qed
qed

text \<open>A token file is opened only for a provider of the decoded file, once its first pass found nothing.\<close>

definition token_open_allowed :: "load_deps \<Rightarrow> string \<Rightarrow> file_step list \<Rightarrow> string \<Rightarrow> bool" where
  "token_open_allowed d path before p \<longleftrightarrow>
     (\<exists>i mid data post dc.
        before = FOpened path None # FStat (Inr i) # mid @ FRead (Inr data) # post \<and> list_all tightens mid \<and>
        decode_config d data = Inr dc \<and> \<not> foreign_owner (ld_euid d) i \<and>
        po_issues (check_providers (ld_lib d) dc) = [] \<and>
        list_ex (\<lambda>(name, de). de_token_file de = Some p) (named_entries dc))"

fun open_allowed :: "load_deps \<Rightarrow> string \<Rightarrow> file_step list \<Rightarrow> file_step \<Rightarrow> bool" where
  "open_allowed d path before (FOpened p e) \<longleftrightarrow> before = [] \<and> p = path \<or> token_open_allowed d path before p"
| "open_allowed d path before _ \<longleftrightarrow> True"

definition load_safe :: "load_deps \<Rightarrow> bool \<Rightarrow> string \<Rightarrow> file_step list \<Rightarrow> file_step \<Rightarrow> bool" where
  "load_safe d tighten path before s \<longleftrightarrow> file_safe (ld_euid d) tighten path before s \<and> open_allowed d path before s"

lemma each_step_conj: "each_step (\<lambda>b s. P b s \<and> Q b s) before es \<longleftrightarrow> each_step P before es \<and> each_step Q before es"
  by (induction es arbitrary: before) auto

lemma each_step_load_safe:
  "each_step (load_safe d tighten path) before es \<longleftrightarrow>
     each_step (file_safe (ld_euid d) tighten path) before es \<and> each_step (open_allowed d path) before es"
  unfolding each_step_conj [symmetric] load_safe_def [abs_def] ..

lemma no_opens_allowed: "\<not> list_ex opens es \<Longrightarrow> each_step (open_allowed d path) before es"
proof (induction es arbitrary: before)
  case (Cons s es)
  then show ?case by (cases s) auto
qed simp

lemma opens_once_allowed:
  "es = FOpened p e # rest \<Longrightarrow> \<not> list_ex opens rest \<Longrightarrow> open_allowed d path before (FOpened p e) \<Longrightarrow>
   each_step (open_allowed d path) before es"
  by (simp add: no_opens_allowed)

lemma token_open_later: "token_open_allowed d path before p \<Longrightarrow> token_open_allowed d path (before @ es) p"
  unfolding token_open_allowed_def by (metis append.assoc append_Cons)

lemma token_open_opened: "token_open_allowed d path before p \<Longrightarrow> list_ex opens before"
  by (auto simp: token_open_allowed_def)

lemma load_token_emits:
  assumes "pending_valid lib hks pending" "fmlookup pending name = Some e" "entries_valid lib hks (pt_entries st)"
    "token_open_allowed d path before (le_token_file e)"
  shows "emits (load_token W d name e st)
    (\<lambda>r es. entries_valid lib hks (pt_entries r) \<and> each_step (load_safe d tighten path) before es)"
proof -
  have "emits (read_token_file W (ld_euid d) (le_token_file e))
      (\<lambda>r es. each_step (load_safe d tighten path) before es)"
    by (rule emits_weaken [OF emits_conj [OF read_token_safe [OF token_open_opened [OF assms(4)], where tighten = tighten and path = path]
          read_token_shape]])
      (use assms(4) in \<open>auto simp: each_step_load_safe no_opens_allowed\<close>)
  then show ?thesis
    unfolding load_token_def
    apply (intro emits_option emits_return)
    subgoal by (rule emits_then, assumption, rule emits_return)
      (use take_token_valid [OF assms(1,2)] assms(3) in \<open>auto split: sum.split\<close>)
    subgoal using take_token_valid [OF assms(1-3)] by simp
    done
qed

lemma load_tokens_emits:
  assumes "pending_valid lib hks pending" "entries_valid lib hks (pt_entries st)"
    "\<And>name e. fmlookup pending name = Some e \<Longrightarrow> token_open_allowed d path before (le_token_file e)"
  shows "emits (load_tokens W d pending names st)
    (\<lambda>r es. entries_valid lib hks (pt_entries r) \<and> each_step (load_safe d tighten path) before es)"
  using assms(2,3)
proof (induction names arbitrary: st before)
  case Nil
  then show ?case by (simp add: emits_return)
next
  case (Cons name names)
  show ?case
  proof (cases "fmlookup pending name")
    case None
    with Cons show ?thesis by simp
  next
    case (Some e)
    have "emits (load_token W d name e st \<bind> load_tokens W d pending names)
        (\<lambda>r es. entries_valid lib hks (pt_entries r) \<and> each_step (load_safe d tighten path) before es)"
    proof (rule emits_then [OF load_token_emits [OF assms(1) Some Cons.prems(1) Cons.prems(2) [OF Some], where tighten = tighten]])
      fix st1 :: pass_two and es
      assume p: "entries_valid lib hks (pt_entries st1) \<and> each_step (load_safe d tighten path) before es"
      have "emits (load_tokens W d pending names st1)
          (\<lambda>r fs. entries_valid lib hks (pt_entries r) \<and> each_step (load_safe d tighten path) (before @ es) fs)"
        using p Cons.prems(2) by (intro Cons.IH) (auto intro: token_open_later)
      then show "emits (load_tokens W d pending names st1)
          (\<lambda>r fs. entries_valid lib hks (pt_entries r) \<and> each_step (load_safe d tighten path) before (es @ fs))"
        by (rule emits_weaken) (use p in simp)
    qed
    then show ?thesis by (simp add: Some)
  qed
qed

section \<open>The whole load\<close>

lemma pending_from_file:
  assumes "fmlookup (po_pending (fold (check_provider lib) nes st)) name = Some e"
    "\<And>name e. fmlookup (po_pending st) name = Some e \<Longrightarrow> \<exists>de\<in>set des. e = entry_of de"
  shows "\<exists>de\<in>set des \<union> snd ` set nes. e = entry_of de"
  using assms
proof (induction nes arbitrary: st des)
  case (Cons ne nes)
  obtain n de where ne: "ne = (n, de)" by force
  have "\<exists>q\<in>set (de # des). e = entry_of q" if "fmlookup (po_pending (check_provider lib ne st)) name = Some e" for name e
    using that Cons.prems(2)
    by (auto simp: check_provider_def ne report_def Let_def split: if_splits option.splits sum.splits)
  from Cons.IH [OF _ this] Cons.prems(1) show ?case by (auto simp: ne)
qed auto

lemma load_decoded_emits:
  assumes "lc_entries res = fmempty"
    "before = FOpened path None # FStat (Inr i) # mid @ FRead (Inr data) # post" "list_all tightens mid"
    "decode_config d data = Inr dc" "foreign = foreign_owner (ld_euid d) i"
  shows "emits (load_decoded W d foreign dc res)
    (\<lambda>r es. entries_valid (ld_lib d) (lc_host_keys r) (lc_entries r) \<and>
       (\<forall>name hk. fmlookup (lc_host_keys r) name = Some hk \<longrightarrow>
          fmlookup (po_owners (check_providers (ld_lib d) dc)) hk = Some name \<or> lc_entries r = fmempty) \<and>
       each_step (load_safe d tighten path) before es)"
proof -
  let ?po = "check_providers (ld_lib d) dc"
  have ok: "pass_one_ok (ld_lib d) ?po" by (rule check_providers_ok)
  then have ev: "entries_valid (ld_lib d) (po_host_keys ?po) (po_entries ?po)"
    and pv: "pending_valid (ld_lib d) (po_host_keys ?po) (po_pending ?po)"
    and own: "\<And>name hk. fmlookup (po_host_keys ?po) name = Some hk \<Longrightarrow> fmlookup (po_owners ?po) hk = Some name"
    unfolding pass_one_ok_def entries_valid_def pending_valid_def by blast+
  have allowed: "token_open_allowed d path before (le_token_file e)"
    if p: "fmlookup (po_pending ?po) name = Some e" and fine: "po_issues ?po = []" "\<not> (foreign \<and> uses_token_file dc)" for name e
  proof -
    obtain de where de: "de \<in> snd ` set (named_entries dc)" "e = entry_of de"
      using pending_from_file [OF p [unfolded check_providers_def], of "[]"] by (auto simp: nothing_checked_def)
    have "le_token_file e \<noteq> []" using pv p by (auto simp: pending_valid_def)
    then have f: "de_token_file de = Some (le_token_file e)" by (auto simp: de(2) entry_of_def str_val_def split: option.splits)
    with de(1) have named: "list_ex (\<lambda>(name, de). de_token_file de = Some (le_token_file e)) (named_entries dc)"
      by (fastforce simp: list_ex_iff)
    then have "uses_token_file dc" by (fastforce simp: uses_token_file_def list_ex_iff)
    with fine(2) assms(5) have "\<not> foreign_owner (ld_euid d) i" by simp
    with assms(2-4) fine(1) named show ?thesis unfolding token_open_allowed_def by blast
  qed
  show ?thesis
    unfolding load_decoded_def Let_def
    apply (intro emits_if emits_return)
    subgoal using assms(1) by (simp add: entries_valid_def)
    subgoal using ev own by simp
    subgoal premises p
      apply (rule emits_then [OF load_tokens_emits [OF pv, where tighten = tighten and before = before and path = path]])
      subgoal using ev by simp
      subgoal using allowed p by blast
      subgoal using own by (intro emits_return) simp
      done
    done
qed

definition unique_hosts :: "(string, string) fmap \<Rightarrow> (string, local_entry) fmap \<Rightarrow> bool" where
  "unique_hosts hks es \<longleftrightarrow> distinct (map (fmlookup hks) (sorted_keys es))"

lemma owners_unique:
  assumes "\<forall>name hk. fmlookup hks name = Some hk \<longrightarrow> fmlookup owners hk = Some name \<or> es = fmempty"
    "entries_valid lib hks es"
  shows "unique_hosts hks es"
proof -
  have "inj_on (fmlookup hks) (fmdom' es)"
  proof (rule inj_onI)
    fix a b assume a: "a \<in> fmdom' es" "b \<in> fmdom' es" "fmlookup hks a = fmlookup hks b"
    then have "es \<noteq> fmempty" by auto
    with a assms show "a = b" unfolding entries_valid_def fmlookup_dom'_iff by (metis option.inject)
  qed
  then show ?thesis by (simp add: unique_hosts_def distinct_map)
qed

lemma load_config_emits:
  "emits (load_config_mode W d path tighten)
    (\<lambda>r es. entries_valid (ld_lib d) (lc_host_keys r) (lc_entries r) \<and> unique_hosts (lc_host_keys r) (lc_entries r) \<and>
       each_step (load_safe d tighten path) [] es)"
  unfolding load_config_mode_def reject_foreign_config_owner_def
proof (rule emits_then [OF emits_conj [OF read_config_safe [where before = "[]", simplified] read_config_shape]], elim conjE)
  fix r :: "file_fault + provider_config_file" and es
  assume safe: "each_step (file_safe (ld_euid d) tighten path) [] es"
    and once: "\<exists>e rest. es = FOpened path e # rest \<and> \<not> list_ex opens rest"
    and val: "case r of Inl f \<Rightarrow> True
      | Inr c \<Rightarrow> \<exists>i mid x. es = FOpened path None # FStat (Inr i) # mid @ [FRead (Inr (cf_data c)), FClosed x] \<and>
          list_all tightens mid \<and> cf_foreign_owner c = foreign_owner (ld_euid d) i \<and> length (cf_data c) \<le> max_config_file_size"
  let ?Q = "\<lambda>r fs. entries_valid (ld_lib d) (lc_host_keys r) (lc_entries r) \<and> unique_hosts (lc_host_keys r) (lc_entries r) \<and>
       each_step (load_safe d tighten path) [] (es @ fs)"
  have es: "each_step (load_safe d tighten path) [] es"
    using safe once by (auto simp: each_step_load_safe no_opens_allowed)
  have empty: "?Q r []" if "lc_entries r = fmempty" for r :: loaded_config
    using that es by (simp add: entries_valid_def unique_hosts_def)
  show "emits (case r of Inl f \<Rightarrow>
          (let res1 = nothing_loaded\<lparr>lc_sources := add_source (unread_source path) fmempty\<rparr>
           in ret (if f = OpenFailed NoEnt \<or> f = IoFailed NoEnt then res1\<lparr>lc_missing := True\<rparr>
                   else res1\<lparr>lc_issues := [config_issue_of IssueFile [] None (FileFault f)]\<rparr>))
      | Inr cfg \<Rightarrow>
          (let res1 = nothing_loaded\<lparr>lc_sources := add_source (new_source d path (cf_data cfg)) fmempty, lc_loose := cf_loose cfg\<rparr>
           in case decode_config d (cf_data cfg) of
                Inl i \<Rightarrow> ret (res1\<lparr>lc_issues := [i]\<rparr>)
              | Inr dc \<Rightarrow> load_decoded W d (cf_foreign_owner cfg) dc res1)) ?Q"
  proof (cases r)
    case (Inl f)
    show ?thesis unfolding Inl Let_def sum.case
      by (cases "f = OpenFailed NoEnt \<or> f = IoFailed NoEnt") (simp_all only: if_True if_False, (rule emits_return, rule empty, simp add: nothing_loaded_def)+)
  next
    case (Inr c)
    then obtain i mid x where v: "es = FOpened path None # FStat (Inr i) # mid @ FRead (Inr (cf_data c)) # [FClosed x]"
      "list_all tightens mid" "cf_foreign_owner c = foreign_owner (ld_euid d) i"
      using val by auto
    show ?thesis
    proof (cases "decode_config d (cf_data c)")
      case bad: (Inl issue)
      show ?thesis unfolding Inr Let_def sum.case bad by (rule emits_return, rule empty, simp add: nothing_loaded_def)
    next
      case dc: (Inr dc)
      show ?thesis
        unfolding Inr Let_def sum.case dc
        by (rule emits_weaken [OF load_decoded_emits [OF _ v(1,2) dc v(3), where tighten = tighten]])
          (use es in \<open>auto simp: nothing_loaded_def intro: owners_unique\<close>)
    qed
  qed
qed

text \<open>A load in the world \<open>w\<close>: its result and its log.\<close>

definition load_in :: "'w file_world \<Rightarrow> load_deps \<Rightarrow> string \<Rightarrow> bool \<Rightarrow> 'w \<Rightarrow> loaded_config \<times> file_step list" where
  "load_in W d path tighten w =
     (case run_state (load_config_mode W d path tighten) \<lparr>ext = w, trace = []\<rparr> of (r, s) \<Rightarrow> (r, trace s))"

lemma load_inD:
  "load_in W d path tighten w = (r, es) \<Longrightarrow>
     entries_valid (ld_lib d) (lc_host_keys r) (lc_entries r) \<and> unique_hosts (lc_host_keys r) (lc_entries r) \<and>
     each_step (load_safe d tighten path) [] es"
  using load_config_emits [of W d path tighten, unfolded emits_def, THEN spec, of "\<lparr>ext = w, trace = []\<rparr>"]
  by (auto simp: load_in_def split: prod.splits)

text \<open>An entry as it may be used: valid with its credential, under the key of its host.\<close>

definition usable_entry :: "go_lib \<Rightarrow> loaded_config \<Rightarrow> string \<Rightarrow> bool" where
  "usable_entry lib r name \<longleftrightarrow>
     (case fmlookup (lc_entries r) name of
        None \<Rightarrow> False
      | Some e \<Rightarrow> valid_provider_name name \<and> validate_entry lib e = None \<and>
          (case canonical_host_key lib (le_base_url e) of
             Inl er \<Rightarrow> False | Inr hk \<Rightarrow> fmlookup (lc_host_keys r) name = Some hk))"

text \<open>C35. In every world, each provider a load hands on, even a load with problems, has a valid name,
valid settings and a valid credential, is recorded under the canonical key of its host, and no two
have the same key.\<close>

theorem loaded_entries_usable:
  "case load_in W d path tighten w of (r, es) \<Rightarrow>
     list_all (usable_entry (ld_lib d) r) (sorted_keys (lc_entries r)) \<and>
     distinct (map (fmlookup (lc_host_keys r)) (sorted_keys (lc_entries r)))"
proof (cases "load_in W d path tighten w")
  case (Pair r es)
  from load_inD [OF this] have v: "entries_valid (ld_lib d) (lc_host_keys r) (lc_entries r)"
    "unique_hosts (lc_host_keys r) (lc_entries r)" by auto
  have "usable_entry (ld_lib d) r name" if e: "fmlookup (lc_entries r) name = Some e" for name e
  proof -
    from v(1) e obtain hk where "fmlookup (lc_host_keys r) name = Some hk" "accepted (ld_lib d) name e hk"
      "validate_token e = None" unfolding entries_valid_def by blast
    with e show ?thesis by (simp add: usable_entry_def accepted_def validate_entry_def)
  qed
  with v(2) show ?thesis unfolding Pair prod.case list_all_iff set_sorted_keys unique_hosts_def by (auto simp: fmlookup_dom'_iff)
qed

text \<open>C14. In every world, a load reads bytes of the provider file, its first open, or of a token file,
any later one, only straight after opening it and checking, on that descriptor, its type, size,
owner and mode by the rule for that kind of file; it changes a mode only to 0600, only in a load
that may, and only of a file of the user or root; and it opens a token file only when the provider
file decoded, is not owned by another user, its first pass found no problem, and a provider names
that file.\<close>

theorem credentials_read_vetted:
  "case load_in W d path tighten w of (r, es) \<Rightarrow> each_step (load_safe d tighten path) [] es"
  by (cases "load_in W d path tighten w") (use load_inD in force)

end
