(* ===== verification/ProviderStore.thy ===== *)
theory ProviderStore
  imports ConfigSafety GitEnv
begin

text \<open>
  The provider store (\<open>gitsync/store.go\<close>): what \<open>New\<close> makes of a load, the accessors, and the operator's
  changes, which rewrite the file through a temporary one. The file system is the world, the JSON
  encoder Go's and a parameter.
\<close>

section \<open>The digest of a load\<close>

text \<open>\<open>binary.BigEndian.PutUint64\<close>.\<close>

definition be64 :: "nat \<Rightarrow> string" where
  "be64 n = map (\<lambda>i. char_of (n div 256 ^ i mod 256)) (rev [0..<8])"

definition put_bytes :: "string \<Rightarrow> string" where
  "put_bytes b = be64 (length b) @ b"

definition source_bytes :: "source \<Rightarrow> string" where
  "source_bytes s =
     put_bytes (src_path s) @
     (if src_read s then put_bytes [CHR 0x01] @ put_bytes (src_digest s) else put_bytes [CHR 0x00])"

definition sources_bytes :: "source list \<Rightarrow> bool \<Rightarrow> string" where
  "sources_bytes ss loose = concat (map source_bytes ss) @ put_bytes [if loose then CHR 0x01 else CHR 0x00]"

definition sources_digest :: "load_deps \<Rightarrow> source list \<Rightarrow> bool \<Rightarrow> string" where
  "sources_digest d ss loose = ld_hmac d (sources_bytes ss loose)"

section \<open>The store\<close>

record provider_store =
  ps_path :: string
  ps_data :: "(string, local_entry) fmap"
  ps_sources :: source_set
  ps_digest :: string

text \<open>\<open>New\<close>: the first problem, with the files to watch, or the store.\<close>

definition new_store :: "load_deps \<Rightarrow> string \<Rightarrow> loaded_config \<Rightarrow> (source list \<times> config_issue) + provider_store" where
  "new_store d path res =
     (case lc_issues res of
        i # is \<Rightarrow> Inl (sorted_sources (lc_sources res), i)
      | [] \<Rightarrow> Inr \<lparr>ps_path = path, ps_data = lc_entries res, ps_sources = lc_sources res,
                  ps_digest = sources_digest d (sorted_sources (lc_sources res)) (lc_loose res)\<rparr>)"

definition get_provider :: "string \<Rightarrow> provider_store \<Rightarrow> local_entry option" where
  "get_provider name st = fmlookup (ps_data st) name"

definition provider_names :: "provider_store \<Rightarrow> string list" where
  "provider_names st = sorted_keys (ps_data st)"

definition has_host :: "go_lib \<Rightarrow> string \<Rightarrow> local_entry \<Rightarrow> bool" where
  "has_host lib hk e \<longleftrightarrow> (case canonical_host_key lib (le_base_url e) of Inl er \<Rightarrow> False | Inr k \<Rightarrow> k = hk)"

definition match_by_host_key :: "go_lib \<Rightarrow> string \<Rightarrow> provider_store \<Rightarrow> (string \<times> local_entry) option" where
  "match_by_host_key lib hk st =
     map_option (\<lambda>n. (n, the (fmlookup (ps_data st) n)))
       (find (\<lambda>n. has_host lib hk (the (fmlookup (ps_data st) n))) (sorted_keys (ps_data st)))"

definition match_provider :: "go_lib \<Rightarrow> string \<Rightarrow> provider_store \<Rightarrow> (string \<times> local_entry) option" where
  "match_provider lib origin_url st =
     (case canonical_host_key lib origin_url of Inl e \<Rightarrow> None | Inr hk \<Rightarrow> match_by_host_key lib hk st)"

section \<open>The report of \<open>config check\<close>\<close>

record provider_report =
  pr_name :: string
  pr_host_key :: string
  pr_auth :: string
  pr_has_token :: bool
  pr_token_file :: bool

text \<open>\<open>cr_mode\<close> is the mode the warning about a wide mode names.\<close>

record config_report =
  cr_path :: string
  cr_missing :: bool
  cr_providers :: "provider_report list"
  cr_issues :: "config_issue list"
  cr_mode :: "32 word option"

text \<open>What \<open>os.Stat\<close> of the file gave before the load: its type and mode.\<close>

definition mode_warnings :: "(bool \<times> 32 word) option \<Rightarrow> 32 word option" where
  "mode_warnings info =
     (case info of None \<Rightarrow> None
      | Some (regular, mode) \<Rightarrow> if regular \<and> mode AND 0x17 \<noteq> 0 then Some (mode AND 0x1FF) else None)"

definition build_report :: "string \<Rightarrow> loaded_config \<Rightarrow> 32 word option \<Rightarrow> config_report" where
  "build_report path res warning =
     \<lparr>cr_path = path, cr_missing = lc_missing res,
      cr_providers = map (\<lambda>name. let e = the (fmlookup (lc_entries res) name) in
        \<lparr>pr_name = name, pr_host_key = fm_or (lc_host_keys res) name [], pr_auth = le_auth e,
         pr_has_token = (le_token e \<noteq> [] \<and> le_token_file e = []), pr_token_file = (le_token_file e \<noteq> [])\<rparr>)
        (sorted_keys (lc_entries res)),
      cr_issues = lc_issues res, cr_mode = warning\<rparr>"

lemma report_agrees:
  "case new_store d path res of
     Inl (watch, i) \<Rightarrow> (\<exists>rest. cr_issues (build_report path res warning) = i # rest)
   | Inr st \<Rightarrow> cr_issues (build_report path res warning) = [] \<and>
       map pr_name (cr_providers (build_report path res warning)) = provider_names st"
  by (cases "lc_issues res") (simp_all add: new_store_def build_report_def provider_names_def comp_def Let_def)

section \<open>Saving\<close>

text \<open>\<open>sv_create\<close> makes a temporary file in the directory and opens it; write, sync and close act on it.\<close>

record 'w save_world =
  sv_create :: "string \<Rightarrow> 'w \<Rightarrow> string option \<times> 'w"
  sv_chmod :: "string \<Rightarrow> 32 word \<Rightarrow> 'w \<Rightarrow> bool \<times> 'w"
  sv_write :: "string \<Rightarrow> 'w \<Rightarrow> bool \<times> 'w"
  sv_sync :: "'w \<Rightarrow> bool \<times> 'w"
  sv_close :: "'w \<Rightarrow> bool \<times> 'w"
  sv_rename :: "string \<Rightarrow> string \<Rightarrow> 'w \<Rightarrow> bool \<times> 'w"
  sv_remove :: "string \<Rightarrow> 'w \<Rightarrow> bool \<times> 'w"
  sv_sync_dir :: "string \<Rightarrow> 'w \<Rightarrow> bool \<times> 'w"

datatype save_step =
    TempCreated string "string option"
  | TempMode string "32 word" bool
  | TempWritten string bool
  | TempSynced bool
  | TempClosed bool
  | TempRenamed string string bool
  | TempRemoved string bool
  | DirSynced string bool

text \<open>\<open>filepath.Dir\<close>.\<close>

definition dir_part :: "string \<Rightarrow> string" where
  "dir_part p = clean_path (rev (dropWhile (\<lambda>c. c \<noteq> CHR ''/'') (rev p)))"

definition disk_of :: "local_entry \<Rightarrow> disk_entry" where
  "disk_of e =
     \<lparr>de_base_url = le_base_url e, de_auth = le_auth e, de_username = le_username e,
      de_token = (if le_token_file e \<noteq> [] then None else str_ptr (le_token e)),
      de_token_file = (if le_token_file e \<noteq> [] then str_ptr (le_token_file e) else None)\<rparr>"

text \<open>Write, sync and close, stopping at the first failure but closing always: whether all went well.\<close>

definition write_temp :: "'w save_world \<Rightarrow> string \<Rightarrow> string \<Rightarrow> (('w, save_step) sys, bool) state" where
  "write_temp W tmp b = do {
     m \<leftarrow> effect (sv_chmod W tmp 0x180) (TempMode tmp 0x180);
     (if \<not> m then do { _ \<leftarrow> effect (sv_close W) TempClosed; ret False }
      else do {
        w \<leftarrow> effect (sv_write W b) (TempWritten b);
        (if \<not> w then do { _ \<leftarrow> effect (sv_close W) TempClosed; ret False }
         else do {
           s \<leftarrow> effect (sv_sync W) TempSynced;
           (if \<not> s then do { _ \<leftarrow> effect (sv_close W) TempClosed; ret False }
            else effect (sv_close W) TempClosed)
         })
      })
   }"

definition install_temp :: "'w save_world \<Rightarrow> string \<Rightarrow> string \<Rightarrow> string \<Rightarrow> (('w, save_step) sys, bool) state" where
  "install_temp W path tmp b = do {
     ok \<leftarrow> write_temp W tmp b;
     (if \<not> ok then ret False
      else do {
        r \<leftarrow> effect (sv_rename W tmp path) (TempRenamed tmp path);
        (if \<not> r then ret False
         else do { _ \<leftarrow> effect (sv_sync_dir W (dir_part path)) (DirSynced (dir_part path)); ret True })
      })
   }"

text \<open>The files behind the entries now saved: the new file, and the token files that are still named.\<close>

definition saved_sources :: "load_deps \<Rightarrow> string \<Rightarrow> string \<Rightarrow> (string, local_entry) fmap \<Rightarrow> source_set \<Rightarrow> source_set" where
  "saved_sources d path b data old =
     fold (\<lambda>name m. case fmlookup data name of None \<Rightarrow> m
            | Some e \<Rightarrow>
                if le_token_file e \<noteq> [] then
                  (case fmlookup old (le_token_file e) of Some src \<Rightarrow> fmupd (le_token_file e) src m | None \<Rightarrow> m)
                else m)
       (sorted_keys data) (fmupd path (new_source d path b) fmempty)"

text \<open>\<open>save\<close>: the sources on success, nothing on failure; the temporary is removed in the end.\<close>

definition save_store ::
  "'w save_world \<Rightarrow> load_deps \<Rightarrow> ((string, disk_entry) fmap \<Rightarrow> string option) \<Rightarrow> (string, local_entry) fmap \<Rightarrow>
   provider_store \<Rightarrow> (('w, save_step) sys, source_set option) state" where
  "save_store W d marshal data st =
     (case marshal (fmmap disk_of data) of
        None \<Rightarrow> ret None
      | Some b \<Rightarrow> do {
          t \<leftarrow> effect (sv_create W (dir_part (ps_path st))) (TempCreated (dir_part (ps_path st)));
          (case t of
             None \<Rightarrow> ret None
           | Some tmp \<Rightarrow> do {
               ok \<leftarrow> install_temp W (ps_path st) tmp b;
               _ \<leftarrow> effect (sv_remove W tmp) (TempRemoved tmp);
               ret (if ok then Some (saved_sources d (ps_path st) b data (ps_sources st)) else None)
             })
        })"

datatype store_error =
    BadProviderName | TokenFileNotSettable | InvalidEntry entry_problem | BadHost host_error
  | HostTaken string | NoSuchProvider | NotSaved

text \<open>Both changes put a new map in force only once it is saved.\<close>

definition put_data ::
  "'w save_world \<Rightarrow> load_deps \<Rightarrow> ((string, disk_entry) fmap \<Rightarrow> string option) \<Rightarrow> (string, local_entry) fmap \<Rightarrow>
   provider_store \<Rightarrow> (('w, save_step) sys, store_error option \<times> provider_store) state" where
  "put_data W d marshal data st = do {
     r \<leftarrow> save_store W d marshal data st;
     ret (case r of None \<Rightarrow> (Some NotSaved, st)
          | Some srcs \<Rightarrow> (None, st\<lparr>ps_data := data, ps_sources := srcs\<rparr>))
   }"

definition set_refused :: "go_lib \<Rightarrow> string \<Rightarrow> local_entry \<Rightarrow> provider_store \<Rightarrow> store_error option" where
  "set_refused lib name e st =
     (if \<not> valid_provider_name name then Some BadProviderName
      else if le_token_file e \<noteq> [] then Some TokenFileNotSettable
      else case validate_entry lib e of
          Some p \<Rightarrow> Some (InvalidEntry p)
        | None \<Rightarrow> (case canonical_host_key lib (le_base_url e) of
            Inl er \<Rightarrow> Some (BadHost er)
          | Inr hk \<Rightarrow>
              map_option HostTaken
                (find (\<lambda>n. n \<noteq> name \<and> has_host lib hk (the (fmlookup (ps_data st) n))) (sorted_keys (ps_data st)))))"

definition set_provider ::
  "'w save_world \<Rightarrow> load_deps \<Rightarrow> ((string, disk_entry) fmap \<Rightarrow> string option) \<Rightarrow> string \<Rightarrow> local_entry \<Rightarrow>
   provider_store \<Rightarrow> (('w, save_step) sys, store_error option \<times> provider_store) state" where
  "set_provider W d marshal name e st =
     (case set_refused (ld_lib d) name e st of
        Some er \<Rightarrow> ret (Some er, st)
      | None \<Rightarrow> put_data W d marshal (fmupd name e (ps_data st)) st)"

definition remove_provider ::
  "'w save_world \<Rightarrow> load_deps \<Rightarrow> ((string, disk_entry) fmap \<Rightarrow> string option) \<Rightarrow> string \<Rightarrow>
   provider_store \<Rightarrow> (('w, save_step) sys, store_error option \<times> provider_store) state" where
  "remove_provider W d marshal name st =
     (if fmlookup (ps_data st) name = None then ret (Some NoSuchProvider, st)
      else put_data W d marshal (fmdrop name (ps_data st)) st)"

section \<open>The digest tells loads apart\<close>

lemma digits_determine:
  "(\<And>i. i < k \<Longrightarrow> m div b ^ i mod b = n div b ^ i mod b) \<Longrightarrow> m mod b ^ k = n mod (b ^ k :: nat)"
proof (induction k)
  case (Suc k)
  have "x mod b ^ Suc k = b ^ k * (x div b ^ k mod b) + x mod b ^ k" for x
    using mod_mult2_eq [of x "b ^ k" b] by (simp add: mult.commute)
  with Suc show ?case by simp
qed simp

lemma be64_inject:
  assumes "be64 m = be64 n" "m < 2 ^ 64" "n < 2 ^ 64"
  shows "m = n"
proof -
  have "m div 256 ^ i mod 256 = n div 256 ^ i mod 256" if "i < 8" for i
  proof -
    have "char_of (m div 256 ^ i mod 256) = (char_of (n div 256 ^ i mod 256) :: char)"
      using assms(1) that by (simp add: be64_def)
    then have "of_char (char_of (m div 256 ^ i mod 256) :: char) = (of_char (char_of (n div 256 ^ i mod 256) :: char) :: nat)"
      by simp
    then show ?thesis by (simp only: of_char_of) simp
  qed
  then have "m mod 256 ^ 8 = n mod 256 ^ 8" by (rule digits_determine)
  with assms(2,3) show ?thesis by simp
qed

lemma length_be64 [simp]: "length (be64 n) = 8"
  by (simp add: be64_def)

lemma put_bytes_inject:
  assumes "put_bytes a @ x = put_bytes b @ y" "length a < 2 ^ 64" "length b < 2 ^ 64"
  shows "a = b \<and> x = y"
proof -
  have "be64 (length a) = be64 (length b) \<and> a @ x = b @ y"
    using assms(1) by (simp add: put_bytes_def append_eq_append_conv)
  with be64_inject assms(2,3) have "length a = length b" "a @ x = b @ y" by blast+
  then show ?thesis by simp
qed

text \<open>Sources as a load has them: an unread one has no fingerprint, lengths are below \<open>2^64\<close>.\<close>

definition plain_source :: "source \<Rightarrow> bool" where
  "plain_source s \<longleftrightarrow> length (src_path s) < 2 ^ 64 \<and> length (src_digest s) < 2 ^ 64 \<and> (src_read s \<or> src_digest s = [])"

lemma plain_source_lengths: "plain_source s \<Longrightarrow> length (src_path s) < 2 ^ 64" "plain_source s \<Longrightarrow> length (src_digest s) < 2 ^ 64"
  by (simp_all add: plain_source_def)

definition source_rest :: "source \<Rightarrow> string" where
  "source_rest s = (if src_read s then put_bytes [CHR 0x01] @ put_bytes (src_digest s) else put_bytes [CHR 0x00])"

lemma source_bytes_rest: "source_bytes s = put_bytes (src_path s) @ source_rest s"
  by (simp add: source_bytes_def source_rest_def)

lemma put_flag_inject: "put_bytes [a] @ x = put_bytes [b] @ y \<longleftrightarrow> a = b \<and> x = y"
  by (auto simp: put_bytes_def)

lemma source_rest_inject:
  assumes "source_rest s @ x = source_rest t @ y" "plain_source s" "plain_source t"
  shows "src_read s = src_read t \<and> src_digest s = src_digest t \<and> x = y"
proof (cases "src_read s"; cases "src_read t")
  assume r: "src_read s" "src_read t"
  with assms(1) have "put_bytes (src_digest s) @ x = put_bytes (src_digest t) @ y"
    by (simp add: source_rest_def put_flag_inject)
  from put_bytes_inject [OF this plain_source_lengths(2) plain_source_lengths(2)] assms r show ?thesis by simp
qed (use assms in \<open>simp_all add: source_rest_def put_flag_inject plain_source_def\<close>)

lemma source_bytes_inject:
  assumes "source_bytes s @ x = source_bytes t @ y" "plain_source s" "plain_source t"
  shows "s = t \<and> x = y"
proof -
  have eq: "put_bytes (src_path s) @ (source_rest s @ x) = put_bytes (src_path t) @ (source_rest t @ y)"
    using assms(1) by (simp add: source_bytes_rest)
  from put_bytes_inject [OF eq plain_source_lengths(1) plain_source_lengths(1)] assms(2,3)
  have p: "src_path s = src_path t" "source_rest s @ x = source_rest t @ y" by simp_all
  from source_rest_inject [OF p(2)] assms(2,3) p(1) show ?thesis by simp
qed

lemma sources_not_end:
  assumes "plain_source s" "source_bytes s @ x = put_bytes [c]"
  shows False
proof -
  have eq: "put_bytes (src_path s) @ (source_rest s @ x) = put_bytes [c] @ []"
    using assms(2) by (simp add: source_bytes_rest)
  from put_bytes_inject [OF eq plain_source_lengths(1)] assms(1) have "source_rest s @ x = []" by simp
  then show False by (simp add: source_rest_def put_bytes_def split: if_splits)
qed

lemma sources_bytes_Cons: "sources_bytes (s # ss) loose = source_bytes s @ sources_bytes ss loose"
  by (simp add: sources_bytes_def)

lemma sources_bytes_Nil: "sources_bytes [] loose = put_bytes [if loose then CHR 0x01 else CHR 0x00]"
  by (simp add: sources_bytes_def)

text \<open>The bytes the reload digest is computed over determine what was read: two loads give the same bytes
only when they involved the same files with the same fingerprints, in the same state of presence and
the same looseness of mode.\<close>

theorem digest_input_exact:
  assumes "sources_bytes ss loose = sources_bytes ts loose'" "list_all plain_source ss" "list_all plain_source ts"
  shows "ss = ts \<and> loose = loose'"
  using assms
proof (induction ss arbitrary: ts)
  case Nil
  show ?case
  proof (cases ts)
    case Nil
    with \<open>sources_bytes [] loose = _\<close> show ?thesis by (simp add: sources_bytes_Nil put_bytes_def split: if_splits)
  next
    case (Cons t ts')
    with Nil.prems sources_not_end [of t "sources_bytes ts' loose'" "if loose then CHR 0x01 else CHR 0x00"] show ?thesis
      unfolding sources_bytes_Nil Cons sources_bytes_Cons by simp
  qed
next
  case (Cons s ss)
  show ?case
  proof (cases ts)
    case Nil
    with Cons.prems sources_not_end [of s "sources_bytes ss loose" "if loose' then CHR 0x01 else CHR 0x00"] show ?thesis
      unfolding Nil sources_bytes_Nil sources_bytes_Cons by simp
  next
    case ts: (Cons t ts')
    from Cons.prems(1) have "source_bytes s @ sources_bytes ss loose = source_bytes t @ sources_bytes ts' loose'"
      unfolding ts sources_bytes_Cons .
    from source_bytes_inject [OF this] Cons.prems(2,3)
    have "s = t" "sources_bytes ss loose = sources_bytes ts' loose'" by (simp_all add: ts)
    with Cons.IH Cons.prems(2,3) show ?thesis by (simp add: ts)
  qed
qed

theorem digest_input_exact_witness:
  "sources_bytes [unread_source ''/a''] True = sources_bytes [unread_source ''/a''] True \<and> [unread_source ''/a''] = [unread_source ''/a'']"
  using digest_input_exact [of "[unread_source ''/a'']" True "[unread_source ''/a'']" True]
  by (simp add: plain_source_def unread_source_def)

section \<open>The file changes whole, and with the store\<close>

text \<open>
  The file is only ever replaced, by a temporary file of the same directory that was made private, holds
  exactly the encoded store, and was written, synced and closed without an error.
\<close>

fun save_safe :: "string \<Rightarrow> string option \<Rightarrow> save_step list \<Rightarrow> save_step \<Rightarrow> bool" where
  "save_safe path content before (TempRenamed a b ok) \<longleftrightarrow>
     b = path \<and> (case content of None \<Rightarrow> False | Some c \<Rightarrow>
       before = [TempCreated (dir_part path) (Some a), TempMode a 0x180 True, TempWritten c True, TempSynced True,
                 TempClosed True])"
| "save_safe path content before (TempWritten b ok) \<longleftrightarrow>
     content = Some b \<and> (\<exists>a. before = [TempCreated (dir_part path) (Some a), TempMode a 0x180 True])"
| "save_safe path content before (TempMode a mode ok) \<longleftrightarrow> before = [TempCreated (dir_part path) (Some a)]"
| "save_safe path content before (TempRemoved a ok) \<longleftrightarrow> TempCreated (dir_part path) (Some a) \<in> set before"
| "save_safe path content before _ \<longleftrightarrow> True"

fun replaced :: "string \<Rightarrow> save_step \<Rightarrow> bool" where
  "replaced path (TempRenamed a b ok) \<longleftrightarrow> b = path \<and> ok"
| "replaced path _ \<longleftrightarrow> False"

lemma save_store_emits:
  "emits (save_store W d marshal data st)
     (\<lambda>r es. each_step (save_safe (ps_path st) (marshal (fmmap disk_of data))) [] es \<and>
        (r = None \<longleftrightarrow> \<not> list_ex (replaced (ps_path st)) es))"
  unfolding save_store_def install_temp_def write_temp_def
  by (intro emits_option emits_bind emits_effect emits_return emits_if) auto

definition put_outcome ::
  "string \<Rightarrow> string option \<Rightarrow> (string, local_entry) fmap \<Rightarrow> provider_store \<Rightarrow> store_error option \<times> provider_store \<Rightarrow>
   save_step list \<Rightarrow> bool" where
  "put_outcome path content data st r es \<longleftrightarrow>
     each_step (save_safe path content) [] es \<and>
     (if list_ex (replaced path) es then fst r = None \<and> ps_data (snd r) = data \<and> ps_path (snd r) = path
      else fst r = Some NotSaved \<and> snd r = st)"

lemma put_data_emits:
  "emits (put_data W d marshal data st) (put_outcome (ps_path st) (marshal (fmmap disk_of data)) data st)"
  unfolding put_data_def
  by (rule emits_then [OF save_store_emits], rule emits_return) (auto simp: put_outcome_def split: option.split)

text \<open>A change in the world \<open>w\<close>: its error, the store afterwards, the log.\<close>

text \<open>Setting a provider either is refused and does nothing, or the configuration file is replaced exactly
once, by a private temporary file of the same directory holding exactly the encoding of the new map,
written, synced and closed without an error, and the store in memory changes exactly when that
rename succeeds.\<close>

theorem store_and_file_together:
  "case in_world (set_provider W d marshal name e st) w of
     ((er, st'), es) \<Rightarrow>
       (case set_refused (ld_lib d) name e st of
          Some why \<Rightarrow> er = Some why \<and> st' = st \<and> es = []
        | None \<Rightarrow> put_outcome (ps_path st) (marshal (fmmap disk_of (fmupd name e (ps_data st)))) (fmupd name e (ps_data st)) st
            (er, st') es)"
proof (cases "set_refused (ld_lib d) name e st")
  case None
  then show ?thesis
    using in_worldD [OF put_data_emits [of W d marshal "fmupd name e (ps_data st)" st]]
    by (auto simp: set_provider_def split: prod.split)
next
  case (Some why)
  then show ?thesis by (simp add: set_provider_def in_world_def State_Monad.return_def)
qed

text \<open>Removing a provider either finds none of that name and does nothing, or replaces the file and the
store together in the same way.\<close>

theorem removal_and_file_together:
  "case in_world (remove_provider W d marshal name st) w of
     ((er, st'), es) \<Rightarrow>
       (if fmlookup (ps_data st) name = None then er = Some NoSuchProvider \<and> st' = st \<and> es = []
        else put_outcome (ps_path st) (marshal (fmmap disk_of (fmdrop name (ps_data st)))) (fmdrop name (ps_data st)) st
               (er, st') es)"
  using in_worldD [OF put_data_emits [of W d marshal "fmdrop name (ps_data st)" st]]
  by (auto simp: remove_provider_def in_world_def State_Monad.return_def split: prod.split)

section \<open>What a store holds is valid and survives being saved\<close>

definition entry_ok :: "go_lib \<Rightarrow> string \<Rightarrow> local_entry \<Rightarrow> bool" where
  "entry_ok lib name e \<longleftrightarrow> (\<exists>hk. accepted lib name e hk) \<and> validate_token e = None"

definition store_ok :: "go_lib \<Rightarrow> (string, local_entry) fmap \<Rightarrow> bool" where
  "store_ok lib data \<longleftrightarrow>
     (\<forall>name e. fmlookup data name = Some e \<longrightarrow> entry_ok lib name e) \<and>
     (\<forall>a b x y. fmlookup data a = Some x \<longrightarrow> fmlookup data b = Some y \<longrightarrow>
        canonical_host_key lib (le_base_url x) = canonical_host_key lib (le_base_url y) \<longrightarrow> a = b)"

lemma find_NoneD: "find P xs = None \<Longrightarrow> x \<in> set xs \<Longrightarrow> \<not> P x"
  by (simp add: find_None_iff)

lemma set_allowed_ok:
  assumes "store_ok lib data" "set_refused lib name e st = None" "ps_data st = data"
  shows "store_ok lib (fmupd name e data)"
proof -
  obtain hk where new: "valid_provider_name name" "le_token_file e = []" "validate_entry lib e = None"
    "canonical_host_key lib (le_base_url e) = Inr hk"
    and free: "find (\<lambda>n. n \<noteq> name \<and> has_host lib hk (the (fmlookup data n))) (sorted_keys data) = None"
    using assms(2,3) by (auto simp: set_refused_def split: if_splits option.splits sum.splits)
  have ok: "entry_ok lib name e"
    using new by (auto simp: entry_ok_def accepted_def validate_entry_def split: option.splits)
  have other: "canonical_host_key lib (le_base_url y) \<noteq> Inr hk" if "fmlookup data b = Some y" "b \<noteq> name" for b y
    using find_NoneD [OF free, of b] that by (auto simp: has_host_def fmlookup_dom'_iff)
  show ?thesis
    using assms(1) ok other new(4) unfolding store_ok_def by (auto split: if_splits) metis+
qed

lemma remove_ok: "store_ok lib data \<Longrightarrow> store_ok lib (fmdrop name data)"
  unfolding store_ok_def by (auto split: if_splits)

lemma loaded_entries_ok:
  assumes "load_in W d path tighten w = (res, es)"
  shows "store_ok (ld_lib d) (lc_entries res)"
proof -
  from load_inD [OF assms] have v: "entries_valid (ld_lib d) (lc_host_keys res) (lc_entries res)"
    and u: "unique_hosts (lc_host_keys res) (lc_entries res)" by auto
  have ex: "\<exists>hk. fmlookup (lc_host_keys res) name = Some hk \<and> accepted (ld_lib d) name e hk \<and> validate_token e = None"
    if "fmlookup (lc_entries res) name = Some e" for name e
    using v that unfolding entries_valid_def by blast
  have one: "entry_ok (ld_lib d) name e" "\<exists>hk. fmlookup (lc_host_keys res) name = Some hk \<and>
      canonical_host_key (ld_lib d) (le_base_url e) = Inr hk"
    if "fmlookup (lc_entries res) name = Some e" for name e
    using ex [OF that] by (auto simp: entry_ok_def accepted_def)
  have inj: "inj_on (fmlookup (lc_host_keys res)) (fmdom' (lc_entries res))"
    using u by (simp add: unique_hosts_def distinct_map)
  have "a = b" if "fmlookup (lc_entries res) a = Some x" "fmlookup (lc_entries res) b = Some y"
    "canonical_host_key (ld_lib d) (le_base_url x) = canonical_host_key (ld_lib d) (le_base_url y)" for a b x y
  proof -
    from one(2) [OF that(1)] one(2) [OF that(2)] that(3)
    have "fmlookup (lc_host_keys res) a = fmlookup (lc_host_keys res) b" by auto
    then show "a = b" by (rule inj_onD [OF inj]) (use that in \<open>auto intro: fmdom'I\<close>)
  qed
  with one(1) show ?thesis unfolding store_ok_def by blast
qed

lemma loaded_ok:
  assumes "load_in W d path tighten w = (res, es)" "new_store d path res = Inr st"
  shows "store_ok (ld_lib d) (ps_data st)"
proof -
  have "ps_data st = lc_entries res" using assms(2) by (auto simp: new_store_def split: list.splits)
  with loaded_entries_ok [OF assms(1)] show ?thesis by simp
qed

text \<open>A store: loaded, then changed any number of times, whatever the file system does.\<close>

inductive store_reach ::
  "'w file_world \<Rightarrow> 'v save_world \<Rightarrow> load_deps \<Rightarrow> ((string, disk_entry) fmap \<Rightarrow> string option) \<Rightarrow> provider_store \<Rightarrow> bool"
  for W V d marshal where
  loaded: "load_in W d path tighten w = (res, es) \<Longrightarrow> new_store d path res = Inr st \<Longrightarrow> store_reach W V d marshal st"
| set: "store_reach W V d marshal st \<Longrightarrow> in_world (set_provider V d marshal name e st) v = ((er, st'), es) \<Longrightarrow>
    store_reach W V d marshal st'"
| remove: "store_reach W V d marshal st \<Longrightarrow> in_world (remove_provider V d marshal name st) v = ((er, st'), es) \<Longrightarrow>
    store_reach W V d marshal st'"

lemma put_outcome_data: "put_outcome path content data st (er, st') es \<Longrightarrow> ps_data st' = data \<or> st' = st"
  by (auto simp: put_outcome_def split: if_splits)

lemma set_result:
  assumes "in_world (set_provider V d marshal name e st) v = ((er, st'), es)"
  shows "st' = st \<or> set_refused (ld_lib d) name e st = None \<and> ps_data st' = fmupd name e (ps_data st)"
proof (cases "set_refused (ld_lib d) name e st")
  case None
  with assms have "put_outcome (ps_path st) (marshal (fmmap disk_of (fmupd name e (ps_data st)))) (fmupd name e (ps_data st)) st
      (er, st') es"
    by (intro in_worldD [OF put_data_emits]) (simp add: set_provider_def)
  with None put_outcome_data show ?thesis by blast
next
  case (Some why)
  with assms show ?thesis by (simp add: set_provider_def in_world_def State_Monad.return_def)
qed

lemma remove_result:
  assumes "in_world (remove_provider V d marshal name st) v = ((er, st'), es)"
  shows "st' = st \<or> ps_data st' = fmdrop name (ps_data st)"
proof (cases "fmlookup (ps_data st) name = None")
  case False
  with assms have "put_outcome (ps_path st) (marshal (fmmap disk_of (fmdrop name (ps_data st)))) (fmdrop name (ps_data st)) st
      (er, st') es"
    by (intro in_worldD [OF put_data_emits]) (simp add: remove_provider_def)
  with put_outcome_data show ?thesis by blast
next
  case True
  with assms show ?thesis by (simp add: remove_provider_def in_world_def State_Monad.return_def)
qed

lemma store_reach_ok: "store_reach W V d marshal st \<Longrightarrow> store_ok (ld_lib d) (ps_data st)"
proof (induction rule: store_reach.induct)
  case (loaded path tighten w res es st)
  then show ?case by (rule loaded_ok)
next
  case (set st name e v er st' es)
  from set_result [OF set.hyps(2)] set.IH set_allowed_ok show ?case by metis
next
  case (remove st name v er st' es)
  from remove_result [OF remove.hyps(2)] remove.IH remove_ok show ?case by metis
qed

section \<open>Loading what was saved\<close>

lemma check_provider_other:
  "name \<noteq> fst ne \<Longrightarrow> fmlookup (po_entries (check_provider lib ne st)) name = fmlookup (po_entries st) name \<and>
     fmlookup (po_pending (check_provider lib ne st)) name = fmlookup (po_pending st) name"
  by (cases ne) (auto simp: check_provider_def report_def Let_def split: option.split sum.split)

lemma check_others:
  "name \<notin> fst ` set nes \<Longrightarrow> fmlookup (po_entries (fold (check_provider lib) nes st)) name = fmlookup (po_entries st) name \<and>
     fmlookup (po_pending (fold (check_provider lib) nes st)) name = fmlookup (po_pending st) name"
  by (induction nes arbitrary: st) (auto simp: check_provider_other)

lemma check_provider_issues: "po_issues (check_provider lib ne st) = [] \<Longrightarrow> po_issues st = [] \<and> adds lib ne st"
  using check_provider_step [of lib ne st] by (auto simp: report_def split: if_splits)

lemma check_issues: "po_issues (fold (check_provider lib) nes st) = [] \<Longrightarrow> po_issues st = []"
proof (induction nes arbitrary: st)
  case (Cons ne nes)
  have "po_issues (check_provider lib ne st) = []" by (rule Cons.IH) (use Cons.prems in simp)
  then show ?case using check_provider_issues by blast
qed simp

lemma adds_entry:
  assumes "adds lib (name, de) st"
  shows "if le_token_file (entry_of de) = []
    then fmlookup (po_entries (check_provider lib (name, de) st)) name = Some (entry_of de)
    else fmlookup (po_pending (check_provider lib (name, de) st)) name = Some (entry_of de)"
  by (rule addsE [OF assms]) (simp add: Let_def)

definition kept :: "string \<Rightarrow> local_entry \<Rightarrow> pass_one \<Rightarrow> bool" where
  "kept name e po \<longleftrightarrow>
     (if le_token_file e = [] then fmlookup (po_entries po) name = Some e
      else fmlookup (po_pending po) name = Some (e\<lparr>le_token := []\<rparr>))"

lemma checked_entry:
  assumes "po_issues (fold (check_provider lib) nes st) = []" "distinct (map fst nes)" "(name, de) \<in> set nes"
  shows "if le_token_file (entry_of de) = []
    then fmlookup (po_entries (fold (check_provider lib) nes st)) name = Some (entry_of de)
    else fmlookup (po_pending (fold (check_provider lib) nes st)) name = Some (entry_of de)"
  using assms
proof (induction nes arbitrary: st)
  case (Cons ne nes)
  show ?case
  proof (cases "ne = (name, de)")
    case True
    have "po_issues (check_provider lib ne st) = []" by (rule check_issues) (use Cons.prems(1) in simp)
    then have "adds lib (name, de) st" using check_provider_issues True by blast
    moreover have "name \<notin> fst ` set nes" using Cons.prems(2) True by auto
    ultimately show ?thesis using adds_entry [of lib name de st] check_others [of name nes lib "check_provider lib ne st"]
      by (simp add: True)
  next
    case False
    with Cons.prems have "po_issues (fold (check_provider lib) nes (check_provider lib ne st)) = []" "distinct (map fst nes)"
      "(name, de) \<in> set nes" by simp_all
    from Cons.IH [OF this] show ?thesis by simp
  qed
qed simp

lemma disk_of_back:
  assumes "entry_ok lib name e"
  shows "provider_fine lib (name, disk_of e)" "entry_of (disk_of e) = (if le_token_file e = [] then e else e\<lparr>le_token := []\<rparr>)"
proof -
  obtain hk where a: "valid_provider_name name" "validate_settings lib e = None"
    "canonical_host_key lib (le_base_url e) = Inr hk" "le_token_file e = [] \<or> validate_token_file_path (le_token_file e) = None"
    "validate_token e = None"
    using assms by (auto simp: entry_ok_def accepted_def)
  show again: "entry_of (disk_of e) = (if le_token_file e = [] then e else e\<lparr>le_token := []\<rparr>)"
    by (simp add: entry_of_def disk_of_def str_val_def str_ptr_def)
  have settings: "validate_settings lib (entry_of (disk_of e)) = None"
    using a(2) by (auto simp: again validate_settings_def split: sum.splits if_splits)
  have "de_auth (disk_of e) \<noteq> [] \<Longrightarrow> le_token_file e = [] \<Longrightarrow> de_token (disk_of e) \<noteq> None"
    using a(5) by (auto simp: disk_of_def str_ptr_def validate_token_def min_token_length_def split: if_splits)
  then have "validate_credential_source (disk_of e) = None"
    using a(4) by (auto simp: validate_credential_source_def disk_of_def str_ptr_def)
  with settings a show "provider_fine lib (name, disk_of e)"
    by (auto simp: provider_fine_def entry_fault_def again) (auto simp: disk_of_def)
qed

lemma named_disk: "named_entries (fmmap disk_of data) = map (\<lambda>n. (n, disk_of (the (fmlookup data n)))) (sorted_keys data)"
  by (auto simp: named_entries_def sorted_keys_def fmlookup_dom'_iff)

lemma saved_checks:
  assumes "store_ok lib data"
  shows "po_issues (check_providers lib (fmmap disk_of data)) = []"
proof -
  let ?nes = "named_entries (fmmap disk_of data)"
  have each: "entry_ok lib n (the (fmlookup data n))" if "n \<in> set (sorted_keys data)" for n
    using that assms unfolding store_ok_def by (auto simp: fmlookup_dom'_iff)
  have fine: "list_all (provider_fine lib) ?nes"
    using disk_of_back(1) each by (auto simp: named_disk list_all_iff)
  have hosts: "canonical_host_key lib (le_base_url (the (fmlookup data n))) = Inr (host_of lib (n, disk_of (the (fmlookup data n))))"
    if "n \<in> set (sorted_keys data)" for n
    using each [OF that] by (auto simp: entry_ok_def accepted_def host_of_def disk_of_def)
  have "inj_on (\<lambda>n. host_of lib (n, disk_of (the (fmlookup data n)))) (set (sorted_keys data))"
  proof (rule inj_onI)
    fix a b assume ab: "a \<in> set (sorted_keys data)" "b \<in> set (sorted_keys data)"
      "host_of lib (a, disk_of (the (fmlookup data a))) = host_of lib (b, disk_of (the (fmlookup data b)))"
    then obtain x y where "fmlookup data a = Some x" "fmlookup data b = Some y" by (auto simp: fmlookup_dom'_iff)
    with hosts [OF ab(1)] hosts [OF ab(2)] ab(3) assms show "a = b" unfolding store_ok_def by fastforce
  qed
  then have "distinct (map (host_of lib) ?nes)" by (simp add: named_disk distinct_map comp_def)
  with fine check_providers_exact [of lib "fmmap disk_of data"] show ?thesis by (simp add: Let_def)
qed

text \<open>Whatever sequence of loads, sets and removals led to a store, and whatever the file system did,
writing its entries to disk form and checking them as a load does reports no problem and gives back
exactly the same providers, with the inline tokens, and with the token files still to be read.\<close>

theorem saved_store_reloads:
  assumes "store_reach W V d marshal st"
  shows "let po = check_providers (ld_lib d) (fmmap disk_of (ps_data st)) in
    po_issues po = [] \<and> fmdom' (po_host_keys po) = fmdom' (ps_data st) \<and>
    list_all (\<lambda>name. kept name (the (fmlookup (ps_data st) name)) po) (sorted_keys (ps_data st))"
proof -
  let ?data = "ps_data st" and ?lib = "ld_lib d"
  let ?nes = "named_entries (fmmap disk_of ?data)" and ?po = "check_providers ?lib (fmmap disk_of ?data)"
  have ok: "store_ok ?lib ?data" by (rule store_reach_ok [OF assms])
  have none: "po_issues ?po = []" by (rule saved_checks [OF ok])
  have "kept n e ?po" if "fmlookup ?data n = Some e" for n e
  proof -
    have "n \<in> set (sorted_keys ?data)" using that by (auto intro: fmdom'I)
    then have "(n, disk_of (the (fmlookup ?data n))) \<in> set ?nes" unfolding named_disk set_map by (rule imageI)
    then have in_nes: "(n, disk_of e) \<in> set ?nes" by (simp add: that)
    have "entry_ok ?lib n e" using ok that by (auto simp: store_ok_def)
    then have again: "entry_of (disk_of e) = (if le_token_file e = [] then e else e\<lparr>le_token := []\<rparr>)" by (rule disk_of_back(2))
    have "distinct (map fst ?nes)" by simp
    from checked_entry [OF none [unfolded check_providers_def] this in_nes] show ?thesis
      unfolding kept_def check_providers_def again by (cases "le_token_file e = []") simp_all
  qed
  moreover have "fmdom' (po_host_keys ?po) = fmdom' ?data"
  proof (rule card_subset_eq)
    show "fmdom' (po_host_keys ?po) \<subseteq> fmdom' ?data"
      using check_providers_fold [OF nothing_checked_ok, where nes = ?nes and lib = ?lib and hosts = "{}"]
      by (simp add: check_providers_def nothing_checked_def) (auto simp: named_disk)
    show "card (fmdom' (po_host_keys ?po)) = card (fmdom' ?data)"
      using check_providers_exact [of ?lib "fmmap disk_of ?data"] none by (simp add: Let_def)
  qed simp
  ultimately show ?thesis using none by (auto simp: list_all_iff Let_def fmlookup_dom'_iff)
qed

text \<open>A world for the witnesses: no file exists, a file can be written.\<close>

definition no_files :: "unit file_world" where
  "no_files = \<lparr>fw_open = \<lambda>p w. (Some NoEnt, w), fw_stat = \<lambda>w. (Inl NoEnt, w), fw_chmod = \<lambda>m w. (False, w),
     fw_read = \<lambda>n w. (Inl NoEnt, w), fw_close = \<lambda>w. (True, w)\<rparr>"

definition writable :: "unit save_world" where
  "writable = \<lparr>sv_create = \<lambda>d w. (Some (d @ ''/tmp''), w), sv_chmod = \<lambda>p m w. (True, w), sv_write = \<lambda>b w. (True, w),
     sv_sync = \<lambda>w. (True, w), sv_close = \<lambda>w. (True, w), sv_rename = \<lambda>a b w. (True, w), sv_remove = \<lambda>p w. (True, w),
     sv_sync_dir = \<lambda>p w. (True, w)\<rparr>"

definition plain_deps :: load_deps where
  "plain_deps = \<lparr>ld_lib = example_lib, ld_decode = \<lambda>s. Inl JsonOther, ld_hmac = \<lambda>s. s, ld_euid = 1000\<rparr>"

definition git_entry :: local_entry where
  "git_entry = \<lparr>le_base_url = ''https://Git.Example./r.git'', le_auth = ''bearer'', le_username = [],
     le_token = ''0123456789abcdef'', le_token_file = []\<rparr>"

definition first_store :: provider_store where
  "first_store = \<lparr>ps_path = ''/c'', ps_data = fmempty, ps_sources = add_source (unread_source ''/c'') fmempty,
     ps_digest = sources_digest plain_deps [unread_source ''/c''] False\<rparr>"

lemma first_load:
  "load_in no_files plain_deps ''/c'' True () =
     (nothing_loaded\<lparr>lc_sources := add_source (unread_source ''/c'') fmempty, lc_missing := True\<rparr>,
      [FOpened ''/c'' (Some NoEnt)])"
  by (simp add: load_in_def load_config_mode_def read_provider_config_mode_def read_vetted_def State_Monad.bind_def
      State_Monad.return_def effect_def no_files_def)

lemma first_reach: "store_reach no_files writable plain_deps (\<lambda>dc. Some ''{}'') first_store"
  by (rule store_reach.loaded [OF first_load])
    (simp add: new_store_def nothing_loaded_def first_store_def sorted_sources_def add_source_def unread_source_def)

lemma git_entry_host: "canonical_host_key (ld_lib plain_deps) (le_base_url git_entry) = Inr ''https://git.example:443''"
  by (simp add: plain_deps_def git_entry_def canonical_host_key_def example_canon)

lemma git_entry_valid: "valid_provider_name ''git'' \<and> validate_entry (ld_lib plain_deps) git_entry = None"
proof -
  have "runes ''0123456789abcdef'' = map byte ''0123456789abcdef''" by (rule runes_ascii) simp
  then have token: "validate_token git_entry = None"
    by (simp add: validate_token_def git_entry_def min_token_length_def is_control_def)
  have "runes ''https://Git.Example./r.git'' = map byte ''https://Git.Example./r.git''"
    by (rule runes_ascii) simp
  then have "validate_settings (ld_lib plain_deps) git_entry = None"
    by (simp add: validate_settings_def validate_remote_url_def max_url_length_def example_lib_def example_url_def
        is_space_def is_control_def plain_deps_def git_entry_def)
  with token show ?thesis
    by (simp add: validate_entry_def valid_provider_name_def is_alpha_def is_lower_def)
qed

lemma git_entry_allowed: "set_refused (ld_lib plain_deps) ''git'' git_entry first_store = None"
  using git_entry_host git_entry_valid by (simp add: set_refused_def) (simp add: git_entry_def first_store_def)

definition stored :: provider_store where
  "stored = snd (fst (in_world (set_provider writable plain_deps (\<lambda>dc. Some ''{}'') ''git'' git_entry first_store) ()))"

lemma stored_reach: "store_reach no_files writable plain_deps (\<lambda>dc. Some ''{}'') stored"
  by (rule store_reach.set [OF first_reach, where name = "''git''" and e = git_entry and v = "()"])
    (simp add: stored_def prod_eq_iff)

lemma stored_data: "ps_data stored = fmupd ''git'' git_entry fmempty"
  by (simp add: stored_def in_world_def set_provider_def git_entry_allowed put_data_def save_store_def install_temp_def write_temp_def
      State_Monad.bind_def State_Monad.return_def effect_def writable_def) (simp add: first_store_def)

theorem saved_store_reloads_witness:
  "let po = check_providers (ld_lib plain_deps) (fmmap disk_of (ps_data stored)) in
    po_issues po = [] \<and> fmdom' (po_host_keys po) = {''git''} \<and> fmlookup (po_entries po) ''git'' = Some git_entry"
  using saved_store_reloads [OF stored_reach]
  by (simp add: stored_data Let_def kept_def) (simp add: git_entry_def)

section \<open>The provider of a host\<close>

text \<open>In every store that can arise, an origin URL is matched to a provider exactly when that provider is
stored and both URLs have the same canonical scheme, host and port; so the match is unique.\<close>

theorem match_provider_exact:
  assumes "store_reach W V d marshal st"
  shows "match_provider (ld_lib d) url st = Some (name, e) \<longleftrightarrow>
    fmlookup (ps_data st) name = Some e \<and>
    (case canonical_host_key (ld_lib d) url of Inl er \<Rightarrow> False
     | Inr hk \<Rightarrow> canonical_host_key (ld_lib d) (le_base_url e) = Inr hk)"
proof (cases "canonical_host_key (ld_lib d) url")
  case (Inl er)
  then show ?thesis by (simp add: match_provider_def)
next
  case (Inr hk)
  let ?lib = "ld_lib d" and ?data = "ps_data st"
  let ?P = "\<lambda>n. has_host ?lib hk (the (fmlookup ?data n))"
  have ok: "store_ok ?lib ?data" by (rule store_reach_ok [OF assms])
  have host: "has_host ?lib hk x \<longleftrightarrow> canonical_host_key ?lib (le_base_url x) = Inr hk" for x
    by (auto simp: has_host_def split: sum.split)
  have one: "a = b" if "fmlookup ?data a = Some x" "fmlookup ?data b = Some y" "has_host ?lib hk x" "has_host ?lib hk y" for a b x y
    using ok that unfolding store_ok_def host by metis
  have found: "find ?P (sorted_keys ?data) = Some n \<longleftrightarrow> (\<exists>x. fmlookup ?data n = Some x \<and> has_host ?lib hk x)" for n
  proof
    assume "find ?P (sorted_keys ?data) = Some n"
    then have "n \<in> set (sorted_keys ?data)" "?P n" unfolding find_Some_iff by (metis nth_mem)+
    then show "\<exists>x. fmlookup ?data n = Some x \<and> has_host ?lib hk x" by (auto simp: fmlookup_dom'_iff)
  next
    assume "\<exists>x. fmlookup ?data n = Some x \<and> has_host ?lib hk x"
    then obtain x where x: "fmlookup ?data n = Some x" "has_host ?lib hk x" by blast
    then have "find ?P (sorted_keys ?data) \<noteq> None" by (auto simp: find_None_iff intro: fmdom'I)
    then obtain m where m: "find ?P (sorted_keys ?data) = Some m" by blast
    then have "m \<in> set (sorted_keys ?data)" "?P m" unfolding find_Some_iff by (metis nth_mem)+
    with one x have "m = n" by (auto simp: fmlookup_dom'_iff)
    with m show "find ?P (sorted_keys ?data) = Some n" by simp
  qed
  have "match_provider ?lib url st = Some (name, e) \<longleftrightarrow> fmlookup ?data name = Some e \<and> has_host ?lib hk e"
    by (auto simp: match_provider_def match_by_host_key_def Inr found)
  then show ?thesis by (simp add: Inr host)
qed

theorem match_provider_exact_witness:
  "match_provider (ld_lib plain_deps) ''https://Git.Example./r.git'' stored = Some (''git'', git_entry)"
proof -
  have key: "canonical_host_key (ld_lib plain_deps) ''https://Git.Example./r.git'' = Inr ''https://git.example:443''"
    using git_entry_host by (simp add: git_entry_def)
  show ?thesis
    using match_provider_exact [OF stored_reach, of "''https://Git.Example./r.git''" "''git''" git_entry] git_entry_host
    unfolding key by (simp add: stored_data)
qed

end
