(* ===== verification/GoFlags.thy ===== *)
theory GoFlags
  imports GoStrings Effects
begin

text \<open>
  What the command lines use of Go's packages \<open>flag\<close> and \<open>fmt\<close>: the parser of a \<open>FlagSet\<close> with string and boolean
  flags, by its documented rules, and padding; and printing, as steps of a log.
\<close>

section \<open>Flags\<close>

datatype flag_kind = StringFlag | BoolFlag

datatype flag_error =
    HelpAsked | BadFlagSyntax string | UnknownFlag string | BadBoolValue string string | NeedsArgument string

type_synonym flag_values = "(string \<times> string) list"

text \<open>\<open>strconv.ParseBool\<close>.\<close>

definition parse_bool :: "string \<Rightarrow> bool option" where
  "parse_bool s =
     (if s \<in> set [''1'', ''t'', ''T'', ''TRUE'', ''true'', ''True''] then Some True
      else if s \<in> set [''0'', ''f'', ''F'', ''FALSE'', ''false'', ''False''] then Some False else None)"

definition bool_text :: "bool \<Rightarrow> string" where
  "bool_text b = (if b then ''true'' else ''false'')"

definition add_flag :: "string \<Rightarrow> string \<Rightarrow> flag_error + flag_values \<times> string list \<Rightarrow> flag_error + flag_values \<times> string list" where
  "add_flag n v r = (case r of Inl e \<Rightarrow> Inl e | Inr (asg, rest) \<Rightarrow> Inr ((n, v) # asg, rest))"

text \<open>An argument that stops the parse: it is no flag, or it is the double dash, which goes.\<close>

definition ends_flags :: "string \<Rightarrow> bool" where
  "ends_flags s \<longleftrightarrow> length s < 2 \<or> take 1 s \<noteq> ''-'' \<or> s = ''--''"

definition flag_name :: "string \<Rightarrow> string" where
  "flag_name s = drop (if take 2 s = ''--'' then 2 else 1) s"

text \<open>The values set, in order, and the arguments left.\<close>

fun parse_flags :: "(string \<Rightarrow> flag_kind option) \<Rightarrow> string list \<Rightarrow> flag_error + flag_values \<times> string list" where
  "parse_flags kinds [] = Inr ([], [])"
| "parse_flags kinds (s # rest) =
     (if ends_flags s then Inr ([], if s = ''--'' then rest else s # rest)
      else if flag_name s = [] \<or> take 1 (flag_name s) \<in> {''-'', ''=''} then Inl (BadFlagSyntax s)
      else (case cut (CHR ''='') (flag_name s) of (n, v, has) \<Rightarrow>
        (case kinds n of
           None \<Rightarrow> Inl (if n = ''help'' \<or> n = ''h'' then HelpAsked else UnknownFlag n)
         | Some BoolFlag \<Rightarrow>
             (case parse_bool (if has then v else ''true'') of
                None \<Rightarrow> Inl (BadBoolValue v n)
              | Some b \<Rightarrow> add_flag n (bool_text b) (parse_flags kinds rest))
         | Some StringFlag \<Rightarrow>
             (if has then add_flag n v (parse_flags kinds rest)
              else (case rest of
                      [] \<Rightarrow> Inl (NeedsArgument n)
                    | a # rest2 \<Rightarrow> add_flag n a (parse_flags kinds rest2))))))"

text \<open>The last value counts; \<open>flag_given\<close> is \<open>Visit\<close> with a test of the name.\<close>

definition flag_str :: "flag_values \<Rightarrow> string \<Rightarrow> string" where
  "flag_str asg n = fold (\<lambda>(m, v) old. if m = n then v else old) asg []"

definition flag_bool :: "flag_values \<Rightarrow> string \<Rightarrow> bool" where
  "flag_bool asg n \<longleftrightarrow> flag_str asg n = ''true''"

definition flag_given :: "flag_values \<Rightarrow> string \<Rightarrow> bool" where
  "flag_given asg n \<longleftrightarrow> n \<in> set (map fst asg)"

section \<open>Text\<close>

text \<open>\<open>strings.TrimRight\<close> with line ends.\<close>

definition trim_line_ends :: "string \<Rightarrow> string" where
  "trim_line_ends s = rev (dropWhile (\<lambda>c. c = CHR 0x0D \<or> c = newline) (rev s))"

text \<open>The verb \<open>%-ns\<close>.\<close>

definition pad :: "nat \<Rightarrow> string \<Rightarrow> string" where
  "pad n s = s @ replicate (n - length (runes s)) (CHR '' '')"

section \<open>Printing\<close>

fun print_lines :: "(string \<Rightarrow> 'w \<Rightarrow> unit \<times> 'w) \<Rightarrow> (string \<Rightarrow> 's) \<Rightarrow> string list \<Rightarrow> (('w, 's) sys, unit) state" where
  "print_lines f mk [] = ret ()"
| "print_lines f mk (l # ls) = do { _ \<leftarrow> effect (f l) (\<lambda>_. mk l); print_lines f mk ls }"

lemma print_lines_log: "emits (print_lines f mk ls) (\<lambda>_ es. es = map mk ls)"
  by (induction ls) (auto intro!: emits_return emits_bind emits_effect elim!: emits_weaken)

end
