(* ===== verification/ProviderCli.thy ===== *)
theory ProviderCli
  imports ProviderStore GoFlags
begin

text \<open>
  The git-sync connector's commands on its provider configuration (\<open>gitsync/cli/config.go\<close>, \<open>gitsync/cli/check.go\<close>):
  \<open>config set\<close>, \<open>list\<close>, \<open>remove\<close> and \<open>check\<close>, and what \<open>status\<close> prints of the pin and the providers. The world prints,
  reads standard input and holds the files; every step is logged. The quoting verb and the tables of \<open>fmt\<close> and
  \<open>tabwriter\<close>, the text of a problem and the usage texts are parameters.
\<close>

section \<open>The world of a command\<close>

record 'w pcli_world =
  pi_print :: "string \<Rightarrow> 'w \<Rightarrow> unit \<times> 'w"
  pi_stdin :: "nat \<Rightarrow> 'w \<Rightarrow> (os_error + string) \<times> 'w"
  pi_stat :: "string \<Rightarrow> 'w \<Rightarrow> (bool \<times> 32 word) option \<times> 'w"
  pi_files :: "'w file_world"
  pi_save :: "'w save_world"

datatype pcli_step =
    PPrint string | PStdin "os_error + string" | PStat string "(bool \<times> 32 word) option" | PFile file_step | PSave save_step

record pcli_lib =
  pl_deps :: load_deps
  pl_marshal :: "(string, disk_entry) fmap \<Rightarrow> string option"
  pl_quote :: "string \<Rightarrow> string"
  pl_issue_text :: "issue_cause \<Rightarrow> string"
  pl_mode_text :: "32 word \<Rightarrow> string"
  pl_pin_text :: "pin_error \<Rightarrow> string"
  pl_table :: "string list list \<Rightarrow> string"
  pl_set_usage :: string
  pl_check_usage :: string

datatype pcli_error =
    PUsage | PUnknownCommand string | PNameFirst | PBadFlags | PTokenArgument | PNoBaseURL | PNeedsAuth
  | PUsernameNotBearer | PBearerNeedsToken | PBasicNeedsUsername | PBasicNeedsPassword | PBadAuth
  | PStdinFailed os_error | PTokenTooLong | PStdinEmpty | PNotLoaded config_issue | PNotStored store_error
  | PCheckArguments | PCheckFlags flag_error | PCheckMissing | PCheckRefused nat

abbreviation say :: "'w pcli_world \<Rightarrow> string list \<Rightarrow> (('w, pcli_step) sys, unit) state" where
  "say W \<equiv> print_lines (pi_print W) PPrint"

definition default_config_file :: string where
  "default_config_file = ''/data/git-sync.json''"

definition default_config_path :: "(string \<Rightarrow> string) \<Rightarrow> string" where
  "default_config_path getenv = (if getenv ''GIT_SYNC_CONFIG_FILE'' \<noteq> [] then getenv ''GIT_SYNC_CONFIG_FILE'' else default_config_file)"

definition open_providers ::
  "pcli_lib \<Rightarrow> 'w pcli_world \<Rightarrow> string \<Rightarrow> (('w, pcli_step) sys, (source list \<times> config_issue) + provider_store) state" where
  "open_providers L W path = do {
     res \<leftarrow> logged PFile (load_config (pi_files W) (pl_deps L) path);
     ret (new_store (pl_deps L) path res)
   }"

section \<open>\<open>config set\<close>\<close>

definition max_token_bytes :: nat where
  "max_token_bytes = 65536"

definition provider_flags :: "string \<Rightarrow> flag_kind option" where
  "provider_flags n =
     (if n = ''token-stdin'' then Some BoolFlag
      else if n \<in> set [''base-url'', ''auth'', ''username'', ''token''] then Some StringFlag else None)"

definition auth_flags_fault :: "flag_values \<Rightarrow> pcli_error option" where
  "auth_flags_fault asg =
     (let auth = flag_str asg ''auth''; user = flag_str asg ''username''; stdin = flag_bool asg ''token-stdin'' in
      if auth = [] then (if stdin \<or> user \<noteq> [] then Some PNeedsAuth else None)
      else if auth = ''bearer'' then
        (if user \<noteq> [] then Some PUsernameNotBearer else if \<not> stdin then Some PBearerNeedsToken else None)
      else if auth = ''basic'' then
        (if user = [] then Some PBasicNeedsUsername else if \<not> stdin then Some PBasicNeedsPassword else None)
      else Some PBadAuth)"

definition provider_flags_fault :: "flag_values \<Rightarrow> pcli_error option" where
  "provider_flags_fault asg =
     (if flag_given asg ''token'' then Some PTokenArgument
      else if flag_str asg ''base-url'' = [] then Some PNoBaseURL
      else auth_flags_fault asg)"

definition check_password :: "os_error + string \<Rightarrow> pcli_error + string" where
  "check_password r =
     (case r of
        Inl e \<Rightarrow> Inl (PStdinFailed e)
      | Inr b \<Rightarrow>
          (if max_token_bytes < length b then Inl PTokenTooLong
           else if trim_line_ends b = [] then Inl PStdinEmpty else Inr (trim_line_ends b)))"

definition read_password :: "'w pcli_world \<Rightarrow> flag_values \<Rightarrow> (('w, pcli_step) sys, pcli_error + string) state" where
  "read_password W asg =
     (if flag_bool asg ''token-stdin''
      then do { b \<leftarrow> effect (pi_stdin W (max_token_bytes + 1)) PStdin; ret (check_password b) }
      else ret (Inr []))"

definition asked_entry :: "flag_values \<Rightarrow> string \<Rightarrow> local_entry" where
  "asked_entry asg token =
     \<lparr>le_base_url = flag_str asg ''base-url'', le_auth = flag_str asg ''auth'', le_username = flag_str asg ''username'',
      le_token = token, le_token_file = []\<rparr>"

definition apply_reminder :: string where
  "apply_reminder =
     newline # ''A running git-sync connector picks up this change within a few seconds; it needs no restart. To apply it at once:''
       @ newline # ''  Docker:      docker kill --signal=HUP <container>''
       @ newline # ''  Kubernetes:  kubectl exec deploy/mkonnect-gitsync -- kill -HUP 1'' @ [newline]"

definition change_lines :: "string \<Rightarrow> string \<Rightarrow> string list" where
  "change_lines q verb = [''Provider '' @ q @ '' '' @ verb @ ''.'' @ [newline], apply_reminder]"

definition change_store ::
  "pcli_lib \<Rightarrow> 'w pcli_world \<Rightarrow> string \<Rightarrow> string \<Rightarrow> string \<Rightarrow>
   (provider_store \<Rightarrow> (('w, save_step) sys, store_error option \<times> provider_store) state) \<Rightarrow>
   (('w, pcli_step) sys, pcli_error option) state" where
  "change_store L W path name verb f = do {
     s \<leftarrow> open_providers L W path;
     (case s of
        Inl (watch, i) \<Rightarrow> ret (Some (PNotLoaded i))
      | Inr st \<Rightarrow> do {
          r \<leftarrow> logged PSave (f st);
          (case fst r of
             Some e \<Rightarrow> ret (Some (PNotStored e))
           | None \<Rightarrow> do { _ \<leftarrow> say W (change_lines (pl_quote L name) verb); ret None })
        })
   }"

definition run_provider_set ::
  "pcli_lib \<Rightarrow> 'w pcli_world \<Rightarrow> string \<Rightarrow> string list \<Rightarrow> (('w, pcli_step) sys, pcli_error option) state" where
  "run_provider_set L W path args =
     (case args of
        [] \<Rightarrow> ret (Some PUsage)
      | name # flags \<Rightarrow>
          (if prefix ''-'' name then ret (Some PNameFirst)
           else (case parse_flags provider_flags flags of
             Inl e \<Rightarrow>
               (if e = HelpAsked then do { _ \<leftarrow> say W [pl_set_usage L @ [newline]]; ret None } else ret (Some PBadFlags))
           | Inr (asg, _) \<Rightarrow>
               (case provider_flags_fault asg of
                  Some e \<Rightarrow> ret (Some e)
                | None \<Rightarrow> do {
                    t \<leftarrow> read_password W asg;
                    (case t of
                       Inl e \<Rightarrow> ret (Some e)
                     | Inr token \<Rightarrow>
                         change_store L W path name ''saved''
                           (set_provider (pi_save W) (pl_deps L) (pl_marshal L) name (asked_entry asg token)))
                  }))))"

section \<open>The other commands\<close>

definition masked_auth :: "local_entry \<Rightarrow> string" where
  "masked_auth e =
     (if le_auth e = ''bearer'' \<or> le_auth e = ''basic''
      then le_auth e @ (if le_token_file e \<noteq> [] then '' *** (token_file)'' else '' ***'')
      else ''(none)'')"

definition named_providers :: "provider_store \<Rightarrow> (string \<times> local_entry) list" where
  "named_providers st = map (\<lambda>n. (n, the (get_provider n st))) (provider_names st)"

definition provider_list_lines :: "provider_store \<Rightarrow> string list" where
  "provider_list_lines st =
     (if provider_names st = [] then [''No providers configured.'' @ [newline]]
      else (pad 20 ''PROVIDER'' @ ''  '' @ pad 40 ''BASE URL'' @ ''  AUTH'' @ [newline]) #
        map (\<lambda>(n, e). pad 20 n @ ''  '' @ pad 40 (le_base_url e) @ ''  '' @ masked_auth e @ [newline]) (named_providers st))"

definition run_provider_list :: "pcli_lib \<Rightarrow> 'w pcli_world \<Rightarrow> string \<Rightarrow> (('w, pcli_step) sys, pcli_error option) state" where
  "run_provider_list L W path = do {
     s \<leftarrow> open_providers L W path;
     (case s of
        Inl (watch, i) \<Rightarrow> ret (Some (PNotLoaded i))
      | Inr st \<Rightarrow> do { _ \<leftarrow> say W (provider_list_lines st); ret None })
   }"

definition run_provider_remove ::
  "pcli_lib \<Rightarrow> 'w pcli_world \<Rightarrow> string \<Rightarrow> string list \<Rightarrow> (('w, pcli_step) sys, pcli_error option) state" where
  "run_provider_remove L W path args =
     (case args of
        [] \<Rightarrow> ret (Some PUsage)
      | name # _ \<Rightarrow> change_store L W path name ''removed'' (remove_provider (pi_save W) (pl_deps L) (pl_marshal L) name))"

definition pin_lines :: "pcli_lib \<Rightarrow> string \<Rightarrow> string list" where
  "pin_lines L raw =
     [''=== Replica host pin ==='' @ [newline]] @
     (case parse_replica_host (ld_lib (pl_deps L)) raw of
        Inr host \<Rightarrow>
          [''  GIT_SYNC_REPLICA_HOST='' @ host @ '' (from this process's environment)'' @ [newline],
           ''  The connector pushes only to this host and rejects any configuration naming another.'' @ [newline]]
      | Inl e \<Rightarrow>
          (if e = PinNotSet
           then [''  GIT_SYNC_REPLICA_HOST: NOT SET - the connector will reject every configuration and will not sync.'' @ [newline],
                 ''  Set it to the replica host (host or host:port) and restart the connector.'' @ [newline]]
           else [''  GIT_SYNC_REPLICA_HOST: INVALID - the connector will reject every configuration and will not sync.'' @ [newline],
                 ''  '' @ pl_pin_text L e @ [newline]])) @
     [[newline]]"

definition provider_status_lines :: "provider_store \<Rightarrow> string list" where
  "provider_status_lines st =
     [''=== Configured git-sync providers ==='' @ [newline]] @
     (if provider_names st = [] then [''  (none)'' @ [newline]] else []) @
     map (\<lambda>(n, e). ''  '' @ pad 20 n @ ''  '' @ le_base_url e @ ''  ['' @ masked_auth e @ '']'' @ [newline]) (named_providers st)"

definition print_providers ::
  "pcli_lib \<Rightarrow> 'w pcli_world \<Rightarrow> (string \<Rightarrow> string) \<Rightarrow> (('w, pcli_step) sys, pcli_error option) state" where
  "print_providers L W getenv = do {
     _ \<leftarrow> say W (pin_lines L (getenv ''GIT_SYNC_REPLICA_HOST''));
     s \<leftarrow> open_providers L W (default_config_path getenv);
     (case s of
        Inl (watch, i) \<Rightarrow> ret (Some (PNotLoaded i))
      | Inr st \<Rightarrow> do { _ \<leftarrow> say W (provider_status_lines st); ret None })
   }"

section \<open>\<open>config check\<close>\<close>

fun class_text :: "issue_class \<Rightarrow> string" where
  "class_text IssueFile = ''file''"
| "class_text IssueSyntax = ''syntax''"
| "class_text IssueSchema = ''schema''"
| "class_text IssueProviderName = ''provider_name''"
| "class_text IssueBaseURL = ''base_url''"
| "class_text IssueCredentials = ''credentials''"
| "class_text IssueDuplicateHost = ''duplicate_host''"

definition describe_issue :: "pcli_lib \<Rightarrow> config_issue \<Rightarrow> string" where
  "describe_issue L i =
     ''['' @ class_text (ci_class i) @ ''] '' @
     (if ci_class i = IssueSyntax \<or> ci_class i = IssueSchema then ''the config file '' else []) @
     (if ci_provider i \<noteq> []
      then ''provider '' @ pl_quote L (ci_provider i) @
        (case ci_field i of None \<Rightarrow> [] | Some f \<Rightarrow> '' (field '' @ field_name f @ '')'') @ '': ''
      else []) @
     pl_issue_text L (ci_cause i)"

definition auth_mode :: "provider_report \<Rightarrow> string" where
  "auth_mode p = (if pr_auth p = [] then ''none'' else pr_auth p)"

definition credential_source :: "provider_report \<Rightarrow> string" where
  "credential_source p = (if pr_token_file p then ''token_file'' else if pr_has_token p then ''inline token'' else ''-'')"

definition plural :: "nat \<Rightarrow> string \<Rightarrow> string \<Rightarrow> string" where
  "plural n one many = (if n = 1 then one else many)"

definition config_path_source :: "(string \<Rightarrow> string) \<Rightarrow> string" where
  "config_path_source getenv =
     (if getenv ''GIT_SYNC_CONFIG_FILE'' \<noteq> [] then ''from GIT_SYNC_CONFIG_FILE''
      else ''the default; GIT_SYNC_CONFIG_FILE is not set'')"

definition config_report_lines :: "pcli_lib \<Rightarrow> (string \<Rightarrow> string) \<Rightarrow> nat \<Rightarrow> config_report \<Rightarrow> string list" where
  "config_report_lines L getenv uid rep =
     [''=== git-sync provider config ==='' @ [newline],
      ''  File: '' @ cr_path rep @ '' ('' @ config_path_source getenv @ '')'' @ [newline],
      ''  Checked as uid '' @ itoa uid @ ''; the connector must run as a user that can read this file.'' @ [newline]] @
     (if cr_missing rep
      then [''  The file does not exist. The connector starts with no providers, so every repository is reported as not host-matched.'' @ [newline]]
      else []) @
     [newline # ''=== Providers ==='' @ [newline]] @
     (if cr_providers rep = [] then [''  (none)'' @ [newline]]
      else [pl_table L ([''  NAME'', ''HOST KEY'', ''AUTH'', ''CREDENTIAL''] #
        map (\<lambda>p. [''  '' @ pr_name p, pr_host_key p, auth_mode p, credential_source p]) (cr_providers rep))]) @
     (case cr_mode rep of
        None \<Rightarrow> [] | Some m \<Rightarrow> [newline # ''=== Warnings ==='' @ [newline], ''  - '' @ pl_mode_text L m @ [newline]]) @
     (if cr_missing rep then []
      else if cr_issues rep = []
        then [newline # ''OK: '' @ itoa (length (cr_providers rep)) @ '' '' @
                plural (length (cr_providers rep)) ''provider is'' ''providers are'' @ '' valid.'' @ [newline]]
        else (newline # ''=== Errors ==='' @ [newline]) #
               map (\<lambda>i. ''  '' @ describe_issue L i @ [newline]) (cr_issues rep))"

definition report_config :: "pcli_lib \<Rightarrow> 'w pcli_world \<Rightarrow> string \<Rightarrow> (('w, pcli_step) sys, config_report) state" where
  "report_config L W path = do {
     info \<leftarrow> effect (pi_stat W path) (PStat path);
     res \<leftarrow> logged PFile (load_config (pi_files W) (pl_deps L) path);
     ret (build_report path res (mode_warnings info))
   }"

definition report_verdict :: "config_report \<Rightarrow> pcli_error option" where
  "report_verdict rep =
     (if cr_missing rep \<and> cr_path rep \<noteq> default_config_file then Some PCheckMissing
      else if cr_issues rep \<noteq> [] then Some (PCheckRefused (length (cr_issues rep))) else None)"

definition run_config_check ::
  "pcli_lib \<Rightarrow> 'w pcli_world \<Rightarrow> (string \<Rightarrow> string) \<Rightarrow> nat \<Rightarrow> string list \<Rightarrow> (('w, pcli_step) sys, pcli_error option) state" where
  "run_config_check L W getenv uid args =
     (case parse_flags (\<lambda>n. None) args of
        Inl e \<Rightarrow>
          (if e = HelpAsked then do { _ \<leftarrow> say W [pl_check_usage L @ [newline]]; ret None } else ret (Some (PCheckFlags e)))
      | Inr (asg, rest) \<Rightarrow>
          (if rest \<noteq> [] then ret (Some PCheckArguments)
           else do {
             rep \<leftarrow> report_config L W (default_config_path getenv);
             _ \<leftarrow> say W (config_report_lines L getenv uid rep);
             ret (report_verdict rep)
           }))"

definition run_provider_config ::
  "pcli_lib \<Rightarrow> 'w pcli_world \<Rightarrow> (string \<Rightarrow> string) \<Rightarrow> nat \<Rightarrow> string list \<Rightarrow> (('w, pcli_step) sys, pcli_error option) state" where
  "run_provider_config L W getenv uid args =
     (case args of
        [] \<Rightarrow> ret (Some PUsage)
      | cmd # rest \<Rightarrow>
          (if cmd = ''set'' then run_provider_set L W (default_config_path getenv) rest
           else if cmd = ''list'' then run_provider_list L W (default_config_path getenv)
           else if cmd = ''remove'' then run_provider_remove L W (default_config_path getenv) rest
           else if cmd = ''check'' then run_config_check L W getenv uid rest
           else ret (Some (PUnknownCommand cmd))))"

section \<open>Storing and removing\<close>

text \<open>The files written, and what was printed.\<close>

fun save_steps :: "pcli_step list \<Rightarrow> save_step list" where
  "save_steps [] = []"
| "save_steps (PSave x # es) = x # save_steps es"
| "save_steps (x # es) = save_steps es"

fun said :: "pcli_step list \<Rightarrow> string list" where
  "said [] = []"
| "said (PPrint l # es) = l # said es"
| "said (x # es) = said es"

fun password_read :: "pcli_step list \<Rightarrow> string" where
  "password_read [] = []"
| "password_read (PStdin (Inr b) # es) = trim_line_ends b"
| "password_read (x # es) = password_read es"

lemma save_steps_simps [simp]:
  "save_steps (es @ fs) = save_steps es @ save_steps fs" "save_steps (map PPrint ls) = []" "save_steps (map PFile xs) = []"
  "save_steps (map PSave ys) = ys"
  by (induction es rule: save_steps.induct; induction ls; induction xs; induction ys; simp)+

lemma said_simps [simp]:
  "said (es @ fs) = said es @ said fs" "said (map PPrint ls) = ls" "said (map PFile xs) = []" "said (map PSave ys) = []"
  by (induction es rule: said.induct; induction ls; induction xs; induction ys; simp)+

lemma password_read_simps [simp]:
  "password_read (map PFile xs @ es) = password_read es" "password_read (map PSave ys @ es) = password_read es"
  "password_read (map PPrint ls @ es) = password_read es" "password_read (map PFile xs) = []"
  "password_read (map PSave ys) = []" "password_read (map PPrint ls) = []"
  by (induction xs; induction ys; induction ls; simp)+

text \<open>The store a load of the file gives, in some world.\<close>

definition loadable :: "pcli_lib \<Rightarrow> 'w pcli_world \<Rightarrow> string \<Rightarrow> provider_store \<Rightarrow> bool" where
  "loadable L W path st \<longleftrightarrow>
     (\<exists>w. new_store (pl_deps L) path (fst (in_world (load_config (pi_files W) (pl_deps L) path) w)) = Inr st)"

lemma open_providers_log:
  "emits (open_providers L W path) (\<lambda>r es. (\<exists>xs. es = map PFile xs) \<and> (case r of Inl f \<Rightarrow> True | Inr st \<Rightarrow> loadable L W path st))"
  unfolding open_providers_def
  by (intro emits_bind emits_logged_run emits_return) (auto simp: loadable_def split: sum.splits, metis fst_conv)

text \<open>A change of a store: what is written is the encoding of \<open>data\<close>, and the file is renamed into place on success only.\<close>

definition change_written :: "pcli_lib \<Rightarrow> (string, local_entry) fmap \<Rightarrow> bool \<Rightarrow> save_step list \<Rightarrow> bool" where
  "change_written L data ok es \<longleftrightarrow>
     list_all (\<lambda>x. case x of TempWritten b r \<Rightarrow> pl_marshal L (fmmap disk_of data) = Some b | _ \<Rightarrow> True) es \<and>
     (ok \<longleftrightarrow> list_ex (\<lambda>x. case x of TempRenamed a b r \<Rightarrow> r | _ \<Rightarrow> False) es)"

lemma put_data_log:
  "emits (put_data W (pl_deps L) (pl_marshal L) data st) (\<lambda>r es. change_written L data (fst r = None) es)"
  unfolding put_data_def save_store_def install_temp_def write_temp_def change_written_def
  by (intro emits_bind emits_effect emits_return emits_option emits_if) auto

definition store_change_ok ::
  "pcli_lib \<Rightarrow> 'w pcli_world \<Rightarrow> string \<Rightarrow> (provider_store \<Rightarrow> (string, local_entry) fmap option) \<Rightarrow>
   pcli_error option \<Rightarrow> pcli_step list \<Rightarrow> bool" where
  "store_change_ok L W path change r es \<longleftrightarrow>
     (save_steps es = [] \<and> r \<noteq> None) \<or>
     (\<exists>st data. loadable L W path st \<and> change st = Some data \<and> change_written L data (r = None) (save_steps es))"

lemma change_store_log:
  assumes "\<And>st. emits (f st) (\<lambda>r es. (es = [] \<and> fst r \<noteq> None) \<or> (\<exists>data. change st = Some data \<and> change_written L data (fst r = None) es))"
  shows "emits (change_store L W path name verb f) (\<lambda>r es. store_change_ok L W path change r es \<and>
    password_read es = [] \<and> said es = (if r = None then change_lines (pl_quote L name) verb else []))"
proof -
  have changed: "emits (logged PSave (f st)) (\<lambda>r es. \<exists>ys. es = map PSave ys \<and>
      ((ys = [] \<and> fst r \<noteq> None) \<or> (\<exists>data. change st = Some data \<and> change_written L data (fst r = None) ys)))" for st
    by (rule emits_logged, rule emits_weaken [OF assms [of st]]) blast
  show ?thesis
    unfolding change_store_def
  proof (intro emits_then [OF open_providers_log] emits_sum emits_prod)
    fix r es f watch i
    assume "(\<exists>xs. es = map PFile xs) \<and> (case r of Inl f \<Rightarrow> True | Inr st \<Rightarrow> loadable L W path st)"
    then show "emits (ret (Some (PNotLoaded i))) (\<lambda>b fs. store_change_ok L W path change b (es @ fs) \<and>
        password_read (es @ fs) = [] \<and> said (es @ fs) = (if b = None then change_lines (pl_quote L name) verb else []))"
      by (intro emits_return) (auto simp: store_change_ok_def)
  next
    fix r es st
    assume o: "(\<exists>xs. es = map PFile xs) \<and> (case r of Inl f \<Rightarrow> True | Inr st \<Rightarrow> loadable L W path st)" and r: "r = Inr st"
    then obtain xs where xs: "es = map PFile xs" and st: "loadable L W path st" by auto
    show "emits (logged PSave (f st) \<bind> (\<lambda>r. case fst r of
          None \<Rightarrow> say W (change_lines (pl_quote L name) verb) \<bind> (\<lambda>_. ret None)
        | Some e \<Rightarrow> ret (Some (PNotStored e))))
      (\<lambda>b fs. store_change_ok L W path change b (es @ fs) \<and> password_read (es @ fs) = [] \<and>
        said (es @ fs) = (if b = None then change_lines (pl_quote L name) verb else []))"
      by (intro emits_then [OF changed] emits_option emits_then [OF print_lines_log] emits_return)
         (use st in \<open>auto simp: xs store_change_ok_def\<close>)
  qed
qed

lemma set_provider_log:
  "emits (set_provider W (pl_deps L) (pl_marshal L) name e st) (\<lambda>r es. (es = [] \<and> fst r \<noteq> None) \<or>
     (\<exists>data. (if set_refused (ld_lib (pl_deps L)) name e st = None then Some (fmupd name e (ps_data st)) else None) = Some data \<and>
        change_written L data (fst r = None) es))"
  unfolding set_provider_def
  by (intro emits_option emits_return emits_weaken [OF put_data_log]) auto

lemma remove_provider_log:
  "emits (remove_provider W (pl_deps L) (pl_marshal L) name st) (\<lambda>r es. (es = [] \<and> fst r \<noteq> None) \<or>
     (\<exists>data. (if fmlookup (ps_data st) name = None then None else Some (fmdrop name (ps_data st))) = Some data \<and>
        change_written L data (fst r = None) es))"
  unfolding remove_provider_def
  by (intro emits_if emits_return emits_weaken [OF put_data_log]) auto

text \<open>
  What \<open>config set\<close> asks for, but for the token: the arguments that are in order, and the entry they describe, field
  by field from the flags. Its rule: a request for help prints the usage, and with other arguments that are refused
  nothing is done and the command fails; else the token is the one of standard input, and what is written is a store the
  connector would load with the one entry, valid and on a host of its own, put in.
\<close>

definition flags_in_order :: "flag_values \<Rightarrow> bool" where
  "flags_in_order asg \<longleftrightarrow>
     \<not> flag_given asg ''token'' \<and> flag_str asg ''base-url'' \<noteq> [] \<and>
     (flag_str asg ''auth'' = [] \<and> \<not> flag_bool asg ''token-stdin'' \<and> flag_str asg ''username'' = [] \<or>
      flag_str asg ''auth'' = ''bearer'' \<and> flag_bool asg ''token-stdin'' \<and> flag_str asg ''username'' = [] \<or>
      flag_str asg ''auth'' = ''basic'' \<and> flag_bool asg ''token-stdin'' \<and> flag_str asg ''username'' \<noteq> [])"

definition asked :: "string list \<Rightarrow> (string \<times> flag_values) option" where
  "asked args =
     (case args of
        [] \<Rightarrow> None
      | name # flags \<Rightarrow>
          (if prefix ''-'' name then None
           else (case parse_flags provider_flags flags of
                   Inl e \<Rightarrow> None
                 | Inr (asg, rest) \<Rightarrow> if flags_in_order asg then Some (name, asg) else None)))"

definition help_asked :: "string list \<Rightarrow> bool" where
  "help_asked args \<longleftrightarrow>
     args \<noteq> [] \<and> \<not> prefix ''-'' (hd args) \<and> parse_flags provider_flags (tl args) = Inl HelpAsked"

definition provider_set_faithful ::
  "pcli_lib \<Rightarrow> 'w pcli_world \<Rightarrow> string \<Rightarrow> string list \<Rightarrow> pcli_error option \<Rightarrow> pcli_step list \<Rightarrow> bool" where
  "provider_set_faithful L W path args r es \<longleftrightarrow>
     (case asked args of
        None \<Rightarrow>
          (if help_asked args then es = [PPrint (pl_set_usage L @ [newline])] \<and> r = None else es = [] \<and> r \<noteq> None)
      | Some (name, asg) \<Rightarrow>
          (let e = \<lparr>le_base_url = flag_str asg ''base-url'', le_auth = flag_str asg ''auth'',
                    le_username = flag_str asg ''username'', le_token = password_read es, le_token_file = []\<rparr> in
           said es = (if r = None then change_lines (pl_quote L name) ''saved'' else []) \<and>
           (flag_bool asg ''token-stdin'' \<or> password_read es = []) \<and>
           store_change_ok L W path
             (\<lambda>st. if set_refused (ld_lib (pl_deps L)) name e st = None then Some (fmupd name e (ps_data st)) else None) r es))"

lemma flags_fault_iff: "provider_flags_fault asg = None \<longleftrightarrow> flags_in_order asg"
  by (auto simp: provider_flags_fault_def auth_flags_fault_def flags_in_order_def Let_def)

lemma check_password_Inr: "check_password b = Inr token \<Longrightarrow> \<exists>x. b = Inr x \<and> token = trim_line_ends x"
  by (auto simp: check_password_def split: sum.splits if_splits)

lemma unasked_does_nothing:
  "asked args = None \<Longrightarrow> emits (run_provider_set L W path args) (provider_set_faithful L W path args)"
  unfolding run_provider_set_def
  by (cases args)
     (auto simp: provider_set_faithful_def asked_def help_asked_def flags_fault_iff [symmetric]
        split: if_splits sum.splits option.splits intro!: emits_return emits_bind emits_effect)

text \<open>The store is changed after standard input was read, or without it, and a refused password is the end.\<close>

definition asked_change ::
  "pcli_lib \<Rightarrow> string \<Rightarrow> flag_values \<Rightarrow> string \<Rightarrow> provider_store \<Rightarrow> (string, local_entry) fmap option" where
  "asked_change L name asg token st =
     (if set_refused (ld_lib (pl_deps L)) name (asked_entry asg token) st = None
      then Some (fmupd name (asked_entry asg token) (ps_data st)) else None)"

lemma store_change_stdin:
  "store_change_ok L W path change r (PStdin b # es) \<longleftrightarrow> store_change_ok L W path change r es"
  by (simp add: store_change_ok_def)

lemma asked_faithful:
  assumes "asked args = Some (name, asg)"
  shows "flag_bool asg ''token-stdin'' \<Longrightarrow> provider_set_faithful L W path args (Some e) [PStdin b]"
    and "flag_bool asg ''token-stdin'' \<Longrightarrow>
      store_change_ok L W path (asked_change L name asg (trim_line_ends x)) r es \<and> password_read es = [] \<and>
        said es = (if r = None then change_lines (pl_quote L name) ''saved'' else []) \<Longrightarrow>
      provider_set_faithful L W path args r (PStdin (Inr x) # es)"
    and "store_change_ok L W path (asked_change L name asg []) r es \<and> password_read es = [] \<and>
         said es = (if r = None then change_lines (pl_quote L name) ''saved'' else []) \<Longrightarrow>
      provider_set_faithful L W path args r es"
  unfolding provider_set_faithful_def assms option.case prod.case Let_def asked_change_def asked_entry_def
    store_change_stdin
  apply (cases b; simp add: store_change_ok_def)
  apply (simp only: password_read.simps said.simps simp_thms)
  apply (simp only: simp_thms)
  done

text \<open>C18. In every world, config set with a request for help prints the usage and with any other refused
arguments does nothing and fails; otherwise the token comes from standard input alone, and every
byte written is the encoding of a store the connector itself would load from the file, with exactly
the entry the flags describe put in, which passed the validation and the check that no other
provider has its host; it reports success exactly when the file was replaced.\<close>

theorem provider_set_stores_asked: "emits (run_provider_set L W path args) (provider_set_faithful L W path args)"
proof (cases "asked args")
  case None
  then show ?thesis by (rule unasked_does_nothing)
next
  case (Some na)
  obtain name asg where na: "na = (name, asg)" by force
  with Some obtain flags rest where args: "args = name # flags" "\<not> prefix ''-'' name"
    "parse_flags provider_flags flags = Inr (asg, rest)" "provider_flags_fault asg = None"
    by (auto simp: asked_def flags_fault_iff split: list.splits sum.splits if_splits)
  have store: "emits (change_store L W path name ''saved''
      (set_provider (pi_save W) (pl_deps L) (pl_marshal L) name (asked_entry asg token)))
    (\<lambda>r es. store_change_ok L W path (asked_change L name asg token) r es \<and> password_read es = [] \<and>
      said es = (if r = None then change_lines (pl_quote L name) ''saved'' else []))" for token
    unfolding asked_change_def by (rule change_store_log [OF set_provider_log])
  note faithful = asked_faithful [OF Some [unfolded na args(1)]]
  show ?thesis
    unfolding run_provider_set_def args(1) list.case if_not_P [OF args(2)] args(3) sum.case prod.case args(4) option.case
      read_password_def
  proof (cases "flag_bool asg ''token-stdin''")
    case True
    then show "emits ((if flag_bool asg ''token-stdin''
        then effect (pi_stdin W (max_token_bytes + 1)) PStdin \<bind> (\<lambda>b. ret (check_password b)) else ret (Inr [])) \<bind>
      (\<lambda>t. case t of Inl e \<Rightarrow> ret (Some e) | Inr token \<Rightarrow> change_store L W path name ''saved''
          (set_provider (pi_save W) (pl_deps L) (pl_marshal L) name (asked_entry asg token))))
      (provider_set_faithful L W path (name # flags))"
      by (simp only: True if_True, intro emits_bind emits_effect emits_return emits_sum)
         (auto simp: faithful(1) True dest!: check_password_Inr
            intro!: emits_return emits_weaken [OF store] faithful(2) [OF True])
  next
    case False
    then show "emits ((if flag_bool asg ''token-stdin''
        then effect (pi_stdin W (max_token_bytes + 1)) PStdin \<bind> (\<lambda>b. ret (check_password b)) else ret (Inr [])) \<bind>
      (\<lambda>t. case t of Inl e \<Rightarrow> ret (Some e) | Inr token \<Rightarrow> change_store L W path name ''saved''
          (set_provider (pi_save W) (pl_deps L) (pl_marshal L) name (asked_entry asg token))))
      (provider_set_faithful L W path (name # flags))"
      by (simp only: False if_False, intro emits_bind emits_return emits_sum)
         (auto intro!: emits_weaken [OF store] faithful(3))
  qed
qed

text \<open>And \<open>config remove\<close> writes such a store without the one entry.\<close>

lemma provider_remove_exact:
  "emits (run_provider_remove L W path args) (\<lambda>r es. case args of
     [] \<Rightarrow> es = [] \<and> r \<noteq> None
   | name # _ \<Rightarrow> store_change_ok L W path
       (\<lambda>st. if fmlookup (ps_data st) name = None then None else Some (fmdrop name (ps_data st))) r es)"
  unfolding run_provider_remove_def
  by (cases args) (auto intro!: emits_return emits_weaken [OF change_store_log [OF remove_provider_log]])

section \<open>The check is the connector's own verdict\<close>

text \<open>In every world, config check prints the report of the very load the connector makes at its start and
succeeds exactly when that load gives the connector a store, but for a missing file at a path of the
operator's own, which only the check refuses; it writes no file.\<close>

theorem config_check_is_start_verdict:
  "emits (run_config_check L W getenv uid []) (\<lambda>r es. \<exists>w info.
     (let path = default_config_path getenv;
          res = fst (in_world (load_config (pi_files W) (pl_deps L) path) w);
          start = new_store (pl_deps L) path res
      in said es = config_report_lines L getenv uid (build_report path res info) \<and> save_steps es = [] \<and>
         (r = None \<longleftrightarrow> (case start of Inl f \<Rightarrow> False | Inr st \<Rightarrow> \<not> (lc_missing res \<and> path \<noteq> default_config_file)))))"
proof -
  have run: "emits (report_config L W path) (\<lambda>rep es. save_steps es = [] \<and> said es = [] \<and>
      (\<exists>w info. rep = build_report path (fst (in_world (load_config (pi_files W) (pl_deps L) path) w)) info))" for path
    unfolding report_config_def
    by (intro emits_bind emits_effect emits_logged_run emits_return) (auto, metis fst_conv)
  have verdict: "report_verdict (build_report path res info) = None \<longleftrightarrow>
      (case new_store (pl_deps L) path res of Inl f \<Rightarrow> False | Inr st \<Rightarrow> \<not> (lc_missing res \<and> path \<noteq> default_config_file))" for path res info
    by (auto simp: report_verdict_def build_report_def new_store_def split: list.splits)
  show ?thesis
    unfolding run_config_check_def Let_def
    apply (simp add: verdict)
    apply (rule emits_then [OF run])
    apply (rule emits_then [OF print_lines_log])
    apply (rule emits_return)
    apply (auto simp: verdict)
    done
qed

section \<open>What is printed of credentials\<close>

text \<open>Entries whose secrets are gone, but for whether there is one.\<close>

definition hide_entry :: "local_entry \<Rightarrow> local_entry" where
  "hide_entry e = e\<lparr>le_username := [], le_token := (if le_token e = [] then [] else ''*'')\<rparr>"

definition hide_load :: "loaded_config \<Rightarrow> loaded_config" where
  "hide_load res = res\<lparr>lc_entries := fmmap hide_entry (lc_entries res)\<rparr>"

definition hide_store :: "provider_store \<Rightarrow> provider_store" where
  "hide_store st = st\<lparr>ps_data := fmmap hide_entry (ps_data st)\<rparr>"

text \<open>config list, status and config check print the same whatever the tokens and user names of the
providers are.\<close>

theorem provider_listings_hide_credentials:
  "provider_list_lines (hide_store st) = provider_list_lines st \<and>
   provider_status_lines (hide_store st) = provider_status_lines st \<and>
   config_report_lines L getenv uid (build_report path (hide_load res) info) = config_report_lines L getenv uid (build_report path res info)"
proof -
  have named: "named_providers (hide_store st) = map (\<lambda>(n, e). (n, hide_entry e)) (named_providers st)"
    by (auto simp: named_providers_def provider_names_def get_provider_def hide_store_def sorted_keys_def fmlookup_dom'_iff)
  have names: "provider_names (hide_store st) = provider_names st"
    by (simp add: provider_names_def hide_store_def sorted_keys_def)
  have entry: "masked_auth (hide_entry e) = masked_auth e" "le_base_url (hide_entry e) = le_base_url e" for e
    by (simp_all add: masked_auth_def hide_entry_def)
  have "build_report path (hide_load res) info = build_report path res info"
    by (auto simp: build_report_def hide_load_def hide_entry_def sorted_keys_def fmlookup_dom'_iff Let_def)
  then show ?thesis
    by (simp add: provider_list_lines_def provider_status_lines_def named names entry o_def case_prod_beta')
qed

end
