(* ===== verification/PreflightHost.thy ===== *)
theory PreflightHost
  imports StartConfig KeyStore TempHomes OriginProbe ProviderCli
begin

text \<open>
  The checks of the preflight command that concern the host (\<open>gitsync/cli/preflight_checks.go\<close>,
  \<open>gitsync/cli/preflight_enrol.go\<close>, \<open>gitsync/preflight.go\<close>): git, the temporary directory, the replica pin, the identifier, the
  key file, the registration token and the provider configuration, each by the connector's own rules. A detail is a
  constructor with what its text shows; the remedies follow from it and are left out.
\<close>

section \<open>Results\<close>

datatype check_status = CheckPass | CheckWarn | CheckFail | CheckSkip

datatype enrolment = NotEnrolled | Enrolled | EnrolmentUnknown

text \<open>What a version check of git gave: there is no git, it failed, or its output.\<close>

datatype git_answer = GitMissing | GitFailed string | GitSaid string string

datatype gateway_trouble =
    ProxyUnreachable | UnknownAuthority | WrongHostName | CertificateInvalid | CertificateUnverified | NameUnresolved
  | ConnectionRefused | ConnectionTimeout | NoTunnel | HandshakeFailed | ConnectionFailed

datatype detail =
    GitNotFound | GitNotRunning string | GitNotVersion string | GitTooOld string string | GitUsable string string
  | TmpRelative string | TmpWritable string string | TmpNotThere string string | TmpNotCreatable string string
  | TmpUnusable string string root_fault
  | PinSet string | PinUnset | PinInvalid pin_error
  | IdMissing | IdSet
  | NoKeyPath | KeyHeld string | KeyHeldRelative string | KeyHeldByOther string int | KeyExposed string | KeyPathBroken string
  | KeyUnreadable string | KeyUnusable string
  | KeyDirNotDir string | KeyDirNotThere string | KeyDirNotCreatable string | KeyDirError string os_error
  | KeyDirWritable string | KeyDirFull string | KeyDirReadOnly string | KeyDirNotWritable string
  | TokenFileMissing | TokenFileDenied | TokenFileUnusable | TokenUndecided | TokenNotNeeded | TokenLeftOver
  | TokenFileUsable bool | TokenInEnvironment | TokenNone
  | ConfigNotThere string | ConfigRefused string "config_issue list" bool | ConfigMissing string | ConfigWarned string
  | ConfigAccepted string nat
  | UrlRefused start_fault | UrlFine string string | UrlPlaintext string string | DependsOn string
  | RequestNotBuilt | ProxyInvalid
  | NameByProxy string | NameIsAddress | NameNotResolved string | NameResolved string nat | ProxyConfigured
  | GatewayDown gateway_trouble string | GatewayPlain string int | GatewayTls string int
  | OutOfTime string | ProbeBroken string git_error | ReplicaAnswered string | ReplicaDown string
  | OriginAnswered string bool | OriginRejected string bool | OriginAway string | NoProviders

record check_result =
  ck_id :: string
  ck_status :: check_status
  ck_detail :: detail

definition judge :: "string \<Rightarrow> check_status \<Rightarrow> detail \<Rightarrow> check_result" where
  "judge i s d = \<lparr>ck_id = i, ck_status = s, ck_detail = d\<rparr>"

lemma judge_simps [simp]: "ck_id (judge i s d) = i" "ck_status (judge i s d) = s" "ck_detail (judge i s d) = d"
  by (simp_all add: judge_def)

section \<open>The world\<close>

record 'w host_world =
  hw_git :: "'w \<Rightarrow> git_answer \<times> 'w"
  hw_dirs :: "'w dir_world"
  hw_key :: "'w key_world"
  hw_owner :: "string \<Rightarrow> 'w \<Rightarrow> int option \<times> 'w"
  hw_files :: "'w file_world"
  hw_stat :: "string \<Rightarrow> 'w \<Rightarrow> (bool \<times> 32 word) option \<times> 'w"

datatype host_step =
    HGit git_answer | HDir dir_step | HKey key_step | HOwner string "int option" | HToken file_step
  | HStat string "(bool \<times> 32 word) option" | HConfig file_step

text \<open>The process: its variables, its home directory and its user.\<close>

record host_process =
  hp_getenv :: "string \<Rightarrow> string"
  hp_home :: "string option"
  hp_euid :: int

definition no_access :: "os_error \<Rightarrow> bool" where
  "no_access e \<longleftrightarrow> e = OtherErrno ''EACCES'' \<or> e = OtherErrno ''EPERM''"

section \<open>git, the temporary directory, the pin and the identifier\<close>

definition check_git :: "'w host_world \<Rightarrow> (('w, host_step) sys, check_result) state" where
  "check_git W = do {
     a \<leftarrow> effect (hw_git W) HGit;
     ret (case a of
        GitMissing \<Rightarrow> judge ''git'' CheckFail GitNotFound
      | GitFailed path \<Rightarrow> judge ''git'' CheckFail (GitNotRunning path)
      | GitSaid path out \<Rightarrow>
          (case parse_git_version out of
             None \<Rightarrow> judge ''git'' CheckFail (GitNotVersion path)
           | Some (ver, major, minor) \<Rightarrow>
               if \<not> git_version_supported major minor then judge ''git'' CheckFail (GitTooOld ver path)
               else judge ''git'' CheckPass (GitUsable ver path)))
   }"

definition check_temp_dir :: "'w host_world \<Rightarrow> host_process \<Rightarrow> (('w, host_step) sys, check_result) state" where
  "check_temp_dir W P =
     (case temp_root_path (hp_getenv P) of
        (None, var) \<Rightarrow> ret (judge ''tmpdir'' CheckFail (TmpRelative var))
      | (Some dir, var) \<Rightarrow> do {
          r \<leftarrow> logged HDir (check_temp_root_writable (hw_dirs W) dir);
          (case r of
             None \<Rightarrow> ret (judge ''tmpdir'' CheckPass (TmpWritable dir var))
           | Some f \<Rightarrow>
               (if f = RootMissing then do {
                  ok \<leftarrow> logged HDir (can_create_dir (hw_dirs W) dir);
                  ret (if ok then judge ''tmpdir'' CheckWarn (TmpNotThere dir var)
                       else judge ''tmpdir'' CheckFail (TmpNotCreatable dir var))
                } else ret (judge ''tmpdir'' CheckFail (TmpUnusable dir var f))))
        })"

definition check_replica_host :: "go_lib \<Rightarrow> host_process \<Rightarrow> check_result" where
  "check_replica_host lib P =
     (case parse_replica_host lib (hp_getenv P ''GIT_SYNC_REPLICA_HOST'') of
        Inr host \<Rightarrow> judge ''replica-host'' CheckPass (PinSet host)
      | Inl e \<Rightarrow> judge ''replica-host'' CheckFail (if e = PinNotSet then PinUnset else PinInvalid e))"

definition check_connector_id :: "host_process \<Rightarrow> check_result" where
  "check_connector_id P =
     (if hp_getenv P ''CONNECTOR_ID'' = [] then judge ''connector-id'' CheckFail IdMissing
      else judge ''connector-id'' CheckPass IdSet)"

section \<open>The key file\<close>

definition key_probe_verdict :: "save_error option \<Rightarrow> string \<Rightarrow> check_status \<times> detail" where
  "key_probe_verdict r dir =
     (case r of
        None \<Rightarrow> (CheckPass, KeyDirWritable dir)
      | Some (stage, e) \<Rightarrow>
          if e = OtherErrno ''ENOSPC'' \<or> e = OtherErrno ''EDQUOT'' then (CheckFail, KeyDirFull dir)
          else if e = OtherErrno ''EROFS'' then (CheckFail, KeyDirReadOnly dir)
          else (CheckFail, KeyDirNotWritable dir))"

definition check_key_dir ::
  "'k mldsa \<Rightarrow> 'w host_world \<Rightarrow> string \<Rightarrow> (('w, host_step) sys, check_result) state" where
  "check_key_dir M W path = (let dir = path_dir path in do {
     s \<leftarrow> logged HDir (effect (dw_stat (hw_dirs W) dir) (DirStat dir));
     (case s of
        Inr is_dir \<Rightarrow>
          (if \<not> is_dir then ret (judge ''key-file'' CheckFail (KeyDirNotDir dir))
           else do {
             r \<leftarrow> logged (HKey \<circ> KDisk) (probe_writable M (kw_disk (hw_key W)) path);
             ret (case key_probe_verdict r dir of (st, d) \<Rightarrow> judge ''key-file'' st d)
           })
      | Inl e \<Rightarrow>
          (if e = NoEnt then do {
             ok \<leftarrow> logged HDir (can_create_dir (hw_dirs W) dir);
             ret (if ok then judge ''key-file'' CheckWarn (KeyDirNotThere dir)
                  else judge ''key-file'' CheckFail (KeyDirNotCreatable dir))
           } else ret (judge ''key-file'' CheckFail (KeyDirError dir e))))
   })"

definition held_key :: "string \<Rightarrow> int \<Rightarrow> int option \<Rightarrow> check_result" where
  "held_key path euid owner =
     (case owner of
        Some uid \<Rightarrow>
          if uid \<noteq> euid then judge ''key-file'' CheckWarn (KeyHeldByOther path uid)
          else if \<not> rooted path then judge ''key-file'' CheckWarn (KeyHeldRelative path)
          else judge ''key-file'' CheckPass (KeyHeld path)
      | None \<Rightarrow>
          if \<not> rooted path then judge ''key-file'' CheckWarn (KeyHeldRelative path)
          else judge ''key-file'' CheckPass (KeyHeld path))"

definition check_key_file ::
  "'k mldsa \<Rightarrow> 'w host_world \<Rightarrow> host_process \<Rightarrow> (('w, host_step) sys, check_result \<times> enrolment) state" where
  "check_key_file M W P =
     (case git_key_file_path (hp_getenv P) (hp_home P) of
        None \<Rightarrow> ret (judge ''key-file'' CheckFail NoKeyPath, EnrolmentUnknown)
      | Some path \<Rightarrow> do {
          k \<leftarrow> logged HKey (key_load M (hw_key W) path);
          (case k of
             Inr (Some priv) \<Rightarrow> do {
               owner \<leftarrow> effect (hw_owner W path) (HOwner path);
               ret (held_key path (hp_euid P) owner, Enrolled)
             }
           | Inr None \<Rightarrow> do { r \<leftarrow> check_key_dir M W path; ret (r, NotEnrolled) }
           | Inl f \<Rightarrow>
               ret (case f of
                  KeyUnsafePermissions \<Rightarrow> (judge ''key-file'' CheckFail (KeyExposed path), Enrolled)
                | KeyReadFailed e \<Rightarrow>
                    if e = OtherErrno ''ENOTDIR'' then (judge ''key-file'' CheckFail (KeyPathBroken path), NotEnrolled)
                    else if no_access e then (judge ''key-file'' CheckFail (KeyUnreadable path), EnrolmentUnknown)
                    else (judge ''key-file'' CheckFail (KeyUnusable path), EnrolmentUnknown)
                | _ \<Rightarrow> (judge ''key-file'' CheckFail (KeyUnusable path), EnrolmentUnknown)))
        })"

section \<open>The registration token\<close>

definition token_errno :: "token_fault \<Rightarrow> os_error option" where
  "token_errno f = (case f of TokenOpenFailed e \<Rightarrow> Some e | TokenIo e \<Rightarrow> Some e | _ \<Rightarrow> None)"

definition token_verdict :: "host_process \<Rightarrow> enrolment \<Rightarrow> token_source \<times> token_fault option \<Rightarrow> check_status \<times> detail" where
  "token_verdict P st r =
     (case r of
        (src, Some f) \<Rightarrow>
          (CheckFail,
            if token_errno f = Some NoEnt then TokenFileMissing
            else if (case token_errno f of None \<Rightarrow> False | Some e \<Rightarrow> no_access e) then TokenFileDenied
            else TokenFileUnusable)
      | (src, None) \<Rightarrow>
          if st = EnrolmentUnknown then (CheckSkip, TokenUndecided)
          else if st = Enrolled then
            (if src = TokenFromNone then (CheckPass, TokenNotNeeded) else (CheckWarn, TokenLeftOver))
          else (case src of
                  TokenFromFile \<Rightarrow> (CheckPass, TokenFileUsable (hp_getenv P ''REGISTRATION_TOKEN'' \<noteq> []))
                | TokenFromEnv \<Rightarrow> (CheckWarn, TokenInEnvironment)
                | TokenFromNone \<Rightarrow> (CheckFail, TokenNone)))"

definition check_token_setting ::
  "'w host_world \<Rightarrow> host_process \<Rightarrow> enrolment \<Rightarrow> (('w, host_step) sys, check_result) state" where
  "check_token_setting W P st = do {
     r \<leftarrow> logged HToken (check_registration_token (hw_files W) (hp_getenv P));
     ret (case token_verdict P st r of (s, d) \<Rightarrow> judge ''registration-token'' s d)
   }"

section \<open>The provider configuration\<close>

text \<open>\<open>ReadConfig\<close>: nothing is changed, and a mode that is too wide is a problem.\<close>

record loaded_report =
  lr_report :: config_report
  lr_loose :: bool
  lr_entries :: "(string, local_entry) fmap"

definition read_config ::
  "load_deps \<Rightarrow> 'w host_world \<Rightarrow> string \<Rightarrow> (('w, host_step) sys, loaded_report) state" where
  "read_config d W path = do {
     info \<leftarrow> effect (hw_stat W path) (HStat path);
     res \<leftarrow> logged HConfig (load_config_mode (hw_files W) d path False);
     ret \<lparr>lr_report = build_report path res (mode_warnings info), lr_loose = lc_loose res, lr_entries = lc_entries res\<rparr>
   }"

definition has_issues :: "loaded_report \<Rightarrow> bool" where
  "has_issues c \<longleftrightarrow> cr_issues (lr_report c) \<noteq> [] \<or> lr_loose c"

definition check_provider_config :: "loaded_report \<Rightarrow> check_result" where
  "check_provider_config c =
     (let rep = lr_report c in
      if cr_missing rep \<and> cr_path rep \<noteq> default_config_file
      then judge ''provider-config'' CheckFail (ConfigNotThere (cr_path rep))
      else if has_issues c then judge ''provider-config'' CheckFail (ConfigRefused (cr_path rep) (cr_issues rep) (lr_loose c))
      else if cr_missing rep then judge ''provider-config'' CheckWarn (ConfigMissing (cr_path rep))
      else if cr_mode rep \<noteq> None then judge ''provider-config'' CheckWarn (ConfigWarned (cr_path rep))
      else judge ''provider-config'' CheckPass (ConfigAccepted (cr_path rep) (length (cr_providers rep))))"
end
