(* ===== verification/PreflightNet.thy ===== *)
theory PreflightNet
  imports PreflightHost
begin

text \<open>
  The checks of the preflight command that reach out (\<open>gitsync/cli/preflight_gateway.go\<close>, \<open>gitsync/cli/preflight_replica.go\<close>, the
  origin probes of \<open>gitsync/preflight.go\<close> and \<open>gitsync/cli/preflight_checks.go\<close>), their order and dependencies, and the verdict
  (\<open>gitsync/cli/preflight.go\<close>). The network is the world. Of a failed request the model keeps the tests the code makes of
  its error; probes of origins that run at once are modelled one after another, as they share nothing.
\<close>

section \<open>The network\<close>

text \<open>What \<open>errors.As\<close> and \<open>errors.Is\<close> find in the error of a request.\<close>

record request_error =
  re_proxy_connect :: bool
  re_unknown_authority :: bool
  re_host_name :: bool
  re_invalid :: bool
  re_verify :: bool
  re_dns :: bool
  re_refused :: bool
  re_timeout :: bool
  re_tls_text :: bool

text \<open>
  The one HEAD request to the gateway: its URL, part by part, and the headers the code sets; no body. Of user information
  in the URL, Go makes a Basic Authorization header of its own accord.
\<close>

record head_request =
  hq_scheme :: string
  hq_user :: "string option"
  hq_host :: string
  hq_path :: string
  hq_query :: string
  hq_fragment :: string
  hq_headers :: "(string \<times> string) list"

text \<open>
  \<open>nw_proxy\<close> gives the host of the proxy for a scheme and host, if any, or fails; \<open>nw_lookup\<close> the number of addresses;
  \<open>nw_head\<close> the status and whether there was TLS; \<open>nw_over\<close> whether the command's time is late.
\<close>

record 'w net_world =
  nw_proxy :: "string \<Rightarrow> string \<Rightarrow> 'w \<Rightarrow> string option option \<times> 'w"
  nw_lookup :: "string \<Rightarrow> 'w \<Rightarrow> nat option \<times> 'w"
  nw_head :: "head_request \<Rightarrow> 'w \<Rightarrow> (request_error + int \<times> bool) \<times> 'w"
  nw_over :: "'w \<Rightarrow> bool \<times> 'w"
  nw_origins :: "'w origin_ops"
  nw_replica :: "'w origin_ops"
  nw_host :: "'w host_world"

datatype net_step =
    NProxy string string "string option option" | NLookup string "nat option"
  | NHead head_request "request_error + int \<times> bool" | NOver bool | NOrigin origin_step | NReplica origin_step
  | NHost host_step

record net_lib =
  nl_start :: start_lib
  nl_deps :: load_deps
  nl_is_ip :: "string \<Rightarrow> bool"
  nl_request_ok :: "head_request \<Rightarrow> bool"
  nl_lower :: "string \<Rightarrow> string"
  nl_version :: string

section \<open>The gateway\<close>

definition describe_gateway_error :: "request_error \<Rightarrow> bool \<Rightarrow> gateway_trouble" where
  "describe_gateway_error e proxied =
     (if proxied \<and> re_proxy_connect e then ProxyUnreachable
      else if re_unknown_authority e then UnknownAuthority
      else if re_host_name e then WrongHostName
      else if re_invalid e then CertificateInvalid
      else if re_verify e then CertificateUnverified
      else if re_dns e then NameUnresolved
      else if re_refused e then ConnectionRefused
      else if re_timeout e then ConnectionTimeout
      else if proxied \<and> \<not> re_tls_text e then NoTunnel
      else if re_tls_text e then HandshakeFailed
      else ConnectionFailed)"

definition strip_brackets :: "string \<Rightarrow> string" where
  "strip_brackets s = rev (dropWhile (\<lambda>c. c \<in> set ''[]'') (rev (dropWhile (\<lambda>c. c \<in> set ''[]'') s)))"

definition check_name_resolves ::
  "net_lib \<Rightarrow> 'w net_world \<Rightarrow> string \<Rightarrow> string \<Rightarrow> string option \<Rightarrow> (('w, net_step) sys, check_result) state" where
  "check_name_resolves N W cid host proxy =
     (case proxy of
        Some p \<Rightarrow> ret (judge cid CheckPass (NameByProxy p))
      | None \<Rightarrow>
          (if nl_is_ip N (strip_brackets host) then ret (judge cid CheckPass NameIsAddress)
           else do {
             r \<leftarrow> effect (nw_lookup W host) (NLookup host);
             ret (case r of
                    Some (Suc n) \<Rightarrow> judge cid CheckPass (NameResolved host (Suc n))
                  | _ \<Rightarrow> judge cid CheckFail (NameNotResolved host))
           }))"

definition check_gateway_conn ::
  "'w net_world \<Rightarrow> head_request \<Rightarrow> string option \<Rightarrow> string \<Rightarrow> bool \<Rightarrow> (('w, net_step) sys, check_result) state" where
  "check_gateway_conn W q proxy host_port plaintext = do {
     r \<leftarrow> effect (nw_head W q) (NHead q);
     ret (case r of
        Inl e \<Rightarrow> judge ''gateway-tls'' CheckFail (GatewayDown (describe_gateway_error e (proxy \<noteq> None)) host_port)
      | Inr (status, tls) \<Rightarrow>
          if plaintext \<or> \<not> tls then judge ''gateway-tls'' CheckWarn (GatewayPlain host_port status)
          else judge ''gateway-tls'' CheckPass (GatewayTls host_port status))
   }"

definition gateway_scheme :: "gateway_url \<Rightarrow> string" where
  "gateway_scheme u = (if gu_scheme u = ''ws'' then ''http'' else ''https'')"

definition gateway_host_port :: "gateway_url \<Rightarrow> string" where
  "gateway_host_port u =
     join_host_port (gu_hostname u)
       (if gu_port u \<noteq> [] then gu_port u else if gateway_scheme u = ''https'' then ''443'' else ''80'')"

text \<open>The request is rebuilt from the scheme, host and path, so nothing else of the URL travels.\<close>

definition gateway_request :: "net_lib \<Rightarrow> gateway_url \<Rightarrow> head_request" where
  "gateway_request N u =
     \<lparr>hq_scheme = gateway_scheme u, hq_user = None, hq_host = gu_host u, hq_path = gu_path u, hq_query = [], hq_fragment = [],
      hq_headers = [(''User-Agent'', ''mkonnect-gitsync-preflight/'' @ nl_version N)]\<rparr>"

definition check_gateway_url :: "net_lib \<Rightarrow> (string \<Rightarrow> string) \<Rightarrow> check_result" where
  "check_gateway_url N getenv =
     (case parse_gateway_url (nl_start N) getenv (getenv ''GATEWAY_URL'') of
        Inl e \<Rightarrow> judge ''gateway-url'' CheckFail (UrlRefused e)
      | Inr u \<Rightarrow>
          if gu_scheme u = ''ws'' then judge ''gateway-url'' CheckWarn (UrlPlaintext (gu_scheme u) (gateway_host_port u))
          else judge ''gateway-url'' CheckPass (UrlFine (gu_scheme u) (gateway_host_port u)))"

definition check_gateway_reach ::
  "net_lib \<Rightarrow> 'w net_world \<Rightarrow> gateway_url \<Rightarrow> (('w, net_step) sys, check_result list) state" where
  "check_gateway_reach N W u =
     (let q = gateway_request N u in
      if \<not> nl_request_ok N q
      then ret [judge ''gateway-dns'' CheckSkip RequestNotBuilt, judge ''gateway-tls'' CheckFail RequestNotBuilt]
      else do {
        p \<leftarrow> effect (nw_proxy W (hq_scheme q) (hq_host q)) (NProxy (hq_scheme q) (hq_host q));
        (case p of
           None \<Rightarrow> ret [judge ''gateway-dns'' CheckSkip (DependsOn ''gateway-tls''), judge ''gateway-tls'' CheckFail ProxyInvalid]
         | Some proxy \<Rightarrow> do {
             dns \<leftarrow> check_name_resolves N W ''gateway-dns'' (gu_hostname u) proxy;
             (if ck_status dns = CheckFail then ret [dns, judge ''gateway-tls'' CheckSkip (DependsOn ''gateway-dns'')]
              else do {
                conn \<leftarrow> check_gateway_conn W q proxy (gateway_host_port u) (gu_scheme u = ''ws'');
                ret [dns, conn]
              })
           })
      })"

definition check_gateway ::
  "net_lib \<Rightarrow> 'w net_world \<Rightarrow> (string \<Rightarrow> string) \<Rightarrow> (('w, net_step) sys, check_result list) state" where
  "check_gateway N W getenv =
     (case parse_gateway_url (nl_start N) getenv (getenv ''GATEWAY_URL'') of
        Inl e \<Rightarrow> ret [check_gateway_url N getenv, judge ''gateway-dns'' CheckSkip (DependsOn ''gateway-url''),
                     judge ''gateway-tls'' CheckSkip (DependsOn ''gateway-url'')]
      | Inr u \<Rightarrow> do { rs \<leftarrow> check_gateway_reach N W u; ret (check_gateway_url N getenv # rs) })"

section \<open>The replica host\<close>

text \<open>The entry of the request to the replica: no mode, no user, no token.\<close>

definition replica_entry :: "string \<Rightarrow> local_entry" where
  "replica_entry pin = \<lparr>le_base_url = ''https://'' @ pin, le_auth = [], le_username = [], le_token = [], le_token_file = []\<rparr>"

definition check_replica_https ::
  "net_lib \<Rightarrow> (string \<Rightarrow> string option) \<Rightarrow> 'w net_world \<Rightarrow> string \<Rightarrow> (('w, net_step) sys, check_result) state" where
  "check_replica_https N genv W pin = do {
     r \<leftarrow> logged NReplica (origin_probe (nl_lower N) genv (nw_replica W) (replica_entry pin));
     late \<leftarrow> effect (nw_over W) NOver;
     ret (if late \<and> (case r of Inl e \<Rightarrow> True | Inr v \<Rightarrow> v = OriginDown) then judge ''replica-https'' CheckSkip (OutOfTime pin)
          else (case r of
             Inl e \<Rightarrow> judge ''replica-https'' CheckFail (ProbeBroken pin e)
           | Inr OriginDown \<Rightarrow> judge ''replica-https'' CheckFail (ReplicaDown pin)
           | Inr v \<Rightarrow> judge ''replica-https'' CheckPass (ReplicaAnswered pin)))
   }"

text \<open>\<open>net.SplitHostPort\<close> of a canonical pin gives the host without brackets.\<close>

definition pin_host :: "string \<Rightarrow> string" where
  "pin_host pin = strip_brackets (take (length pin - Suc (length (takeWhile (\<lambda>c. c \<noteq> CHR '':'') (rev pin)))) pin)"

definition replica_dns ::
  "net_lib \<Rightarrow> 'w net_world \<Rightarrow> (string \<Rightarrow> string) \<Rightarrow> string \<Rightarrow> string option \<Rightarrow> (('w, net_step) sys, check_result) state" where
  "replica_dns N W getenv pin proxy =
     (if proxy = None \<and> (getenv ''HTTPS_PROXY'' \<noteq> [] \<or> getenv ''https_proxy'' \<noteq> [])
      then ret (judge ''replica-dns'' CheckPass ProxyConfigured)
      else check_name_resolves N W ''replica-dns'' (pin_host pin) proxy)"

definition replica_skips :: "string \<Rightarrow> check_result list" where
  "replica_skips on = [judge ''replica-dns'' CheckSkip (DependsOn on), judge ''replica-https'' CheckSkip (DependsOn on)]"

definition check_replica ::
  "net_lib \<Rightarrow> (string \<Rightarrow> string option) \<Rightarrow> 'w net_world \<Rightarrow> (string \<Rightarrow> string) \<Rightarrow> check_result \<Rightarrow> check_result \<Rightarrow> check_result \<Rightarrow>
   (('w, net_step) sys, check_result list) state" where
  "check_replica N genv W getenv replica git tmp =
     (case parse_replica_host (ld_lib (nl_deps N)) (getenv ''GIT_SYNC_REPLICA_HOST'') of
        Inl e \<Rightarrow> ret (replica_skips ''replica-host'')
      | Inr pin \<Rightarrow>
          (if ck_status replica \<noteq> CheckPass then ret (replica_skips ''replica-host'')
           else do {
             p \<leftarrow> effect (nw_proxy W ''https'' pin) (NProxy ''https'' pin);
             (case p of
                None \<Rightarrow> ret (replica_skips ''gateway-tls'')
              | Some proxy \<Rightarrow> do {
                  dns \<leftarrow> replica_dns N W getenv pin proxy;
                  (if ck_status dns = CheckFail then ret [dns, judge ''replica-https'' CheckSkip (DependsOn ''replica-dns'')]
                   else if ck_status git \<noteq> CheckPass then ret [dns, judge ''replica-https'' CheckSkip (DependsOn ''git'')]
                   else if ck_status tmp \<noteq> CheckPass then ret [dns, judge ''replica-https'' CheckSkip (DependsOn ''tmpdir'')]
                   else do { r \<leftarrow> check_replica_https N genv W pin; ret [dns, r] })
                })
           }))"

section \<open>The origins\<close>

record origin_outcome =
  oo_name :: string
  oo_host_key :: string
  oo_has_credential :: bool
  oo_answer :: "git_error + origin_verdict"

fun probe_entries ::
  "net_lib \<Rightarrow> (string \<Rightarrow> string option) \<Rightarrow> 'w net_world \<Rightarrow> config_report \<Rightarrow> (string \<times> local_entry) list \<Rightarrow>
   (('w, net_step) sys, origin_outcome list) state" where
  "probe_entries N genv W rep [] = ret []"
| "probe_entries N genv W rep ((name, e) # rest) = do {
     r \<leftarrow> logged NOrigin (origin_probe (nl_lower N) genv (nw_origins W) e);
     os \<leftarrow> probe_entries N genv W rep rest;
     ret (\<lparr>oo_name = name,
           oo_host_key = (case find (\<lambda>p. pr_name p = name) (cr_providers rep) of None \<Rightarrow> [] | Some p \<Rightarrow> pr_host_key p),
           oo_has_credential = (le_auth e \<noteq> []), oo_answer = r\<rparr> # os)
   }"

text \<open>\<open>ProbeOrigins\<close>: a configuration with a problem, or no file, is not probed.\<close>

definition probe_origins ::
  "net_lib \<Rightarrow> (string \<Rightarrow> string option) \<Rightarrow> 'w net_world \<Rightarrow> loaded_report \<Rightarrow> (('w, net_step) sys, origin_outcome list) state" where
  "probe_origins N genv W c =
     (if cr_missing (lr_report c) \<or> has_issues c then ret []
      else probe_entries N genv W (lr_report c)
        (map (\<lambda>n. (n, the (fmlookup (lr_entries c) n))) (sorted_keys (lr_entries c))))"

definition origin_result :: "bool \<Rightarrow> origin_outcome \<Rightarrow> check_result" where
  "origin_result late o1 =
     (let cid = ''origin:'' @ oo_name o1; who = oo_host_key o1 in
      if late \<and> (case oo_answer o1 of Inl e \<Rightarrow> True | Inr v \<Rightarrow> v = OriginDown) then judge cid CheckSkip (OutOfTime who)
      else (case oo_answer o1 of
         Inl e \<Rightarrow> judge cid CheckFail (ProbeBroken who e)
       | Inr OriginReachable \<Rightarrow> judge cid CheckPass (OriginAnswered who (oo_has_credential o1))
       | Inr OriginDenied \<Rightarrow> judge cid CheckFail (OriginRejected who (oo_has_credential o1))
       | Inr OriginDown \<Rightarrow> judge cid CheckFail (OriginAway who)))"

fun origin_results :: "'w net_world \<Rightarrow> origin_outcome list \<Rightarrow> (('w, net_step) sys, check_result list) state" where
  "origin_results W [] = ret []"
| "origin_results W (o1 # os) = do {
     late \<leftarrow> effect (nw_over W) NOver;
     rs \<leftarrow> origin_results W os;
     ret (origin_result late o1 # rs)
   }"

definition check_origins ::
  "net_lib \<Rightarrow> (string \<Rightarrow> string option) \<Rightarrow> 'w net_world \<Rightarrow> loaded_report \<Rightarrow> (('w, net_step) sys, check_result list) state" where
  "check_origins N genv W c =
     (if cr_providers (lr_report c) = [] then ret [judge ''origins'' CheckWarn NoProviders]
      else do { os \<leftarrow> probe_origins N genv W c; origin_results W os })"

section \<open>The command\<close>

definition origin_checks ::
  "net_lib \<Rightarrow> (string \<Rightarrow> string option) \<Rightarrow> 'w net_world \<Rightarrow> loaded_report \<Rightarrow> check_result \<Rightarrow> check_result \<Rightarrow> check_result \<Rightarrow>
   (('w, net_step) sys, check_result list) state" where
  "origin_checks N genv W c cfg git tmp =
     (if ck_status cfg = CheckFail then ret [judge ''origins'' CheckSkip (DependsOn ''provider-config'')]
      else if ck_status git \<noteq> CheckPass then ret [judge ''origins'' CheckSkip (DependsOn ''git'')]
      else if ck_status tmp \<noteq> CheckPass then ret [judge ''origins'' CheckSkip (DependsOn ''tmpdir'')]
      else check_origins N genv W c)"

text \<open>\<open>genv\<close> is the environment as git's is made from it: a variable may be unset.\<close>

definition run_preflight_checks ::
  "net_lib \<Rightarrow> 'k mldsa \<Rightarrow> (string \<Rightarrow> string option) \<Rightarrow> 'w net_world \<Rightarrow> host_process \<Rightarrow> (('w, net_step) sys, check_result list) state" where
  "run_preflight_checks N M genv W P = do {
     git \<leftarrow> logged NHost (check_git (nw_host W));
     tmp \<leftarrow> logged NHost (check_temp_dir (nw_host W) P);
     (let replica = check_replica_host (ld_lib (nl_deps N)) P in do {
       key \<leftarrow> logged NHost (check_key_file M (nw_host W) P);
       token \<leftarrow> logged NHost (check_token_setting (nw_host W) P (snd key));
       gateway \<leftarrow> check_gateway N W (hp_getenv P);
       rep \<leftarrow> check_replica N genv W (hp_getenv P) replica git tmp;
       c \<leftarrow> logged NHost (read_config (nl_deps N) (nw_host W) (default_config_path (hp_getenv P)));
       (let cfg = check_provider_config c in do {
         origins \<leftarrow> origin_checks N genv W c cfg git tmp;
         ret ([git, tmp, replica, check_connector_id P, fst key, token] @ gateway @ rep @ [cfg] @ origins)
       })
     })
   }"

text \<open>\<open>tally\<close>, what the command returns (how many checks failed), and the document's \<open>ok\<close>.\<close>

definition tally :: "check_result list \<Rightarrow> check_status \<Rightarrow> nat" where
  "tally rs s = length (filter (\<lambda>r. ck_status r = s) rs)"

definition preflight_error :: "check_result list \<Rightarrow> nat option" where
  "preflight_error rs = (let n = tally rs CheckFail in if 0 < n then Some n else None)"

definition status_text :: "check_status \<Rightarrow> string" where
  "status_text s = (case s of CheckPass \<Rightarrow> ''pass'' | CheckWarn \<Rightarrow> ''warn'' | CheckFail \<Rightarrow> ''fail'' | CheckSkip \<Rightarrow> ''skip'')"

record preflight_doc =
  pd_version :: int
  pd_ok :: bool
  pd_counts :: "nat \<times> nat \<times> nat \<times> nat"
  pd_checks :: "(string \<times> string \<times> detail) list"

definition preflight_doc_of :: "check_result list \<Rightarrow> preflight_doc" where
  "preflight_doc_of rs =
     \<lparr>pd_version = 1, pd_ok = (tally rs CheckFail = 0),
      pd_counts = (tally rs CheckPass, tally rs CheckWarn, tally rs CheckFail, tally rs CheckSkip),
      pd_checks = map (\<lambda>r. (ck_id r, status_text (ck_status r), ck_detail r)) rs\<rparr>"

end
