(* ===== verification/PreflightSafety.thy ===== *)
theory PreflightSafety
  imports PreflightNet
begin

text \<open>
  What the preflight command may do and what its verdict says: it changes nothing but files of its own, its one request to
  the gateway and the one to the replica carry no credential, origins are probed with their own credentials and only for a
  configuration the connector would accept, and its local checks foretell whether the connector starts.
\<close>

section \<open>The verdict foretells the start\<close>

lemma in_world_return: "fst (in_world (State_Monad.bind m (\<lambda>r. ret (f r))) w) = f (fst (in_world m w))"
  by (simp add: in_world_def State_Monad.bind_def State_Monad.return_def split: prod.splits)

lemma in_world_ret: "fst (in_world (ret r) w) = r"
  by (simp add: in_world_def State_Monad.return_def)

definition start_refused :: "start_fault + start_config \<Rightarrow> bool" where
  "start_refused r \<longleftrightarrow> (case r of Inl f \<Rightarrow> True | Inr c \<Rightarrow> False)"

lemma start_refused_simps [simp]: "start_refused (Inl f)" "\<not> start_refused (Inr c)"
  by (simp_all add: start_refused_def)

lemma load_start_refused:
  "start_refused (fst (in_world (load_start_config S F getenv home) w)) \<longleftrightarrow>
     (case parse_gateway_url S getenv (getenv ''GATEWAY_URL'') of Inl e \<Rightarrow> True | Inr u \<Rightarrow> False) \<or>
     getenv ''CONNECTOR_ID'' = [] \<or> key_file_or (getenv ''KEY_FILE'') home ''key'' = None \<or>
     getenv ''CA_BUNDLE'' \<noteq> [] \<and> \<not> rooted (getenv ''CA_BUNDLE'') \<or>
     (case snd (fst (in_world (resolve_registration_token F getenv) w)) of Inl e \<Rightarrow> True | Inr t \<Rightarrow> False)"
  by (auto simp: load_start_config_def in_world_return in_world_ret Let_def split: sum.split option.split)

text \<open>
  In one world, the load of the configuration fails exactly when a check of the URL, the identifier, the key path or the token
  fails, the token judged as for a connector that is enrolled, or when its CA bundle has a relative path, which no check
  looks at.
\<close>

lemma checks_foretell_load:
  "start_refused (fst (in_world (load_start_config (nl_start N) F (hp_getenv P) (hp_home P)) w)) \<longleftrightarrow>
     ck_status (check_gateway_url N (hp_getenv P)) = CheckFail \<or> ck_status (check_connector_id P) = CheckFail \<or>
     git_key_file_path (hp_getenv P) (hp_home P) = None \<or>
     fst (token_verdict P Enrolled (fst (in_world (check_registration_token F (hp_getenv P)) w))) = CheckFail \<or>
     hp_getenv P ''CA_BUNDLE'' \<noteq> [] \<and> \<not> rooted (hp_getenv P ''CA_BUNDLE'')"
proof -
  have key: "git_key_file_path g h = None \<longleftrightarrow> key_file_or (g ''KEY_FILE'') h ''key'' = None" for g h
    by (simp add: git_key_file_path_def key_file_or_def)
  have token: "fst (token_verdict P Enrolled (fst (in_world (check_registration_token F g) w))) = CheckFail \<longleftrightarrow>
      (case snd (fst (in_world (resolve_registration_token F g) w)) of Inl e \<Rightarrow> True | Inr t \<Rightarrow> False)" for g
    by (simp add: check_registration_token_def in_world_return token_verdict_def split: sum.split)
  have url: "ck_status (check_gateway_url N g) = CheckFail \<longleftrightarrow>
      (case parse_gateway_url (nl_start N) g (g ''GATEWAY_URL'') of Inl e \<Rightarrow> True | Inr u \<Rightarrow> False)" for g
    by (simp add: check_gateway_url_def split: sum.split)
  show ?thesis
    unfolding load_start_refused key token url by (auto simp: check_connector_id_def)
qed

section \<open>Nothing is changed\<close>

text \<open>
  The host's files: a temporary directory or file may be made and filled, and only what was made is removed; no directory
  is created, no mode changed, and what is written are zeros and a fixed word.
\<close>

fun host_allowed :: "host_step list \<Rightarrow> host_step \<Rightarrow> bool" where
  "host_allowed before (HDir (DirTemp d p r)) \<longleftrightarrow> prefix temp_home_prefix p"
| "host_allowed before (HDir (DirMade d m e)) \<longleftrightarrow> False"
| "host_allowed before (HDir (DirRemoved d e)) \<longleftrightarrow> False"
| "host_allowed before (HDir (TreeRemoved p e)) \<longleftrightarrow>
     list_ex (\<lambda>y. case y of HDir (DirTemp d pat (Inr q)) \<Rightarrow> q = p | _ \<Rightarrow> False) before"
| "host_allowed before (HDir (FileMade p e)) \<longleftrightarrow>
     list_ex (\<lambda>y. case y of HDir (DirTemp d pat (Inr q)) \<Rightarrow> p = path_join q ''probe'' | _ \<Rightarrow> False) before"
| "host_allowed before (HDir (FileWritten p b e)) \<longleftrightarrow> b = ''probe'' \<and> HDir (FileMade p None) \<in> set before"
| "host_allowed before (HKey (KFile (FChmod m b))) \<longleftrightarrow> False"
| "host_allowed before (HKey (KDisk (DCreate d p r))) \<longleftrightarrow> p = ''.keycheck-*.tmp''"
| "host_allowed before (HKey (KDisk (DWrite n b e))) \<longleftrightarrow> set b \<subseteq> {CHR 0x00} \<and>
     list_ex (\<lambda>y. case y of HKey (KDisk (DCreate d p (Inr q))) \<Rightarrow> q = n | _ \<Rightarrow> False) before"
| "host_allowed before (HKey (KDisk (DClose n e))) \<longleftrightarrow> True"
| "host_allowed before (HKey (KDisk (DRemove n e))) \<longleftrightarrow>
     list_ex (\<lambda>y. case y of HKey (KDisk (DCreate d p (Inr q))) \<Rightarrow> q = n | _ \<Rightarrow> False) before"
| "host_allowed before (HKey (KDisk x)) \<longleftrightarrow> False"
| "host_allowed before (HToken (FChmod m b)) \<longleftrightarrow> False"
| "host_allowed before (HConfig (FChmod m b)) \<longleftrightarrow> False"
| "host_allowed before _ \<longleftrightarrow> True"

abbreviation hands_off :: "host_step list \<Rightarrow> bool" where
  "hands_off es \<equiv> \<forall>before. each_step host_allowed before es"

lemma root_check_hands_off: "emits (logged HDir (check_temp_root_writable W dir)) (\<lambda>r es. hands_off es)"
  unfolding check_temp_root_writable_def probe_file_def
  by (intro emits_logged dir_intros) (auto simp: preflight_probe_prefix_def)

lemma walk_hands_off: "walk dir r es \<Longrightarrow> each_step host_allowed before (map HDir es)"
proof (induction dir r es arbitrary: before rule: walk.induct)
  case (2 dir r x es)
  then show ?case
    by (cases x) (auto simp: neq_Nil_conv split: sum.splits list.splits dir_step.splits if_splits,
      metis each_step.simps(1) list.exhaust list.simps(8))
qed simp

lemma can_create_hands_off: "emits (logged HDir (can_create_dir W dir)) (\<lambda>r es. hands_off es)"
  by (rule emits_logged, rule emits_weaken [OF can_create_dir_ends]) (auto intro: walk_hands_off)

lemma check_temp_dir_hands_off: "emits (check_temp_dir W P) (\<lambda>r es. hands_off es)"
  unfolding check_temp_dir_def
  by (intro emits_prod emits_option emits_if emits_return emits_then [OF root_check_hands_off]
        emits_then [OF can_create_hands_off]) auto

lemma key_load_hands_off: "emits (logged HKey (key_load M W path)) (\<lambda>r es. hands_off es)"
  unfolding key_load_def key_read_open_def
  by (intro emits_logged key_intros) auto

lemma key_probe_hands_off: "emits (logged (HKey \<circ> KDisk) (probe_writable M W path)) (\<lambda>r es. hands_off es)"
  unfolding probe_writable_def Let_def
  by (intro emits_logged key_intros) auto

lemma check_key_dir_hands_off: "emits (check_key_dir M W path) (\<lambda>r es. hands_off es)"
proof -
  have stat: "emits (logged HDir (effect (dw_stat D d) (DirStat d))) (\<lambda>r es. hands_off es)" for D d
    by (intro emits_logged emits_effect) simp
  show ?thesis
    unfolding check_key_dir_def Let_def
    by (intro emits_then [OF stat] emits_sum emits_if emits_return emits_prod emits_then [OF key_probe_hands_off]
          emits_then [OF can_create_hands_off]) auto
qed

lemma check_key_file_hands_off: "emits (check_key_file M W P) (\<lambda>r es. hands_off es)"
  unfolding check_key_file_def
  by (intro emits_option emits_sum emits_return emits_bind emits_effect emits_then [OF key_load_hands_off]
        emits_then [OF check_key_dir_hands_off]) auto

lemma check_token_hands_off: "emits (check_token_setting W P st) (\<lambda>r es. hands_off es)"
  unfolding check_token_setting_def check_registration_token_def resolve_registration_token_def
    read_registration_token_file_def read_token_open_def
  by (intro emits_bind emits_logged start_intros) auto

lemma no_chmod_hands_off:
  "each_step (load_safe d False path) before es \<Longrightarrow> each_step host_allowed before' (map HConfig es)"
proof (induction es arbitrary: before before')
  case (Cons x es)
  then show ?case by (cases x) (auto simp: load_safe_def file_safe.simps chmod_allowed_def)
qed simp

lemma read_config_hands_off: "emits (read_config d W path) (\<lambda>r es. hands_off es)"
proof -
  have load: "emits (logged HConfig (load_config_mode F d path False)) (\<lambda>r es. hands_off es)" for F :: "'a file_world"
    by (rule emits_logged, rule emits_weaken [OF load_config_emits]) (auto intro: no_chmod_hands_off)
  then show ?thesis
    unfolding read_config_def by (intro emits_bind emits_effect emits_weaken [OF load] emits_return) auto
qed

lemma check_git_hands_off: "emits (check_git W) (\<lambda>r es. hands_off es)"
  unfolding check_git_def by (intro emits_bind emits_effect emits_return) simp

section \<open>What the network sees\<close>

text \<open>
  Of the steps of a run: those of the host as above; the one request to the gateway has scheme, host and path of its URL,
  no user information, query or fragment, and no header but the agent's name; the request to the replica is that of an
  entry without credential; an origin is probed with the entry of a configuration that was read without a problem.
  \<open>sent_credential\<close> is the header an entry gives, and a probe of it is one \<open>git ls-remote\<close> of its URL that reads back
  the hardening settings and, for that URL, that header, from an environment that holds nothing else of the connector.
\<close>

fun of_host :: "net_step list \<Rightarrow> host_step list" where
  "of_host [] = []"
| "of_host (NHost x # es) = x # of_host es"
| "of_host (x # es) = of_host es"

definition sent_credential :: "local_entry \<Rightarrow> string list" where
  "sent_credential e =
     (if le_auth e = ''bearer'' then [''Authorization: Bearer '' @ le_token e]
      else if le_auth e = ''basic'' then [''Authorization: Basic '' @ base64 (le_username e @ '':'' @ le_token e)]
      else [])"

definition probed_with :: "(string \<Rightarrow> string option) \<Rightarrow> local_entry \<Rightarrow> origin_step \<Rightarrow> bool" where
  "probed_with genv e x \<longleftrightarrow>
     (case x of
        OGit argv env home r \<Rightarrow>
          argv = [''git'', ''ls-remote'', ''--'', le_base_url e, ''HEAD''] \<and>
          git_config_of env =
            [(''http.followRedirects'', ''false''), (''credential.helper'', []), (''core.askPass'', [])] @
            map (\<lambda>h. (''http.'' @ trim_suffix (le_base_url e) ''/'' @ ''/.extraHeader'', h)) (sent_credential e) \<and>
          prefix (git_base_env genv home) env \<and>
          list_all (prefix ''GIT_CONFIG_'') (drop (length (git_base_env genv home)) env)
      | _ \<Rightarrow> True)"

text \<open>The entry of a request without credential.\<close>

abbreviation bare_entry :: "string \<Rightarrow> local_entry" where
  "bare_entry url \<equiv> \<lparr>le_base_url = url, le_auth = [], le_username = [], le_token = [], le_token_file = []\<rparr>"

definition net_allowed ::
  "net_lib \<Rightarrow> (string \<Rightarrow> string option) \<Rightarrow> (local_entry \<Rightarrow> bool) \<Rightarrow> (string \<Rightarrow> string) \<Rightarrow> net_step list \<Rightarrow> net_step \<Rightarrow> bool" where
  "net_allowed N genv known getenv before x \<longleftrightarrow>
     (case x of
        NHost h \<Rightarrow> host_allowed (of_host before) h
      | NHead q r \<Rightarrow>
          (case parse_gateway_url (nl_start N) getenv (getenv ''GATEWAY_URL'') of
             Inl e \<Rightarrow> False
           | Inr u \<Rightarrow>
               hq_scheme q = (if gu_scheme u = ''wss'' then ''https'' else ''http'') \<and> hq_host q = gu_host u \<and>
               hq_path q = gu_path u \<and> hq_user q = None \<and> hq_query q = [] \<and> hq_fragment q = [] \<and>
               hq_headers q = [(''User-Agent'', ''mkonnect-gitsync-preflight/'' @ nl_version N)])
      | NReplica y \<Rightarrow>
          (case parse_replica_host (ld_lib (nl_deps N)) (getenv ''GIT_SYNC_REPLICA_HOST'') of
             Inl e \<Rightarrow> False | Inr pin \<Rightarrow> probed_with genv (bare_entry (''https://'' @ pin)) y)
      | NOrigin y \<Rightarrow> (\<exists>e. known e \<and> probed_with genv e y)
      | _ \<Rightarrow> True)"

lemma of_host_append [simp]: "of_host (es @ fs) = of_host es @ of_host fs"
  by (induction es rule: of_host.induct) auto

lemma net_allowed_host:
  "each_step host_allowed (of_host before) es \<Longrightarrow> each_step (net_allowed N genv known g) before (map NHost es)"
  by (induction es arbitrary: before) (simp_all add: net_allowed_def)

lemma host_part:
  assumes "emits m (\<lambda>r es. hands_off es)"
  shows "emits (logged NHost m) (\<lambda>r es. \<forall>before. each_step (net_allowed N genv known g) before es)"
  by (rule emits_logged, rule emits_weaken [OF assms]) (simp add: net_allowed_host)

lemma config_vars_named: "list_all (prefix ''GIT_CONFIG_'') (config_vars i cfg)"
  by (induction i cfg rule: config_vars.induct) auto

lemma probe_step_with: "probed_with genv e (OGit (probe_argv e) (probe_env genv e home) home r)"
proof -
  have "git_config_of (probe_env genv e home) = cred_config (le_base_url e) (le_auth e) (le_username e) (le_token e)"
    unfolding probe_env_def by (rule git_reads_config) (simp add: cred_config_def hardening_def)
  then show ?thesis
    by (simp add: probed_with_def probe_argv_def cred_config_def hardening_def header_key_def sent_credential_def)
       (simp add: probe_env_def git_config_env_def config_vars_named)
qed

lemma origin_probe_with:
  "emits (origin_probe lower genv W e) (\<lambda>r es. list_all (probed_with genv e) es)"
  unfolding origin_probe_def
  by (intro emits_bind emits_effect emits_sum emits_return) (simp_all add: probe_step_with, simp_all add: probed_with_def)

lemma net_allowed_over: "net_allowed N genv known g before (NOver b)"
  by (simp add: net_allowed_def)

lemma gateway_url_scheme:
  "parse_gateway_url S g raw = Inr u \<Longrightarrow> gateway_scheme u = (if gu_scheme u = ''wss'' then ''https'' else ''http'')"
  by (auto simp: parse_gateway_url_def gateway_scheme_def split: if_splits option.splits)

lemma gateway_part:
  "emits (check_gateway N W g) (\<lambda>r es. \<forall>before. each_step (net_allowed N genv known g) before es)"
proof (cases "parse_gateway_url (nl_start N) g (g ''GATEWAY_URL'')")
  case (Inr u)
  have url: "q = gateway_request N u \<Longrightarrow> emits (check_gateway_conn W q proxy hp plain)
      (\<lambda>r es. \<forall>before. each_step (net_allowed N genv known g) before es)" for q proxy hp plain
    unfolding check_gateway_conn_def by (intro emits_bind emits_effect emits_return) (simp add: net_allowed_def Inr gateway_request_def gateway_url_scheme [OF Inr])
  have dns: "emits (check_name_resolves N W cid h proxy) (\<lambda>r es. \<forall>before. each_step (net_allowed N genv known g) before es)"
    for cid h proxy
    unfolding check_name_resolves_def
    by (intro emits_option emits_if emits_bind emits_effect emits_return) (simp_all add: net_allowed_def)
  show ?thesis
    unfolding check_gateway_def Inr sum.case check_gateway_reach_def Let_def
    apply (intro emits_bind emits_if emits_return emits_effect emits_option emits_weaken [OF dns] emits_weaken [OF url])
    apply (auto simp: net_allowed_def)
    done
qed (simp add: check_gateway_def emits_return)

lemma replica_part:
  "emits (check_replica N genv W g replica git tmp) (\<lambda>r es. \<forall>before. each_step (net_allowed N genv known g) before es)"
proof (cases "parse_replica_host (ld_lib (nl_deps N)) (g ''GIT_SYNC_REPLICA_HOST'')")
  case (Inr pin)
  have probe: "emits (logged NReplica (origin_probe (nl_lower N) genv V (replica_entry pin)))
      (\<lambda>r es. \<forall>before. each_step (net_allowed N genv known g) before es)" for V :: "'a origin_ops"
  proof (rule emits_logged, rule emits_weaken [OF origin_probe_with], intro allI)
    fix before es
    assume "list_all (probed_with genv (replica_entry pin)) es"
    then show "each_step (net_allowed N genv known g) before (map NReplica es)"
      unfolding replica_entry_def by (induction es arbitrary: before) (simp_all add: net_allowed_def Inr)
  qed
  have https: "emits (check_replica_https N genv W pin) (\<lambda>r es. \<forall>before. each_step (net_allowed N genv known g) before es)"
    unfolding check_replica_https_def
    by (intro emits_then [OF probe] emits_bind emits_effect emits_return) (simp add: net_allowed_def)
  have dns: "emits (replica_dns N W g pin proxy) (\<lambda>r es. \<forall>before. each_step (net_allowed N genv known g) before es)" for proxy
    unfolding replica_dns_def check_name_resolves_def
    by (intro emits_option emits_if emits_bind emits_effect emits_return) (simp_all add: net_allowed_def)
  show ?thesis
    unfolding check_replica_def Inr sum.case
    apply (intro emits_bind emits_if emits_return emits_effect emits_option emits_weaken [OF dns] emits_weaken [OF https])
    apply (auto simp: net_allowed_def)
    done
qed (simp add: check_replica_def emits_return)

text \<open>Entries of a configuration read without a problem.\<close>

definition known_entry :: "net_lib \<Rightarrow> 'w net_world \<Rightarrow> host_process \<Rightarrow> local_entry \<Rightarrow> bool" where
  "known_entry N W P e \<longleftrightarrow>
     (\<exists>w name. let c = fst (in_world (read_config (nl_deps N) (nw_host W) (default_config_path (hp_getenv P))) w) in
        \<not> has_issues c \<and> \<not> cr_missing (lr_report c) \<and> fmlookup (lr_entries c) name = Some e)"

lemma origins_part:
  assumes c: "c = fst (in_world (read_config (nl_deps N) (nw_host W) (default_config_path (hp_getenv P))) w)"
  shows "emits (check_origins N genv W c)
    (\<lambda>r es. \<forall>before. each_step (net_allowed N genv (known_entry N W P) g) before es)"
proof -
  have entries: "emits (probe_entries N genv W rep nes)
      (\<lambda>r es. \<forall>before. each_step (net_allowed N genv (known_entry N W P) g) before es)"
    if "\<forall>(n, e) \<in> set nes. known_entry N W P e" for rep nes
    using that
  proof (induction nes)
    case (Cons ne nes)
    obtain n e where ne: "ne = (n, e)" by force
    have e: "known_entry N W P e" and nes: "\<forall>(n, e) \<in> set nes. known_entry N W P e" using Cons.prems ne by auto
    have probe: "emits (logged NOrigin (origin_probe (nl_lower N) genv (nw_origins W) e))
        (\<lambda>r es. \<forall>before. each_step (net_allowed N genv (known_entry N W P) g) before es)"
    proof (rule emits_logged, rule emits_weaken [OF origin_probe_with], intro allI)
      fix before es
      assume "list_all (probed_with genv e) es"
      then show "each_step (net_allowed N genv (known_entry N W P) g) before (map NOrigin es)"
        using e by (induction es arbitrary: before) (auto simp: net_allowed_def)
    qed
    show ?case
      unfolding ne probe_entries.simps
      by (intro emits_then [OF probe] emits_then [OF Cons.IH [OF nes]] emits_return) simp
  qed (simp add: emits_return)
  have results: "emits (origin_results W os)
      (\<lambda>r es. \<forall>before. each_step (net_allowed N genv (known_entry N W P) g) before es)" for os
  proof (induction os)
    case (Cons o1 os)
    then show ?case
      unfolding origin_results.simps
      by (intro emits_bind emits_effect emits_weaken [OF Cons.IH] emits_return) (simp add: net_allowed_over)
  qed (simp add: emits_return)
  have one: "known_entry N W P (the (fmlookup (lr_entries c) n))"
    if "\<not> cr_missing (lr_report c)" "\<not> has_issues c" "n \<in> set (sorted_keys (lr_entries c))" for n
  proof -
    note c_ok = that
    then obtain e where e: "fmlookup (lr_entries c) n = Some e" by (auto simp: sorted_keys_def fmlookup_dom'_iff)
    with c_ok show ?thesis
      unfolding known_entry_def Let_def by (intro exI [of _ w] exI [of _ n]) (simp add: c [symmetric])
  qed
  have "\<forall>(n, e) \<in> set (map (\<lambda>n. (n, the (fmlookup (lr_entries c) n))) (sorted_keys (lr_entries c))). known_entry N W P e"
    if "\<not> cr_missing (lr_report c)" "\<not> has_issues c"
    using one [OF that] by auto
  then show ?thesis
    unfolding check_origins_def probe_origins_def
    apply (intro emits_if emits_return emits_bind)
      apply simp
     apply (intro emits_weaken [OF results], simp)
    apply (rule emits_weaken [OF entries])
     apply simp
    apply (rule emits_weaken [OF results])
    apply simp
    done
qed


text \<open>What is probed has a credential the load checked, and the requests made of URLs carry none.\<close>

lemma known_entries_usable: "known_entry N W P e \<Longrightarrow> validate_entry (ld_lib (nl_deps N)) e = None"
proof -
  have read: "emits (read_config d V path) (\<lambda>c es. \<exists>hks. entries_valid (ld_lib d) hks (lr_entries c))" for d path
    and V :: "'a host_world"
  proof -
    have "emits (logged HConfig (load_config_mode F d path False)) (\<lambda>r es. entries_valid (ld_lib d) (lc_host_keys r) (lc_entries r))"
      for F :: "'a file_world"
      by (rule emits_logged, rule emits_weaken [OF load_config_emits]) simp
    note load = this
    show ?thesis
      unfolding read_config_def by (intro emits_bind emits_effect emits_weaken [OF load] emits_return) auto
  qed
  assume "known_entry N W P e"
  then obtain w name where e: "fmlookup (lr_entries (fst (in_world (read_config (nl_deps N) (nw_host W)
      (default_config_path (hp_getenv P))) w))) name = Some e"
    by (auto simp: known_entry_def Let_def)
  obtain c es where run: "in_world (read_config (nl_deps N) (nw_host W) (default_config_path (hp_getenv P))) w = (c, es)" by force
  from in_worldD [OF read run] obtain hks where "entries_valid (ld_lib (nl_deps N)) hks (lr_entries c)" by blast
  moreover have "fmlookup (lr_entries c) name = Some e" using e by (simp add: run)
  ultimately have "validate_settings (ld_lib (nl_deps N)) e = None \<and> validate_token e = None"
    unfolding entries_valid_def accepted_def by blast
  then show ?thesis by (simp add: validate_entry_def)
qed

section \<open>The verdict\<close>

text \<open>The command succeeds, and its document says so, exactly when no check fails; the counts are those of the list.\<close>

lemma preflight_verdict_exact:
  "(preflight_error rs = None \<longleftrightarrow> list_all (\<lambda>r. ck_status r \<noteq> CheckFail) rs) \<and>
   (pd_ok (preflight_doc_of rs) \<longleftrightarrow> preflight_error rs = None) \<and>
   (case pd_counts (preflight_doc_of rs) of (p, w, f, s) \<Rightarrow> p + w + f + s = length (pd_checks (preflight_doc_of rs)))"
proof -
  have "tally rs CheckPass + tally rs CheckWarn + tally rs CheckFail + tally rs CheckSkip = length rs"
  proof (induction rs)
    case (Cons r rs)
    then show ?case by (cases "ck_status r") (simp_all add: tally_def)
  qed (simp add: tally_def)
  then show ?thesis
    by (auto simp: preflight_error_def preflight_doc_of_def tally_def Let_def filter_empty_conv list_all_iff)
qed

end
