(* ===== verification/RunStateFile.thy ===== *)
theory RunStateFile
  imports AtomicSave Engine
begin

text \<open>
  The run state on disk (\<open>gitsync/runstate.go\<close>, \<open>gitsync/runstateread.go\<close>): what the loader accepts, the
  removal of left-over temporary files, and the write of a snapshot. The JSON encoding is a parameter.
  The logging is left out.
\<close>

section \<open>The file's form\<close>

text \<open>
  \<open>sj_file\<close> decodes the version and the raw entries, \<open>sj_record\<close> one raw entry; \<open>sj_encode\<close> is the
  encoding of a version and the records.
\<close>

record state_json =
  sj_file :: "string \<Rightarrow> (int \<times> (string, string) fmap) option"
  sj_record :: "string \<Rightarrow> run_record option"
  sj_encode :: "int \<Rightarrow> (string, run_record) fmap \<Rightarrow> string option"

text \<open>
  Decoding what was encoded gives the version and, by each id, a raw entry that decodes to its record, when the strings
  are UTF-8.
\<close>

definition records_text :: "(string, run_record) fmap \<Rightarrow> bool" where
  "records_text rs \<longleftrightarrow>
     fmpred (\<lambda>rid r. valid_utf8 rid \<and> valid_utf8 (rr_target r) \<and> valid_utf8 (origin_default_branch r)) rs"

definition state_json_ok :: "state_json \<Rightarrow> bool" where
  "state_json_ok J \<longleftrightarrow> (\<forall>v rs data. records_text rs \<longrightarrow> sj_encode J v rs = Some data \<longrightarrow>
     data \<noteq> [] \<and> (\<exists>raws. sj_file J data = Some (v, raws) \<and> fmdom raws = fmdom rs \<and>
       (\<forall>rid raw. fmlookup raws rid = Some raw \<longrightarrow> sj_record J raw = fmlookup rs rid)))"

definition run_state_file :: string where
  "run_state_file = ''run-state.json''"

definition run_state_temp_prefix :: string where
  "run_state_temp_prefix = ''.run-state.json.tmp-''"

definition run_state_version :: int where
  "run_state_version = 1"

definition max_run_state_bytes :: nat where
  "max_run_state_bytes = 8388608"

datatype run_state_problem =
    RunStateOK | RunStateMissing | RunStateEmpty | RunStateCorrupt | RunStateUnsupported
  | RunStateTooManyEntries | RunStateOversized | RunStateWorldWritable | RunStateNotRegular | RunStateUnreadable

text \<open>\<open>newRunStateStore\<close>: the directory and the file in it.\<close>

record run_state_store =
  rst_root :: string
  rst_path :: string

definition new_run_state_store :: "string \<Rightarrow> run_state_store" where
  "new_run_state_store dir = \<lparr>rst_root = dir, rst_path = path_join dir run_state_file\<rparr>"

section \<open>Reading\<close>

text \<open>The entry under one id that the loop of \<open>read\<close> keeps, if any.\<close>

definition accept_entry :: "state_json \<Rightarrow> string \<Rightarrow> string \<Rightarrow> run_record option" where
  "accept_entry J rid raw =
     (if \<not> valid_repo_id rid then None
      else (case sj_record J raw of None \<Rightarrow> None | Some r \<Rightarrow> if valid_record r then Some r else None))"

definition kept_ids :: "state_json \<Rightarrow> (string, string) fmap \<Rightarrow> string list" where
  "kept_ids J raws =
     filter (\<lambda>rid. accept_entry J rid (the (fmlookup raws rid)) \<noteq> None) (sorted_keys raws)"

definition accept_entries :: "state_json \<Rightarrow> (string, string) fmap \<Rightarrow> (string, run_record) fmap \<times> nat" where
  "accept_entries J raws =
     (fmap_of_list (map (\<lambda>rid. (rid, the (accept_entry J rid (the (fmlookup raws rid))))) (kept_ids J raws)),
      length (sorted_keys raws) - length (kept_ids J raws))"

definition parse_state :: "state_json \<Rightarrow> string \<Rightarrow> (string, run_record) fmap \<times> nat \<times> run_state_problem" where
  "parse_state J data =
     (if max_run_state_bytes < length data then (fmempty, 0, RunStateOversized)
      else if data = [] then (fmempty, 0, RunStateEmpty)
      else (case sj_file J data of
              None \<Rightarrow> (fmempty, 0, RunStateCorrupt)
            | Some (v, raws) \<Rightarrow>
                (if v \<noteq> run_state_version then (fmempty, 0, RunStateUnsupported)
                 else if max_config_repos < length (sorted_keys raws) then (fmempty, 0, RunStateTooManyEntries)
                 else (case accept_entries J raws of (rs, dropped) \<Rightarrow> (rs, dropped, RunStateOK)))))"

definition symlink_loop :: os_error where
  "symlink_loop = OtherErrno ''ELOOP''"

text \<open>The part of \<open>read\<close> on the open descriptor.\<close>

definition read_state_open ::
  "state_json \<Rightarrow> 'w file_world \<Rightarrow> (('w, file_step) sys, (string, run_record) fmap \<times> nat \<times> run_state_problem) state" where
  "read_state_open J W = do {
     st \<leftarrow> effect (fw_stat W) FStat;
     (case st of
        Inl e \<Rightarrow> ret (fmempty, 0, RunStateUnreadable)
      | Inr i \<Rightarrow>
          (if \<not> si_regular i then ret (fmempty, 0, RunStateNotRegular)
           else if si_mode i AND 2 \<noteq> 0 then ret (fmempty, 0, RunStateWorldWritable)
           else if int max_run_state_bytes < si_size i then ret (fmempty, 0, RunStateOversized)
           else do {
             b \<leftarrow> effect (fw_read W (max_run_state_bytes + 1)) FRead;
             ret (case b of Inl e \<Rightarrow> (fmempty, 0, RunStateUnreadable) | Inr data \<Rightarrow> parse_state J data)
           }))
   }"

definition read_state ::
  "state_json \<Rightarrow> 'w file_world \<Rightarrow> run_state_store \<Rightarrow>
   (('w, file_step) sys, (string, run_record) fmap \<times> nat \<times> run_state_problem) state" where
  "read_state J W s = do {
     e \<leftarrow> effect (fw_open W (rst_path s)) (FOpened (rst_path s));
     (case e of
        Some er \<Rightarrow>
          ret (fmempty, 0, if er = NoEnt then RunStateMissing
                           else if er = symlink_loop then RunStateNotRegular else RunStateUnreadable)
      | None \<Rightarrow> do {
          r \<leftarrow> read_state_open J W;
          _ \<leftarrow> effect (fw_close W) FClosed;
          ret r
        })
   }"

text \<open>\<open>readRunStateAt\<close>, for the operator's command: the targets are cleared.\<close>

definition read_run_state_at ::
  "state_json \<Rightarrow> 'w file_world \<Rightarrow> string \<Rightarrow>
   (('w, file_step) sys, (string, run_record) fmap \<times> nat \<times> run_state_problem) state" where
  "read_run_state_at J W dir = do {
     r \<leftarrow> read_state J W (new_run_state_store dir);
     ret (case r of (rs, dropped, problem) \<Rightarrow> (fmmap (\<lambda>rec. rec\<lparr>rr_target := []\<rparr>) rs, dropped, problem))
   }"

section \<open>Sweeping and loading\<close>

text \<open>A directory entry: its name and whether it is a regular file.\<close>

record 'w state_world =
  sw_file :: "'w file_world"
  sw_disk :: "'w disk"
  sw_read_dir :: "string \<Rightarrow> 'w \<Rightarrow> (os_error + (string \<times> bool) list) \<times> 'w"

datatype state_step = SFile file_step | SDisk disk_step | SReadDir string "os_error + (string \<times> bool) list"

fun sweep_entries :: "'w disk \<Rightarrow> string \<Rightarrow> (string \<times> bool) list \<Rightarrow> (('w, disk_step) sys, unit) state" where
  "sweep_entries D dir [] = ret ()"
| "sweep_entries D dir ((n, regular) # es) = do {
     _ \<leftarrow> (if regular \<and> prefix run_state_temp_prefix n
          then effect (dk_remove D (path_join dir n)) (DRemove (path_join dir n))
          else ret None);
     sweep_entries D dir es
   }"

definition sweep_temps :: "'w state_world \<Rightarrow> string \<Rightarrow> (('w, state_step) sys, unit) state" where
  "sweep_temps W dir = do {
     es \<leftarrow> effect (sw_read_dir W dir) (SReadDir dir);
     (case es of Inl e \<Rightarrow> ret () | Inr listed \<Rightarrow> logged SDisk (sweep_entries (sw_disk W) dir listed))
   }"

definition load_state ::
  "state_json \<Rightarrow> 'w state_world \<Rightarrow> run_state_store \<Rightarrow> (('w, state_step) sys, (string, run_record) fmap) state" where
  "load_state J W s = do {
     _ \<leftarrow> sweep_temps W (rst_root s);
     r \<leftarrow> logged SFile (read_state J (sw_file W) s);
     ret (case r of (rs, dropped, problem) \<Rightarrow> if problem = RunStateOK then rs else fmempty)
   }"

section \<open>Writing\<close>

definition encode_run_state :: "state_json \<Rightarrow> (string, run_record) fmap \<Rightarrow> string option" where
  "encode_run_state J rs =
     (if max_config_repos < length (sorted_keys rs) then None
      else (case sj_encode J run_state_version rs of
              None \<Rightarrow> None
            | Some data \<Rightarrow> if max_run_state_bytes < length data then None else Some data))"

text \<open>\<open>save\<close> once the records are encoded. Whatever fails before the rename removes the temporary file.\<close>

definition fill_temp ::
  "'w disk \<Rightarrow> string \<Rightarrow> string \<Rightarrow> string \<Rightarrow> (('w, disk_step) sys, save_error option) state" where
  "fill_temp D path data n =
     try_or (effect (dk_close D n) (DClose n)) (effect (dk_chmod D n owner_only) (DChmod n owner_only)) AtChmod
       (try_or (effect (dk_close D n) (DClose n)) (effect (dk_write D n data) (DWrite n data)) AtWrite
         (try_or (effect (dk_close D n) (DClose n)) (effect (dk_sync D n) (DSync n)) AtSync
           (try_step (effect (dk_close D n) (DClose n)) AtClose
             (try_step (effect (dk_rename D n path) (DRename n path)) AtRename (ret None)))))"

definition install_state ::
  "'w disk \<Rightarrow> string \<Rightarrow> string \<Rightarrow> string \<Rightarrow> (('w, disk_step) sys, save_error option) state" where
  "install_state D dir path data =
     try_step (effect (dk_mkdir D dir 0x1C0) (DMkdir dir 0x1C0)) AtMkdir (do {
       f \<leftarrow> effect (dk_create D dir (run_state_temp_prefix @ ''*'')) (DCreate dir (run_state_temp_prefix @ ''*''));
       (case f of
          Inl e \<Rightarrow> ret (Some (AtCreate, e))
        | Inr n \<Rightarrow> do {
            r \<leftarrow> fill_temp D path data n;
            (case r of
               None \<Rightarrow> try_step (effect (dk_sync_dir D dir) (DSyncDir dir)) AtDirSync (ret None)
             | Some e \<Rightarrow> do { _ \<leftarrow> effect (dk_remove D n) (DRemove n); ret (Some e) })
          })
     })"

definition too_large :: os_error where
  "too_large = OtherErrno ''run state exceeds the size the loader accepts''"

definition save_state ::
  "state_json \<Rightarrow> 'w disk \<Rightarrow> run_state_store \<Rightarrow> (string, run_record) fmap \<Rightarrow>
   (('w, disk_step) sys, save_error option) state" where
  "save_state J D s rs =
     (case encode_run_state J rs of
        None \<Rightarrow> ret (Some (AtEncode, too_large))
      | Some data \<Rightarrow> install_state D (rst_root s) (rst_path s) data)"

section \<open>What a read gives\<close>

lemma accept_entries_lookup:
  "fmlookup (fst (accept_entries J raws)) rid =
     (case fmlookup raws rid of None \<Rightarrow> None | Some raw \<Rightarrow> accept_entry J rid raw)"
proof -
  have m: "map_of (map (\<lambda>k. (k, f k)) ks) rid = (if rid \<in> set ks then Some (f rid) else None)" for f :: "string \<Rightarrow> run_record" and ks
    by (induction ks) auto
  show ?thesis
    by (auto simp: accept_entries_def fmap_of_list.rep_eq fmlookup_of_list m kept_ids_def fmlookup_dom'_iff
        split: option.splits)
qed

definition usable_entry :: "string \<Rightarrow> run_record \<Rightarrow> bool" where
  "usable_entry rid r \<longleftrightarrow> valid_repo_id rid \<and> valid_record r"

lemma accept_entry_usable: "accept_entry J rid raw = Some r \<Longrightarrow> usable_entry rid r"
  by (auto simp: accept_entry_def usable_entry_def split: if_splits option.splits)

lemma kept_ids_length: "length (kept_ids J raws) \<le> length (sorted_keys raws)"
  by (simp add: kept_ids_def)

text \<open>Every record of a read is usable, there are few enough of them, and a problem leaves none.\<close>

definition sane_records :: "(string, run_record) fmap \<times> nat \<times> run_state_problem \<Rightarrow> bool" where
  "sane_records r \<longleftrightarrow> (case r of (rs, dropped, problem) \<Rightarrow>
     fmpred usable_entry rs \<and> length (sorted_keys rs) + dropped \<le> max_config_repos \<and>
     (if problem = RunStateOK then True else rs = fmempty \<and> dropped = 0))"

lemma sane_nothing: "problem \<noteq> RunStateOK \<Longrightarrow> sane_records (fmempty, 0, problem)"
  by (simp add: sane_records_def)

lemma parse_state_sane: "sane_records (parse_state J data)"
proof -
  have "fmpred usable_entry (fst (accept_entries J raws))" for raws
    by (auto simp: fmpred_iff accept_entries_lookup dest: accept_entry_usable split: option.splits)
  moreover have "length (sorted_keys (fst (accept_entries J raws))) \<le> length (kept_ids J raws)" for raws
  proof -
    have "set (sorted_keys (fst (accept_entries J raws))) = set (kept_ids J raws)"
      by (auto simp: fmlookup_dom'_iff accept_entries_lookup kept_ids_def split: option.splits)
    then show ?thesis by (metis distinct_sorted_keys distinct_card card_length)
  qed
  ultimately have "sane_records (case accept_entries J raws of (rs, dropped) \<Rightarrow> (rs, dropped, RunStateOK))"
    if "length (sorted_keys raws) \<le> max_config_repos" for raws
  proof -
    obtain rs dropped where a: "accept_entries J raws = (rs, dropped)" by force
    then have "dropped = length (sorted_keys raws) - length (kept_ids J raws)" by (simp add: accept_entries_def)
    then show ?thesis
      using \<open>\<And>raws. fmpred usable_entry (fst (accept_entries J raws))\<close> [of raws] that kept_ids_length [of J raws]
        \<open>\<And>raws. length (sorted_keys (fst (accept_entries J raws))) \<le> length (kept_ids J raws)\<close> [of raws]
      by (simp add: a sane_records_def)
  qed
  then show ?thesis
    by (cases "sj_file J data") (auto simp: parse_state_def sane_nothing)
qed

lemmas state_intros = emits_bind emits_effect emits_return emits_sum emits_if emits_option emits_let

lemma read_state_sane: "emits (read_state J W s) (\<lambda>r es. sane_records r)"
  unfolding read_state_def read_state_open_def
  by (intro state_intros) (auto intro!: sane_nothing parse_state_sane split: sum.splits)

text \<open>The bytes read are those of one regular file that not anyone can write, judged on its descriptor.\<close>

lemma read_state_vetted:
  "emits (read_state J W s) (\<lambda>r es. \<forall>b. FRead b \<in> set es \<longrightarrow>
     (\<exists>i. take 2 es = [FOpened (rst_path s) None, FStat (Inr i)] \<and> si_regular i \<and> si_mode i AND 2 = 0 \<and>
        si_size i \<le> int max_run_state_bytes))"
  unfolding read_state_def read_state_open_def by (intro state_intros) auto

section \<open>What a write leaves\<close>

lemma install_state_rule:
  "emits (install_state D dir path data) (\<lambda>r es. each_step (install_allowed True path data) [] es)"
  unfolding install_state_def fill_temp_def save_defs by (intro state_intros) simp_all

lemma install_state_outcome:
  "emits (install_state D dir path data)
     (\<lambda>r es. renamed path es \<longleftrightarrow> installed r)"
  unfolding install_state_def fill_temp_def save_defs by (intro state_intros) auto

lemma install_state_cleaned: "emits (install_state D dir path data) (\<lambda>r es. cleaned path es)"
  unfolding install_state_def fill_temp_def save_defs by (intro state_intros) (simp_all add: cleaned_def)

interpretation state_file: atomic_save "install_state D dir" True for D :: "'w disk" and dir :: string
  by unfold_locales (rule install_state_rule, rule install_state_outcome)

text \<open>The strings of usable records are UTF-8.\<close>

lemma ascii_utf8: "list_all (\<lambda>c. byte c < 128) s \<Longrightarrow> valid_utf8 s"
  by (induction s) (simp_all add: Let_def rune_error_def)

lemma ascii_classes: "is_alpha c \<Longrightarrow> byte c < 128" "is_digit c \<Longrightarrow> byte c < 128" "is_hex_digit c \<Longrightarrow> byte c < 128"
  by (auto simp: is_alpha_def is_lower_def is_upper_def is_digit_def is_hex_digit_def is_hex_lower_def)

lemma usable_text: "usable_entry rid r \<Longrightarrow> valid_utf8 rid \<and> valid_utf8 (rr_target r) \<and> valid_utf8 (origin_default_branch r)"
proof -
  assume u: "usable_entry rid r"
  have "list_all (\<lambda>c. is_alpha c \<or> is_digit c \<or> c \<in> set ''._-'') rid" "list_all is_hex_digit (rr_target r)"
    using u by (simp_all add: usable_entry_def valid_repo_id_def valid_record_def)
  then have "list_all (\<lambda>c. byte c < 128) rid" "list_all (\<lambda>c. byte c < 128) (rr_target r)"
    by (auto elim!: list.pred_mono_strong dest: ascii_classes)
  moreover have "valid_utf8 (origin_default_branch r)"
    using u by (auto simp: usable_entry_def valid_record_def valid_branch_name_def)
  ultimately show ?thesis by (simp add: ascii_utf8)
qed

lemma usable_records_text: "fmpred usable_entry rs \<Longrightarrow> records_text rs"
  by (auto simp: records_text_def fmpred_iff dest: usable_text)

lemma encoded_parses:
  assumes J: "state_json_ok J" and rs: "fmpred usable_entry rs" and enc: "encode_run_state J rs = Some data"
  shows "parse_state J data = (rs, 0, RunStateOK)"
proof -
  from enc have small: "length (sorted_keys rs) \<le> max_config_repos" "length data \<le> max_run_state_bytes"
    and sj: "sj_encode J run_state_version rs = Some data"
    by (auto simp: encode_run_state_def split: if_splits option.splits)
  from J sj usable_records_text [OF rs] obtain raws where raws: "data \<noteq> []" "sj_file J data = Some (run_state_version, raws)" "fmdom raws = fmdom rs"
    "\<And>rid raw. fmlookup raws rid = Some raw \<Longrightarrow> sj_record J raw = fmlookup rs rid"
    unfolding state_json_ok_def by blast
  have keys: "sorted_keys raws = sorted_keys rs" by (simp add: sorted_keys_def raws(3))
  have each: "accept_entry J rid raw = fmlookup rs rid" if l: "fmlookup raws rid = Some raw" for rid raw
  proof -
    have "rid |\<in>| fmdom rs" using l raws(3) by (metis fmdomI)
    then obtain r where r: "fmlookup rs rid = Some r" by (auto simp: fmlookup_dom_iff)
    moreover have "usable_entry rid r" using rs r by (simp add: fmpred_iff)
    ultimately show ?thesis using raws(4) [OF l] by (simp add: accept_entry_def usable_entry_def)
  qed
  have "fmlookup (fst (accept_entries J raws)) rid = fmlookup rs rid" for rid
  proof (cases "fmlookup raws rid")
    case None
    then have "fmlookup rs rid = None" using raws(3) by (metis fmdom_notD fmdom_notI)
    then show ?thesis using None by (simp add: accept_entries_lookup)
  qed (simp add: accept_entries_lookup each)
  then have all: "fst (accept_entries J raws) = rs" by (simp add: fmap_ext)
  have "kept_ids J raws = sorted_keys raws"
  proof -
    have "accept_entry J rid (the (fmlookup raws rid)) \<noteq> None" if "rid \<in> set (sorted_keys raws)" for rid
    proof -
      from that obtain raw where raw: "fmlookup raws rid = Some raw" by (auto simp: fmlookup_dom'_iff)
      have "rid \<in> set (sorted_keys rs)" using that keys by simp
      then show ?thesis using each [OF raw] raw by (auto simp: fmlookup_dom'_iff)
    qed
    then show ?thesis by (simp add: kept_ids_def)
  qed
  then have "accept_entries J raws = (rs, 0)" using all by (auto simp: accept_entries_def)
  then show ?thesis using small raws(1,2) keys by (simp add: parse_state_def)
qed

end
