(* ===== verification/StatusCli.thy ===== *)
theory StatusCli
  imports ProviderCli RunStateFile
begin

text \<open>
  The git-sync connector's \<open>status\<close> command (\<open>gitsync/cli/status.go\<close>): the pin, the providers and the sync state of the
  repositories as the run state file has it, as text or as one JSON document. The texts of a timestamp and of a
  duration, the tables and the encoder are Go's and parameters.
\<close>

section \<open>Where the run state is\<close>

definition default_mirrors_root :: "(string \<Rightarrow> string) \<Rightarrow> string" where
  "default_mirrors_root getenv =
     (if getenv ''GIT_SYNC_MIRRORS_DIR'' \<noteq> [] then getenv ''GIT_SYNC_MIRRORS_DIR''
      else path_join (path_dir (default_config_path getenv)) ''mirrors'')"

text \<open>\<open>absRoot\<close>, with the working directory if it is known.\<close>

definition abs_root :: "string option \<Rightarrow> string \<Rightarrow> string" where
  "abs_root cwd dir =
     (if rooted dir then path_clean dir else (case cwd of None \<Rightarrow> dir | Some wd \<Rightarrow> path_join wd dir))"

section \<open>Texts\<close>

record status_lib =
  tl_rfc3339 :: "gtime \<Rightarrow> string"
  tl_duration :: "duration \<Rightarrow> string"
  tl_int :: "int \<Rightarrow> string"
  tl_usage :: string

fun problem_word :: "run_state_problem \<Rightarrow> string" where
  "problem_word RunStateOK = []"
| "problem_word RunStateMissing = ''missing''"
| "problem_word RunStateEmpty = ''empty''"
| "problem_word RunStateCorrupt = ''corrupt''"
| "problem_word RunStateUnsupported = ''unsupported_version''"
| "problem_word RunStateTooManyEntries = ''too_many_entries''"
| "problem_word RunStateOversized = ''oversized''"
| "problem_word RunStateWorldWritable = ''world_writable''"
| "problem_word RunStateNotRegular = ''not_regular''"
| "problem_word RunStateUnreadable = ''unreadable''"

fun problem_text :: "run_state_problem \<Rightarrow> string" where
  "problem_text RunStateEmpty = ''the file is empty''"
| "problem_text RunStateCorrupt = ''the file is not valid run state''"
| "problem_text RunStateUnsupported = ''the file is from an unsupported version''"
| "problem_text RunStateTooManyEntries = ''the file has more repositories than the connector accepts''"
| "problem_text RunStateOversized = ''the file is larger than the connector accepts''"
| "problem_text RunStateWorldWritable = ''the file is writable by anyone''"
| "problem_text RunStateNotRegular = ''the path is not a regular file''"
| "problem_text _ = ''the file cannot be used''"

definition relative_time :: "gtime \<Rightarrow> gtime \<Rightarrow> string" where
  "relative_time now t =
     (let age = time_sub now t in
      if age < 0 then ''in the future''
      else if age < second then ''just now''
      else if age < minute then itoa (nat (age div second)) @ ''s ago''
      else if age < hour then itoa (nat (age div minute)) @ ''m ago''
      else if age < 48 * hour then itoa (nat (age div hour)) @ ''h ago''
      else itoa (nat (age div (24 * hour))) @ ''d ago'')"

definition when_text :: "status_lib \<Rightarrow> bool \<Rightarrow> gtime \<Rightarrow> gtime \<Rightarrow> string" where
  "when_text T absolute now t =
     (if is_zero_time t then ''-'' else if absolute then tl_rfc3339 T t else relative_time now t)"

definition duration_text :: "status_lib \<Rightarrow> int option \<Rightarrow> string" where
  "duration_text T ms = (case ms of None \<Rightarrow> ''-'' | Some n \<Rightarrow> tl_duration T (n * 1000000))"

definition count_text :: "status_lib \<Rightarrow> int option \<Rightarrow> string" where
  "count_text T n = (case n of None \<Rightarrow> ''-'' | Some k \<Rightarrow> tl_int T k)"

definition or_dash :: "string \<Rightarrow> string" where
  "or_dash s = (if s = [] then ''-'' else s)"

definition record_row :: "status_lib \<Rightarrow> bool \<Rightarrow> gtime \<Rightarrow> string \<Rightarrow> run_record \<Rightarrow> string list" where
  "record_row T absolute now rid r =
     [''  '' @ rid, when_text T absolute now (last_attempt_at r),
      (if is_zero_time (last_success_at r) then ''never'' else when_text T absolute now (last_success_at r)),
      duration_text T (duration_ms r), count_text T (rr_refs_pushed r),
      when_text T absolute now (newest_origin_commit_at r), or_dash (origin_default_branch r)]"

definition state_footer :: string where
  "state_footer =
     newline # ''  As last recorded by the connector after each finished attempt: it can lag by a few seconds, omits'' @
     newline # ''  attempts in progress and repositories not yet attempted, and may list repositories no longer'' @
     newline # ''  configured. LAST SUCCESS is kept across failed attempts, so a LAST ATTEMPT later than it means the'' @
     newline # ''  latest attempt did not succeed (use --absolute to compare; times are whole seconds).'' @ [newline]"

text \<open>\<open>now\<close> is the clock, read when the table is made.\<close>

definition run_state_lines ::
  "pcli_lib \<Rightarrow> status_lib \<Rightarrow> bool \<Rightarrow> gtime \<Rightarrow> (string, run_record) fmap \<times> nat \<times> run_state_problem \<Rightarrow> string list" where
  "run_state_lines L T absolute now st = (case st of (records, dropped, problem) \<Rightarrow>
     (newline # ''=== Repository sync state ==='' @ [newline]) #
     (if problem = RunStateMissing then
        [''  No finished attempt recorded in the directory this command resolved. If the connector has run, check that GIT_SYNC_MIRRORS_DIR (or GIT_SYNC_CONFIG_FILE) matches its environment.'' @ [newline]]
      else if problem = RunStateUnreadable then
        [''  Run state unreadable ('' @ problem_word problem @ ''): the file cannot be read by this user. Run this command as the user the connector runs as.'' @ [newline]]
      else if problem \<noteq> RunStateOK then
        [''  Run state unusable ('' @ problem_word problem @ ''): '' @ problem_text problem @
           ''. A connector starting with this file ignores it; a running one replaces it on its next save.'' @ [newline]]
      else
        (if 0 < dropped then [''  Ignored invalid run state entries: '' @ itoa dropped @ ''.'' @ [newline]] else []) @
        (if sorted_keys records = [] then [''  (no repositories recorded)'' @ [newline]]
         else [pl_table L ([''  REPOSITORY'', ''LAST ATTEMPT'', ''LAST SUCCESS'', ''DURATION'', ''REFS PUSHED'', ''NEWEST ORIGIN COMMIT'', ''ORIGIN DEFAULT BRANCH'']
                 # map (\<lambda>rid. record_row T absolute now rid (the (fmlookup records rid))) (sorted_keys records)),
               state_footer])))"

section \<open>The document\<close>

record repo_doc =
  rd_repo_id :: string
  rd_last_attempt_at :: "string option"
  rd_last_success_at :: "string option"
  rd_duration_ms :: "int option"
  rd_refs_pushed :: "int option"
  rd_newest_origin_commit_at :: "string option"
  rd_origin_default_branch :: "string option"

record status_doc =
  sd_version :: int
  sd_status :: string
  sd_dropped :: nat
  sd_repositories :: "repo_doc list"

definition rfc3339_field :: "status_lib \<Rightarrow> gtime \<Rightarrow> string option" where
  "rfc3339_field T t = (if is_zero_time t then None else Some (tl_rfc3339 T t))"

definition repo_doc_of :: "status_lib \<Rightarrow> string \<Rightarrow> run_record \<Rightarrow> repo_doc" where
  "repo_doc_of T rid r =
     \<lparr>rd_repo_id = rid, rd_last_attempt_at = rfc3339_field T (last_attempt_at r),
      rd_last_success_at = rfc3339_field T (last_success_at r), rd_duration_ms = duration_ms r,
      rd_refs_pushed = rr_refs_pushed r, rd_newest_origin_commit_at = rfc3339_field T (newest_origin_commit_at r),
      rd_origin_default_branch = (if origin_default_branch r = [] then None else Some (origin_default_branch r))\<rparr>"

definition status_doc_of :: "status_lib \<Rightarrow> (string, run_record) fmap \<times> nat \<times> run_state_problem \<Rightarrow> status_doc" where
  "status_doc_of T st = (case st of (records, dropped, problem) \<Rightarrow>
     \<lparr>sd_version = 1, sd_status = (if problem \<noteq> RunStateOK then problem_word problem else ''ok''), sd_dropped = dropped,
      sd_repositories = map (\<lambda>rid. repo_doc_of T rid (the (fmlookup records rid))) (sorted_keys records)\<rparr>)"

section \<open>The command\<close>

definition status_flags :: "string \<Rightarrow> flag_kind option" where
  "status_flags n = (if n = ''json'' \<or> n = ''absolute'' then Some BoolFlag else None)"

text \<open>The environment of one command: its variables, its working directory and the clock.\<close>

record process =
  pc_getenv :: "string \<Rightarrow> string"
  pc_cwd :: "string option"
  pc_now :: gtime

definition read_run_state ::
  "state_json \<Rightarrow> 'w pcli_world \<Rightarrow> process \<Rightarrow> (('w, pcli_step) sys, (string, run_record) fmap \<times> nat \<times> run_state_problem) state" where
  "read_run_state J W P =
     logged PFile (read_run_state_at J (pi_files W) (abs_root (pc_cwd P) (default_mirrors_root (pc_getenv P))))"

datatype status_error = StatusFlags flag_error | StatusArguments string | StatusProviders pcli_error

definition print_status ::
  "pcli_lib \<Rightarrow> status_lib \<Rightarrow> 'w pcli_world \<Rightarrow> process \<Rightarrow> bool \<Rightarrow> (string, run_record) fmap \<times> nat \<times> run_state_problem \<Rightarrow>
   (('w, pcli_step) sys, status_error option) state" where
  "print_status L T W P absolute st = do {
     e \<leftarrow> print_providers L W (pc_getenv P);
     _ \<leftarrow> say W (run_state_lines L T absolute (pc_now P) st);
     (case e of
        Some er \<Rightarrow> ret (Some (StatusProviders er))
      | None \<Rightarrow> do {
          _ \<leftarrow> say W [newline # ''Enrollment status and failure reasons are visible in the Memento portal.'' @ [newline]];
          ret None
        })
   }"

definition run_sync_status ::
  "pcli_lib \<Rightarrow> status_lib \<Rightarrow> state_json \<Rightarrow> (status_doc \<Rightarrow> string) \<Rightarrow> 'w pcli_world \<Rightarrow> process \<Rightarrow> string list \<Rightarrow>
   (('w, pcli_step) sys, status_error option) state" where
  "run_sync_status L T J encode W P args =
     (case parse_flags status_flags args of
        Inl e \<Rightarrow>
          (if e = HelpAsked then do { _ \<leftarrow> say W [tl_usage T @ [newline]]; ret None } else ret (Some (StatusFlags e)))
      | Inr (asg, rest) \<Rightarrow>
          (if rest \<noteq> [] then ret (Some (StatusArguments (hd rest)))
           else do {
             st \<leftarrow> read_run_state J W P;
             (if flag_bool asg ''json'' then do { _ \<leftarrow> say W [encode (status_doc_of T st)]; ret None }
              else print_status L T W P (flag_bool asg ''absolute'') st)
           }))"

section \<open>What the command shows\<close>

text \<open>The largest duration a record can have does not overflow the nanoseconds of a \<open>time.Duration\<close>.\<close>

lemma shown_duration_in_range: "valid_record r \<Longrightarrow> duration_ms r = Some ms \<Longrightarrow> 0 \<le> ms * 1000000 \<and> ms * 1000000 \<le> max_duration"
  by (auto simp: valid_record_def max_duration_def)

lemma print_providers_log:
  "emits (print_providers L W getenv) (\<lambda>r es. save_steps es = [] \<and>
     (\<exists>ls. said es = pin_lines L (getenv ''GIT_SYNC_REPLICA_HOST'') @ ls \<and> (r \<noteq> None \<longrightarrow> ls = [])))"
  unfolding print_providers_def
  by (intro emits_then [OF print_lines_log] emits_then [OF open_providers_log] emits_sum emits_prod emits_return) auto

text \<open>
  The records shown are usable ones read from the run state file as the connector reads it, in the order of their ids,
  without their targets; a file that cannot be used shows none and says why. The providers' configuration never hides
  them: it is reported after them.
\<close>

definition clear_target :: "run_record \<Rightarrow> run_record" where
  "clear_target r = r\<lparr>rr_target := []\<rparr>"

lemma read_run_state_log:
  "emits (read_run_state J W P) (\<lambda>r es. save_steps es = [] \<and> said es = [] \<and>
     (\<exists>rs dropped problem. sane_records (rs, dropped, problem) \<and> r = (fmmap clear_target rs, dropped, problem)))"
proof -
  have "emits (read_run_state_at J F dir)
      (\<lambda>r es. \<exists>rs dropped problem. sane_records (rs, dropped, problem) \<and> r = (fmmap clear_target rs, dropped, problem))"
    for F :: "'b file_world" and dir
    unfolding read_run_state_at_def
    by (intro emits_then [OF read_state_sane] emits_return) (auto simp: clear_target_def [abs_def] split: prod.splits)
  then show ?thesis
    unfolding read_run_state_def by (intro emits_logged) (simp add: emits_def)
qed

text \<open>In every world, the status command writes nothing, and shows, as its document or between the pin and
the rest of its text, exactly the records of one read of the run state file that are usable, without
their targets, whatever the provider configuration is.\<close>

theorem status_shows_run_state:
  "emits (run_sync_status L T J encode W P args) (\<lambda>r es. save_steps es = [] \<and>
     (case parse_flags status_flags args of
        Inr (asg, []) \<Rightarrow> (\<exists>rs dropped problem.
          sane_records (rs, dropped, problem) \<and>
          (let shown = (fmmap clear_target rs, dropped, problem) in
           if flag_bool asg ''json'' then r = None \<and> said es = [encode (status_doc_of T shown)]
           else (\<exists>before after. said es = pin_lines L (pc_getenv P ''GIT_SYNC_REPLICA_HOST'') @ before @
             run_state_lines L T (flag_bool asg ''absolute'') (pc_now P) shown @ after)))
      | _ \<Rightarrow> set (said es) \<subseteq> {tl_usage T @ [newline]}))"
proof -
  have embed: "\<exists>before after. ls @ x @ y = before @ x @ after" "\<exists>before after. ls @ x = before @ x @ after"
      "\<exists>before after. x = before @ x @ after" "\<exists>before after. x @ y = before @ x @ after"
    for ls x y :: "string list"
    using append_Nil append_Nil2 by metis+
  have shown: "emits (print_status L T W P absolute st) (\<lambda>r es. save_steps es = [] \<and>
      (\<exists>before after. said es = pin_lines L (pc_getenv P ''GIT_SYNC_REPLICA_HOST'') @ before @
         run_state_lines L T absolute (pc_now P) st @ after))" for absolute st
    unfolding print_status_def
    by (intro emits_then [OF print_providers_log] emits_then [OF print_lines_log] emits_option emits_return)
       (auto intro: embed)
  show ?thesis
  proof (cases "parse_flags status_flags args")
    case (Inl e)
    then show ?thesis
      unfolding run_sync_status_def by (auto intro!: emits_return emits_bind emits_effect)
  next
    case (Inr v)
    obtain asg rest where v: "v = (asg, rest)" by force
    show ?thesis
    proof (cases rest)
      case Nil
      show ?thesis
        unfolding run_sync_status_def Inr v Nil sum.case prod.case list.case
        apply (simp only: simp_thms if_False)
        apply (intro emits_then [OF read_run_state_log] emits_if)
         apply (rule emits_then [OF print_lines_log], rule emits_return, force simp: Let_def)
        apply (rule emits_weaken [OF shown], force simp: Let_def)
        done
    next
      case (Cons a as)
      then show ?thesis
        unfolding run_sync_status_def Inr v by (auto intro!: emits_return)
    qed
  qed
qed

end
