(* ===== verification/Startup.thy ===== *)
theory Startup
  imports StartConfig ProviderCli TempHomes OriginProbe
begin

text \<open>
  The start of the git-sync connector (\<open>cmd/mkonnect-gitsync/main.go\<close>), up to the client that then runs: the
  configuration, the key file, the provider store, the check of git, the temporary root and its sweep, the
  identifier of the process. The log lines are left out, and the commands are those of the other theories.
\<close>

section \<open>The program\<close>

record 'w main_world =
  mw_command :: "string list \<Rightarrow> 'w \<Rightarrow> bool \<times> 'w"
  mw_files :: "'w file_world"
  mw_git_version :: "'w \<Rightarrow> string option \<times> 'w"
  mw_dirs :: "'w dir_world"
  mw_clock :: "'w \<Rightarrow> gtime \<times> 'w"
  mw_random :: "'w \<Rightarrow> string option \<times> 'w"

datatype main_step =
    MCommand "string list" bool | MStart file_step | MProviders file_step | MGit "string option" | MDir dir_step
  | MClock gtime | MRandom "string option"

datatype main_fault =
    StartFault start_fault | ProvidersFault config_issue | TempRootFault temp_fault | NoBootId | CommandFailed

text \<open>How the start ends: with a status, 0 or, after a fault, 1, or with what the client is made of.\<close>

datatype main_end =
    Exits "main_fault option" | Serves start_config provider_store string

definition stale_temp_home_age :: duration where
  "stale_temp_home_age = 60 * second"

text \<open>\<open>hex.EncodeToString\<close>, and \<open>randomBootID\<close> on the sixteen bytes it reads.\<close>

definition lower_hex :: "nat \<Rightarrow> char" where
  "lower_hex n = (if n < 10 then char_of (48 + n) else char_of (87 + n))"

definition encode_hex :: "string \<Rightarrow> string" where
  "encode_hex b = concat (map (\<lambda>c. [lower_hex (byte c div 16), lower_hex (byte c mod 16)]) b)"

definition random_boot_id :: "'w main_world \<Rightarrow> (('w, main_step) sys, string option) state" where
  "random_boot_id W = do { b \<leftarrow> effect (mw_random W) MRandom; ret (map_option encode_hex b) }"

text \<open>The temporary root and its sweep, which is best effort; the clock it reads is read before it.\<close>

definition prepare_temp_root :: "'w main_world \<Rightarrow> environ \<Rightarrow> (('w, main_step) sys, temp_fault option) state" where
  "prepare_temp_root W getenv = do {
     r \<leftarrow> logged MDir (temp_root getenv (mw_dirs W));
     (case r of
        Inl e \<Rightarrow> ret (Some e)
      | Inr dir \<Rightarrow> do {
          now \<leftarrow> effect (mw_clock W) MClock;
          _ \<leftarrow> logged MDir (sweep_stale_homes (mw_dirs W) now dir stale_temp_home_age);
          ret None
        })
   }"

definition open_store_at_start ::
  "load_deps \<Rightarrow> 'w main_world \<Rightarrow> environ \<Rightarrow> (('w, main_step) sys, (source list \<times> config_issue) + provider_store) state" where
  "open_store_at_start d W getenv = do {
     res \<leftarrow> logged MProviders (load_config (mw_files W) d (default_config_path getenv));
     ret (new_store d (default_config_path getenv) res)
   }"

definition start_serving :: "'w main_world \<Rightarrow> start_config \<Rightarrow> provider_store \<Rightarrow> (('w, main_step) sys, main_end) state" where
  "start_serving W cfg store = do {
     b \<leftarrow> random_boot_id W;
     ret (case b of None \<Rightarrow> Exits (Some NoBootId) | Some boot \<Rightarrow> Serves cfg store boot)
   }"

definition start_with :: "load_deps \<Rightarrow> 'w main_world \<Rightarrow> environ \<Rightarrow> start_config \<Rightarrow> (('w, main_step) sys, main_end) state" where
  "start_with d W getenv cfg = do {
     s \<leftarrow> open_store_at_start d W getenv;
     (case s of
        Inl f \<Rightarrow> ret (Exits (Some (ProvidersFault (snd f))))
      | Inr store \<Rightarrow> do {
          _ \<leftarrow> effect (mw_git_version W) MGit;
          t \<leftarrow> prepare_temp_root W getenv;
          (case t of
             Some e \<Rightarrow> ret (Exits (Some (TempRootFault e)))
           | None \<Rightarrow> start_serving W cfg store)
        })
   }"

definition start_gitsync ::
  "start_lib \<Rightarrow> load_deps \<Rightarrow> 'w main_world \<Rightarrow> environ \<Rightarrow> string option \<Rightarrow> (('w, main_step) sys, main_end) state" where
  "start_gitsync L d W getenv home = do {
     c \<leftarrow> logged MStart (load_start_config L (mw_files W) getenv home);
     (case c of
        Inl e \<Rightarrow> ret (Exits (Some (StartFault e)))
      | Inr cfg \<Rightarrow>
          start_with d W getenv (case git_key_file_path getenv home of None \<Rightarrow> cfg | Some k \<Rightarrow> cfg\<lparr>sc_key_file := k\<rparr>))
   }"

definition gitsync_main ::
  "start_lib \<Rightarrow> load_deps \<Rightarrow> 'w main_world \<Rightarrow> environ \<Rightarrow> string option \<Rightarrow> string list \<Rightarrow> (('w, main_step) sys, main_end) state" where
  "gitsync_main L d W getenv home args =
     (if take 1 args = [''connector'']
      then do {
        ok \<leftarrow> effect (mw_command W (drop 1 args)) (MCommand (drop 1 args));
        ret (Exits (if ok then None else Some CommandFailed))
      }
      else if take 1 args = [''--health''] then ret (Exits None)
      else start_gitsync L d W getenv home)"

section \<open>Reading the log\<close>

fun stage :: "main_step \<Rightarrow> nat" where
  "stage (MCommand args ok) = 0"
| "stage (MStart x) = 1"
| "stage (MProviders x) = 2"
| "stage (MGit v) = 3"
| "stage (MDir x) = 4"
| "stage (MClock t) = 4"
| "stage (MRandom b) = 5"

fun fault_stage :: "main_fault \<Rightarrow> nat" where
  "fault_stage CommandFailed = 0"
| "fault_stage (StartFault e) = 1"
| "fault_stage (ProvidersFault i) = 2"
| "fault_stage (TempRootFault e) = 4"
| "fault_stage NoBootId = 5"

definition start_steps :: "main_step list \<Rightarrow> file_step list" where
  "start_steps es = concat (map (\<lambda>x. case x of MStart y \<Rightarrow> [y] | _ \<Rightarrow> []) es)"

definition provider_steps :: "main_step list \<Rightarrow> file_step list" where
  "provider_steps es = concat (map (\<lambda>x. case x of MProviders y \<Rightarrow> [y] | _ \<Rightarrow> []) es)"

definition dir_steps :: "main_step list \<Rightarrow> dir_step list" where
  "dir_steps es = concat (map (\<lambda>x. case x of MDir y \<Rightarrow> [y] | _ \<Rightarrow> []) es)"

lemmas step_defs = start_steps_def provider_steps_def dir_steps_def

lemma steps_of [simp]:
  "start_steps (map MStart xs) = xs" "start_steps (map MProviders ys) = []" "start_steps (map MDir ds) = []"
  "provider_steps (map MStart xs) = []" "provider_steps (map MProviders ys) = ys" "provider_steps (map MDir ds) = []"
  "dir_steps (map MStart xs) = []" "dir_steps (map MProviders ys) = []" "dir_steps (map MDir ds) = ds"
  by (induction xs; induction ys; induction ds; simp add: step_defs)+

lemma steps_app [simp]:
  "start_steps (es @ fs) = start_steps es @ start_steps fs"
  "provider_steps (es @ fs) = provider_steps es @ provider_steps fs"
  "dir_steps (es @ fs) = dir_steps es @ dir_steps fs"
  by (simp_all add: step_defs)

lemma steps_one [simp]:
  "start_steps [] = []" "provider_steps [] = []" "dir_steps [] = []"
  "start_steps (MGit v # es) = start_steps es" "start_steps (MClock t # es) = start_steps es"
  "start_steps (MRandom b # es) = start_steps es"
  "provider_steps (MGit v # es) = provider_steps es" "provider_steps (MClock t # es) = provider_steps es"
  "provider_steps (MRandom b # es) = provider_steps es" "provider_steps (MCommand as k # es) = provider_steps es"
  "dir_steps (MGit v # es) = dir_steps es" "dir_steps (MClock t # es) = dir_steps es"
  "dir_steps (MRandom b # es) = dir_steps es" "dir_steps (MCommand as k # es) = dir_steps es"
  by (simp_all add: step_defs)

text \<open>The sweep is what follows the reading of the clock; nothing is removed before it but empty directories.\<close>

fun is_clock :: "main_step \<Rightarrow> bool" where
  "is_clock (MClock t) = True"
| "is_clock _ = False"

definition sweep_fine :: "gtime \<Rightarrow> dir_step list \<Rightarrow> bool" where
  "sweep_fine cutoff fs \<longleftrightarrow>
     (case fs of
        DirRead dir (Inr names) # rest \<Rightarrow> each_step (sweep_allowed dir names cutoff) [] fs
      | _ \<Rightarrow> trees_removed fs = 0)"

definition sweeps_stale :: "main_step list \<Rightarrow> bool" where
  "sweeps_stale es \<longleftrightarrow>
     trees_removed (dir_steps (takeWhile (\<lambda>x. \<not> is_clock x) es)) = 0 \<and>
     (case dropWhile (\<lambda>x. \<not> is_clock x) es of
        MClock now # fs \<Rightarrow> sweep_fine (now - stale_temp_home_age) (dir_steps fs)
      | _ \<Rightarrow> True)"

lemma no_clock [simp]:
  "list_all (\<lambda>x. \<not> is_clock x) (map MStart xs)" "list_all (\<lambda>x. \<not> is_clock x) (map MProviders ys)"
  "list_all (\<lambda>x. \<not> is_clock x) (map MDir ds)"
  by (simp_all add: list_all_iff)

lemma unswept: "list_all (\<lambda>x. \<not> is_clock x) es \<Longrightarrow> trees_removed (dir_steps es) = 0 \<Longrightarrow> sweeps_stale es"
proof -
  assume none: "list_all (\<lambda>x. \<not> is_clock x) es" "trees_removed (dir_steps es) = 0"
  then have all: "takeWhile (\<lambda>x. \<not> is_clock x) es = es" and nil: "dropWhile (\<lambda>x. \<not> is_clock x) es = []"
    by (simp_all add: list_all_iff)
  show ?thesis unfolding sweeps_stale_def all nil using none(2) by simp
qed

lemma swept_after:
  "list_all (\<lambda>x. \<not> is_clock x) es \<Longrightarrow> trees_removed (dir_steps es) = 0 \<Longrightarrow>
   sweep_fine (now - stale_temp_home_age) (dir_steps fs) \<Longrightarrow> sweeps_stale (es @ MClock now # fs)"
  by (simp add: sweeps_stale_def list_all_iff takeWhile_append dropWhile_append)

section \<open>The parts\<close>

text \<open>What the parts of a start found, each in the world it ran in.\<close>

definition config_read ::
  "start_lib \<Rightarrow> 'w main_world \<Rightarrow> environ \<Rightarrow> string option \<Rightarrow> start_fault + start_config \<Rightarrow> main_step list \<Rightarrow> bool" where
  "config_read L W getenv home c es \<longleftrightarrow>
     (\<exists>w. in_world (load_start_config L (mw_files W) getenv home) w = (c, start_steps es))"

definition providers_read :: "load_deps \<Rightarrow> 'w main_world \<Rightarrow> environ \<Rightarrow> loaded_config \<Rightarrow> main_step list \<Rightarrow> bool" where
  "providers_read d W getenv res es \<longleftrightarrow>
     (\<exists>w. in_world (load_config (mw_files W) d (default_config_path getenv)) w = (res, provider_steps es))"

text \<open>The root could be made, and a directory in it made and removed again; and nothing else was done.\<close>

definition root_usable :: "environ \<Rightarrow> dir_step list \<Rightarrow> bool" where
  "root_usable getenv ds \<longleftrightarrow>
     (\<exists>dir p. fst (temp_root_path getenv) = Some dir \<and>
        ds = [DirMade dir 0x1C0 None, DirTemp dir temp_home_prefix (Inr p), DirRemoved p None])"

definition accepted_config ::
  "start_lib \<Rightarrow> 'w main_world \<Rightarrow> environ \<Rightarrow> string option \<Rightarrow> start_config \<Rightarrow> main_step list \<Rightarrow> bool" where
  "accepted_config L W getenv home cfg es \<longleftrightarrow>
     (\<exists>cfg0 key. config_read L W getenv home (Inr cfg0) es \<and> git_key_file_path getenv home = Some key \<and>
        cfg = cfg0\<lparr>sc_key_file := key\<rparr> \<and> config_sound L getenv cfg (start_steps es))"

definition loaded_store :: "load_deps \<Rightarrow> 'w main_world \<Rightarrow> environ \<Rightarrow> provider_store \<Rightarrow> main_step list \<Rightarrow> bool" where
  "loaded_store d W getenv store es \<longleftrightarrow>
     (\<exists>res. providers_read d W getenv res es \<and> lc_issues res = [] \<and> ps_data store = lc_entries res \<and>
        store_ok (ld_lib d) (ps_data store))"

lemma start_read:
  "emits (logged MStart (load_start_config L (mw_files W) getenv home)) (\<lambda>r es. \<exists>xs. es = map MStart xs \<and>
     config_read L W getenv home r es \<and>
     (case r of Inl e \<Rightarrow> True | Inr cfg \<Rightarrow>
        config_sound L getenv cfg xs \<and> key_file_or (getenv ''KEY_FILE'') home ''key'' = Some (sc_key_file cfg)))"
proof (rule emits_logged_run)
  fix w r xs
  assume run: "in_world (load_start_config L (mw_files W) getenv home) w = (r, xs)"
  from in_worldD [OF load_start_config_sound run] run
  show "\<exists>ys. map MStart xs = map MStart ys \<and> config_read L W getenv home r (map MStart xs) \<and>
     (case r of Inl e \<Rightarrow> True | Inr cfg \<Rightarrow>
        config_sound L getenv cfg ys \<and> key_file_or (getenv ''KEY_FILE'') home ''key'' = Some (sc_key_file cfg))"
    by (intro exI [of _ xs]) (auto simp: config_read_def)
qed

lemma store_opened:
  "emits (open_store_at_start d W getenv) (\<lambda>r es. \<exists>ys. es = map MProviders ys \<and>
     each_step (load_safe d True (default_config_path getenv)) [] ys \<and>
     (case r of
        Inl f \<Rightarrow> \<exists>res rest. providers_read d W getenv res es \<and> lc_issues res = snd f # rest
      | Inr store \<Rightarrow> loaded_store d W getenv store es))"
proof -
  let ?path = "default_config_path getenv"
  have loaded: "emits (logged MProviders (load_config (mw_files W) d ?path)) (\<lambda>r es. \<exists>ys. es = map MProviders ys \<and>
      each_step (load_safe d True ?path) [] ys \<and> providers_read d W getenv r es \<and> store_ok (ld_lib d) (lc_entries r))"
  proof (rule emits_logged_run)
    fix w r ys
    assume run: "in_world (load_config (mw_files W) d ?path) w = (r, ys)"
    then have "load_in (mw_files W) d ?path True w = (r, ys)" by (simp add: in_world_def load_in_def load_config_def)
    from load_inD [OF this] loaded_entries_ok [OF this] run
    show "\<exists>zs. map MProviders ys = map MProviders zs \<and> each_step (load_safe d True ?path) [] zs \<and>
        providers_read d W getenv r (map MProviders ys) \<and> store_ok (ld_lib d) (lc_entries r)"
      by (intro exI [of _ ys]) (auto simp: providers_read_def)
  qed
  show ?thesis
    unfolding open_store_at_start_def
    by (rule emits_then [OF loaded], rule emits_return) (auto simp: new_store_def loaded_store_def split: list.splits)
qed

lemma temp_root_removes_none: "emits (temp_root getenv V) (\<lambda>r es. trees_removed es = 0)"
  unfolding temp_root_def resolve_temp_root_def
  by (intro dir_intros) (auto simp: trees_removed_def)

lemma temp_root_usable:
  "emits (temp_root getenv V) (\<lambda>r es. case r of Inl e \<Rightarrow> \<not> root_usable getenv es | Inr dir \<Rightarrow> root_usable getenv es)"
  unfolding temp_root_def resolve_temp_root_def
  by (intro dir_intros) (auto simp: root_usable_def split: sum.splits option.splits)

lemma sweep_is_fine: "emits (sweep_stale_homes V now dir age) (\<lambda>r es. sweep_fine (now - age) es)"
proof (rule emits_weaken [OF sweep_removes_stale_only], elim conjE)
  fix es
  assume ok: "case es of DirRead p (Inr names) # rest \<Rightarrow> each_step (sweep_allowed dir names (now - age)) [] es
    | _ \<Rightarrow> trees_removed es = 0 \<and> length es \<le> 1"
  show "sweep_fine (now - age) es"
  proof (cases "\<exists>p names rest. es = DirRead p (Inr names) # rest")
    case True
    then show ?thesis using ok by (auto simp: sweep_fine_def)
  next
    case False
    then have "trees_removed es = 0"
      using ok by (cases es; cases "hd es") (auto split: sum.splits)
    then show ?thesis using False by (cases es; cases "hd es") (auto simp: sweep_fine_def split: sum.splits)
  qed
qed

lemma temp_root_prepared:
  "emits (prepare_temp_root W getenv) (\<lambda>r es. \<exists>ds. trees_removed ds = 0 \<and>
     (case r of
        Some e \<Rightarrow> es = map MDir ds \<and> \<not> root_usable getenv ds
      | None \<Rightarrow> root_usable getenv ds \<and>
          (\<exists>now fs. es = map MDir ds @ MClock now # map MDir fs \<and> sweep_fine (now - stale_temp_home_age) fs)))"
proof -
  have root: "emits (logged MDir (temp_root getenv (mw_dirs W))) (\<lambda>r es. \<exists>ds. es = map MDir ds \<and> trees_removed ds = 0 \<and>
      (case r of Inl e \<Rightarrow> \<not> root_usable getenv ds | Inr dir \<Rightarrow> root_usable getenv ds))"
    by (rule emits_logged, rule emits_weaken [OF emits_conj [OF temp_root_removes_none temp_root_usable]]) auto
  have sweep: "emits (logged MDir (sweep_stale_homes (mw_dirs W) now dir age)) (\<lambda>r es. \<exists>fs. es = map MDir fs \<and> sweep_fine (now - age) fs)"
    for now dir age
    by (rule emits_logged, rule emits_weaken [OF sweep_is_fine]) auto
  show ?thesis
    unfolding prepare_temp_root_def
    by (rule emits_then [OF root], intro emits_sum emits_return emits_bind emits_effect emits_weaken [OF sweep]) auto
qed

section \<open>The start\<close>

text \<open>
  How a start ends, by what its parts found: with a fault, that of the first part that has one, and nothing of the later
  parts was done; or serving, when no part has a fault. git is asked for its version, and whatever it says the start goes on.
\<close>

definition ends_rightly ::
  "start_lib \<Rightarrow> load_deps \<Rightarrow> 'w main_world \<Rightarrow> environ \<Rightarrow> string option \<Rightarrow> main_end \<Rightarrow> main_step list \<Rightarrow> bool" where
  "ends_rightly L d W getenv home r es \<longleftrightarrow>
     (case r of
        Exits None \<Rightarrow> False
      | Exits (Some CommandFailed) \<Rightarrow> False
      | Exits (Some (StartFault e)) \<Rightarrow> config_read L W getenv home (Inl e) es \<and> list_all (\<lambda>x. stage x = 1) es
      | Exits (Some (ProvidersFault i)) \<Rightarrow>
          (\<exists>cfg. accepted_config L W getenv home cfg es) \<and>
          (\<exists>res rest. providers_read d W getenv res es \<and> lc_issues res = i # rest) \<and> list_all (\<lambda>x. stage x \<le> 2) es
      | Exits (Some (TempRootFault t)) \<Rightarrow>
          (\<exists>cfg. accepted_config L W getenv home cfg es) \<and> (\<exists>store. loaded_store d W getenv store es) \<and>
          \<not> root_usable getenv (dir_steps es) \<and> list_all (\<lambda>x. \<not> is_clock x \<and> stage x \<le> 4) es
      | Exits (Some NoBootId) \<Rightarrow>
          (\<exists>cfg. accepted_config L W getenv home cfg es) \<and> (\<exists>store. loaded_store d W getenv store es) \<and>
          root_usable getenv (dir_steps (takeWhile (\<lambda>x. \<not> is_clock x) es)) \<and> last es = MRandom None
      | Serves cfg store boot \<Rightarrow>
          accepted_config L W getenv home cfg es \<and> loaded_store d W getenv store es \<and>
          root_usable getenv (dir_steps (takeWhile (\<lambda>x. \<not> is_clock x) es)) \<and>
          (\<exists>b. last es = MRandom (Some b) \<and> boot = encode_hex b))"

definition start_guarded ::
  "start_lib \<Rightarrow> load_deps \<Rightarrow> 'w main_world \<Rightarrow> environ \<Rightarrow> string option \<Rightarrow> main_end \<Rightarrow> main_step list \<Rightarrow> bool" where
  "start_guarded L d W getenv home r es \<longleftrightarrow>
     sorted (map stage es) \<and> each_step (load_safe d True (default_config_path getenv)) [] (provider_steps es) \<and> sweeps_stale es \<and>
     ends_rightly L d W getenv home r es"

lemma stages [simp]:
  "stage \<circ> MStart = (\<lambda>x. 1)" "stage \<circ> MProviders = (\<lambda>x. 2)" "stage \<circ> MDir = (\<lambda>x. 4)"
  by (simp_all add: comp_def)

lemma one_stage [simp]: "sorted (map (\<lambda>x. n :: nat) xs)"
  by (simp add: map_replicate_const)

lemma none_removed [simp]: "trees_removed [] = 0"
  by (simp add: trees_removed_def)

lemma stages_all [simp]:
  "list_all (\<lambda>x. stage x \<le> n) (map MStart xs) \<longleftrightarrow> xs = [] \<or> 1 \<le> n"
  "list_all (\<lambda>x. stage x \<le> n) (map MProviders ys) \<longleftrightarrow> ys = [] \<or> 2 \<le> n"
  "list_all (\<lambda>x. stage x \<le> n) (map MDir ds) \<longleftrightarrow> ds = [] \<or> 4 \<le> n"
  by (auto simp: list_all_iff)

lemma sound_key:
  "config_sound L getenv cfg xs \<Longrightarrow> config_sound L getenv (cfg\<lparr>sc_key_file := k\<rparr>) xs"
  by (simp add: config_sound_def)

lemma key_known:
  "key_file_or (getenv ''KEY_FILE'') home ''key'' = Some k \<Longrightarrow> \<exists>g. git_key_file_path getenv home = Some g"
  by (auto simp: key_file_or_def git_key_file_path_def split: if_splits)

text \<open>What was found stays found when steps of other parts follow or come before.\<close>

lemma found_more:
  "start_steps fs = start_steps es \<Longrightarrow> accepted_config L W getenv home cfg fs = accepted_config L W getenv home cfg es"
  "start_steps fs = start_steps es \<Longrightarrow> config_read L W getenv home c fs = config_read L W getenv home c es"
  "provider_steps fs = provider_steps es \<Longrightarrow> loaded_store d W getenv store fs = loaded_store d W getenv store es"
  "provider_steps fs = provider_steps es \<Longrightarrow> providers_read d W getenv res fs = providers_read d W getenv res es"
  by (simp_all add: accepted_config_def config_read_def loaded_store_def providers_read_def)

text \<open>The log of a start that got as far as the identifier of the process.\<close>

lemma served_log:
  assumes "accepted_config L W getenv home cfg (map MStart xs)"
    and "each_step (load_safe d True (default_config_path getenv)) [] ys" "loaded_store d W getenv store (map MProviders ys)"
    and "root_usable getenv ds" "trees_removed ds = 0" "sweep_fine (now - stale_temp_home_age) fs"
  shows "start_guarded L d W getenv home
    (case b of None \<Rightarrow> Exits (Some NoBootId) | Some bytes \<Rightarrow> Serves cfg store (encode_hex bytes))
    (map MStart xs @ map MProviders ys @ MGit v # map MDir ds @ MClock now # map MDir fs @ [MRandom b])"
    (is "start_guarded L d W getenv home ?r ?es")
proof -
  let ?pre = "map MStart xs @ map MProviders ys @ MGit v # map MDir ds"
  have "sweeps_stale (?pre @ MClock now # map MDir fs @ [MRandom b])"
    by (rule swept_after) (simp_all add: assms(5,6))
  moreover have "accepted_config L W getenv home cfg ?es" "loaded_store d W getenv store ?es"
    using assms(1,3) by (simp_all add: found_more(1) [of ?es "map MStart xs"] found_more(3) [of ?es "map MProviders ys"])
  moreover have "takeWhile (\<lambda>x. \<not> is_clock x) (?pre @ MClock now # map MDir fs @ [MRandom b]) = ?pre"
    by (subst takeWhile_append2) (auto simp: list_all_iff)
  ultimately show ?thesis
    using assms(2,4) by (cases b) (auto simp: start_guarded_def ends_rightly_def sorted_append)
qed

lemma faulty_config_log:
  "config_read L W getenv home (Inl e) (map MStart xs) \<Longrightarrow> start_guarded L d W getenv home (Exits (Some (StartFault e))) (map MStart xs)"
  by (auto simp: start_guarded_def ends_rightly_def list_all_iff intro!: unswept)

lemma faulty_providers_log:
  assumes "accepted_config L W getenv home cfg (map MStart xs)"
    and "each_step (load_safe d True (default_config_path getenv)) [] ys"
    and "providers_read d W getenv res (map MProviders ys)" "lc_issues res = i # rest"
  shows "start_guarded L d W getenv home (Exits (Some (ProvidersFault i))) (map MStart xs @ map MProviders ys)"
proof -
  let ?es = "map MStart xs @ map MProviders ys"
  have "accepted_config L W getenv home cfg ?es" "providers_read d W getenv res ?es"
    using assms by (simp_all add: found_more(1) [of ?es "map MStart xs"] found_more(4) [of ?es "map MProviders ys"])
  moreover have "sweeps_stale ?es" by (rule unswept) simp_all
  ultimately show ?thesis
    using assms(2,4) by (auto simp: start_guarded_def ends_rightly_def sorted_append)
qed

lemma faulty_root_log:
  assumes "accepted_config L W getenv home cfg (map MStart xs)"
    and "each_step (load_safe d True (default_config_path getenv)) [] ys" "loaded_store d W getenv store (map MProviders ys)"
    and "\<not> root_usable getenv ds" "trees_removed ds = 0"
  shows "start_guarded L d W getenv home (Exits (Some (TempRootFault t)))
           (map MStart xs @ map MProviders ys @ MGit v # map MDir ds)"
proof -
  let ?es = "map MStart xs @ map MProviders ys @ MGit v # map MDir ds"
  have "accepted_config L W getenv home cfg ?es" "loaded_store d W getenv store ?es"
    using assms by (simp_all add: found_more(1) [of ?es "map MStart xs"] found_more(3) [of ?es "map MProviders ys"])
  moreover have "sweeps_stale ?es" by (rule unswept) (simp_all add: assms(5))
  moreover have "list_all (\<lambda>x. \<not> is_clock x \<and> stage x \<le> 4) ?es" by (auto simp: list_all_iff)
  ultimately show ?thesis
    using assms(2,4) by (auto simp: start_guarded_def ends_rightly_def sorted_append)
qed

lemma started_with:
  assumes cfg: "accepted_config L W getenv home cfg (map MStart xs)"
  shows "emits (start_with d W getenv cfg) (\<lambda>r es. start_guarded L d W getenv home r (map MStart xs @ es))"
  unfolding start_with_def
proof (rule emits_then [OF store_opened], elim exE conjE)
  fix s :: "(source list \<times> config_issue) + provider_store" and es :: "main_step list" and ys
  assume es: "es = map MProviders ys" and ys: "each_step (load_safe d True (default_config_path getenv)) [] ys"
    and s: "case s of Inl f \<Rightarrow> \<exists>res rest. providers_read d W getenv res es \<and> lc_issues res = snd f # rest
      | Inr store \<Rightarrow> loaded_store d W getenv store es"
  have served: "emits (start_serving W cfg store) (\<lambda>r gs. start_guarded L d W getenv home r
         (map MStart xs @ map MProviders ys @ MGit v # map MDir ds @ MClock now # map MDir fs @ gs))"
    if "loaded_store d W getenv store (map MProviders ys)" "root_usable getenv ds" "trees_removed ds = 0"
      "sweep_fine (now - stale_temp_home_age) fs" for store v ds now fs
    unfolding start_serving_def random_boot_id_def
    apply (intro emits_bind emits_effect emits_return)
    subgoal for b using served_log [OF cfg ys that, where b = b and v = v] by (cases b) simp_all
    done
  show "emits (case s of
        Inl f \<Rightarrow> ret (Exits (Some (ProvidersFault (snd f))))
      | Inr store \<Rightarrow> do {
          _ \<leftarrow> effect (mw_git_version W) MGit;
          t \<leftarrow> prepare_temp_root W getenv;
          (case t of
             Some e \<Rightarrow> ret (Exits (Some (TempRootFault e)))
           | None \<Rightarrow> start_serving W cfg store)
        }) (\<lambda>r fs. start_guarded L d W getenv home r (map MStart xs @ es @ fs))"
  proof (cases s)
    case (Inl f)
    then show ?thesis using s faulty_providers_log [OF cfg ys] by (auto simp: es intro!: emits_return)
  next
    case (Inr store)
    then have ok: "loaded_store d W getenv store (map MProviders ys)" using s by (simp add: es)
    show ?thesis
      unfolding Inr sum.case es
      by (rule emits_bind, rule emits_effect, rule emits_then [OF temp_root_prepared], elim exE conjE, rule emits_option)
         (auto simp: faulty_root_log [OF cfg ys ok] served [OF ok] intro!: emits_return)
  qed
qed

lemma gitsync_started: "emits (start_gitsync L d W getenv home) (start_guarded L d W getenv home)"
  unfolding start_gitsync_def
proof (rule emits_then [OF start_read], elim exE conjE)
  fix c :: "start_fault + start_config" and es :: "main_step list" and xs
  assume es: "es = map MStart xs" and read: "config_read L W getenv home c es" and c: "case c of Inl e \<Rightarrow> True | Inr cfg \<Rightarrow>
    config_sound L getenv cfg xs \<and> key_file_or (getenv ''KEY_FILE'') home ''key'' = Some (sc_key_file cfg)"
  show "emits (case c of Inl e \<Rightarrow> ret (Exits (Some (StartFault e))) | Inr cfg \<Rightarrow>
          start_with d W getenv (case git_key_file_path getenv home of None \<Rightarrow> cfg | Some k \<Rightarrow> cfg\<lparr>sc_key_file := k\<rparr>))
        (\<lambda>r fs. start_guarded L d W getenv home r (es @ fs))"
  proof (cases c)
    case (Inl e)
    then show ?thesis using faulty_config_log read by (auto simp: es intro!: emits_return)
  next
    case (Inr cfg)
    then have sound: "config_sound L getenv cfg xs" and "key_file_or (getenv ''KEY_FILE'') home ''key'' = Some (sc_key_file cfg)"
      using c by simp_all
    then obtain k where k: "git_key_file_path getenv home = Some k" using key_known by blast
    have "accepted_config L W getenv home (cfg\<lparr>sc_key_file := k\<rparr>) (map MStart xs)"
      using read k sound_key [OF sound] by (auto simp: accepted_config_def Inr es)
    then show ?thesis unfolding Inr sum.case k option.case es by (rule started_with)
  qed
qed

text \<open>C21. In every world, a command or the health probe does nothing of a start, and a start goes through
configuration, providers, git, temporary root and identifier in this order and ends by what they
found: with the fault of the first of configuration, providers, temporary root and identifier that
fails, before anything of a later one is done, and else serving; git is only asked for its version,
and whatever it says is a warning. What serves has the accepted configuration with the key file of
the git-sync connector, exactly the loaded providers, all usable with distinct hosts and read from
vetted files, a temporary root that was just tried, and the hexadecimal form of fresh random bytes
as its identifier; and the sweep removes only stale temporary homes.\<close>

theorem gitsync_start_guarded:
  "emits (gitsync_main L d W getenv home args) (\<lambda>r es.
     if take 1 args = [''connector'']
     then (case es of [MCommand as ok] \<Rightarrow> as = drop 1 args \<and> r = Exits (if ok then None else Some CommandFailed) | _ \<Rightarrow> False)
     else if take 1 args = [''--health''] then es = [] \<and> r = Exits None
     else start_guarded L d W getenv home r es)"
  unfolding gitsync_main_def
  by (intro emits_if emits_bind emits_effect emits_return) (simp_all add: gitsync_started)

end
