(* ===== verification/OperatorCli.thy ===== *)
theory OperatorCli
  imports PreflightSafety StatusCli Startup
begin

text \<open>
  The git-sync connector's operator command line as a whole (\<open>Run\<close> of \<open>gitsync/cli/config.go\<close>), with the
  \<open>preflight\<close> command around its checks (\<open>gitsync/cli/preflight.go\<close>): its flags, its report as text or as a document, and
  its exit. The texts of details and remedies are parameters, the layout is the code's.
\<close>

section \<open>The preflight command\<close>

record report_texts =
  rt_detail :: "detail \<Rightarrow> string"
  rt_remedy :: "check_result \<Rightarrow> string"
  rt_usage :: string
  rt_encode :: "preflight_doc \<Rightarrow> string"

record 'w operator_world =
  ow_cli :: "'w pcli_world"
  ow_net :: "'w net_world"

datatype operator_step = OCli pcli_step | OCheck net_step | OPrint string

datatype preflight_fault = PreflightFlags flag_error | PreflightArgument string | PreflightFailing nat

definition preflight_flags :: "string \<Rightarrow> flag_kind option" where
  "preflight_flags n = (if n = ''json'' then Some BoolFlag else None)"

definition status_label :: "check_status \<Rightarrow> string" where
  "status_label s = (case s of CheckPass \<Rightarrow> ''PASS'' | CheckWarn \<Rightarrow> ''WARN'' | CheckFail \<Rightarrow> ''FAIL'' | CheckSkip \<Rightarrow> ''SKIP'')"

definition more_line :: "string \<Rightarrow> string" where
  "more_line l = ''        '' @ pad 20 [] @ '' '' @ l @ [newline]"

definition result_lines :: "report_texts \<Rightarrow> check_result \<Rightarrow> string list" where
  "result_lines T r =
     (let ls = split_on newline (rt_detail T (ck_detail r)) in
      [''  '' @ pad 4 (status_label (ck_status r)) @ ''  '' @ pad 20 (ck_id r) @ '' '' @ hd ls @ [newline]] @
      map more_line (tl ls) @
      (if rt_remedy T r \<noteq> [] then [more_line (''Fix: '' @ rt_remedy T r)] else []))"

definition preflight_heading :: "nat \<Rightarrow> string list" where
  "preflight_heading uid =
     map (\<lambda>l. l @ [newline])
       [''=== git-sync preflight ==='',
        ''  Checked as uid '' @ itoa uid @ '', with this process's environment. No connector data or token is sent to the Memento'',
        ''  platform, and no credential is sent anywhere but to the git server it belongs to. The only requests made'',
        ''  are a body-less one to the gateway and an unauthenticated one to the pinned replica host.'', []]"

definition summary_line :: "check_result list \<Rightarrow> string" where
  "summary_line rs =
     [newline] @ ''Summary: '' @ itoa (tally rs CheckPass) @ '' passed, '' @ itoa (tally rs CheckWarn) @ '' '' @
     plural (tally rs CheckWarn) ''warning'' ''warnings'' @ '', '' @ itoa (tally rs CheckFail) @ '' failed, '' @
     itoa (tally rs CheckSkip) @ '' skipped.'' @ [newline]"

definition not_ready :: string where
  "not_ready = ''Not ready: fix the failed checks and run preflight again.'' @ [newline]"

definition not_shown_ready :: string where
  "not_shown_ready = ''Some checks were skipped, so this host is not yet shown to be ready.'' @ [newline]"

definition no_failures :: string where
  "no_failures =
     ''No failures. A push to the replica needs a token the platform issues once enrolled, so it is not tested here; it is reported by '' @
     [CHR 0x60] @ ''connector status'' @ [CHR 0x60] @ '' and in the portal.'' @ [newline]"

definition preflight_lines :: "report_texts \<Rightarrow> nat \<Rightarrow> check_result list \<Rightarrow> string list" where
  "preflight_lines T uid rs =
     preflight_heading uid @ concat (map (result_lines T) rs) @
     [summary_line rs,
      if 0 < tally rs CheckFail then not_ready else if 0 < tally rs CheckSkip then not_shown_ready else no_failures]"

definition show_preflight ::
  "report_texts \<Rightarrow> 'w operator_world \<Rightarrow> host_process \<Rightarrow> bool \<Rightarrow> check_result list \<Rightarrow> (('w, operator_step) sys, unit) state" where
  "show_preflight T W P json rs =
     print_lines (pi_print (ow_cli W)) OPrint
       (if json then [rt_encode T (preflight_doc_of rs)] else preflight_lines T (nat (hp_euid P)) rs)"

definition run_preflight ::
  "report_texts \<Rightarrow> net_lib \<Rightarrow> 'k mldsa \<Rightarrow> (string \<Rightarrow> string option) \<Rightarrow> 'w operator_world \<Rightarrow> host_process \<Rightarrow> string list \<Rightarrow>
   (('w, operator_step) sys, preflight_fault option) state" where
  "run_preflight T N M genv W P args =
     (case parse_flags preflight_flags args of
        Inl e \<Rightarrow>
          (if e = HelpAsked
           then do { _ \<leftarrow> print_lines (pi_print (ow_cli W)) OPrint [rt_usage T @ [newline]]; ret None }
           else ret (Some (PreflightFlags e)))
      | Inr (asg, rest) \<Rightarrow>
          (if rest \<noteq> [] then ret (Some (PreflightArgument (hd rest)))
           else do {
             rs \<leftarrow> logged OCheck (run_preflight_checks N M genv (ow_net W) P);
             _ \<leftarrow> show_preflight T W P (flag_bool asg ''json'') rs;
             ret (map_option PreflightFailing (preflight_error rs))
           }))"

section \<open>The dispatch\<close>

datatype operator_error =
    OperatorUsage | OperatorUnknown string | OperatorConfig pcli_error | OperatorStatus status_error
  | OperatorPreflight preflight_fault

record 'k operator_lib =
  ol_cli :: pcli_lib
  ol_status :: status_lib
  ol_json :: state_json
  ol_encode :: "status_doc \<Rightarrow> string"
  ol_texts :: report_texts
  ol_net :: net_lib
  ol_key :: "'k mldsa"
  ol_genv :: "string \<Rightarrow> string option"

definition run_operator ::
  "'k operator_lib \<Rightarrow> 'w operator_world \<Rightarrow> process \<Rightarrow> host_process \<Rightarrow> string list \<Rightarrow>
   (('w, operator_step) sys, operator_error option) state" where
  "run_operator K W Q P args =
     (case args of
        [] \<Rightarrow> ret (Some OperatorUsage)
      | cmd # rest \<Rightarrow>
          (if cmd = ''config'' then do {
             r \<leftarrow> logged OCli (run_provider_config (ol_cli K) (ow_cli W) (hp_getenv P) (nat (hp_euid P)) rest);
             ret (map_option OperatorConfig r)
           }
           else if cmd = ''status'' then do {
             r \<leftarrow> logged OCli (run_sync_status (ol_cli K) (ol_status K) (ol_json K) (ol_encode K) (ow_cli W) Q rest);
             ret (map_option OperatorStatus r)
           }
           else if cmd = ''preflight'' then do {
             r \<leftarrow> run_preflight (ol_texts K) (ol_net K) (ol_key K) (ol_genv K) W P rest;
             ret (map_option OperatorPreflight r)
           }
           else ret (Some (OperatorUnknown cmd))))"

text \<open>The command as the world operation of theory Startup: what it leaves of the world, and whether it succeeded.\<close>

definition operator_command ::
  "'k operator_lib \<Rightarrow> 'w operator_world \<Rightarrow> process \<Rightarrow> host_process \<Rightarrow> string list \<Rightarrow> 'w \<Rightarrow> bool \<times> 'w" where
  "operator_command K W Q P args w =
     (case run_state (run_operator K W Q P args) \<lparr>ext = w, trace = []\<rparr> of (r, s) \<Rightarrow> (r = None, ext s))"

section \<open>What preflight says\<close>

fun checks_of :: "operator_step list \<Rightarrow> net_step list" where
  "checks_of [] = []"
| "checks_of (OCheck x # es) = x # checks_of es"
| "checks_of (_ # es) = checks_of es"

fun shown :: "operator_step list \<Rightarrow> string list" where
  "shown [] = []"
| "shown (OPrint l # es) = l # shown es"
| "shown (_ # es) = shown es"

lemma split_logs [simp]:
  "checks_of (es @ fs) = checks_of es @ checks_of fs" "shown (es @ fs) = shown es @ shown fs"
  "checks_of (map OCheck xs) = xs" "checks_of (map OPrint ls) = []"
  "shown (map OCheck xs) = []" "shown (map OPrint ls) = ls"
  by (induction es rule: shown.induct; induction xs; induction ls; simp)+

text \<open>A report tells what some run of the checks found, and the command fails exactly when it says so.\<close>

definition reported :: "report_texts \<Rightarrow> nat \<Rightarrow> bool \<Rightarrow> check_result list \<Rightarrow> preflight_fault option \<Rightarrow> string list \<Rightarrow> bool" where
  "reported T uid json rs r ls \<longleftrightarrow>
     ls = (if json then [rt_encode T (preflight_doc_of rs)] else preflight_lines T uid rs) \<and>
     r = map_option PreflightFailing (preflight_error rs)"

lemma last_line:
  "last (preflight_lines T uid rs) = not_ready \<longleftrightarrow> 0 < tally rs CheckFail"
  by (auto simp: preflight_lines_def not_ready_def not_shown_ready_def no_failures_def)

lemma none_failing:
  "preflight_error rs = None \<longleftrightarrow> tally rs CheckFail = 0"
  "list_all (\<lambda>c. ck_status c \<noteq> CheckFail) rs \<longleftrightarrow> tally rs CheckFail = 0"
  by (auto simp: preflight_error_def Let_def tally_def list_all_iff filter_empty_conv)

text \<open>In every world, preflight with refused arguments checks nothing; otherwise it runs the checks once,
changes nothing while it prints, and its result, its text or document and its last line all are those of what the
checks found: it fails exactly when some check failed.\<close>

theorem preflight_reports_its_checks:
  "emits (run_preflight T N M genv W P args) (\<lambda>r es.
     case parse_flags preflight_flags args of
       Inr (asg, []) \<Rightarrow> \<exists>rs.
         (\<exists>w. in_world (run_preflight_checks N M genv (ow_net W) P) w = (rs, checks_of es)) \<and>
         reported T (nat (hp_euid P)) (flag_bool asg ''json'') rs r (shown es) \<and>
         (r = None \<longleftrightarrow> list_all (\<lambda>c. ck_status c \<noteq> CheckFail) rs) \<and>
         (flag_bool asg ''json'' \<or> (r \<noteq> None \<longleftrightarrow> last (shown es) = not_ready))
     | _ \<Rightarrow> checks_of es = [])"
proof (cases "parse_flags preflight_flags args")
  case (Inl e)
  have usage: "emits (print_lines (pi_print (ow_cli W)) OPrint ls) (\<lambda>r es. checks_of es = [])" for ls
    by (rule emits_weaken [OF print_lines_log]) simp
  show ?thesis
    unfolding run_preflight_def Inl sum.case
    by (intro emits_if emits_then [OF usage] emits_return) simp_all
next
  case (Inr ar)
  obtain asg rest where ar: "ar = (asg, rest)" by force
  show ?thesis
  proof (cases rest)
    case (Cons x xs)
    then show ?thesis by (simp add: run_preflight_def Inr ar emits_return)
  next
    case Nil
    let ?json = "flag_bool asg ''json''" and ?uid = "nat (hp_euid P)"
    let ?found = "\<lambda>rs xs. \<exists>w. in_world (run_preflight_checks N M genv (ow_net W) P) w = (rs, xs)"
    have checks: "emits (logged OCheck (run_preflight_checks N M genv (ow_net W) P)) (\<lambda>rs es. \<exists>xs. es = map OCheck xs \<and> ?found rs xs)"
      by (rule emits_logged_run) auto
    have out: "emits (show_preflight T W P ?json rs) (\<lambda>u es.
        es = map OPrint (if ?json then [rt_encode T (preflight_doc_of rs)] else preflight_lines T ?uid rs))" for rs
      unfolding show_preflight_def by (rule print_lines_log)
    show ?thesis
      unfolding run_preflight_def Inr ar sum.case prod.case Nil list.case
      by (simp only: simp_thms if_False, rule emits_then [OF checks], elim exE conjE, rule emits_then [OF out], rule emits_return)
         (auto simp: reported_def none_failing last_line)
  qed
qed

section \<open>The verdict foretells the start\<close>

lemma logged_run: "fst (in_world (State_Monad.bind (logged mk m) k) w) =
  fst (run_state (k (fst (in_world m w))) (snd (run_state (logged mk m) \<lparr>ext = w, trace = []\<rparr>)))"
  by (simp add: in_world_def State_Monad.bind_def logged_def case_prod_beta)

lemma emits_result: "emits m Q \<Longrightarrow> \<exists>es. Q (fst (run_state m s)) es"
  unfolding emits_def by blast

text \<open>After the load of the configuration no fault is one of it.\<close>

definition config_fault :: "main_end \<Rightarrow> bool" where
  "config_fault r \<longleftrightarrow> (case r of Exits (Some (StartFault e)) \<Rightarrow> True | _ \<Rightarrow> False)"

lemma later_faults: "emits (start_with d W getenv cfg) (\<lambda>r es. \<not> config_fault r)"
  unfolding start_with_def open_store_at_start_def prepare_temp_root_def start_serving_def random_boot_id_def
  by (intro emits_bind emits_logged_run emits_sum emits_option emits_return emits_effect)
     (auto simp: config_fault_def split: option.splits)

lemma start_config_fault:
  "config_fault (fst (in_world (start_gitsync L d W getenv home) w)) \<longleftrightarrow>
     start_refused (fst (in_world (load_start_config L (mw_files W) getenv home) w))"
proof (cases "fst (in_world (load_start_config L (mw_files W) getenv home) w)")
  case (Inl e)
  then show ?thesis
    by (simp add: start_gitsync_def logged_run State_Monad.return_def config_fault_def)
next
  case (Inr cfg)
  have "\<not> config_fault (fst (run_state (start_with d W getenv c) s))" for c s
    using emits_result [OF later_faults] by blast
  then show ?thesis by (simp add: start_gitsync_def logged_run Inr)
qed

text \<open>C20. From one world, a start of the connector ends with a fault of its start-up configuration
exactly when, in that world, the preflight check of the gateway URL, the identifier, the key path or
the registration token (judged as for an enrolled connector) fails, or CA_BUNDLE is a relative path,
which preflight does not look at. The later faults of a start, of the provider configuration, the
temporary root and the process identifier, are not part of this.\<close>

theorem preflight_foretells_start:
  "config_fault (fst (in_world (gitsync_main (nl_start N) d W (hp_getenv P) (hp_home P) []) w)) \<longleftrightarrow>
     ck_status (check_gateway_url N (hp_getenv P)) = CheckFail \<or> ck_status (check_connector_id P) = CheckFail \<or>
     git_key_file_path (hp_getenv P) (hp_home P) = None \<or>
     fst (token_verdict P Enrolled (fst (in_world (check_registration_token (mw_files W) (hp_getenv P)) w))) = CheckFail \<or>
     hp_getenv P ''CA_BUNDLE'' \<noteq> [] \<and> \<not> rooted (hp_getenv P ''CA_BUNDLE'')"
  using start_config_fault [of "nl_start N" d W "hp_getenv P" "hp_home P" w]
    checks_foretell_load [of N "mw_files W" P w]
  by (simp add: gitsync_main_def)

end
