(* ===== verification/Machines.thy ===== *)
theory Machines
  imports Prelude
begin

text \<open>
  Interleavings. The goroutines that share a state are a list of events, each one critical section; an event
  that cannot happen where it stands makes the whole list impossible. What every event keeps, every
  interleaving keeps: a component shows the first, as an interpretation of the locale \<open>keeper\<close>, and uses the
  second.
\<close>

fun steps :: "('e \<Rightarrow> 's \<Rightarrow> 's option) \<Rightarrow> 'e list \<Rightarrow> 's \<Rightarrow> 's option" where
  "steps move [] s = Some s"
| "steps move (e # es) s = (case move e s of None \<Rightarrow> None | Some s1 \<Rightarrow> steps move es s1)"

lemma steps_append:
  "steps move (es @ fs) s = (case steps move es s of None \<Rightarrow> None | Some s1 \<Rightarrow> steps move fs s1)"
  by (induction es arbitrary: s) (auto split: option.splits)

text \<open>A property of the state that every allowed event keeps.\<close>

locale keeper =
  fixes move :: "'e \<Rightarrow> 's \<Rightarrow> 's option"
    and allowed :: "'e \<Rightarrow> bool"
    and inv :: "'s \<Rightarrow> bool"
  assumes keeps: "move e s = Some s' \<Longrightarrow> allowed e \<Longrightarrow> inv s \<Longrightarrow> inv s'"
begin

lemma steps_keep: "steps move es s = Some s' \<Longrightarrow> list_all allowed es \<Longrightarrow> inv s \<Longrightarrow> inv s'"
  by (induction es arbitrary: s) (auto split: option.splits dest: keeps)

end

end
