(* ===== verification/GitProcess.thy ===== *)
theory GitProcess
  imports Machines
begin

text \<open>
  One git process and its group (\<open>runGitOut\<close> of \<open>gitsync/probe.go\<close>): what happens to git, to the helpers it
  starts and to the goroutines of package \<open>os/exec\<close> when the context of the run ends. git is the leader of its
  own process group, whose members fork and exit as they like; the interleaving is a sequence of events.
\<close>

section \<open>The state\<close>

text \<open>
  \<open>gr_process\<close> is \<open>cmd.Process\<close>, its process id; \<open>gr_live\<close> are the members of the group that still run,
  \<open>gr_signals\<close> the signals that were sent, each with the group it went to. \<open>gr_watch\<close> is where the goroutine of
  package \<open>os/exec\<close> is that watches the context, \<open>gr_call\<close> where the caller of \<open>cmd.Run\<close> is. \<open>gr_cancelled\<close>,
  \<open>gr_pgid\<close> and \<open>gr_grace\<close> are the variables the two share under \<open>mu\<close>.
\<close>

datatype signal = Term | Kill

datatype grace_timer = NoTimer | Armed | Fired | Stopped | Spent

datatype watcher = Watching | Interrupted | Handed

datatype caller = Starting | Waiting | Reaped | RunOver | Returned

record git_run =
  gr_process :: "nat option"
  gr_live :: "nat set"
  gr_context_over :: bool
  gr_watch :: watcher
  gr_call :: caller
  gr_cancelled :: bool
  gr_pgid :: nat
  gr_grace :: grace_timer
  gr_signals :: "(signal \<times> nat) list"

definition new_git_run :: git_run where
  "new_git_run =
     \<lparr>gr_process = None, gr_live = {}, gr_context_over = False, gr_watch = Handed, gr_call = Starting,
      gr_cancelled = False, gr_pgid = 0, gr_grace = NoTimer, gr_signals = []\<rparr>"

section \<open>The code\<close>

text \<open>
  \<open>syscall.Kill(-pgid, sig)\<close>. SIGKILL ends every member of the group, among them one that a fork under way is
  about to add; of SIGTERM some take no notice (\<open>deaf\<close>). The group of another process is not affected.
\<close>

definition kill_group :: "signal \<Rightarrow> nat set \<Rightarrow> git_run \<Rightarrow> git_run" where
  "kill_group sig deaf r =
     r\<lparr>gr_signals := gr_signals r @ [(sig, gr_pgid r)],
       gr_live := (if gr_process r = Some (gr_pgid r)
                   then (case sig of Kill \<Rightarrow> {} | Term \<Rightarrow> gr_live r \<inter> deaf) else gr_live r)\<rparr>"

text \<open>\<open>cmd.Cancel\<close>\<close>

definition cancel_run :: "nat set \<Rightarrow> git_run \<Rightarrow> git_run" where
  "cancel_run deaf r =
     (case gr_process r of
        None \<Rightarrow> r
      | Some pid \<Rightarrow> (kill_group Term deaf (r\<lparr>gr_cancelled := True, gr_pgid := pid\<rparr>))\<lparr>gr_grace := Armed\<rparr>)"

text \<open>The function given to \<open>time.AfterFunc\<close>, which runs in a goroutine of its own once the timer has fired.\<close>

definition kill_after_grace :: "git_run \<Rightarrow> git_run" where
  "kill_after_grace r = (kill_group Kill {} r)\<lparr>gr_grace := Spent\<rparr>"

text \<open>What follows \<open>cmd.Run\<close>; \<open>Stop\<close> has no effect on a timer that has fired.\<close>

definition sweep_group :: "git_run \<Rightarrow> git_run" where
  "sweep_group r =
     (if gr_cancelled r
      then kill_group Kill {} (r\<lparr>gr_grace := (if gr_grace r = Armed then Stopped else gr_grace r)\<rparr>)
      else r)\<lparr>gr_call := Returned\<rparr>"

section \<open>The interleaving\<close>

text \<open>
  The processes fork and exit. \<open>Start\<close> gives git a group of its own, unless the context is over or it fails.
  The watching goroutine calls \<open>Cancel\<close> when the context is over, and kills git when it is still there after
  \<open>WaitDelay\<close>. \<open>Run\<close> waits for git, then takes the watcher's result, which may be that of a context that ended
  when git was gone already, and ends when the pipes are drained or the delay is over.
\<close>

datatype git_event =
    GitStart "nat option" | ContextOver | Fork nat nat | Exit nat | CallCancel "nat set" | GraceFires | GraceKills
  | DelayOver | WaitReturns | TakeResult | RunReturns | Sweep

fun git_move :: "git_event \<Rightarrow> git_run \<Rightarrow> git_run option" where
  "git_move (GitStart p) r =
     (if gr_call r \<noteq> Starting then None
      else case p of
        None \<Rightarrow> Some (r\<lparr>gr_call := RunOver\<rparr>)
      | Some pid \<Rightarrow>
          if gr_context_over r then None
          else Some (r\<lparr>gr_process := Some pid, gr_live := {pid}, gr_watch := Watching, gr_call := Waiting\<rparr>))"
| "git_move ContextOver r = Some (r\<lparr>gr_context_over := True\<rparr>)"
| "git_move (Fork p q) r = (if p \<in> gr_live r \<and> q \<notin> gr_live r \<and> gr_process r \<noteq> Some q then Some (r\<lparr>gr_live := insert q (gr_live r)\<rparr>) else None)"
| "git_move (Exit p) r = (if p \<in> gr_live r then Some (r\<lparr>gr_live := gr_live r - {p}\<rparr>) else None)"
| "git_move (CallCancel deaf) r =
     (if gr_watch r = Watching \<and> gr_context_over r then Some ((cancel_run deaf r)\<lparr>gr_watch := Interrupted\<rparr>) else None)"
| "git_move GraceFires r = (if gr_grace r = Armed then Some (r\<lparr>gr_grace := Fired\<rparr>) else None)"
| "git_move GraceKills r = (if gr_grace r = Fired then Some (kill_after_grace r) else None)"
| "git_move DelayOver r =
     (if gr_watch r = Interrupted \<and> gr_call r = Waiting
      then Some (r\<lparr>gr_live := gr_live r - set_option (gr_process r)\<rparr>) else None)"
| "git_move WaitReturns r =
     (case gr_process r of
        None \<Rightarrow> None
      | Some pid \<Rightarrow> if gr_call r = Waiting \<and> pid \<notin> gr_live r then Some (r\<lparr>gr_call := Reaped\<rparr>) else None)"
| "git_move TakeResult r = (if gr_call r = Reaped \<and> gr_watch r \<noteq> Handed then Some (r\<lparr>gr_watch := Handed\<rparr>) else None)"
| "git_move RunReturns r = (if gr_call r = Reaped \<and> gr_watch r = Handed then Some (r\<lparr>gr_call := RunOver\<rparr>) else None)"
| "git_move Sweep r = (if gr_call r = RunOver then Some (sweep_group r) else None)"

section \<open>Nothing outlives a cancelled run\<close>

definition kills :: "git_run \<Rightarrow> nat" where
  "kills r = (if gr_grace r = Spent then 1 else 0) + (if gr_call r = Returned then 1 else 0)"

text \<open>
  \<open>Cancel\<close> runs at most once, on the group of the process that was started; SIGTERM goes first, then SIGKILL from the
  timer and from the caller, once each at most; no member of the group is left when the caller of a cancelled run
  goes on, and a group without a member stays so.
\<close>

definition placed :: "git_run \<Rightarrow> bool" where
  "placed r \<longleftrightarrow>
     (gr_process r = None \<longrightarrow> gr_live r = {} \<and> gr_watch r = Handed \<and> gr_call r \<in> {Starting, RunOver, Returned}) \<and>
     (gr_process r \<noteq> None \<longrightarrow> gr_call r \<noteq> Starting) \<and>
     (gr_call r = Waiting \<longrightarrow> gr_watch r \<noteq> Handed) \<and>
     (gr_call r \<in> {RunOver, Returned} \<longrightarrow> gr_watch r = Handed)"

definition signals_ok :: "git_run \<Rightarrow> bool" where
  "signals_ok r \<longleftrightarrow>
     (if gr_cancelled r
      then gr_context_over r \<and> gr_watch r \<noteq> Watching \<and> gr_process r = Some (gr_pgid r) \<and>
           gr_signals r = (Term, gr_pgid r) # replicate (kills r) (Kill, gr_pgid r)
      else gr_signals r = [] \<and> gr_grace r = NoTimer \<and> gr_watch r \<noteq> Interrupted)"

definition swept :: "git_run \<Rightarrow> bool" where
  "swept r \<longleftrightarrow> (gr_call r = Returned \<and> gr_cancelled r \<longrightarrow> gr_live r = {})"

definition git_run_ok :: "git_run \<Rightarrow> bool" where
  "git_run_ok r \<longleftrightarrow> placed r \<and> signals_ok r \<and> swept r"

lemmas git_run_ops = kill_group_def cancel_run_def kill_after_grace_def sweep_group_def

lemma placed_started:
  "gr_process r = Some pid \<Longrightarrow>
   placed r \<longleftrightarrow> (case gr_call r of Starting \<Rightarrow> False | Waiting \<Rightarrow> gr_watch r \<noteq> Handed | Reaped \<Rightarrow> True | _ \<Rightarrow> gr_watch r = Handed)"
  by (auto simp: placed_def split: caller.split)

lemma placed_unstarted:
  "gr_process r = None \<Longrightarrow> placed r \<longleftrightarrow> gr_live r = {} \<and> gr_watch r = Handed \<and> gr_call r \<in> {Starting, RunOver, Returned}"
  by (auto simp: placed_def)

lemma placed_move:
  assumes move: "git_move e r = Some r'" and "placed r"
  shows "placed r'"
proof (cases "gr_process r")
  case None
  then show ?thesis
    using assms
    by (cases e) (auto simp: git_run_ops placed_unstarted placed_started split: if_split_asm option.split_asm)
next
  case (Some pid)
  then show ?thesis
    using assms
    by (cases e) (auto simp: git_run_ops placed_started split: if_split_asm caller.split_asm)
qed

lemma swept_move:
  assumes "git_move e r = Some r'" and "placed r" and "signals_ok r" and "swept r"
  shows "swept r'"
proof (cases e)
  case (CallCancel deaf)
  then show ?thesis
    using assms by (cases "gr_process r") (auto simp: git_run_ops placed_def swept_def split: if_split_asm)
next
  case GraceKills
  then show ?thesis using assms(1,4) by (auto simp: git_run_ops swept_def split: if_split_asm)
next
  case Sweep
  then show ?thesis using assms(1,3) by (auto simp: git_run_ops signals_ok_def swept_def split: if_split_asm)
qed (use assms in \<open>auto simp: swept_def split: if_split_asm option.split_asm\<close>)

lemma signals_same:
  assumes "signals_ok r" and "gr_cancelled r' = gr_cancelled r" and "gr_context_over r \<longrightarrow> gr_context_over r'"
    and "gr_watch r' = gr_watch r \<or> gr_watch r' = Handed" and "gr_process r' = gr_process r" and "gr_pgid r' = gr_pgid r"
    and "gr_signals r' = gr_signals r" and "kills r' = kills r" and "gr_cancelled r \<or> gr_grace r' = gr_grace r"
  shows "signals_ok r'"
  using assms by (auto simp: signals_ok_def)

lemma signals_move:
  assumes "git_move e r = Some r'" and "placed r" and ok: "signals_ok r"
  shows "signals_ok r'"
proof (cases e)
  case (GitStart p)
  then show ?thesis
    using assms by (cases p) (auto simp: placed_def signals_ok_def kills_def split: if_split_asm)
next
  case (CallCancel deaf)
  then show ?thesis
    using assms by (cases "gr_process r"; cases "gr_cancelled r")
      (auto simp: git_run_ops placed_def signals_ok_def kills_def split: if_split_asm)
next
  case GraceFires
  then have "gr_grace r = Armed" "r' = r\<lparr>gr_grace := Fired\<rparr>" using assms(1) by (auto split: if_split_asm)
  then show ?thesis using ok by (cases "gr_cancelled r") (simp_all add: signals_ok_def kills_def)
next
  case GraceKills
  then have "gr_grace r = Fired" "r' = kill_after_grace r" using assms(1) by (auto split: if_split_asm)
  then show ?thesis
    using ok by (cases "gr_cancelled r") (simp_all add: git_run_ops signals_ok_def kills_def replicate_append_same)
next
  case Sweep
  then have "gr_call r = RunOver" "r' = sweep_group r" using assms(1) by (auto split: if_split_asm)
  then show ?thesis
    using ok by (cases "gr_cancelled r"; cases "gr_grace r") (simp_all add: git_run_ops signals_ok_def kills_def replicate_append_same)
qed (use assms(1) in \<open>auto intro!: signals_same [OF ok] simp: kills_def split: if_split_asm option.split_asm\<close>)

lemma git_move_ok: "git_move e r = Some r' \<Longrightarrow> git_run_ok r \<Longrightarrow> git_run_ok r'"
  by (simp add: git_run_ok_def placed_move signals_move swept_move)

interpretation git_runs: keeper git_move "\<lambda>e. True" git_run_ok
  by unfold_locales (rule git_move_ok)

lemma new_git_run_ok: "git_run_ok new_git_run"
  by (simp add: git_run_ok_def placed_def signals_ok_def swept_def new_git_run_def)

lemma git_run_reached: "steps git_move es new_git_run = Some r \<Longrightarrow> git_run_ok r"
  by (rule git_runs.steps_keep [OF _ _ new_git_run_ok]) (simp_all add: list_all_iff)

section \<open>A cancelled run ends\<close>

text \<open>
  What follows once the context is over, when git and its helpers ignore SIGTERM and never exit: the watcher, the
  delay and the caller suffice.
\<close>

definition ending :: "git_run \<Rightarrow> git_event list" where
  "ending r =
     (case gr_call r of
        Starting \<Rightarrow> [GitStart None, Sweep]
      | Waiting \<Rightarrow> (if gr_watch r = Watching then [CallCancel (gr_live r)] else []) @
                   [DelayOver, WaitReturns, TakeResult, RunReturns, Sweep]
      | Reaped \<Rightarrow> (if gr_watch r = Handed then [] else [TakeResult]) @ [RunReturns, Sweep]
      | RunOver \<Rightarrow> [Sweep]
      | Returned \<Rightarrow> [])"

lemma ending_ends:
  assumes "git_run_ok r" and "gr_context_over r"
  shows "\<exists>r'. steps git_move (ending r) r = Some r' \<and> gr_call r' = Returned"
proof -
  have placed: "placed r" using assms(1) by (simp add: git_run_ok_def)
  show ?thesis
  proof (cases "gr_process r")
    case None
    then show ?thesis
      using placed by (cases "gr_call r") (simp_all add: placed_def ending_def git_run_ops)
  next
    case (Some pid)
    then show ?thesis
      using placed assms(2)
      by (cases "gr_call r"; cases "gr_watch r") (simp_all add: placed_def ending_def git_run_ops)
  qed
qed

text \<open>C13. In every interleaving of git, its helpers, the watching goroutine, the grace timer and the
caller, only a cancelled run is sent signals, only its own group, SIGTERM first and SIGKILL at most
once from the timer and once from the caller; when the caller of a cancelled run goes on no process
of the group is left; and once the context is over the run can end whatever git and its helpers do.\<close>

theorem cancelled_git_leaves_nothing:
  "case steps git_move es new_git_run of
     None \<Rightarrow> True
   | Some r \<Rightarrow>
       (if gr_cancelled r
        then gr_context_over r \<and> gr_process r = Some (gr_pgid r) \<and> gr_signals r = (Term, gr_pgid r) # replicate (kills r) (Kill, gr_pgid r)
        else gr_signals r = []) \<and>
       (if gr_cancelled r \<and> gr_call r = Returned then gr_live r = {} else True) \<and>
       (if gr_context_over r
        then (case steps git_move (ending r) r of None \<Rightarrow> False | Some r' \<Rightarrow> gr_call r' = Returned) else True)"
proof (cases "steps git_move es new_git_run")
  case (Some r)
  have ok: "git_run_ok r" by (rule git_run_reached [OF Some])
  have "case steps git_move (ending r) r of None \<Rightarrow> False | Some r' \<Rightarrow> gr_call r' = Returned" if "gr_context_over r"
    using ending_ends [OF ok that] by auto
  then show ?thesis using ok by (auto simp: Some git_run_ok_def signals_ok_def swept_def split: if_splits)
qed simp

text \<open>
  A helper that ignores SIGTERM: git itself exits, the helper is gone when the run returns, and the timer, which had
  fired by then, is the one that may still send a signal.
\<close>

lemma deaf_helper_swept:
  "(case steps git_move
      [GitStart (Some 7), Fork 7 8, ContextOver, CallCancel {8}, GraceFires, WaitReturns, TakeResult, RunReturns, Sweep]
      new_git_run of
      None \<Rightarrow> False
    | Some r \<Rightarrow> gr_live r = {} \<and> gr_signals r = [(Term, 7), (Kill, 7)] \<and> git_move GraceKills r \<noteq> None)"
  by (simp add: new_git_run_def git_run_ops)

end
