(* ===== verification/GoHttp.thy ===== *)
theory GoHttp
  imports GoText GoPath
begin

text \<open>
  What the API connector uses of Go's \<open>net/url\<close>, \<open>net/http\<close> and \<open>encoding/base64\<close>: percent-encoding in
  each of its modes, the escaped form of a path, the resolution of a reference, canonical header names and
  header maps, and base64.
\<close>

section \<open>Percent-encoding\<close>

datatype escape_mode = InPath | InPathSegment | InQuery | InHost

definition is_alnum :: "char \<Rightarrow> bool" where
  "is_alnum c \<longleftrightarrow> is_alpha c \<or> is_digit c"

text \<open>\<open>shouldEscape\<close>.\<close>

definition should_escape :: "escape_mode \<Rightarrow> char \<Rightarrow> bool" where
  "should_escape mode c \<longleftrightarrow>
     (if is_alnum c then False
      else if mode = InHost \<and> c \<in> set ''!$&()*+,;=:[]<>'' then False
      else if mode = InHost \<and> (byte c = 39 \<or> byte c = 34) then False
      else if c \<in> set ''-_.~'' then False
      else if c \<in> set ''$&+,/:;=?@''
      then (case mode of
              InPath \<Rightarrow> c = CHR ''?''
            | InPathSegment \<Rightarrow> c \<in> set ''/;,?''
            | _ \<Rightarrow> True)
      else True)"

definition upper_hex :: "nat \<Rightarrow> char" where
  "upper_hex n = (if n < 10 then char_of (48 + n) else char_of (55 + n))"

definition escape_byte :: "escape_mode \<Rightarrow> char \<Rightarrow> string" where
  "escape_byte mode c =
     (if \<not> should_escape mode c then [c]
      else if mode = InQuery \<and> byte c = 32 then ''+''
      else [CHR 0x25, upper_hex (byte c div 16), upper_hex (byte c mod 16)])"

definition escape_text :: "escape_mode \<Rightarrow> string \<Rightarrow> string" where
  "escape_text mode s = concat (map (escape_byte mode) s)"

abbreviation query_escape :: "string \<Rightarrow> string" where "query_escape \<equiv> escape_text InQuery"
abbreviation path_escape :: "string \<Rightarrow> string" where "path_escape \<equiv> escape_text InPathSegment"

text \<open>The value of a hex digit (\<open>unhex\<close>).\<close>

definition hex_value :: "char \<Rightarrow> nat" where
  "hex_value c =
     (if is_digit c then byte c - 48 else if 97 \<le> byte c then byte c - 87 else byte c - 55)"

fun unescape_text :: "escape_mode \<Rightarrow> string \<Rightarrow> string option" where
  "unescape_text mode [] = Some []"
| "unescape_text mode (c # cs) =
     (if byte c = 37
      then (case cs of
              a # b # rest \<Rightarrow>
                if is_hex_digit a \<and> is_hex_digit b
                then map_option (Cons (char_of (16 * hex_value a + hex_value b))) (unescape_text mode rest)
                else None
            | _ \<Rightarrow> None)
      else map_option (Cons (if byte c = 43 \<and> mode = InQuery then CHR 0x20 else c)) (unescape_text mode cs))"

abbreviation query_unescape :: "string \<Rightarrow> string option" where "query_unescape \<equiv> unescape_text InQuery"

section \<open>Paths of URLs\<close>

text \<open>\<open>validEncoded\<close> of a path.\<close>

definition valid_encoded :: "string \<Rightarrow> bool" where
  "valid_encoded s \<longleftrightarrow>
     list_all (\<lambda>c. c \<in> set ''!$&()*+,;=:@[]%'' \<or> byte c = 39 \<or> \<not> should_escape InPath c) s"

text \<open>\<open>URL.EscapedPath\<close> of a path and its raw form.\<close>

definition escaped_path_of :: "string \<Rightarrow> string \<Rightarrow> string" where
  "escaped_path_of path raw =
     (if raw \<noteq> [] \<and> valid_encoded raw \<and> unescape_text InPath raw = Some path then raw
      else if path = ''*'' then ''*''
      else escape_text InPath path)"

text \<open>\<open>URL.setPath\<close>: the path and its raw form, which is kept only when it is not the default encoding.\<close>

definition set_path :: "string \<Rightarrow> (string \<times> string) option" where
  "set_path p = (case unescape_text InPath p of
     None \<Rightarrow> None | Some path \<Rightarrow> Some (path, if escape_text InPath path = p then [] else p))"

text \<open>
  \<open>resolvePath\<close>: what is written so far, without the leading slash, and whether the next element is the
  first; then the element that came last.
\<close>

definition resolve_step :: "string \<times> bool \<Rightarrow> string \<Rightarrow> string \<times> bool" where
  "resolve_step acc e = (case acc of (dst, first) \<Rightarrow>
     (if e = ''.'' then (dst, False)
      else if e = ''..''
      then (if slash \<in> set dst then (rev (tl (dropWhile (\<lambda>c. c \<noteq> slash) (rev dst))), first)
            else ([], True))
      else (dst @ (if first then [] else [slash]) @ e, False)))"

definition resolve_path :: "string \<Rightarrow> string \<Rightarrow> string" where
  "resolve_path base ref =
     (let full = (if ref = [] then base
                  else if take 1 ref \<noteq> [slash]
                  then rev (dropWhile (\<lambda>c. c \<noteq> slash) (rev base)) @ ref
                  else ref)
      in if full = [] then []
         else (let elems = split_on slash full;
                   written = fst (foldl resolve_step ([], True) elems);
                   dots = (last elems = ''.'' \<or> last elems = ''..'');
                   r = slash # written @ (if dots then [slash] else [])
               in if take 1 (tl r) = [slash] then tl r else r))"

section \<open>Header names and header maps\<close>

definition header_token_char :: "char \<Rightarrow> bool" where
  "header_token_char c \<longleftrightarrow> is_alnum c \<or> c \<in> set ''!#$%&*+-.^_|~'' \<or> byte c = 39 \<or> byte c = 96"

definition upper_char :: "char \<Rightarrow> char" where
  "upper_char c = (if is_lower c then char_of (byte c - 32) else c)"

text \<open>The bytes after a dash, and the first, in upper case, the others in lower case.\<close>

fun canonical_bytes :: "bool \<Rightarrow> string \<Rightarrow> string" where
  "canonical_bytes up [] = []"
| "canonical_bytes up (c # cs) =
     (if up then upper_char c else lower_char c) # canonical_bytes (c = CHR ''-'') cs"

text \<open>\<open>http.CanonicalHeaderKey\<close>: a name that is none stays as it is.\<close>

definition canonical_header :: "string \<Rightarrow> string" where
  "canonical_header k = (if list_all header_token_char k then canonical_bytes True k else k)"

text \<open>An \<open>http.Header\<close>; \<open>Set\<close> replaces the values under the canonical name.\<close>

type_synonym header_map = "(string, string list) fmap"

definition header_set :: "string \<Rightarrow> string \<Rightarrow> header_map \<Rightarrow> header_map" where
  "header_set k v h = fmupd (canonical_header k) [v] h"

section \<open>Base64\<close>

text \<open>The alphabets differ in the last two letters; the raw forms have no padding.\<close>

definition base64_char :: "bool \<Rightarrow> nat \<Rightarrow> char" where
  "base64_char url n =
     (if n < 26 then char_of (65 + n) else if n < 52 then char_of (71 + n) else if n < 62 then char_of (n - 4)
      else if n = 62 then (if url then CHR ''-'' else CHR ''+'') else (if url then CHR ''_'' else CHR ''/''))"

fun base64_encode :: "bool \<Rightarrow> bool \<Rightarrow> string \<Rightarrow> string" where
  "base64_encode url pad [] = []"
| "base64_encode url pad [a] =
     base64_char url (byte a div 4) # base64_char url (byte a mod 4 * 16) # (if pad then ''=='' else [])"
| "base64_encode url pad [a, b] =
     base64_char url (byte a div 4) # base64_char url (byte a mod 4 * 16 + byte b div 16) #
     base64_char url (byte b mod 16 * 4) # (if pad then ''='' else [])"
| "base64_encode url pad (a # b # c # rest) =
     base64_char url (byte a div 4) # base64_char url (byte a mod 4 * 16 + byte b div 16) #
     base64_char url (byte b mod 16 * 4 + byte c div 64) # base64_char url (byte c mod 64) #
     base64_encode url pad rest"

abbreviation std_base64 :: "string \<Rightarrow> string" where "std_base64 \<equiv> base64_encode False True"

section \<open>Lemmas\<close>

lemma char_eq_byte: "c = d \<longleftrightarrow> byte c = byte d"
  by (simp add: of_char_eq_iff)

lemma upper_hex_digit: "n < 16 \<Longrightarrow> is_hex_digit (upper_hex n) \<and> hex_value (upper_hex n) = n"
  by (auto simp: upper_hex_def is_hex_digit_def is_hex_lower_def hex_value_def is_digit_def take_bit_eq_mod)

lemma byte_hex: "char_of (16 * (byte c div 16) + byte c mod 16) = (c :: char)"
  by simp

lemma percent_escaped: "\<not> should_escape mode c \<Longrightarrow> byte c \<noteq> 37"
proof
  assume "\<not> should_escape mode c" "byte c = 37"
  then have "c = CHR 0x25" by (simp add: char_eq_byte)
  with \<open>\<not> should_escape mode c\<close> show False
    by (simp add: should_escape_def is_alnum_def is_alpha_def is_upper_def is_lower_def is_digit_def split: if_splits)
qed

lemma plus_escaped: "\<not> should_escape InQuery c \<Longrightarrow> byte c \<noteq> 43"
proof
  assume "\<not> should_escape InQuery c" "byte c = 43"
  moreover then have "c = CHR 0x2B" by (simp add: char_eq_byte)
  ultimately show False
    by (simp add: should_escape_def is_alnum_def is_alpha_def is_upper_def is_lower_def is_digit_def split: if_splits)
qed

text \<open>Decoding an encoding gives the text back, in every mode.\<close>

lemma unescape_escape_byte:
  "unescape_text mode (escape_byte mode c @ s) = map_option (Cons c) (unescape_text mode s)"
proof (cases "should_escape mode c")
  case False
  then show ?thesis using percent_escaped [OF False] plus_escaped [of c]
    by (cases "mode = InQuery") (auto simp: escape_byte_def)
next
  case True
  have h: "byte c div 16 < 16" "byte c mod 16 < 16" using byte_less [of c] by (simp_all add: less_mult_imp_div_less)
  show ?thesis
  proof (cases "mode = InQuery \<and> byte c = 32")
    case sp: True
    then have "c = CHR 0x20" by (simp add: char_eq_byte)
    with True sp show ?thesis by (simp add: escape_byte_def)
  next
    case False
    with True show ?thesis
      using upper_hex_digit [OF h(1)] upper_hex_digit [OF h(2)] by (auto simp: escape_byte_def)
  qed
qed

lemma unescape_escape [simp]: "unescape_text mode (escape_text mode s) = Some s"
proof (induction s)
  case (Cons c s)
  then show ?case using unescape_escape_byte [of mode c "escape_text mode s"] by (simp add: escape_text_def)
qed (simp add: escape_text_def)

text \<open>Whatever the raw form, the escaped path decodes to the path.\<close>

lemma escaped_path_decodes: "unescape_text InPath (escaped_path_of path raw) = Some path"
  by (auto simp: escaped_path_of_def)

text \<open>Canonical names are canonical, and a set header is the only one of its name.\<close>

lemma byte_upper_char: "byte (upper_char c) = (if is_lower c then byte c - 32 else byte c)"
  using byte_less [of c] by (auto simp: upper_char_def is_lower_def take_bit_eq_mod)

lemma upper_char_idem [simp]: "upper_char (upper_char c) = upper_char c"
  by (auto simp: upper_char_def [of "upper_char c"] is_lower_def byte_upper_char)

lemma upper_char_dash [simp]: "upper_char c = CHR ''-'' \<longleftrightarrow> c = CHR ''-''"
  by (auto simp: char_eq_byte byte_upper_char is_lower_def)

lemma lower_char_dash [simp]: "lower_char c = CHR ''-'' \<longleftrightarrow> c = CHR ''-''"
  by (simp add: char_eq_byte byte_lower_char is_upper_def)

lemma canonical_bytes_idem [simp]: "canonical_bytes up (canonical_bytes up s) = canonical_bytes up s"
  by (induction s arbitrary: up) auto

lemma alnum_upper: "is_lower c \<Longrightarrow> is_alnum c \<and> is_alnum (upper_char c)"
  by (auto simp: is_alnum_def is_alpha_def is_lower_def is_upper_def byte_upper_char)

lemma alnum_lower: "is_upper c \<Longrightarrow> is_alnum c \<and> is_alnum (lower_char c)"
  by (auto simp: is_alnum_def is_alpha_def is_lower_def is_upper_def byte_lower_char)

lemma token_upper [simp]: "header_token_char (upper_char c) = header_token_char c"
  using alnum_upper [of c] by (cases "is_lower c") (auto simp: header_token_char_def upper_char_def)

lemma token_lower [simp]: "header_token_char (lower_char c) = header_token_char c"
  using alnum_lower [of c] by (cases "is_upper c") (auto simp: header_token_char_def lower_char_def)

lemma canonical_bytes_token: "list_all header_token_char (canonical_bytes up s) = list_all header_token_char s"
  by (induction s arbitrary: up) auto

lemma canonical_header_idem [simp]: "canonical_header (canonical_header k) = canonical_header k"
  by (simp add: canonical_header_def canonical_bytes_token)

text \<open>The text \<open>resolvePath\<close> gives is empty or begins with a slash.\<close>

lemma resolve_path_rooted: "resolve_path base ref = [] \<or> take 1 (resolve_path base ref) = [slash]"
  by (auto simp: resolve_path_def Let_def)

end
