(* ===== verification/CredStore.thy ===== *)
theory CredStore
  imports AtomicSave GoHttp
begin

text \<open>
  The API connector's credential store (\<open>creds/store.go\<close>): the validation of an entry, the map in memory
  with its generation, and the file it is read from and written to. \<open>time.ParseDuration\<close> and the JSON
  encoding are parameters. The generation counts changes of the map; it is a number, as 2^64 changes are
  not made.
\<close>

section \<open>Credentials\<close>

record credential =
  cr_base_url :: string
  cr_auth :: string
  cr_username :: string
  cr_token :: string
  cr_strip_headers :: "string list"
  cr_strip_query_params :: "string list"
  cr_ca_bundle :: string
  cr_upstream_timeout :: string

record cred_lib =
  parse_duration :: "string \<Rightarrow> duration option"
  creds_decode :: "string \<Rightarrow> (string, credential) fmap option"
  creds_encode :: "(string, credential) fmap \<Rightarrow> string option"

text \<open>
  Decoding what was encoded gives the map back, when its strings are UTF-8: \<open>encoding/json\<close> writes U+FFFD for every
  byte that is not.
\<close>

definition creds_text :: "(string, credential) fmap \<Rightarrow> bool" where
  "creds_text m \<longleftrightarrow> fmpred (\<lambda>plugin c. list_all valid_utf8
     ([plugin, cr_base_url c, cr_auth c, cr_username c, cr_token c, cr_ca_bundle c, cr_upstream_timeout c] @
      cr_strip_headers c @ cr_strip_query_params c)) m"

definition cred_lib_ok :: "cred_lib \<Rightarrow> bool" where
  "cred_lib_ok L \<longleftrightarrow> (\<forall>m data. creds_text m \<longrightarrow> creds_encode L m = Some data \<longrightarrow> creds_decode L data = Some m)"

definition min_cred_token_length :: nat where
  "min_cred_token_length = 16"

definition min_upstream_timeout :: duration where
  "min_upstream_timeout = second"

definition max_upstream_timeout :: duration where
  "max_upstream_timeout = 10 * minute"

datatype cred_error =
    NeedsAuthMode | BearerWithUsername | TokenTooShort | BasicWithoutUsername | UsernameWithColon
  | UnsupportedAuth | EmptyStripHeader | BadStripHeader | EmptyStripParam | BadStripParam
  | BadCABundle | RelativeCABundle | BadTimeout

text \<open>The switch over the mode, the two loops and the last two checks of \<open>Validate\<close>, in order.\<close>

definition check_auth :: "credential \<Rightarrow> cred_error option" where
  "check_auth c =
     (if cr_auth c = [] then (if cr_username c \<noteq> [] \<or> cr_token c \<noteq> [] then Some NeedsAuthMode else None)
      else if cr_auth c = ''bearer'' then
        (if cr_username c \<noteq> [] then Some BearerWithUsername
         else if length (runes (cr_token c)) < min_cred_token_length then Some TokenTooShort else None)
      else if cr_auth c = ''basic'' then
        (if cr_username c = [] then Some BasicWithoutUsername
         else if CHR '':'' \<in> set (cr_username c) then Some UsernameWithColon
         else if length (runes (cr_token c)) < min_cred_token_length then Some TokenTooShort else None)
      else Some UnsupportedAuth)"

fun check_strip_headers :: "string list \<Rightarrow> cred_error option" where
  "check_strip_headers [] = None"
| "check_strip_headers (h # hs) =
     (if trim_space h = [] then Some EmptyStripHeader
      else if contains_any h [CHR '' '', tab, CHR 0x0D, newline, CHR '':''] then Some BadStripHeader
      else check_strip_headers hs)"

fun check_strip_params :: "string list \<Rightarrow> cred_error option" where
  "check_strip_params [] = None"
| "check_strip_params (q # qs) =
     (if trim_space q = [] then Some EmptyStripParam
      else if contains_any q ([CHR '' '', tab, CHR 0x0D, newline] @ ''&=?#%+;[]'') then Some BadStripParam
      else check_strip_params qs)"

definition check_ca_bundle :: "credential \<Rightarrow> cred_error option" where
  "check_ca_bundle c =
     (if cr_ca_bundle c = [] then None
      else if trim_space (cr_ca_bundle c) = [] \<or> CHR 0x00 \<in> set (cr_ca_bundle c) then Some BadCABundle
      else if take 1 (cr_ca_bundle c) \<noteq> [slash] then Some RelativeCABundle else None)"

definition check_timeout :: "cred_lib \<Rightarrow> credential \<Rightarrow> cred_error option" where
  "check_timeout L c =
     (if cr_upstream_timeout c = [] then None
      else (case parse_duration L (cr_upstream_timeout c) of
              None \<Rightarrow> Some BadTimeout
            | Some d \<Rightarrow> if d < min_upstream_timeout \<or> d > max_upstream_timeout then Some BadTimeout else None))"

definition first_error :: "cred_error option list \<Rightarrow> cred_error option" where
  "first_error es = (case filter (\<lambda>e. e \<noteq> None) es of [] \<Rightarrow> None | e # _ \<Rightarrow> e)"

definition validate_cred :: "cred_lib \<Rightarrow> credential \<Rightarrow> cred_error option" where
  "validate_cred L c =
     first_error [check_auth c, check_strip_headers (cr_strip_headers c), check_strip_params (cr_strip_query_params c),
       check_ca_bundle c, check_timeout L c]"

definition upstream_timeout_duration :: "cred_lib \<Rightarrow> credential \<Rightarrow> duration option" where
  "upstream_timeout_duration L c =
     (if cr_upstream_timeout c = [] then None else parse_duration L (cr_upstream_timeout c))"

definition has_authorization :: "cred_lib \<Rightarrow> credential \<Rightarrow> bool" where
  "has_authorization L c \<longleftrightarrow> cr_auth c \<noteq> [] \<and> validate_cred L c = None"

text \<open>\<open>SetBasicAuth\<close> sets the header to \<open>Basic\<close> and the base64 of both parts.\<close>

definition basic_value :: "string \<Rightarrow> string \<Rightarrow> string" where
  "basic_value user pass = ''Basic '' @ std_base64 (user @ '':'' @ pass)"

definition apply_authorization :: "cred_lib \<Rightarrow> credential \<Rightarrow> header_map \<Rightarrow> header_map" where
  "apply_authorization L c h =
     (if \<not> has_authorization L c then h
      else if cr_auth c = ''bearer'' then header_set ''Authorization'' (''Bearer '' @ cr_token c) h
      else if cr_auth c = ''basic'' then
        (if cr_username c \<noteq> [] then header_set ''Authorization'' (basic_value (cr_username c) (cr_token c)) h else h)
      else h)"

section \<open>The store\<close>

record cred_store =
  cs_path :: string
  cs_data :: "(string, credential) fmap"
  cs_generation :: nat

definition get_cred :: "cred_store \<Rightarrow> string \<Rightarrow> credential option" where
  "get_cred s plugin = fmlookup (cs_data s) plugin"

definition put_creds :: "cred_store \<Rightarrow> (string, credential) fmap \<Rightarrow> cred_store" where
  "put_creds s m = s\<lparr>cs_data := m, cs_generation := cs_generation s + 1\<rparr>"

datatype cred_fault =
    CredsUnreadable os_error | CredsCorrupt | CredsInvalid string cred_error | CredsUnsafe
  | CredsRefused cred_error | CredsNotSaved save_error

text \<open>The file calls by path beside those of a save: reading, and the mode once it cannot be set.\<close>

record 'w cred_world =
  cw_read :: "string \<Rightarrow> 'w \<Rightarrow> (os_error + string) \<times> 'w"
  cw_chmod :: "string \<Rightarrow> 32 word \<Rightarrow> 'w \<Rightarrow> os_error option \<times> 'w"
  cw_stat :: "string \<Rightarrow> 'w \<Rightarrow> (os_error + 32 word) \<times> 'w"
  cw_disk :: "'w disk"

datatype cred_step =
    CRead string "os_error + string"
  | CChmod string "32 word" "os_error option"
  | CStat string "os_error + 32 word"
  | CDisk disk_step

text \<open>What the bytes read hold; of several invalid entries the first is named.\<close>

definition invalid_entries :: "cred_lib \<Rightarrow> (string, credential) fmap \<Rightarrow> (string \<times> cred_error) list" where
  "invalid_entries L m =
     concat (map (\<lambda>k. case fmlookup m k of None \<Rightarrow> [] | Some c \<Rightarrow>
       (case validate_cred L c of None \<Rightarrow> [] | Some e \<Rightarrow> [(k, e)])) (sorted_keys m))"

definition parse_creds :: "cred_lib \<Rightarrow> string \<Rightarrow> cred_fault + (string, credential) fmap" where
  "parse_creds L data =
     (case creds_decode L data of
        None \<Rightarrow> Inl CredsCorrupt
      | Some m \<Rightarrow> (case invalid_entries L m of [] \<Rightarrow> Inr m | (k, e) # _ \<Rightarrow> Inl (CredsInvalid k e)))"

definition load_creds ::
  "cred_lib \<Rightarrow> 'w cred_world \<Rightarrow> cred_store \<Rightarrow> (('w, cred_step) sys, cred_fault option \<times> cred_store) state" where
  "load_creds L W s = do {
     r \<leftarrow> effect (cw_read W (cs_path s)) (CRead (cs_path s));
     ret (case r of
        Inl e \<Rightarrow> (Some (CredsUnreadable e), s)
      | Inr data \<Rightarrow> (case parse_creds L data of Inl f \<Rightarrow> (Some f, s) | Inr m \<Rightarrow> (None, put_creds s m)))
   }"

definition creds_mode_acceptable :: "32 word \<Rightarrow> bool" where
  "creds_mode_acceptable mode \<longleftrightarrow> mode AND 0x17 = 0"

text \<open>\<open>New\<close>.\<close>

definition new_creds ::
  "cred_lib \<Rightarrow> 'w cred_world \<Rightarrow> string \<Rightarrow> (('w, cred_step) sys, cred_fault + cred_store) state" where
  "new_creds L W path = (let s0 = \<lparr>cs_path = path, cs_data = fmempty, cs_generation = 0\<rparr> in do {
     r \<leftarrow> load_creds L W s0;
     (case r of
        (Some f, s) \<Rightarrow> ret (if f = CredsUnreadable NoEnt then Inr s else Inl f)
      | (None, s) \<Rightarrow> do {
          e \<leftarrow> effect (cw_chmod W path owner_only) (CChmod path owner_only);
          (case e of
             None \<Rightarrow> ret (Inr s)
           | Some er \<Rightarrow> do {
               st \<leftarrow> effect (cw_stat W path) (CStat path);
               ret (case st of
                      Inl _ \<Rightarrow> Inl CredsUnsafe
                    | Inr mode \<Rightarrow> if creds_mode_acceptable mode then Inr s else Inl CredsUnsafe)
             })
        })
   })"

definition reload_creds ::
  "cred_lib \<Rightarrow> 'w cred_world \<Rightarrow> cred_store \<Rightarrow> (('w, cred_step) sys, cred_fault option \<times> cred_store) state" where
  "reload_creds L W s = do {
     r \<leftarrow> load_creds L W s;
     ret (case r of
            (Some f, s1) \<Rightarrow> if f = CredsUnreadable NoEnt then (None, put_creds s1 fmempty) else (Some f, s1)
          | (None, s1) \<Rightarrow> (None, s1))
   }"

section \<open>Saving\<close>

text \<open>\<open>save\<close> once the map is encoded. The flag that keeps the temporary file is set before the rename.\<close>

definition fill_creds ::
  "'w disk \<Rightarrow> string \<Rightarrow> string \<Rightarrow> (('w, disk_step) sys, save_error option) state" where
  "fill_creds D data n =
     try_or (effect (dk_close D n) (DClose n)) (effect (dk_chmod D n owner_only) (DChmod n owner_only)) AtChmod
       (try_or (effect (dk_close D n) (DClose n)) (effect (dk_write D n data) (DWrite n data)) AtWrite
         (try_or (effect (dk_close D n) (DClose n)) (effect (dk_sync D n) (DSync n)) AtSync
           (try_step (effect (dk_close D n) (DClose n)) AtClose (ret None))))"

definition install_creds ::
  "'w disk \<Rightarrow> string \<Rightarrow> string \<Rightarrow> (('w, disk_step) sys, save_error option) state" where
  "install_creds D path data = (let pat = ''.credentials-*.tmp'' in do {
     f \<leftarrow> effect (dk_create D (path_dir path) pat) (DCreate (path_dir path) pat);
     (case f of
        Inl e \<Rightarrow> ret (Some (AtCreate, e))
      | Inr n \<Rightarrow> do {
          r \<leftarrow> fill_creds D data n;
          (case r of
             None \<Rightarrow> try_step (effect (dk_rename D n path) (DRename n path)) AtRename (ret None)
           | Some e \<Rightarrow> do { _ \<leftarrow> effect (dk_remove D n) (DRemove n); ret (Some e) })
        })
   })"

definition not_encoded :: os_error where
  "not_encoded = OtherErrno ''json''"

definition save_creds ::
  "cred_lib \<Rightarrow> 'w disk \<Rightarrow> cred_store \<Rightarrow> (('w, disk_step) sys, save_error option) state" where
  "save_creds L D s =
     (case creds_encode L (cs_data s) of
        None \<Rightarrow> ret (Some (AtEncode, not_encoded))
      | Some data \<Rightarrow> install_creds D (cs_path s) data)"

text \<open>\<open>Set\<close> and \<open>Remove\<close>: the map in memory changes before the file is written, and stays changed.\<close>

definition set_cred ::
  "cred_lib \<Rightarrow> 'w disk \<Rightarrow> string \<Rightarrow> credential \<Rightarrow> cred_store \<Rightarrow>
   (('w, disk_step) sys, cred_fault option \<times> cred_store) state" where
  "set_cred L D plugin c s =
     (case validate_cred L c of
        Some e \<Rightarrow> ret (Some (CredsRefused e), s)
      | None \<Rightarrow> (let s1 = put_creds s (fmupd plugin c (cs_data s)) in do {
          e \<leftarrow> save_creds L D s1;
          ret (map_option CredsNotSaved e, s1)
        }))"

definition remove_cred ::
  "cred_lib \<Rightarrow> 'w disk \<Rightarrow> string \<Rightarrow> cred_store \<Rightarrow> (('w, disk_step) sys, cred_fault option \<times> cred_store) state" where
  "remove_cred L D plugin s = (let s1 = put_creds s (fmdrop plugin (cs_data s)) in do {
     e \<leftarrow> save_creds L D s1;
     ret (map_option CredsNotSaved e, s1)
   })"

section \<open>What a store holds\<close>

text \<open>Every way a store comes about: created, and then changed or reloaded, in any worlds.\<close>

inductive cred_reach :: "cred_lib \<Rightarrow> 'w cred_world \<Rightarrow> cred_store \<Rightarrow> bool" for L W where
  created: "in_world (new_creds L W path) w = (Inr s, es) \<Longrightarrow> cred_reach L W s"
| set: "cred_reach L W s \<Longrightarrow> in_world (set_cred L (cw_disk W) plugin c s) w = ((e, s'), es) \<Longrightarrow> cred_reach L W s'"
| removed: "cred_reach L W s \<Longrightarrow> in_world (remove_cred L (cw_disk W) plugin s) w = ((e, s'), es) \<Longrightarrow> cred_reach L W s'"
| reloaded: "cred_reach L W s \<Longrightarrow> in_world (reload_creds L W s) w = ((e, s'), es) \<Longrightarrow> cred_reach L W s'"

lemmas cred_intros = emits_bind emits_effect emits_return emits_sum emits_if emits_option emits_let emits_prod

definition creds_valid :: "cred_lib \<Rightarrow> (string, credential) fmap \<Rightarrow> bool" where
  "creds_valid L m \<longleftrightarrow> fmpred (\<lambda>k c. validate_cred L c = None) m"

lemma creds_valid_empty [simp]: "creds_valid L fmempty"
  by (simp add: creds_valid_def)

lemma creds_valid_upd: "creds_valid L m \<Longrightarrow> validate_cred L c = None \<Longrightarrow> creds_valid L (fmupd k c m)"
  by (simp add: creds_valid_def fmpred_upd)

lemma creds_valid_drop: "creds_valid L m \<Longrightarrow> creds_valid L (fmdrop k m)"
  by (simp add: creds_valid_def fmpred_drop)

lemma invalid_entries_none: "invalid_entries L m = [] \<longleftrightarrow> creds_valid L m"
proof -
  have "(case fmlookup m k of None \<Rightarrow> [] | Some c \<Rightarrow> (case validate_cred L c of None \<Rightarrow> [] | Some e \<Rightarrow> [(k, e)])) = [] \<longleftrightarrow>
      (\<forall>c. fmlookup m k = Some c \<longrightarrow> validate_cred L c = None)" for k
    by (simp split: option.split)
  then show ?thesis by (auto simp: invalid_entries_def creds_valid_def fmpred_iff dest: fmdom'I)
qed

lemma parse_creds_valid: "parse_creds L data = Inr m \<Longrightarrow> creds_valid L m \<and> creds_decode L data = Some m"
  by (auto simp: parse_creds_def invalid_entries_none [symmetric] split: option.splits list.splits)

text \<open>A step of a store: its map stays valid, its path stays, and it is the same or of a later generation.\<close>

definition store_next :: "cred_lib \<Rightarrow> cred_store \<Rightarrow> cred_store \<Rightarrow> bool" where
  "store_next L s s' \<longleftrightarrow> cs_path s' = cs_path s \<and> (creds_valid L (cs_data s) \<longrightarrow> creds_valid L (cs_data s')) \<and>
     (s' = s \<or> cs_generation s' = cs_generation s + 1)"

lemma store_next_refl [simp]: "store_next L s s"
  by (simp add: store_next_def)

lemma store_next_put: "(creds_valid L (cs_data s) \<Longrightarrow> creds_valid L m) \<Longrightarrow> store_next L s (put_creds s m)"
  by (simp add: store_next_def put_creds_def)

lemma load_creds_next: "emits (load_creds L W s) (\<lambda>r es. store_next L s (snd r) \<and> (fst r \<noteq> None \<longrightarrow> snd r = s))"
  unfolding load_creds_def
  by (intro cred_intros) (auto intro!: store_next_put dest: parse_creds_valid split: sum.splits)

lemma reload_creds_next: "emits (reload_creds L W s) (\<lambda>r es. store_next L s (snd r))"
  unfolding reload_creds_def
  apply (rule emits_then [OF load_creds_next])
  apply (rule emits_return)
  apply (auto intro!: store_next_put split: prod.splits option.splits)
  done

lemma new_creds_next:
  "emits (new_creds L W path) (\<lambda>r es. case r of Inr s \<Rightarrow> creds_valid L (cs_data s) | Inl f \<Rightarrow> True)"
  unfolding new_creds_def Let_def
  apply (rule emits_then [OF load_creds_next])
  apply (intro cred_intros)
  apply (auto simp: store_next_def split: sum.splits)
  done

lemma set_cred_next: "emits (set_cred L D plugin c s) (\<lambda>r es. store_next L s (snd r))"
  unfolding set_cred_def Let_def save_creds_def install_creds_def fill_creds_def save_defs
  by (intro cred_intros) (auto intro!: store_next_put creds_valid_upd)

lemma remove_cred_next: "emits (remove_cred L D plugin s) (\<lambda>r es. store_next L s (snd r))"
  unfolding remove_cred_def Let_def save_creds_def install_creds_def fill_creds_def save_defs
  by (intro cred_intros) (auto intro!: store_next_put creds_valid_drop)

text \<open>Every credential in a store is valid, whatever files it was created and reloaded from and whatever was
set and removed.\<close>

theorem stored_credentials_valid:
  "cred_reach L W s \<Longrightarrow> fmpred (\<lambda>k c. validate_cred L c = None) (cs_data s)"
proof (induction rule: cred_reach.induct)
  case (created path w s es)
  from in_worldD [OF new_creds_next created(1)] show ?case by (simp add: creds_valid_def)
next
  case (set s plugin c w e s' es)
  from in_worldD [OF set_cred_next set(2)] set(3) show ?case by (simp add: creds_valid_def store_next_def)
next
  case (removed s plugin w e s' es)
  from in_worldD [OF remove_cred_next removed(2)] removed(3) show ?case by (simp add: creds_valid_def store_next_def)
next
  case (reloaded s w e s' es)
  from in_worldD [OF reload_creds_next reloaded(2)] reloaded(3) show ?case by (simp add: creds_valid_def store_next_def)
qed

text \<open>
  Nothing a credential is validated for makes its strings UTF-8, so a token can be stored that is not read back as it
  was given.
\<close>

lemma invalid_token_accepted:
  "\<exists>c. validate_cred L c = None \<and> \<not> valid_utf8 (cr_token c)"
proof (intro exI conjI)
  let ?c = "\<lparr>cr_base_url = [], cr_auth = ''bearer'', cr_username = [], cr_token = replicate 16 (CHR 0xFF),
    cr_strip_headers = [], cr_strip_query_params = [], cr_ca_bundle = [], cr_upstream_timeout = []\<rparr>"
  have "length (runes (replicate n (CHR 0xFF))) = n" for n
    by (induction n) (simp_all add: Let_def)
  then show "validate_cred L ?c = None"
    by (simp add: validate_cred_def first_error_def check_auth_def min_cred_token_length_def check_ca_bundle_def check_timeout_def)
  show "\<not> valid_utf8 (cr_token ?c)" by (simp add: numeral_eq_Suc Let_def)
qed

section \<open>What a save leaves\<close>

lemma install_creds_rule:
  "emits (install_creds D path data) (\<lambda>r es. each_step (install_allowed True path data) [] es)"
  unfolding install_creds_def fill_creds_def save_defs Let_def by (intro cred_intros) simp_all

lemma install_creds_outcome:
  "emits (install_creds D path data)
     (\<lambda>r es. renamed path es \<longleftrightarrow> installed r)"
  unfolding install_creds_def fill_creds_def save_defs Let_def by (intro cred_intros) auto

interpretation creds_file: atomic_save "install_creds D" True for D :: "'w disk"
  by unfold_locales (rule install_creds_rule, rule install_creds_outcome)

text \<open>
  A rename that fails leaves the temporary file, with every token in it: the flag that would have it
  removed is cleared before the rename.
\<close>

lemma failed_rename_leaves_temp:
  "emits (install_creds D path data)
     (\<lambda>r es. cleaned path es \<longleftrightarrow> (case r of Some (AtRename, e) \<Rightarrow> False | _ \<Rightarrow> True))"
  unfolding install_creds_def fill_creds_def save_defs Let_def
  by (intro cred_intros) (auto simp: cleaned_def)

end
