(* ===== verification/ApiRequest.thy ===== *)
theory ApiRequest
  imports CredStore
begin

text \<open>
  What the API connector makes of a request before it is sent (\<open>plugin/handler.go\<close>, \<open>plugin/registry.go\<close>,
  \<open>plugin/errorcodes.go\<close>): which upstream it goes to, its confined path, the query and the headers without
  the caller's credentials, and the replies that stand for a request that is not forwarded.

  \<open>url.Parse\<close>, \<open>time.Parse\<close>, the case mappings of package \<open>strings\<close> and the JSON text of one reply are
  parameters.
\<close>

section \<open>Library\<close>

text \<open>
  A parsed URL with a host, or a reference that begins with a slash: neither has an opaque part.
  \<open>w_user\<close> says whether it has user information.
\<close>

record web_url =
  w_scheme :: string
  w_user :: bool
  w_host :: string
  w_path :: string
  w_raw_path :: string
  w_force_query :: bool
  w_query :: string
  w_fragment :: string

record http_lib =
  hl_url_parse :: "string \<Rightarrow> web_url option"
  hl_lower :: "string \<Rightarrow> string"
  hl_upper :: "string \<Rightarrow> string"
  hl_parse_time :: "string \<Rightarrow> gtime option"
  hl_not_found :: "string \<Rightarrow> string"
  hl_creds :: cred_lib

text \<open>\<open>URL.EscapedPath\<close>, and the path as it stands in \<open>URL.String\<close> and on the wire.\<close>

definition url_escaped_path :: "web_url \<Rightarrow> string" where
  "url_escaped_path u = escaped_path_of (w_path u) (w_raw_path u)"

definition wire_path :: "web_url \<Rightarrow> string" where
  "wire_path u =
     (let p = url_escaped_path u
      in if p \<noteq> [] \<and> take 1 p \<noteq> [slash] \<and> w_host u \<noteq> [] then slash # p else p)"

definition url_text :: "web_url \<Rightarrow> string" where
  "url_text u = w_scheme u @ ''://'' @ escape_text InHost (w_host u) @ wire_path u @
     (if w_force_query u \<or> w_query u \<noteq> [] then ''?'' @ w_query u else [])"

text \<open>\<open>URL.ResolveReference\<close>; a path that does not decode leaves the one that is there.\<close>

definition with_path :: "web_url \<Rightarrow> string \<Rightarrow> web_url" where
  "with_path u p = (case set_path p of None \<Rightarrow> u | Some (path, raw) \<Rightarrow> u\<lparr>w_path := path, w_raw_path := raw\<rparr>)"

definition resolve_reference :: "web_url \<Rightarrow> web_url \<Rightarrow> web_url" where
  "resolve_reference base ref =
     (let url = (if w_scheme ref = [] then ref\<lparr>w_scheme := w_scheme base\<rparr> else ref)
      in if w_scheme ref \<noteq> [] \<or> w_host ref \<noteq> [] \<or> w_user ref
         then with_path url (resolve_path (url_escaped_path ref) [])
         else (let url1 = (if w_path ref = [] \<and> \<not> w_force_query ref \<and> w_query ref = []
                           then url\<lparr>w_query := w_query base\<rparr> else url)
               in with_path (url1\<lparr>w_host := w_host base, w_user := w_user base\<rparr>)
                    (resolve_path (url_escaped_path base) (url_escaped_path ref))))"

section \<open>Error replies\<close>

datatype error_code =
    UpstreamTimeout | UpstreamUnreachable | UpstreamError | ResponseTooLarge | RequestTooLarge | PathBlocked
  | InvalidPath | ProviderNotFound | MethodNotAllowed | InvalidBaseURL | InvalidCABundle | CredentialLeak | Expired

fun code_text :: "error_code \<Rightarrow> string" where
  "code_text UpstreamTimeout = ''upstream_timeout''"
| "code_text UpstreamUnreachable = ''upstream_unreachable''"
| "code_text UpstreamError = ''upstream_error''"
| "code_text ResponseTooLarge = ''response_too_large''"
| "code_text RequestTooLarge = ''request_too_large''"
| "code_text PathBlocked = ''path_blocked''"
| "code_text InvalidPath = ''invalid_path''"
| "code_text ProviderNotFound = ''provider_not_found''"
| "code_text MethodNotAllowed = ''method_not_allowed''"
| "code_text InvalidBaseURL = ''invalid_base_url''"
| "code_text InvalidCABundle = ''invalid_ca_bundle''"
| "code_text CredentialLeak = ''upstream_credential_leak''"
| "code_text Expired = ''expired''"

definition error_header :: string where
  "error_header = ''X-Mkonnect-Error''"

definition err_headers :: "error_code \<Rightarrow> (string, string) fmap" where
  "err_headers code = fmupd error_header (code_text code) fmempty"

text \<open>An error value, from the outside in: what each link of the chain is to the code's tests.\<close>

record err_link =
  el_op :: "string option"
  el_timeout :: "bool option"
  el_deadline :: bool
  el_dns :: bool
  el_cert :: bool
  el_syscall :: "string option"

type_synonym go_error = "err_link list"

datatype handler_error = CtxDone | BuildFailed | DoFailed go_error | ReadFailed go_error

record http_reply =
  rp_status :: int
  rp_headers :: "(string, string) fmap"
  rp_body :: "string option"
  rp_error :: "handler_error option"

definition synthesised :: "int \<Rightarrow> error_code \<Rightarrow> string \<Rightarrow> http_reply" where
  "synthesised status code body =
     \<lparr>rp_status = status, rp_headers = err_headers code, rp_body = Some body, rp_error = None\<rparr>"

section \<open>The upstream\<close>

text \<open>One \<open>PLUGIN_NAME=url\<close> of the environment; None is the error of an unusable URL.\<close>

type_synonym registry = "(string, string) fmap"

definition plugin_prefix :: string where
  "plugin_prefix = ''PLUGIN_''"

definition load_plugin :: "http_lib \<Rightarrow> string \<Rightarrow> registry \<Rightarrow> registry option" where
  "load_plugin H env r =
     (if \<not> prefix plugin_prefix env then Some r
      else (case cut (CHR ''='') env of (k, val, found) \<Rightarrow>
        (if \<not> found then Some r
         else (let name = hl_lower H (drop (length plugin_prefix) k)
               in if name = [] \<or> val = [] then Some r
                  else (case hl_url_parse H val of
                          None \<Rightarrow> None
                        | Some u \<Rightarrow>
                            (if w_scheme u \<noteq> ''http'' \<and> w_scheme u \<noteq> ''https'' \<or> w_host u = [] then None
                             else if w_user u \<or> w_query u \<noteq> [] \<or> w_fragment u \<noteq> [] then None
                             else Some (fmupd name val r)))))))"

fun load_registry :: "http_lib \<Rightarrow> string list \<Rightarrow> registry \<Rightarrow> registry option" where
  "load_registry H [] r = Some r"
| "load_registry H (e # es) r =
     (case load_plugin H e r of None \<Rightarrow> None | Some r1 \<Rightarrow> load_registry H es r1)"

record http_request =
  rq_request_id :: string
  rq_responder_id :: string
  rq_provider_key :: string
  rq_method :: string
  rq_path :: string
  rq_headers :: "(string \<times> string) list"
  rq_body :: "string option"
  rq_expires_at :: string

definition base_url_for :: "registry \<Rightarrow> credential option \<Rightarrow> string \<Rightarrow> string option" where
  "base_url_for reg cred key =
     (case cred of
        Some c \<Rightarrow> if cr_base_url c \<noteq> [] then Some (cr_base_url c) else fmlookup reg key
      | None \<Rightarrow> fmlookup reg key)"

definition request_method :: "http_lib \<Rightarrow> string \<Rightarrow> string" where
  "request_method H m = (let up = hl_upper H (trim_space m) in if up = [] then ''GET'' else up)"

definition allowed_methods :: "string list" where
  "allowed_methods = [''DELETE'', ''GET'', ''HEAD'', ''OPTIONS'', ''PATCH'', ''POST'', ''PUT'']"

definition usable_base :: "web_url \<Rightarrow> bool" where
  "usable_base b \<longleftrightarrow> (w_scheme b = ''http'' \<or> w_scheme b = ''https'') \<and> w_host b \<noteq> [] \<and> \<not> w_user b \<and>
     w_query b = [] \<and> w_fragment b = []"

definition trim_right_slashes :: "string \<Rightarrow> string" where
  "trim_right_slashes p = rev (dropWhile (\<lambda>c. c = slash) (rev p))"

text \<open>The prefix test on the cleaned path.\<close>

definition confined :: "string \<Rightarrow> string \<Rightarrow> bool" where
  "confined base_path p \<longleftrightarrow>
     (if base_path \<noteq> [] \<and> base_path \<noteq> ''/''
      then prefix (trim_right_slashes base_path @ ''/'') (p @ ''/'') else True)"

text \<open>The target of a request: the caller's escaped path is kept only when it is the checked path's encoding.\<close>

definition caller_form :: "web_url \<Rightarrow> string \<Rightarrow> web_url \<Rightarrow> web_url" where
  "caller_form base caller_raw t =
     (let candidate = trim_suffix (url_escaped_path base) ''/'' @ caller_raw
      in if escaped_path_of (w_path t) candidate \<noteq> candidate then t\<lparr>w_raw_path := []\<rparr>
         else t\<lparr>w_raw_path := candidate\<rparr>)"

definition resolve_target :: "http_lib \<Rightarrow> string \<Rightarrow> string \<Rightarrow> http_reply + web_url" where
  "resolve_target H base_url path =
     (if take 1 path \<noteq> ''/'' then Inl (synthesised 400 InvalidPath ''{\"error\":\"path must begin with /\"}'')
      else (case hl_url_parse H base_url of
        None \<Rightarrow> Inl (synthesised 500 InvalidBaseURL ''{\"error\":\"invalid base URL\"}'')
      | Some base \<Rightarrow>
          (if \<not> usable_base base then Inl (synthesised 500 InvalidBaseURL ''{\"error\":\"invalid base URL\"}'')
           else (case hl_url_parse H path of
             None \<Rightarrow> Inl (synthesised 400 InvalidPath ''{\"error\":\"invalid path\"}'')
           | Some ref \<Rightarrow>
               (if w_user ref then Inl (synthesised 400 InvalidPath ''{\"error\":\"invalid path\"}'')
                else (let caller_raw = url_escaped_path ref;
                          t0 = resolve_reference base (ref\<lparr>w_path := w_path base @ w_path ref\<rparr>);
                          t = t0\<lparr>w_raw_path := [], w_path := path_clean (w_path t0)\<rparr>
                      in if w_host t \<noteq> w_host base
                         then Inl (synthesised 400 InvalidPath ''{\"error\":\"invalid path\"}'')
                         else if \<not> confined (w_path base) (w_path t)
                         then Inl (synthesised 400 PathBlocked ''{\"error\":\"path traversal not allowed\"}'')
                         else Inr (caller_form base caller_raw t)))))))"

section \<open>The query\<close>

definition default_credential_query_params :: "string list" where
  "default_credential_query_params = [''private_token'', ''job_token'', ''access_token'', ''token'']"

definition bracket :: "char \<Rightarrow> bool" where
  "bracket c \<longleftrightarrow> c = CHR ''['' \<or> c = CHR '']''"

definition canonical_query_param_name :: "http_lib \<Rightarrow> string \<Rightarrow> string option" where
  "canonical_query_param_name H key =
     (case query_unescape key of
        None \<Rightarrow> None
      | Some decoded \<Rightarrow>
          Some (hl_lower H (map (\<lambda>c. if c = CHR ''.'' \<or> c = CHR '' '' then CHR ''_'' else c)
            (takeWhile (\<lambda>c. \<not> bracket c) (dropWhile bracket decoded)))))"

text \<open>One parameter is kept when its name decodes and is not one to strip.\<close>

definition keep_token :: "http_lib \<Rightarrow> string list \<Rightarrow> string \<Rightarrow> bool" where
  "keep_token H strip token \<longleftrightarrow>
     (case canonical_query_param_name H (takeWhile (\<lambda>c. c \<noteq> CHR ''='') token) of
        None \<Rightarrow> False
      | Some name \<Rightarrow> name \<notin> set strip)"

text \<open>\<open>flush\<close>: what is written so far and whether anything was dropped; \<open>sep\<close> is the byte before the token.\<close>

definition flush_token ::
  "http_lib \<Rightarrow> string list \<Rightarrow> char option \<Rightarrow> string \<Rightarrow> string \<times> bool \<Rightarrow> string \<times> bool" where
  "flush_token H strip sep token acc =
     (case acc of (out, changed) \<Rightarrow>
        (if token = [] then acc
         else if \<not> keep_token H strip token then (out, True)
         else (out @ (case sep of Some c \<Rightarrow> if out \<noteq> [] then [c] else [] | None \<Rightarrow> []) @ token, changed)))"

definition separator :: "char \<Rightarrow> bool" where
  "separator c \<longleftrightarrow> c = CHR ''&'' \<or> c = CHR '';''"

fun strip_scan ::
  "http_lib \<Rightarrow> string list \<Rightarrow> char option \<Rightarrow> string \<Rightarrow> string \<times> bool \<Rightarrow> string \<Rightarrow> string \<times> bool" where
  "strip_scan H strip sep token acc [] = flush_token H strip sep token acc"
| "strip_scan H strip sep token acc (c # cs) =
     (if separator c then strip_scan H strip (Some c) [] (flush_token H strip sep token acc) cs
      else strip_scan H strip sep (token @ [c]) acc cs)"

definition strip_query_params_from_raw :: "http_lib \<Rightarrow> string \<Rightarrow> string list \<Rightarrow> string" where
  "strip_query_params_from_raw H raw strip =
     (if raw = [] \<or> strip = [] then raw
      else (case strip_scan H strip None [] ([], False) raw of
              (out, changed) \<Rightarrow> if \<not> changed then raw else out))"

definition query_strip_set :: "http_lib \<Rightarrow> credential option \<Rightarrow> bool \<Rightarrow> string list" where
  "query_strip_set H cred direct =
     (case cred of
        Some c \<Rightarrow> List.map_filter (canonical_query_param_name H) (cr_strip_query_params c)
      | None \<Rightarrow> []) @
     (if direct then default_credential_query_params else [])"

section \<open>The headers\<close>

definition hop_by_hop_headers :: "string list" where
  "hop_by_hop_headers =
     [''Connection'', ''Keep-Alive'', ''Proxy-Authenticate'', ''Proxy-Authorization'', ''Proxy-Connection'', ''Te'',
      ''Trailer'', ''Transfer-Encoding'', ''Upgrade'']"

definition strip_header_key :: "string \<Rightarrow> string" where
  "strip_header_key name = canonical_header (map (\<lambda>c. if c = CHR ''_'' then CHR ''-'' else c) name)"

definition strip_header_set :: "string list \<Rightarrow> string list" where
  "strip_header_set names = map strip_header_key names"

definition default_credential_headers :: "string list" where
  "default_credential_headers = strip_header_set
     [''Authorization'', ''Proxy-Authorization'', ''Cookie'', ''PRIVATE-TOKEN'', ''JOB-TOKEN'', ''X-Api-Key'', ''X-Auth-Token'']"

definition headers_to_strip :: "credential option \<Rightarrow> bool \<Rightarrow> string list" where
  "headers_to_strip cred direct =
     (case cred of Some c \<Rightarrow> strip_header_set (cr_strip_headers c) | None \<Rightarrow> []) @
     (if direct then default_credential_headers else [])"

definition forward_header :: "string list \<Rightarrow> string \<times> string \<Rightarrow> header_map \<Rightarrow> header_map" where
  "forward_header strip kv h =
     (case kv of (k, v) \<Rightarrow>
        (if canonical_header k \<in> set hop_by_hop_headers then h
         else if strip_header_key k \<in> set strip then h
         else header_set k v h))"

definition request_headers :: "http_lib \<Rightarrow> credential option \<Rightarrow> bool \<Rightarrow> (string \<times> string) list \<Rightarrow> header_map" where
  "request_headers H cred direct hs =
     (let h = header_set ''Via'' ''1.1 mkonnect'' (fold (forward_header (headers_to_strip cred direct)) hs fmempty)
      in case cred of
           Some c \<Rightarrow> if direct then apply_authorization (hl_creds H) c h else h
         | None \<Rightarrow> h)"

section \<open>The request that is sent\<close>

definition max_body_bytes :: nat where
  "max_body_bytes = 33554432"

definition default_upstream_timeout :: duration where
  "default_upstream_timeout = 10 * second"

definition effective_upstream_timeout :: "http_lib \<Rightarrow> credential option \<Rightarrow> duration" where
  "effective_upstream_timeout H cred =
     (case cred of
        None \<Rightarrow> default_upstream_timeout
      | Some c \<Rightarrow> (case upstream_timeout_duration (hl_creds H) c of Some d \<Rightarrow> d | None \<Rightarrow> default_upstream_timeout))"

record outbound =
  or_method :: string
  or_target :: web_url
  or_headers :: header_map
  or_body :: string
  or_direct :: bool
  or_ca_bundle :: string
  or_timeout :: duration

text \<open>\<open>expired\<close> of \<open>requestExpired\<close>; an absent or malformed deadline is none.\<close>

definition request_expired :: "http_lib \<Rightarrow> string \<Rightarrow> gtime \<Rightarrow> bool" where
  "request_expired H expires_at now =
     (if expires_at = [] then False
      else (case hl_parse_time H expires_at of None \<Rightarrow> False | Some deadline \<Rightarrow> deadline < now))"

definition build_failed :: http_reply where
  "build_failed = \<lparr>rp_status = 0, rp_headers = fmempty, rp_body = None, rp_error = Some BuildFailed\<rparr>"

text \<open>From the target to the request; \<open>http.NewRequest\<close> parses the target's text again.\<close>

definition build_request ::
  "http_lib \<Rightarrow> credential option \<Rightarrow> string \<Rightarrow> http_request \<Rightarrow> string \<Rightarrow> web_url \<Rightarrow> http_reply + outbound" where
  "build_request H cred default_ca msg method t =
     (let direct = (case cred of None \<Rightarrow> False | Some c \<Rightarrow> has_authorization (hl_creds H) c);
          t1 = t\<lparr>w_query := strip_query_params_from_raw H (w_query t) (query_strip_set H cred direct), w_fragment := []\<rparr>;
          body = (case rq_body msg of None \<Rightarrow> [] | Some b \<Rightarrow> b)
      in if max_body_bytes < length body
         then Inl (synthesised 413 RequestTooLarge ''{\"error\":\"request body too large\"}'')
         else if hl_url_parse H (url_text t1) = None then Inl build_failed
         else Inr \<lparr>or_method = method, or_target = t1, or_headers = request_headers H cred direct (rq_headers msg),
                or_body = body, or_direct = direct,
                or_ca_bundle = (case cred of Some c \<Rightarrow> if cr_ca_bundle c \<noteq> [] then cr_ca_bundle c else default_ca
                                           | None \<Rightarrow> default_ca),
                or_timeout = effective_upstream_timeout H cred\<rparr>)"

definition plan_request ::
  "http_lib \<Rightarrow> registry \<Rightarrow> credential option \<Rightarrow> string \<Rightarrow> http_request \<Rightarrow> http_reply + outbound" where
  "plan_request H reg cred default_ca msg =
     (case base_url_for reg cred (rq_provider_key msg) of
        None \<Rightarrow> Inl (synthesised 404 ProviderNotFound (hl_not_found H (rq_provider_key msg)))
      | Some base_url \<Rightarrow>
          (let method = request_method H (rq_method msg)
           in if method \<notin> set allowed_methods
              then Inl (synthesised 405 MethodNotAllowed ''{\"error\":\"method not allowed\"}'')
              else (case resolve_target H base_url (rq_path msg) of
                      Inl r \<Rightarrow> Inl r
                    | Inr t \<Rightarrow> build_request H cred default_ca msg method t)))"

end
