(* ===== verification/CredCli.thy ===== *)
theory CredCli
  imports ApiRequest GoFlags
begin

text \<open>
  The API connector's command line (\<open>cli/config.go\<close>): \<open>config set\<close>, \<open>list\<close>, \<open>remove\<close> and \<open>status\<close>, over the credential
  store of theory CredStore. The world prints a text, reads standard input and holds the files; every step is logged.
  The quoting verb of \<open>fmt\<close> and the usage texts are parameters.
\<close>

section \<open>The world of a command\<close>

record 'w cli_world =
  ci_print :: "string \<Rightarrow> 'w \<Rightarrow> unit \<times> 'w"
  ci_stdin :: "'w \<Rightarrow> (os_error + string) \<times> 'w"
  ci_creds :: "'w cred_world"

datatype cli_step = CPrint string | CStdin "os_error + string" | CStore cred_step

record cli_lib =
  cl_http :: http_lib
  cl_quote :: "string \<Rightarrow> string"
  cl_flag_text :: "flag_error \<Rightarrow> string"

abbreviation cl_creds :: "cli_lib \<Rightarrow> cred_lib" where
  "cl_creds L \<equiv> hl_creds (cl_http L)"

datatype cli_error =
    CliUsage | CliUnknownCommand string | CliBadFlags flag_error | CliTokenArgument | CliNoBaseURL | CliBadBaseURL
  | CliBaseURLParts | CliBadAuth string | CliTokenNeedsAuth | CliUsernameNeedsBasic | CliBearerNeedsToken
  | CliUsernameNotBasic | CliBasicNeedsUsername | CliUsernameColon | CliBasicNeedsToken | CliStdin os_error
  | CliStdinEmpty | CliTokenShort | CliRelativeCA | CliOpenStore cred_fault | CliSave cred_fault | CliRemove cred_fault

abbreviation print_all :: "'w cli_world \<Rightarrow> string list \<Rightarrow> (('w, cli_step) sys, unit) state" where
  "print_all W \<equiv> print_lines (ci_print W) CPrint"

definition default_creds_file :: string where
  "default_creds_file = ''/data/credentials.json''"

definition creds_path :: "(string \<Rightarrow> string) \<Rightarrow> string" where
  "creds_path getenv = (if getenv ''CREDS_FILE'' \<noteq> [] then getenv ''CREDS_FILE'' else default_creds_file)"

definition open_store :: "cli_lib \<Rightarrow> 'w cli_world \<Rightarrow> string \<Rightarrow> (('w, cli_step) sys, cred_fault + cred_store) state" where
  "open_store L W path = logged CStore (new_creds (cl_creds L) (ci_creds W) path)"

section \<open>\<open>config set\<close>\<close>

record set_args =
  sa_base_url :: string
  sa_auth :: string
  sa_username :: string
  sa_token_stdin :: bool
  sa_strip_headers :: string
  sa_strip_query :: string
  sa_ca_bundle :: string
  sa_timeout :: string

definition set_flags :: "string \<Rightarrow> flag_kind option" where
  "set_flags n =
     (if n = ''token-stdin'' then Some BoolFlag
      else if n \<in> set [''base-url'', ''auth'', ''username'', ''token'', ''strip-headers'', ''strip-query-params'', ''ca-bundle'', ''upstream-timeout'']
      then Some StringFlag else None)"

definition set_args_of :: "flag_values \<Rightarrow> set_args" where
  "set_args_of asg =
     \<lparr>sa_base_url = flag_str asg ''base-url'', sa_auth = flag_str asg ''auth'', sa_username = flag_str asg ''username'',
      sa_token_stdin = flag_bool asg ''token-stdin'', sa_strip_headers = flag_str asg ''strip-headers'',
      sa_strip_query = flag_str asg ''strip-query-params'', sa_ca_bundle = flag_str asg ''ca-bundle'',
      sa_timeout = flag_str asg ''upstream-timeout''\<rparr>"

definition check_base_url :: "http_lib \<Rightarrow> string \<Rightarrow> cli_error option" where
  "check_base_url H base_url =
     (if base_url = [] then Some CliNoBaseURL
      else (case hl_url_parse H base_url of
              None \<Rightarrow> Some CliBadBaseURL
            | Some u \<Rightarrow>
                if w_scheme u \<noteq> ''http'' \<and> w_scheme u \<noteq> ''https'' \<or> w_host u = [] then Some CliBadBaseURL
                else if w_user u \<or> w_query u \<noteq> [] \<or> w_fragment u \<noteq> [] then Some CliBaseURLParts else None))"

definition check_auth_flags :: "set_args \<Rightarrow> cli_error option" where
  "check_auth_flags a =
     (if sa_auth a = [] then
        (if sa_token_stdin a then Some CliTokenNeedsAuth
         else if sa_username a \<noteq> [] then Some CliUsernameNeedsBasic else None)
      else if sa_auth a = ''bearer'' then
        (if \<not> sa_token_stdin a then Some CliBearerNeedsToken
         else if sa_username a \<noteq> [] then Some CliUsernameNotBasic else None)
      else if sa_auth a = ''basic'' then
        (if sa_username a = [] then Some CliBasicNeedsUsername
         else if CHR '':'' \<in> set (sa_username a) then Some CliUsernameColon
         else if \<not> sa_token_stdin a then Some CliBasicNeedsToken else None)
      else Some (CliBadAuth (sa_auth a)))"

text \<open>All that is checked before standard input is read.\<close>

definition check_set_args :: "http_lib \<Rightarrow> flag_values \<Rightarrow> cli_error + set_args" where
  "check_set_args H asg =
     (let a = set_args_of asg in
      if flag_given asg ''token'' then Inl CliTokenArgument
      else (case check_base_url H (sa_base_url a) of
              Some e \<Rightarrow> Inl e
            | None \<Rightarrow> (case check_auth_flags a of Some e \<Rightarrow> Inl e | None \<Rightarrow> Inr a)))"

definition check_stdin :: "os_error + string \<Rightarrow> cli_error + string" where
  "check_stdin r =
     (case r of
        Inl e \<Rightarrow> Inl (CliStdin e)
      | Inr b \<Rightarrow>
          (let t = trim_line_ends b in
           if t = [] then Inl CliStdinEmpty
           else if length (runes t) < min_cred_token_length then Inl CliTokenShort else Inr t))"

definition read_token :: "'w cli_world \<Rightarrow> set_args \<Rightarrow> (('w, cli_step) sys, cli_error + string) state" where
  "read_token W a =
     (if sa_token_stdin a then do { b \<leftarrow> effect (ci_stdin W) CStdin; ret (check_stdin b) } else ret (Inr []))"

definition split_comma_list :: "string \<Rightarrow> string list" where
  "split_comma_list s = filter (\<lambda>h. h \<noteq> []) (map trim_space (split_on (CHR '','') s))"

definition cli_credential :: "set_args \<Rightarrow> string \<Rightarrow> credential" where
  "cli_credential a token =
     \<lparr>cr_base_url = sa_base_url a, cr_auth = sa_auth a, cr_username = sa_username a, cr_token = token,
      cr_strip_headers = split_comma_list (sa_strip_headers a), cr_strip_query_params = split_comma_list (sa_strip_query a),
      cr_ca_bundle = trim_space (sa_ca_bundle a), cr_upstream_timeout = trim_space (sa_timeout a)\<rparr>"

definition cleared :: "string \<Rightarrow> string \<Rightarrow> string \<Rightarrow> string \<Rightarrow> string" where
  "cleared q setting flag pronoun =
     ''Warning: cleared the previously configured '' @ setting @ '' for '' @ q @ ''; re-pass --'' @ flag @ '' to keep '' @
     pronoun @ ''.'' @ [newline]"

definition cleared_warnings :: "string \<Rightarrow> credential option \<Rightarrow> credential \<Rightarrow> string list" where
  "cleared_warnings q had c =
     (case had of
        None \<Rightarrow> []
      | Some old \<Rightarrow>
          (if cr_strip_headers old \<noteq> [] \<and> cr_strip_headers c = []
           then [cleared q ''strip-headers'' ''strip-headers'' ''them''] else []) @
          (if cr_strip_query_params old \<noteq> [] \<and> cr_strip_query_params c = []
           then [cleared q ''strip-query-params'' ''strip-query-params'' ''them''] else []) @
          (if cr_ca_bundle old \<noteq> [] \<and> cr_ca_bundle c = [] then [cleared q ''ca-bundle'' ''ca-bundle'' ''it''] else []) @
          (if cr_upstream_timeout old \<noteq> [] \<and> cr_upstream_timeout c = []
           then [cleared q ''upstream-timeout'' ''upstream-timeout'' ''it''] else []))"

definition reload_reminder :: "string list" where
  "reload_reminder =
     [''A running connector caches credentials in memory; reload it to apply this change:'' @ [newline],
      ''  Docker:      docker kill -s HUP <container>'' @ [newline],
      ''  Kubernetes:  kubectl rollout restart deployment/mkonnect'' @ [newline],
      ''See docs/setup.md ('' @ [CHR 0x22] @ ''Applying changes'' @ [CHR 0x22] @ '').'' @ [newline]]"

definition saved_lines :: "string \<Rightarrow> string list" where
  "saved_lines q = (''Credential for '' @ q @ '' saved.'' @ [newline]) # reload_reminder"

definition store_entry ::
  "cli_lib \<Rightarrow> 'w cli_world \<Rightarrow> string \<Rightarrow> credential \<Rightarrow> cred_store \<Rightarrow> (('w, cli_step) sys, cli_error option) state" where
  "store_entry L W plugin c store = do {
     _ \<leftarrow> print_all W (cleared_warnings (cl_quote L plugin) (get_cred store plugin) c);
     r \<leftarrow> logged (\<lambda>x. CStore (CDisk x)) (set_cred (cl_creds L) (cw_disk (ci_creds W)) plugin c store);
     (case fst r of
        Some f \<Rightarrow> ret (Some (CliSave f))
      | None \<Rightarrow> do { _ \<leftarrow> print_all W (saved_lines (cl_quote L plugin)); ret None })
   }"

definition run_config_set ::
  "cli_lib \<Rightarrow> 'w cli_world \<Rightarrow> string \<Rightarrow> string list \<Rightarrow> (('w, cli_step) sys, cli_error option) state" where
  "run_config_set L W path args =
     (case args of
        [] \<Rightarrow> ret (Some CliUsage)
      | plugin # flags \<Rightarrow>
          (case parse_flags set_flags flags of
             Inl e \<Rightarrow> do { _ \<leftarrow> print_all W [cl_flag_text L e]; ret (Some (CliBadFlags e)) }
           | Inr (asg, _) \<Rightarrow>
               (case check_set_args (cl_http L) asg of
                  Inl e \<Rightarrow> ret (Some e)
                | Inr a \<Rightarrow> do {
                    t \<leftarrow> read_token W a;
                    (case t of
                       Inl e \<Rightarrow> ret (Some e)
                     | Inr token \<Rightarrow>
                         (if trim_space (sa_ca_bundle a) \<noteq> [] \<and> \<not> rooted (trim_space (sa_ca_bundle a)) then ret (Some CliRelativeCA)
                          else do {
                            s \<leftarrow> open_store L W path;
                            (case s of
                               Inl f \<Rightarrow> ret (Some (CliOpenStore f))
                             | Inr store \<Rightarrow> store_entry L W plugin (cli_credential a token) store)
                          }))
                  })))"

section \<open>The other commands\<close>

text \<open>What is listed of one credential; \<open>indent\<close> is what a line of \<open>status\<close> begins with.\<close>

definition setting_lines :: "string \<Rightarrow> credential \<Rightarrow> string list" where
  "setting_lines indent c =
     (if cr_strip_headers c \<noteq> []
      then [indent @ pad 20 [] @ ''  strip-headers: '' @ join '', '' (cr_strip_headers c) @ [newline]] else []) @
     (if cr_strip_query_params c \<noteq> []
      then [indent @ pad 20 [] @ ''  strip-query-params: '' @ join '', '' (cr_strip_query_params c) @ [newline]] else []) @
     (if cr_ca_bundle c \<noteq> [] then [indent @ pad 20 [] @ ''  ca-bundle: '' @ cr_ca_bundle c @ [newline]] else []) @
     (if cr_upstream_timeout c \<noteq> []
      then [indent @ pad 20 [] @ ''  upstream-timeout: '' @ cr_upstream_timeout c @ [newline]] else [])"

definition known_auth :: "credential \<Rightarrow> bool" where
  "known_auth c \<longleftrightarrow> cr_auth c = ''bearer'' \<or> cr_auth c = ''basic''"

definition listed :: "string \<times> credential \<Rightarrow> string list" where
  "listed nc = (case nc of (name, c) \<Rightarrow>
     (pad 20 name @ ''  '' @ pad 40 (cr_base_url c) @ ''  '' @ (if known_auth c then cr_auth c @ '' ***'' else ''(none)'') @ [newline])
       # setting_lines [] c)"

definition status_of :: "string \<times> credential \<Rightarrow> string list" where
  "status_of nc = (case nc of (name, c) \<Rightarrow>
     (''  '' @ pad 20 name @ ''  '' @ cr_base_url c @ ''  ['' @ (if known_auth c then cr_auth c else ''no auth'') @ '']'' @ [newline])
       # setting_lines ''  '' c)"

definition named_creds :: "(string, credential) fmap \<Rightarrow> (string \<times> credential) list" where
  "named_creds m = map (\<lambda>n. (n, the (fmlookup m n))) (sorted_keys m)"

definition list_lines :: "(string, credential) fmap \<Rightarrow> string list" where
  "list_lines m =
     (if sorted_keys m = [] then [''No plugins configured.'' @ [newline]]
      else (pad 20 ''PLUGIN'' @ ''  '' @ pad 40 ''BASE URL'' @ ''  AUTH'' @ [newline]) # concat (map listed (named_creds m)))"

definition status_lines :: "(string, credential) fmap \<Rightarrow> string list" where
  "status_lines m =
     [''=== Configured plugins ==='' @ [newline]] @
     (if sorted_keys m = [] then [''  (none)'' @ [newline]] else []) @ concat (map status_of (named_creds m)) @
     [newline # ''Bridge connection status is visible in the Memento portal.'' @ [newline]]"

definition run_listing ::
  "((string, credential) fmap \<Rightarrow> string list) \<Rightarrow> cli_lib \<Rightarrow> 'w cli_world \<Rightarrow> string \<Rightarrow> (('w, cli_step) sys, cli_error option) state" where
  "run_listing show L W path = do {
     s \<leftarrow> open_store L W path;
     (case s of
        Inl f \<Rightarrow> ret (Some (CliOpenStore f))
      | Inr store \<Rightarrow> do { _ \<leftarrow> print_all W (show (cs_data store)); ret None })
   }"

definition run_config_list :: "cli_lib \<Rightarrow> 'w cli_world \<Rightarrow> string \<Rightarrow> (('w, cli_step) sys, cli_error option) state" where
  "run_config_list = run_listing list_lines"

definition run_cred_status :: "cli_lib \<Rightarrow> 'w cli_world \<Rightarrow> string \<Rightarrow> (('w, cli_step) sys, cli_error option) state" where
  "run_cred_status = run_listing status_lines"

definition run_config_remove ::
  "cli_lib \<Rightarrow> 'w cli_world \<Rightarrow> string \<Rightarrow> string list \<Rightarrow> (('w, cli_step) sys, cli_error option) state" where
  "run_config_remove L W path args =
     (case args of
        [] \<Rightarrow> ret (Some CliUsage)
      | plugin # _ \<Rightarrow> do {
          s \<leftarrow> open_store L W path;
          (case s of
             Inl f \<Rightarrow> ret (Some (CliOpenStore f))
           | Inr store \<Rightarrow> do {
               r \<leftarrow> logged (\<lambda>x. CStore (CDisk x)) (remove_cred (cl_creds L) (cw_disk (ci_creds W)) plugin store);
               (case fst r of
                  Some f \<Rightarrow> ret (Some (CliRemove f))
                | None \<Rightarrow> do {
                    _ \<leftarrow> print_all W ((''Credential for '' @ cl_quote L plugin @ '' removed.'' @ [newline]) # reload_reminder);
                    ret None
                  })
             })
        })"

definition run_config ::
  "cli_lib \<Rightarrow> 'w cli_world \<Rightarrow> string \<Rightarrow> string list \<Rightarrow> (('w, cli_step) sys, cli_error option) state" where
  "run_config L W path args =
     (case args of
        [] \<Rightarrow> ret (Some CliUsage)
      | cmd # rest \<Rightarrow>
          (if cmd = ''set'' then run_config_set L W path rest
           else if cmd = ''list'' then run_config_list L W path
           else if cmd = ''remove'' then run_config_remove L W path rest
           else ret (Some (CliUnknownCommand cmd))))"

definition run_cli ::
  "cli_lib \<Rightarrow> 'w cli_world \<Rightarrow> (string \<Rightarrow> string) \<Rightarrow> string list \<Rightarrow> (('w, cli_step) sys, cli_error option) state" where
  "run_cli L W getenv args =
     (case args of
        [] \<Rightarrow> ret (Some CliUsage)
      | cmd # rest \<Rightarrow>
          (if cmd = ''config'' then run_config L W (creds_path getenv) rest
           else if cmd = ''status'' then run_cred_status L W (creds_path getenv)
           else ret (Some (CliUnknownCommand cmd))))"

section \<open>What a command may do\<close>

text \<open>The credentials the command found, as its log shows them.\<close>

fun found_creds :: "cred_lib \<Rightarrow> cli_step list \<Rightarrow> (string, credential) fmap option" where
  "found_creds L [] = None"
| "found_creds L (CStore (CRead path r) # es) =
     (case r of
        Inl e \<Rightarrow> if e = NoEnt then Some fmempty else None
      | Inr data \<Rightarrow> (case parse_creds L data of Inl f \<Rightarrow> None | Inr m \<Rightarrow> Some m))"
| "found_creds L (x # es) = found_creds L es"

fun token_read :: "cli_step list \<Rightarrow> string" where
  "token_read [] = []"
| "token_read (CStdin (Inr b) # es) = trim_line_ends b"
| "token_read (x # es) = token_read es"

text \<open>The plugin and the credential \<open>config set\<close> is asked to store, but for the token.\<close>

definition requested :: "http_lib \<Rightarrow> string list \<Rightarrow> (string \<times> set_args) option" where
  "requested H args =
     (case args of
        [] \<Rightarrow> None
      | plugin # flags \<Rightarrow>
          (case parse_flags set_flags flags of
             Inl e \<Rightarrow> None
           | Inr (asg, _) \<Rightarrow> (case check_set_args H asg of Inl e \<Rightarrow> None | Inr a \<Rightarrow> Some (plugin, a))))"

definition set_texts :: "string \<Rightarrow> string list" where
  "set_texts q =
     [cleared q ''strip-headers'' ''strip-headers'' ''them'', cleared q ''strip-query-params'' ''strip-query-params'' ''them'',
      cleared q ''ca-bundle'' ''ca-bundle'' ''it'', cleared q ''upstream-timeout'' ''upstream-timeout'' ''it''] @ saved_lines q"

fun disk_steps :: "cli_step list \<Rightarrow> disk_step list" where
  "disk_steps [] = []"
| "disk_steps (CStore (CDisk d) # es) = d # disk_steps es"
| "disk_steps (x # es) = disk_steps es"

lemma disk_steps_append [simp]: "disk_steps (es @ fs) = disk_steps es @ disk_steps fs"
  by (induction es rule: disk_steps.induct) auto

lemma disk_steps_logged [simp]: "disk_steps (map (\<lambda>x. CStore (CDisk x)) ds) = ds"
  by (induction ds) auto

lemma disk_steps_print [simp]: "disk_steps (map CPrint ls) = []"
  by (induction ls) auto

text \<open>
  What \<open>config set\<close> may do: with arguments that are refused, nothing but print the flag parser's text; else what it
  prints is of a few texts that name the plugin, the token comes from standard input, and what it writes is the
  credentials found with the one entry replaced by the one asked for. It succeeds exactly when the file was replaced.
\<close>

definition set_faithful :: "cli_lib \<Rightarrow> string \<Rightarrow> string list \<Rightarrow> cli_error option \<Rightarrow> cli_step list \<Rightarrow> bool" where
  "set_faithful L path args r es \<longleftrightarrow>
     (case requested (cl_http L) args of
        None \<Rightarrow> r \<noteq> None \<and>
          es \<in> {[], (case parse_flags set_flags (tl args) of Inl e \<Rightarrow> [CPrint (cl_flag_text L e)] | Inr v \<Rightarrow> [])}
      | Some (plugin, a) \<Rightarrow>
          (let c = cli_credential a (token_read es) in
             list_all (\<lambda>x. case x of CPrint l \<Rightarrow> l \<in> set (set_texts (cl_quote L plugin)) | CStdin b \<Rightarrow> sa_token_stdin a
                            | CStore y \<Rightarrow> True) es \<and>
             list_all (\<lambda>d. case d of
                 DWrite n data e \<Rightarrow> validate_cred (cl_creds L) c = None \<and>
                   (case found_creds (cl_creds L) es of
                      None \<Rightarrow> False | Some m \<Rightarrow> creds_encode (cl_creds L) (fmupd plugin c m) = Some data)
               | _ \<Rightarrow> True) (disk_steps es) \<and>
             (r = None \<longleftrightarrow> renamed path (disk_steps es))))"

text \<open>A store that opens was read from one file, and nothing was written.\<close>

definition opened :: "cli_lib \<Rightarrow> string \<Rightarrow> cred_fault + cred_store \<Rightarrow> cli_step list \<Rightarrow> bool" where
  "opened L path r es \<longleftrightarrow>
     disk_steps es = [] \<and> token_read es = [] \<and> list_all (\<lambda>x. case x of CStore c \<Rightarrow> True | _ \<Rightarrow> False) es \<and>
     (case r of Inl f \<Rightarrow> True
      | Inr s \<Rightarrow> cs_path s = path \<and> found_creds (cl_creds L) es = Some (cs_data s))"

lemma parse_creds_present: "parse_creds L data \<noteq> Inl (CredsUnreadable e)"
  by (auto simp: parse_creds_def split: option.splits list.splits)

lemma open_store_log: "emits (open_store L W path) (opened L path)"
  unfolding open_store_def new_creds_def load_creds_def Let_def
  apply (rule emits_logged)
  apply (intro cred_intros)
  apply (auto simp: opened_def put_creds_def parse_creds_present split: sum.splits if_splits)
  done

lemma found_creds_append: "found_creds L es = Some m \<Longrightarrow> found_creds L (es @ fs) = Some m"
  by (induction L es rule: found_creds.induct) auto

lemma token_read_append:
  "list_all (\<lambda>x. case x of CStdin b \<Rightarrow> False | _ \<Rightarrow> True) es \<Longrightarrow> token_read (es @ fs) = token_read fs"
  by (induction es rule: token_read.induct) auto

lemma set_cred_log:
  "emits (set_cred L D plugin c s) (\<lambda>r es. (fst r = None \<longleftrightarrow> renamed (cs_path s) es) \<and>
     list_all (\<lambda>d. case d of
         DWrite n data e \<Rightarrow> validate_cred L c = None \<and> creds_encode L (fmupd plugin c (cs_data s)) = Some data
       | _ \<Rightarrow> True) es)"
  unfolding set_cred_def Let_def save_creds_def install_creds_def fill_creds_def save_defs
  by (intro cred_intros) (auto simp: put_creds_def)

lemma cleared_warnings_texts: "set (cleared_warnings q had c) \<subseteq> set (set_texts q)"
  by (auto simp: cleared_warnings_def set_texts_def split: option.splits if_splits)

lemma saved_lines_texts: "set (saved_lines q) \<subseteq> set (set_texts q)"
  by (auto simp: set_texts_def)

definition only_texts :: "string list \<Rightarrow> cli_step list \<Rightarrow> bool" where
  "only_texts ts es \<longleftrightarrow> list_all (\<lambda>x. case x of CPrint l \<Rightarrow> l \<in> set ts | CStdin b \<Rightarrow> False | CStore y \<Rightarrow> True) es"

lemma only_texts_simps [simp]:
  "only_texts ts (es @ fs) \<longleftrightarrow> only_texts ts es \<and> only_texts ts fs"
  "only_texts ts (map CPrint ls) \<longleftrightarrow> set ls \<subseteq> set ts"
  "only_texts ts (map (\<lambda>x. CStore (CDisk x)) ds)"
  "only_texts ts []"
  by (auto simp: only_texts_def list_all_iff)

lemma only_texts_token: "only_texts ts es \<Longrightarrow> token_read es = []"
  unfolding only_texts_def by (induction es rule: token_read.induct) auto

lemma opened_texts: "opened L path r es \<Longrightarrow> only_texts ts es"
  by (auto simp: opened_def only_texts_def list_all_iff split: cli_step.splits)

text \<open>Of storing an entry.\<close>

definition entry_stored :: "cli_lib \<Rightarrow> string \<Rightarrow> credential \<Rightarrow> cred_store \<Rightarrow> cli_error option \<Rightarrow> cli_step list \<Rightarrow> bool" where
  "entry_stored L plugin c s r es \<longleftrightarrow>
     only_texts (set_texts (cl_quote L plugin)) es \<and>
     list_all (\<lambda>d. case d of
         DWrite n data e \<Rightarrow> validate_cred (cl_creds L) c = None \<and>
           creds_encode (cl_creds L) (fmupd plugin c (cs_data s)) = Some data
       | _ \<Rightarrow> True) (disk_steps es) \<and>
     (r = None \<longleftrightarrow> renamed (cs_path s) (disk_steps es))"

lemma store_entry_log: "emits (store_entry L W plugin c s) (entry_stored L plugin c s)"
proof -
  have set: "emits (logged (\<lambda>x. CStore (CDisk x)) (set_cred (cl_creds L) (cw_disk (ci_creds W)) plugin c s))
    (\<lambda>r es. (fst r = None \<longleftrightarrow> renamed (cs_path s) (disk_steps es)) \<and>
       only_texts (set_texts (cl_quote L plugin)) es \<and>
       list_all (\<lambda>d. case d of
           DWrite n data e \<Rightarrow> validate_cred (cl_creds L) c = None \<and>
             creds_encode (cl_creds L) (fmupd plugin c (cs_data s)) = Some data
         | _ \<Rightarrow> True) (disk_steps es))"
    by (rule emits_logged) (use set_cred_log in \<open>simp add: emits_def\<close>)
  show ?thesis
    unfolding store_entry_def
    by (intro emits_then [OF print_lines_log] emits_then [OF set] emits_option emits_return)
       (use cleared_warnings_texts saved_lines_texts in
         \<open>auto simp: entry_stored_def simp del: print_lines.simps
            intro!: emits_then [OF print_lines_log] emits_return\<close>)
qed

lemma requested_cases:
  "requested H (plugin # flags) =
     (case parse_flags set_flags flags of
        Inl e \<Rightarrow> None
      | Inr (asg, rest) \<Rightarrow> (case check_set_args H asg of Inl e \<Rightarrow> None | Inr a \<Rightarrow> Some (plugin, a)))"
  by (simp add: requested_def)

text \<open>Once the store is to be opened, the rest of \<open>config set\<close> does what it should.\<close>

lemma set_from_store:
  assumes req: "requested (cl_http L) args = Some (plugin, a)"
    and pre: "pre = [] \<and> token = [] \<or> (\<exists>b. pre = [CStdin (Inr b)] \<and> token = trim_line_ends b \<and> sa_token_stdin a)"
  shows "emits (do {
      s \<leftarrow> open_store L W path;
      (case s of
         Inl f \<Rightarrow> ret (Some (CliOpenStore f))
       | Inr store \<Rightarrow> store_entry L W plugin (cli_credential a token) store)
    }) (\<lambda>r es. set_faithful L path args r (pre @ es))"
proof (intro emits_then [OF open_store_log] emits_sum)
  fix r es f
  assume o: "opened L path r es" and r: "r = Inl f"
  show "emits (ret (Some (CliOpenStore f))) (\<lambda>b fs. set_faithful L path args b (pre @ es @ fs))"
    using o opened_texts [OF o, of "set_texts (cl_quote L plugin)"] pre
    by (intro emits_return) (auto simp: set_faithful_def req Let_def opened_def only_texts_def elim!: list.pred_mono_strong
        split: cli_step.splits)
next
  fix r es store
  assume o: "opened L path r es" and r: "r = Inr store"
  let ?ts = "set_texts (cl_quote L plugin)"
  have t: "only_texts ?ts es" by (rule opened_texts [OF o])
  have found: "found_creds (cl_creds L) (pre @ es @ fs) = Some (cs_data store)" for fs
    using o r pre found_creds_append [of "cl_creds L" es] by (auto simp: opened_def)
  have token: "only_texts ?ts fs \<Longrightarrow> token_read (pre @ es @ fs) = token" for fs
    using pre t only_texts_token [of ?ts "es @ fs"] by auto
  have pre_ok: "list_all (\<lambda>x. case x of CPrint l \<Rightarrow> l \<in> set ?ts | CStdin b \<Rightarrow> sa_token_stdin a | CStore y \<Rightarrow> True) (pre @ es)"
    using pre t by (auto simp: only_texts_def elim!: list.pred_mono_strong split: cli_step.splits)
  have steps: "disk_steps (pre @ es) = []" using pre o by (auto simp: opened_def)
  have "set_faithful L path args b (pre @ es @ fs)"
    if e: "entry_stored L plugin (cli_credential a token) store b fs" for b fs
  proof -
    have fs: "only_texts ?ts fs" using e by (simp add: entry_stored_def)
    have "list_all (\<lambda>x. case x of CPrint l \<Rightarrow> l \<in> set ?ts | CStdin b \<Rightarrow> sa_token_stdin a | CStore y \<Rightarrow> True) fs"
      using fs by (auto simp: only_texts_def elim!: list.pred_mono_strong split: cli_step.splits)
    then show ?thesis
      using e o r pre_ok steps found token [OF fs]
      by (simp add: set_faithful_def req Let_def entry_stored_def opened_def)
  qed
  then show "emits (store_entry L W plugin (cli_credential a token) store) (\<lambda>b fs. set_faithful L path args b (pre @ es @ fs))"
    by (rule emits_weaken [OF store_entry_log])
qed

lemma set_checked:
  assumes req: "requested (cl_http L) args = Some (plugin, a)"
    and pre: "pre = [] \<and> token = [] \<or> (\<exists>b. pre = [CStdin (Inr b)] \<and> token = trim_line_ends b \<and> sa_token_stdin a)"
  shows "emits (if trim_space (sa_ca_bundle a) \<noteq> [] \<and> \<not> rooted (trim_space (sa_ca_bundle a)) then ret (Some CliRelativeCA)
    else do {
      s \<leftarrow> open_store L W path;
      (case s of
         Inl f \<Rightarrow> ret (Some (CliOpenStore f))
       | Inr store \<Rightarrow> store_entry L W plugin (cli_credential a token) store)
    }) (\<lambda>r es. set_faithful L path args r (pre @ es))"
  by (intro emits_if set_from_store [OF req pre] emits_return) (use pre in \<open>auto simp: set_faithful_def req Let_def\<close>)

lemma check_stdin_Inr: "check_stdin b = Inr token \<Longrightarrow> \<exists>x. b = Inr x \<and> token = trim_line_ends x"
  by (auto simp: check_stdin_def Let_def split: sum.splits if_splits)

lemma unrequested_does_nothing:
  assumes "requested (cl_http L) args = None"
  shows "emits (run_config_set L W path args) (set_faithful L path args)"
proof (cases args)
  case Nil
  then show ?thesis by (simp add: run_config_set_def set_faithful_def requested_def emits_return)
next
  case (Cons plugin flags)
  show ?thesis
    using assms unfolding run_config_set_def Cons list.case requested_cases
    by (intro emits_sum emits_prod)
       (auto simp: set_faithful_def requested_cases Cons intro!: emits_return emits_bind emits_effect)
qed

lemma config_set_kept: "emits (run_config_set L W path args) (set_faithful L path args)"
proof (cases "requested (cl_http L) args")
  case None
  then show ?thesis by (rule unrequested_does_nothing)
next
  case (Some pa)
  obtain plugin a where pa: "pa = (plugin, a)" by force
  have req: "requested (cl_http L) args = Some (plugin, a)" using Some pa by simp
  then obtain flags asg rest where args: "args = plugin # flags" "parse_flags set_flags flags = Inr (asg, rest)"
    "check_set_args (cl_http L) asg = Inr a"
    by (auto simp: requested_def split: list.splits sum.splits)
  have stop: "set_faithful L path args (Some e) [CStdin b]" if "sa_token_stdin a" for e b
    using that by (auto simp: set_faithful_def req Let_def)
  show ?thesis
  proof (cases "sa_token_stdin a")
    case True
    have store: "emits (open_store L W path \<bind> case_sum (\<lambda>f. ret (Some (CliOpenStore f)))
        (store_entry L W plugin (cli_credential a (trim_line_ends x))))
      (\<lambda>r es. set_faithful L path args r (CStdin (Inr x) # es))" for x
      using set_from_store [OF req, of "[CStdin (Inr x)]" "trim_line_ends x" W path] True by simp
    show ?thesis
      unfolding run_config_set_def args(1) list.case args(2) sum.case prod.case args(3) read_token_def
      by (simp only: True if_True, intro emits_bind emits_effect emits_return emits_sum)
         (use stop [OF True] True in \<open>auto simp: args(1) dest!: check_stdin_Inr intro!: emits_return store [unfolded args(1)]\<close>)
  next
    case False
    have "emits (run_config_set L W path args) (\<lambda>r es. set_faithful L path args r ([] @ es))"
      unfolding run_config_set_def args(1) list.case args(2) sum.case prod.case args(3) read_token_def
      by (simp only: False if_False, intro emits_bind emits_return, simp only: sum.case)
         (use set_checked [OF req, of "[]" "[]" W path] in \<open>simp only: args(1) append_Nil simp_thms\<close>)
    then show ?thesis by simp
  qed
qed

section \<open>What was asked for\<close>

text \<open>
  The reading of the arguments without the code's own record of them: which arguments are in order, and the entry
  they describe, field by field from the flags.
\<close>

definition in_order :: "http_lib \<Rightarrow> flag_values \<Rightarrow> bool" where
  "in_order H asg \<longleftrightarrow>
     \<not> flag_given asg ''token'' \<and> flag_str asg ''base-url'' \<noteq> [] \<and>
     (case hl_url_parse H (flag_str asg ''base-url'') of
        None \<Rightarrow> False
      | Some u \<Rightarrow> w_scheme u \<in> {''http'', ''https''} \<and> w_host u \<noteq> [] \<and> \<not> w_user u \<and> w_query u = [] \<and> w_fragment u = []) \<and>
     (flag_str asg ''auth'' = [] \<and> \<not> flag_bool asg ''token-stdin'' \<and> flag_str asg ''username'' = [] \<or>
      flag_str asg ''auth'' = ''bearer'' \<and> flag_bool asg ''token-stdin'' \<and> flag_str asg ''username'' = [] \<or>
      flag_str asg ''auth'' = ''basic'' \<and> flag_bool asg ''token-stdin'' \<and> flag_str asg ''username'' \<noteq> [] \<and>
        CHR '':'' \<notin> set (flag_str asg ''username''))"

definition asked_set :: "http_lib \<Rightarrow> string list \<Rightarrow> (string \<times> flag_values) option" where
  "asked_set H args =
     (case args of
        [] \<Rightarrow> None
      | plugin # flags \<Rightarrow>
          (case parse_flags set_flags flags of
             Inl e \<Rightarrow> None
           | Inr (asg, rest) \<Rightarrow> if in_order H asg then Some (plugin, asg) else None))"

definition comma_parts :: "string \<Rightarrow> string list" where
  "comma_parts s = [t. part \<leftarrow> split_on (CHR '','') s, t \<leftarrow> [trim_space part], t \<noteq> []]"

definition asked_credential :: "flag_values \<Rightarrow> string \<Rightarrow> credential" where
  "asked_credential asg token =
     \<lparr>cr_base_url = flag_str asg ''base-url'', cr_auth = flag_str asg ''auth'', cr_username = flag_str asg ''username'',
      cr_token = token, cr_strip_headers = comma_parts (flag_str asg ''strip-headers''),
      cr_strip_query_params = comma_parts (flag_str asg ''strip-query-params''),
      cr_ca_bundle = trim_space (flag_str asg ''ca-bundle''),
      cr_upstream_timeout = trim_space (flag_str asg ''upstream-timeout'')\<rparr>"

definition stored_as_asked :: "cli_lib \<Rightarrow> string \<Rightarrow> string list \<Rightarrow> cli_error option \<Rightarrow> cli_step list \<Rightarrow> bool" where
  "stored_as_asked L path args r es \<longleftrightarrow>
     (case asked_set (cl_http L) args of
        None \<Rightarrow> r \<noteq> None \<and>
          (case parse_flags set_flags (tl args) of
             Inl e \<Rightarrow> es = [CPrint (cl_flag_text L e)] \<or> args = [] \<and> es = []
           | Inr v \<Rightarrow> es = [])
      | Some (plugin, asg) \<Rightarrow>
          (let c = asked_credential asg (token_read es) in
             list_all (\<lambda>x. case x of CPrint l \<Rightarrow> l \<in> set (set_texts (cl_quote L plugin))
                            | CStdin b \<Rightarrow> flag_bool asg ''token-stdin'' | CStore y \<Rightarrow> True) es \<and>
             list_all (\<lambda>d. case d of
                 DWrite n data e \<Rightarrow> validate_cred (cl_creds L) c = None \<and>
                   (case found_creds (cl_creds L) es of
                      None \<Rightarrow> False | Some m \<Rightarrow> creds_encode (cl_creds L) (fmupd plugin c m) = Some data)
               | _ \<Rightarrow> True) (disk_steps es) \<and>
             (r = None \<longleftrightarrow> renamed path (disk_steps es))))"

lemma check_in_order: "check_set_args H asg = Inr a \<longleftrightarrow> in_order H asg \<and> a = set_args_of asg"
  by (auto simp: check_set_args_def Let_def set_args_of_def check_base_url_def check_auth_flags_def in_order_def
      split: option.splits if_splits)

lemma requested_asked: "requested H args = map_option (map_prod id set_args_of) (asked_set H args)"
proof (cases args)
  case (Cons plugin flags)
  show ?thesis
  proof (cases "parse_flags set_flags flags")
    case (Inr v)
    obtain asg rest where v: "v = (asg, rest)" by force
    show ?thesis
    proof (cases "check_set_args H asg")
      case (Inl e)
      then have "\<not> in_order H asg" using check_in_order [of H asg "set_args_of asg"] by simp
      then show ?thesis by (simp add: requested_def asked_set_def Cons Inr v Inl)
    next
      case checked: (Inr a)
      then have "in_order H asg" "a = set_args_of asg" using check_in_order [of H asg a] by simp_all
      then show ?thesis by (simp add: requested_def asked_set_def Cons Inr v checked)
    qed
  qed (simp add: requested_def asked_set_def Cons)
qed (simp add: requested_def asked_set_def)

lemma comma_parts_split: "split_comma_list s = comma_parts s"
proof -
  have "filter (\<lambda>h. h \<noteq> []) (map trim_space ps) = [t. part \<leftarrow> ps, t \<leftarrow> [trim_space part], t \<noteq> []]" for ps
    by (induction ps) auto
  then show ?thesis by (simp add: split_comma_list_def comma_parts_def)
qed

lemma cli_credential_asked: "cli_credential (set_args_of asg) token = asked_credential asg token"
  by (simp add: cli_credential_def set_args_of_def asked_credential_def comma_parts_split)

lemma asked_token_stdin: "sa_token_stdin (set_args_of asg) = flag_bool asg ''token-stdin''"
  by (simp add: set_args_of_def)

lemma refused_flags:
  "emits (run_config_set L W path args) (\<lambda>r es. requested (cl_http L) args = None \<longrightarrow>
     (case parse_flags set_flags (tl args) of Inl e \<Rightarrow> es = [CPrint (cl_flag_text L e)] \<or> args = [] \<and> es = [] | Inr v \<Rightarrow> es = []))"
proof (cases "requested (cl_http L) args")
  case None
  then show ?thesis
    unfolding run_config_set_def
    by (cases args; cases "parse_flags set_flags (tl args)")
       (auto simp: requested_def intro!: emits_return emits_bind emits_effect split: sum.splits)
qed (simp add: emits_weaken [OF config_set_kept])

lemma kept_as_asked:
  assumes "set_faithful L path args r es"
    and "requested (cl_http L) args = None \<longrightarrow>
      (case parse_flags set_flags (tl args) of Inl e \<Rightarrow> es = [CPrint (cl_flag_text L e)] \<or> args = [] \<and> es = [] | Inr v \<Rightarrow> es = [])"
  shows "stored_as_asked L path args r es"
proof (cases "asked_set (cl_http L) args")
  case None
  then show ?thesis using assms by (simp add: stored_as_asked_def set_faithful_def requested_asked)
next
  case (Some pa)
  show ?thesis
    using assms(1)
    unfolding stored_as_asked_def set_faithful_def requested_asked Some option.map option.case map_prod_def prod.case
      prod.case_eq_if fst_conv snd_conv cli_credential_asked asked_token_stdin id_apply .
qed

text \<open>C17. In every world, config set with refused arguments fails and does nothing but print the flag
parser's text; otherwise the token comes from standard input alone, everything printed is one of a
few fixed texts that name the plugin, and every byte written is the encoding of the credentials it
found in the file with exactly the entry the flags describe put in, field by field, which is valid;
and it reports success exactly when the file was replaced.\<close>

theorem config_set_faithful: "emits (run_config_set L W path args) (stored_as_asked L path args)"
  by (rule emits_weaken [OF emits_conj [OF config_set_kept refused_flags]]) (erule conjE, erule (1) kept_as_asked)

section \<open>What is printed of credentials\<close>

text \<open>The credentials without the secrets and the names that go with them.\<close>

definition masked :: "(string, credential) fmap \<Rightarrow> (string, credential) fmap" where
  "masked m = fmmap (\<lambda>c. c\<lparr>cr_username := [], cr_token := []\<rparr>) m"

fun printed :: "cli_step list \<Rightarrow> string list" where
  "printed [] = []"
| "printed (CPrint l # es) = l # printed es"
| "printed (x # es) = printed es"

lemma printed_append [simp]: "printed (es @ fs) = printed es @ printed fs"
  by (induction es rule: printed.induct) auto

lemma printed_map [simp]: "printed (map CPrint ls) = ls"
  by (induction ls) auto

lemma sorted_keys_masked [simp]: "sorted_keys (masked m) = sorted_keys m"
  by (simp add: sorted_keys_def masked_def)

lemma listed_masked: "listed (n, c\<lparr>cr_username := [], cr_token := []\<rparr>) = listed (n, c)"
  "status_of (n, c\<lparr>cr_username := [], cr_token := []\<rparr>) = status_of (n, c)"
  by (simp_all add: listed_def status_of_def setting_lines_def known_auth_def)

lemma named_masked: "named_creds (masked m) = map (\<lambda>(n, c). (n, c\<lparr>cr_username := [], cr_token := []\<rparr>)) (named_creds m)"
  by (auto simp: named_creds_def masked_def sorted_keys_def fmlookup_dom'_iff)

lemma lines_masked: "list_lines (masked m) = list_lines m" "status_lines (masked m) = status_lines m"
  by (simp_all add: list_lines_def status_lines_def named_masked listed_masked o_def case_prod_beta')

text \<open>What a listing prints: of the credentials found nothing but the masked ones; and it writes nothing.\<close>

definition lists_masked :: "((string, credential) fmap \<Rightarrow> string list) \<Rightarrow> cli_lib \<Rightarrow> cli_error option \<Rightarrow> cli_step list \<Rightarrow> bool" where
  "lists_masked show L r es \<longleftrightarrow> disk_steps es = [] \<and>
     (case found_creds (cl_creds L) es of
        None \<Rightarrow> printed es = [] \<and> r \<noteq> None
      | Some m \<Rightarrow> printed es = (if r = None then show (masked m) else []))"

lemma listing_masked:
  assumes "\<And>m. show (masked m) = show m"
  shows "emits (run_listing show L W path) (lists_masked show L)"
proof -
  have quiet: "list_all (\<lambda>x. case x of CStore c \<Rightarrow> True | _ \<Rightarrow> False) es \<Longrightarrow> printed es = []" for es
    by (induction es rule: printed.induct) auto
  show ?thesis
    unfolding run_listing_def
    by (intro emits_then [OF open_store_log] emits_sum emits_then [OF print_lines_log] emits_return)
       (auto simp: lists_masked_def assms opened_def found_creds_append dest: quiet split: option.splits)
qed

text \<open>In every world, config list and status write nothing, and what they print is a function of the
stored credentials with tokens and user names removed.\<close>

theorem listings_hide_credentials:
  "emits (run_config_list L W path) (lists_masked list_lines L) \<and> emits (run_cred_status L W path) (lists_masked status_lines L)"
  unfolding run_config_list_def run_cred_status_def by (intro conjI listing_masked lines_masked)

end
