(* ===== verification/TlsTransport.thy ===== *)
theory TlsTransport
  imports LocalFile
begin

text \<open>
  The transport of upstream calls (\<open>httpclient/direct.go\<close>): without a proxy when a local credential travels, and with
  the certificates of a CA bundle added to those of the system. Certificates, pools and the system's pool are Go's and
  parameters; of the default transport the model keeps its proxy setting and its TLS configuration.
\<close>

record 'p tls_config =
  tc_roots :: "'p option"
  tc_min_version :: nat
  tc_skip_verify :: bool

record 'p transport =
  tr_proxy :: bool
  tr_tls :: "'p tls_config option"

datatype ca_fault =
    CaOpen os_error | CaStat os_error | CaNotRegular | CaTooLarge | CaRead os_error | CaSystemPool | CaNoCertificate

text \<open>\<open>ca_append\<close> is \<open>AppendCertsFromPEM\<close>, None when the text holds no certificate.\<close>

record ('w, 'p) ca_world =
  ca_files :: "'w file_world"
  ca_system :: "'w \<Rightarrow> 'p option \<times> 'w"
  ca_append :: "string \<Rightarrow> 'p \<Rightarrow> 'p option"

datatype 'p ca_step = CaFile file_step | CaSystem "'p option"

definition max_ca_bundle_bytes :: nat where
  "max_ca_bundle_bytes = 1048576"

definition tls12 :: nat where
  "tls12 = 0x0303"

definition add_certificates :: "('w, 'p) ca_world \<Rightarrow> string \<Rightarrow> (('w, 'p ca_step) sys, ca_fault + 'p) state" where
  "add_certificates W pem = do {
     s \<leftarrow> effect (ca_system W) CaSystem;
     ret (case s of
        None \<Rightarrow> Inl CaSystemPool
      | Some pool \<Rightarrow> (case ca_append W pem pool of None \<Rightarrow> Inl CaNoCertificate | Some p \<Rightarrow> Inr p))
   }"

definition load_open_bundle :: "('w, 'p) ca_world \<Rightarrow> (('w, 'p ca_step) sys, ca_fault + 'p) state" where
  "load_open_bundle W = do {
     st \<leftarrow> effect (fw_stat (ca_files W)) (\<lambda>r. CaFile (FStat r));
     (case st of
        Inl e \<Rightarrow> ret (Inl (CaStat e))
      | Inr i \<Rightarrow>
          (if \<not> si_regular i then ret (Inl CaNotRegular)
           else if int max_ca_bundle_bytes < si_size i then ret (Inl CaTooLarge)
           else do {
             b \<leftarrow> effect (fw_read (ca_files W) max_ca_bundle_bytes) (\<lambda>r. CaFile (FRead r));
             (case b of Inl e \<Rightarrow> ret (Inl (CaRead e)) | Inr pem \<Rightarrow> add_certificates W pem)
           }))
   }"

definition load_root_cas :: "('w, 'p) ca_world \<Rightarrow> string \<Rightarrow> (('w, 'p ca_step) sys, ca_fault + 'p) state" where
  "load_root_cas W path = do {
     e \<leftarrow> effect (fw_open (ca_files W) path) (\<lambda>r. CaFile (FOpened path r));
     (case e of
        Some er \<Rightarrow> ret (Inl (CaOpen er))
      | None \<Rightarrow> do {
          r \<leftarrow> load_open_bundle W;
          _ \<leftarrow> effect (fw_close (ca_files W)) (\<lambda>b. CaFile (FClosed b));
          ret r
        })
   }"

definition with_roots :: "'p \<Rightarrow> 'p transport \<Rightarrow> 'p transport" where
  "with_roots pool t =
     (let cfg = (case tr_tls t of None \<Rightarrow> \<lparr>tc_roots = None, tc_min_version = 0, tc_skip_verify = False\<rparr> | Some c \<Rightarrow> c)
      in t\<lparr>tr_tls := Some (cfg\<lparr>tc_roots := Some pool, tc_min_version := max (tc_min_version cfg) tls12\<rparr>)\<rparr>)"

definition new_transport ::
  "'p transport \<Rightarrow> ('w, 'p) ca_world \<Rightarrow> bool \<Rightarrow> string \<Rightarrow> (('w, 'p ca_step) sys, ca_fault + 'p transport) state" where
  "new_transport std W direct path =
     (let t = (if direct then std\<lparr>tr_proxy := False\<rparr> else std) in
      if path = [] then ret (Inr t)
      else do {
        r \<leftarrow> load_root_cas W path;
        ret (case r of Inl e \<Rightarrow> Inl e | Inr pool \<Rightarrow> Inr (with_roots pool t))
      })"

definition new_direct_transport :: "'p transport \<Rightarrow> ('w, 'p) ca_world \<Rightarrow> (('w, 'p ca_step) sys, ca_fault + 'p transport) state" where
  "new_direct_transport std W = new_transport std W True []"

section \<open>Failing closed\<close>

text \<open>
  The pool of a bundle: the file was opened once, judged and read on that descriptor, the system's pool was there, and
  the bundle added to it.
\<close>

definition bundle_pool :: "('w, 'p) ca_world \<Rightarrow> string \<Rightarrow> 'p \<Rightarrow> 'p ca_step list \<Rightarrow> bool" where
  "bundle_pool W path pool es \<longleftrightarrow>
     (case es of
        [CaFile (FOpened p None), CaFile (FStat (Inr i)), CaFile (FRead (Inr pem)), CaSystem (Some system), CaFile (FClosed b)] \<Rightarrow>
          p = path \<and> si_regular i \<and> si_size i \<le> int max_ca_bundle_bytes \<and> ca_append W pem system = Some pool
      | _ \<Rightarrow> False)"

lemmas ca_intros = emits_bind emits_effect emits_return emits_sum emits_if emits_option emits_let

lemma load_root_cas_pool:
  "emits (load_root_cas W path) (\<lambda>r es. case r of Inl e \<Rightarrow> True | Inr pool \<Rightarrow> bundle_pool W path pool es)"
  unfolding load_root_cas_def load_open_bundle_def add_certificates_def
  by (intro ca_intros) (auto simp: bundle_pool_def split: option.splits)

text \<open>In every world, a transport for a CA bundle exists only when the named regular file was opened once,
judged, read and held a certificate that was added to the system pool; it then verifies against that
pool, needs TLS 1.2 and verifies exactly as the default does; without a bundle the TLS configuration
is the default one; a direct transport has no proxy.\<close>

theorem transport_fails_closed:
  "emits (new_transport std W direct path) (\<lambda>r es. case r of
     Inl e \<Rightarrow> path \<noteq> []
   | Inr t \<Rightarrow>
       tr_proxy t = (tr_proxy std \<and> \<not> direct) \<and>
       (if path = [] then tr_tls t = tr_tls std \<and> es = []
        else (case tr_tls t of
                None \<Rightarrow> False
              | Some c \<Rightarrow> tls12 \<le> tc_min_version c \<and>
                  tc_skip_verify c = (case tr_tls std of None \<Rightarrow> False | Some d \<Rightarrow> tc_skip_verify d) \<and>
                  (case tc_roots c of None \<Rightarrow> False | Some pool \<Rightarrow> bundle_pool W path pool es))))"
  unfolding new_transport_def Let_def
  by (intro emits_if emits_then [OF load_root_cas_pool] emits_return)
     (auto simp: with_roots_def Let_def split: sum.splits option.splits)

end
