(* ===== verification/SavedFiles.thy ===== *)
theory SavedFiles
  imports KeyStore RunStateFile CredStore
begin

text \<open>
  The three files the connector keeps, the private key, the run state and the credentials, are saved
  whole or not at all, and read back as what was saved.
\<close>

lemma save_state_whole:
  "emits (save_state J D s rs) (\<lambda>r es. case encode_run_state J rs of
     None \<Rightarrow> r = Some (AtEncode, too_large) \<and> es = []
   | Some data \<Rightarrow> saved_whole (rst_path s) data fs r es)"
  unfolding save_state_def
  by (cases "encode_run_state J rs") (simp_all add: emits_return state_file.whole)

definition cred_change :: "cred_lib \<Rightarrow> cred_store \<Rightarrow> files \<Rightarrow> cred_fault option \<times> cred_store \<Rightarrow> disk_step list \<Rightarrow> bool" where
  "cred_change L s1 fs r es \<longleftrightarrow> snd r = s1 \<and>
     (case creds_encode L (cs_data s1) of
        None \<Rightarrow> fst r \<noteq> None \<and> es = []
      | Some data \<Rightarrow> (\<exists>e. fst r = map_option CredsNotSaved e \<and> saved_whole (cs_path s1) data fs e es))"

lemma save_creds_whole:
  "emits (save_creds L D s) (\<lambda>r es. case creds_encode L (cs_data s) of
     None \<Rightarrow> r = Some (AtEncode, not_encoded) \<and> es = []
   | Some data \<Rightarrow> saved_whole (cs_path s) data fs r es)"
  unfolding save_creds_def
  by (cases "creds_encode L (cs_data s)") (simp_all add: emits_return creds_file.whole)

lemma set_cred_change:
  "emits (set_cred L D plugin c s) (\<lambda>r es. case validate_cred L c of
     Some e \<Rightarrow> r = (Some (CredsRefused e), s) \<and> es = []
   | None \<Rightarrow> cred_change L (put_creds s (fmupd plugin c (cs_data s))) fs r es)"
proof (cases "validate_cred L c")
  case None
  then show ?thesis unfolding set_cred_def Let_def
    by (auto intro!: emits_then [OF save_creds_whole [of L D _ fs]] emits_return simp: cred_change_def split: option.splits)
qed (simp add: set_cred_def emits_return)

lemma remove_cred_change:
  "emits (remove_cred L D plugin s)
     (\<lambda>r es. cred_change L (put_creds s (fmdrop plugin (cs_data s))) fs r es)"
  unfolding remove_cred_def Let_def
  by (auto intro!: emits_then [OF save_creds_whole [of L D _ fs]] emits_return simp: cred_change_def split: option.splits)

text \<open>C16. In every world, saving the private key, the run state or a changed credential map keeps its
file whole: after each system call of the save the file holds what it held before or exactly the new
bytes with mode 0600, and at the end the new bytes exactly when the save reports success or only a
failed flush of the directory; a refused entry or an encoding that fails touches nothing, and the
temporary file of a key or of the run state does not stay.\<close>

theorem files_saved_whole:
  "emits (key_save L D path priv) (\<lambda>r es. saved_whole path (pack_key L priv) fs r es \<and> cleaned path es) \<and>
   emits (save_state J D st rs) (\<lambda>r es. case encode_run_state J rs of
     None \<Rightarrow> r = Some (AtEncode, too_large) \<and> es = []
   | Some data \<Rightarrow> saved_whole (rst_path st) data fs r es \<and> cleaned (rst_path st) es) \<and>
   emits (set_cred V D plugin c s) (\<lambda>r es. case validate_cred V c of
     Some e \<Rightarrow> r = (Some (CredsRefused e), s) \<and> es = []
   | None \<Rightarrow> cred_change V (put_creds s (fmupd plugin c (cs_data s))) fs r es) \<and>
   emits (remove_cred V D plugin s) (\<lambda>r es. cred_change V (put_creds s (fmdrop plugin (cs_data s))) fs r es)"
proof (intro conjI)
  show "emits (key_save L D path priv) (\<lambda>r es. saved_whole path (pack_key L priv) fs r es \<and> cleaned path es)"
    unfolding key_save_def by (rule emits_conj [OF key_file.whole key_store_cleaned])
  show "emits (save_state J D st rs) (\<lambda>r es. case encode_run_state J rs of
     None \<Rightarrow> r = Some (AtEncode, too_large) \<and> es = []
   | Some data \<Rightarrow> saved_whole (rst_path st) data fs r es \<and> cleaned (rst_path st) es)"
    unfolding save_state_def
    by (cases "encode_run_state J rs")
       (simp_all add: emits_return emits_conj [OF state_file.whole install_state_cleaned])
qed (rule set_cred_change remove_cred_change)+

section \<open>Read back\<close>

text \<open>What is at the path after a save that replaced the file, when the temporary name was a new one.\<close>

definition reads_back :: "string \<Rightarrow> (string \<Rightarrow> 32 word \<Rightarrow> bool) \<Rightarrow> files \<Rightarrow> save_error option \<Rightarrow> disk_step list \<Rightarrow> bool" where
  "reads_back path P fs r es \<longleftrightarrow>
     (if list_all (fresh_name path) es \<and> installed r
      then (case disk_after fs es path of Some (Bytes data, mode) \<Rightarrow> P data mode | _ \<Rightarrow> False) else True)"

lemma reads_back_whole:
  "saved_whole path data fs r es \<Longrightarrow> P data owner_only \<Longrightarrow> reads_back path P fs r es"
  by (auto simp: saved_whole_def reads_back_def)

lemma reads_back_refused [simp]: "stage \<noteq> AtDirSync \<Longrightarrow> reads_back path P fs (Some (stage, e)) es"
  by (simp add: reads_back_def)

text \<open>C23. What a save that replaced the file left is what the loader accepts and gives back: the same
key, the same usable run records with none dropped, and the same valid credential map when its
strings are UTF-8, each with a mode the loader takes; whatever the system calls answered. (The
strings of usable run records are always UTF-8; those of a credential need not be, and encoding/json
alters what is not.)\<close>

theorem saved_files_read_back:
  assumes "mldsa_ok L" and "state_json_ok J" and "cred_lib_ok V"
    and "fmpred usable_entry rs" and "creds_valid V (cs_data s)" and "creds_text (cs_data s)"
  shows "emits (key_save L D path priv)
           (reads_back path (\<lambda>data mode. mode AND 0x3F = 0 \<and> unmarshal_private_key L data = Some priv) fs) \<and>
         emits (save_state J D st rs) (\<lambda>r es. reads_back (rst_path st)
           (\<lambda>data mode. mode AND 2 = 0 \<and> parse_state J data = (rs, 0, RunStateOK)) fs r es) \<and>
         emits (save_creds V D s) (\<lambda>r es. reads_back (cs_path s)
           (\<lambda>data mode. creds_mode_acceptable mode \<and> parse_creds V data = Inr (cs_data s)) fs r es)"
proof (intro conjI)
  have "unmarshal_private_key L (pack_key L priv) = Some priv"
    using assms(1) by (simp add: mldsa_ok_def unmarshal_private_key_def)
  then show "emits (key_save L D path priv)
      (reads_back path (\<lambda>data mode. mode AND 0x3F = 0 \<and> unmarshal_private_key L data = Some priv) fs)"
    unfolding key_save_def by (intro emits_weaken [OF key_file.whole]) (rule reads_back_whole, auto)
  have "parse_state J data = (rs, 0, RunStateOK)" if "encode_run_state J rs = Some data" for data
    by (rule encoded_parses [OF assms(2,4) that])
  then show "emits (save_state J D st rs) (\<lambda>r es. reads_back (rst_path st)
      (\<lambda>data mode. mode AND 2 = 0 \<and> parse_state J data = (rs, 0, RunStateOK)) fs r es)"
    by (intro emits_weaken [OF save_state_whole [where fs = fs]])
       (auto split: option.splits intro: reads_back_whole)
  have "parse_creds V data = Inr (cs_data s)" if "creds_encode V (cs_data s) = Some data" for data
    using assms(3,5,6) that by (auto simp: cred_lib_ok_def parse_creds_def invalid_entries_none [symmetric] split: list.splits)
  then show "emits (save_creds V D s) (\<lambda>r es. reads_back (cs_path s)
      (\<lambda>data mode. creds_mode_acceptable mode \<and> parse_creds V data = Inr (cs_data s)) fs r es)"
    by (intro emits_weaken [OF save_creds_whole [where fs = fs]])
       (auto split: option.splits intro: reads_back_whole simp: creds_mode_acceptable_def)
qed

text \<open>A key of one byte, one repository and one credential, on a disk where every call succeeds.\<close>

definition quiet_disk :: "unit disk" where
  "quiet_disk = \<lparr>dk_mkdir = \<lambda>_ _ w. (None, w), dk_create = \<lambda>d _ w. (Inr (d @ ''/tmp''), w),
     dk_chmod = \<lambda>_ _ w. (None, w), dk_write = \<lambda>_ _ w. (None, w), dk_sync = \<lambda>_ w. (None, w),
     dk_close = \<lambda>_ w. (None, w), dk_rename = \<lambda>_ _ w. (None, w), dk_sync_dir = \<lambda>_ w. (None, w),
     dk_remove = \<lambda>_ w. (None, w)\<rparr>"

definition byte_keys :: "char mldsa" where
  "byte_keys = \<lparr>key_size = 1, unpack_key = hd, pack_key = \<lambda>c. [c], sign_to = \<lambda>c m. c # m\<rparr>"

definition one_record :: run_record where
  "one_record = no_record\<lparr>rr_target := replicate 64 (CHR ''a'')\<rparr>"

definition one_state :: "(string, run_record) fmap" where
  "one_state = fmupd ''r1'' one_record fmempty"

definition one_json :: state_json where
  "one_json = \<lparr>sj_file = \<lambda>s. if s = ''x'' then Some (1, fmupd ''r1'' ''y'' fmempty) else None,
     sj_record = \<lambda>s. if s = ''y'' then Some one_record else None,
     sj_encode = \<lambda>v rs. if v = 1 \<and> rs = one_state then Some ''x'' else None\<rparr>"

definition plain_cred :: credential where
  "plain_cred = \<lparr>cr_base_url = ''https://ci.example'', cr_auth = [], cr_username = [], cr_token = [],
     cr_strip_headers = [], cr_strip_query_params = [], cr_ca_bundle = [], cr_upstream_timeout = []\<rparr>"

definition one_creds :: "(string, credential) fmap" where
  "one_creds = fmupd ''ci'' plain_cred fmempty"

definition one_cred_lib :: cred_lib where
  "one_cred_lib = \<lparr>parse_duration = \<lambda>_. None, creds_decode = \<lambda>s. if s = ''z'' then Some one_creds else None,
     creds_encode = \<lambda>m. if m = one_creds then Some ''z'' else None\<rparr>"

lemma plain_cred_valid: "validate_cred one_cred_lib plain_cred = None"
  by (simp add: validate_cred_def first_error_def plain_cred_def check_auth_def check_ca_bundle_def check_timeout_def)

theorem saved_files_read_back_witness:
  "emits (save_state one_json quiet_disk (new_run_state_store ''/m'') one_state) (\<lambda>r es.
     reads_back (rst_path (new_run_state_store ''/m''))
       (\<lambda>data mode. mode AND 2 = 0 \<and> parse_state one_json data = (one_state, 0, RunStateOK)) (\<lambda>_. None) r es) \<and>
   emits (save_creds one_cred_lib quiet_disk \<lparr>cs_path = ''/c/creds'', cs_data = one_creds, cs_generation = 1\<rparr>)
     (\<lambda>r es. reads_back ''/c/creds'' (\<lambda>data mode. creds_mode_acceptable mode \<and> parse_creds one_cred_lib data = Inr one_creds)
       (\<lambda>_. None) r es)"
proof -
  let ?s = "\<lparr>cs_path = ''/c/creds'', cs_data = one_creds, cs_generation = 1\<rparr>"
  have "mldsa_ok byte_keys" by (simp add: mldsa_ok_def byte_keys_def)
  moreover have "state_json_ok one_json"
    by (auto simp: state_json_ok_def one_json_def one_state_def split: if_splits)
  moreover have "cred_lib_ok one_cred_lib" by (auto simp: cred_lib_ok_def one_cred_lib_def split: if_splits)
  moreover have "usable_entry ''r1'' one_record"
    by (simp add: usable_entry_def valid_repo_id_def max_repo_id_length_def valid_record_def one_record_def no_record_def
        is_alpha_def is_lower_def is_upper_def is_digit_def is_hex_digit_def is_hex_lower_def lower_char_def
        list_all_iff is_zero_time_def)
  then have "fmpred usable_entry one_state" by (simp add: one_state_def fmpred_upd)
  moreover have "creds_valid one_cred_lib (cs_data ?s)"
    by (simp add: one_creds_def creds_valid_upd plain_cred_valid)
  moreover have "creds_text (cs_data ?s)"
    by (simp add: one_creds_def creds_text_def fmpred_upd plain_cred_def Let_def rune_error_def)
  ultimately have "emits (key_save byte_keys quiet_disk ''/k/key'' (CHR ''k''))
           (reads_back ''/k/key'' (\<lambda>data mode. mode AND 0x3F = 0 \<and> unmarshal_private_key byte_keys data = Some (CHR ''k'')) (\<lambda>_. None)) \<and>
         emits (save_state one_json quiet_disk (new_run_state_store ''/m'') one_state) (\<lambda>r es. reads_back (rst_path (new_run_state_store ''/m''))
           (\<lambda>data mode. mode AND 2 = 0 \<and> parse_state one_json data = (one_state, 0, RunStateOK)) (\<lambda>_. None) r es) \<and>
         emits (save_creds one_cred_lib quiet_disk ?s) (\<lambda>r es. reads_back (cs_path ?s)
           (\<lambda>data mode. creds_mode_acceptable mode \<and> parse_creds one_cred_lib data = Inr (cs_data ?s)) (\<lambda>_. None) r es)"
    by (rule saved_files_read_back)
  then show ?thesis by simp
qed

end
