(* ===== verification/ApiConfinement.thy ===== *)
theory ApiConfinement
  imports ApiRequest
begin

text \<open>
  The path of a forwarded request stays under the configured base path, on the configured host, as an
  upstream that decodes it once sees it.
\<close>

section \<open>Rooted paths\<close>

text \<open>
  What \<open>url.Parse\<close> documents: the path of a URL with a host is empty or begins with a slash, as is its raw
  form, and so is that of a reference that begins with a slash, which has no scheme.
\<close>

definition path_ok :: "string \<Rightarrow> bool" where
  "path_ok p \<longleftrightarrow> p = [] \<or> rooted p"

definition url_parse_ok :: "http_lib \<Rightarrow> bool" where
  "url_parse_ok H \<longleftrightarrow> (\<forall>s u. hl_url_parse H s = Some u \<longrightarrow>
     (w_host u \<noteq> [] \<or> rooted s \<longrightarrow> path_ok (w_path u) \<and> path_ok (w_raw_path u)) \<and>
     (rooted s \<longrightarrow> w_scheme u = []))"

lemma unescape_empty: "unescape_text m s = Some [] \<Longrightarrow> s = []"
  by (induction m s rule: unescape_text.induct) (auto split: if_splits list.splits)

lemma unescape_slash [simp]: "unescape_text m (slash # s) = map_option (Cons slash) (unescape_text m s)"
  by (simp add: slash_def)

lemma unescape_rooted: "rooted s \<Longrightarrow> unescape_text m s = Some p \<Longrightarrow> rooted p"
  by (cases s) (auto simp: unescape_slash simp del: unescape_text.simps)

lemma escape_slash: "escape_byte InPath slash = [slash]"
  by (simp add: escape_byte_def should_escape_def slash_def is_alnum_def is_alpha_def is_digit_def is_upper_def is_lower_def)

lemma escape_rooted: "rooted p \<Longrightarrow> rooted (escape_text InPath p)"
  by (cases p) (auto simp: escape_text_def escape_slash)

lemma escape_empty [simp]: "escape_text InPath [] = []"
  by (simp add: escape_text_def)

lemma escaped_path_ok: "path_ok path \<Longrightarrow> path_ok raw \<Longrightarrow> path_ok (escaped_path_of path raw)"
  by (auto simp: path_ok_def escaped_path_of_def escape_rooted)

lemma escaped_path_empty: "escaped_path_of path raw = [] \<Longrightarrow> path = []"
  using escaped_path_decodes [of path raw] by simp

lemma resolve_path_ok: "path_ok (resolve_path base ref)"
  using resolve_path_rooted [of base ref] by (simp add: path_ok_def rooted_def)

lemma resolve_path_empty: "resolve_path base ref = [] \<longleftrightarrow> base = [] \<and> ref = []"
  by (auto simp: resolve_path_def Let_def)

lemma set_path_ok: "set_path p = Some (path, raw) \<Longrightarrow> path_ok p \<Longrightarrow> path_ok path \<and> (path = [] \<longrightarrow> p = [])"
  by (auto simp: set_path_def path_ok_def intro: unescape_rooted dest: unescape_empty split: option.splits)

lemma with_path_ok:
  assumes "path_ok p" "path_ok (w_path u)" "p \<noteq> []" "w_path u \<noteq> []"
  shows "rooted (w_path (with_path u p))"
  using assms set_path_ok [of p] by (auto simp: with_path_def path_ok_def split: option.splits)

lemma with_path_other [simp]:
  "w_host (with_path u p) = w_host u" "w_scheme (with_path u p) = w_scheme u" "w_user (with_path u p) = w_user u"
  "w_query (with_path u p) = w_query u" "w_force_query (with_path u p) = w_force_query u"
  by (auto simp: with_path_def split: option.splits)

section \<open>The target\<close>

lemma wire_path_decodes:
  assumes "rooted (url_escaped_path t)"
  shows "unescape_text InPath (wire_path t) = Some (w_path t)"
proof -
  have "wire_path t = url_escaped_path t" using assms by (simp add: wire_path_def Let_def rooted_def)
  then show ?thesis by (simp add: url_escaped_path_def escaped_path_decodes)
qed

lemma trim_suffix_slash_ok: "path_ok p \<Longrightarrow> path_ok (trim_suffix p ''/'')"
  by (cases p) (auto simp: trim_suffix_def path_ok_def rooted_def take_Cons')

lemma path_ok_append: "path_ok p \<Longrightarrow> path_ok q \<Longrightarrow> path_ok (p @ q)"
  by (auto simp: path_ok_def intro: rooted_append)

text \<open>The accepted target, as the steps of \<open>resolve_target\<close> leave it.\<close>

definition joined_ref :: "web_url \<Rightarrow> web_url \<Rightarrow> web_url" where
  "joined_ref base ref = resolve_reference base (ref\<lparr>w_path := w_path base @ w_path ref\<rparr>)"

lemma resolve_targetE:
  assumes "resolve_target H base_url path = Inr t"
  obtains base ref where "hl_url_parse H base_url = Some base" "usable_base base" "hl_url_parse H path = Some ref"
    "\<not> w_user ref" "rooted path" "w_host (joined_ref base ref) = w_host base"
    "confined (w_path base) (path_clean (w_path (joined_ref base ref)))"
    "t = caller_form base (url_escaped_path ref)
      ((joined_ref base ref)\<lparr>w_raw_path := [], w_path := path_clean (w_path (joined_ref base ref))\<rparr>)"
  using assms
  by (auto simp: resolve_target_def joined_ref_def Let_def rooted_def slash_def split: if_splits option.splits)

lemma caller_form_keeps [simp]:
  "w_host (caller_form b c t) = w_host t" "w_scheme (caller_form b c t) = w_scheme t"
  "w_path (caller_form b c t) = w_path t" "w_user (caller_form b c t) = w_user t"
  by (simp_all add: caller_form_def Let_def)

lemma caller_form_rooted:
  assumes "path_ok (url_escaped_path base)" "path_ok caller_raw" "rooted (w_path t)"
  shows "rooted (url_escaped_path (caller_form base caller_raw t))"
proof -
  let ?c = "trim_suffix (url_escaped_path base) ''/'' @ caller_raw"
  have c: "path_ok ?c" using assms(1,2) by (intro path_ok_append trim_suffix_slash_ok)
  show ?thesis
  proof (cases "escaped_path_of (w_path t) ?c = ?c")
    case True
    then have "?c \<noteq> []" using escaped_path_empty [of "w_path t" ?c] assms(3) by auto
    with True c show ?thesis by (auto simp: caller_form_def Let_def url_escaped_path_def path_ok_def)
  next
    case False
    have "rooted (escaped_path_of (w_path t) [])" using assms(3) escape_rooted by (auto simp: escaped_path_of_def)
    with False show ?thesis by (simp add: caller_form_def Let_def url_escaped_path_def)
  qed
qed

lemma joined_ref_rooted:
  assumes "w_path base \<noteq> [] \<or> w_path ref \<noteq> []" "path_ok (w_path base)" "path_ok (w_path ref)"
  shows "rooted (w_path (joined_ref base ref))"
proof -
  let ?r = "ref\<lparr>w_path := w_path base @ w_path ref\<rparr>"
  have r: "w_path ?r \<noteq> []" "path_ok (w_path ?r)" using assms by (auto intro: path_ok_append)
  then have "url_escaped_path ?r \<noteq> []" using escaped_path_empty by (auto simp: url_escaped_path_def)
  then have "resolve_path (url_escaped_path ?r) [] \<noteq> []" "resolve_path b (url_escaped_path ?r) \<noteq> []" for b
    by (simp_all add: resolve_path_empty)
  then show ?thesis
    unfolding joined_ref_def resolve_reference_def Let_def
    by (simp split: if_split) (use r in \<open>auto intro!: with_path_ok resolve_path_ok\<close>)
qed

lemma escaped_path_nil: "escaped_path_of [] raw = []"
  by (auto simp: escaped_path_of_def dest: unescape_empty)

lemma with_path_nil: "w_path u = [] \<Longrightarrow> w_path (with_path u []) = []"
  by (simp add: with_path_def set_path_def)

lemma path_clean_nil: "path_clean [] = ''.''"
  by (simp add: path_clean_def clean_elements_def clean_step_def)

lemma escaped_path_dot: "escaped_path_of ''.'' [] = ''.''"
  by (simp add: escaped_path_of_def escape_text_def escape_byte_def should_escape_def is_alnum_def is_alpha_def
      is_upper_def is_lower_def is_digit_def)

lemma confined_root: "base_path = [] \<or> base_path = ''/'' \<Longrightarrow> confined base_path p"
  by (auto simp: confined_def)

lemma target_confined:
  assumes "url_parse_ok H" and "resolve_target H base_url path = Inr t"
  shows "\<exists>base p. hl_url_parse H base_url = Some base \<and> usable_base base \<and>
    w_host t = w_host base \<and> w_scheme t = w_scheme base \<and> \<not> w_user t \<and>
    unescape_text InPath (wire_path t) = Some p \<and>
    ''..'' \<notin> set (split_on slash p) \<and> confined (w_path base) p"
proof -
  from assms(2) obtain base ref where b: "hl_url_parse H base_url = Some base" "usable_base base"
    and r: "hl_url_parse H path = Some ref" "\<not> w_user ref" "rooted path"
    and host: "w_host (joined_ref base ref) = w_host base"
    and conf: "confined (w_path base) (path_clean (w_path (joined_ref base ref)))"
    and t: "t = caller_form base (url_escaped_path ref)
      ((joined_ref base ref)\<lparr>w_raw_path := [], w_path := path_clean (w_path (joined_ref base ref))\<rparr>)"
    by (rule resolve_targetE)
  let ?u = "(joined_ref base ref)\<lparr>w_raw_path := [], w_path := path_clean (w_path (joined_ref base ref))\<rparr>"
  have bp: "path_ok (w_path base)" "path_ok (w_raw_path base)"
    using assms(1) b unfolding url_parse_ok_def usable_base_def by blast+
  have rp: "path_ok (w_path ref)" "path_ok (w_raw_path ref)" "w_scheme ref = []"
    using assms(1) r unfolding url_parse_ok_def by blast+
  have scheme: "w_scheme t = w_scheme base" using rp(3) by (simp add: t joined_ref_def resolve_reference_def Let_def)
  have user: "\<not> w_user t" using r(2) b(2) by (simp add: t joined_ref_def resolve_reference_def Let_def usable_base_def)
  show ?thesis
  proof (cases "w_path base = [] \<and> w_path ref = []")
    case False
    then have "rooted (w_path (joined_ref base ref))" using joined_ref_rooted bp rp by blast
    then have clean: "rooted (w_path ?u)" "''..'' \<notin> set (split_on slash (w_path ?u))"
      using path_clean_elements by simp_all
    have "rooted (url_escaped_path t)"
      unfolding t by (rule caller_form_rooted [OF _ _ clean(1)])
        (simp_all add: url_escaped_path_def escaped_path_ok bp rp)
    from wire_path_decodes [OF this] have "unescape_text InPath (wire_path t) = Some (w_path ?u)" by (simp add: t)
    with b host scheme user clean(2) conf show ?thesis by (auto simp: t)
  next
    case True
    then have empty: "url_escaped_path base = []" "url_escaped_path ref = []" "url_escaped_path (ref\<lparr>w_path := []\<rparr>) = []"
      by (simp_all add: url_escaped_path_def escaped_path_nil)
    have "w_path (joined_ref base ref) = []"
      using True empty by (simp add: joined_ref_def resolve_reference_def Let_def with_path_nil resolve_path_def)
    then have u: "w_path ?u = ''.''" by (simp add: path_clean_nil)
    have "caller_form base [] ?u = ?u"
      using u empty by (simp add: caller_form_def trim_suffix_def suffix_def escaped_path_dot)
    then have "wire_path t = ''/.''"
      using u empty b(2) by (simp add: t wire_path_def host usable_base_def url_escaped_path_def escaped_path_dot slash_def)
    moreover have "unescape_text InPath ''/.'' = Some ''/.''" by simp
    moreover have "''..'' \<notin> set (split_on slash ''/.'')" by (simp add: slash_def)
    moreover have "confined (w_path base) ''/.''" using True by (simp add: confined_root)
    ultimately show ?thesis using b host scheme user by (auto simp: t)
  qed
qed

end
