(* ===== verification/ApiCredential.thy ===== *)
theory ApiCredential
  imports ApiRequest
begin

text \<open>
  When a plugin has a local credential, it is the only one its upstream receives: the caller's credential
  headers and query parameters are gone from the request that is sent.
\<close>

section \<open>The parameters of a query\<close>

definition query_tokens :: "string \<Rightarrow> string list" where
  "query_tokens q = filter (\<lambda>t. t \<noteq> []) (split_at separator q)"

lemma split_at_whole: "\<not> list_ex P x \<Longrightarrow> split_at P x = [x]"
  by (induction x) auto

lemma split_at_append: "P c \<Longrightarrow> split_at P (x @ c # s) = split_at P x @ split_at P s"
proof (induction x)
  case (Cons a x)
  then show ?case by (cases "split_at P x") auto
qed simp

lemma query_tokens_word: "\<not> list_ex separator t \<Longrightarrow> query_tokens t = (if t = [] then [] else [t])"
  by (simp add: query_tokens_def split_at_whole)

lemma query_tokens_append: "separator c \<Longrightarrow> query_tokens (x @ c # s) = query_tokens x @ query_tokens s"
  by (simp add: query_tokens_def split_at_append)

lemma query_tokens_nil [simp]: "query_tokens [] = []"
  by (simp add: query_tokens_def)

text \<open>A separator stands before every token but the first.\<close>

definition scan_ok :: "char option \<Rightarrow> string \<Rightarrow> bool" where
  "scan_ok sep out \<longleftrightarrow> (case sep of None \<Rightarrow> out = [] | Some c \<Rightarrow> separator c)"

lemma flush_token_spec:
  assumes "scan_ok sep out" "\<not> list_ex separator t" "flush_token H strip sep t (out, ch) = (out', ch')"
  shows "query_tokens out' = query_tokens out @ filter (keep_token H strip) (query_tokens t) \<and>
    ch' = (ch \<or> \<not> list_all (keep_token H strip) (query_tokens t))"
proof (cases "t \<noteq> [] \<and> keep_token H strip t")
  case True
  then show ?thesis
    using assms by (auto simp: flush_token_def scan_ok_def query_tokens_word query_tokens_append split: option.splits if_splits)
next
  case False
  then show ?thesis
    using assms by (auto simp: flush_token_def query_tokens_word split: if_splits)
qed

lemma strip_scan_spec:
  "strip_scan H strip sep t (out, ch) raw = (out', ch') \<Longrightarrow> scan_ok sep out \<Longrightarrow> \<not> list_ex separator t \<Longrightarrow>
   query_tokens out' = query_tokens out @ filter (keep_token H strip) (query_tokens (t @ raw)) \<and>
   ch' = (ch \<or> \<not> list_all (keep_token H strip) (query_tokens (t @ raw)))"
proof (induction raw arbitrary: sep t out ch)
  case Nil
  then show ?case using flush_token_spec [of sep out t H strip ch out' ch'] by simp
next
  case (Cons c raw)
  show ?case
  proof (cases "separator c")
    case True
    obtain out1 ch1 where f: "flush_token H strip sep t (out, ch) = (out1, ch1)" by force
    have "scan_ok (Some c) out1" using True by (simp add: scan_ok_def)
    moreover have "strip_scan H strip (Some c) [] (out1, ch1) raw = (out', ch')" using Cons.prems(1) True f by simp
    ultimately have "query_tokens out' = query_tokens out1 @ filter (keep_token H strip) (query_tokens raw) \<and>
        ch' = (ch1 \<or> \<not> list_all (keep_token H strip) (query_tokens raw))"
      using Cons.IH [of "Some c" "[]" out1 ch1] by simp
    with flush_token_spec [OF Cons.prems(2,3) f] True show ?thesis
      by (simp add: query_tokens_append)
  next
    case False
    then have "strip_scan H strip sep (t @ [c]) (out, ch) raw = (out', ch')" "\<not> list_ex separator (t @ [c])"
      using Cons.prems by simp_all
    then show ?thesis using Cons.IH [of sep "t @ [c]" out ch] Cons.prems(2) by simp
  qed
qed

text \<open>
  What is left of a query is exactly the parameters to keep, in their order, and a query with none to drop
  is left as it is.
\<close>

lemma strip_query_exact:
  assumes "strip \<noteq> []"
  shows "query_tokens (strip_query_params_from_raw H raw strip) = filter (keep_token H strip) (query_tokens raw)"
    and "list_all (keep_token H strip) (query_tokens raw) \<Longrightarrow> strip_query_params_from_raw H raw strip = raw"
proof -
  obtain out ch where s: "strip_scan H strip None [] ([], False) raw = (out, ch)" by force
  from strip_scan_spec [OF s] have spec: "query_tokens out = filter (keep_token H strip) (query_tokens raw)"
    "ch = (\<not> list_all (keep_token H strip) (query_tokens raw))" by (simp_all add: scan_ok_def)
  have all: "filter (keep_token H strip) (query_tokens raw) = query_tokens raw"
    if "list_all (keep_token H strip) (query_tokens raw)"
    using that by (induction "query_tokens raw") (auto simp: list_all_iff filter_id_conv)
  show "query_tokens (strip_query_params_from_raw H raw strip) = filter (keep_token H strip) (query_tokens raw)"
    using assms s spec all by (auto simp: strip_query_params_from_raw_def)
  show "strip_query_params_from_raw H raw strip = raw" if "list_all (keep_token H strip) (query_tokens raw)"
    using assms s spec that by (simp add: strip_query_params_from_raw_def)
qed

section \<open>Header names\<close>

abbreviation dashes :: "string \<Rightarrow> string" where
  "dashes \<equiv> map (\<lambda>c. if c = CHR ''_'' then CHR ''-'' else c)"

lemma upper_char_underscore [simp]: "upper_char c = CHR ''_'' \<longleftrightarrow> c = CHR ''_''"
  by (auto simp: char_eq_byte byte_upper_char is_lower_def)

lemma lower_char_underscore [simp]: "lower_char c = CHR ''_'' \<longleftrightarrow> c = CHR ''_''"
  by (auto simp: char_eq_byte byte_lower_char is_upper_def)

lemma case_chars [simp]:
  "upper_char (lower_char c) = upper_char c" "lower_char (upper_char c) = lower_char c"
  by (auto simp: char_eq_byte byte_upper_char byte_lower_char is_upper_def is_lower_def)

lemma canonical_bytes_dashes:
  "canonical_bytes up (dashes (canonical_bytes up' s)) = canonical_bytes up (dashes s)"
  by (induction s arbitrary: up up') auto

lemma token_dash [simp]: "header_token_char (CHR ''-'')" "header_token_char (CHR ''_'')"
  by (simp_all add: header_token_char_def)

lemma token_dashes: "list_all header_token_char (dashes s) = list_all header_token_char s"
  by (induction s) auto

lemma strip_header_key_canonical [simp]: "strip_header_key (canonical_header k) = strip_header_key k"
  by (simp add: strip_header_key_def canonical_header_def token_dashes canonical_bytes_dashes canonical_bytes_token)

section \<open>The headers that are sent\<close>

lemma forwarded_header:
  "fmlookup (fold (forward_header strip) hs h) k = Some vs \<Longrightarrow>
   fmlookup h k = Some vs \<or>
   (\<exists>k0 v. (k0, v) \<in> set hs \<and> k = canonical_header k0 \<and> vs = [v] \<and>
      canonical_header k0 \<notin> set hop_by_hop_headers \<and> strip_header_key k0 \<notin> set strip)"
proof (induction hs arbitrary: h)
  case (Cons kv hs)
  obtain k0 v where kv: "kv = (k0, v)" by force
  from Cons.prems have "fmlookup (fold (forward_header strip) hs (forward_header strip kv h)) k = Some vs" by simp
  from Cons.IH [OF this] show ?case
    by (auto simp: kv forward_header_def header_set_def split: if_splits)
qed simp

definition authorization_value :: "credential \<Rightarrow> string" where
  "authorization_value c =
     (if cr_auth c = ''bearer'' then ''Bearer '' @ cr_token c else basic_value (cr_username c) (cr_token c))"

lemma first_error_none: "first_error es = None \<longleftrightarrow> list_all (\<lambda>e. e = None) es"
  by (induction es) (auto simp: first_error_def)

lemma authorized_modes:
  "has_authorization L c \<Longrightarrow> cr_auth c = ''bearer'' \<or> cr_auth c = ''basic'' \<and> cr_username c \<noteq> []"
  by (auto simp: has_authorization_def validate_cred_def first_error_none check_auth_def split: if_splits)

lemma canonical_authorization: "canonical_header ''Authorization'' = ''Authorization''"
  by (simp add: canonical_header_def header_token_char_def is_alnum_def is_alpha_def is_upper_def is_lower_def
      upper_char_def lower_char_def)

lemma canonical_via: "canonical_header ''Via'' = ''Via''"
  by (simp add: canonical_header_def header_token_char_def is_alnum_def is_alpha_def is_upper_def is_lower_def
      upper_char_def lower_char_def)

lemma apply_authorization_set:
  "has_authorization L c \<Longrightarrow> apply_authorization L c h = fmupd ''Authorization'' [authorization_value c] h"
  using authorized_modes [of L c]
  by (auto simp: apply_authorization_def header_set_def canonical_authorization authorization_value_def)

text \<open>Which headers can be in a request: \<open>Via\<close>, the local credential, and the caller's that are not stripped.\<close>

lemma request_header_cases:
  assumes "fmlookup (request_headers H cred direct hs) k = Some vs"
  obtains "k = ''Via''"
  | c where "cred = Some c" "direct" "has_authorization (hl_creds H) c" "k = ''Authorization''" "vs = [authorization_value c]"
  | k0 v where "(k0, v) \<in> set hs" "k = canonical_header k0" "vs = [v]" "k \<notin> set hop_by_hop_headers"
      "strip_header_key k \<notin> set (headers_to_strip cred direct)"
proof -
  let ?h = "fold (forward_header (headers_to_strip cred direct)) hs fmempty"
  have via: "fmlookup (fmupd ''Via'' [''1.1 mkonnect''] ?h) k = Some vs \<Longrightarrow> thesis"
    using forwarded_header [of "headers_to_strip cred direct" hs fmempty k vs] that(1,3)
    by (auto split: if_splits)
  show thesis
  proof (cases "\<exists>c. cred = Some c \<and> direct \<and> has_authorization (hl_creds H) c")
    case True
    then obtain c where c: "cred = Some c" "direct" "has_authorization (hl_creds H) c" by blast
    show thesis
    proof (cases "k = ''Authorization''")
      case True
      then show thesis using assms c that(2) [OF c]
        by (simp add: request_headers_def Let_def apply_authorization_set)
    next
      case False
      then show thesis using assms c via
        by (simp add: request_headers_def Let_def apply_authorization_set header_set_def canonical_via)
    qed
  next
    case False
    then show thesis using assms via
      by (auto simp: request_headers_def Let_def header_set_def canonical_via apply_authorization_def split: option.splits if_splits)
  qed
qed

text \<open>The planned request, as the steps of \<open>plan_request\<close> leave it.\<close>

lemma plan_requestE:
  assumes "plan_request H reg cred ca msg = Inr out"
  obtains base_url t where "base_url_for reg cred (rq_provider_key msg) = Some base_url"
    "request_method H (rq_method msg) \<in> set allowed_methods"
    "resolve_target H base_url (rq_path msg) = Inr t"
    "or_direct out = (case cred of None \<Rightarrow> False | Some c \<Rightarrow> has_authorization (hl_creds H) c)"
    "or_target out = t\<lparr>w_query := strip_query_params_from_raw H (w_query t) (query_strip_set H cred (or_direct out)),
       w_fragment := []\<rparr>"
    "or_headers out = request_headers H cred (or_direct out) (rq_headers msg)"
    "length (or_body out) \<le> max_body_bytes" "or_method out = request_method H (rq_method msg)"
    "or_timeout out = effective_upstream_timeout H cred"
  using assms by (auto simp: plan_request_def build_request_def Let_def split: option.splits if_splits sum.splits)

text \<open>C25. When a plugin has a local credential, the request that is sent carries it as its only
Authorization header, no header of the caller that the denylist or the plugin's own list names in
any casing or separator spelling, no hop-by-hop header, and no query parameter whose decoded and
normalised name is a credential parameter or cannot be decoded.\<close>

theorem local_credential_only:
  assumes "plan_request H reg (Some c) ca msg = Inr out" and "or_direct out"
  shows "fmlookup (or_headers out) ''Authorization'' = Some [authorization_value c] \<and>
    (\<forall>k. k |\<in>| fmdom (or_headers out) \<longrightarrow> k = ''Authorization'' \<or> k = ''Via'' \<or>
       strip_header_key k \<notin> set (default_credential_headers @ strip_header_set (cr_strip_headers c)) \<and>
       k \<notin> set hop_by_hop_headers) \<and>
    list_all (keep_token H (query_strip_set H (Some c) True)) (query_tokens (w_query (or_target out)))"
proof -
  from assms(1) obtain base_url t where p: "or_direct out = has_authorization (hl_creds H) c"
    "or_target out = t\<lparr>w_query := strip_query_params_from_raw H (w_query t) (query_strip_set H (Some c) (or_direct out)),
       w_fragment := []\<rparr>"
    "or_headers out = request_headers H (Some c) (or_direct out) (rq_headers msg)"
    by (rule plan_requestE) simp
  have auth: "has_authorization (hl_creds H) c" using p(1) assms(2) by simp
  have set: "fmlookup (or_headers out) ''Authorization'' = Some [authorization_value c]"
    using assms(2) auth by (simp add: p(3) request_headers_def Let_def apply_authorization_set)
  have other: "k = ''Authorization'' \<or> k = ''Via'' \<or>
       strip_header_key k \<notin> set (default_credential_headers @ strip_header_set (cr_strip_headers c)) \<and>
       k \<notin> set hop_by_hop_headers" if k: "k |\<in>| fmdom (or_headers out)" for k
  proof -
    from k obtain vs where "fmlookup (request_headers H (Some c) True (rq_headers msg)) k = Some vs"
      using assms(2) p(3) by (auto simp: fmlookup_dom_iff)
    then show ?thesis by (rule request_header_cases) (auto simp: headers_to_strip_def)
  qed
  have "query_strip_set H (Some c) True \<noteq> []" by (simp add: query_strip_set_def default_credential_query_params_def)
  from strip_query_exact(1) [OF this, of H "w_query t"]
  have "list_all (keep_token H (query_strip_set H (Some c) True)) (query_tokens (w_query (or_target out)))"
    using assms(2) by (simp add: p(2) list_all_iff)
  with set other show ?thesis by blast
qed

end
