(* ===== verification/ApiHandler.thy ===== *)
theory ApiHandler
  imports ApiConfinement ApiCredential
begin

text \<open>
  The API connector's handling of one forwarded request (\<open>HTTPHandler\<close> of \<open>plugin/handler.go\<close>): its
  deadline, the client for its CA bundle, the exchange with the upstream and the reply. The upstream, the
  clock and the TLS transports are the world; the logging is left out. Handlings share the cache of clients
  only, and each use of it holds its lock, so a handling takes the cache at that point.
\<close>

section \<open>What an upstream could reflect\<close>

definition encodings :: "string \<Rightarrow> string list" where
  "encodings v = filter (\<lambda>e. e \<noteq> v)
     [query_escape v, path_escape v, base64_encode False True v, base64_encode False False v,
      base64_encode True True v, base64_encode True False v]"

definition credential_representations :: "credential \<Rightarrow> string list" where
  "credential_representations c =
     (if cr_token c = [] then []
      else [cr_token c] @ encodings (cr_token c) @
        (if cr_auth c = ''bearer'' then
           (let a = ''Bearer '' @ cr_token c in a # encodings a)
         else if cr_auth c = ''basic'' \<and> cr_username c \<noteq> [] then
           (let raw = cr_username c @ '':'' @ cr_token c;
                encoded = std_base64 raw;
                a = ''Basic '' @ encoded
            in [raw, a, encoded] @ encodings raw @ encodings a @ encodings encoded)
         else []))"

definition contains_representation :: "string list \<Rightarrow> string \<Rightarrow> bool" where
  "contains_representation reps v \<longleftrightarrow> list_ex (\<lambda>r. sublist r v) reps"

record http_response =
  hr_status :: int
  hr_headers :: "(string \<times> string list) list"

definition response_contains_local_credentials :: "http_response \<Rightarrow> string \<Rightarrow> credential \<Rightarrow> bool" where
  "response_contains_local_credentials resp body c =
     (let reps = credential_representations c
      in if reps = [] then False
         else contains_representation reps body \<or>
           list_ex (\<lambda>(k, vs). contains_representation reps k \<or> list_ex (contains_representation reps) vs) (hr_headers resp))"

section \<open>Errors of the transport\<close>

text \<open>The first link that has a timeout answers; with none, a deadline in the chain is one.\<close>

definition is_timeout_error :: "go_error \<Rightarrow> bool" where
  "is_timeout_error err =
     (case filter (\<lambda>l. el_timeout l \<noteq> None) err of
        l # _ \<Rightarrow> the (el_timeout l)
      | [] \<Rightarrow> list_ex el_deadline err)"

definition transport_error_code :: "go_error \<Rightarrow> error_code" where
  "transport_error_code err =
     (if (case filter (\<lambda>l. el_op l \<noteq> None) err of l # _ \<Rightarrow> the (el_op l) = ''dial'' | [] \<Rightarrow> False)
      then UpstreamUnreachable
      else if is_timeout_error err then UpstreamTimeout else UpstreamError)"

section \<open>The cache of clients\<close>

text \<open>A client: the plain one, the direct one, or one with a transport of its own.\<close>

datatype 'c http_client = PlainClient | DirectClient | BundleClient 'c

record ('w, 'c) http_world =
  hw_now :: "'w \<Rightarrow> gtime \<times> 'w"
  hw_transport :: "bool \<Rightarrow> string \<Rightarrow> 'w \<Rightarrow> 'c option \<times> 'w"
  hw_do :: "'c http_client \<Rightarrow> outbound \<Rightarrow> 'w \<Rightarrow> (go_error + http_response) \<times> 'w"
  hw_read :: "nat \<Rightarrow> 'w \<Rightarrow> (go_error + string) \<times> 'w"
  hw_done :: "'w \<Rightarrow> bool \<times> 'w"

datatype 'c http_step =
    HNow gtime
  | HTransport bool string "'c option"
  | HDo "'c http_client" outbound "go_error + http_response"
  | HRead "go_error + string"
  | HDone bool

text \<open>The entries by transport mode and bundle, None for a bundle that could not be loaded; none at first.\<close>

record 'c ca_cache =
  cc_gen :: nat
  cc_entries :: "(bool \<times> string, 'c option) fmap option"

definition no_clients :: "'c ca_cache" where
  "no_clients = \<lparr>cc_gen = 0, cc_entries = None\<rparr>"

definition current_entries :: "nat \<Rightarrow> 'c ca_cache \<Rightarrow> nat \<times> (bool \<times> string, 'c option) fmap" where
  "current_entries gen cache =
     (case cc_entries cache of
        None \<Rightarrow> (gen, fmempty)
      | Some m \<Rightarrow> if gen > cc_gen cache then (gen, fmempty) else (cc_gen cache, m))"

definition client_for ::
  "('w, 'c) http_world \<Rightarrow> bool \<Rightarrow> string \<Rightarrow> nat \<Rightarrow> 'c ca_cache \<Rightarrow>
   (('w, 'c http_step) sys, 'c option \<times> 'c ca_cache) state" where
  "client_for W direct path gen cache =
     (case current_entries gen cache of (g, m) \<Rightarrow>
        (case fmlookup m (direct, path) of
           Some e \<Rightarrow> ret (e, \<lparr>cc_gen = g, cc_entries = Some m\<rparr>)
         | None \<Rightarrow> do {
             t \<leftarrow> effect (hw_transport W direct path) (HTransport direct path);
             ret (t, \<lparr>cc_gen = g, cc_entries = Some (fmupd (direct, path) t m)\<rparr>)
           }))"

text \<open>\<open>warmCACache\<close>: the transports the credentials imply, each once.\<close>

fun warm_clients ::
  "('w, 'c) http_world \<Rightarrow> nat \<Rightarrow> (bool \<times> string) list \<Rightarrow> (bool \<times> string) list \<Rightarrow> 'c ca_cache \<Rightarrow>
   (('w, 'c http_step) sys, 'c ca_cache) state" where
  "warm_clients W gen seen [] cache = ret cache"
| "warm_clients W gen seen ((direct, path) # ks) cache =
     (if path = [] \<or> (direct, path) \<in> set seen then warm_clients W gen seen ks cache
      else do {
        r \<leftarrow> client_for W direct path gen cache;
        warm_clients W gen ((direct, path) # seen) ks (snd r)
      })"

definition warm_ca_cache ::
  "http_lib \<Rightarrow> ('w, 'c) http_world \<Rightarrow> cred_store \<Rightarrow> string \<Rightarrow> (('w, 'c http_step) sys, 'c ca_cache) state" where
  "warm_ca_cache H W s default_ca =
     warm_clients W (cs_generation s) []
       ([(False, default_ca), (True, default_ca)] @
        map (\<lambda>k. let c = the (fmlookup (cs_data s) k)
                 in (has_authorization (hl_creds H) c, if cr_ca_bundle c \<noteq> [] then cr_ca_bundle c else default_ca))
          (sorted_keys (cs_data s)))
       no_clients"

section \<open>The exchange\<close>

definition sensitive_response_headers :: "string list" where
  "sensitive_response_headers = [''Authorization'', ''Cookie'', ''Proxy-Authorization'', ''Set-Cookie'']"

definition relay_header :: "string \<times> string list \<Rightarrow> (string, string) fmap \<Rightarrow> (string, string) fmap" where
  "relay_header kvs m =
     (case kvs of
        (k, v # vs) \<Rightarrow>
          if canonical_header k \<notin> set sensitive_response_headers \<and> canonical_header k \<noteq> error_header
          then fmupd k v m else m
      | (k, []) \<Rightarrow> m)"

definition relayed :: "http_response \<Rightarrow> string \<Rightarrow> http_reply" where
  "relayed resp body =
     \<lparr>rp_status = hr_status resp, rp_headers = fold relay_header (hr_headers resp) fmempty, rp_body = Some body,
       rp_error = None\<rparr>"

definition cancelled_reply :: http_reply where
  "cancelled_reply = \<lparr>rp_status = 0, rp_headers = fmempty, rp_body = None, rp_error = Some CtxDone\<rparr>"

text \<open>What is done with an error: the platform's cancellation is passed on, anything else is marked.\<close>

definition failed_exchange ::
  "('w, 'c) http_world \<Rightarrow> http_reply \<Rightarrow> (('w, 'c http_step) sys, http_reply) state" where
  "failed_exchange W r = do {
     gone \<leftarrow> effect (hw_done W) HDone;
     ret (if gone then cancelled_reply else r)
   }"

definition response_reply :: "bool \<Rightarrow> credential option \<Rightarrow> http_response \<Rightarrow> string \<Rightarrow> http_reply" where
  "response_reply direct cred resp body =
     (if max_body_bytes < length body
      then synthesised 413 ResponseTooLarge ''{\"error\":\"upstream response too large\"}''
      else if direct \<and> (case cred of Some c \<Rightarrow> response_contains_local_credentials resp body c | None \<Rightarrow> False)
      then synthesised 502 CredentialLeak ''{\"error\":\"upstream response contains local credentials\"}''
      else relayed resp body)"

definition exchange ::
  "('w, 'c) http_world \<Rightarrow> credential option \<Rightarrow> 'c http_client \<Rightarrow> outbound \<Rightarrow> (('w, 'c http_step) sys, http_reply) state" where
  "exchange W cred client out = do {
     resp \<leftarrow> effect (hw_do W client out) (HDo client out);
     (case resp of
        Inl err \<Rightarrow>
          failed_exchange W ((synthesised 504 (transport_error_code err)
            ''{\"error\":\"upstream timeout or connection error\"}'')\<lparr>rp_error := Some (DoFailed err)\<rparr>)
      | Inr r \<Rightarrow> do {
          b \<leftarrow> effect (hw_read W (max_body_bytes + 1)) HRead;
          (case b of
             Inl err \<Rightarrow>
               failed_exchange W ((synthesised 504 (if is_timeout_error err then UpstreamTimeout else UpstreamError)
                 ''{\"error\":\"error reading upstream response\"}'')\<lparr>rp_error := Some (ReadFailed err)\<rparr>)
           | Inr body \<Rightarrow> ret (response_reply (or_direct out) cred r body))
        })
   }"

text \<open>The client of a request; a bundle that cannot be loaded fails it.\<close>

definition pick_client ::
  "('w, 'c) http_world \<Rightarrow> nat \<Rightarrow> outbound \<Rightarrow> 'c ca_cache \<Rightarrow>
   (('w, 'c http_step) sys, 'c http_client option \<times> 'c ca_cache) state" where
  "pick_client W gen out cache =
     (if or_ca_bundle out = [] then ret (Some (if or_direct out then DirectClient else PlainClient), cache)
      else do {
        r \<leftarrow> client_for W (or_direct out) (or_ca_bundle out) gen cache;
        ret (map_option BundleClient (fst r), snd r)
      })"

definition deadline_passed ::
  "http_lib \<Rightarrow> ('w, 'c) http_world \<Rightarrow> string \<Rightarrow> (('w, 'c http_step) sys, bool) state" where
  "deadline_passed H W expires_at =
     (if expires_at = [] then ret False
      else do {
        now \<leftarrow> effect (hw_now W) HNow;
        ret (request_expired H expires_at now)
      })"

text \<open>
  \<open>store\<close> is the credential store as the request looks its credential up, \<open>gen\<close> its generation when the
  client is chosen: a reload may come between the two.
\<close>

definition handle_request ::
  "http_lib \<Rightarrow> ('w, 'c) http_world \<Rightarrow> registry \<Rightarrow> cred_store \<Rightarrow> nat \<Rightarrow> string \<Rightarrow> http_request \<Rightarrow> 'c ca_cache \<Rightarrow>
   (('w, 'c http_step) sys, http_reply \<times> 'c ca_cache) state" where
  "handle_request H W reg store gen default_ca msg cache = do {
     expired \<leftarrow> deadline_passed H W (rq_expires_at msg);
     (if expired then ret (synthesised 504 Expired ''{\"error\":\"request expired before forwarding\"}'', cache)
      else (let cred = get_cred store (rq_provider_key msg)
            in case plan_request H reg cred default_ca msg of
                 Inl r \<Rightarrow> ret (r, cache)
               | Inr out \<Rightarrow> do {
                   p \<leftarrow> pick_client W gen out cache;
                   (case p of
                      (None, cache1) \<Rightarrow> ret (synthesised 500 InvalidCABundle ''{\"error\":\"invalid CA bundle\"}'', cache1)
                    | (Some client, cache1) \<Rightarrow> do {
                        r \<leftarrow> exchange W cred client out;
                        ret (r, cache1)
                      })
                 }))
   }"

end
