(* ===== verification/ApiHandlerSafety.thy ===== *)
theory ApiHandlerSafety
  imports ApiHandler
begin

text \<open>
  What holds of every handling of a request, in every world: what is sent and over which client, what the
  marker of a reply says, and what of the upstream's answer may leave the network.
\<close>

fun is_do :: "'c http_step \<Rightarrow> bool" where
  "is_do (HDo client out r) \<longleftrightarrow> True"
| "is_do _ \<longleftrightarrow> False"

definition sends :: "'c http_step list \<Rightarrow> 'c http_step list" where
  "sends es = filter is_do es"

lemma sends_simps [simp]:
  "sends [] = []" "sends (x # xs) = (if is_do x then x # sends xs else sends xs)" "sends (xs @ ys) = sends xs @ sends ys"
  by (simp_all add: sends_def)

text \<open>The codes of the replies to a request that never reached the upstream.\<close>

definition not_forwarded :: "error_code \<Rightarrow> bool" where
  "not_forwarded c \<longleftrightarrow>
     c \<in> {RequestTooLarge, PathBlocked, InvalidPath, ProviderNotFound, MethodNotAllowed, InvalidBaseURL, InvalidCABundle, Expired}"

definition marker :: "http_reply \<Rightarrow> string option" where
  "marker r = fmlookup (rp_headers r) error_header"

text \<open>A reply made up by the connector for the code.\<close>

definition marked :: "error_code \<Rightarrow> http_reply \<Rightarrow> bool" where
  "marked c r \<longleftrightarrow> rp_headers r = err_headers c"

lemma marker_marked: "marked c r \<Longrightarrow> marker r = Some (code_text c)"
  by (simp add: marked_def marker_def err_headers_def)

lemma marked_synthesised [simp]:
  "marked c (synthesised s d b) \<longleftrightarrow> err_headers d = err_headers c"
  "marked c ((synthesised s d b)\<lparr>rp_error := e\<rparr>) \<longleftrightarrow> err_headers d = err_headers c"
  by (simp_all add: marked_def synthesised_def)

lemma not_forwarded_codes [simp]:
  "not_forwarded RequestTooLarge" "not_forwarded PathBlocked" "not_forwarded InvalidPath"
  "not_forwarded ProviderNotFound" "not_forwarded MethodNotAllowed" "not_forwarded InvalidBaseURL"
  "not_forwarded InvalidCABundle" "not_forwarded Expired"
  "\<not> not_forwarded UpstreamTimeout" "\<not> not_forwarded UpstreamUnreachable" "\<not> not_forwarded UpstreamError"
  "\<not> not_forwarded ResponseTooLarge" "\<not> not_forwarded CredentialLeak"
  by (simp_all add: not_forwarded_def)

text \<open>A reply that stands for a request that was not forwarded.\<close>

definition refusal :: "http_reply \<Rightarrow> bool" where
  "refusal r \<longleftrightarrow> r = build_failed \<or> (\<exists>c. not_forwarded c \<and> marked c r)"

lemma refusal_synthesised [simp]: "not_forwarded c \<Longrightarrow> refusal (synthesised s c b)"
  unfolding refusal_def by (intro disjI2 exI [of _ c]) simp

lemma resolve_target_refused: "resolve_target H u p = Inl r \<Longrightarrow> refusal r"
  by (auto simp: resolve_target_def Let_def split: if_splits option.splits)

lemma build_request_refused:
  "build_request H cred ca msg method t = Inl r \<Longrightarrow> refusal r"
  by (auto simp: build_request_def Let_def refusal_def [of build_failed] split: if_splits)

lemma plan_refused:
  assumes "plan_request H reg cred ca msg = Inl r"
  shows "refusal r"
proof (cases "base_url_for reg cred (rq_provider_key msg)")
  case None
  then show ?thesis using assms by (auto simp: plan_request_def)
next
  case (Some base_url)
  show ?thesis
  proof (cases "request_method H (rq_method msg) \<in> set allowed_methods")
    case False
    then show ?thesis using assms Some by (auto simp: plan_request_def Let_def)
  next
    case True
    show ?thesis
    proof (cases "resolve_target H base_url (rq_path msg)")
      case (Inl r')
      then have "r' = r" using assms Some True by (simp add: plan_request_def Let_def)
      with resolve_target_refused [OF Inl] show ?thesis by simp
    next
      case (Inr t)
      then have "build_request H cred ca msg (request_method H (rq_method msg)) t = Inl r"
        using assms Some True by (simp add: plan_request_def Let_def)
      then show ?thesis by (rule build_request_refused)
    qed
  qed
qed

section \<open>Clients\<close>

text \<open>A client in the cache is the transport that was built for its mode and bundle.\<close>

definition cache_faithful :: "'c http_step list \<Rightarrow> 'c ca_cache \<Rightarrow> bool" where
  "cache_faithful past cache \<longleftrightarrow>
     (case cc_entries cache of None \<Rightarrow> True
      | Some m \<Rightarrow> \<forall>d p c. fmlookup m (d, p) = Some (Some c) \<longrightarrow> HTransport d p (Some c) \<in> set past)"

lemma cache_faithful_more: "cache_faithful past cache \<Longrightarrow> cache_faithful (past @ es) cache"
  by (auto simp: cache_faithful_def split: option.splits)

lemma current_entries_faithful:
  "cache_faithful past cache \<Longrightarrow> current_entries gen cache = (g, m) \<Longrightarrow>
   fmlookup m (d, p) = Some (Some c) \<Longrightarrow> HTransport d p (Some c) \<in> set past"
  by (auto simp: cache_faithful_def current_entries_def split: option.splits if_splits)

lemmas http_intros = emits_bind emits_effect emits_return emits_sum emits_if emits_option emits_let emits_prod

lemma client_for_faithful:
  assumes "cache_faithful past cache"
  shows "emits (client_for W direct path gen cache) (\<lambda>r es. sends es = [] \<and> cache_faithful (past @ es) (snd r) \<and>
     (\<forall>c. fst r = Some c \<longrightarrow> HTransport direct path (Some c) \<in> set (past @ es)))"
  unfolding client_for_def
  by (intro http_intros) (auto simp: cache_faithful_def dest: current_entries_faithful [OF assms])

text \<open>The client of a request: by its mode, and with a bundle only ever one that was built from that bundle.\<close>

definition client_fits :: "'c http_step list \<Rightarrow> outbound \<Rightarrow> 'c http_client \<Rightarrow> bool" where
  "client_fits past out client \<longleftrightarrow>
     (if or_ca_bundle out = [] then client = (if or_direct out then DirectClient else PlainClient)
      else (case client of
              BundleClient c \<Rightarrow> HTransport (or_direct out) (or_ca_bundle out) (Some c) \<in> set past
            | _ \<Rightarrow> False))"

lemma pick_client_fits:
  assumes "cache_faithful past cache"
  shows "emits (pick_client W gen out cache) (\<lambda>r es. sends es = [] \<and> cache_faithful (past @ es) (snd r) \<and>
     (\<forall>client. fst r = Some client \<longrightarrow> client_fits (past @ es) out client))"
proof (cases "or_ca_bundle out = []")
  case True
  then show ?thesis using assms by (auto simp: pick_client_def client_fits_def intro: emits_return)
next
  case False
  then show ?thesis unfolding pick_client_def
    by (auto intro!: emits_then [OF client_for_faithful [OF assms]] emits_return simp: client_fits_def)
qed

section \<open>The exchange\<close>

definition relayed_from :: "'c http_step list \<Rightarrow> outbound \<Rightarrow> credential option \<Rightarrow> http_reply \<Rightarrow> bool" where
  "relayed_from es out cred r \<longleftrightarrow>
     (\<exists>client resp body. HDo client out (Inr resp) \<in> set es \<and> HRead (Inr body) \<in> set es \<and>
        r = relayed resp body \<and> length body \<le> max_body_bytes \<and>
        (case cred of Some c \<Rightarrow> or_direct out \<longrightarrow> \<not> response_contains_local_credentials resp body c | None \<Rightarrow> True))"

definition exchange_reply :: "'c http_step list \<Rightarrow> outbound \<Rightarrow> credential option \<Rightarrow> http_reply \<Rightarrow> bool" where
  "exchange_reply es out cred r \<longleftrightarrow>
     r = cancelled_reply \<or> (\<exists>c. \<not> not_forwarded c \<and> marked c r) \<or> relayed_from es out cred r"

lemma exchange_marked [simp]:
  "\<not> not_forwarded c \<Longrightarrow> exchange_reply es out cred (synthesised s c b)"
  "\<not> not_forwarded c \<Longrightarrow> exchange_reply es out cred ((synthesised s c b)\<lparr>rp_error := e\<rparr>)"
  "exchange_reply es out cred cancelled_reply"
  by (unfold exchange_reply_def) (intro disjI2 disjI1 exI [of _ c], simp, intro disjI2 disjI1 exI [of _ c], simp, simp)

lemma response_reply_cases:
  assumes "HDo client out (Inr resp) \<in> set es" "HRead (Inr body) \<in> set es"
  shows "exchange_reply es out cred (response_reply (or_direct out) cred resp body)"
proof -
  have "exchange_reply es out cred (relayed resp body)"
    if "length body \<le> max_body_bytes"
      "case cred of Some c \<Rightarrow> or_direct out \<longrightarrow> \<not> response_contains_local_credentials resp body c | None \<Rightarrow> True"
    unfolding exchange_reply_def relayed_from_def using assms that by blast
  then show ?thesis by (cases cred) (auto simp: response_reply_def not_less)
qed

lemma transport_code_forwarded: "\<not> not_forwarded (transport_error_code err)"
  by (simp add: transport_error_code_def not_forwarded_def)

lemma exchange_emits:
  "emits (exchange W cred client out)
     (\<lambda>r es. (\<exists>x. sends es = [HDo client out x]) \<and> exchange_reply es out cred r)"
  unfolding exchange_def failed_exchange_def
  by (intro http_intros)
     (auto intro!: response_reply_cases simp: transport_code_forwarded)

section \<open>A whole handling\<close>

lemma deadline_sends: "emits (deadline_passed H W t) (\<lambda>b es. sends es = [])"
  unfolding deadline_passed_def by (intro http_intros) auto

lemma exchange_reply_more: "exchange_reply es out cred r \<Longrightarrow> exchange_reply (pre @ es) out cred r"
  by (auto simp: exchange_reply_def relayed_from_def)

definition handled ::
  "http_reply + outbound \<Rightarrow> credential option \<Rightarrow> 'c http_step list \<Rightarrow> http_reply \<Rightarrow> 'c http_step list \<Rightarrow> bool" where
  "handled plan cred past r es \<longleftrightarrow>
     sends es = [] \<and> refusal r \<or>
     (\<exists>client out x. sends es = [HDo client out x] \<and> plan = Inr out \<and> client_fits (past @ es) out client \<and>
        exchange_reply es out cred r)"

lemma client_fits_more: "client_fits past out client \<Longrightarrow> client_fits (past @ es) out client"
  by (auto simp: client_fits_def split: if_splits http_client.splits)

lemma handle_request_handled:
  assumes "cache_faithful past cache"
  shows "emits (handle_request H W reg store gen ca msg cache) (\<lambda>r es.
     handled (plan_request H reg (get_cred store (rq_provider_key msg)) ca msg) (get_cred store (rq_provider_key msg))
       past (fst r) es \<and> cache_faithful (past @ es) (snd r))"
proof -
  let ?cred = "get_cred store (rq_provider_key msg)"
  let ?plan = "plan_request H reg ?cred ca msg"
  show ?thesis
    unfolding handle_request_def Let_def
  proof (rule emits_then [OF deadline_sends], rule emits_if, goal_cases)
    case (1 expired es)
    then show ?case using cache_faithful_more [OF assms] by (simp add: emits_return handled_def)
  next
    case (2 expired es)
    show ?case
    proof (cases ?plan)
      case (Inl r)
      with 2 plan_refused [OF Inl] show ?thesis
        using cache_faithful_more [OF assms] by (simp add: emits_return handled_def)
    next
      case (Inr out)
      have "emits (pick_client W gen out cache) (\<lambda>r fs. sends fs = [] \<and> cache_faithful ((past @ es) @ fs) (snd r) \<and>
          (\<forall>client. fst r = Some client \<longrightarrow> client_fits ((past @ es) @ fs) out client))"
        by (rule pick_client_fits [OF cache_faithful_more [OF assms]])
      then show ?thesis
      proof (simp only: Inr sum.case, rule emits_then, goal_cases)
        case (1 p fs)
        obtain c cache1 where p: "p = (c, cache1)" by force
        show ?case
        proof (cases c)
          case None
          then show ?thesis using 1 2 by (simp add: p emits_return handled_def)
        next
          case (Some client)
          have after: "client_fits (past @ es @ fs @ gs) out client" "cache_faithful (past @ es @ fs @ gs) cache1" for gs
            using 1 Some client_fits_more [of "past @ es @ fs" out client gs] cache_faithful_more [of "past @ es @ fs" cache1 gs]
            by (simp_all add: p)
          have reply: "exchange_reply (es @ fs @ gs) out ?cred r" if "exchange_reply gs out ?cred r" for gs r
            using exchange_reply_more [OF that, of "es @ fs"] by simp
          have "emits (exchange W ?cred client out >>= (\<lambda>r. ret (r, cache1))) (\<lambda>r gs.
              handled ?plan ?cred past (fst r) (es @ fs @ gs) \<and> cache_faithful (past @ es @ fs @ gs) (snd r))"
            by (rule emits_then [OF exchange_emits], rule emits_return)
               (use 1 2 after reply in \<open>auto simp: handled_def Inr\<close>)
          then show ?thesis by (simp add: p Some Inr)
        qed
      qed
    qed
  qed
qed

section \<open>What a reply says\<close>

lemma cache_start: "\<exists>past. cache_faithful past cache"
proof (cases "cc_entries cache")
  case (Some m)
  have "\<exists>past. \<forall>d p c. fmlookup m (d, p) = Some (Some c) \<longrightarrow> HTransport d p (Some c) \<in> set past"
  proof -
    have "finite (fmdom' m)" by simp
    from finite_list [OF this] obtain ks where ks: "set ks = fmdom' m" by (elim exE)
    let ?past = "map (\<lambda>(d, p). HTransport d p (the (fmlookup m (d, p)))) ks"
    have "HTransport d p (Some c) \<in> set ?past" if "fmlookup m (d, p) = Some (Some c)" for d p c
    proof -
      have "(d, p) \<in> set ks" using that ks by (simp add: fmdom'I)
      then have "(\<lambda>(d, p). HTransport d p (the (fmlookup m (d, p)))) (d, p) \<in> set ?past" unfolding set_map by (rule imageI)
      then show ?thesis using that by simp
    qed
    then show ?thesis by blast
  qed
  with Some show ?thesis by (simp add: cache_faithful_def)
qed (simp add: cache_faithful_def)

lemma relayed_headers:
  "fmlookup (fold relay_header hs m) k = Some v \<Longrightarrow> fmlookup m k = Some v \<or>
     (\<exists>vs. (k, v # vs) \<in> set hs \<and> canonical_header k \<notin> set sensitive_response_headers \<and> canonical_header k \<noteq> error_header)"
proof (induction hs arbitrary: m)
  case (Cons kvs hs)
  obtain k0 vs0 where kvs: "kvs = (k0, vs0)" by force
  from Cons.prems have "fmlookup (fold relay_header hs (relay_header kvs m)) k = Some v" by simp
  from Cons.IH [OF this] show ?case
    by (cases vs0) (auto simp: kvs relay_header_def split: if_splits)
qed simp

lemma canonical_error_header: "canonical_header error_header = error_header"
  by (simp add: canonical_header_def error_header_def header_token_char_def is_alnum_def is_alpha_def is_upper_def
      is_lower_def upper_char_def lower_char_def)

lemma relayed_unmarked: "marker (relayed resp body) = None"
proof (cases "marker (relayed resp body)")
  case (Some v)
  then have "fmlookup (fold relay_header (hr_headers resp) fmempty) error_header = Some v"
    by (simp add: marker_def relayed_def)
  from relayed_headers [OF this] show ?thesis by (simp add: canonical_error_header)
qed

lemma code_text_inject: "code_text c = code_text d \<longleftrightarrow> c = d"
  by (cases c; cases d) simp_all

text \<open>What the marker of a reply, or its absence, says of the request.\<close>

definition truthful :: "http_reply \<Rightarrow> 'c http_step list \<Rightarrow> bool" where
  "truthful r es \<longleftrightarrow>
     (case marker r of
        Some t \<Rightarrow> (\<exists>c. t = code_text c \<and> (if not_forwarded c then sends es = [] else length (sends es) = 1))
      | None \<Rightarrow>
          r = build_failed \<and> sends es = [] \<or> length (sends es) = 1 \<and> r = cancelled_reply \<or>
          length (sends es) = 1 \<and>
            (\<exists>client out resp body. HDo client out (Inr resp) \<in> set es \<and> HRead (Inr body) \<in> set es \<and> r = relayed resp body))"

lemma refusal_truthful: "refusal r \<Longrightarrow> sends es = [] \<Longrightarrow> truthful r es"
  unfolding refusal_def
  by (auto simp: truthful_def marker_marked) (simp add: marker_def build_failed_def)

lemma exchange_truthful:
  assumes "exchange_reply es out cred r" "sends es = [x]"
  shows "truthful r es"
  using assms(1) unfolding exchange_reply_def
proof (elim disjE exE conjE)
  assume "r = cancelled_reply"
  then show ?thesis using assms(2) by (simp add: truthful_def marker_def cancelled_reply_def)
next
  fix c assume "\<not> not_forwarded c" "marked c r"
  then show ?thesis using assms(2) by (auto simp: truthful_def marker_marked intro!: exI [of _ c])
next
  assume "relayed_from es out cred r"
  then show ?thesis using assms(2) relayed_unmarked by (fastforce simp: truthful_def relayed_from_def)
qed

text \<open>In every world, the marker of a reply says what became of the request: a code of the group 'not
forwarded' only when nothing was sent, every other code only when it was sent exactly once, and a
reply without a marker is the upstream's own answer, which cannot forge the marker, or the
platform's cancellation of a request that was sent, or a request that could not be built.\<close>

theorem markers_truthful:
  "emits (handle_request H W reg store gen ca msg cache) (\<lambda>r es. truthful (fst r) es)"
proof -
  obtain past where "cache_faithful past cache" using cache_start by blast
  then show ?thesis
    by (rule emits_weaken [OF handle_request_handled])
       (auto simp: handled_def intro: refusal_truthful exchange_truthful)
qed

section \<open>What may leave\<close>

text \<open>
  The secrets of a credential: the token, and what the request's authorization is made of. Each can be written as it is,
  escaped for a query or a path, or in base64, of either alphabet, with or without padding. A text leaks the credential
  when it contains a secret so written.
\<close>

definition secret_texts :: "credential \<Rightarrow> string list" where
  "secret_texts c =
     (if cr_auth c = ''basic''
      then [cr_token c, cr_username c @ '':'' @ cr_token c, std_base64 (cr_username c @ '':'' @ cr_token c),
            ''Basic '' @ std_base64 (cr_username c @ '':'' @ cr_token c)]
      else [cr_token c, ''Bearer '' @ cr_token c])"

definition written :: "string \<Rightarrow> string list" where
  "written s =
     [s, query_escape s, path_escape s, base64_encode False True s, base64_encode False False s,
      base64_encode True True s, base64_encode True False s]"

definition leaks :: "credential \<Rightarrow> string \<Rightarrow> bool" where
  "leaks c v \<longleftrightarrow> list_ex (\<lambda>s. list_ex (\<lambda>f. sublist f v) (written s)) (secret_texts c)"

text \<open>No part of a relayed answer leaks the credential, or is a header that may carry one.\<close>

definition withheld :: "credential \<Rightarrow> http_reply \<Rightarrow> bool" where
  "withheld c r \<longleftrightarrow>
     fmpred (\<lambda>k v. \<not> leaks c k \<and> \<not> leaks c v \<and>
       canonical_header k \<notin> {''Authorization'', ''Cookie'', ''Proxy-Authorization'', ''Set-Cookie''}) (rp_headers r) \<and>
     (case rp_body r of Some b \<Rightarrow> \<not> leaks c b | None \<Rightarrow> True)"

lemma written_encodings: "set (written s) = insert s (set (encodings s))"
  by (auto simp: written_def encodings_def)

lemma leaks_represented:
  assumes "has_authorization L c" "leaks c v"
  shows "contains_representation (credential_representations c) v"
proof -
  have "cr_auth c = ''bearer'' \<and> cr_token c \<noteq> [] \<or> cr_auth c = ''basic'' \<and> cr_token c \<noteq> [] \<and> cr_username c \<noteq> []"
    using assms(1)
    by (auto simp: has_authorization_def validate_cred_def first_error_def check_auth_def min_cred_token_length_def
        split: if_splits)
  then have all: "f \<in> set (credential_representations c)" if "s \<in> set (secret_texts c)" "f \<in> set (written s)" for s f
    using that unfolding written_encodings by (auto simp: secret_texts_def credential_representations_def Let_def)
  from assms(2) obtain s f where "s \<in> set (secret_texts c)" "f \<in> set (written s)" "sublist f v"
    by (auto simp: leaks_def list_ex_iff)
  with all show ?thesis by (auto simp: contains_representation_def list_ex_iff)
qed

lemma relayed_withheld:
  assumes "\<not> response_contains_local_credentials resp body c" "has_authorization L c"
  shows "withheld c (relayed resp body)"
proof -
  note leak = leaks_represented [OF assms(2)]
  let ?reps = "credential_representations c"
  have none: "\<not> contains_representation ?reps body"
    "\<And>k vs. (k, vs) \<in> set (hr_headers resp) \<Longrightarrow> \<not> contains_representation ?reps k \<and> \<not> list_ex (contains_representation ?reps) vs"
    using assms(1) by (auto simp: response_contains_local_credentials_def Let_def list_ex_iff contains_representation_def split: if_splits)
  have "\<not> leaks c k \<and> \<not> leaks c v \<and> canonical_header k \<notin> {''Authorization'', ''Cookie'', ''Proxy-Authorization'', ''Set-Cookie''}"
    if l: "fmlookup (fold relay_header (hr_headers resp) fmempty) k = Some v" for k v
  proof -
    from relayed_headers [OF l] obtain vs where "(k, v # vs) \<in> set (hr_headers resp)"
      "canonical_header k \<notin> set sensitive_response_headers" by auto
    with none(2) [OF this(1)] show ?thesis by (auto simp: sensitive_response_headers_def dest: leak)
  qed
  moreover have "\<not> leaks c body" using none(1) leak by blast
  ultimately show ?thesis by (simp add: withheld_def relayed_def fmpred_iff)
qed

text \<open>C26. In every world, when a plugin has a local credential, no header name, header value or body that
is relayed to the platform contains the token, the value of the authorization it makes or, for
basic, the user name with the token, each as it is, percent-escaped for a query or a path, or in
base64 of either alphabet with or without padding; and no relayed header is Authorization, Proxy-
Authorization, Cookie or Set-Cookie.\<close>

theorem local_credential_withheld:
  "emits (handle_request H W reg store gen ca msg cache) (\<lambda>r es.
     if marker (fst r) = None \<and> rp_error (fst r) = None
     then (case get_cred store (rq_provider_key msg) of
             Some c \<Rightarrow> if has_authorization (hl_creds H) c then withheld c (fst r) else True
           | None \<Rightarrow> True)
     else True)"
proof -
  let ?cred = "get_cred store (rq_provider_key msg)"
  obtain past where "cache_faithful past cache" using cache_start by blast
  then show ?thesis
  proof (rule emits_weaken [OF handle_request_handled], elim conjE)
    fix r es
    assume h: "handled (plan_request H reg ?cred ca msg) ?cred past (fst r) es"
    have "withheld c (fst r)" if plain: "marker (fst r) = None" "rp_error (fst r) = None"
      and c: "?cred = Some c" "has_authorization (hl_creds H) c" for c
    proof -
      have "\<not> refusal (fst r)" using plain by (auto simp: refusal_def build_failed_def dest: marker_marked)
      then obtain out where out: "plan_request H reg (Some c) ca msg = Inr out" "exchange_reply es out (Some c) (fst r)"
        using h c(1) unfolding handled_def by auto
      have "or_direct out" by (rule plan_requestE [OF out(1)]) (use c(2) in simp)
      moreover have "fst r \<noteq> cancelled_reply" using plain by (auto simp: cancelled_reply_def)
      moreover have "\<not> marked d (fst r)" for d using plain(1) marker_marked by fastforce
      ultimately show ?thesis using out(2) relayed_withheld [OF _ c(2)] by (auto simp: exchange_reply_def relayed_from_def)
    qed
    then show "if marker (fst r) = None \<and> rp_error (fst r) = None
     then (case ?cred of Some c \<Rightarrow> if has_authorization (hl_creds H) c then withheld c (fst r) else True | None \<Rightarrow> True)
     else True" by (simp split: option.split)
  qed
qed

section \<open>What is sent\<close>

text \<open>The caches of a running connector: warmed at the start, then used by any requests, with what was logged.\<close>

inductive serving :: "http_lib \<Rightarrow> ('w, 'c) http_world \<Rightarrow> registry \<Rightarrow> string \<Rightarrow> 'c http_step list \<Rightarrow> 'c ca_cache \<Rightarrow> bool"
  for H W reg ca where
  warmed: "in_world (warm_ca_cache H W store ca) w = (cache, es) \<Longrightarrow> serving H W reg ca es cache"
| served: "serving H W reg ca past cache \<Longrightarrow>
    in_world (handle_request H W reg store gen ca msg cache) w = ((r, cache'), es) \<Longrightarrow>
    serving H W reg ca (past @ es) cache'"

lemma warm_clients_faithful:
  fixes W :: "('w, 'c) http_world"
  shows "cache_faithful past cache \<Longrightarrow> emits (warm_clients W gen seen ks cache) (\<lambda>r es. cache_faithful (past @ es) r)"
proof (induction W gen seen ks cache arbitrary: past rule: warm_clients.induct)
  case (2 W gen seen direct path ks cache)
  show ?case
  proof (cases "path = [] \<or> (direct, path) \<in> set seen")
    case False
    have "emits (warm_clients W gen ((direct, path) # seen) ks (snd r)) (\<lambda>a fs. cache_faithful (past @ es @ fs) a)"
      if "cache_faithful (past @ es) (snd r)" for r :: "'c option \<times> 'c ca_cache" and es
      using "2.IH"(2) [OF False that] by simp
    with False show ?thesis by (auto intro!: emits_then [OF client_for_faithful [OF "2.prems"]])
  qed (use "2.IH"(1) "2.prems" in simp)
qed (simp add: emits_return)

lemma serving_faithful: "serving H W reg ca past cache \<Longrightarrow> cache_faithful past cache"
proof (induction rule: serving.induct)
  case (warmed store w cache es)
  have "emits (warm_ca_cache H W store ca) (\<lambda>r es. cache_faithful ([] @ es) r)"
    unfolding warm_ca_cache_def
    by (rule warm_clients_faithful) (simp add: cache_faithful_def no_clients_def)
  from in_worldD [OF this warmed] show ?case by simp
next
  case (served past cache store gen msg w r cache' es)
  from in_worldD [OF handle_request_handled [OF served.IH] served.hyps(2)] show ?case by simp
qed

text \<open>C27. Whatever requests, reloads and bundle failures came before, a handling sends at most one
request, the planned one, over the client of its transport mode; with a CA bundle configured only
over a client that was built from that very bundle in that mode, so a bundle that cannot be loaded
is never replaced by the system trust.\<close>

theorem requests_sent_as_planned:
  assumes "serving H W reg ca past cache"
    and "in_world (handle_request H W reg store gen ca msg cache) w = ((r, cache'), es)"
  shows "case sends es of
      [] \<Rightarrow> True
    | x # rest \<Rightarrow> rest = [] \<and> (\<exists>client out y. x = HDo client out y \<and>
        plan_request H reg (get_cred store (rq_provider_key msg)) ca msg = Inr out \<and> client_fits (past @ es) out client)"
  using in_worldD [OF handle_request_handled [OF serving_faithful [OF assms(1)]] assms(2)]
  by (auto simp: handled_def)

text \<open>C24. A request that is sent goes to the host and scheme of the configured base URL, without user
information, and its path, as an upstream that decodes it once reads it, has no parent element and
stays under the base path; also when the caller's own escaping of the path is forwarded.\<close>

theorem request_confined:
  assumes "url_parse_ok H" and "plan_request H reg cred ca msg = Inr out"
  shows "\<exists>base_url base p. base_url_for reg cred (rq_provider_key msg) = Some base_url \<and>
    hl_url_parse H base_url = Some base \<and> usable_base base \<and>
    w_host (or_target out) = w_host base \<and> w_scheme (or_target out) = w_scheme base \<and> \<not> w_user (or_target out) \<and>
    unescape_text InPath (wire_path (or_target out)) = Some p \<and>
    ''..'' \<notin> set (split_on slash p) \<and> confined (w_path base) p"
proof -
  from assms(2) obtain base_url t where b: "base_url_for reg cred (rq_provider_key msg) = Some base_url"
    and t: "resolve_target H base_url (rq_path msg) = Inr t"
    and out: "or_target out = t\<lparr>w_query := strip_query_params_from_raw H (w_query t) (query_strip_set H cred (or_direct out)),
       w_fragment := []\<rparr>"
    by (rule plan_requestE)
  have "wire_path (or_target out) = wire_path t" by (simp add: out wire_path_def url_escaped_path_def)
  with target_confined [OF assms(1) t] b out show ?thesis by simp
qed

end
