(* ===== verification/ApiExample.thy ===== *)
theory ApiExample
  imports ApiHandlerSafety SavedFiles
begin

text \<open>
  A request to a plugin with a bearer token: its path and query are rewritten, a cookie and a token
  parameter of the caller are dropped.
\<close>

definition example_cred :: credential where
  "example_cred = \<lparr>cr_base_url = ''https://ci.example/api'', cr_auth = ''bearer'', cr_username = [],
     cr_token = ''0123456789abcdef'', cr_strip_headers = [], cr_strip_query_params = [], cr_ca_bundle = [],
     cr_upstream_timeout = []\<rparr>"

definition base_example :: web_url where
  "base_example = \<lparr>w_scheme = ''https'', w_user = False, w_host = ''ci.example'', w_path = ''/api'', w_raw_path = [],
     w_force_query = False, w_query = [], w_fragment = []\<rparr>"

definition ref_example :: web_url where
  "ref_example = \<lparr>w_scheme = [], w_user = False, w_host = [], w_path = ''/jobs'', w_raw_path = [],
     w_force_query = False, w_query = ''page=2&Token=x'', w_fragment = []\<rparr>"

definition target_example :: web_url where
  "target_example = base_example\<lparr>w_path := ''/api/jobs'', w_raw_path := ''/api/jobs'', w_query := ''page=2''\<rparr>"

definition example_http :: http_lib where
  "example_http = \<lparr>
     hl_url_parse = (\<lambda>s. if s = ''https://ci.example/api'' then Some base_example
                         else if s = ''/jobs?page=2&Token=x'' then Some ref_example
                         else if s = ''https://ci.example/api/jobs?page=2'' then Some target_example else None),
     hl_lower = map lower_char, hl_upper = map upper_char, hl_parse_time = (\<lambda>_. None), hl_not_found = (\<lambda>k. k),
     hl_creds = one_cred_lib\<rparr>"

definition example_msg :: http_request where
  "example_msg = \<lparr>rq_request_id = ''r1'', rq_responder_id = ''w1'', rq_provider_key = ''ci'', rq_method = ''get'',
     rq_path = ''/jobs?page=2&Token=x'', rq_headers = [(''Cookie'', ''sid''), (''Accept'', ''text/html'')], rq_body = None,
     rq_expires_at = []\<rparr>"

definition example_out :: outbound where
  "example_out = \<lparr>or_method = ''GET'', or_target = target_example,
     or_headers = request_headers example_http (Some example_cred) True (rq_headers example_msg), or_body = [],
     or_direct = True, or_ca_bundle = [], or_timeout = default_upstream_timeout\<rparr>"

lemma example_target:
  "resolve_target example_http ''https://ci.example/api'' ''/jobs?page=2&Token=x'' =
     Inr (target_example\<lparr>w_query := ''page=2&Token=x''\<rparr>)"
  by code_simp

lemma example_authorized: "has_authorization one_cred_lib example_cred"
  by code_simp

lemma example_method: "request_method example_http ''get'' = ''GET''"
  by code_simp

lemma example_query:
  "strip_query_params_from_raw example_http ''page=2&Token=x'' (query_strip_set example_http (Some example_cred) True) = ''page=2''"
  by code_simp

lemma example_text: "hl_url_parse example_http (url_text target_example) \<noteq> None"
  by code_simp

lemma example_plan: "plan_request example_http fmempty (Some example_cred) [] example_msg = Inr example_out"
proof -
  have t: "target_example\<lparr>w_query := ''page=2'', w_fragment := []\<rparr> = target_example"
    by (simp add: target_example_def base_example_def)
  have "hl_creds example_http = one_cred_lib" by (simp add: example_http_def)
  moreover have "cr_base_url example_cred = ''https://ci.example/api''" "cr_ca_bundle example_cred = []"
    "cr_upstream_timeout example_cred = []" by (simp_all add: example_cred_def)
  ultimately show ?thesis
    using example_target example_authorized example_method example_query example_text t
    by (simp add: plan_request_def base_url_for_def build_request_def Let_def example_msg_def
        allowed_methods_def max_body_bytes_def example_out_def effective_upstream_timeout_def upstream_timeout_duration_def)
qed

theorem request_confined_witness:
  "\<exists>base_url base p. base_url_for fmempty (Some example_cred) ''ci'' = Some base_url \<and>
    hl_url_parse example_http base_url = Some base \<and> usable_base base \<and>
    w_host target_example = w_host base \<and> w_scheme target_example = w_scheme base \<and> \<not> w_user target_example \<and>
    unescape_text InPath (wire_path target_example) = Some p \<and>
    ''..'' \<notin> set (split_on slash p) \<and> confined (w_path base) p"
proof -
  have "url_parse_ok example_http"
    by (auto simp: url_parse_ok_def example_http_def base_example_def ref_example_def target_example_def path_ok_def slash_def
        split: if_splits)
  from request_confined [OF this example_plan] show ?thesis by (simp add: example_out_def example_msg_def)
qed

theorem local_credential_only_witness:
  "fmlookup (or_headers example_out) ''Authorization'' = Some [''Bearer 0123456789abcdef''] \<and>
   ''Cookie'' |\<notin>| fmdom (or_headers example_out)"
proof -
  have "strip_header_key ''Cookie'' \<in> set default_credential_headers" by code_simp
  then show ?thesis
    using local_credential_only [OF example_plan] by (auto simp: example_out_def authorization_value_def example_cred_def)
qed

definition api_store :: cred_store where
  "api_store = \<lparr>cs_path = ''/c/creds'', cs_data = fmupd ''ci'' example_cred fmempty, cs_generation = 1\<rparr>"

definition echo_world :: "(unit, unit) http_world" where
  "echo_world = \<lparr>hw_now = \<lambda>w. (0, w), hw_transport = \<lambda>_ _ w. (None, w),
     hw_do = \<lambda>_ _ w. (Inr \<lparr>hr_status = 200, hr_headers = []\<rparr>, w), hw_read = \<lambda>_ w. (Inr ''ok'', w), hw_done = \<lambda>w. (False, w)\<rparr>"

theorem requests_sent_as_planned_witness:
  "case in_world (handle_request example_http echo_world fmempty api_store 1 [] example_msg no_clients) () of
     (_, es) \<Rightarrow> (case sends es of
         [] \<Rightarrow> True
       | x # rest \<Rightarrow> rest = [] \<and> (\<exists>client out y. x = HDo client out y \<and> Inr example_out = (Inr out :: http_reply + outbound) \<and>
           client_fits es out client))"
proof -
  have "in_world (warm_ca_cache example_http echo_world api_store []) () = (no_clients, [])"
    by (simp add: warm_ca_cache_def api_store_def example_cred_def in_world_def State_Monad.return_def)
  then have serving: "serving example_http echo_world fmempty [] [] no_clients" by (rule serving.warmed)
  obtain r cache' es where run:
    "in_world (handle_request example_http echo_world fmempty api_store 1 [] example_msg no_clients) () = ((r, cache'), es)"
    by (metis surj_pair)
  have cred: "get_cred api_store (rq_provider_key example_msg) = Some example_cred"
    by (simp add: get_cred_def api_store_def example_msg_def)
  from requests_sent_as_planned [OF serving run] show ?thesis
    unfolding cred example_plan run by (simp only: append_Nil prod.case)
qed

end
