(* ===== verification/ApiClient.thy ===== *)
theory ApiClient
  imports ApiHandler "HOL-Library.Multiset"
begin

text \<open>
  The API connector as a handler of the gateway's messages (\<open>ws/client.go\<close>): the workers, the status of
  the plugins, the connectivity test of one plugin and the replies. A goroutine of the code is a job of the
  state; a step is what one goroutine does between two points where others can run. Sends can fail, which
  the code only logs, so a step gives what it sends. The JSON decoding and the text of the time of a test
  are parameters.
\<close>

section \<open>Messages\<close>

datatype inbound =
    HttpRequestIn http_request | StatusRequestIn | TestConnectionIn string | MalformedIn | OtherIn string

record api_json =
  aj_http :: "string \<Rightarrow> http_request option"
  aj_test :: "string \<Rightarrow> string option"

text \<open>The dispatch on the type of a message.\<close>

definition read_inbound :: "api_json \<Rightarrow> string \<Rightarrow> string \<Rightarrow> inbound" where
  "read_inbound J typ raw =
     (if typ = ''http_request'' then (case aj_http J raw of Some m \<Rightarrow> HttpRequestIn m | None \<Rightarrow> MalformedIn)
      else if typ = ''status_request'' then StatusRequestIn
      else if typ = ''test_connection'' then (case aj_test J raw of Some k \<Rightarrow> TestConnectionIn k | None \<Rightarrow> MalformedIn)
      else OtherIn typ)"

record plugin_status =
  pl_provider_key :: string
  pl_status :: string
  pl_last_tested_at :: string
  pl_error_detail :: string

record test_result =
  tr_provider_key :: string
  tr_status :: string
  tr_diagnostic :: string

record http_response_msg =
  hm_request_id :: string
  hm_responder_id :: string
  hm_status_code :: int
  hm_headers :: "(string, string) fmap"
  hm_body :: "string option"

datatype api_out =
    HttpResponseOut http_response_msg | ConnectionStatusOut "plugin_status list" | TestResultOut test_result

section \<open>The connectivity test\<close>

text \<open>
  \<open>os.IsTimeout\<close>: the outermost error, or the one under an \<open>os.SyscallError\<close>.
\<close>

definition os_is_timeout :: "go_error \<Rightarrow> bool" where
  "os_is_timeout err =
     (case err of
        [] \<Rightarrow> False
      | l # ls \<Rightarrow>
          if el_syscall l = None then el_timeout l = Some True
          else (case ls of [] \<Rightarrow> False | m # _ \<Rightarrow> el_timeout m = Some True))"

definition safe_diagnostic :: "go_error \<Rightarrow> string" where
  "safe_diagnostic err =
     (if err = [] then []
      else if list_ex el_deadline err \<or> os_is_timeout err then ''connection timed out''
      else if list_ex el_dns err then ''DNS resolution failed''
      else if list_ex el_cert err then ''TLS certificate verification failed''
      else (case filter (\<lambda>l. el_syscall l \<noteq> None) err of
              l # _ \<Rightarrow> the (el_syscall l)
            | [] \<Rightarrow> ''connection failed''))"

record probe_request =
  pq_url :: string
  pq_headers :: header_map
  pq_direct :: bool
  pq_ca_bundle :: string

text \<open>\<open>pw_transport\<close> builds a transport for a bundle; \<open>pw_do\<close> answers the status; \<open>pw_expired\<close> is the deadline of the test.\<close>

record 'w probe_world =
  pw_transport :: "bool \<Rightarrow> string \<Rightarrow> 'w \<Rightarrow> bool \<times> 'w"
  pw_do :: "probe_request \<Rightarrow> 'w \<Rightarrow> (go_error + nat) \<times> 'w"
  pw_expired :: "'w \<Rightarrow> bool \<times> 'w"

datatype probe_step = PTransport bool string bool | PDo probe_request "go_error + nat" | PExpired bool

text \<open>The error of a URL that does not parse.\<close>

definition parse_error :: go_error where
  "parse_error = [\<lparr>el_op = None, el_timeout = Some False, el_deadline = False, el_dns = False, el_cert = False, el_syscall = None\<rparr>]"

definition test_outcome :: "string \<Rightarrow> string \<Rightarrow> string \<Rightarrow> test_result" where
  "test_outcome key status diag = \<lparr>tr_provider_key = key, tr_status = status, tr_diagnostic = diag\<rparr>"

definition status_outcome :: "string \<Rightarrow> nat \<Rightarrow> test_result" where
  "status_outcome key code =
     (if code = 401 \<or> code = 403 then test_outcome key ''auth_failure'' (''HTTP '' @ itoa code)
      else if 200 \<le> code \<and> code < 400 \<or> code = 404 \<or> code = 405 then test_outcome key ''connected'' []
      else test_outcome key ''unreachable'' (''HTTP '' @ itoa code))"

text \<open>\<open>url.String\<close> of the base, its slashes at the end replaced by one.\<close>

definition probe_url :: "web_url \<Rightarrow> string" where
  "probe_url base = trim_right_slashes (url_text base) @ ''/''"

definition do_probe ::
  "'w probe_world \<Rightarrow> string \<Rightarrow> probe_request \<Rightarrow> (('w, probe_step) sys, test_result) state" where
  "do_probe W key pq = do {
     r \<leftarrow> effect (pw_do W pq) (PDo pq);
     (case r of
        Inr code \<Rightarrow> ret (status_outcome key code)
      | Inl err \<Rightarrow> do {
          late \<leftarrow> effect (pw_expired W) PExpired;
          ret (test_outcome key (if late \<or> os_is_timeout err then ''timeout'' else ''unreachable'') (safe_diagnostic err))
        })
   }"

definition probe_base_url :: "registry \<Rightarrow> credential option \<Rightarrow> string \<Rightarrow> string" where
  "probe_base_url reg cred key =
     (let u = (case cred of Some c \<Rightarrow> cr_base_url c | None \<Rightarrow> [])
      in if u = [] then (case fmlookup reg key of Some v \<Rightarrow> v | None \<Rightarrow> []) else u)"

definition probe_plugin ::
  "http_lib \<Rightarrow> 'w probe_world \<Rightarrow> registry \<Rightarrow> cred_store \<Rightarrow> string \<Rightarrow> string \<Rightarrow> (('w, probe_step) sys, test_result) state" where
  "probe_plugin H W reg store default_ca key =
     (let cred = get_cred store key; u = probe_base_url reg cred key
      in if u = [] then ret (test_outcome key ''unreachable'' ''not configured'')
         else (case hl_url_parse H u of
           None \<Rightarrow> ret (test_outcome key ''unreachable'' ''invalid base URL'')
         | Some base \<Rightarrow>
             (if \<not> usable_base base then ret (test_outcome key ''unreachable'' ''invalid base URL'')
              else if hl_url_parse H (probe_url base) = None
              then ret (test_outcome key ''unreachable'' (safe_diagnostic parse_error))
              else (let direct = (case cred of Some c \<Rightarrow> has_authorization (hl_creds H) c | None \<Rightarrow> False);
                        headers = (case cred of Some c \<Rightarrow> if direct then apply_authorization (hl_creds H) c fmempty else fmempty
                                              | None \<Rightarrow> fmempty);
                        ca = (case cred of Some c \<Rightarrow> if cr_ca_bundle c \<noteq> [] then cr_ca_bundle c else default_ca
                                         | None \<Rightarrow> default_ca);
                        pq = \<lparr>pq_url = probe_url base, pq_headers = headers, pq_direct = direct, pq_ca_bundle = ca\<rparr>
                    in if ca \<noteq> []
                       then do {
                         ok \<leftarrow> effect (pw_transport W direct ca) (PTransport direct ca);
                         if \<not> ok then ret (test_outcome key ''unreachable'' ''CA bundle could not be loaded'')
                         else do_probe W key pq
                       }
                       else do_probe W key pq))))"

section \<open>The state\<close>

text \<open>A job: a request before and after the check of the critical-patch flag, or a connectivity test.\<close>

datatype api_job = HttpJob http_request | HttpRunning http_request | ProbeJob string

record api_client =
  ac_workers :: nat
  ac_in_flight :: nat
  ac_jobs :: "api_job list"
  ac_critical :: bool
  ac_status_cache :: "(string, plugin_status) fmap"
  ac_push_pending :: bool

definition max_workers :: nat where
  "max_workers = 4"

definition new_api_client :: api_client where
  "new_api_client = \<lparr>ac_workers = 0, ac_in_flight = 0, ac_jobs = [], ac_critical = False, ac_status_cache = fmempty,
     ac_push_pending = False\<rparr>"

section \<open>Status\<close>

definition plugin_keys :: "registry \<Rightarrow> (string, credential) fmap \<Rightarrow> string list" where
  "plugin_keys reg creds = sorted_keys reg @ filter (\<lambda>k. k \<notin> fmdom' reg) (sorted_keys creds)"

definition cached_plugin_status :: "api_client \<Rightarrow> string \<Rightarrow> plugin_status" where
  "cached_plugin_status c key =
     (case fmlookup (ac_status_cache c) key of
        Some s \<Rightarrow> s
      | None \<Rightarrow> \<lparr>pl_provider_key = key, pl_status = ''not_configured'', pl_last_tested_at = [], pl_error_detail = []\<rparr>)"

definition build_connection_status :: "registry \<Rightarrow> (string, credential) fmap \<Rightarrow> api_client \<Rightarrow> api_out" where
  "build_connection_status reg creds c = ConnectionStatusOut (map (cached_plugin_status c) (plugin_keys reg creds))"

definition update_plugin_status :: "string \<Rightarrow> test_result \<Rightarrow> api_client \<Rightarrow> api_client" where
  "update_plugin_status when r c =
     (let st = (if tr_status r = ''connected'' then ''configured_connected''
                else if tr_status r \<in> set [''auth_failure'', ''unreachable'', ''timeout''] then ''configured_error''
                else ''not_configured'')
      in c\<lparr>ac_status_cache := fmupd (tr_provider_key r)
             \<lparr>pl_provider_key = tr_provider_key r, pl_status = st, pl_last_tested_at = when, pl_error_detail = tr_diagnostic r\<rparr>
             (ac_status_cache c)\<rparr>)"

section \<open>The operations\<close>

definition response_out :: "http_request \<Rightarrow> int \<Rightarrow> (string, string) fmap \<Rightarrow> string option \<Rightarrow> api_out" where
  "response_out m code hs body = HttpResponseOut
     \<lparr>hm_request_id = rq_request_id m, hm_responder_id = rq_responder_id m, hm_status_code = code, hm_headers = hs,
       hm_body = body\<rparr>"

text \<open>\<open>HandleMessage\<close>; \<open>status\<close> is the status message as it would be built.\<close>

definition handle_message :: "(api_client \<Rightarrow> api_out) \<Rightarrow> inbound \<Rightarrow> api_client \<Rightarrow> api_client \<times> api_out list" where
  "handle_message status msg c =
     (case msg of
        HttpRequestIn m \<Rightarrow>
          (if ac_workers c < max_workers
           then (c\<lparr>ac_workers := ac_workers c + 1, ac_in_flight := ac_in_flight c + 1, ac_jobs := HttpJob m # ac_jobs c\<rparr>, [])
           else (c, [response_out m 429 fmempty (Some ''{\"error\":\"too many concurrent requests\"}'')]))
      | StatusRequestIn \<Rightarrow> (c, [status c])
      | TestConnectionIn key \<Rightarrow>
          (if ac_workers c < max_workers
           then (c\<lparr>ac_workers := ac_workers c + 1, ac_jobs := ProbeJob key # ac_jobs c\<rparr>, [])
           else (c, []))
      | MalformedIn \<Rightarrow> (c, [])
      | OtherIn t \<Rightarrow> (c, []))"

text \<open>The end of a job: its deferred releases.\<close>

definition end_http :: "api_job \<Rightarrow> api_client \<Rightarrow> api_client" where
  "end_http j c = c\<lparr>ac_workers := ac_workers c - 1, ac_in_flight := ac_in_flight c - 1, ac_jobs := remove1 j (ac_jobs c)\<rparr>"

definition end_probe :: "api_job \<Rightarrow> api_client \<Rightarrow> api_client" where
  "end_probe j c = c\<lparr>ac_workers := ac_workers c - 1, ac_jobs := remove1 j (ac_jobs c)\<rparr>"

text \<open>\<open>handleHTTPRequest\<close>: the check of the flag, and the reply of the handler, if one is set.\<close>

definition suspended_body :: string where
  "suspended_body = ''{\"error\":\"connector has suspended tool dispatch pending a critical security update\"}''"

definition check_critical :: "http_request \<Rightarrow> api_client \<Rightarrow> api_client \<times> api_out list" where
  "check_critical m c =
     (if ac_critical c then (end_http (HttpJob m) c, [response_out m 503 fmempty (Some suspended_body)])
      else (c\<lparr>ac_jobs := HttpRunning m # remove1 (HttpJob m) (ac_jobs c)\<rparr>, []))"

definition http_answer :: "http_request \<Rightarrow> http_reply option \<Rightarrow> api_out" where
  "http_answer m r =
     (case r of
        None \<Rightarrow> response_out m 501 fmempty (Some ''{\"error\":\"no http handler configured\"}'')
      | Some r \<Rightarrow>
          response_out m (if rp_error r \<noteq> None \<and> rp_status r = 0 then 500 else rp_status r) (rp_headers r) (rp_body r))"

definition finish_http :: "http_request \<Rightarrow> http_reply option \<Rightarrow> api_client \<Rightarrow> api_client \<times> api_out list" where
  "finish_http m r c = (end_http (HttpRunning m) c, [http_answer m r])"

text \<open>\<open>SignalStatusPush\<close> on the channel of one place.\<close>

definition signal_status_push :: "api_client \<Rightarrow> api_client" where
  "signal_status_push c = c\<lparr>ac_push_pending := True\<rparr>"

definition finish_probe :: "string \<Rightarrow> test_result \<Rightarrow> string \<Rightarrow> api_client \<Rightarrow> api_client \<times> api_out list" where
  "finish_probe when r key c =
     (end_probe (ProbeJob key) (signal_status_push (update_plugin_status when r c)), [TestResultOut r])"

definition push_status :: "(api_client \<Rightarrow> api_out) \<Rightarrow> api_client \<Rightarrow> api_client \<times> api_out list" where
  "push_status status c = (c\<lparr>ac_push_pending := False\<rparr>, [status c])"

section \<open>Steps\<close>

text \<open>
  What can happen: a handshake, a new connection, a heartbeat, a message, a credential reload that signals, and
  the steps of the jobs and of the goroutine that pushes the status.
\<close>

datatype api_event =
    Handshaken bool | Connected | Heartbeat | Received inbound | Signalled
  | CheckedCritical http_request | Answered http_request "http_reply option"
  | Tested string string test_result | PushTaken

text \<open>None when the event cannot happen in the state.\<close>

fun api_step :: "(api_client \<Rightarrow> api_out) \<Rightarrow> api_event \<Rightarrow> api_client \<Rightarrow> (api_client \<times> api_out list) option" where
  "api_step status (Handshaken critical) c = Some (c\<lparr>ac_critical := critical\<rparr>, [])"
| "api_step status Connected c = Some (c, [status c])"
| "api_step status Heartbeat c = Some (c, [status c])"
| "api_step status (Received msg) c = Some (handle_message status msg c)"
| "api_step status Signalled c = Some (signal_status_push c, [])"
| "api_step status (CheckedCritical m) c =
     (if HttpJob m \<in> set (ac_jobs c) then Some (check_critical m c) else None)"
| "api_step status (Answered m r) c =
     (if HttpRunning m \<in> set (ac_jobs c) then Some (finish_http m r c) else None)"
| "api_step status (Tested key when r) c =
     (if ProbeJob key \<in> set (ac_jobs c) \<and> tr_provider_key r = key then Some (finish_probe when r key c) else None)"
| "api_step status PushTaken c = (if ac_push_pending c then Some (push_status status c) else None)"

text \<open>
  A run. The registry is fixed; the credentials may change between any two steps, so every event comes with
  the map it sees.
\<close>

fun api_run ::
  "registry \<Rightarrow> (api_event \<times> (string, credential) fmap) list \<Rightarrow> api_client \<Rightarrow> (api_client \<times> api_out list) option" where
  "api_run reg [] c = Some (c, [])"
| "api_run reg ((e, creds) # es) c =
     (case api_step (build_connection_status reg creds) e c of
        None \<Rightarrow> None
      | Some (c1, outs) \<Rightarrow> map_option (\<lambda>(c2, more). (c2, outs @ more)) (api_run reg es c1))"

text \<open>\<open>waitForInFlight\<close>: the drain ends once no request is in flight, or when its time is up.\<close>

definition drain_timeout :: duration where
  "drain_timeout = 10 * second"

definition drain_done :: "duration \<Rightarrow> api_client \<Rightarrow> bool" where
  "drain_done waited c \<longleftrightarrow> ac_in_flight c = 0 \<or> drain_timeout \<le> waited"

section \<open>Workers\<close>

fun job_ids :: "api_job \<Rightarrow> (string \<times> string) list" where
  "job_ids (HttpJob m) = [(rq_request_id m, rq_responder_id m)]"
| "job_ids (HttpRunning m) = [(rq_request_id m, rq_responder_id m)]"
| "job_ids (ProbeJob key) = []"

definition running_ids :: "api_client \<Rightarrow> (string \<times> string) multiset" where
  "running_ids c = mset (concat (map job_ids (ac_jobs c)))"

fun received_ids :: "api_event \<Rightarrow> (string \<times> string) list" where
  "received_ids (Received (HttpRequestIn m)) = [(rq_request_id m, rq_responder_id m)]"
| "received_ids _ = []"

fun answered_ids :: "api_out \<Rightarrow> (string \<times> string) list" where
  "answered_ids (HttpResponseOut r) = [(hm_request_id r, hm_responder_id r)]"
| "answered_ids _ = []"

text \<open>Each worker in use is a job, there are at most four, and the requests among them are in flight.\<close>

definition workers_ok :: "api_client \<Rightarrow> bool" where
  "workers_ok c \<longleftrightarrow> ac_workers c = length (ac_jobs c) \<and> ac_workers c \<le> max_workers \<and>
     ac_in_flight c = size (running_ids c)"

lemma workers_new [simp]: "workers_ok new_api_client" "running_ids new_api_client = {#}"
  by (simp_all add: workers_ok_def new_api_client_def running_ids_def)

lemma mset_remove_job:
  "j \<in> set js \<Longrightarrow> mset (concat (map job_ids (remove1 j js))) + mset (job_ids j) = mset (concat (map job_ids js))"
  by (induction js) auto

lemma size_remove_job:
  "j \<in> set js \<Longrightarrow> length (concat (map job_ids (remove1 j js))) + length (job_ids j) = length (concat (map job_ids js))"
  using mset_remove_job [of j js] by (metis size_mset size_union)

lemma status_answers [simp]: "answered_ids (build_connection_status reg creds c) = []"
  by (simp add: build_connection_status_def)

lemma response_answers [simp]: "answered_ids (response_out m code hs body) = [(rq_request_id m, rq_responder_id m)]"
  by (simp add: response_out_def)

lemma http_answer_answers [simp]: "answered_ids (http_answer m r) = [(rq_request_id m, rq_responder_id m)]"
  by (simp add: http_answer_def split: option.split)

lemmas api_step_defs = handle_message_def check_critical_def finish_http_def finish_probe_def push_status_def
  signal_status_push_def update_plugin_status_def end_http_def end_probe_def

lemma api_step_ids:
  assumes "api_step (build_connection_status reg creds) e c = Some (c', outs)"
  shows "mset (received_ids e) + running_ids c = mset (concat (map answered_ids outs)) + running_ids c'"
  using assms
  by (cases e rule: received_ids.cases)
     (auto simp: api_step_defs running_ids_def Let_def split: if_splits inbound.splits
       dest!: mset_remove_job)

lemma api_step_workers:
  assumes "api_step (build_connection_status reg creds) e c = Some (c', outs)" "workers_ok c"
  shows "workers_ok c'"
proof -
  have len: "length (remove1 j (ac_jobs c)) = length (ac_jobs c) - 1" "0 < length (ac_jobs c)" if "j \<in> set (ac_jobs c)" for j
    using that by (auto simp: length_remove1 length_pos_if_in_set)
  show ?thesis
  proof (cases e)
    case (Received msg)
    then show ?thesis using assms
      by (cases msg) (auto simp: api_step_defs workers_ok_def running_ids_def max_workers_def split: if_splits)
  next
    case (CheckedCritical m)
    then have j: "HttpJob m \<in> set (ac_jobs c)" using assms(1) by (auto split: if_splits)
    show ?thesis using assms CheckedCritical len [OF j] size_remove_job [OF j]
      by (auto simp: api_step_defs workers_ok_def running_ids_def split: if_splits)
  next
    case (Answered m r)
    then have j: "HttpRunning m \<in> set (ac_jobs c)" using assms(1) by (auto split: if_splits)
    show ?thesis using assms Answered len [OF j] size_remove_job [OF j]
      by (auto simp: api_step_defs workers_ok_def running_ids_def split: if_splits)
  next
    case (Tested key t r)
    then have j: "ProbeJob key \<in> set (ac_jobs c)" using assms(1) by (auto split: if_splits)
    show ?thesis using assms Tested len [OF j] size_remove_job [OF j]
      by (auto simp: api_step_defs workers_ok_def running_ids_def Let_def split: if_splits)
  qed (use assms in \<open>auto simp: api_step_defs workers_ok_def running_ids_def split: if_splits\<close>)
qed

section \<open>Runs\<close>

lemma api_runE:
  assumes "api_run reg ((e, creds) # es) c = Some (c2, outs)"
  obtains c1 first more where "api_step (build_connection_status reg creds) e c = Some (c1, first)"
    "api_run reg es c1 = Some (c2, more)" "outs = first @ more"
  using assms by (auto split: option.splits)

lemma api_run_ids:
  "api_run reg es c = Some (c', outs) \<Longrightarrow>
   mset (concat (map (received_ids \<circ> fst) es)) + running_ids c = mset (concat (map answered_ids outs)) + running_ids c'"
proof (induction es arbitrary: c outs)
  case (Cons ec es)
  obtain e creds where ec: "ec = (e, creds)" by force
  from Cons.prems[unfolded ec] show ?case
  proof (rule api_runE)
    fix c1 first more
    assume step: "api_step (build_connection_status reg creds) e c = Some (c1, first)"
      and rest: "api_run reg es c1 = Some (c', more)" and outs: "outs = first @ more"
    show ?thesis
    proof (rule multiset_eqI)
      fix x
      from arg_cong [OF api_step_ids [OF step], of "\<lambda>m. count m x"] arg_cong [OF Cons.IH [OF rest], of "\<lambda>m. count m x"]
      show "count (mset (concat (map (received_ids \<circ> fst) (ec # es))) + running_ids c) x =
          count (mset (concat (map answered_ids outs)) + running_ids c') x"
        by (simp add: ec outs comp_def)
    qed
  qed
qed simp

lemma api_run_workers: "api_run reg es c = Some (c', outs) \<Longrightarrow> workers_ok c \<Longrightarrow> workers_ok c'"
proof (induction es arbitrary: c outs)
  case (Cons ec es)
  obtain e creds where ec: "ec = (e, creds)" by force
  from Cons.prems(1)[unfolded ec] show ?case
    by (rule api_runE) (use Cons.IH Cons.prems(2) api_step_workers in blast)
qed simp

text \<open>C29. In every interleaving of messages, workers and status pushes, each request that was received
has been answered exactly once, with its own request and responder identifiers, or is still held by
a worker; at most four workers run and the count of requests in flight, which the drain waits for,
is that of the workers that hold one.\<close>

theorem requests_answered_once:
  assumes "api_run reg es new_api_client = Some (c, outs)"
  shows "mset (concat (map (received_ids \<circ> fst) es)) = mset (concat (map answered_ids outs)) + running_ids c \<and>
    ac_workers c = length (ac_jobs c) \<and> ac_workers c \<le> max_workers \<and> ac_in_flight c = size (running_ids c)"
  using api_run_ids [OF assms] api_run_workers [OF assms workers_new(1)] by (simp add: workers_ok_def)

text \<open>A request, a probe and a second request, with an answer in between.\<close>

definition probe_done :: test_result where
  "probe_done = test_outcome ''ci'' ''connected'' []"

definition req1 :: http_request where
  "req1 = \<lparr>rq_request_id = ''a'', rq_responder_id = ''w'', rq_provider_key = ''ci'', rq_method = [], rq_path = ''/'',
     rq_headers = [], rq_body = None, rq_expires_at = []\<rparr>"

definition example_events :: "(api_event \<times> (string, credential) fmap) list" where
  "example_events = map (\<lambda>e. (e, fmempty))
     [Received (HttpRequestIn req1), CheckedCritical req1, Received (TestConnectionIn ''ci''),
      Tested ''ci'' ''now'' probe_done, Answered req1 None, PushTaken]"

theorem requests_answered_once_witness:
  "case api_run fmempty example_events new_api_client of
     Some (c, outs) \<Rightarrow> mset (concat (map answered_ids outs)) + running_ids c = {#(''a'', ''w'')#}
   | None \<Rightarrow> False"
proof -
  have "api_run fmempty example_events new_api_client \<noteq> None"
    by (simp add: example_events_def api_step_defs new_api_client_def max_workers_def probe_done_def test_outcome_def)
  then obtain c outs where r: "api_run fmempty example_events new_api_client = Some (c, outs)" by auto
  have "mset (concat (map (received_ids \<circ> fst) example_events)) = {#(''a'', ''w'')#}"
    by (simp add: example_events_def req1_def)
  with requests_answered_once [OF r] show ?thesis by (simp add: r)
qed

section \<open>What is reported\<close>

lemma plugin_keys_exact:
  "distinct (plugin_keys reg creds) \<and> set (plugin_keys reg creds) = fmdom' reg \<union> fmdom' creds"
  by (auto simp: plugin_keys_def)

text \<open>The cache names each entry's plugin, and only by what a test found.\<close>

definition cache_ok :: "api_client \<Rightarrow> bool" where
  "cache_ok c \<longleftrightarrow> fmpred (\<lambda>k s. pl_provider_key s = k \<and>
     pl_status s \<in> set [''configured_connected'', ''configured_error'', ''not_configured'']) (ac_status_cache c)"

lemma api_step_cache:
  assumes "api_step status e c = Some (c', outs)" "cache_ok c"
  shows "cache_ok c'"
  using assms
  by (cases e) (auto simp: api_step_defs cache_ok_def Let_def fmpred_upd split: if_splits inbound.splits)

text \<open>A diagnostic names the class of a failure and no address.\<close>

definition fixed_diagnostics :: "string list" where
  "fixed_diagnostics = [[], ''not configured'', ''invalid base URL'', ''CA bundle could not be loaded'', ''connection timed out'',
     ''DNS resolution failed'', ''TLS certificate verification failed'', ''connection failed'']"

definition address_free :: "probe_step list \<Rightarrow> string \<Rightarrow> bool" where
  "address_free es d \<longleftrightarrow> d \<in> set fixed_diagnostics \<or> (\<exists>code. d = ''HTTP '' @ itoa code) \<or>
     (\<exists>pq err l. PDo pq (Inl err) \<in> set es \<and> l \<in> set err \<and> el_syscall l = Some d)"

lemma safe_diagnostic_cases:
  "safe_diagnostic err \<in> set fixed_diagnostics \<or> (\<exists>l\<in>set err. el_syscall l = Some (safe_diagnostic err))"
proof (cases "filter (\<lambda>l. el_syscall l \<noteq> None) err")
  case (Cons l ls)
  then have "l \<in> set (filter (\<lambda>l. el_syscall l \<noteq> None) err)" by simp
  then have "l \<in> set err" "el_syscall l \<noteq> None" by simp_all
  with Cons show ?thesis by (auto simp: safe_diagnostic_def fixed_diagnostics_def)
qed (simp add: safe_diagnostic_def fixed_diagnostics_def)

lemmas probe_intros = emits_bind emits_effect emits_return emits_sum emits_if emits_option emits_let

text \<open>In every world, the diagnostic that a connectivity test reports to the platform is one of the fixed
texts, an HTTP status, or the bare error number text of a system call that failed: never the text of
a network error, which would carry the address.\<close>

theorem probe_diagnostic_safe:
  "emits (probe_plugin H W reg store ca key) (\<lambda>r es. tr_provider_key r = key \<and> address_free es (tr_diagnostic r))"
proof -
  have fixed: "address_free es d" if "d \<in> set fixed_diagnostics" for es d
    using that by (simp add: address_free_def)
  have parse: "safe_diagnostic parse_error \<in> set fixed_diagnostics"
    by (simp add: safe_diagnostic_def parse_error_def os_is_timeout_def fixed_diagnostics_def)
  have failed: "address_free es (safe_diagnostic err)" if "PDo pq (Inl err) \<in> set es" for es pq err
    using safe_diagnostic_cases [of err] that unfolding address_free_def by blast
  have status: "tr_provider_key (status_outcome key code) = key \<and> address_free es (tr_diagnostic (status_outcome key code))" for es code
    by (auto simp: status_outcome_def test_outcome_def address_free_def fixed_diagnostics_def)
  have probed: "emits (do_probe W key pq) (\<lambda>r es. tr_provider_key r = key \<and> address_free (pre @ es) (tr_diagnostic r))" for pq pre
    unfolding do_probe_def
    by (intro probe_intros) (auto simp: status test_outcome_def intro!: failed)
  have probed0: "emits (do_probe W key pq) (\<lambda>r es. tr_provider_key r = key \<and> address_free es (tr_diagnostic r))"
    and probed1: "emits (do_probe W key pq) (\<lambda>r es. tr_provider_key r = key \<and> address_free (x # es) (tr_diagnostic r))" for pq x
    using probed [of pq "[]"] probed [of pq "[x]"] by simp_all
  show ?thesis
    unfolding probe_plugin_def Let_def
    by (intro probe_intros) (auto intro!: fixed parse probed0 probed1 simp: test_outcome_def fixed_diagnostics_def)
qed

end
