(* ===== verification/Gateway.thy ===== *)
theory Gateway
  imports KeyStore Prelude
begin

text \<open>
  The connection to the Bridge Gateway (\<open>gateway/gateway.go\<close>): enrolment or reconnection, the handshake, the
  read loop and the heartbeat, and the reconnection with back-off. The connection, the handler of the
  connector kind and the clock are the world. The heartbeat of a connection is a goroutine of its own, started before the
  read loop: a program of its own, of whose single steps any number can come between two steps of the other; for each of
  the two, what the other does meanwhile is part of what its own calls find. JSON is a parameter.
\<close>

section \<open>Messages\<close>

record gateway_config =
  gc_url :: string
  gc_connector_id :: string
  gc_protocol_version :: string
  gc_registration_token :: string
  gc_read_limit :: int

record hello_msg =
  he_connector_id :: string
  he_protocol_version :: string
  he_connector_version :: string
  he_registration_token :: string
  he_signature :: string

record handshake_ok =
  ok_deprecation :: string
  ok_critical :: bool
  ok_private_key :: string

text \<open>The decoders of a frame: its type, the 32 bytes of a challenge, the two answers to a hello.\<close>

record gateway_json =
  gj_type :: "string \<Rightarrow> string option"
  gj_challenge :: "string \<Rightarrow> string option"
  gj_ok :: "string \<Rightarrow> handshake_ok option"
  gj_error :: "string \<Rightarrow> (int \<times> string) option"

datatype gateway_msg = Hello hello_msg | Health

section \<open>The world\<close>

text \<open>
  The key store, the dial, frames, the handler's callbacks (\<open>on_beat\<close> may fail), the ping, the closing of the
  connection, whether the process is being shut down, and a wait, which is cut short by that; and for the heartbeat its
  start, the cancellation of the connection's context, and the \<open>select\<close> of the ticker (True) and that context (False).
\<close>

record ('w, 'k) gateway_world =
  gw_load :: "'w \<Rightarrow> (key_fault + 'k option) \<times> 'w"
  gw_ensure :: "'w \<Rightarrow> bool \<times> 'w"
  gw_save :: "'k \<Rightarrow> 'w \<Rightarrow> bool \<times> 'w"
  gw_dial :: "string \<Rightarrow> 'w \<Rightarrow> bool \<times> 'w"
  gw_read :: "'w \<Rightarrow> string option \<times> 'w"
  gw_write :: "gateway_msg \<Rightarrow> 'w \<Rightarrow> bool \<times> 'w"
  gw_ping :: "'w \<Rightarrow> bool \<times> 'w"
  gw_close :: "'w \<Rightarrow> unit \<times> 'w"
  gw_done :: "'w \<Rightarrow> bool \<times> 'w"
  gw_wait :: "duration \<Rightarrow> 'w \<Rightarrow> bool \<times> 'w"
  gw_jitter :: "'w \<Rightarrow> duration \<times> 'w"
  gw_spawn :: "'w \<Rightarrow> unit \<times> 'w"
  gw_cancel :: "'w \<Rightarrow> unit \<times> 'w"
  gw_tick :: "'w \<Rightarrow> bool \<times> 'w"
  on_handshake :: "bool \<Rightarrow> 'w \<Rightarrow> unit \<times> 'w"
  on_connected :: "'w \<Rightarrow> unit \<times> 'w"
  on_message :: "string \<Rightarrow> string \<Rightarrow> 'w \<Rightarrow> unit \<times> 'w"
  on_beat :: "'w \<Rightarrow> bool \<times> 'w"
  on_draining :: "'w \<Rightarrow> unit \<times> 'w"

datatype 'k gw_step =
    GLoad "key_fault + 'k option" | GEnsure bool | GSave 'k bool | GDial string bool
  | GRead "string option" | GWrite gateway_msg bool | GPing bool | GClose | GDone bool
  | GWait duration bool | GJitter duration | GSpawn | GCancel | GTick bool
  | GHandshake bool | GConnected | GMessage string string | GBeat bool | GDraining

text \<open>The key store of theory KeyStore as that part of the world.\<close>

definition run_in :: "(('w, 's) sys, 'a) state \<Rightarrow> 'w \<Rightarrow> 'a \<times> 'w" where
  "run_in m w = (case run_state m \<lparr>ext = w, trace = []\<rparr> of (a, s) \<Rightarrow> (a, ext s))"

definition with_key_store ::
  "'k mldsa \<Rightarrow> 'w key_world \<Rightarrow> string \<Rightarrow> ('w, 'k) gateway_world \<Rightarrow> ('w, 'k) gateway_world" where
  "with_key_store L K path W =
     W\<lparr>gw_load := run_in (key_load L K path),
       gw_ensure := (\<lambda>w. case run_in (ensure_writable L (kw_disk K) path) w of (e, w1) \<Rightarrow> (e = None, w1)),
       gw_save := (\<lambda>k w. case run_in (key_save L (kw_disk K) path k) w of (e, w1) \<Rightarrow> (e = None, w1))\<rparr>"

section \<open>The handshake\<close>

datatype handshake_fault =
    HelloNotSent | AnswerUnread | TypeUnreadable | OkUnreadable | BadPrivateKey | KeyNotSaved
  | ErrorUnreadable | GatewayRejected int string | UnexpectedType string

datatype connect_fault =
    KeyNotLoaded key_fault | NoKeyNoToken | KeyNotStorable | DialFailed | NoChallenge
  | RegistrationFailed handshake_fault | ReconnectFailed handshake_fault | ReadFailedFault

definition read_challenge ::
  "gateway_json \<Rightarrow> ('w, 'k) gateway_world \<Rightarrow> (('w, 'k gw_step) sys, string option) state" where
  "read_challenge J W = do {
     f \<leftarrow> effect (gw_read W) GRead;
     ret (case f of
        None \<Rightarrow> None
      | Some raw \<Rightarrow> if gj_type J raw = Some ''challenge'' then gj_challenge J raw else None)
   }"

text \<open>What an accepted hello leads to; the key is stored after the handler heard of the handshake.\<close>

definition handshake_accepted ::
  "'k mldsa \<Rightarrow> ('w, 'k) gateway_world \<Rightarrow> bool \<Rightarrow> handshake_ok \<Rightarrow> (('w, 'k gw_step) sys, handshake_fault option) state" where
  "handshake_accepted L W save_private_key msg = do {
     _ \<leftarrow> effect (on_handshake W (ok_critical msg)) (\<lambda>_. GHandshake (ok_critical msg));
     (if save_private_key
      then (case unmarshal_private_key L (ok_private_key msg) of
              None \<Rightarrow> ret (Some BadPrivateKey)
            | Some priv \<Rightarrow> do {
                saved \<leftarrow> effect (gw_save W priv) (GSave priv);
                ret (if saved then None else Some KeyNotSaved)
              })
      else ret None)
   }"

definition read_handshake_result ::
  "'k mldsa \<Rightarrow> gateway_json \<Rightarrow> ('w, 'k) gateway_world \<Rightarrow> bool \<Rightarrow> (('w, 'k gw_step) sys, handshake_fault option) state" where
  "read_handshake_result L J W save_private_key = do {
     f \<leftarrow> effect (gw_read W) GRead;
     (case f of
        None \<Rightarrow> ret (Some AnswerUnread)
      | Some raw \<Rightarrow>
          (case gj_type J raw of
             None \<Rightarrow> ret (Some TypeUnreadable)
           | Some typ \<Rightarrow>
               (if typ = ''handshake_ok''
                then (case gj_ok J raw of
                        None \<Rightarrow> ret (Some OkUnreadable)
                      | Some msg \<Rightarrow> handshake_accepted L W save_private_key msg)
                else if typ = ''handshake_error''
                then ret (Some (case gj_error J raw of
                                  None \<Rightarrow> ErrorUnreadable
                                | Some (code, reason) \<Rightarrow> GatewayRejected code reason))
                else ret (Some (UnexpectedType typ)))))
   }"

definition register_hello :: "gateway_config \<Rightarrow> string \<Rightarrow> hello_msg" where
  "register_hello cfg version =
     \<lparr>he_connector_id = gc_connector_id cfg, he_protocol_version = gc_protocol_version cfg,
       he_connector_version = version, he_registration_token = gc_registration_token cfg, he_signature = []\<rparr>"

definition reconnect_hello :: "'k mldsa \<Rightarrow> gateway_config \<Rightarrow> string \<Rightarrow> 'k \<Rightarrow> string \<Rightarrow> hello_msg" where
  "reconnect_hello L cfg version priv challenge =
     \<lparr>he_connector_id = gc_connector_id cfg, he_protocol_version = gc_protocol_version cfg,
       he_connector_version = version, he_registration_token = [],
       he_signature = sign_challenge L priv challenge (gc_connector_id cfg)\<rparr>"

definition send_hello ::
  "'k mldsa \<Rightarrow> gateway_json \<Rightarrow> ('w, 'k) gateway_world \<Rightarrow> hello_msg \<Rightarrow> bool \<Rightarrow>
   (('w, 'k gw_step) sys, handshake_fault option) state" where
  "send_hello L J W h save_private_key = do {
     sent \<leftarrow> effect (gw_write W (Hello h)) (GWrite (Hello h));
     (if \<not> sent then ret (Some HelloNotSent) else read_handshake_result L J W save_private_key)
   }"

definition shake_hands ::
  "'k mldsa \<Rightarrow> gateway_json \<Rightarrow> ('w, 'k) gateway_world \<Rightarrow> gateway_config \<Rightarrow> string \<Rightarrow> 'k option \<Rightarrow>
   (('w, 'k gw_step) sys, connect_fault option) state" where
  "shake_hands L J W cfg version key = do {
     c \<leftarrow> read_challenge J W;
     (case c of
        None \<Rightarrow> ret (Some NoChallenge)
      | Some challenge \<Rightarrow>
          (case key of
             None \<Rightarrow> do {
               r \<leftarrow> send_hello L J W (register_hello cfg version) True;
               ret (map_option RegistrationFailed r)
             }
           | Some priv \<Rightarrow> do {
               r \<leftarrow> send_hello L J W (reconnect_hello L cfg version priv challenge) False;
               ret (map_option ReconnectFailed r)
             }))
   }"

section \<open>The read loop and the heartbeat\<close>

text \<open>The loop runs, or has ended with an error or without.\<close>

datatype loop_state = Looping | LoopEnded "connect_fault option"

definition loop_step ::
  "gateway_json \<Rightarrow> ('w, 'k) gateway_world \<Rightarrow> (('w, 'k gw_step) sys, loop_state) state" where
  "loop_step J W = do {
     f \<leftarrow> effect (gw_read W) GRead;
     (case f of
        None \<Rightarrow> do {
          gone \<leftarrow> effect (gw_done W) GDone;
          ret (LoopEnded (if gone then None else Some ReadFailedFault))
        }
      | Some raw \<Rightarrow>
          (case gj_type J raw of
             None \<Rightarrow> ret Looping
           | Some typ \<Rightarrow>
               (if typ = ''going_away''
                then do {
                  _ \<leftarrow> effect (on_draining W) (\<lambda>_. GDraining);
                  ret (LoopEnded None)
                }
                else do {
                  _ \<leftarrow> effect (on_message W typ raw) (\<lambda>_. GMessage typ raw);
                  ret Looping
                })))
   }"

text \<open>One tick; False when the heartbeat closed the connection and returned.\<close>

definition beat_close :: "('w, 'k) gateway_world \<Rightarrow> (('w, 'k gw_step) sys, bool) state" where
  "beat_close W = do {
     _ \<leftarrow> effect (gw_close W) (\<lambda>_. GClose);
     ret False
   }"

definition heartbeat_tick :: "('w, 'k) gateway_world \<Rightarrow> (('w, 'k gw_step) sys, bool) state" where
  "heartbeat_tick W = do {
     pinged \<leftarrow> effect (gw_ping W) GPing;
     (if \<not> pinged then beat_close W
      else do {
        health \<leftarrow> effect (gw_write W Health) (GWrite Health);
        (if \<not> health then beat_close W
         else do {
           beat \<leftarrow> effect (on_beat W) GBeat;
           (if \<not> beat then beat_close W else ret True)
         })
      })
   }"

text \<open>The goroutine of the heartbeat, for at most \<open>n\<close> ticks; False once it has returned.\<close>

fun heartbeat :: "('w, 'k) gateway_world \<Rightarrow> nat \<Rightarrow> (('w, 'k gw_step) sys, bool) state" where
  "heartbeat W 0 = ret True"
| "heartbeat W (Suc n) = do {
     tick \<leftarrow> effect (gw_tick W) GTick;
     (if \<not> tick then ret False
      else do {
        b \<leftarrow> heartbeat_tick W;
        (if b then heartbeat W n else ret False)
      })
   }"

text \<open>\<open>runLoop\<close>, for at most \<open>n\<close> frames; then the connection is still being served.\<close>

fun serve ::
  "gateway_json \<Rightarrow> ('w, 'k) gateway_world \<Rightarrow> nat \<Rightarrow> (('w, 'k gw_step) sys, loop_state) state" where
  "serve J W 0 = ret Looping"
| "serve J W (Suc n) = do {
     l \<leftarrow> loop_step J W;
     (case l of Looping \<Rightarrow> serve J W n | LoopEnded r \<Rightarrow> ret (LoopEnded r))
   }"

section \<open>Connecting\<close>

definition trim_url :: "string \<Rightarrow> string" where
  "trim_url u = rev (dropWhile (\<lambda>c. c = CHR ''/'') (rev u))"

text \<open>The deferred close of the connection, before \<open>Connect\<close> returns.\<close>

definition close_with :: "('w, 'k) gateway_world \<Rightarrow> 'a \<Rightarrow> (('w, 'k gw_step) sys, 'a) state" where
  "close_with W r = do {
     _ \<leftarrow> effect (gw_close W) (\<lambda>_. GClose);
     ret r
   }"

text \<open>The connection once the handshake is done; at its end the context of the heartbeat is cancelled first.\<close>

definition serve_connection ::
  "gateway_json \<Rightarrow> ('w, 'k) gateway_world \<Rightarrow> nat \<Rightarrow> (('w, 'k gw_step) sys, loop_state) state" where
  "serve_connection J W n = do {
     _ \<leftarrow> effect (on_connected W) (\<lambda>_. GConnected);
     _ \<leftarrow> effect (gw_spawn W) (\<lambda>_. GSpawn);
     l \<leftarrow> serve J W n;
     (case l of
        Looping \<Rightarrow> ret Looping
      | LoopEnded r \<Rightarrow> do { _ \<leftarrow> effect (gw_cancel W) (\<lambda>_. GCancel); close_with W (LoopEnded r) })
   }"

definition dial_and_serve ::
  "'k mldsa \<Rightarrow> gateway_json \<Rightarrow> ('w, 'k) gateway_world \<Rightarrow> gateway_config \<Rightarrow> string \<Rightarrow> 'k option \<Rightarrow> nat \<Rightarrow>
   (('w, 'k gw_step) sys, loop_state) state" where
  "dial_and_serve L J W cfg version key n = do {
     ok \<leftarrow> effect (gw_dial W (trim_url (gc_url cfg))) (GDial (trim_url (gc_url cfg)));
     (if \<not> ok then ret (LoopEnded (Some DialFailed))
      else do {
        e \<leftarrow> shake_hands L J W cfg version key;
        (case e of
           Some f \<Rightarrow> close_with W (LoopEnded (Some f))
         | None \<Rightarrow> serve_connection J W n)
      })
   }"

definition connect ::
  "'k mldsa \<Rightarrow> gateway_json \<Rightarrow> ('w, 'k) gateway_world \<Rightarrow> gateway_config \<Rightarrow> string \<Rightarrow> nat \<Rightarrow>
   (('w, 'k gw_step) sys, loop_state) state" where
  "connect L J W cfg version n = do {
     k \<leftarrow> effect (gw_load W) GLoad;
     (case k of
        Inl e \<Rightarrow> ret (LoopEnded (Some (KeyNotLoaded e)))
      | Inr (Some priv) \<Rightarrow> dial_and_serve L J W cfg version (Some priv) n
      | Inr None \<Rightarrow>
          (if gc_registration_token cfg = [] then ret (LoopEnded (Some NoKeyNoToken))
           else do {
             w \<leftarrow> effect (gw_ensure W) GEnsure;
             (if \<not> w then ret (LoopEnded (Some KeyNotStorable)) else dial_and_serve L J W cfg version None n)
           }))
   }"

section \<open>Running\<close>

definition default_read_limit :: int where
  "default_read_limit = 67108864"

definition read_limit :: "gateway_config \<Rightarrow> int" where
  "read_limit cfg = (if gc_read_limit cfg > 0 then gc_read_limit cfg else default_read_limit)"

definition first_backoff :: duration where
  "first_backoff = second"

definition max_backoff :: duration where
  "max_backoff = 60 * second"

definition next_backoff :: "duration \<Rightarrow> duration" where
  "next_backoff b = (let d = b * 2 in if d > max_backoff then max_backoff else d)"

text \<open>\<open>reconnectPause\<close>: half a second and a random part below one and a half.\<close>

definition reconnect_pause :: "duration \<Rightarrow> duration" where
  "reconnect_pause jitter = 500000000 + jitter"

text \<open>
  \<open>Run\<close>, with how many frames of each connection are read; it returns when the process shuts down, and is still
  running when the numbers are used up or a connection is still being served.
\<close>

fun gateway_run ::
  "'k mldsa \<Rightarrow> gateway_json \<Rightarrow> ('w, 'k) gateway_world \<Rightarrow> gateway_config \<Rightarrow> string \<Rightarrow> nat list \<Rightarrow> duration \<Rightarrow>
   (('w, 'k gw_step) sys, unit) state" where
  "gateway_run L J W cfg version [] backoff = ret ()"
| "gateway_run L J W cfg version (n # ns) backoff = do {
     l \<leftarrow> connect L J W cfg version n;
     (case l of
        Looping \<Rightarrow> ret ()
      | LoopEnded (Some err) \<Rightarrow> do {
          gone \<leftarrow> effect (gw_done W) GDone;
          (if gone then ret ()
           else do {
             waited \<leftarrow> effect (gw_wait W backoff) (GWait backoff);
             (if \<not> waited then ret () else gateway_run L J W cfg version ns (next_backoff backoff))
           })
        }
      | LoopEnded None \<Rightarrow> do {
          gone \<leftarrow> effect (gw_done W) GDone;
          (if gone then ret ()
           else do {
             j \<leftarrow> effect (gw_jitter W) GJitter;
             waited \<leftarrow> effect (gw_wait W (reconnect_pause j)) (GWait (reconnect_pause j));
             (if \<not> waited then ret () else gateway_run L J W cfg version ns first_backoff)
           })
        })
   }"

end
