(* ===== verification/GatewayProtocol.thy ===== *)
theory GatewayProtocol
  imports Gateway
begin

text \<open>
  What a connector may do on its gateway connection, as one automaton over the log of its main goroutine and one over that
  of a heartbeat, and the proof that they do nothing else, whatever the gateway sends, the handler answers and the other
  goroutine does meanwhile.
\<close>

section \<open>The protocol\<close>

text \<open>
  The phases of a connection, and between connections: \<open>Ready\<close> and the phases up to \<open>Hailed\<close> know the saved key
  of a reconnection, None on a registration. What is sent, dialled, stored and waited for is written out.
\<close>

datatype 'k phase =
    Begin | Tokened | Ready "'k option" | Opened "'k option" | Challenged "'k option" string | Hailed "'k option"
  | Agreed "'k option" handshake_ok | Storing 'k | Shaken
  | Spawning | Serving | Unread | Drained | Got string string | Ending bool
  | Leaving bool | Over bool | Deciding bool | Pausing duration | Stopped

definition expected_hello ::
  "'k mldsa \<Rightarrow> gateway_config \<Rightarrow> string \<Rightarrow> 'k option \<Rightarrow> string \<Rightarrow> hello_msg" where
  "expected_hello L cfg version key challenge =
     \<lparr>he_connector_id = gc_connector_id cfg, he_protocol_version = gc_protocol_version cfg,
      he_connector_version = version,
      he_registration_token = (case key of None \<Rightarrow> gc_registration_token cfg | Some k \<Rightarrow> []),
      he_signature = (case key of None \<Rightarrow> [] | Some k \<Rightarrow> sign_to L k (challenge @ gc_connector_id cfg))\<rparr>"

text \<open>The URL of the settings without the slashes at its end.\<close>

definition dialled_url :: "gateway_config \<Rightarrow> string \<Rightarrow> bool" where
  "dialled_url cfg url \<longleftrightarrow>
     prefix url (gc_url cfg) \<and> list_all (\<lambda>c. c = CHR ''/'') (drop (length url) (gc_url cfg)) \<and> \<not> suffix ''/'' url"

definition opening_frame :: "gateway_json \<Rightarrow> 'k option \<Rightarrow> string option \<Rightarrow> 'k phase" where
  "opening_frame J key f =
     (case f of
        None \<Rightarrow> Leaving False
      | Some raw \<Rightarrow>
          if gj_type J raw = Some ''challenge''
          then (case gj_challenge J raw of None \<Rightarrow> Leaving False | Some c \<Rightarrow> Challenged key c)
          else Leaving False)"

definition answer_frame :: "gateway_json \<Rightarrow> 'k option \<Rightarrow> string option \<Rightarrow> 'k phase" where
  "answer_frame J key f =
     (case f of
        None \<Rightarrow> Leaving False
      | Some raw \<Rightarrow>
          if gj_type J raw = Some ''handshake_ok''
          then (case gj_ok J raw of None \<Rightarrow> Leaving False | Some m \<Rightarrow> Agreed key m)
          else Leaving False)"

definition served_frame :: "gateway_json \<Rightarrow> string option \<Rightarrow> 'k phase" where
  "served_frame J f =
     (case f of
        None \<Rightarrow> Unread
      | Some raw \<Rightarrow>
          (case gj_type J raw of
             None \<Rightarrow> Serving
           | Some typ \<Rightarrow> if typ = ''going_away'' then Drained else Got typ raw))"

definition after_agreement :: "'k mldsa \<Rightarrow> 'k option \<Rightarrow> handshake_ok \<Rightarrow> 'k phase" where
  "after_agreement L key m =
     (case key of
        Some k \<Rightarrow> Shaken
      | None \<Rightarrow>
          if length (ok_private_key m) = key_size L then Storing (unpack_key L (ok_private_key m)) else Leaving False)"

text \<open>The next phase, with the back-off \<open>b\<close> in force; None for a step that is not allowed.\<close>

definition loaded_phase :: "gateway_config \<Rightarrow> key_fault + 'k option \<Rightarrow> 'k phase" where
  "loaded_phase cfg r =
     (case r of
        Inl e \<Rightarrow> Over False
      | Inr (Some k) \<Rightarrow> Ready (Some k)
      | Inr None \<Rightarrow> if gc_registration_token cfg = [] then Over False else Tokened)"

fun enrolling ::
  "'k mldsa \<Rightarrow> gateway_json \<Rightarrow> gateway_config \<Rightarrow> string \<Rightarrow> 'k gw_step \<Rightarrow> 'k phase \<Rightarrow> 'k phase option" where
  "enrolling L J cfg v x Begin = (case x of GLoad r \<Rightarrow> Some (loaded_phase cfg r) | _ \<Rightarrow> None)"
| "enrolling L J cfg v x Tokened = (case x of GEnsure w \<Rightarrow> Some (if w then Ready None else Over False) | _ \<Rightarrow> None)"
| "enrolling L J cfg v x (Ready key) =
     (case x of
        GDial url ok \<Rightarrow> if dialled_url cfg url then Some (if ok then Opened key else Over False) else None
      | _ \<Rightarrow> None)"
| "enrolling L J cfg v x (Opened key) = (case x of GRead f \<Rightarrow> Some (opening_frame J key f) | _ \<Rightarrow> None)"
| "enrolling L J cfg v x (Challenged key c) =
     (case x of
        GWrite m sent \<Rightarrow>
          if m = Hello (expected_hello L cfg v key c) then Some (if sent then Hailed key else Leaving False) else None
      | _ \<Rightarrow> None)"
| "enrolling L J cfg v x (Hailed key) = (case x of GRead f \<Rightarrow> Some (answer_frame J key f) | _ \<Rightarrow> None)"
| "enrolling L J cfg v x (Agreed key m) =
     (case x of GHandshake critical \<Rightarrow> if critical = ok_critical m then Some (after_agreement L key m) else None | _ \<Rightarrow> None)"
| "enrolling L J cfg v x (Storing priv) =
     (case x of GSave k saved \<Rightarrow> if k = priv then Some (if saved then Shaken else Leaving False) else None | _ \<Rightarrow> None)"
| "enrolling L J cfg v x Shaken = (case x of GConnected \<Rightarrow> Some Spawning | _ \<Rightarrow> None)"
| "enrolling L J cfg v x _ = None"

fun connected :: "gateway_json \<Rightarrow> 'k gw_step \<Rightarrow> 'k phase \<Rightarrow> 'k phase option" where
  "connected J x Spawning = (case x of GSpawn \<Rightarrow> Some Serving | _ \<Rightarrow> None)"
| "connected J x Serving = (case x of GRead f \<Rightarrow> Some (served_frame J f) | _ \<Rightarrow> None)"
| "connected J x Unread = (case x of GDone gone \<Rightarrow> Some (Ending gone) | _ \<Rightarrow> None)"
| "connected J x Drained = (case x of GDraining \<Rightarrow> Some (Ending True) | _ \<Rightarrow> None)"
| "connected J x (Got typ raw) =
     (case x of GMessage t r \<Rightarrow> if t = typ \<and> r = raw then Some Serving else None | _ \<Rightarrow> None)"
| "connected J x (Ending clean) = (case x of GCancel \<Rightarrow> Some (Leaving clean) | _ \<Rightarrow> None)"
| "connected J x (Leaving clean) = (case x of GClose \<Rightarrow> Some (Over clean) | _ \<Rightarrow> None)"
| "connected J x _ = None"

fun waiting :: "'k gw_step \<Rightarrow> duration \<Rightarrow> 'k phase \<Rightarrow> ('k phase \<times> duration) option" where
  "waiting x b (Over clean) = (case x of GDone gone \<Rightarrow> Some (if gone then Stopped else Deciding clean, b) | _ \<Rightarrow> None)"
| "waiting x b (Deciding clean) =
     (case x of
        GJitter j \<Rightarrow> if clean then Some (Pausing (500000000 + j), b) else None
      | GWait d ok \<Rightarrow> if \<not> clean \<and> d = b then Some (if ok then Begin else Stopped, min (2 * b) minute) else None
      | _ \<Rightarrow> None)"
| "waiting x b (Pausing p) =
     (case x of GWait d ok \<Rightarrow> if d = p then Some (if ok then Begin else Stopped, second) else None | _ \<Rightarrow> None)"
| "waiting x b _ = None"

definition follow ::
  "'k mldsa \<Rightarrow> gateway_json \<Rightarrow> gateway_config \<Rightarrow> string \<Rightarrow> 'k phase \<times> duration \<Rightarrow> 'k gw_step \<Rightarrow> ('k phase \<times> duration) option" where
  "follow L J cfg v s x =
     (case enrolling L J cfg v x (fst s) of
        Some p \<Rightarrow> Some (p, snd s)
      | None \<Rightarrow>
          (case connected J x (fst s) of
             Some p \<Rightarrow> Some (p, snd s)
           | None \<Rightarrow> waiting x (snd s) (fst s)))"

fun conforms ::
  "'k mldsa \<Rightarrow> gateway_json \<Rightarrow> gateway_config \<Rightarrow> string \<Rightarrow> 'k phase \<times> duration \<Rightarrow> 'k gw_step list \<Rightarrow> ('k phase \<times> duration) option" where
  "conforms L J cfg v s [] = Some s"
| "conforms L J cfg v s (x # xs) =
     (case follow L J cfg v s x of None \<Rightarrow> None | Some s1 \<Rightarrow> conforms L J cfg v s1 xs)"

lemma conforms_append:
  "conforms L J cfg v s (xs @ ys) =
     (case conforms L J cfg v s xs of None \<Rightarrow> None | Some s1 \<Rightarrow> conforms L J cfg v s1 ys)"
  by (induction xs arbitrary: s) (auto split: option.splits)

section \<open>The connector keeps to it\<close>

lemmas gateway_intros = emits_bind emits_effect emits_return emits_sum emits_if emits_option emits_let

definition reaches ::
  "'k mldsa \<Rightarrow> gateway_json \<Rightarrow> gateway_config \<Rightarrow> string \<Rightarrow> 'k phase \<times> duration \<Rightarrow> 'k gw_step list \<Rightarrow>
   ('k phase \<times> duration \<Rightarrow> bool) \<Rightarrow> bool" where
  "reaches L J cfg v s es P \<longleftrightarrow> (case conforms L J cfg v s es of None \<Rightarrow> False | Some s1 \<Rightarrow> P s1)"

lemma reaches_Nil [simp]: "reaches L J cfg v s [] P = P s"
  by (simp add: reaches_def)

lemma reaches_Cons [simp]:
  "reaches L J cfg v s (x # xs) P = (case follow L J cfg v s x of None \<Rightarrow> False | Some s1 \<Rightarrow> reaches L J cfg v s1 xs P)"
  by (simp add: reaches_def split: option.split)

lemma reaches_append: "reaches L J cfg v s (xs @ ys) P = reaches L J cfg v s xs (\<lambda>s1. reaches L J cfg v s1 ys P)"
  by (induction xs arbitrary: s) (auto split: option.splits)

lemma reaches_mono: "reaches L J cfg v s xs P \<Longrightarrow> (\<And>s1. P s1 \<Longrightarrow> Q s1) \<Longrightarrow> reaches L J cfg v s xs Q"
  by (auto simp: reaches_def split: option.splits)

lemma reaches_then:
  "reaches L J cfg v s xs P \<Longrightarrow> (\<And>s1. P s1 \<Longrightarrow> reaches L J cfg v s1 ys Q) \<Longrightarrow> reaches L J cfg v s (xs @ ys) Q"
  by (auto simp: reaches_append intro: reaches_mono)

lemma emits_reaches:
  assumes "emits m (\<lambda>a es. reaches L J cfg v s es (P a))"
    and "\<And>a s1. P a s1 \<Longrightarrow> emits (k a) (\<lambda>c fs. reaches L J cfg v s1 fs (Q c))"
    and one: "\<And>a s1 s2. P a s1 \<Longrightarrow> P a s2 \<Longrightarrow> s1 = s2"
  shows "emits (m >>= k) (\<lambda>c es. reaches L J cfg v s es (Q c))"
proof (rule emits_then [OF assms(1)])
  fix a es
  assume r: "reaches L J cfg v s es (P a)"
  then obtain s1 where s1: "P a s1" by (auto simp: reaches_def split: option.splits)
  show "emits (k a) (\<lambda>c fs. reaches L J cfg v s (es @ fs) (Q c))"
    by (rule emits_weaken [OF assms(2) [OF s1]], rule reaches_then [OF r]) (use one s1 in blast)
qed

text \<open>Where a connection stands when its steps were taken: still served, or ended, at the phase for its result.\<close>

definition ended_at :: "(bool \<Rightarrow> 'k phase) \<Rightarrow> duration \<Rightarrow> loop_state \<Rightarrow> 'k phase \<times> duration \<Rightarrow> bool" where
  "ended_at F b l s \<longleftrightarrow>
     (case l of Looping \<Rightarrow> s = (Serving, b) | LoopEnded r \<Rightarrow> s = (F (r = None), b))"

lemma ended_at_simps [simp]:
  "ended_at F b Looping s \<longleftrightarrow> s = (Serving, b)"
  "ended_at F b (LoopEnded r) s \<longleftrightarrow> s = (F (r = None), b)"
  by (simp_all add: ended_at_def)

lemma loop_reaches:
  "emits (loop_step J W) (\<lambda>l es. reaches L J cfg v (Serving, b) es (ended_at Ending b l))"
  unfolding loop_step_def by (intro gateway_intros) (simp_all add: follow_def served_frame_def)

lemma ended_at_one: "ended_at F b l s1 \<Longrightarrow> ended_at F b l s2 \<Longrightarrow> s1 = s2"
  by (cases l) simp_all

lemma serve_reaches:
  "emits (serve J W n) (\<lambda>l es. reaches L J cfg v (Serving, b) es (ended_at Ending b l))"
proof (induction J W n rule: serve.induct)
  case (2 J W n)
  show ?case unfolding serve.simps
  proof (rule emits_reaches [OF loop_reaches])
    fix l and s1 :: "'b phase \<times> duration"
    assume at: "ended_at Ending b l s1"
    show "emits (case l of Looping \<Rightarrow> serve J W n | LoopEnded r \<Rightarrow> ret (LoopEnded r))
        (\<lambda>c fs. reaches L J cfg v s1 fs (ended_at Ending b c))"
      using at 2 by (cases l) (simp_all add: emits_return)
  qed (rule ended_at_one)
qed (simp add: emits_return)

lemma shake_reaches:
  "emits (shake_hands L J W cfg v key) (\<lambda>e es. reaches L J cfg v (Opened key, b) es
     (\<lambda>s. s = (if e = None then Shaken else Leaving False, b)))"
  unfolding shake_hands_def read_challenge_def send_hello_def read_handshake_result_def handshake_accepted_def
  by (intro gateway_intros)
     (auto simp: follow_def opening_frame_def answer_frame_def after_agreement_def expected_hello_def
        register_hello_def reconnect_hello_def sign_challenge_def unmarshal_private_key_def split: option.splits if_splits)

lemma close_reaches:
  "emits (close_with W (LoopEnded r)) (\<lambda>l es. reaches L J cfg v (Leaving (r = None), b) es (ended_at Over b l))"
  unfolding close_with_def by (intro gateway_intros) (simp add: follow_def)

lemma served_reaches:
  "emits (serve_connection J W n) (\<lambda>l es. reaches L J cfg v (Shaken, b) es (ended_at Over b l))"
proof -
  have leave: "emits (case l of
        Looping \<Rightarrow> ret Looping
      | LoopEnded r \<Rightarrow> effect (gw_cancel W) (\<lambda>_. GCancel) >>= (\<lambda>_. close_with W (LoopEnded r)))
      (\<lambda>c es. reaches L J cfg v s1 es (ended_at Over b c))" if "ended_at Ending b l s1" for l s1
    using that close_reaches [of W _ L J cfg v b]
    by (cases l) (auto simp: emits_return follow_def intro!: emits_bind emits_effect)
  have "emits (serve J W n >>= (\<lambda>l. case l of
        Looping \<Rightarrow> ret Looping
      | LoopEnded r \<Rightarrow> effect (gw_cancel W) (\<lambda>_. GCancel) >>= (\<lambda>_. close_with W (LoopEnded r))))
      (\<lambda>l es. reaches L J cfg v (Serving, b) es (ended_at Over b l))"
    by (rule emits_reaches [OF serve_reaches leave ended_at_one])
  note served = this
  show ?thesis
    unfolding serve_connection_def
    by (rule emits_bind, rule emits_effect, rule emits_bind, rule emits_effect) (simp add: follow_def served)
qed

lemma dialled_trimmed: "dialled_url cfg (trim_url (gc_url cfg))"
proof -
  let ?u = "rev (gc_url cfg)" and ?slash = "\<lambda>c. c = CHR ''/''"
  have split: "gc_url cfg = rev (dropWhile ?slash ?u) @ rev (takeWhile ?slash ?u)"
    by (simp flip: rev_append)
  have parts: "drop (length x) s = y \<and> prefix x s" if "s = x @ y" for s x y :: string
    using that by simp
  from parts [OF split]
  have "drop (length (rev (dropWhile ?slash ?u))) (gc_url cfg) = rev (takeWhile ?slash ?u)"
    and "prefix (rev (dropWhile ?slash ?u)) (gc_url cfg)" by (rule conjunct1, rule conjunct2)
  moreover have "list_all ?slash (takeWhile ?slash ?u)" by (auto simp: list_all_iff dest: set_takeWhileD)
  moreover have "\<not> suffix ''/'' (rev (dropWhile ?slash ?u))"
  proof
    assume "suffix ''/'' (rev (dropWhile ?slash ?u))"
    then obtain r where "rev (dropWhile ?slash ?u) = r @ ''/''" by (rule suffixE)
    then have "dropWhile ?slash ?u = CHR ''/'' # rev r" by (metis append_Cons append_Nil rev_append rev_rev_ident rev_singleton_conv)
    then show False using hd_dropWhile [of ?slash ?u] by (metis list.discI list.sel(1))
  qed
  ultimately show ?thesis by (simp add: dialled_url_def trim_url_def)
qed

lemma dial_reaches:
  "emits (dial_and_serve L J W cfg v key n) (\<lambda>l es. reaches L J cfg v (Ready key, b) es (ended_at Over b l))"
proof -
  have shaken: "emits (shake_hands L J W cfg v key >>= (\<lambda>e. case e of
      Some f \<Rightarrow> close_with W (LoopEnded (Some f)) | None \<Rightarrow> serve_connection J W n))
    (\<lambda>l es. reaches L J cfg v (Opened key, b) es (ended_at Over b l))"
  proof (rule emits_reaches [OF shake_reaches])
    fix e :: "connect_fault option" and s1 :: "'b phase \<times> duration"
    assume s1: "s1 = (if e = None then Shaken else Leaving False, b)"
    show "emits (case e of Some f \<Rightarrow> close_with W (LoopEnded (Some f)) | None \<Rightarrow> serve_connection J W n)
      (\<lambda>c fs. reaches L J cfg v s1 fs (ended_at Over b c))"
      using served_reaches close_reaches [of W "e" L J cfg v b] by (cases e) (simp_all add: s1)
  qed simp
  show ?thesis
    unfolding dial_and_serve_def
    by (rule emits_bind, rule emits_effect, rule emits_if)
       (use shaken in \<open>simp_all add: follow_def emits_return dialled_trimmed\<close>)
qed

lemma connect_reaches:
  "emits (connect L J W cfg v n) (\<lambda>l es. reaches L J cfg v (Begin, b) es (ended_at Over b l))"
  unfolding connect_def
  by (intro gateway_intros)
     (use dial_reaches in \<open>auto simp: follow_def loaded_phase_def\<close>)

lemma pauses_spelled:
  "first_backoff = second" "next_backoff b = min (2 * b) minute" "reconnect_pause j = 500000000 + j"
  by (simp_all add: first_backoff_def next_backoff_def max_backoff_def reconnect_pause_def Let_def min_def)

lemma run_reaches:
  "emits (gateway_run L J W cfg v ns b) (\<lambda>u es. reaches L J cfg v (Begin, b) es (\<lambda>s. True))"
proof (induction L J W cfg v ns b rule: gateway_run.induct)
  case (2 L J W cfg v n ns b)
  show ?case unfolding gateway_run.simps
  proof (rule emits_then [OF connect_reaches])
    fix l es
    assume r: "reaches L J cfg v (Begin, b) es (ended_at Over b l)"
    then obtain s1 where s1: "conforms L J cfg v (Begin, b) es = Some s1" "ended_at Over b l s1"
      by (auto simp: reaches_def split: option.splits)
    have from_s1: "reaches L J cfg v (Begin, b) (es @ fs) (\<lambda>s. True) = reaches L J cfg v s1 fs (\<lambda>s. True)" for fs
      by (simp add: reaches_append, simp add: reaches_def s1(1))
    show "emits (case l of
        Looping \<Rightarrow> ret ()
      | LoopEnded None \<Rightarrow> effect (gw_done W) GDone >>= (\<lambda>gone. if gone then ret () else
          effect (gw_jitter W) GJitter >>= (\<lambda>j. effect (gw_wait W (reconnect_pause j)) (GWait (reconnect_pause j)) >>= (\<lambda>waited.
          if \<not> waited then ret () else gateway_run L J W cfg v ns first_backoff)))
      | LoopEnded (Some err) \<Rightarrow> effect (gw_done W) GDone >>= (\<lambda>gone. if gone then ret () else
          effect (gw_wait W b) (GWait b) >>= (\<lambda>waited.
          if \<not> waited then ret () else gateway_run L J W cfg v ns (next_backoff b))))
      (\<lambda>u fs. reaches L J cfg v (Begin, b) (es @ fs) (\<lambda>s. True))"
      unfolding from_s1
    proof (cases l)
      case (LoopEnded r)
      then have s1: "s1 = (Over (r = None), b)" using s1(2) by simp
      show "emits (case l of
          Looping \<Rightarrow> ret ()
        | LoopEnded None \<Rightarrow> effect (gw_done W) GDone >>= (\<lambda>gone. if gone then ret () else
            effect (gw_jitter W) GJitter >>= (\<lambda>j. effect (gw_wait W (reconnect_pause j)) (GWait (reconnect_pause j)) >>= (\<lambda>waited.
            if \<not> waited then ret () else gateway_run L J W cfg v ns first_backoff)))
        | LoopEnded (Some err) \<Rightarrow> effect (gw_done W) GDone >>= (\<lambda>gone. if gone then ret () else
            effect (gw_wait W b) (GWait b) >>= (\<lambda>waited.
            if \<not> waited then ret () else gateway_run L J W cfg v ns (next_backoff b))))
        (\<lambda>u fs. reaches L J cfg v s1 fs (\<lambda>s. True))"
      proof (cases r)
        case None
        show ?thesis unfolding LoopEnded None s1 loop_state.case option.case
          by (intro emits_bind emits_effect emits_if emits_return)
             (use 2 in \<open>simp_all add: follow_def emits_return pauses_spelled\<close>)
      next
        case (Some err)
        show ?thesis unfolding LoopEnded Some s1 loop_state.case option.case
          by (intro emits_bind emits_effect emits_if emits_return)
             (use 2 in \<open>simp_all add: follow_def emits_return pauses_spelled\<close>)
      qed
    qed (simp add: emits_return)
  qed
qed (simp add: emits_return)

section \<open>The heartbeat\<close>

text \<open>
  One heartbeat waits for its ticker or the end of its connection; at a tick it pings, writes a health message and calls the
  handler, in this order, and at the first of these that fails it closes the connection and is over.
\<close>

datatype beat_phase = Idle | Due | Pinged | Healthy | BeatFailed | BeatOver

fun beat_follow :: "'k gw_step \<Rightarrow> beat_phase \<Rightarrow> beat_phase option" where
  "beat_follow x Idle = (case x of GTick tick \<Rightarrow> Some (if tick then Due else BeatOver) | _ \<Rightarrow> None)"
| "beat_follow x Due = (case x of GPing ok \<Rightarrow> Some (if ok then Pinged else BeatFailed) | _ \<Rightarrow> None)"
| "beat_follow x Pinged =
     (case x of GWrite m sent \<Rightarrow> if m = Health then Some (if sent then Healthy else BeatFailed) else None | _ \<Rightarrow> None)"
| "beat_follow x Healthy = (case x of GBeat ok \<Rightarrow> Some (if ok then Idle else BeatFailed) | _ \<Rightarrow> None)"
| "beat_follow x BeatFailed = (case x of GClose \<Rightarrow> Some BeatOver | _ \<Rightarrow> None)"
| "beat_follow x BeatOver = None"

fun beats :: "beat_phase \<Rightarrow> 'k gw_step list \<Rightarrow> beat_phase option" where
  "beats p [] = Some p"
| "beats p (x # xs) = (case beat_follow x p of None \<Rightarrow> None | Some q \<Rightarrow> beats q xs)"

lemma beats_append: "beats p (xs @ ys) = (case beats p xs of None \<Rightarrow> None | Some q \<Rightarrow> beats q ys)"
  by (induction xs arbitrary: p) (auto split: option.splits)

lemma tick_beats: "emits (heartbeat_tick W) (\<lambda>r es. beats Due es = Some (if r then Idle else BeatOver))"
  unfolding heartbeat_tick_def beat_close_def by (intro gateway_intros) simp_all

lemma heartbeat_beats: "emits (heartbeat W n) (\<lambda>r es. beats Idle es = Some (if r then Idle else BeatOver))"
proof (induction W n rule: heartbeat.induct)
  case (2 W n)
  have "emits (heartbeat_tick W >>= (\<lambda>b. if b then heartbeat W n else ret False))
      (\<lambda>r es. beats Due es = Some (if r then Idle else BeatOver))"
    by (rule emits_then [OF tick_beats], rule emits_if, rule emits_weaken [OF 2])
       (auto simp: beats_append intro!: emits_return)
  note ticked = this
  show ?case unfolding heartbeat.simps
    by (rule emits_bind, rule emits_effect, intro emits_if emits_return) (simp_all add: ticked)
qed (simp add: emits_return)

text \<open>C28. Whatever the gateway sends, the handler and the key store answer and the other goroutine does
between two steps, the main goroutine follows the protocol automaton: a registration sends the token
and no signature, only when no key is loaded, the token is there and the key directory takes a file,
and a reconnection sends no token and signs the challenge just read with the connector's id; a new
key is stored only after an accepted registration and before the handler is told of the connection;
the heartbeat is started and messages reach the handler only in a served connection; the heartbeat's
context is cancelled at the end of a served connection and every dialled connection is closed before
the next dial. And each heartbeat does at a tick a ping, a health message and the handler's
callback, in this order, closes the connection at the first that fails, and does nothing after that
or after the end of its context.\<close>

theorem gateway_follows_protocol:
  "emits (gateway_run L J W cfg v ns first_backoff) (\<lambda>u es. conforms L J cfg v (Begin, second) es \<noteq> None) \<and>
   emits (heartbeat V n) (\<lambda>r es. beats Idle es = Some (if r then Idle else BeatOver))"
proof (intro conjI heartbeat_beats)
  show "emits (gateway_run L J W cfg v ns first_backoff) (\<lambda>u es. conforms L J cfg v (Begin, second) es \<noteq> None)"
    unfolding first_backoff_def by (rule emits_weaken [OF run_reaches]) (auto simp: reaches_def split: option.splits)
qed

section \<open>The pauses between connections\<close>

definition failure_pause :: "nat \<Rightarrow> duration" where
  "failure_pause k = min (2 ^ k * first_backoff) max_backoff"

lemma failure_pause_second: "failure_pause 0 = second"
  by (simp add: failure_pause_def first_backoff_def max_backoff_def)

lemma failure_pause_0: "failure_pause 0 = first_backoff"
  by (simp add: failure_pause_def first_backoff_def max_backoff_def)

lemma next_failure_pause: "min (2 * failure_pause k) minute = failure_pause (Suc k)"
  by (auto simp: failure_pause_def max_backoff_def first_backoff_def Let_def min_def)

text \<open>
  The waits of a log, after \<open>k\<close> failed connections in a row: a drawn jitter makes the next wait the pause of a
  clean reconnection and ends the row; without one the wait is that of the row so far.
\<close>

fun paced :: "nat \<Rightarrow> duration option \<Rightarrow> 'k gw_step list \<Rightarrow> bool" where
  "paced k j [] = True"
| "paced k j (x # xs) =
     (case x of
        GJitter r \<Rightarrow> paced k (Some r) xs
      | GWait d ok \<Rightarrow>
          (case j of
             Some r \<Rightarrow> d = reconnect_pause r \<and> paced 0 None xs
           | None \<Rightarrow> d = failure_pause k \<and> paced (Suc k) None xs)
      | _ \<Rightarrow> paced k j xs)"

definition jitter_of :: "'k phase \<Rightarrow> duration option" where
  "jitter_of p = (case p of Pausing d \<Rightarrow> Some (d - 500000000) | _ \<Rightarrow> None)"

definition pacing :: "'k gw_step \<Rightarrow> bool" where
  "pacing x = (case x of GJitter r \<Rightarrow> True | GWait d ok \<Rightarrow> True | _ \<Rightarrow> False)"

lemma paced_other: "\<not> pacing x \<Longrightarrow> paced k j (x # xs) = paced k j xs"
  by (cases x) (simp_all add: pacing_def)

lemma enrolling_unpaced:
  "enrolling L J cfg v x p = Some q \<Longrightarrow>
   \<not> pacing x \<and> jitter_of p = None \<and> jitter_of q = None"
  by (cases p; cases x)
     (auto simp: pacing_def jitter_of_def loaded_phase_def opening_frame_def answer_frame_def after_agreement_def
        split: if_splits option.splits sum.splits)

lemma connected_unpaced:
  "connected J x p = Some q \<Longrightarrow>
   \<not> pacing x \<and> jitter_of p = None \<and> jitter_of q = None"
  by (cases p; cases x) (auto simp: pacing_def jitter_of_def served_frame_def split: if_splits option.splits)

lemma waiting_paced:
  "waiting x (failure_pause k) p = Some s1 \<Longrightarrow>
   (case x of
      GJitter r \<Rightarrow> s1 = (Pausing (reconnect_pause r), failure_pause k)
    | GWait d ok \<Rightarrow>
        (case jitter_of p of
           Some r \<Rightarrow> d = reconnect_pause r \<and> jitter_of (fst s1) = None \<and> snd s1 = failure_pause 0
         | None \<Rightarrow> d = failure_pause k \<and> jitter_of (fst s1) = None \<and> snd s1 = failure_pause (Suc k))
    | _ \<Rightarrow> jitter_of (fst s1) = jitter_of p \<and> snd s1 = failure_pause k)"
  by (cases p; cases x)
     (auto simp: jitter_of_def reconnect_pause_def next_failure_pause failure_pause_second split: if_splits)

lemma follow_cases:
  assumes "follow L J cfg v (p, failure_pause k) x = Some s1"
  obtains (still) q where "\<not> pacing x" "s1 = (q, failure_pause k)" "jitter_of q = jitter_of p"
    | (waits) "waiting x (failure_pause k) p = Some s1"
proof (cases "enrolling L J cfg v x p")
  case (Some q)
  with assms enrolling_unpaced [OF Some] show ?thesis by (intro still [of q]) (simp_all add: follow_def)
next
  case unenrolled: None
  show ?thesis
  proof (cases "connected J x p")
    case (Some q)
    with assms unenrolled connected_unpaced [OF Some] show ?thesis by (intro still [of q]) (simp_all add: follow_def)
  qed (use assms unenrolled waits in \<open>simp add: follow_def\<close>)
qed

lemma conforms_paced:
  "conforms L J cfg v (p, failure_pause k) es \<noteq> None \<Longrightarrow> paced k (jitter_of p) es"
proof (induction es arbitrary: p k)
  case (Cons x xs)
  then obtain q b where q: "follow L J cfg v (p, failure_pause k) x = Some (q, b)" "conforms L J cfg v (q, b) xs \<noteq> None"
    by (auto split: option.splits)
  from q(1) show ?case
  proof (cases rule: follow_cases)
    case (still q1)
    with q(2) Cons.IH [of q1 k] show ?thesis by (simp add: paced_other del: paced.simps)
  next
    case waits
    note w = waiting_paced [OF waits] and IH = Cons.IH [of q]
    show ?thesis
    proof (cases "pacing x")
      case True
      then consider r where "x = GJitter r" | d ok where "x = GWait d ok"
        by (auto simp: pacing_def split: gw_step.splits)
      then show ?thesis
      proof cases
        case (1 r)
        with w have "q = Pausing (reconnect_pause r)" "b = failure_pause k" by simp_all
        with q(2) IH [of k] 1 show ?thesis by (simp add: jitter_of_def reconnect_pause_def)
      next
        case (2 d ok)
        show ?thesis
        proof (cases "jitter_of p")
          case None
          with w 2 q(2) IH [of "Suc k"] show ?thesis by simp
        next
          case (Some r)
          with w 2 q(2) IH [of 0] show ?thesis by simp
        qed
      qed
    next
      case False
      with w have "jitter_of q = jitter_of p" "b = failure_pause k"
        by (cases x; simp add: pacing_def)+
      with q(2) IH [of k] False show ?thesis by (simp add: paced_other del: paced.simps)
    qed
  qed
qed simp

text \<open>After k failed connections in a row the connector waits 2^k seconds, at most sixty, before it dials
again, and after a clean end half a second and the drawn jitter, which also ends the row.\<close>

theorem reconnections_paced:
  "emits (gateway_run L J W cfg v ns first_backoff) (\<lambda>u es. paced 0 None es)"
proof (rule emits_weaken [OF run_reaches])
  fix u es
  assume "reaches L J cfg v (Begin, first_backoff) es (\<lambda>s. True)"
  then have "conforms L J cfg v (Begin, failure_pause 0) es \<noteq> None"
    by (auto simp: reaches_def failure_pause_0 split: option.splits)
  then show "paced 0 None es" using conforms_paced [of L J cfg v Begin 0 es] by (simp add: jitter_of_def)
qed

end
