(* ===== verification/Coalesce.thy ===== *)
theory Coalesce
  imports Prelude
begin

text \<open>
  Coalesced work, as \<open>notifyStatus\<close>/\<open>flushNotify\<close> (\<open>gitsync/status.go\<close>) and \<open>markRunsDirty\<close>/\<open>trailingSave\<close>
  (\<open>gitsync/client.go\<close>) do it with the same code: the first request after a quiet period is served at
  once, those that follow within the interval share one trailing run.
\<close>

text \<open>\<open>co_due\<close> is when the timer armed by \<open>time.AfterFunc\<close> may fire.\<close>

record coalescer =
  co_last :: gtime
  co_scheduled :: bool
  co_due :: gtime

definition new_coalescer :: coalescer where
  "new_coalescer = \<lparr>co_last = zero_time, co_scheduled = False, co_due = zero_time\<rparr>"

text \<open>A request: whether it runs the work now.\<close>

definition co_request :: "duration \<Rightarrow> gtime \<Rightarrow> coalescer \<Rightarrow> bool \<times> coalescer" where
  "co_request every now s =
     (let wait = every - time_sub now (co_last s)
      in if wait \<le> 0 \<and> \<not> co_scheduled s then (True, s\<lparr>co_last := now\<rparr>)
         else if \<not> co_scheduled s then (False, s\<lparr>co_scheduled := True, co_due := now + wait\<rparr>)
         else (False, s))"

definition co_fire :: "gtime \<Rightarrow> coalescer \<Rightarrow> coalescer" where
  "co_fire now s = s\<lparr>co_scheduled := False, co_last := now\<rparr>"

text \<open>
  Any number of requesters and the timer, at times that never go back: the state, the time, the times of
  the runs (latest first), the time of the last request.
\<close>

inductive co_reach :: "duration \<Rightarrow> coalescer \<Rightarrow> gtime \<Rightarrow> gtime list \<Rightarrow> gtime option \<Rightarrow> bool" for every where
  start: "zero_time \<le> t \<Longrightarrow> co_reach every new_coalescer t [] None"
| request: "co_reach every s t rs q \<Longrightarrow> t \<le> t' \<Longrightarrow> co_request every t' s = (now, s') \<Longrightarrow>
    co_reach every s' t' (if now then t' # rs else rs) (Some t')"
| fire: "co_reach every s t rs q \<Longrightarrow> t \<le> t' \<Longrightarrow> co_scheduled s \<Longrightarrow> co_due s \<le> t' \<Longrightarrow>
    co_reach every (co_fire t' s) t' (t' # rs) q"

definition spaced :: "duration \<Rightarrow> gtime list \<Rightarrow> bool" where
  "spaced every rs \<longleftrightarrow> successively (\<lambda>a b. b + every \<le> a) rs"

definition served :: "duration \<Rightarrow> coalescer \<Rightarrow> gtime list \<Rightarrow> gtime \<Rightarrow> bool" where
  "served every s rs k \<longleftrightarrow> (co_scheduled s \<and> co_due s \<le> k + every) \<or> (rs \<noteq> [] \<and> k \<le> hd rs)"

definition co_inv :: "duration \<Rightarrow> coalescer \<Rightarrow> gtime \<Rightarrow> gtime list \<Rightarrow> gtime option \<Rightarrow> bool" where
  "co_inv every s t rs q \<longleftrightarrow>
     zero_time \<le> t \<and> co_last s \<le> t \<and> (case rs of [] \<Rightarrow> co_last s = zero_time | r # _ \<Rightarrow> co_last s = r) \<and>
     (co_scheduled s \<longrightarrow> co_due s = co_last s + every) \<and> spaced every rs \<and>
     (case q of None \<Rightarrow> True | Some k \<Rightarrow> k \<le> t \<and> served every s rs k)"

lemma spaced_Cons: "spaced every (r # rs) \<longleftrightarrow> (rs = [] \<or> hd rs + every \<le> r) \<and> spaced every rs"
  by (cases rs) (auto simp: spaced_def)

lemma request_due:
  assumes "every \<le> max_duration" "co_last s \<le> t" "0 < every - time_sub t (co_last s)"
  shows "t + (every - time_sub t (co_last s)) = co_last s + every"
  using assms by (auto simp: time_sub_def max_duration_def)

lemma request_wait:
  assumes "every \<le> max_duration" "co_last s \<le> t" "every - time_sub t (co_last s) \<le> 0"
  shows "co_last s + every \<le> t"
  using assms by (auto simp: time_sub_def max_duration_def)

lemma co_reach_inv:
  assumes "co_reach every s t rs q" "0 \<le> every" "every \<le> max_duration"
  shows "co_inv every s t rs q"
  using assms
proof (induction rule: co_reach.induct)
  case (start t)
  then show ?case by (simp add: co_inv_def new_coalescer_def spaced_def)
next
  case (request s t rs q t' now s')
  then have inv: "co_inv every s t rs q" and le: "co_last s \<le> t'" by (auto simp: co_inv_def)
  note due = request_due [OF request.prems(2) le] and wait = request_wait [OF request.prems(2) le]
  have "every \<le> 0 \<or> 0 \<le> time_sub t' (co_last s)" using le by (auto simp: time_sub_def max_duration_def)
  then show ?case
    using request.hyps(2,3) inv due wait request.prems
    by (cases rs; cases "co_scheduled s")
      (auto simp: co_inv_def co_request_def Let_def spaced_Cons served_def split: if_splits option.splits)
next
  case (fire s t rs q t')
  then show ?case
    by (cases rs) (auto simp: co_inv_def co_fire_def spaced_Cons served_def split: option.splits)
qed

text \<open>Whatever the interleaving of requests and timers, coalesced runs are at least the interval apart,
and after the last request either a run has already happened or a timer is armed that is due within
the interval of that request: bursts cannot multiply statuses and the final state is always
reported.\<close>

theorem coalesced_runs:
  assumes "co_reach every s t rs q" "0 \<le> every" "every \<le> max_duration"
  shows "spaced every rs \<and> (case q of None \<Rightarrow> True | Some k \<Rightarrow> served every s rs k)"
  using co_reach_inv [OF assms] by (auto simp: co_inv_def split: option.splits)

theorem coalesced_runs_witness:
  "\<exists>s rs. co_reach (5 * second) s (second) rs (Some second) \<and> spaced (5 * second) rs \<and> served (5 * second) s rs second"
proof -
  have "co_reach (5 * second) new_coalescer 0 [] None" by (rule co_reach.start) (simp add: zero_time_def)
  then have "co_reach (5 * second) (snd (co_request (5 * second) 0 new_coalescer)) 0 [0] (Some 0)"
    using co_reach.request [where t' = 0 and now = True]
    by (fastforce simp: co_request_def new_coalescer_def zero_time_def time_sub_def max_duration_def)
  then have r: "co_reach (5 * second) (snd (co_request (5 * second) second (snd (co_request (5 * second) 0 new_coalescer))))
      second [0] (Some second)"
    using co_reach.request [where t' = second and now = False]
    by (fastforce simp: co_request_def new_coalescer_def zero_time_def time_sub_def max_duration_def)
  from coalesced_runs [OF r] r show ?thesis by (fastforce simp: max_duration_def)
qed

end
