(* ===== verification/RunSaves.thy ===== *)
theory RunSaves
  imports Coalesce RunStateFile Machines
begin

text \<open>
  When the run state is written (\<open>markRunsDirty\<close>, \<open>trailingSave\<close>, \<open>flushRuns\<close>, \<open>stopRunSaves\<close> of
  \<open>gitsync/client.go\<close>): any number of goroutines change the records, mark them and write them, one write at
  a time, and a write may fail. The interleaving is a sequence of events, each one critical section.
\<close>

section \<open>The state\<close>

text \<open>
  \<open>sv_file\<close> is what a load of the file would give. The goroutines are counted by where they are:
  \<open>sv_marks\<close> changed the records and have yet to mark them, \<open>sv_flushes\<close> are about to flush, \<open>sv_saves\<close> took
  the mark away and wait for the store's lock, one holds it (\<open>sv_writing\<close>, with its snapshot), \<open>sv_failed\<close>
  failed and have yet to put the mark back. \<open>sv_timers\<close> counts the timers that are armed or have fired.
\<close>

type_synonym run_map = "(repo_id, run_record) fmap"

record run_saver =
  sv_runs :: run_map
  sv_file :: run_map
  sv_dirty :: bool
  sv_co :: coalescer
  sv_timers :: nat
  sv_marks :: nat
  sv_flushes :: nat
  sv_saves :: nat
  sv_writing :: "run_map option"
  sv_failed :: nat

definition new_run_saver :: "run_map \<Rightarrow> run_saver" where
  "new_run_saver loaded =
     \<lparr>sv_runs = loaded, sv_file = loaded, sv_dirty = False, sv_co = new_coalescer, sv_timers = 0, sv_marks = 0,
      sv_flushes = 0, sv_saves = 0, sv_writing = None, sv_failed = 0\<rparr>"

section \<open>The operations\<close>

text \<open>\<open>markRunsDirty\<close>: the mark, and a flush at once or a timer.\<close>

definition mark_runs_dirty :: "duration \<Rightarrow> gtime \<Rightarrow> run_saver \<Rightarrow> run_saver" where
  "mark_runs_dirty every now s =
     (case co_request every now (sv_co s) of
        (run_now, co) \<Rightarrow>
          (let s1 = s\<lparr>sv_dirty := True, sv_co := co\<rparr>
           in if run_now then s1\<lparr>sv_flushes := sv_flushes s1 + 1\<rparr>
              else if co_scheduled co \<and> \<not> co_scheduled (sv_co s) then s1\<lparr>sv_timers := sv_timers s1 + 1\<rparr>
              else s1))"

definition trailing_save :: "gtime \<Rightarrow> run_saver \<Rightarrow> run_saver" where
  "trailing_save now s =
     s\<lparr>sv_co := co_fire now (sv_co s), sv_timers := sv_timers s - 1, sv_flushes := sv_flushes s + 1\<rparr>"

text \<open>\<open>flushRuns\<close> in its four parts: it takes the mark, takes the snapshot, writes, and puts the mark back.\<close>

definition take_dirty :: "run_saver \<Rightarrow> run_saver" where
  "take_dirty s =
     (if \<not> sv_dirty s then s\<lparr>sv_flushes := sv_flushes s - 1\<rparr>
      else s\<lparr>sv_flushes := sv_flushes s - 1, sv_dirty := False, sv_saves := sv_saves s + 1\<rparr>)"

definition take_snapshot :: "run_saver \<Rightarrow> run_saver" where
  "take_snapshot s = s\<lparr>sv_saves := sv_saves s - 1, sv_writing := Some (sv_runs s)\<rparr>"

definition end_write :: "save_error option \<Rightarrow> run_map \<Rightarrow> run_saver \<Rightarrow> run_saver" where
  "end_write r snapshot s =
     (let s1 = s\<lparr>sv_writing := None, sv_file := (if installed r then snapshot else sv_file s)\<rparr>
      in if r = None then s1 else s1\<lparr>sv_failed := sv_failed s1 + 1\<rparr>)"

definition remark :: "run_saver \<Rightarrow> run_saver" where
  "remark s = s\<lparr>sv_failed := sv_failed s - 1, sv_dirty := True\<rparr>"

text \<open>\<open>stopRunSaves\<close>; the timer it stops may have fired already.\<close>

definition stop_run_saves :: "bool \<Rightarrow> run_saver \<Rightarrow> run_saver" where
  "stop_run_saves stopped s =
     s\<lparr>sv_timers := (if stopped then sv_timers s - 1 else sv_timers s),
       sv_co := (sv_co s)\<lparr>co_scheduled := False\<rparr>, sv_flushes := sv_flushes s + 1\<rparr>"

section \<open>Runs\<close>

datatype save_event =
    SvChange run_map | SvMark gtime | SvFire gtime | SvTake | SvSnapshot | SvEnd "save_error option" | SvRemark | SvStop bool

text \<open>None when the event cannot happen. A save is \<open>save_state\<close> of theory RunStateFile with its outcome.\<close>

fun saver_move :: "duration \<Rightarrow> save_event \<Rightarrow> run_saver \<Rightarrow> run_saver option" where
  "saver_move every (SvChange rs) s = Some (s\<lparr>sv_runs := rs, sv_marks := sv_marks s + 1\<rparr>)"
| "saver_move every (SvMark now) s =
     (if 0 < sv_marks s then Some (mark_runs_dirty every now (s\<lparr>sv_marks := sv_marks s - 1\<rparr>)) else None)"
| "saver_move every (SvFire now) s = (if 0 < sv_timers s then Some (trailing_save now s) else None)"
| "saver_move every SvTake s = (if 0 < sv_flushes s then Some (take_dirty s) else None)"
| "saver_move every SvSnapshot s =
     (if 0 < sv_saves s \<and> sv_writing s = None then Some (take_snapshot s) else None)"
| "saver_move every (SvEnd r) s =
     (case sv_writing s of None \<Rightarrow> None | Some snapshot \<Rightarrow> Some (end_write r snapshot s))"
| "saver_move every SvRemark s = (if 0 < sv_failed s then Some (remark s) else None)"
| "saver_move every (SvStop stopped) s = Some (stop_run_saves stopped s)"

abbreviation saver_run :: "duration \<Rightarrow> save_event list \<Rightarrow> run_saver \<Rightarrow> run_saver option" where
  "saver_run every \<equiv> steps (saver_move every)"

section \<open>No change is lost\<close>

text \<open>Nothing is outstanding: the records are not marked and no goroutine is on its way to mark or write them.\<close>

definition settled :: "run_saver \<Rightarrow> bool" where
  "settled s \<longleftrightarrow> \<not> sv_dirty s \<and> sv_marks s = 0 \<and> sv_saves s = 0 \<and> sv_failed s = 0"

text \<open>What the file holds, or will when the write under way succeeds.\<close>

definition latest :: "run_saver \<Rightarrow> run_map" where
  "latest s = (case sv_writing s of None \<Rightarrow> sv_file s | Some snapshot \<Rightarrow> snapshot)"

definition run_saver_ok :: "run_saver \<Rightarrow> bool" where
  "run_saver_ok s \<longleftrightarrow> (settled s \<longrightarrow> latest s = sv_runs s)"

lemmas save_ops = mark_runs_dirty_def trailing_save_def take_dirty_def take_snapshot_def end_write_def remark_def
  stop_run_saves_def Let_def

lemma saver_move_ok: "saver_move every e s = Some s' \<Longrightarrow> run_saver_ok s \<Longrightarrow> run_saver_ok s'"
  by (cases e)
     (auto simp: save_ops run_saver_ok_def settled_def latest_def split: if_splits option.splits prod.splits)

interpretation saver: keeper "saver_move every" "\<lambda>e. True" run_saver_ok for every
  by unfold_locales (rule saver_move_ok)

text \<open>A change that is marked is on its way to the file: a timer or a flush, unless a write failed.\<close>

definition failed_write :: "save_event \<Rightarrow> bool" where
  "failed_write e \<longleftrightarrow> (case e of SvEnd r \<Rightarrow> r \<noteq> None | _ \<Rightarrow> False)"

definition on_the_way :: "run_saver \<Rightarrow> bool" where
  "on_the_way s \<longleftrightarrow> sv_failed s = 0 \<and> (co_scheduled (sv_co s) \<longrightarrow> 0 < sv_timers s) \<and>
     (sv_dirty s \<longrightarrow> 0 < sv_timers s \<or> 0 < sv_flushes s)"

lemma on_the_way_step:
  "saver_move every e s = Some s' \<Longrightarrow> \<not> failed_write e \<Longrightarrow> on_the_way s \<Longrightarrow> on_the_way s'"
  by (cases e)
     (auto simp: save_ops on_the_way_def failed_write_def co_request_def co_fire_def split: if_splits option.splits prod.splits)

interpretation way: keeper "saver_move every" "\<lambda>e. \<not> failed_write e" on_the_way for every
  by unfold_locales (rule on_the_way_step)

lemma run_saver_reached: "saver_run every es (new_run_saver loaded) = Some s \<Longrightarrow> run_saver_ok s"
  by (erule saver.steps_keep)
     (simp_all add: list_all_iff run_saver_ok_def latest_def new_run_saver_def)

lemma on_the_way_reached:
  "saver_run every es (new_run_saver loaded) = Some s \<Longrightarrow> list_all (\<lambda>e. \<not> failed_write e) es \<Longrightarrow> on_the_way s"
  by (erule way.steps_keep) (simp_all add: on_the_way_def new_run_saver_def new_coalescer_def)

text \<open>C38. However marks, timers, flushes and failing writes of any number of goroutines interleave, once
no record is marked and no goroutine is about to mark or write one, the run state file, or the
snapshot being written to it, is the current records; and while no write has failed, marked records
have a timer or a flush on the way.\<close>

theorem run_state_kept:
  "case saver_run every es (new_run_saver loaded) of
     None \<Rightarrow> True
   | Some s \<Rightarrow>
       (if settled s then (case sv_writing s of None \<Rightarrow> sv_file s = sv_runs s | Some snapshot \<Rightarrow> snapshot = sv_runs s) else True) \<and>
       (if list_all (\<lambda>e. \<not> failed_write e) es \<and> sv_dirty s then 0 < sv_timers s \<or> 0 < sv_flushes s else True)"
proof (cases "saver_run every es (new_run_saver loaded)")
  case (Some s)
  show ?thesis using run_saver_reached [OF Some] on_the_way_reached [OF Some]
    by (auto simp: Some run_saver_ok_def latest_def on_the_way_def split: option.splits)
qed simp

text \<open>\<open>Wait\<close> flushes once more: when no goroutine is left and no write failed, the file is the records.\<close>

lemma quiet_is_saved:
  assumes "saver_run every es (new_run_saver loaded) = Some s" "list_all (\<lambda>e. \<not> failed_write e) es"
    and "sv_timers s = 0" "sv_marks s = 0" "sv_flushes s = 0" "sv_saves s = 0" "sv_writing s = None"
  shows "sv_file s = sv_runs s"
proof -
  have "on_the_way s" "run_saver_ok s"
    by (rule on_the_way_reached [OF assms(1,2)], rule run_saver_reached [OF assms(1)])
  with assms(3-) show ?thesis by (auto simp: on_the_way_def run_saver_ok_def settled_def latest_def)
qed

end
