(* ===== verification/SlotPool.thy ===== *)
theory SlotPool
  imports Prelude
begin

text \<open>
  The counting semaphore of \<open>internal/gitsync/slots.go\<close>, whose capacity can change while it is in use.
  The pool's fields are a record; a waiter is a number, the identity of the \<open>slotWaiter\<close> the code
  allocates, and \<open>granted\<close> is the set of the waiters whose flag is set. Every method that runs under
  the pool's mutex is one operation. \<open>acquire\<close> leaves the mutex while it waits, so it is split at that
  point: \<open>acquire_enter\<close> is its first critical section, and a blocked caller later either wakes
  because its slot was granted or gives up through \<open>abandon\<close>. The step relation \<open>slot_step\<close>
  interleaves any number of callers.
\<close>

subsection \<open>State and operations\<close>

record slot_pool =
  limit :: int
  held :: int
  waiters :: "nat list"
  granted :: "nat set"

definition new_slot_pool :: "int \<Rightarrow> slot_pool" where
  "new_slot_pool n = \<lparr>limit = max n 1, held = 0, waiters = [], granted = {}\<rparr>"

text \<open>The loop of \<open>grantLocked\<close> recurses over the queue it empties.\<close>

fun grant_loop :: "int \<Rightarrow> int \<Rightarrow> nat set \<Rightarrow> nat list \<Rightarrow> int \<times> nat set \<times> nat list" where
  "grant_loop lm h g [] = (h, g, [])"
| "grant_loop lm h g (w # ws) =
     (if h < lm then grant_loop lm (h + 1) (insert w g) ws else (h, g, w # ws))"

definition grant_locked :: "slot_pool \<Rightarrow> slot_pool" where
  "grant_locked p =
     (case grant_loop (limit p) (held p) (granted p) (waiters p) of
        (h, g, ws) \<Rightarrow> p\<lparr>held := h, granted := g, waiters := ws\<rparr>)"

text \<open>
  The first critical section of \<open>acquire\<close>: \<open>True\<close> when a slot was free and is now held, \<open>False\<close> when
  the caller was queued as the waiter \<open>w\<close>.
\<close>

definition acquire_enter :: "nat \<Rightarrow> slot_pool \<Rightarrow> bool \<times> slot_pool" where
  "acquire_enter w p =
     (if waiters p = [] \<and> held p < limit p then (True, p\<lparr>held := held p + 1\<rparr>)
      else (False, p\<lparr>waiters := waiters p @ [w]\<rparr>))"

definition abandon :: "nat \<Rightarrow> slot_pool \<Rightarrow> slot_pool" where
  "abandon w p =
     (if w \<in> granted p then grant_locked (p\<lparr>held := held p - 1\<rparr>)
      else p\<lparr>waiters := remove1 w (waiters p)\<rparr>)"

definition release :: "slot_pool \<Rightarrow> slot_pool" where
  "release p = grant_locked (p\<lparr>held := held p - 1\<rparr>)"

definition resize :: "int \<Rightarrow> slot_pool \<Rightarrow> slot_pool" where
  "resize n p = grant_locked (p\<lparr>limit := max n 1\<rparr>)"

subsection \<open>What granting does\<close>

text \<open>How many waiters a grant serves: the free slots, or the whole queue.\<close>

definition served :: "int \<Rightarrow> int \<Rightarrow> nat list \<Rightarrow> nat" where
  "served lm h ws = min (length ws) (nat (lm - h))"

lemma grant_loop_eq:
  "grant_loop lm h g ws =
     (h + int (served lm h ws), g \<union> set (take (served lm h ws) ws), drop (served lm h ws) ws)"
proof (induction lm h g ws rule: grant_loop.induct)
  case (2 lm h g w ws)
  show ?case
  proof (cases "h < lm")
    case True
    then have "nat (lm - h) = Suc (nat (lm - (h + 1)))" by arith
    with True "2.IH" show ?thesis by (simp add: served_def)
  qed (simp add: served_def)
qed (simp add: served_def)

lemma grant_locked_sel [simp]:
  "limit (grant_locked p) = limit p"
  "held (grant_locked p) = held p + int (served (limit p) (held p) (waiters p))"
  "granted (grant_locked p) = granted p \<union> set (take (served (limit p) (held p) (waiters p)) (waiters p))"
  "waiters (grant_locked p) = drop (served (limit p) (held p) (waiters p)) (waiters p)"
  by (simp_all add: grant_locked_def grant_loop_eq)

lemma grant_locked_full: "waiters (grant_locked p) \<noteq> [] \<Longrightarrow> limit p \<le> held (grant_locked p)"
  by (auto simp: served_def min_def split: if_splits)

lemma grant_locked_bound: "held (grant_locked p) \<le> max (held p) (limit p)"
  by (auto simp: served_def min_def)

subsection \<open>Callers\<close>

text \<open>
  The system: the pool, the callers whose \<open>acquire\<close> returned true and that have not called \<open>release\<close>
  (\<open>holding\<close>), and the callers blocked in its \<open>select\<close> (\<open>blocked\<close>).
\<close>

record slot_sys =
  pool :: slot_pool
  holding :: "nat set"
  blocked :: "nat set"

definition init_slots :: "int \<Rightarrow> slot_sys" where
  "init_slots n = \<lparr>pool = new_slot_pool n, holding = {}, blocked = {}\<rparr>"

datatype slot_event = Acquire nat | Wake nat | Abandon nat | Release nat | Resize int

inductive slot_step :: "slot_sys \<Rightarrow> slot_event \<Rightarrow> slot_sys \<Rightarrow> bool" where
  acquire_free:
    "w \<notin> holding s \<union> blocked s \<union> granted (pool s) \<Longrightarrow> acquire_enter w (pool s) = (True, p) \<Longrightarrow>
     slot_step s (Acquire w) (s\<lparr>pool := p, holding := insert w (holding s)\<rparr>)"
| acquire_queue:
    "w \<notin> holding s \<union> blocked s \<union> granted (pool s) \<Longrightarrow> acquire_enter w (pool s) = (False, p) \<Longrightarrow>
     slot_step s (Acquire w) (s\<lparr>pool := p, blocked := insert w (blocked s)\<rparr>)"
| wake:
    "w \<in> blocked s \<Longrightarrow> w \<in> granted (pool s) \<Longrightarrow>
     slot_step s (Wake w) (s\<lparr>holding := insert w (holding s), blocked := blocked s - {w}\<rparr>)"
| give_up:
    "w \<in> blocked s \<Longrightarrow>
     slot_step s (Abandon w) (s\<lparr>blocked := blocked s - {w}, pool := abandon w (pool s)\<rparr>)"
| release_slot:
    "w \<in> holding s \<Longrightarrow>
     slot_step s (Release w) (s\<lparr>holding := holding s - {w}, pool := release (pool s)\<rparr>)"
| change_limit:
    "slot_step s (Resize n) (s\<lparr>pool := resize n (pool s)\<rparr>)"

inductive_cases slot_step_cases: "slot_step s e t"

inductive slot_reach :: "int \<Rightarrow> slot_sys \<Rightarrow> bool" for n where
  start: "slot_reach n (init_slots n)"
| step: "slot_reach n s \<Longrightarrow> slot_step s e t \<Longrightarrow> slot_reach n t"

text \<open>
  The invariant ties the counter to the callers: \<open>held\<close> counts exactly those that hold a slot or were
  granted one they have not noticed yet, every blocked caller is queued or granted, never both, and a
  queue only exists while no slot is free.
\<close>

definition pending :: "slot_sys \<Rightarrow> nat set" where
  "pending s = blocked s \<inter> granted (pool s)"

definition slot_inv :: "slot_sys \<Rightarrow> bool" where
  "slot_inv s \<longleftrightarrow>
     finite (holding s) \<and> finite (blocked s) \<and> holding s \<inter> blocked s = {} \<and>
     1 \<le> limit (pool s) \<and> distinct (waiters (pool s)) \<and>
     set (waiters (pool s)) = blocked s - granted (pool s) \<and>
     held (pool s) = int (card (holding s)) + int (card (pending s)) \<and>
     (waiters (pool s) \<noteq> [] \<longrightarrow> limit (pool s) \<le> held (pool s))"

lemma slot_inv_init: "slot_inv (init_slots n)"
  by (simp add: slot_inv_def init_slots_def new_slot_pool_def pending_def)

text \<open>All of it but the last clause, which is what granting restores.\<close>

definition slot_base :: "slot_sys \<Rightarrow> bool" where
  "slot_base s \<longleftrightarrow>
     finite (holding s) \<and> finite (blocked s) \<and> holding s \<inter> blocked s = {} \<and>
     1 \<le> limit (pool s) \<and> distinct (waiters (pool s)) \<and>
     set (waiters (pool s)) = blocked s - granted (pool s) \<and>
     held (pool s) = int (card (holding s)) + int (card (pending s))"

lemmas slot_inv_defs = slot_inv_def slot_base_def pending_def

lemma slot_inv_alt:
  "slot_inv s \<longleftrightarrow> slot_base s \<and> (waiters (pool s) \<noteq> [] \<longrightarrow> limit (pool s) \<le> held (pool s))"
  by (auto simp: slot_inv_defs)

lemma take_drop_sets:
  assumes "distinct ws"
  shows "set (take k ws) \<inter> set (drop k ws) = {}" "set (take k ws) \<union> set (drop k ws) = set ws"
proof -
  have "distinct (take k ws @ drop k ws)" using assms by simp
  then show "set (take k ws) \<inter> set (drop k ws) = {}" unfolding distinct_append by simp
  have "set (take k ws @ drop k ws) = set ws" by (simp only: append_take_drop_id)
  then show "set (take k ws) \<union> set (drop k ws) = set ws" unfolding set_append .
qed

lemma grant_restores_inv:
  assumes "slot_base s"
  shows "slot_inv (s\<lparr>pool := grant_locked (pool s)\<rparr>)"
proof -
  let ?p = "pool s" and ?k = "served (limit (pool s)) (held (pool s)) (waiters (pool s))"
  let ?A = "set (take ?k (waiters ?p))"
  have dist: "distinct (waiters ?p)" and ws: "set (waiters ?p) = blocked s - granted ?p"
    and fin: "finite (blocked s)" using assms by (auto simp: slot_base_def)
  have k: "?k \<le> length (waiters ?p)" by (simp add: served_def)
  note td = take_drop_sets [OF dist, of ?k]
  have sub: "?A \<subseteq> blocked s - granted ?p" using td(2) ws by blast
  have "card (blocked s \<inter> granted ?p \<union> ?A) = card (blocked s \<inter> granted ?p) + card ?A"
    using sub fin by (intro card_Un_disjoint) auto
  moreover have "card ?A = ?k" using dist k by (simp add: distinct_card)
  moreover have "blocked s \<inter> (granted ?p \<union> ?A) = blocked s \<inter> granted ?p \<union> ?A" using sub by auto
  ultimately have c: "card (blocked s \<inter> (granted ?p \<union> ?A)) = card (blocked s \<inter> granted ?p) + ?k"
    by simp
  have d: "set (drop ?k (waiters ?p)) = blocked s - (granted ?p \<union> ?A)"
    using td ws by blast
  have "slot_base (s\<lparr>pool := grant_locked ?p\<rparr>)"
    using assms c d by (simp add: slot_base_def pending_def)
  then show ?thesis
    using grant_locked_full [of ?p] by (simp add: slot_inv_alt)
qed

lemma slot_step_inv:
  assumes "slot_step s e t" and inv: "slot_inv s"
  shows "slot_inv t"
  using assms(1)
proof (cases rule: slot_step.cases)
  case (acquire_free w p)
  then have "w \<notin> holding s" and "p = (pool s)\<lparr>held := held (pool s) + 1\<rparr>" and "waiters (pool s) = []"
    by (auto simp: acquire_enter_def split: if_splits)
  with acquire_free inv show ?thesis
    by (auto simp: slot_inv_defs card_insert_if)
next
  case (acquire_queue w p)
  then have p: "p = (pool s)\<lparr>waiters := waiters (pool s) @ [w]\<rparr>"
    and full: "waiters (pool s) \<noteq> [] \<or> limit (pool s) \<le> held (pool s)"
    by (auto simp: acquire_enter_def split: if_splits)
  have "insert w (blocked s) \<inter> granted (pool s) = blocked s \<inter> granted (pool s)"
    using acquire_queue by auto
  with acquire_queue p full inv show ?thesis
    by (auto simp: slot_inv_defs)
next
  case (wake w)
  let ?P = "blocked s \<inter> granted (pool s)"
  have fin: "finite ?P" and w: "w \<in> ?P" and new: "w \<notin> holding s"
    using wake inv by (auto simp: slot_inv_defs)
  have "(blocked s - {w}) \<inter> granted (pool s) = ?P - {w}" by auto
  moreover from fin w have "card ?P = Suc (card (?P - {w}))" by (rule card.remove)
  ultimately show ?thesis
    using wake inv new by (auto simp: slot_inv_defs card_insert_if)
next
  case (give_up w)
  show ?thesis
  proof (cases "w \<in> granted (pool s)")
    case True
    let ?P = "blocked s \<inter> granted (pool s)"
    let ?s = "s\<lparr>pool := (pool s)\<lparr>held := held (pool s) - 1\<rparr>, blocked := blocked s - {w}\<rparr>"
    have fin: "finite ?P" and w: "w \<in> ?P"
      using give_up True inv by (auto simp: slot_inv_defs)
    have "(blocked s - {w}) \<inter> granted (pool s) = ?P - {w}" by auto
    moreover from fin w have "card ?P = Suc (card (?P - {w}))" by (rule card.remove)
    ultimately have "slot_base ?s"
      using inv True by (auto simp: slot_inv_defs)
    from grant_restores_inv [OF this] show ?thesis
      using give_up True by (simp add: abandon_def)
  next
    case False
    have "(blocked s - {w}) \<inter> granted (pool s) = blocked s \<inter> granted (pool s)"
      using False by auto
    with give_up False inv show ?thesis
      by (auto simp: slot_inv_defs abandon_def set_remove1_eq)
  qed
next
  case (release_slot w)
  let ?s = "s\<lparr>pool := (pool s)\<lparr>held := held (pool s) - 1\<rparr>, holding := holding s - {w}\<rparr>"
  have "finite (holding s)" using inv by (simp add: slot_inv_def)
  then have "card (holding s) = Suc (card (holding s - {w}))"
    using release_slot(3) by (rule card.remove)
  then have "slot_base ?s" using inv by (auto simp: slot_inv_defs)
  from grant_restores_inv [OF this] show ?thesis
    using release_slot by (simp add: release_def)
next
  case (change_limit n)
  let ?s = "s\<lparr>pool := (pool s)\<lparr>limit := max n 1\<rparr>\<rparr>"
  have "slot_base ?s" using inv by (auto simp: slot_inv_defs)
  from grant_restores_inv [OF this] show ?thesis
    using change_limit by (simp add: resize_def)
qed

lemma slot_reach_inv: "slot_reach n s \<Longrightarrow> slot_inv s"
  by (induction rule: slot_reach.induct) (auto intro: slot_inv_init slot_step_inv)

lemma slot_level_step:
  assumes step: "slot_step s e t"
  shows "held (pool t) \<le> max (held (pool s)) (limit (pool t))"
  using step
proof (cases rule: slot_step.cases)
  case (give_up w)
  then show ?thesis
    using grant_locked_bound [of "(pool s)\<lparr>held := held (pool s) - 1\<rparr>"]
    by (simp add: abandon_def split: if_splits)
next
  case (release_slot w)
  then show ?thesis
    using grant_locked_bound [of "(pool s)\<lparr>held := held (pool s) - 1\<rparr>"]
    by (simp add: release_def)
next
  case (change_limit n)
  then show ?thesis
    using grant_locked_bound [of "(pool s)\<lparr>limit := max n 1\<rparr>"] by (simp add: resize_def)
qed (auto simp: acquire_enter_def split: if_splits)

subsection \<open>The interface the manager relies on\<close>

text \<open>
  The semaphore as its client sees it: who holds a slot, who waits for one, which numbers have been
  used, how many slots are out and how many there may be.
\<close>

locale slot_provider =
  fixes ok :: "'s \<Rightarrow> bool" and step :: "'s \<Rightarrow> slot_event \<Rightarrow> 's \<Rightarrow> bool"
    and holders :: "'s \<Rightarrow> nat set" and waiting :: "'s \<Rightarrow> nat set" and used :: "'s \<Rightarrow> nat set"
    and level :: "'s \<Rightarrow> int" and capacity :: "'s \<Rightarrow> int"
  assumes ok_step: "ok s \<Longrightarrow> step s e t \<Longrightarrow> ok t"
    and acquire_law: "step s (Acquire w) t \<Longrightarrow> w \<notin> holders s \<union> waiting s \<and> used t \<subseteq> insert w (used s) \<and>
      (holders t = insert w (holders s) \<and> waiting t = waiting s \<or>
       holders t = holders s \<and> waiting t = insert w (waiting s))"
    and wake_law: "step s (Wake w) t \<Longrightarrow>
      w \<in> waiting s \<and> used t \<subseteq> used s \<and> holders t = insert w (holders s) \<and> waiting t = waiting s - {w}"
    and abandon_law: "ok s \<Longrightarrow> step s (Abandon w) t \<Longrightarrow>
      w \<in> waiting s \<and> used t \<subseteq> used s \<and> holders t = holders s \<and> waiting t = waiting s - {w}"
    and release_law: "ok s \<Longrightarrow> step s (Release w) t \<Longrightarrow>
      w \<in> holders s \<and> used t \<subseteq> used s \<and> holders t = holders s - {w} \<and> waiting t = waiting s"
    and resize_law: "ok s \<Longrightarrow> step s (Resize n) t \<Longrightarrow>
      used t \<subseteq> used s \<and> holders t = holders s \<and> waiting t = waiting s"
    and finite_holders: "ok s \<Longrightarrow> finite (holders s)"
    and holders_level: "ok s \<Longrightarrow> int (card (holders s)) \<le> level s"
    and level_step: "ok s \<Longrightarrow> step s e t \<Longrightarrow> level t \<le> max (level s) (capacity t)"
begin

text \<open>A client whose running workers all hold slots runs at most as many as are out.\<close>

lemma running_bounded:
  assumes "ok s" and "R \<subseteq> holders s"
  shows "int (card R) \<le> level s"
  using card_mono [OF finite_holders [OF assms(1)] assms(2)] holders_level [OF assms(1)] by simp

text \<open>And no step takes that number above the capacity in force, so a smaller one only drains.\<close>

lemma running_drains:
  assumes "ok s" and "step s e t" and "R \<subseteq> holders t"
  shows "int (card R) \<le> max (level s) (capacity t)"
  using running_bounded [OF ok_step [OF assms(1,2)] assms(3)] level_step [OF assms(1,2)] by simp

lemma holds_or_waits:
  assumes "step s (Acquire w) t"
  shows "if w \<in> holders t then holders t = insert w (holders s) \<and> waiting t = waiting s
    else holders t = holders s \<and> waiting t = insert w (waiting s)"
  using acquire_law [OF assms] by auto

end

definition slot_used :: "slot_sys \<Rightarrow> nat set" where
  "slot_used s = holding s \<union> blocked s \<union> granted (pool s)"

lemma grant_used:
  "set (waiters p) \<subseteq> B \<Longrightarrow> granted (grant_locked p) \<subseteq> granted p \<union> B"
  using set_take_subset [of "served (limit p) (held p) (waiters p)" "waiters p"] by auto

interpretation sp: slot_provider slot_inv slot_step holding blocked slot_used
  "\<lambda>s. held (pool s)" "\<lambda>s. limit (pool s)"
proof (unfold_locales, goal_cases)
  case (1 s e t)
  then show ?case by (rule slot_step_inv [rotated])
next
  case (2 s w t)
  then show ?case
    by (cases rule: slot_step.cases) (auto simp: slot_used_def acquire_enter_def split: if_splits)
next
  case (3 s w t)
  then show ?case by (cases rule: slot_step.cases) (auto simp: slot_used_def)
next
  case (4 s w t)
  from 4(2,1) show ?case
  proof (cases rule: slot_step.cases)
    case give_up
    have "granted (grant_locked ((pool s)\<lparr>held := held (pool s) - 1\<rparr>)) \<subseteq> granted (pool s) \<union> blocked s"
      using grant_used [of "(pool s)\<lparr>held := held (pool s) - 1\<rparr>" "blocked s"] 4(1)
      by (auto simp: slot_inv_def)
    with give_up show ?thesis by (auto simp: slot_used_def abandon_def)
  qed
next
  case (5 s w t)
  from 5(2,1) show ?case
  proof (cases rule: slot_step.cases)
    case release_slot
    have "granted (grant_locked ((pool s)\<lparr>held := held (pool s) - 1\<rparr>)) \<subseteq> granted (pool s) \<union> blocked s"
      using grant_used [of "(pool s)\<lparr>held := held (pool s) - 1\<rparr>" "blocked s"] 5(1)
      by (auto simp: slot_inv_def)
    with release_slot show ?thesis by (auto simp: slot_used_def release_def)
  qed
next
  case (6 s n t)
  from 6(2,1) show ?case
  proof (cases rule: slot_step.cases)
    case change_limit
    have "granted (grant_locked ((pool s)\<lparr>limit := max n 1\<rparr>)) \<subseteq> granted (pool s) \<union> blocked s"
      using grant_used [of "(pool s)\<lparr>limit := max n 1\<rparr>" "blocked s"] 6(1)
      by (auto simp: slot_inv_def)
    with change_limit show ?thesis by (auto simp: slot_used_def resize_def)
  qed
next
  case (7 s)
  then show ?case by (simp add: slot_inv_def)
next
  case (8 s)
  then show ?case by (simp add: slot_inv_def)
next
  case (9 s e t)
  from 9(2) show ?case by (rule slot_level_step)
qed

subsection \<open>Properties\<close>

text \<open>In every reachable state of the slot pool, under any interleaving of acquires, wake-ups, abandoned
waits, releases and resizes, the held count is exactly the number of syncs that hold a slot or have
been granted one they have not picked up yet (so no slot is ever lost or handed out twice), a queue
is left waiting only when no slot is free, and a blocked acquirer is either queued or granted.\<close>

theorem slots_conserved:
  assumes "slot_reach n s"
  shows "held (pool s) = int (card (holding s \<union> pending s)) \<and>
    (waiters (pool s) = [] \<or> limit (pool s) \<le> held (pool s)) \<and>
    blocked s = set (waiters (pool s)) \<union> pending s"
proof -
  have inv: "slot_inv s" using assms by (rule slot_reach_inv)
  have "card (holding s \<union> pending s) = card (holding s) + card (pending s)"
    using inv by (intro card_Un_disjoint) (auto simp: slot_inv_defs)
  then show ?thesis
    using inv by (auto simp: slot_inv_defs)
qed

text \<open>A reachable state for the witnesses: one slot, held by caller 7, and callers 8 and 9 queued.\<close>

definition example_slots :: slot_sys where
  "example_slots = \<lparr>pool = \<lparr>limit = 1, held = 1, waiters = [8, 9], granted = {}\<rparr>,
     holding = {7}, blocked = {8, 9}\<rparr>"

lemma example_slots_reach: "slot_reach 1 example_slots"
proof -
  let ?s1 = "\<lparr>pool = \<lparr>limit = 1, held = 1, waiters = [], granted = {}\<rparr>, holding = {7}, blocked = {}\<rparr>"
  let ?s2 = "\<lparr>pool = \<lparr>limit = 1, held = 1, waiters = [8], granted = {}\<rparr>, holding = {7}, blocked = {8}\<rparr>"
  have "slot_step (init_slots 1) (Acquire 7)
      ((init_slots 1)\<lparr>pool := pool ?s1, holding := insert 7 (holding (init_slots 1))\<rparr>)"
    by (rule acquire_free) (simp_all add: init_slots_def new_slot_pool_def acquire_enter_def)
  from slot_reach.step [OF slot_reach.start this] have r1: "slot_reach 1 ?s1"
    by (simp add: init_slots_def)
  have "slot_step ?s1 (Acquire 8) (?s1\<lparr>pool := pool ?s2, blocked := insert 8 (blocked ?s1)\<rparr>)"
    by (rule acquire_queue) (simp_all add: acquire_enter_def)
  from slot_reach.step [OF r1 this] have r2: "slot_reach 1 ?s2" by simp
  have "slot_step ?s2 (Acquire 9)
      (?s2\<lparr>pool := pool example_slots, blocked := insert 9 (blocked ?s2)\<rparr>)"
    by (rule acquire_queue) (simp_all add: acquire_enter_def example_slots_def)
  from slot_reach.step [OF r2 this] show ?thesis
    by (simp add: example_slots_def insert_commute)
qed

theorem slots_conserved_witness:
  "held (pool example_slots) = int (card (holding example_slots \<union> pending example_slots)) \<and>
    blocked example_slots = set (waiters (pool example_slots)) \<union> pending example_slots"
  using slots_conserved [OF example_slots_reach] by simp

text \<open>A step of the slot pool never raises the number of held slots above the limit in force (a shrunk
limit only drains), never takes a slot from a sync that did not release it, and never withdraws a
grant that was made.\<close>

theorem slot_step_safe:
  assumes "slot_reach n s" and step: "slot_step s e t"
  shows "held (pool t) \<le> max (held (pool s)) (limit (pool t)) \<and>
    holding s - {w. e = Release w} \<subseteq> holding t \<and>
    granted (pool s) \<subseteq> granted (pool t)"
proof (intro conjI)
  show "held (pool t) \<le> max (held (pool s)) (limit (pool t))"
    using step by (rule slot_level_step)
  show "holding s - {w. e = Release w} \<subseteq> holding t"
    using step by (cases rule: slot_step.cases) auto
  show "granted (pool s) \<subseteq> granted (pool t)"
    using step by (cases rule: slot_step.cases)
      (auto simp: acquire_enter_def abandon_def release_def resize_def split: if_splits)
qed

theorem slot_step_safe_witness:
  "held (resize 2 (pool example_slots)) \<le> 2 \<and> granted (resize 2 (pool example_slots)) = {8}"
  using slot_step_safe [OF example_slots_reach change_limit, of 2]
  by (simp add: resize_def served_def example_slots_def)

lemma served_prefix:
  assumes "distinct (xs @ w # ys @ w' # zs)" and "w' \<in> set (take k (xs @ w # ys @ w' # zs))"
  shows "w \<in> set (take k (xs @ w # ys @ w' # zs))"
proof (rule ccontr)
  assume "\<not> ?thesis"
  then have "k \<le> length xs"
    by (auto simp: take_append take_Cons' split: if_splits)
  then have "take k (xs @ w # ys @ w' # zs) = take k xs" by simp
  with assms show False by (auto dest: in_set_takeD)
qed

text \<open>Slots are granted first come first served: when a queued waiter holds a grant after a step, every
waiter that was ahead of it in the queue holds one too.\<close>

theorem slots_fifo:
  assumes "slot_reach n s" and step: "slot_step s e t"
    and q: "waiters (pool s) = xs @ w # ys @ w' # zs" and w': "w' \<in> granted (pool t)"
  shows "w \<in> granted (pool t)"
proof -
  have inv: "slot_inv s" using assms(1) by (rule slot_reach_inv)
  then have dist: "distinct (xs @ w # ys @ w' # zs)" and ng: "w' \<notin> granted (pool s)"
    using q by (auto simp: slot_inv_defs)
  have grow: "w \<in> granted (grant_locked p)"
    if "waiters p = waiters (pool s)" "granted p = granted (pool s)" "w' \<in> granted (grant_locked p)" for p
    using served_prefix [OF dist] that ng q by auto
  show ?thesis
    using step
  proof (cases rule: slot_step.cases)
    case (give_up v)
    with ng w' grow show ?thesis
      by (auto simp: abandon_def simp del: grant_locked_sel split: if_splits)
  next
    case (release_slot v)
    with w' grow show ?thesis by (auto simp: release_def simp del: grant_locked_sel)
  next
    case (change_limit m)
    with w' grow show ?thesis by (auto simp: resize_def simp del: grant_locked_sel)
  qed (use ng w' in \<open>auto simp: acquire_enter_def split: if_splits\<close>)
qed

theorem slots_fifo_witness: "8 \<in> granted (resize 3 (pool example_slots))"
proof -
  have "8 \<in> granted (pool (example_slots\<lparr>pool := resize 3 (pool example_slots)\<rparr>))"
  proof (rule slots_fifo [OF example_slots_reach change_limit])
    show "waiters (pool example_slots) = [] @ 8 # [] @ 9 # []" by (simp add: example_slots_def)
    show "9 \<in> granted (pool (example_slots\<lparr>pool := resize 3 (pool example_slots)\<rparr>))"
      by (simp add: example_slots_def resize_def served_def)
  qed
  then show ?thesis by simp
qed

end
