(* ===== verification/Manager.thy ===== *)
theory Manager
  imports SlotPool SyncTypes
begin

text \<open>
  The sync manager (\<open>gitsync/manager.go\<close>): bounded concurrency, at most one sync per repository, and
  triggers that arrive meanwhile folded into one trailing rerun. The connector's state behind the
  hooks is the type variable \<open>'c\<close>. A goroutine running \<open>runRepo\<close> is a runner, with the point it has
  reached; it is numbered by the waiter its next (or current) \<open>acquire\<close> uses. The step relation
  \<open>mgr_step\<close> interleaves the runners, the callers of the manager and, through \<open>other\<close>, everything else
  that changes the connector's state.
\<close>

section \<open>State and hooks\<close>

record 'c hooks =
  hk_syncable :: "repo_id \<Rightarrow> 'c \<Rightarrow> bool"
  hk_claim :: "repo_id \<Rightarrow> 'c \<Rightarrow> sync_task option \<times> 'c"
  hk_begin :: "repo_id \<Rightarrow> 'c \<Rightarrow> 'c"
  hk_started :: "repo_id \<Rightarrow> sync_task \<Rightarrow> gtime \<Rightarrow> 'c \<Rightarrow> 'c"
  hk_finish :: "repo_id \<Rightarrow> sync_task \<Rightarrow> sync_result \<Rightarrow> 'c \<Rightarrow> bool \<times> 'c"
  hk_release :: "repo_id \<Rightarrow> 'c \<Rightarrow> 'c"
  hk_suspended :: "'c \<Rightarrow> bool"
  hk_now :: "'c \<Rightarrow> gtime"

text \<open>
  Where a runner is: about to acquire a slot, queued for one, past the acquire, in \<open>syncRepo\<close> with its
  task, about to run the deferred release of its slot, or back in the loop of \<open>runRepo\<close>.
\<close>

datatype phase = Starting | Queued | Entered | Syncing (phase_task: sync_task) | Leaving | Deciding

record 'c manager =
  inflight :: "repo_id set"
  rerun :: "repo_id set"
  idle_closed :: bool
  runners :: "(nat, repo_id \<times> phase) fmap"
  fresh :: nat
  slot :: slot_sys
  hooked :: 'c
  ctx_done :: bool

definition new_manager :: "int \<Rightarrow> 'c \<Rightarrow> 'c manager" where
  "new_manager n c =
     \<lparr>inflight = {}, rerun = {}, idle_closed = True, runners = fmempty, fresh = 0,
      slot = init_slots (if n < 1 then 1 else n), hooked = c, ctx_done = False\<rparr>"

section \<open>Operations\<close>

text \<open>\<open>begin\<close> runs synchronously before the runner is spawned.\<close>

definition launch :: "'c hooks \<Rightarrow> repo_id \<Rightarrow> bool \<Rightarrow> 'c manager \<Rightarrow> bool \<times> 'c manager" where
  "launch h rid rerun_if_busy m =
     (if rid \<in> inflight m
      then (False, if rerun_if_busy then m\<lparr>rerun := insert rid (rerun m)\<rparr> else m)
      else
        (let m1 = (if inflight m = {} then m\<lparr>idle_closed := False\<rparr> else m)
         in (True, m1\<lparr>inflight := insert rid (inflight m1), hooked := hk_begin h rid (hooked m1),
                     runners := fmupd (fresh m1) (rid, Starting) (runners m1), fresh := fresh m1 + 1\<rparr>)))"

fun enqueue :: "'c hooks \<Rightarrow> repo_id list \<Rightarrow> 'c manager \<Rightarrow> 'c manager" where
  "enqueue h [] m = m"
| "enqueue h (rid # rids) m =
     (if \<not> hk_syncable h rid (hooked m) then enqueue h rids m
      else enqueue h rids (snd (launch h rid True m)))"

definition busy :: "repo_id \<Rightarrow> 'c manager \<Rightarrow> bool" where
  "busy rid m \<longleftrightarrow> rid \<in> inflight m"

definition enqueue_scheduled :: "'c hooks \<Rightarrow> repo_id \<Rightarrow> 'c manager \<Rightarrow> bool \<times> 'c manager" where
  "enqueue_scheduled h rid m =
     (if ctx_done m \<or> hk_suspended h (hooked m) \<or> busy rid m then (False, m)
      else if \<not> hk_syncable h rid (hooked m) then (False, m)
      else launch h rid False m)"

definition idle :: "'c manager \<Rightarrow> bool" where
  "idle m \<longleftrightarrow> inflight m = {}"

text \<open>\<open>runOnce\<close> from the point where the slot is held to the call of \<open>syncRepo\<close>.\<close>

definition enter :: "'c hooks \<Rightarrow> repo_id \<Rightarrow> 'c manager \<Rightarrow> phase \<times> 'c" where
  "enter h rid m =
     (let c = hooked m
      in if ctx_done m \<or> hk_suspended h c then (Leaving, hk_release h rid c)
         else (case hk_claim h rid c of
             (None, c1) \<Rightarrow> (Leaving, hk_release h rid c1)
           | (Some t, c1) \<Rightarrow> (Syncing t, hk_started h rid t (hk_now h c1) c1)))"

text \<open>The end of \<open>runOnce\<close>: the result, stamped with the attempt's start and duration, is handed over.\<close>

definition finish :: "'c hooks \<Rightarrow> repo_id \<Rightarrow> sync_task \<Rightarrow> sync_result \<Rightarrow> gtime \<Rightarrow> 'c \<Rightarrow> 'c" where
  "finish h rid t res start c =
     snd (hk_finish h rid t
       (res\<lparr>stats := (stats res)\<lparr>started_at := start, duration_of := time_sub (hk_now h c) start\<rparr>\<rparr>) c)"

definition remove_inflight :: "repo_id \<Rightarrow> 'c manager \<Rightarrow> 'c manager" where
  "remove_inflight rid m =
     (let m1 = m\<lparr>inflight := inflight m - {rid}\<rparr>
      in if inflight m1 = {} then m1\<lparr>idle_closed := True\<rparr> else m1)"

text \<open>The locked section of \<open>runRepo\<close> after a run, and the start of the rerun when there is one.\<close>

definition decide :: "'c hooks \<Rightarrow> nat \<Rightarrow> repo_id \<Rightarrow> 'c manager \<Rightarrow> 'c manager" where
  "decide h w rid m =
     (let again = (rid \<in> rerun m \<and> \<not> ctx_done m);
          m1 = m\<lparr>rerun := rerun m - {rid}, runners := fmdrop w (runners m)\<rparr>
      in if \<not> again then remove_inflight rid m1
         else m1\<lparr>hooked := hk_begin h rid (hooked m1), runners := fmupd (fresh m1) (rid, Starting) (runners m1),
                 fresh := fresh m1 + 1\<rparr>)"

definition set_phase :: "nat \<Rightarrow> repo_id \<Rightarrow> phase \<Rightarrow> 'c manager \<Rightarrow> 'c manager" where
  "set_phase w rid ph m = m\<lparr>runners := fmupd w (rid, ph) (runners m)\<rparr>"

section \<open>Interleavings\<close>

inductive mgr_step :: "'c hooks \<Rightarrow> ('c \<Rightarrow> 'c \<Rightarrow> bool) \<Rightarrow> 'c manager \<Rightarrow> 'c manager \<Rightarrow> bool"
  for h :: "'c hooks" and other :: "'c \<Rightarrow> 'c \<Rightarrow> bool" where
  trigger: "mgr_step h other m (enqueue h rids m)"
| scheduled: "mgr_step h other m (snd (enqueue_scheduled h rid m))"
| slot_now:
    "fmlookup (runners m) w = Some (rid, Starting) \<Longrightarrow> slot_step (slot m) (Acquire w) s \<Longrightarrow> w \<in> holding s \<Longrightarrow>
     mgr_step h other m (set_phase w rid Entered (m\<lparr>slot := s\<rparr>))"
| slot_later:
    "fmlookup (runners m) w = Some (rid, Starting) \<Longrightarrow> slot_step (slot m) (Acquire w) s \<Longrightarrow> w \<notin> holding s \<Longrightarrow>
     mgr_step h other m (set_phase w rid Queued (m\<lparr>slot := s\<rparr>))"
| woken:
    "fmlookup (runners m) w = Some (rid, Queued) \<Longrightarrow> slot_step (slot m) (Wake w) s \<Longrightarrow>
     mgr_step h other m (set_phase w rid Entered (m\<lparr>slot := s\<rparr>))"
| gave_up:
    "fmlookup (runners m) w = Some (rid, Queued) \<Longrightarrow> ctx_done m \<Longrightarrow> slot_step (slot m) (Abandon w) s \<Longrightarrow>
     mgr_step h other m (set_phase w rid Deciding (m\<lparr>slot := s, hooked := hk_release h rid (hooked m)\<rparr>))"
| entering:
    "fmlookup (runners m) w = Some (rid, Entered) \<Longrightarrow> enter h rid m = (ph, c) \<Longrightarrow>
     mgr_step h other m (set_phase w rid ph (m\<lparr>hooked := c\<rparr>))"
| finished:
    "fmlookup (runners m) w = Some (rid, Syncing t) \<Longrightarrow>
     mgr_step h other m (set_phase w rid Leaving (m\<lparr>hooked := finish h rid t res start (hooked m)\<rparr>))"
| leave:
    "fmlookup (runners m) w = Some (rid, Leaving) \<Longrightarrow> slot_step (slot m) (Release w) s \<Longrightarrow>
     mgr_step h other m (set_phase w rid Deciding (m\<lparr>slot := s\<rparr>))"
| deciding:
    "fmlookup (runners m) w = Some (rid, Deciding) \<Longrightarrow> mgr_step h other m (decide h w rid m)"
| resized: "slot_step (slot m) (Resize n) s \<Longrightarrow> mgr_step h other m (m\<lparr>slot := s\<rparr>)"
| shutdown: "mgr_step h other m (m\<lparr>ctx_done := True\<rparr>)"
| elsewhere: "other (hooked m) c \<Longrightarrow> mgr_step h other m (m\<lparr>hooked := c\<rparr>)"

inductive mgr_reach :: "'c hooks \<Rightarrow> ('c \<Rightarrow> 'c \<Rightarrow> bool) \<Rightarrow> int \<Rightarrow> 'c \<Rightarrow> 'c manager \<Rightarrow> bool"
  for h :: "'c hooks" and other :: "'c \<Rightarrow> 'c \<Rightarrow> bool" and n :: int and c :: 'c where
  fresh_manager: "mgr_reach h other n c (new_manager n c)"
| one_step: "mgr_reach h other n c m \<Longrightarrow> mgr_step h other m m' \<Longrightarrow> mgr_reach h other n c m'"

section \<open>The invariant\<close>

fun holds :: "phase \<Rightarrow> bool" where
  "holds Entered = True"
| "holds (Syncing t) = True"
| "holds Leaving = True"
| "holds _ = False"

definition at_phase :: "'c manager \<Rightarrow> (phase \<Rightarrow> bool) \<Rightarrow> nat set" where
  "at_phase m P = {w. \<exists>rid ph. fmlookup (runners m) w = Some (rid, ph) \<and> P ph}"

definition repos_of :: "(nat, repo_id \<times> phase) fmap \<Rightarrow> repo_id set" where
  "repos_of rs = {rid. \<exists>w ph. fmlookup rs w = Some (rid, ph)}"

lemma repos_of_same:
  assumes "fmlookup rs w = Some (rid, ph0)"
  shows "repos_of (fmupd w (rid, ph) rs) = repos_of rs"
proof (intro set_eqI iffI)
  fix i assume "i \<in> repos_of rs"
  then obtain u p where u: "fmlookup rs u = Some (i, p)" by (auto simp: repos_of_def)
  then have "\<exists>p. fmlookup (fmupd w (rid, ph) rs) u = Some (i, p)" using assms by (cases "u = w") auto
  then show "i \<in> repos_of (fmupd w (rid, ph) rs)" unfolding repos_of_def by blast
next
  fix i assume "i \<in> repos_of (fmupd w (rid, ph) rs)"
  then show "i \<in> repos_of rs" using assms by (auto simp: repos_of_def split: if_splits)
qed

lemma repos_of_new:
  assumes "fmlookup rs w = None"
  shows "repos_of (fmupd w (rid, ph) rs) = insert rid (repos_of rs)"
proof (intro set_eqI iffI)
  fix i assume "i \<in> insert rid (repos_of rs)"
  then obtain u p where "fmlookup (fmupd w (rid, ph) rs) u = Some (i, p)"
  proof
    assume "i = rid"
    then show ?thesis using that [of w ph] by simp
  next
    assume "i \<in> repos_of rs"
    then obtain u p where "fmlookup rs u = Some (i, p)" by (auto simp: repos_of_def)
    moreover from this assms have "u \<noteq> w" by auto
    ultimately show ?thesis using that [of u p] by simp
  qed
  then show "i \<in> repos_of (fmupd w (rid, ph) rs)" unfolding repos_of_def by blast
qed (auto simp: repos_of_def split: if_splits)

definition one_each :: "(nat, repo_id \<times> phase) fmap \<Rightarrow> bool" where
  "one_each rs \<longleftrightarrow>
     (\<forall>w w' rid ph ph'. fmlookup rs w = Some (rid, ph) \<longrightarrow> fmlookup rs w' = Some (rid, ph') \<longrightarrow> w = w')"

lemma one_eachD:
  "one_each rs \<Longrightarrow> fmlookup rs w = Some (rid, ph) \<Longrightarrow> fmlookup rs w' = Some (rid, ph') \<Longrightarrow> w = w'"
  unfolding one_each_def by blast

lemma one_each_same: "one_each rs \<Longrightarrow> fmlookup rs w = Some (rid, ph0) \<Longrightarrow> one_each (fmupd w (rid, ph) rs)"
  unfolding one_each_def by (metis fmupd_lookup option.inject prod.inject)

lemma one_each_new: "one_each rs \<Longrightarrow> rid \<notin> repos_of rs \<Longrightarrow> one_each (fmupd w (rid, ph) rs)"
  unfolding one_each_def repos_of_def mem_Collect_eq by (metis fmupd_lookup option.inject prod.inject)

lemma one_each_drop: "one_each rs \<Longrightarrow> one_each (fmdrop w rs)"
  unfolding one_each_def by (metis fmlookup_drop option.distinct(1))

lemma repos_of_drop:
  assumes "one_each rs" and "fmlookup rs w = Some (rid, ph)"
  shows "repos_of (fmdrop w rs) = repos_of rs - {rid}"
proof (intro set_eqI iffI)
  fix i assume "i \<in> repos_of (fmdrop w rs)"
  then obtain u p where u: "u \<noteq> w" "fmlookup rs u = Some (i, p)" by (auto simp: repos_of_def split: if_splits)
  moreover have "i \<noteq> rid" using one_eachD [OF assms, of u p] u by auto
  ultimately show "i \<in> repos_of rs - {rid}" by (auto simp: repos_of_def)
next
  fix i assume "i \<in> repos_of rs - {rid}"
  then obtain u p where "fmlookup rs u = Some (i, p)" "i \<noteq> rid" by (auto simp: repos_of_def)
  moreover from this assms(2) have "u \<noteq> w" by auto
  ultimately show "i \<in> repos_of (fmdrop w rs)" by (auto simp: repos_of_def)
qed

definition mgr_inv :: "'c manager \<Rightarrow> bool" where
  "mgr_inv m \<longleftrightarrow>
     slot_inv (slot m) \<and>
     holding (slot m) = at_phase m holds \<and>
     blocked (slot m) = at_phase m (\<lambda>ph. ph = Queued) \<and>
     slot_used (slot m) \<union> fmdom' (runners m) \<subseteq> {..<fresh m} \<and>
     inflight m = repos_of (runners m) \<and>
     one_each (runners m) \<and>
     rerun m \<subseteq> inflight m \<and>
     (idle_closed m \<longleftrightarrow> inflight m = {})"

lemma mgr_invD:
  assumes "mgr_inv m"
  shows "slot_inv (slot m)" "holding (slot m) = at_phase m holds"
    "blocked (slot m) = at_phase m (\<lambda>ph. ph = Queued)"
    "slot_used (slot m) \<subseteq> {..<fresh m}" "fmdom' (runners m) \<subseteq> {..<fresh m}"
    "inflight m = repos_of (runners m)"
    "rerun m \<subseteq> inflight m" "idle_closed m \<longleftrightarrow> inflight m = {}"
    "one_each (runners m)"
  using assms unfolding mgr_inv_def by blast+

lemma fresh_unused:
  assumes "mgr_inv m"
  shows "fmlookup (runners m) (fresh m) = None"
  using mgr_invD(5) [OF assms] by (metis fmdom'I lessThan_iff less_irrefl option.exhaust subsetD)

lemma at_phase_upd:
  "at_phase (m\<lparr>runners := fmupd w (rid, ph) (runners m)\<rparr>) P =
     (if P ph then insert w (at_phase m P) else at_phase m P - {w})"
  by (auto simp: at_phase_def)

lemma inv_set_phase:
  assumes inv: "mgr_inv m" and r: "fmlookup (runners m) w = Some (rid, ph0)" and ok: "slot_inv s"
    and used: "slot_used s \<subseteq> insert w (slot_used (slot m))"
    and hold: "holding s = (if holds ph then insert w (holding (slot m)) else holding (slot m) - {w})"
    and block: "blocked s = (if ph = Queued then insert w (blocked (slot m)) else blocked (slot m) - {w})"
  shows "mgr_inv (set_phase w rid ph (m\<lparr>slot := s, hooked := c\<rparr>))"
proof -
  have w: "w < fresh m" using mgr_invD(5) [OF inv] r by (auto dest: fmdom'I)
  show ?thesis
    unfolding mgr_inv_def
  proof (intro conjI, goal_cases)
    case 1
    show ?case using ok by (simp add: set_phase_def)
  next
    case 2
    show ?case using hold mgr_invD(2) [OF inv] by (simp add: set_phase_def at_phase_def) auto
  next
    case 3
    show ?case using block mgr_invD(3) [OF inv] by (simp add: set_phase_def at_phase_def) auto
  next
    case 4
    show ?case using used w mgr_invD(4,5) [OF inv] by (auto simp: set_phase_def)
  next
    case 5
    show ?case using mgr_invD(6) [OF inv] repos_of_same [OF r] by (simp add: set_phase_def)
  next
    case 6
    show ?case using one_each_same [OF mgr_invD(9) [OF inv] r] by (simp add: set_phase_def)
  next
    case 7
    show ?case using mgr_invD(7) [OF inv] by (simp add: set_phase_def)
  next
    case 8
    show ?case using mgr_invD(8) [OF inv] by (simp add: set_phase_def)
  qed
qed

lemma inv_spawn:
  assumes inv: "mgr_inv m" and new: "rid \<notin> inflight m" and rr: "rr \<subseteq> insert rid (inflight m)"
  shows "mgr_inv (m\<lparr>inflight := insert rid (inflight m), rerun := rr, idle_closed := False,
    runners := fmupd (fresh m) (rid, Starting) (runners m), fresh := Suc (fresh m), hooked := c\<rparr>)"
proof -
  note f = fresh_unused [OF inv]
  have ap: "at_phase (m\<lparr>inflight := insert rid (inflight m), rerun := rr, idle_closed := False,
      runners := fmupd (fresh m) (rid, Starting) (runners m), fresh := Suc (fresh m), hooked := c\<rparr>) P = at_phase m P"
    if "\<not> P Starting" for P
    using that f by (auto simp: at_phase_def)
  show ?thesis
    unfolding mgr_inv_def
  proof (intro conjI, goal_cases)
    case 2
    show ?case using mgr_invD(2) [OF inv] by (subst ap) simp_all
  next
    case 3
    show ?case using mgr_invD(3) [OF inv] by (subst ap) simp_all
  next
    case 4
    show ?case using mgr_invD(4,5) [OF inv] by auto
  next
    case 5
    show ?case using mgr_invD(6) [OF inv] repos_of_new [OF f] by simp
  next
    case 6
    show ?case using one_each_new [OF mgr_invD(9) [OF inv]] new mgr_invD(6) [OF inv] by simp
  qed (use mgr_invD(1) [OF inv] rr in simp_all)
qed

text \<open>A runner that ends without a rerun.\<close>

lemma inv_end_runner:
  assumes inv: "mgr_inv m" and r: "fmlookup (runners m) w = Some (rid, ph)"
    and ph: "\<not> holds ph" "ph \<noteq> Queued"
  shows "mgr_inv (m\<lparr>inflight := inflight m - {rid}, rerun := rerun m - {rid},
    idle_closed := (inflight m - {rid} = {}), runners := fmdrop w (runners m)\<rparr>)" (is "mgr_inv ?m")
proof -
  have ap: "at_phase ?m P = at_phase m P" if "\<not> P ph" for P
    using that r by (auto simp: at_phase_def)
  show ?thesis
    unfolding mgr_inv_def
  proof (intro conjI, goal_cases)
    case 2
    show ?case using mgr_invD(2) [OF inv] ph by (subst ap) simp_all
  next
    case 3
    show ?case using mgr_invD(3) [OF inv] ph by (subst ap) simp_all
  next
    case 4
    show ?case using mgr_invD(4,5) [OF inv] by auto
  next
    case 5
    show ?case using mgr_invD(6) [OF inv] repos_of_drop [OF mgr_invD(9) [OF inv] r] by simp
  next
    case 6
    show ?case using one_each_drop [OF mgr_invD(9) [OF inv]] by simp
  next
    case 7
    show ?case using mgr_invD(7) [OF inv] by auto
  qed (use mgr_invD(1) [OF inv] in simp_all)
qed

lemma mgr_inv_upd [simp]:
  "mgr_inv (m\<lparr>hooked := c\<rparr>) = mgr_inv m" "mgr_inv (m\<lparr>ctx_done := b\<rparr>) = mgr_inv m"
  by (simp_all add: mgr_inv_def at_phase_def)

lemma inv_rerun:
  assumes inv: "mgr_inv m" and "rr \<subseteq> inflight m"
  shows "mgr_inv (m\<lparr>rerun := rr\<rparr>)"
  using mgr_invD [OF inv] assms(2) unfolding mgr_inv_def at_phase_def by simp

lemma inv_launch:
  assumes inv: "mgr_inv m"
  shows "mgr_inv (snd (launch h rid b m))"
proof (cases "rid \<in> inflight m")
  case True
  have "mgr_inv (m\<lparr>rerun := insert rid (rerun m)\<rparr>)"
    using inv_rerun [OF inv] True mgr_invD(7) [OF inv] by simp
  with True inv show ?thesis by (simp add: launch_def)
next
  case False
  have eq: "snd (launch h rid b m) = m\<lparr>inflight := insert rid (inflight m), rerun := rerun m, idle_closed := False,
      runners := fmupd (fresh m) (rid, Starting) (runners m), fresh := Suc (fresh m), hooked := hk_begin h rid (hooked m)\<rparr>"
    using False mgr_invD(8) [OF inv] by (cases m) (simp add: launch_def Let_def)
  show ?thesis unfolding eq by (rule inv_spawn [OF inv False]) (use mgr_invD(7) [OF inv] in auto)
qed

lemma inv_enqueue: "mgr_inv m \<Longrightarrow> mgr_inv (enqueue h rids m)"
  by (induction rids arbitrary: m) (simp_all add: inv_launch)

lemma inv_scheduled: "mgr_inv m \<Longrightarrow> mgr_inv (snd (enqueue_scheduled h rid m))"
  using inv_launch [of m h rid False] by (simp add: enqueue_scheduled_def)

lemma inv_decide:
  assumes inv: "mgr_inv m" and r: "fmlookup (runners m) w = Some (rid, Deciding)"
  shows "mgr_inv (decide h w rid m)"
proof -
  have stop: "mgr_inv (m\<lparr>inflight := inflight m - {rid}, rerun := rerun m - {rid},
      idle_closed := (inflight m - {rid} = {}), runners := fmdrop w (runners m)\<rparr>)" (is "mgr_inv ?m")
    using inv_end_runner [OF inv r] by simp
  have rid: "rid \<in> inflight m" using r mgr_invD(6) [OF inv] by (auto simp: repos_of_def)
  show ?thesis
  proof (cases "rid \<in> rerun m \<and> \<not> ctx_done m")
    case False
    have "idle_closed m = (inflight m = {})" by (rule mgr_invD(8) [OF inv])
    with rid have "decide h w rid m = ?m"
      using False by (cases m) (auto simp: decide_def remove_inflight_def Let_def)
    with stop show ?thesis by simp
  next
    case True
    have eq: "decide h w rid m = ?m\<lparr>inflight := insert rid (inflight ?m), rerun := rerun ?m, idle_closed := False,
        runners := fmupd (fresh ?m) (rid, Starting) (runners ?m), fresh := Suc (fresh ?m),
        hooked := hk_begin h rid (hooked m)\<rparr>"
      using True rid mgr_invD(8) [OF inv] by (cases m) (auto simp: decide_def Let_def insert_absorb)
    show ?thesis unfolding eq by (rule inv_spawn [OF stop]) (use mgr_invD(7) [OF inv] in auto)
  qed
qed

lemma mgr_step_inv:
  assumes "mgr_step h other m m'" and inv: "mgr_inv m"
  shows "mgr_inv m'"
  using assms(1)
proof (cases rule: mgr_step.cases)
  case (trigger rids)
  with inv_enqueue [OF inv] show ?thesis by simp
next
  case (scheduled rid)
  with inv_scheduled [OF inv] show ?thesis by simp
next
  case (slot_now w rid s)
  note acq = sp.acquire_law [OF slot_now(3)] sp.holds_or_waits [OF slot_now(3)]
  have "mgr_inv (set_phase w rid Entered (m\<lparr>slot := s, hooked := hooked m\<rparr>))"
    using acq slot_now(4) sp.ok_step [OF mgr_invD(1) [OF inv] slot_now(3)]
    by (intro inv_set_phase [OF inv slot_now(2)]) auto
  with slot_now show ?thesis by simp
next
  case (slot_later w rid s)
  note acq = sp.acquire_law [OF slot_later(3)] sp.holds_or_waits [OF slot_later(3)]
  have "mgr_inv (set_phase w rid Queued (m\<lparr>slot := s, hooked := hooked m\<rparr>))"
    using acq slot_later(4) sp.ok_step [OF mgr_invD(1) [OF inv] slot_later(3)]
    by (intro inv_set_phase [OF inv slot_later(2)]) auto
  with slot_later show ?thesis by simp
next
  case (woken w rid s)
  have "mgr_inv (set_phase w rid Entered (m\<lparr>slot := s, hooked := hooked m\<rparr>))"
    using sp.wake_law [OF woken(3)] sp.ok_step [OF mgr_invD(1) [OF inv] woken(3)]
    by (intro inv_set_phase [OF inv woken(2)]) auto
  with woken show ?thesis by simp
next
  case (gave_up w rid s)
  have "w \<notin> holding (slot m)"
    using gave_up(2) mgr_invD(2) [OF inv] by (simp add: at_phase_def)
  then show ?thesis
    using sp.abandon_law [OF mgr_invD(1) [OF inv] gave_up(4)]
      sp.ok_step [OF mgr_invD(1) [OF inv] gave_up(4)] gave_up(1)
    by (auto intro!: inv_set_phase [OF inv gave_up(2)])
next
  case (entering w rid ph c)
  have hold: "w \<in> holding (slot m)" and block: "w \<notin> blocked (slot m)"
    using entering(2) mgr_invD(2,3) [OF inv] by (auto simp: at_phase_def)
  have ph: "holds ph" "ph \<noteq> Queued"
    using entering(3) by (auto simp: enter_def Let_def split: if_splits option.splits prod.splits)
  have "mgr_inv (set_phase w rid ph (m\<lparr>slot := slot m, hooked := c\<rparr>))"
    using hold block ph mgr_invD(1) [OF inv] by (intro inv_set_phase [OF inv entering(2)]) auto
  with entering show ?thesis by simp
next
  case (finished w rid t res start)
  have hold: "w \<in> holding (slot m)" and block: "w \<notin> blocked (slot m)"
    using finished(2) mgr_invD(2,3) [OF inv] by (auto simp: at_phase_def)
  have "mgr_inv (set_phase w rid Leaving (m\<lparr>slot := slot m, hooked := finish h rid t res start (hooked m)\<rparr>))"
    using hold block mgr_invD(1) [OF inv] by (intro inv_set_phase [OF inv finished(2)]) auto
  with finished show ?thesis by simp
next
  case (leave w rid s)
  have "w \<notin> blocked (slot m)"
    using leave(2) mgr_invD(3) [OF inv] by (simp add: at_phase_def)
  then have "mgr_inv (set_phase w rid Deciding (m\<lparr>slot := s, hooked := hooked m\<rparr>))"
    using sp.release_law [OF mgr_invD(1) [OF inv] leave(3)] sp.ok_step [OF mgr_invD(1) [OF inv] leave(3)]
    by (intro inv_set_phase [OF inv leave(2)]) auto
  with leave show ?thesis by simp
next
  case (deciding w rid)
  with inv_decide [OF inv] show ?thesis by simp
next
  case (resized n s)
  then show ?thesis
    using inv sp.resize_law [OF mgr_invD(1) [OF inv] resized(2)] sp.ok_step [OF mgr_invD(1) [OF inv] resized(2)]
    by (auto simp: mgr_inv_def at_phase_def)
qed (use inv in simp_all)

lemma mgr_reach_inv: "mgr_reach h other n c m \<Longrightarrow> mgr_inv m"
proof (induction rule: mgr_reach.induct)
  case fresh_manager
  show ?case
    by (simp add: new_manager_def mgr_inv_def at_phase_def slot_inv_init init_slots_def slot_used_def
        new_slot_pool_def repos_of_def one_each_def)
      (simp add: slot_inv_defs)
qed (auto intro: mgr_step_inv)

section \<open>Properties of the manager\<close>

definition syncing_runners :: "'c manager \<Rightarrow> nat set" where
  "syncing_runners m = at_phase m (\<lambda>ph. \<exists>t. ph = Syncing t)"

lemma syncing_hold: "mgr_inv m \<Longrightarrow> syncing_runners m \<subseteq> holding (slot m)"
  using mgr_invD(2) [of m] by (auto simp: syncing_runners_def at_phase_def)

lemma launch_slot [simp]: "slot (snd (launch h rid b m)) = slot m"
  by (simp add: launch_def Let_def)

lemma enqueue_slot [simp]: "slot (enqueue h rids m) = slot m"
  by (induction rids arbitrary: m) simp_all

lemma scheduled_slot [simp]: "slot (snd (enqueue_scheduled h rid m)) = slot m"
  by (simp add: enqueue_scheduled_def)

lemma decide_slot [simp]: "slot (decide h w rid m) = slot m"
  by (simp add: decide_def remove_inflight_def Let_def)

lemma mgr_step_slot:
  "mgr_step h other m m' \<Longrightarrow> slot m' = slot m \<or> (\<exists>e. slot_step (slot m) e (slot m'))"
  by (induction rule: mgr_step.induct) (auto simp: set_phase_def)

text \<open>C11. Under every interleaving there is at most one runner per repository, the in-flight set is
exactly the repositories with a runner, a rerun is pending only for those, and the idle channel is
closed exactly when there are none.\<close>

theorem one_sync_per_repository:
  assumes "mgr_reach h other n c m"
  shows "(\<forall>w w' rid ph ph'. fmlookup (runners m) w = Some (rid, ph) \<longrightarrow>
      fmlookup (runners m) w' = Some (rid, ph') \<longrightarrow> w = w') \<and>
    inflight m = repos_of (runners m) \<and> rerun m \<subseteq> inflight m \<and>
    (idle_closed m \<longleftrightarrow> fmdom' (runners m) = {})"
proof -
  have inv: "mgr_inv m" using assms by (rule mgr_reach_inv)
  have "repos_of (runners m) = {} \<longleftrightarrow> fmdom' (runners m) = {}"
    by (force simp: repos_of_def fmlookup_dom'_iff)
  then show ?thesis
    using mgr_invD(6,7,8) [OF inv] one_eachD [OF mgr_invD(9) [OF inv]] by blast
qed

text \<open>The number of syncs in progress is bounded by the slots held; no step raises it above the larger of
the previous count and the limit in force.\<close>

theorem concurrency_bounded:
  assumes r: "mgr_reach h other n c m" and s: "mgr_step h other m m'"
  shows "int (card (syncing_runners m)) \<le> held (pool (slot m)) \<and>
    int (card (syncing_runners m')) \<le> max (held (pool (slot m))) (limit (pool (slot m')))"
proof -
  have inv: "mgr_inv m" using r by (rule mgr_reach_inv)
  have inv': "mgr_inv m'" using s inv by (rule mgr_step_inv)
  note b = sp.running_bounded [OF mgr_invD(1) [OF inv] syncing_hold [OF inv]]
  from mgr_step_slot [OF s] show ?thesis
  proof
    assume "slot m' = slot m"
    with b sp.running_bounded [OF mgr_invD(1) [OF inv'] syncing_hold [OF inv']] show ?thesis by simp
  next
    assume "\<exists>e. slot_step (slot m) e (slot m')"
    then obtain e where "slot_step (slot m) e (slot m')" by blast
    from b sp.running_drains [OF mgr_invD(1) [OF inv] this syncing_hold [OF inv']] show ?thesis by simp
  qed
qed

text \<open>
  A repository is covered when a sync of it that has not resolved its task yet is on the way: what it
  will claim is what is configured when it does.
\<close>

definition covered :: "'c manager \<Rightarrow> repo_id \<Rightarrow> bool" where
  "covered m rid \<longleftrightarrow> rid \<in> rerun m \<or>
     (\<exists>w ph. fmlookup (runners m) w = Some (rid, ph) \<and> ph \<in> {Starting, Queued, Entered})"

lemma covered_runner:
  "fmlookup (runners m) w = Some (rid, ph) \<Longrightarrow> ph \<in> {Starting, Queued, Entered} \<Longrightarrow> covered m rid"
  unfolding covered_def by blast

lemma covered_rerun: "rid \<in> rerun m \<Longrightarrow> covered m rid"
  unfolding covered_def by blast

lemma coveredE:
  assumes "covered m rid"
  obtains "rid \<in> rerun m"
  | w ph where "fmlookup (runners m) w = Some (rid, ph)" "ph \<in> {Starting, Queued, Entered}"
  using assms unfolding covered_def by blast

lemma launch_covers:
  assumes "mgr_inv m" and "hk_syncable h rid (hooked m)"
  shows "covered (snd (launch h rid True m)) rid"
  using assms by (auto simp: launch_def Let_def covered_def)

lemma launch_keeps:
  assumes inv: "mgr_inv m" and cov: "covered m i"
  shows "covered (snd (launch h rid b m)) i"
proof (cases "rid \<in> inflight m")
  case True
  with cov show ?thesis by (auto simp: launch_def covered_def)
next
  case False
  from cov show ?thesis
  proof (cases rule: coveredE)
    case 1
    with False show ?thesis by (simp add: launch_def Let_def covered_def)
  next
    case (2 w ph)
    then have "w \<noteq> fresh m" using fresh_unused [OF inv] by auto
    with 2 False show ?thesis by (intro covered_runner [of _ w i ph]) (simp_all add: launch_def Let_def)
  qed
qed

lemma enqueue_keeps: "mgr_inv m \<Longrightarrow> covered m i \<Longrightarrow> covered (enqueue h rids m) i"
  by (induction rids arbitrary: m) (simp_all add: inv_launch launch_keeps)

lemma scheduled_keeps: "mgr_inv m \<Longrightarrow> covered m i \<Longrightarrow> covered (snd (enqueue_scheduled h rid m)) i"
  by (simp add: enqueue_scheduled_def launch_keeps)

text \<open>Moving one runner to another uncommitted phase, or any other runner, keeps a repository covered.\<close>

lemma set_phase_keeps:
  assumes cov: "covered m i" and r: "fmlookup (runners m) w = Some (rid, ph0)"
    and ph: "ph \<in> {Starting, Queued, Entered} \<or> ph0 \<notin> {Starting, Queued, Entered} \<or> i \<noteq> rid"
  shows "covered (set_phase w rid ph (m\<lparr>slot := s, hooked := c\<rparr>)) i"
  using cov
proof (cases rule: coveredE)
  case 1
  then show ?thesis by (intro covered_rerun) (simp add: set_phase_def)
next
  case (2 u p)
  show ?thesis
  proof (cases "u = w")
    case True
    with 2 r ph have "i = rid" "ph \<in> {Starting, Queued, Entered}" by auto
    then show ?thesis by (intro covered_runner [of _ w i ph]) (simp_all add: set_phase_def)
  next
    case False
    with 2 show ?thesis by (intro covered_runner [of _ u i p]) (simp_all add: set_phase_def)
  qed
qed

lemma decide_keeps:
  assumes inv: "mgr_inv m" and cov: "covered m i" and r: "fmlookup (runners m) w = Some (rid, Deciding)"
    and run: "\<not> ctx_done m"
  shows "covered (decide h w rid m) i"
proof (cases "i = rid")
  case True
  from cov have "rid \<in> rerun m"
  proof (cases rule: coveredE)
    case 1
    with True show ?thesis by simp
  next
    case (2 u p)
    with True one_eachD [OF mgr_invD(9) [OF inv] r] r show ?thesis by auto
  qed
  with True run show ?thesis
    by (intro covered_runner [of _ "fresh m" i Starting]) (simp_all add: decide_def Let_def)
next
  case False
  from cov show ?thesis
  proof (cases rule: coveredE)
    case 1
    with False show ?thesis by (intro covered_rerun) (simp add: decide_def Let_def remove_inflight_def)
  next
    case (2 u p)
    have "u \<noteq> w" using 2 r by auto
    moreover have "u \<noteq> fresh m" using 2(1) fresh_unused [OF inv] by auto
    ultimately show ?thesis
      using 2 by (intro covered_runner [of _ u i p]) (simp_all add: decide_def Let_def remove_inflight_def)
  qed
qed

lemma step_keeps:
  assumes step: "mgr_step h other m m'" and inv: "mgr_inv m" and cov: "covered m i" and run: "\<not> ctx_done m'"
  shows "covered m' i \<or>
    (\<exists>w ph c. fmlookup (runners m) w = Some (i, Entered) \<and> enter h i m = (ph, c) \<and>
       m' = set_phase w i ph (m\<lparr>hooked := c\<rparr>))"
  using step
proof (cases rule: mgr_step.cases)
  case (trigger rids)
  with enqueue_keeps [OF inv cov] show ?thesis by simp
next
  case (scheduled rid)
  with scheduled_keeps [OF inv cov] show ?thesis by simp
next
  case (slot_now w rid s)
  with set_phase_keeps [OF cov slot_now(2), where ph = Entered and s = s and c = "hooked m"] show ?thesis by simp
next
  case (slot_later w rid s)
  with set_phase_keeps [OF cov slot_later(2), where ph = Queued and s = s and c = "hooked m"] show ?thesis by simp
next
  case (woken w rid s)
  with set_phase_keeps [OF cov woken(2), where ph = Entered and s = s and c = "hooked m"] show ?thesis by simp
next
  case (gave_up w rid s)
  with run show ?thesis by (simp add: set_phase_def)
next
  case (entering w rid ph c)
  show ?thesis
  proof (cases "i = rid")
    case True
    with entering show ?thesis by blast
  next
    case False
    with entering set_phase_keeps [OF cov entering(2), where ph = ph and s = "slot m" and c = c] show ?thesis by simp
  qed
next
  case (finished w rid t res start)
  with set_phase_keeps [OF cov finished(2), where ph = Leaving and s = "slot m"] show ?thesis by simp
next
  case (leave w rid s)
  with set_phase_keeps [OF cov leave(2), where ph = Deciding and s = s and c = "hooked m"] show ?thesis by simp
next
  case (deciding w rid)
  have "ctx_done (decide h w rid m) = ctx_done m" by (simp add: decide_def remove_inflight_def Let_def)
  with deciding run decide_keeps [OF inv cov] show ?thesis by simp
next
  case (resized n s)
  then have "covered m' i" using cov by (simp add: covered_def)
  then show ?thesis ..
next
  case shutdown
  with run show ?thesis by simp
next
  case (elsewhere c)
  then have "covered m' i" using cov by (simp add: covered_def)
  then show ?thesis ..
qed

text \<open>C34. A trigger for a syncable repository is never lost: from then on, until shutdown, a sync that
has not resolved its task yet is on the way, up to the step that claims the task from the then
current state.\<close>

theorem no_trigger_lost:
  assumes r: "mgr_reach h other n c m" and sync: "hk_syncable h rid (hooked m)"
  defines "m0 \<equiv> enqueue h [rid] m"
  shows "covered m0 rid \<and>
    (\<forall>m1 m2. mgr_reach h other n c m1 \<longrightarrow> covered m1 rid \<longrightarrow> mgr_step h other m1 m2 \<longrightarrow> \<not> ctx_done m2 \<longrightarrow>
       covered m2 rid \<or>
       (\<exists>w ph c1. fmlookup (runners m1) w = Some (rid, Entered) \<and> enter h rid m1 = (ph, c1) \<and>
          m2 = set_phase w rid ph (m1\<lparr>hooked := c1\<rparr>)))"
proof -
  have inv: "mgr_inv m" using r by (rule mgr_reach_inv)
  have "covered m0 rid" using launch_covers [OF inv sync] sync by (simp add: m0_def)
  then show ?thesis
    by (intro conjI allI impI) (simp, rule step_keeps [OF _ mgr_reach_inv])
qed

end
