(* ===== verification/Connector.thy ===== *)
theory Connector
  imports EngineSafety Manager
begin

text \<open>
  The manager wired to the connector's state, as \<open>NewClient\<close> wires them (\<open>gitsync/client.go\<close>): the
  hooks of theory Manager are the operations of theory Engine. The composition refines the state
  machine of theory EngineSafety, so what holds of every run of that machine holds of the connector.
\<close>

record world =
  cl :: client
  clock :: gtime
  rand_stream :: draws

definition client_sync_hooks :: "go_lib \<Rightarrow> world hooks" where
  "client_sync_hooks lib =
     \<lparr>hk_syncable = (\<lambda>rid v. syncable rid (cl v)),
      hk_claim = (\<lambda>rid v. case claim_task lib (clock v) rid (cl v) of (t, c) \<Rightarrow> (t, v\<lparr>cl := c\<rparr>)),
      hk_begin = (\<lambda>rid v. v\<lparr>cl := begin_sync rid (cl v)\<rparr>),
      hk_started = (\<lambda>rid t u v. v\<lparr>cl := start_attempt rid t u (cl v)\<rparr>),
      hk_finish = (\<lambda>rid t res v. case finish_and_reschedule rid t res (clock v) (rand_stream v) (cl v) of
                     (kept, c) \<Rightarrow> (kept, v\<lparr>cl := c\<rparr>)),
      hk_release = (\<lambda>rid v. v\<lparr>cl := release_sync rid (cl v)\<rparr>),
      hk_suspended = (\<lambda>v. critical_patch (cl v)),
      hk_now = clock\<rparr>"

text \<open>What else changes the client: everything but claiming, starting and finishing attempts.\<close>

fun outside :: "engine_event \<Rightarrow> bool" where
  "outside (EClaim rid now) = False"
| "outside (EStart t u) = False"
| "outside (EFinish t res now w) = False"
| "outside _ = True"

definition client_moves :: "go_lib \<Rightarrow> world \<Rightarrow> world \<Rightarrow> bool" where
  "client_moves lib v v' \<longleftrightarrow>
     (\<exists>e. outside e \<and> cl v' = eng (engine_step lib \<lparr>eng = cl v, running = {}\<rparr> e)) \<or> cl v' = cl v"

definition connector_reach ::
  "go_lib \<Rightarrow> string \<Rightarrow> (string \<times> local_entry) list option \<Rightarrow> (repo_id, run_record) fmap \<Rightarrow> gtime \<Rightarrow> draws \<Rightarrow>
   world manager \<Rightarrow> bool" where
  "connector_reach lib raw_pin st loaded t0 w m \<longleftrightarrow>
     mgr_reach (client_sync_hooks lib) (client_moves lib) default_sync_concurrency
       \<lparr>cl = eng (init_engine lib raw_pin st loaded), clock = t0, rand_stream = w\<rparr> m"

definition tasks :: "world manager \<Rightarrow> sync_task set" where
  "tasks m = {t. \<exists>w rid. fmlookup (runners m) w = Some (rid, Syncing t)}"

section \<open>Refinement\<close>

text \<open>The manager's steps are sequences of engine events with the same client and the same running tasks.\<close>

definition refines :: "go_lib \<Rightarrow> engine \<Rightarrow> world manager \<Rightarrow> bool" where
  "refines lib s m \<longleftrightarrow> eng s = cl (hooked m) \<and> running s = tasks m \<and>
     (\<forall>w rid t. fmlookup (runners m) w = Some (rid, Syncing t) \<longrightarrow> task_repo t = rid)"

lemma tasksI: "fmlookup (runners m) w = Some (rid, Syncing t) \<Longrightarrow> t \<in> tasks m"
  unfolding tasks_def by blast

lemma tasksE:
  assumes "t \<in> tasks m"
  obtains w rid where "fmlookup (runners m) w = Some (rid, Syncing t)"
  using assms unfolding tasks_def by blast

lemma tasks_set_phase:
  assumes "one_each (runners m)" and r: "fmlookup (runners m) w = Some (rid, ph0)"
    and inj: "\<forall>w rid t. fmlookup (runners m) w = Some (rid, Syncing t) \<longrightarrow> task_repo t = rid"
  shows "tasks (set_phase w rid ph (m\<lparr>slot := s, hooked := c\<rparr>)) =
    (tasks m - {t. ph0 = Syncing t}) \<union> {t. ph = Syncing t}"
proof -
  have other: "w' \<noteq> w" if "fmlookup (runners m) w' = Some (i, Syncing t)" "ph0 \<noteq> Syncing t" for w' i t
    using that r by auto
  have same: "w' = w" if "fmlookup (runners m) w' = Some (i, Syncing t)" "ph0 = Syncing t" for w' i t
  proof -
    have "i = rid" using inj that r by metis
    with that one_eachD [OF assms(1)] r show ?thesis by blast
  qed
  show ?thesis
  proof (intro set_eqI iffI)
    fix t assume "t \<in> tasks (set_phase w rid ph (m\<lparr>slot := s, hooked := c\<rparr>))"
    then obtain u i where "fmlookup (fmupd w (rid, ph) (runners m)) u = Some (i, Syncing t)"
      by (auto simp: tasks_def set_phase_def)
    then show "t \<in> (tasks m - {t. ph0 = Syncing t}) \<union> {t. ph = Syncing t}"
      using same by (cases "u = w") (auto simp: tasks_def)
  next
    fix t assume "t \<in> (tasks m - {t. ph0 = Syncing t}) \<union> {t. ph = Syncing t}"
    then show "t \<in> tasks (set_phase w rid ph (m\<lparr>slot := s, hooked := c\<rparr>))"
    proof
      assume "t \<in> tasks m - {t. ph0 = Syncing t}"
      then obtain u i where u: "fmlookup (runners m) u = Some (i, Syncing t)" "ph0 \<noteq> Syncing t"
        by (auto simp: tasks_def)
      with other have "fmlookup (fmupd w (rid, ph) (runners m)) u = Some (i, Syncing t)" by auto
      then show ?thesis by (intro tasksI [where w = u and rid = i]) (simp add: set_phase_def)
    next
      assume "t \<in> {t. ph = Syncing t}"
      then have "fmlookup (fmupd w (rid, ph) (runners m)) w = Some (rid, Syncing t)" by simp
      then show ?thesis by (intro tasksI [where w = w and rid = rid]) (simp add: set_phase_def)
    qed
  qed
qed

lemma tasks_new:
  assumes "fmlookup (runners m) w = None" and "runners m' = fmupd w (rid, Starting) (runners m)"
  shows "tasks m' = tasks m"
proof (intro set_eqI iffI)
  fix t assume "t \<in> tasks m'"
  with assms(2) show "t \<in> tasks m" by (auto simp: tasks_def split: if_splits)
next
  fix t assume "t \<in> tasks m"
  then obtain u i where u: "fmlookup (runners m) u = Some (i, Syncing t)" by (rule tasksE)
  with assms(1) have "u \<noteq> w" by auto
  with u assms(2) show "t \<in> tasks m'" by (intro tasksI [where w = u and rid = i]) simp
qed

lemma tasks_drop:
  assumes "fmlookup (runners m) w = Some (rid, Deciding)" and "runners m' = fmdrop w (runners m)"
  shows "tasks m' = tasks m"
proof (intro set_eqI iffI)
  fix t assume "t \<in> tasks m'"
  with assms(2) show "t \<in> tasks m" by (auto simp: tasks_def split: if_splits)
next
  fix t assume "t \<in> tasks m"
  then obtain u i where u: "fmlookup (runners m) u = Some (i, Syncing t)" by (rule tasksE)
  with assms(1) have "u \<noteq> w" by auto
  with u assms(2) show "t \<in> tasks m'" by (intro tasksI [where w = u and rid = i]) simp
qed

lemma outside_running: "outside e \<Longrightarrow> running (engine_step lib s e) = running s"
  by (cases e) (auto split: option.splits)

lemma outside_eng: "outside e \<Longrightarrow> eng (engine_step lib s e) = eng (engine_step lib (s\<lparr>running := R\<rparr>) e)"
  by (cases e) (auto split: option.splits)

definition reachable_from :: "go_lib \<Rightarrow> engine \<Rightarrow> world manager \<Rightarrow> bool" where
  "reachable_from lib s m \<longleftrightarrow> (\<exists>es. refines lib (run (engine_step lib) s es) m)"

lemma reachable_now: "refines lib s m \<Longrightarrow> reachable_from lib s m"
  unfolding reachable_from_def by (rule exI [of _ "[]"]) simp

lemma reachable_step: "reachable_from lib (engine_step lib s e) m \<Longrightarrow> reachable_from lib s m"
  unfolding reachable_from_def by (metis run.simps(2))

lemma reachable_trans:
  assumes "reachable_from lib s m" and "\<And>s'. refines lib s' m \<Longrightarrow> reachable_from lib s' m'"
  shows "reachable_from lib s m'"
  using assms unfolding reachable_from_def by (metis run_append)

lemma refinesI:
  assumes "eng s = cl (hooked m)" and "running s = tasks m"
    and "\<And>w rid t. fmlookup (runners m) w = Some (rid, Syncing t) \<Longrightarrow> task_repo t = rid"
  shows "refines lib s m"
  using assms unfolding refines_def by blast

lemma refinesD:
  assumes "refines lib s m"
  shows "eng s = cl (hooked m)" "running s = tasks m"
    "fmlookup (runners m) w = Some (rid, Syncing t) \<Longrightarrow> task_repo t = rid"
  using assms unfolding refines_def by blast+

lemma refines_at_repo:
  "refines lib s m \<Longrightarrow> \<forall>w rid t. fmlookup (runners m) w = Some (rid, Syncing t) \<longrightarrow> task_repo t = rid"
  unfolding refines_def by blast

text \<open>A runner moves between phases; the client changes to that of the engine.\<close>

lemma refines_set_phase:
  assumes inv: "mgr_inv m" and ref: "refines lib s m"
    and r: "fmlookup (runners m) w = Some (rid, ph0)" and e: "eng s' = cl c"
    and run: "running s' = (running s - {t. ph0 = Syncing t}) \<union> {t. ph = Syncing t}"
    and ph: "\<And>t. ph = Syncing t \<Longrightarrow> task_repo t = rid"
  shows "refines lib s' (set_phase w rid ph (m\<lparr>slot := sl, hooked := c\<rparr>))"
proof (rule refinesI)
  show "eng s' = cl (hooked (set_phase w rid ph (m\<lparr>slot := sl, hooked := c\<rparr>)))"
    using e by (simp add: set_phase_def)
  show "running s' = tasks (set_phase w rid ph (m\<lparr>slot := sl, hooked := c\<rparr>))"
    using run refinesD(2) [OF ref] tasks_set_phase [OF mgr_invD(9) [OF inv] r refines_at_repo [OF ref]] by simp
  fix u i t assume "fmlookup (runners (set_phase w rid ph (m\<lparr>slot := sl, hooked := c\<rparr>))) u = Some (i, Syncing t)"
  then show "task_repo t = i"
    using ph refinesD(3) [OF ref, of u i t] by (auto simp: set_phase_def split: if_splits)
qed

lemma reach_launch:
  assumes inv: "mgr_inv m" and ref: "refines lib s m"
  shows "reachable_from lib s (snd (launch (client_sync_hooks lib) rid b m))"
proof (cases "rid \<in> inflight m")
  case True
  then have "runners (snd (launch (client_sync_hooks lib) rid b m)) = runners m"
    "hooked (snd (launch (client_sync_hooks lib) rid b m)) = hooked m" by (simp_all add: launch_def)
  with ref show ?thesis by (intro reachable_now) (simp add: refines_def tasks_def)
next
  case False
  let ?m = "snd (launch (client_sync_hooks lib) rid b m)"
  have m: "runners ?m = fmupd (fresh m) (rid, Starting) (runners m)"
    "cl (hooked ?m) = begin_sync rid (cl (hooked m))"
    using False by (simp_all add: launch_def Let_def client_sync_hooks_def)
  have "refines lib (engine_step lib s (EBegin rid)) ?m"
  proof (rule refinesI)
    show "eng (engine_step lib s (EBegin rid)) = cl (hooked ?m)" using m refinesD(1) [OF ref] by simp
    show "running (engine_step lib s (EBegin rid)) = tasks ?m"
      using tasks_new [OF fresh_unused [OF inv] m(1)] refinesD(2) [OF ref] by simp
    fix w i t assume "fmlookup (runners ?m) w = Some (i, Syncing t)"
    with refinesD(3) [OF ref] show "task_repo t = i" by (simp add: m(1) split: if_splits)
  qed
  then show ?thesis by (rule reachable_step [OF reachable_now])
qed

lemma reach_enqueue:
  "mgr_inv m \<Longrightarrow> refines lib s m \<Longrightarrow> reachable_from lib s (enqueue (client_sync_hooks lib) rids m)"
proof (induction rids arbitrary: m s)
  case Nil
  then show ?case by (simp add: reachable_now)
next
  case (Cons rid rids)
  show ?case
  proof (cases "hk_syncable (client_sync_hooks lib) rid (hooked m)")
    case True
    then show ?thesis
      using reachable_trans [OF reach_launch [OF Cons.prems] Cons.IH [OF inv_launch [OF Cons.prems(1)]]] by simp
  next
    case False
    with Cons show ?thesis by simp
  qed
qed

lemma claim_task_repo: "claim_task lib now rid c = (Some t, c') \<Longrightarrow> task_repo t = rid"
  by (auto simp: claim_task_def task_of_def Let_def split: option.splits if_splits prod.splits)

lemma reach_enter:
  assumes inv: "mgr_inv m" and ref: "refines lib s m"
    and r: "fmlookup (runners m) w = Some (rid, Entered)"
    and ent: "enter (client_sync_hooks lib) rid m = (ph, c)"
  shows "reachable_from lib s (set_phase w rid ph (m\<lparr>slot := slot m, hooked := c\<rparr>))"
proof (cases "ctx_done m \<or> critical_patch (cl (hooked m))")
  case True
  then have "ph = Leaving" "cl c = release_sync rid (cl (hooked m))"
    using ent by (auto simp: enter_def client_sync_hooks_def Let_def)
  then have "refines lib (engine_step lib s (ERelease rid)) (set_phase w rid ph (m\<lparr>slot := slot m, hooked := c\<rparr>))"
    using refinesD(1) [OF ref] by (intro refines_set_phase [OF inv ref r]) auto
  then show ?thesis by (rule reachable_step [OF reachable_now])
next
  case False
  obtain res c1 where claim: "claim_task lib (clock (hooked m)) rid (cl (hooked m)) = (res, c1)" by (metis surj_pair)
  show ?thesis
  proof (cases res)
    case None
    with ent False claim have ph: "ph = Leaving" "cl c = release_sync rid c1"
      by (auto simp: enter_def client_sync_hooks_def Let_def)
    let ?s = "engine_step lib (engine_step lib s (EClaim rid (clock (hooked m)))) (ERelease rid)"
    have "refines lib ?s (set_phase w rid ph (m\<lparr>slot := slot m, hooked := c\<rparr>))"
      using refinesD(1) [OF ref] claim None ph by (intro refines_set_phase [OF inv ref r]) auto
    then show ?thesis
      by (rule reachable_step [OF reachable_step [OF reachable_now]])
  next
    case (Some t)
    with ent False claim have ph: "ph = Syncing t" "cl c = start_attempt rid t (clock (hooked m)) c1"
      by (auto simp: enter_def client_sync_hooks_def Let_def)
    have t: "task_repo t = rid" using claim Some claim_task_repo by blast
    let ?s = "engine_step lib (engine_step lib s (EClaim rid (clock (hooked m)))) (EStart t (clock (hooked m)))"
    have "refines lib ?s (set_phase w rid ph (m\<lparr>slot := slot m, hooked := c\<rparr>))"
      using refinesD(1) [OF ref] claim Some ph t by (intro refines_set_phase [OF inv ref r]) auto
    then show ?thesis
      by (rule reachable_step [OF reachable_step [OF reachable_now]])
  qed
qed

lemma reach_finished:
  assumes inv: "mgr_inv m" and ref: "refines lib s m"
    and r: "fmlookup (runners m) w = Some (rid, Syncing t)"
  shows "reachable_from lib s
    (set_phase w rid Leaving (m\<lparr>slot := slot m, hooked := finish (client_sync_hooks lib) rid t res start (hooked m)\<rparr>))"
proof -
  let ?v = "hooked m"
  let ?res = "res\<lparr>stats := (stats res)\<lparr>started_at := start, duration_of := time_sub (clock ?v) start\<rparr>\<rparr>"
  let ?e = "EFinish t ?res (clock ?v) (rand_stream ?v)"
  have t: "task_repo t = rid" using refinesD(3) [OF ref r] .
  have mem: "t \<in> running s" using refinesD(2) [OF ref] tasksI [OF r] by simp
  have c: "cl (finish (client_sync_hooks lib) rid t res start ?v) =
      snd (finish_and_reschedule rid t ?res (clock ?v) (rand_stream ?v) (cl ?v))"
    by (simp add: finish_def client_sync_hooks_def split: prod.splits)
  have "refines lib (engine_step lib s ?e)
    (set_phase w rid Leaving (m\<lparr>slot := slot m, hooked := finish (client_sync_hooks lib) rid t res start ?v\<rparr>))"
  proof (rule refines_set_phase [OF inv ref r])
    show "eng (engine_step lib s ?e) = cl (finish (client_sync_hooks lib) rid t res start ?v)"
      using c t mem refinesD(1) [OF ref] by simp
    show "running (engine_step lib s ?e) = (running s - {t'. Syncing t = Syncing t'}) \<union> {t. Leaving = Syncing t}"
      using mem by auto
  qed simp
  then show ?thesis by (rule reachable_step [OF reachable_now])
qed

lemma reach_decide:
  assumes inv: "mgr_inv m" and ref: "refines lib s m"
    and r: "fmlookup (runners m) w = Some (rid, Deciding)"
  shows "reachable_from lib s (decide (client_sync_hooks lib) w rid m)"
proof -
  let ?d = "decide (client_sync_hooks lib) w rid m"
  let ?m1 = "m\<lparr>runners := fmdrop w (runners m)\<rparr>"
  have t1: "tasks ?m1 = tasks m" by (rule tasks_drop [OF r]) simp
  show ?thesis
  proof (cases "rid \<in> rerun m \<and> \<not> ctx_done m")
    case True
    have d: "runners ?d = fmupd (fresh m) (rid, Starting) (runners ?m1)" "cl (hooked ?d) = begin_sync rid (cl (hooked m))"
      using True by (simp_all add: decide_def Let_def client_sync_hooks_def)
    have "fmlookup (runners ?m1) (fresh m) = None" using fresh_unused [OF inv] by simp
    from tasks_new [OF this d(1)] t1 have t: "tasks ?d = tasks m" by simp
    have "refines lib (engine_step lib s (EBegin rid)) ?d"
    proof (rule refinesI)
      show "eng (engine_step lib s (EBegin rid)) = cl (hooked ?d)" using d refinesD(1) [OF ref] by simp
      show "running (engine_step lib s (EBegin rid)) = tasks ?d" using t refinesD(2) [OF ref] by simp
      fix u i t assume "fmlookup (runners ?d) u = Some (i, Syncing t)"
      with refinesD(3) [OF ref] show "task_repo t = i" by (simp add: d(1) split: if_splits)
    qed
    then show ?thesis by (rule reachable_step [OF reachable_now])
  next
    case False
    then have d: "runners ?d = fmdrop w (runners m)" "hooked ?d = hooked m"
      by (auto simp: decide_def Let_def remove_inflight_def)
    have "refines lib s ?d"
    proof (rule refinesI)
      show "eng s = cl (hooked ?d)" using d refinesD(1) [OF ref] by simp
      show "running s = tasks ?d" using tasks_drop [OF r d(1)] refinesD(2) [OF ref] by simp
      fix u i t assume "fmlookup (runners ?d) u = Some (i, Syncing t)"
      with refinesD(3) [OF ref] show "task_repo t = i" by (simp add: d(1) split: if_splits)
    qed
    then show ?thesis by (rule reachable_now)
  qed
qed

lemma refines_same:
  assumes "refines lib s m" and "runners m' = runners m" and "cl (hooked m') = cl (hooked m)"
  shows "refines lib s m'"
  using assms by (simp add: refines_def tasks_def)

lemma reach_mgr_step:
  assumes "mgr_step (client_sync_hooks lib) (client_moves lib) m m'" and inv: "mgr_inv m" and ref: "refines lib s m"
  shows "reachable_from lib s m'"
  using assms(1)
proof (cases rule: mgr_step.cases)
  case (trigger rids)
  with reach_enqueue [OF inv ref] show ?thesis by simp
next
  case (scheduled rid)
  with reach_launch [OF inv ref] reachable_now [OF ref] show ?thesis by (simp add: enqueue_scheduled_def)
next
  case (slot_now w rid sl)
  have "refines lib s (set_phase w rid Entered (m\<lparr>slot := sl, hooked := hooked m\<rparr>))"
    using refinesD(1) [OF ref] by (intro refines_set_phase [OF inv ref slot_now(2)]) auto
  with slot_now show ?thesis by (auto intro: reachable_now)
next
  case (slot_later w rid sl)
  have "refines lib s (set_phase w rid Queued (m\<lparr>slot := sl, hooked := hooked m\<rparr>))"
    using refinesD(1) [OF ref] by (intro refines_set_phase [OF inv ref slot_later(2)]) auto
  with slot_later show ?thesis by (auto intro: reachable_now)
next
  case (woken w rid sl)
  have "refines lib s (set_phase w rid Entered (m\<lparr>slot := sl, hooked := hooked m\<rparr>))"
    using refinesD(1) [OF ref] by (intro refines_set_phase [OF inv ref woken(2)]) auto
  with woken show ?thesis by (auto intro: reachable_now)
next
  case (gave_up w rid sl)
  have "refines lib (engine_step lib s (ERelease rid)) m'"
    unfolding gave_up(1) using refinesD(1) [OF ref]
    by (intro refines_set_phase [OF inv ref gave_up(2)]) (auto simp: client_sync_hooks_def)
  then show ?thesis by (rule reachable_step [OF reachable_now])
next
  case (entering w rid ph c)
  with reach_enter [OF inv ref entering(2,3)] show ?thesis by simp
next
  case (finished w rid t res start)
  with reach_finished [OF inv ref finished(2)] show ?thesis by simp
next
  case (leave w rid sl)
  have "refines lib s (set_phase w rid Deciding (m\<lparr>slot := sl, hooked := hooked m\<rparr>))"
    using refinesD(1) [OF ref] by (intro refines_set_phase [OF inv ref leave(2)]) auto
  with leave show ?thesis by (auto intro: reachable_now)
next
  case (deciding w rid)
  with reach_decide [OF inv ref] show ?thesis by simp
next
  case (resized n sl)
  with refines_same [OF ref] show ?thesis by (auto intro: reachable_now)
next
  case shutdown
  with refines_same [OF ref] show ?thesis by (auto intro: reachable_now)
next
  case (elsewhere c)
  show ?thesis
  proof (cases "cl c = cl (hooked m)")
    case True
    with elsewhere refines_same [OF ref, of m'] show ?thesis by (auto intro: reachable_now)
  next
    case False
    then obtain e where e: "outside e" "cl c = eng (engine_step lib \<lparr>eng = cl (hooked m), running = {}\<rparr> e)"
      using elsewhere(2) unfolding client_moves_def by blast
    have s: "s\<lparr>running := {}\<rparr> = \<lparr>eng = cl (hooked m), running = {}\<rparr>" using refinesD(1) [OF ref] by (cases s) simp
    have "refines lib (engine_step lib s e) m'"
      unfolding elsewhere(1)
    proof (rule refinesI)
      show "eng (engine_step lib s e) = cl (hooked (m\<lparr>hooked := c\<rparr>))"
        using outside_eng [OF e(1), of lib s "{}"] e(2) s by simp
      show "running (engine_step lib s e) = tasks (m\<lparr>hooked := c\<rparr>)"
        using outside_running [OF e(1)] refinesD(2) [OF ref] by (simp add: tasks_def)
      fix w rid t assume "fmlookup (runners (m\<lparr>hooked := c\<rparr>)) w = Some (rid, Syncing t)"
      then show "task_repo t = rid" using refinesD(3) [OF ref] by simp
    qed
    then show ?thesis by (rule reachable_step [OF reachable_now])
  qed
qed

text \<open>Every reachable connector, with the engine events behind it.\<close>

lemma reach_refines:
  assumes "connector_reach lib raw_pin st loaded t0 w m"
  shows "\<exists>es. refines lib (engine_after lib raw_pin st loaded es) m"
  using assms unfolding connector_reach_def
proof (induction rule: mgr_reach.induct)
  case fresh_manager
  let ?s = "init_engine lib raw_pin st loaded"
  have "refines lib ?s (new_manager default_sync_concurrency \<lparr>cl = eng ?s, clock = t0, rand_stream = w\<rparr>)"
    by (rule refinesI) (simp_all add: new_manager_def tasks_def init_engine_def)
  then show ?case unfolding engine_after_def by (intro exI [of _ "[]"]) simp
next
  case (one_step m m')
  then obtain es where es: "refines lib (engine_after lib raw_pin st loaded es) m" by blast
  have "mgr_inv m" using one_step(1) by (rule mgr_reach_inv)
  from reach_mgr_step [OF one_step(2) this es] obtain es' where
    "refines lib (run (engine_step lib) (engine_after lib raw_pin st loaded es) es') m'"
    unfolding reachable_from_def by blast
  then show ?case unfolding engine_after_def by (intro exI [of _ "es @ es'"]) simp
qed

text \<open>C10. The manager running on the connector state refines the state machine of theory EngineSafety:
every reachable connector state is reached by a sequence of its events, with the same running tasks.\<close>

theorem connector_refines_engine:
  assumes "connector_reach lib raw_pin st loaded t0 w m"
  shows "\<exists>es. eng (engine_after lib raw_pin st loaded es) = cl (hooked m) \<and>
    running (engine_after lib raw_pin st loaded es) = tasks m"
  using reach_refines [OF assms] refinesD(1,2) by blast

text \<open>In the composed system the registered attempts are exactly the syncs in progress, each with its own
sequence number (so the stale branch of endAttemptLocked is never taken), each cancelled or holding
the credential configured now, and a sync about to claim never finds its repository taken.\<close>

theorem attempts_are_running_syncs:
  assumes "connector_reach lib raw_pin st loaded t0 w m"
  shows "fmdom' (attempts (cl (hooked m))) = {rid. \<exists>u t. fmlookup (runners m) u = Some (rid, Syncing t)} \<and>
    (\<forall>u rid t. fmlookup (runners m) u = Some (rid, Syncing t) \<longrightarrow>
       (\<exists>a. fmlookup (attempts (cl (hooked m))) rid = Some a \<and> at_seq a = attempt_seq t \<and> at_bind a = task_bind t \<and>
          snd (fst (end_attempt rid (attempt_seq t) (cl (hooked m)))) = False \<and>
          (at_cancelled a \<or> credential_current lib (providers (cl (hooked m))) t))) \<and>
    (\<forall>u rid. fmlookup (runners m) u = Some (rid, Entered) \<longrightarrow> fmlookup (attempts (cl (hooked m))) rid = None)"
proof -
  obtain es where ref: "refines lib (engine_after lib raw_pin st loaded es) m" using reach_refines [OF assms] by blast
  let ?s = "engine_after lib raw_pin st loaded es"
  have inv: "engine_inv lib ?s" by (rule engine_after_inv)
  have m: "mgr_inv m" using assms unfolding connector_reach_def by (rule mgr_reach_inv)
  have c: "eng ?s = cl (hooked m)" and run: "running ?s = tasks m" using refinesD(1,2) [OF ref] by simp_all
  have dom: "fmdom' (attempts (cl (hooked m))) = {rid. \<exists>u t. fmlookup (runners m) u = Some (rid, Syncing t)}"
  proof -
    have "fmdom' (attempts (cl (hooked m))) = task_repo ` tasks m" using inv c run by (simp add: engine_inv_def)
    also have "\<dots> = {rid. \<exists>u t. fmlookup (runners m) u = Some (rid, Syncing t)}"
    proof (intro set_eqI iffI)
      fix rid assume "rid \<in> task_repo ` tasks m"
      then obtain t u i where "fmlookup (runners m) u = Some (i, Syncing t)" "rid = task_repo t" by (auto elim: tasksE)
      with refinesD(3) [OF ref] show "rid \<in> {rid. \<exists>u t. fmlookup (runners m) u = Some (rid, Syncing t)}" by blast
    next
      fix rid assume "rid \<in> {rid. \<exists>u t. fmlookup (runners m) u = Some (rid, Syncing t)}"
      then obtain u t where "fmlookup (runners m) u = Some (rid, Syncing t)" by blast
      with refinesD(3) [OF ref] tasksI show "rid \<in> task_repo ` tasks m" by (metis imageI)
    qed
    finally show ?thesis .
  qed
  moreover have "\<exists>a. fmlookup (attempts (cl (hooked m))) rid = Some a \<and> at_seq a = attempt_seq t \<and>
      at_bind a = task_bind t \<and> snd (fst (end_attempt rid (attempt_seq t) (cl (hooked m)))) = False \<and>
      (at_cancelled a \<or> credential_current lib (providers (cl (hooked m))) t)"
    if r: "fmlookup (runners m) u = Some (rid, Syncing t)" for u rid t
  proof -
    have t: "task_repo t = rid" using refinesD(3) [OF ref r] .
    have "t \<in> running ?s" using run tasksI [OF r] by simp
    then have "task_ok lib (cl (hooked m)) t" using inv c by (simp add: engine_inv_def)
    then obtain a where a: "fmlookup (attempts (cl (hooked m))) rid = Some a" "at_seq a = attempt_seq t"
      "at_bind a = task_bind t" "at_superseded a \<or> credential_current lib (providers (cl (hooked m))) t"
      unfolding task_ok_def t by blast
    have "attempt_ok (cl (hooked m)) a" using attempts_ok_look [OF inv] a(1) c by simp
    with a show ?thesis by (intro exI [of _ a]) (auto simp: attempt_ok_def end_attempt_def)
  qed
  moreover have "fmlookup (attempts (cl (hooked m))) rid = None"
    if r: "fmlookup (runners m) u = Some (rid, Entered)" for u rid
  proof (rule ccontr)
    assume "fmlookup (attempts (cl (hooked m))) rid \<noteq> None"
    then have "rid \<in> fmdom' (attempts (cl (hooked m)))" by (auto simp: fmlookup_dom'_iff)
    then obtain v t where v: "fmlookup (runners m) v = Some (rid, Syncing t)" using dom by blast
    with one_eachD [OF mgr_invD(9) [OF m] r v] r show False by simp
  qed
  ultimately show ?thesis by blast
qed

section \<open>A connector at work\<close>

text \<open>A configuration with one repository has been applied and its first sync is running.\<close>

lemma demo_connector:
  "\<exists>m. connector_reach demo_lib ''git.example:443'' (Some [(''corp'', demo_local tok)]) fmempty 0 (\<lambda>_. Fin 0) m \<and>
     fmlookup (runners m) 0 = Some (''r1'', Syncing (demo_task tok)) \<and> \<not> ctx_done m \<and>
     syncable ''r1'' (cl (hooked m)) \<and>
     providers (cl (hooked m)) = demo_set tok 1 \<and> limit (pool (slot m)) = 4 \<and> held (pool (slot m)) = 1"
proof -
  let ?R = "connector_reach demo_lib ''git.example:443'' (Some [(''corp'', demo_local tok)]) fmempty 0 (\<lambda>_. Fin 0)"
  let ?h = "client_sync_hooks demo_lib"
  note c = demo_configured [of tok]
  let ?i = "init_engine demo_lib ''git.example:443'' (Some [(''corp'', demo_local tok)]) fmempty"
  define v where "v = \<lparr>cl = eng ?i, clock = 0, rand_stream = (\<lambda>_. Fin 0)\<rparr>"
  define m0 where "m0 = new_manager default_sync_concurrency v"
  define m1 where "m1 = m0\<lparr>hooked := v\<lparr>cl := demo_client tok\<rparr>\<rparr>"
  define m2 where "m2 = enqueue ?h [''r1''] m1"
  define sl where "sl = (slot m2)\<lparr>pool := snd (acquire_enter 0 (pool (slot m2))), holding := insert 0 (holding (slot m2))\<rparr>"
  define m3 where "m3 = set_phase 0 ''r1'' Entered (m2\<lparr>slot := sl\<rparr>)"
  have reach: "?R m \<Longrightarrow> mgr_step ?h (client_moves demo_lib) m m' \<Longrightarrow> ?R m'" for m m'
    unfolding connector_reach_def by (rule mgr_reach.one_step)
  have "?R m0" unfolding connector_reach_def m0_def v_def by (rule mgr_reach.fresh_manager)
  moreover have "mgr_step ?h (client_moves demo_lib) m0 m1"
  proof -
    have i: "\<lparr>eng = cl (hooked m0), running = {}\<rparr> = ?i"
      by (simp add: m0_def new_manager_def v_def init_engine_def)
    have "client_moves demo_lib (hooked m0) (v\<lparr>cl := demo_client tok\<rparr>)"
      unfolding client_moves_def i
      by (intro disjI1 exI [of _ "EConfig demo_wire"]) (simp add: demo_client_def engine_after_def)
    then show ?thesis unfolding m1_def by (rule mgr_step.elsewhere)
  qed
  ultimately have "?R m1" by (rule reach)
  moreover have "mgr_step ?h (client_moves demo_lib) m1 m2" unfolding m2_def by (rule mgr_step.trigger)
  ultimately have r2: "?R m2" by (rule reach)
  have "syncable ''r1'' (demo_client tok)"
    using c by (simp add: syncable_def can_sync_def demo_bound_def demo_repo_def)
  then have m2: "runners m2 = fmupd 0 (''r1'', Starting) fmempty" "cl (hooked m2) = begin_sync ''r1'' (demo_client tok)"
    "clock (hooked m2) = 0" "\<not> ctx_done m2" "slot m2 = init_slots 4"
    by (simp_all add: m2_def m1_def m0_def v_def new_manager_def launch_def Let_def client_sync_hooks_def
        default_sync_concurrency_def)
  have b: "fmlookup (repos (begin_sync ''r1'' (demo_client tok))) ''r1'' = Some (demo_bound\<lparr>rs_syncing := True\<rparr>)"
    "critical_patch (begin_sync ''r1'' (demo_client tok)) = critical_patch (demo_client tok)"
    using c by (simp_all add: begin_sync_def set_syncing_def Let_def)
  obtain sc where claim: "claim_task demo_lib 0 ''r1'' (begin_sync ''r1'' (demo_client tok)) =
      (Some (demo_task tok), (begin_sync ''r1'' (demo_client tok))\<lparr>cl_attempt_seq := 1,
        attempts := fmupd ''r1'' \<lparr>at_seq = 1, at_bind = Binding ''corp'' 1, at_cancelled = False,
          at_superseded = False\<rparr> fmempty, sched := sc\<rparr>)"
    using demo_claim [OF b(1), of tok 0] c by (auto simp: begin_sync_def set_syncing_def Let_def)
  have acq: "acquire_enter 0 (pool (init_slots 4)) = (True, (pool (init_slots 4))\<lparr>held := 1\<rparr>)"
    by (simp add: acquire_enter_def init_slots_def new_slot_pool_def)
  have "slot_step (slot m2) (Acquire 0) sl"
    unfolding sl_def m2 by (rule slot_step.intros(1)) (use acq in \<open>simp_all add: init_slots_def acquire_enter_def new_slot_pool_def\<close>)
  then have "mgr_step ?h (client_moves demo_lib) m2 m3"
    unfolding m3_def by (intro mgr_step.slot_now) (simp_all add: m2 sl_def)
  with r2 have r3: "?R m3" by (rule reach)
  have m3: "fmlookup (runners m3) 0 = Some (''r1'', Entered)" "hooked m3 = hooked m2" "\<not> ctx_done m3"
    "limit (pool (slot m3)) = 4" "held (pool (slot m3)) = 1"
    using m2 by (simp_all add: m3_def set_phase_def sl_def acq) (simp add: init_slots_def new_slot_pool_def)
  define d where "d = snd (enter ?h ''r1'' m3)"
  have e: "enter ?h ''r1'' m3 = (Syncing (demo_task tok), d)"
    using c m2 m3 b(2) by (simp add: enter_def d_def Let_def client_sync_hooks_def claim)
  let ?m = "set_phase 0 ''r1'' (Syncing (demo_task tok)) (m3\<lparr>hooked := d\<rparr>)"
  have "mgr_step ?h (client_moves demo_lib) m3 ?m" using m3(1) e by (rule mgr_step.entering)
  with r3 have "?R ?m" by (rule reach)
  moreover have "syncable ''r1'' (cl d) \<and> providers (cl d) = demo_set tok 1"
  proof -
    have d: "cl d = start_attempt ''r1'' (demo_task tok) 0 ((begin_sync ''r1'' (demo_client tok))\<lparr>cl_attempt_seq := 1,
        attempts := fmupd ''r1'' \<lparr>at_seq = 1, at_bind = Binding ''corp'' 1, at_cancelled = False,
          at_superseded = False\<rparr> fmempty, sched := sc\<rparr>)"
      using c m2 m3 b(2) by (simp add: enter_def d_def Let_def client_sync_hooks_def claim)
    have "providers (begin_sync ''r1'' (demo_client tok)) = demo_set tok 1"
      using c by (simp add: begin_sync_def set_syncing_def Let_def)
    with b(1) show ?thesis
      unfolding d by (simp add: start_attempt_def syncable_def can_sync_def demo_bound_def demo_repo_def)
  qed
  ultimately show ?thesis
    using m3 by (intro exI [of _ ?m]) (simp add: set_phase_def)
qed

theorem connector_refines_engine_witness:
  "\<exists>m es. demo_task ''s3cr3t'' \<in> tasks m \<and>
     demo_task ''s3cr3t'' \<in> running (engine_after demo_lib ''git.example:443'' (Some [(''corp'', demo_local ''s3cr3t'')]) fmempty es)"
proof -
  obtain m where m: "connector_reach demo_lib ''git.example:443'' (Some [(''corp'', demo_local ''s3cr3t'')]) fmempty 0 (\<lambda>_. Fin 0) m"
    "fmlookup (runners m) 0 = Some (''r1'', Syncing (demo_task ''s3cr3t''))" using demo_connector by blast
  from connector_refines_engine [OF m(1)] tasksI [OF m(2)] show ?thesis by metis
qed

theorem attempts_are_running_syncs_witness:
  "\<exists>m :: world manager. fmlookup (runners m) 0 = Some (''r1'', Syncing (demo_task ''s3cr3t'')) \<and>
     fmdom' (attempts (cl (hooked m))) \<noteq> {}"
proof -
  obtain m where m: "connector_reach demo_lib ''git.example:443'' (Some [(''corp'', demo_local ''s3cr3t'')]) fmempty 0 (\<lambda>_. Fin 0) m"
    "fmlookup (runners m) 0 = Some (''r1'', Syncing (demo_task ''s3cr3t''))" using demo_connector by blast
  from attempts_are_running_syncs [OF m(1)] m(2) have "''r1'' \<in> fmdom' (attempts (cl (hooked m)))" by blast
  with m(2) show ?thesis by blast
qed

text \<open>The manager's theorems at the same state.\<close>

theorem one_sync_per_repository_witness:
  "\<exists>m :: world manager. fmlookup (runners m) 0 = Some (''r1'', Syncing (demo_task ''s3cr3t'')) \<and> \<not> idle_closed m"
proof -
  obtain m where m: "connector_reach demo_lib ''git.example:443'' (Some [(''corp'', demo_local ''s3cr3t'')]) fmempty 0 (\<lambda>_. Fin 0) m"
    "fmlookup (runners m) 0 = Some (''r1'', Syncing (demo_task ''s3cr3t''))" using demo_connector by blast
  from m(2) have "fmdom' (runners m) \<noteq> {}" by auto
  with one_sync_per_repository [OF m(1) [unfolded connector_reach_def]] m(2) show ?thesis by blast
qed

theorem concurrency_bounded_witness:
  "\<exists>m m'. mgr_step (client_sync_hooks demo_lib) (client_moves demo_lib) m m' \<and>
     int (card (syncing_runners m')) \<le> 4"
proof -
  obtain m where m: "connector_reach demo_lib ''git.example:443'' (Some [(''corp'', demo_local ''s3cr3t'')]) fmempty 0 (\<lambda>_. Fin 0) m"
    "limit (pool (slot m)) = 4" "held (pool (slot m)) = 1" using demo_connector by blast
  have s: "mgr_step (client_sync_hooks demo_lib) (client_moves demo_lib) m (m\<lparr>ctx_done := True\<rparr>)"
    by (rule mgr_step.shutdown)
  from concurrency_bounded [OF m(1) [unfolded connector_reach_def] s] m(2,3)
  have "int (card (syncing_runners (m\<lparr>ctx_done := True\<rparr>))) \<le> 4" by simp
  with s show ?thesis by blast
qed

text \<open>A trigger while the repository syncs leaves it covered.\<close>

theorem no_trigger_lost_witness:
  "\<exists>m. fmlookup (runners m) 0 = Some (''r1'', Syncing (demo_task ''s3cr3t'')) \<and>
     covered (enqueue (client_sync_hooks demo_lib) [''r1''] m) ''r1''"
proof -
  obtain m where m: "connector_reach demo_lib ''git.example:443'' (Some [(''corp'', demo_local ''s3cr3t'')]) fmempty 0 (\<lambda>_. Fin 0) m"
    "fmlookup (runners m) 0 = Some (''r1'', Syncing (demo_task ''s3cr3t''))" "syncable ''r1'' (cl (hooked m))"
    using demo_connector by blast
  have "hk_syncable (client_sync_hooks demo_lib) ''r1'' (hooked m)" using m(3) by (simp add: client_sync_hooks_def)
  from no_trigger_lost [OF m(1) [unfolded connector_reach_def] this] m(2) show ?thesis by blast
qed

end
