(* ===== verification/StatusReport.thy ===== *)
theory StatusReport
  imports Engine Coalesce
begin

text \<open>
  The status the connector reports (\<open>buildStatus\<close> and \<open>runStatus\<close> of \<open>gitsync/status.go\<close>), from one
  consistent view of the connector's state, and its sequence numbers (\<open>sendStatus\<close>, which holds
  \<open>statusMu\<close> while it builds and sends). Rendering a time is Go's and a parameter.
\<close>

record time_format =
  tf_nano :: "gtime \<Rightarrow> string"
  tf_seconds :: "gtime \<Rightarrow> string"
  tf_parse :: "string \<Rightarrow> gtime option"

record repo_status =
  st_repo_id :: string
  st_state :: string
  st_default_branch :: string
  st_last_attempt_at :: "string option"
  st_last_success_at :: "string option"
  st_duration_ms :: "int option"
  st_refs_pushed :: "int option"
  st_newest_commit_at :: "string option"
  st_error_type :: string
  st_error_detail :: string
  st_warnings :: "string list"

record status_msg =
  sm_config_version :: "string option"
  sm_earliest_expiry :: "string option"
  sm_sent_at :: string
  sm_sequence :: nat
  sm_boot_id :: string
  sm_origin_check :: "origin_check option"
  sm_repositories :: "repo_status list"
  sm_config_error :: "(string option \<times> string) option"
  sm_suspended :: string

definition rfc3339_seconds :: "time_format \<Rightarrow> gtime \<Rightarrow> string option" where
  "rfc3339_seconds tf t = (if is_zero_time t then None else Some (tf_seconds tf t))"

definition parse_expiry_at :: "time_format \<Rightarrow> string \<Rightarrow> gtime option" where
  "parse_expiry_at tf s = (if s = [] then None else tf_parse tf s)"

definition run_status :: "time_format \<Rightarrow> repo_id \<Rightarrow> run_record \<Rightarrow> gtime \<Rightarrow> repo_status" where
  "run_status tf rid rec in_flight_since =
     \<lparr>st_repo_id = rid, st_state = [], st_default_branch = origin_default_branch rec,
      st_last_attempt_at = rfc3339_seconds tf (if \<not> is_zero_time in_flight_since then in_flight_since else last_attempt_at rec),
      st_last_success_at = rfc3339_seconds tf (last_success_at rec),
      st_duration_ms = duration_ms rec, st_refs_pushed = rr_refs_pushed rec,
      st_newest_commit_at = rfc3339_seconds tf (newest_origin_commit_at rec),
      st_error_type = [], st_error_detail = [], st_warnings = []\<rparr>"

definition host_not_configured :: string where
  "host_not_configured = ''host not configured locally''"

definition repo_status_of :: "time_format \<Rightarrow> (repo_id, run_record) fmap \<Rightarrow> repo_state \<Rightarrow> repo_status" where
  "repo_status_of tf rns r =
     (let st = run_status tf (rs_repo_id r) (fm_or rns (rs_repo_id r) no_record) (rs_attempt_started_at r)
      in if \<not> rs_matched r
         then st\<lparr>st_state := state_string StateError, st_error_type := error_string OriginAccessDenied,
                 st_error_detail := host_not_configured\<rparr>
         else if rs_syncing r
         then (let st1 = st\<lparr>st_state := state_string StateSyncing\<rparr>
               in if res_state (rs_result r) = StateOK then st1\<lparr>st_warnings := warnings (rs_result r)\<rparr> else st1)
         else if res_state (rs_result r) \<noteq> StateNone
         then st\<lparr>st_state := state_string (res_state (rs_result r)), st_error_type := error_string (error_type (rs_result r)),
                 st_error_detail := error_detail (rs_result r), st_warnings := warnings (rs_result r)\<rparr>
         else st\<lparr>st_state := state_string StatePending\<rparr>)"

definition earlier :: "gtime option \<Rightarrow> gtime option \<Rightarrow> gtime option" where
  "earlier t e =
     (case t of
        None \<Rightarrow> e
      | Some a \<Rightarrow> (case e of None \<Rightarrow> Some a | Some b \<Rightarrow> if a < b then Some a else Some b))"

text \<open>The configured repositories in the order of the report.\<close>

definition snapshot :: "client \<Rightarrow> repo_state list" where
  "snapshot c = sort_key rs_repo_id (map (\<lambda>rid. the (fmlookup (repos c) rid)) (sorted_keys (repos c)))"

definition build_status :: "time_format \<Rightarrow> string \<Rightarrow> gtime \<Rightarrow> nat \<Rightarrow> client \<Rightarrow> status_msg" where
  "build_status tf boot now sq c =
     \<lparr>sm_config_version = config_version c,
      sm_earliest_expiry =
        map_option (tf_seconds tf) (fold (\<lambda>r. earlier (parse_expiry_at tf (rs_expires_at r))) (snapshot c) None),
      sm_sent_at = tf_nano tf now, sm_sequence = sq, sm_boot_id = boot,
      sm_origin_check = origin_check c,
      sm_repositories = map (repo_status_of tf (runs c)) (snapshot c),
      sm_config_error = config_err c,
      sm_suspended = (if critical_patch c then ''critical_update_required'' else [])\<rparr>"

text \<open>\<open>sendStatus\<close>: the counter is drawn while \<open>statusMu\<close> is held, so the statuses go out in its order.\<close>

definition send_status :: "time_format \<Rightarrow> string \<Rightarrow> gtime \<Rightarrow> client \<Rightarrow> nat \<Rightarrow> status_msg \<times> nat" where
  "send_status tf boot now c sq = (build_status tf boot now (sq + 1) c, sq + 1)"

section \<open>What a status says\<close>

lemma set_snapshot: "set (snapshot c) = fmran' (repos c)"
proof
  show "set (snapshot c) \<subseteq> fmran' (repos c)"
    by (auto simp: snapshot_def fmlookup_dom'_iff intro: fmran'I)
  show "fmran' (repos c) \<subseteq> set (snapshot c)"
  proof
    fix r assume "r \<in> fmran' (repos c)"
    then obtain rid where "fmlookup (repos c) rid = Some r" by (rule fmran'E)
    then show "r \<in> set (snapshot c)"
      by (auto simp: snapshot_def fmlookup_dom'_iff intro!: image_eqI [of _ _ rid])
  qed
qed

lemma run_status_id: "st_repo_id (repo_status_of tf rns r) = rs_repo_id r"
  by (simp add: repo_status_of_def run_status_def Let_def)

definition expiries :: "time_format \<Rightarrow> client \<Rightarrow> gtime set" where
  "expiries tf c = {t. \<exists>r. r \<in> fmran' (repos c) \<and> parse_expiry_at tf (rs_expires_at r) = Some t}"

lemma fold_earlier:
  "fold (\<lambda>r. earlier (f r)) rs e =
     (let S = {t. e = Some t} \<union> {t. \<exists>r\<in>set rs. f r = Some t} in if S = {} then None else Some (Min S))"
proof (induction rs arbitrary: e)
  case Nil
  show ?case by (cases e) auto
next
  case (Cons r rs)
  let ?T = "{t. \<exists>r\<in>set rs. f r = Some t}"
  have fin: "finite ?T"
    by (rule finite_surj [of "set rs" _ "\<lambda>r. the (f r)"]) force+
  have "{t. earlier (f r) e = Some t} \<union> ?T = {} \<longleftrightarrow> {t. e = Some t} \<union> {t. \<exists>q\<in>set (r # rs). f q = Some t} = {}"
    by (cases e; cases "f r") (auto simp: earlier_def)
  moreover have "Min ({t. earlier (f r) e = Some t} \<union> ?T) = Min ({t. e = Some t} \<union> {t. \<exists>q\<in>set (r # rs). f q = Some t})"
  proof -
    have split: "{t. e = Some t} \<union> {t. \<exists>q\<in>set (r # rs). f q = Some t} = {t. e = Some t} \<union> {t. f r = Some t} \<union> ?T" by auto
    show ?thesis
    proof (cases "f r")
      case (Some a)
      show ?thesis
      proof (cases e)
        case (Some b)
        have "Min (insert b (insert a ?T)) = Min (insert (min a b) ?T)"
          using fin by (cases "?T = {}") (auto simp: min_def Min_insert)
        with Some \<open>f r = Some a\<close> show ?thesis unfolding split by (auto simp: earlier_def min_def insert_commute)
      next
        case None
        have "{t. \<exists>q\<in>set (r # rs). f q = Some t} = insert a ?T" using \<open>f r = Some a\<close> by auto
        then show ?thesis using None \<open>f r = Some a\<close> by (simp add: earlier_def)
      qed
    qed (auto simp: split earlier_def)
  qed
  ultimately show ?case by (simp add: Cons.IH Let_def)
qed

text \<open>A status has the next sequence number, exactly one entry for every configured repository and no
other, in ascending order of their ids, and as the earliest expiry the minimum of the push-token
expiries that parse, or none when there is none.\<close>

theorem status_exact:
  "let (m, sq') = send_status tf boot now c sq; reps = sm_repositories m
   in sq < sm_sequence m \<and> sq' = sm_sequence m \<and>
      sorted (map st_repo_id reps) \<and> length reps = card (fmdom' (repos c)) \<and>
      set reps = repo_status_of tf (runs c) ` fmran' (repos c) \<and>
      sm_earliest_expiry m = (if expiries tf c = {} then None else Some (tf_seconds tf (Min (expiries tf c))))"
proof -
  have ids: "map st_repo_id (map (repo_status_of tf (runs c)) (snapshot c)) = map rs_repo_id (snapshot c)"
    by (simp add: run_status_id)
  have len: "length (snapshot c) = card (fmdom' (repos c))"
    using distinct_card [OF distinct_sorted_keys [of "repos c"]] by (simp add: snapshot_def)
  have "{t. \<exists>r\<in>set (snapshot c). parse_expiry_at tf (rs_expires_at r) = Some t} = expiries tf c"
    by (auto simp: set_snapshot expiries_def)
  then have exp: "fold (\<lambda>r. earlier (parse_expiry_at tf (rs_expires_at r))) (snapshot c) None =
      (if expiries tf c = {} then None else Some (Min (expiries tf c)))"
    by (simp add: fold_earlier Let_def)
  have sorted: "sorted (map st_repo_id (map (repo_status_of tf (runs c)) (snapshot c)))"
    unfolding ids by (simp only: snapshot_def sorted_sort_key)
  show ?thesis
    unfolding send_status_def Let_def prod.case build_status_def
    using sorted by (simp add: len set_snapshot exp del: map_map)
qed

lemma insort_blind:
  "insort_key rs_repo_id (r\<lparr>rs_push_token := p\<rparr>) (map (\<lambda>r. r\<lparr>rs_push_token := p\<rparr>) xs) =
     map (\<lambda>r. r\<lparr>rs_push_token := p\<rparr>) (insort_key rs_repo_id r xs)"
  by (induction xs) auto

text \<open>The connector's state without its secrets.\<close>

definition without_secrets :: "client \<Rightarrow> client" where
  "without_secrets c =
     c\<lparr>repos := fmmap (\<lambda>r. r\<lparr>rs_push_token := []\<rparr>) (repos c), providers := empty_providers, attempts := fmempty\<rparr>"

text \<open>A status does not depend on any push token, provider credential or running attempt: blanking them
all leaves every status unchanged, so none of them can leak into what is reported.\<close>

theorem status_has_no_secret:
  "build_status tf boot now sq c = build_status tf boot now sq (without_secrets c)"
proof -
  let ?blind = "\<lambda>r. r\<lparr>rs_push_token := []\<rparr>"
  have snap: "snapshot (without_secrets c) = map ?blind (snapshot c)"
  proof -
    have look: "map (\<lambda>rid. the (fmlookup (repos (without_secrets c)) rid)) (sorted_keys (repos c)) =
        map ?blind (map (\<lambda>rid. the (fmlookup (repos c) rid)) (sorted_keys (repos c)))"
      by (auto simp: without_secrets_def fmlookup_dom'_iff)
    have keys: "sorted_keys (repos (without_secrets c)) = sorted_keys (repos c)"
      by (simp add: sorted_keys_def without_secrets_def)
    have "sort_key rs_repo_id (map ?blind xs) = map ?blind (sort_key rs_repo_id xs)" for xs
      by (induction xs) (auto simp: insort_blind)
    then show ?thesis unfolding snapshot_def keys look by blast
  qed
  have "repo_status_of tf rns (?blind r) = repo_status_of tf rns r" for rns r
    by (simp add: repo_status_of_def Let_def)
  then show ?thesis
    by (simp add: build_status_def snap fold_map comp_def) (simp add: without_secrets_def)
qed

end
