(* ===== verification/MirrorGC.thy ===== *)
theory MirrorGC
  imports Effects Engine GitEnv GoText
begin

text \<open>
  Mirror garbage collection (\<open>gitsync/gc.go\<close>): which mirrors of repositories that left the configuration
  are removed, when, and by which file operations. The file system, the clock of the sweep and the
  moments at which the connector's state is read are the world; every interaction is logged. The
  state read is the model's own: the connector (theory Engine), the repositories in flight in the
  manager, and the cleanup state \<open>mirrorGC\<close>. Logging is left out.
\<close>

section \<open>Names and bounds\<close>

definition mirror_gc_grace :: duration where
  "mirror_gc_grace = 7 * 24 * hour"

definition orphan_marker_name :: string where
  "orphan_marker_name = ''.mkonnect-orphaned''"

definition marker_tmp_name :: string where
  "marker_tmp_name = orphan_marker_name @ ''.tmp''"

definition max_marker_size :: nat where
  "max_marker_size = 64"

definition gc_trash_dir_name :: string where
  "gc_trash_dir_name = ''.mkonnect-gc-trash''"

text \<open>The first of January 2025, UTC.\<close>

definition mirror_gc_clock_floor :: gtime where
  "mirror_gc_clock_floor = 1735689600 * second"

definition mirror_dir_name :: "string \<Rightarrow> bool" where
  "mirror_dir_name n \<longleftrightarrow> length n = 68 \<and> list_all is_hex_lower (take 64 n) \<and> drop 64 n = ''.git''"

definition tombstone_name :: "string \<Rightarrow> bool" where
  "tombstone_name n \<longleftrightarrow>
     length n = 85 \<and> list_all is_hex_lower (take 64 n) \<and> take 5 (drop 64 n) = ''.git.'' \<and>
     list_all is_hex_lower (drop 69 n)"

definition hex_digit :: "nat \<Rightarrow> char" where
  "hex_digit n = (if n < 10 then char_of (48 + n) else char_of (87 + n))"

definition hex_encode :: "string \<Rightarrow> string" where
  "hex_encode bs = concat (map (\<lambda>b. [hex_digit (byte b div 16), hex_digit (byte b mod 16)]) bs)"

text \<open>\<open>filepath.Base\<close>.\<close>

definition base_name :: "string \<Rightarrow> string" where
  "base_name p =
     (if p = [] then ''.''
      else (let q = rev (dropWhile (\<lambda>c. c = CHR ''/'') (rev p))
            in if q = [] then ''/'' else rev (takeWhile (\<lambda>c. c \<noteq> CHR ''/'') (rev q))))"

definition dir_name :: "go_lib \<Rightarrow> string \<Rightarrow> repo_id \<Rightarrow> string" where
  "dir_name lib mroot rid = base_name (mirror_dir lib mroot rid)"

section \<open>The cleanup state\<close>

text \<open>\<open>gc_done\<close> says that a loop was started, \<open>gc_wake\<close> that a sweep is requested.\<close>

record mirror_gc =
  gc_wake :: bool
  gc_rejected :: bool
  gc_done :: bool
  gc_configured :: "(string, gtime) fmap"

definition new_mirror_gc :: mirror_gc where
  "new_mirror_gc = \<lparr>gc_wake = False, gc_rejected = False, gc_done = False, gc_configured = fmempty\<rparr>"

definition note_configured :: "string list \<Rightarrow> gtime \<Rightarrow> mirror_gc \<Rightarrow> mirror_gc" where
  "note_configured keep at_time g = g\<lparr>gc_configured := fold (\<lambda>n. fmupd n at_time) keep (gc_configured g)\<rparr>"

definition last_configured :: "mirror_gc \<Rightarrow> string \<Rightarrow> gtime option" where
  "last_configured g n = fmlookup (gc_configured g) n"

definition gc_config_applied :: "bool \<Rightarrow> mirror_gc \<Rightarrow> mirror_gc" where
  "gc_config_applied accepted g =
     (let g1 = g\<lparr>gc_rejected := \<not> accepted\<rparr> in if \<not> accepted then g1 else g1\<lparr>gc_wake := True\<rparr>)"

text \<open>\<open>Client.acceptedMirrorKeep\<close>: never an empty set.\<close>

definition accepted_mirror_keep :: "go_lib \<Rightarrow> string \<Rightarrow> client \<Rightarrow> string list option" where
  "accepted_mirror_keep lib mroot c =
     (if \<not> config_accepted c \<or> repos c = fmempty then None
      else Some (map (dir_name lib mroot) (sorted_keys (repos c))))"

definition note_config_applied :: "go_lib \<Rightarrow> string \<Rightarrow> gtime \<Rightarrow> bool \<Rightarrow> client \<Rightarrow> mirror_gc \<Rightarrow> mirror_gc" where
  "note_config_applied lib mroot now accepted c g =
     gc_config_applied accepted
       (if accepted then (case accepted_mirror_keep lib mroot c of None \<Rightarrow> g | Some keep \<Rightarrow> note_configured keep now g)
        else g)"

text \<open>The loop takes the wake signal, or its ticker fires; at most one loop is started.\<close>

definition start_mirror_gc :: "mirror_gc \<Rightarrow> bool \<times> mirror_gc" where
  "start_mirror_gc g = (if gc_done g then (False, g) else (True, g\<lparr>gc_done := True\<rparr>))"

definition take_wake :: "mirror_gc \<Rightarrow> bool \<times> mirror_gc" where
  "take_wake g = (gc_wake g, g\<lparr>gc_wake := False\<rparr>)"

definition mirror_inflight :: "go_lib \<Rightarrow> string \<Rightarrow> repo_id set \<Rightarrow> string \<Rightarrow> bool" where
  "mirror_inflight lib mroot ids n \<longleftrightarrow> n \<in> dir_name lib mroot ` ids"

section \<open>The world of a sweep\<close>

datatype fs_error = NotExist | UnsafeTrash | FsError string

datatype file_kind = DirFile | RegularFile | OtherFile

record file_info =
  fi_kind :: file_kind
  fi_size :: int

text \<open>
  \<open>gw_read\<close> opens a file and reads at most so many bytes of it; \<open>gw_list\<close> opens a directory and returns the
  names it could read. \<open>gw_client\<close>, \<open>gw_gc\<close> and \<open>gw_inflight\<close> are the state at a moment at which its mutex
  is held.
\<close>

record 'w gc_world =
  gw_ctx :: "'w \<Rightarrow> bool \<times> 'w"
  gw_now :: "'w \<Rightarrow> gtime \<times> 'w"
  gw_env :: "'w \<Rightarrow> string \<times> 'w"
  gw_client :: "'w \<Rightarrow> client \<times> 'w"
  gw_gc :: "'w \<Rightarrow> mirror_gc \<times> 'w"
  gw_inflight :: "'w \<Rightarrow> repo_id set \<times> 'w"
  gw_open_root :: "string \<Rightarrow> 'w \<Rightarrow> fs_error option \<times> 'w"
  gw_list :: "string \<Rightarrow> 'w \<Rightarrow> string list \<times> 'w"
  gw_lstat :: "string \<Rightarrow> 'w \<Rightarrow> (fs_error + file_info) \<times> 'w"
  gw_read :: "string \<Rightarrow> nat \<Rightarrow> 'w \<Rightarrow> string option \<times> 'w"
  gw_mkdir :: "string \<Rightarrow> 'w \<Rightarrow> fs_error option \<times> 'w"
  gw_rand :: "'w \<Rightarrow> string option \<times> 'w"
  gw_rename :: "string \<Rightarrow> string \<Rightarrow> 'w \<Rightarrow> fs_error option \<times> 'w"
  gw_remove :: "string \<Rightarrow> 'w \<Rightarrow> fs_error option \<times> 'w"
  gw_remove_all :: "string \<Rightarrow> 'w \<Rightarrow> fs_error option \<times> 'w"
  gw_create :: "string \<Rightarrow> 'w \<Rightarrow> fs_error option \<times> 'w"
  gw_write :: "string \<Rightarrow> 'w \<Rightarrow> fs_error option \<times> 'w"
  gw_sync :: "'w \<Rightarrow> fs_error option \<times> 'w"
  gw_close :: "'w \<Rightarrow> fs_error option \<times> 'w"

datatype gc_step =
    GcCtx bool
  | GcNow gtime
  | EnvSeen string
  | ClientSeen client
  | GcSeen mirror_gc
  | InflightSeen "repo_id set"
  | RootOpened "fs_error option"
  | Listed string "string list"
  | Lstat string "fs_error + file_info"
  | ReadFile string "string option"
  | MadeDir string "fs_error option"
  | Random "string option"
  | Renamed string string "fs_error option"
  | RemovedFile string "fs_error option"
  | RemovedTree string "fs_error option"
  | CreatedFile string "fs_error option"
  | WroteFile string "fs_error option"
  | SyncedFile "fs_error option"
  | ClosedFile "fs_error option"

text \<open>What a sweep depends on besides: the library, the mirrors root, and Go's RFC 3339 times.\<close>

record gc_deps =
  gd_lib :: go_lib
  gd_root :: string
  gd_parse_nano :: "string \<Rightarrow> gtime option"
  gd_format_nano :: "gtime \<Rightarrow> string"

record sweep_result =
  sw_marked :: nat
  sw_cleared :: nat
  sw_busy :: nat
  sw_removed :: nat
  sw_skipped :: nat
  sw_failed :: nat

definition no_sweep :: sweep_result where
  "no_sweep = \<lparr>sw_marked = 0, sw_cleared = 0, sw_busy = 0, sw_removed = 0, sw_skipped = 0, sw_failed = 0\<rparr>"

definition count_failed :: "sweep_result \<Rightarrow> sweep_result" where
  "count_failed r = r\<lparr>sw_failed := sw_failed r + 1\<rparr>"

definition count_skipped :: "sweep_result \<Rightarrow> sweep_result" where
  "count_skipped r = r\<lparr>sw_skipped := sw_skipped r + 1\<rparr>"

definition count_busy :: "sweep_result \<Rightarrow> sweep_result" where
  "count_busy r = r\<lparr>sw_busy := sw_busy r + 1\<rparr>"

definition count_removed :: "sweep_result \<Rightarrow> sweep_result" where
  "count_removed r = r\<lparr>sw_removed := sw_removed r + 1\<rparr>"

definition lstat :: "'w gc_world \<Rightarrow> string \<Rightarrow> (('w, gc_step) sys, fs_error + file_info) state" where
  "lstat W p = effect (gw_lstat W p) (Lstat p)"

definition remove_file :: "'w gc_world \<Rightarrow> string \<Rightarrow> (('w, gc_step) sys, fs_error option) state" where
  "remove_file W p = effect (gw_remove W p) (RemovedFile p)"

section \<open>Whether a sweep may run\<close>

definition mirror_gc_disabled :: "string \<Rightarrow> bool" where
  "mirror_gc_disabled v \<longleftrightarrow> map lower_char (trim_space v) = ''off''"

definition mirror_gc_allowed :: "'w gc_world \<Rightarrow> (('w, gc_step) sys, bool) state" where
  "mirror_gc_allowed W = do {
     v \<leftarrow> effect (gw_env W) EnvSeen;
     (if mirror_gc_disabled v then ret False
      else do {
        g \<leftarrow> effect (gw_gc W) GcSeen;
        (if gc_rejected g then ret False
         else do {
           c \<leftarrow> effect (gw_client W) ClientSeen;
           ret (\<not> critical_patch c)
         })
      })
   }"

definition mirror_orphaned :: "'w gc_world \<Rightarrow> gc_deps \<Rightarrow> string \<Rightarrow> (('w, gc_step) sys, bool) state" where
  "mirror_orphaned W d n = do {
     allowed \<leftarrow> mirror_gc_allowed W;
     (if \<not> allowed then ret False
      else do {
        c \<leftarrow> effect (gw_client W) ClientSeen;
        ret (case accepted_mirror_keep (gd_lib d) (gd_root d) c of
               None \<Rightarrow> False
             | Some keep \<Rightarrow> n \<notin> set keep)
      })
   }"

section \<open>The orphan mark\<close>

definition marker_path :: "string \<Rightarrow> string" where
  "marker_path n = join_path n orphan_marker_name"

definition marker_tmp_path :: "string \<Rightarrow> string" where
  "marker_tmp_path n = join_path n marker_tmp_name"

text \<open>The time a mark of this content stands for, to a sweep at \<open>now\<close>.\<close>

definition marker_time :: "gc_deps \<Rightarrow> gtime \<Rightarrow> string \<Rightarrow> gtime option" where
  "marker_time d now b =
     (if length b > max_marker_size then None
      else (case gd_parse_nano d (trim_space b) of
          None \<Rightarrow> None
        | Some t \<Rightarrow> if t > now \<or> t < mirror_gc_clock_floor then None else Some t))"

definition read_marker :: "'w gc_world \<Rightarrow> gc_deps \<Rightarrow> gtime \<Rightarrow> string \<Rightarrow> (('w, gc_step) sys, gtime option) state" where
  "read_marker W d now n = do {
     fi \<leftarrow> lstat W (marker_path n);
     (case fi of
        Inl e \<Rightarrow> ret None
      | Inr i \<Rightarrow>
          (if fi_kind i \<noteq> RegularFile \<or> fi_size i > int max_marker_size then ret None
           else do {
             b \<leftarrow> effect (gw_read W (marker_path n) (max_marker_size + 1)) (ReadFile (marker_path n));
             ret (case b of None \<Rightarrow> None | Some s \<Rightarrow> marker_time d now s)
           }))
   }"

text \<open>Removing what squats on a name: whether the name is free now.\<close>

definition clear_tmp :: "'w gc_world \<Rightarrow> string \<Rightarrow> (('w, gc_step) sys, bool) state" where
  "clear_tmp W n = do {
     fi \<leftarrow> lstat W (marker_tmp_path n);
     (case fi of
        Inl e \<Rightarrow> ret True
      | Inr i \<Rightarrow> do { e \<leftarrow> remove_file W (marker_tmp_path n); ret (e = None) })
   }"

definition clear_squatter :: "'w gc_world \<Rightarrow> string \<Rightarrow> (('w, gc_step) sys, bool) state" where
  "clear_squatter W n = do {
     fi \<leftarrow> lstat W (marker_path n);
     (case fi of
        Inl e \<Rightarrow> ret True
      | Inr i \<Rightarrow>
          (if fi_kind i = RegularFile then ret True
           else do { e \<leftarrow> remove_file W (marker_path n); ret (e = None) }))
   }"

text \<open>Writing the open temporary file: the first error of write, sync and close, close always done.\<close>

definition write_and_close :: "'w gc_world \<Rightarrow> string \<Rightarrow> (('w, gc_step) sys, fs_error option) state" where
  "write_and_close W content = do {
     e1 \<leftarrow> effect (gw_write W content) (WroteFile content);
     e2 \<leftarrow> (if e1 = None then effect (gw_sync W) SyncedFile else ret e1);
     e3 \<leftarrow> effect (gw_close W) ClosedFile;
     ret (if e2 = None then e3 else e2)
   }"

definition write_marker ::
  "'w gc_world \<Rightarrow> gc_deps \<Rightarrow> gtime \<Rightarrow> string \<Rightarrow> sweep_result \<Rightarrow> (('w, gc_step) sys, sweep_result) state" where
  "write_marker W d now n r = do {
     free \<leftarrow> clear_tmp W n;
     (if \<not> free then ret (count_failed r)
      else do {
        free2 \<leftarrow> clear_squatter W n;
        (if \<not> free2 then ret (count_failed r)
         else do {
           e \<leftarrow> effect (gw_create W (marker_tmp_path n)) (CreatedFile (marker_tmp_path n));
           (if e \<noteq> None then ret (count_failed r)
            else do {
              e1 \<leftarrow> write_and_close W (gd_format_nano d now @ [newline]);
              e2 \<leftarrow> (if e1 = None
                     then effect (gw_rename W (marker_tmp_path n) (marker_path n)) (Renamed (marker_tmp_path n) (marker_path n))
                     else ret e1);
              (if e2 \<noteq> None
               then do { _ \<leftarrow> remove_file W (marker_tmp_path n); ret (count_failed r) }
               else ret (r\<lparr>sw_marked := sw_marked r + 1\<rparr>))
            })
         })
      })
   }"

definition clear_marker ::
  "'w gc_world \<Rightarrow> string \<Rightarrow> sweep_result \<Rightarrow> (('w, gc_step) sys, sweep_result) state" where
  "clear_marker W n r = do {
     _ \<leftarrow> clear_tmp W n;
     fi \<leftarrow> lstat W (marker_path n);
     (case fi of
        Inl e \<Rightarrow> ret r
      | Inr i \<Rightarrow> do {
          e \<leftarrow> remove_file W (marker_path n);
          ret (if e = None then r\<lparr>sw_cleared := sw_cleared r + 1\<rparr> else r)
        })
   }"

section \<open>Removing a mirror\<close>

definition ensure_trash :: "'w gc_world \<Rightarrow> (('w, gc_step) sys, fs_error option) state" where
  "ensure_trash W = do {
     fi \<leftarrow> lstat W gc_trash_dir_name;
     (case fi of
        Inl NotExist \<Rightarrow> effect (gw_mkdir W gc_trash_dir_name) (MadeDir gc_trash_dir_name)
      | Inl e \<Rightarrow> ret (Some e)
      | Inr i \<Rightarrow> ret (if fi_kind i \<noteq> DirFile then Some UnsafeTrash else None))
   }"

definition move_to_trash :: "'w gc_world \<Rightarrow> string \<Rightarrow> (('w, gc_step) sys, fs_error + string) state" where
  "move_to_trash W n = do {
     e \<leftarrow> ensure_trash W;
     (case e of
        Some er \<Rightarrow> ret (Inl er)
      | None \<Rightarrow> do {
          b \<leftarrow> effect (gw_rand W) Random;
          (case b of
             None \<Rightarrow> ret (Inl (FsError []))
           | Some bs \<Rightarrow>
               (let dest = join_path gc_trash_dir_name (n @ ''.'' @ hex_encode bs)
                in do {
                  e2 \<leftarrow> effect (gw_rename W n dest) (Renamed n dest);
                  ret (case e2 of Some er \<Rightarrow> Inl er | None \<Rightarrow> Inr dest)
                }))
        })
   }"

text \<open>
  \<open>manager.claimMirror\<close> with the checks of \<open>Client.claimMirror\<close>: under the manager's mutex, so that no
  sync is registered between the checks and the move. \<open>None\<close>: not claimed.
\<close>

definition claim_mirror ::
  "'w gc_world \<Rightarrow> gc_deps \<Rightarrow> string \<Rightarrow> (('w, gc_step) sys, (fs_error + string) option) state" where
  "claim_mirror W d n = do {
     ids \<leftarrow> effect (gw_inflight W) InflightSeen;
     (if mirror_inflight (gd_lib d) (gd_root d) ids n then ret None
      else do {
        orphan \<leftarrow> mirror_orphaned W d n;
        (if \<not> orphan then ret None
         else do { moved \<leftarrow> move_to_trash W n; ret (Some moved) })
      })
   }"

definition remove_due ::
  "'w gc_world \<Rightarrow> gc_deps \<Rightarrow> string \<Rightarrow> sweep_result \<Rightarrow> (('w, gc_step) sys, sweep_result) state" where
  "remove_due W d n r = do {
     claimed \<leftarrow> claim_mirror W d n;
     (case claimed of
        None \<Rightarrow> ret (count_busy r)
      | Some (Inl e) \<Rightarrow> ret (count_failed r)
      | Some (Inr moved) \<Rightarrow> do {
          e \<leftarrow> effect (gw_remove_all W moved) (RemovedTree moved);
          ret (if e \<noteq> None then count_failed r else count_removed r)
        })
   }"

section \<open>A sweep\<close>

definition sweep_one ::
  "'w gc_world \<Rightarrow> gc_deps \<Rightarrow> string list \<Rightarrow> gtime \<Rightarrow> duration \<Rightarrow> string \<Rightarrow> sweep_result \<Rightarrow>
   (('w, gc_step) sys, sweep_result) state" where
  "sweep_one W d keep now grace n r = do {
     fi \<leftarrow> lstat W n;
     (case fi of
        Inl e \<Rightarrow> ret (if e \<noteq> NotExist then count_failed r else r)
      | Inr i \<Rightarrow>
          (if fi_kind i \<noteq> DirFile then ret (count_skipped r)
           else if n \<in> set keep then clear_marker W n r
           else do {
             ids \<leftarrow> effect (gw_inflight W) InflightSeen;
             (if mirror_inflight (gd_lib d) (gd_root d) ids n then ret (count_busy r)
              else do {
                mark \<leftarrow> read_marker W d now n;
                (case mark of
                   None \<Rightarrow> write_marker W d now n r
                 | Some since \<Rightarrow> do {
                     g \<leftarrow> effect (gw_gc W) GcSeen;
                     (if (case last_configured g n of None \<Rightarrow> False | Some t \<Rightarrow> since < t)
                      then write_marker W d now n r
                      else if time_sub now since \<ge> grace then remove_due W d n r
                      else ret r)
                   })
              })
           }))
   }"

text \<open>One entry of the trash directory, unless the sweep is cancelled.\<close>

definition recover_one :: "'w gc_world \<Rightarrow> string \<Rightarrow> sweep_result \<Rightarrow> (('w, gc_step) sys, sweep_result) state" where
  "recover_one W n r =
     (if \<not> tombstone_name n then ret (count_skipped r)
      else do {
        fi \<leftarrow> lstat W (join_path gc_trash_dir_name n);
        (case fi of
           Inl e \<Rightarrow> ret (if e \<noteq> NotExist then count_failed r else r)
         | Inr i \<Rightarrow>
             (if fi_kind i \<noteq> DirFile then ret (count_skipped r)
              else do {
                e \<leftarrow> effect (gw_remove_all W (join_path gc_trash_dir_name n)) (RemovedTree (join_path gc_trash_dir_name n));
                ret (if e \<noteq> None then count_failed r else count_removed r)
              }))
      })"

fun until_cancelled ::
  "'w gc_world \<Rightarrow> (string \<Rightarrow> sweep_result \<Rightarrow> (('w, gc_step) sys, sweep_result) state) \<Rightarrow> string list \<Rightarrow> sweep_result \<Rightarrow>
   (('w, gc_step) sys, sweep_result) state" where
  "until_cancelled W body [] r = ret r"
| "until_cancelled W body (n # ns) r = do {
     c \<leftarrow> effect (gw_ctx W) GcCtx;
     (if c then ret r else do { r1 \<leftarrow> body n r; until_cancelled W body ns r1 })
   }"

definition list_names :: "'w gc_world \<Rightarrow> string \<Rightarrow> (('w, gc_step) sys, string list) state" where
  "list_names W p = do { ns \<leftarrow> effect (gw_list W p) (Listed p); ret (sort ns) }"

definition recover_tombstones :: "'w gc_world \<Rightarrow> sweep_result \<Rightarrow> (('w, gc_step) sys, sweep_result) state" where
  "recover_tombstones W r = do {
     fi \<leftarrow> lstat W gc_trash_dir_name;
     (case fi of
        Inl e \<Rightarrow> ret (if e \<noteq> NotExist then count_failed r else r)
      | Inr i \<Rightarrow>
          (if fi_kind i \<noteq> DirFile then ret (count_skipped r)
           else do {
             ns \<leftarrow> list_names W gc_trash_dir_name;
             until_cancelled W (recover_one W) ns r
           }))
   }"

text \<open>An absolute path below the root: for a clean absolute path, \<open>Dir\<close> is the path only of \<open>/\<close> itself.\<close>

definition root_allowed :: "string \<Rightarrow> bool" where
  "root_allowed p \<longleftrightarrow> prefix ''/'' p \<and> p \<noteq> ''/''"

definition sweep_mirrors ::
  "'w gc_world \<Rightarrow> gc_deps \<Rightarrow> string list \<Rightarrow> gtime \<Rightarrow> duration \<Rightarrow> (('w, gc_step) sys, sweep_result) state" where
  "sweep_mirrors W d keep now grace =
     (if now < mirror_gc_clock_floor then ret no_sweep
      else if \<not> root_allowed (clean_path (gd_root d)) then ret no_sweep
      else do {
        e \<leftarrow> effect (gw_open_root W (clean_path (gd_root d))) RootOpened;
        (if e \<noteq> None then ret no_sweep
         else do {
           r \<leftarrow> recover_tombstones W no_sweep;
           ns \<leftarrow> list_names W ''.'';
           until_cancelled W (sweep_one W d keep now grace) (filter mirror_dir_name ns) r
         })
      })"

definition collect_mirrors :: "'w gc_world \<Rightarrow> gc_deps \<Rightarrow> (('w, gc_step) sys, sweep_result) state" where
  "collect_mirrors W d = do {
     allowed \<leftarrow> mirror_gc_allowed W;
     (if \<not> allowed then ret no_sweep
      else do {
        c \<leftarrow> effect (gw_client W) ClientSeen;
        (case accepted_mirror_keep (gd_lib d) (gd_root d) c of
           None \<Rightarrow> ret no_sweep
         | Some keep \<Rightarrow> do {
             now \<leftarrow> effect (gw_now W) GcNow;
             sweep_mirrors W d keep now mirror_gc_grace
           })
      })
   }"

end
