(* ===== verification/GitHandler.thy ===== *)
theory GitHandler
  imports Connector StatusReport MirrorGC
begin

text \<open>
  The git-sync connector as a handler of the gateway's messages (\<open>HandleMessage\<close>, \<open>startSyncs\<close>,
  \<open>OnHandshake\<close>, \<open>OnConnected\<close>, \<open>OnHeartbeat\<close> of \<open>gitsync/client.go\<close>) and what follows the replacement of the
  providers (\<open>gitsync/providerswap.go\<close>): the operations of the engine, the manager, the scheduler, the mirror
  cleanup and the status, in the order of the code. Each part takes the locks it needs and lets go of them, so
  the other goroutines may take any steps in between; these are the argument \<open>gap\<close>, one move for each place.
\<close>

section \<open>Messages\<close>

datatype git_inbound = ConfigMsg config_wire | SyncNowMsg repo_id | MalformedMsg | UnknownMsg string

record git_json =
  gj_config :: "string \<Rightarrow> config_wire"
  gj_sync_now :: "string \<Rightarrow> repo_id option"

definition read_git_inbound :: "git_json \<Rightarrow> string \<Rightarrow> string \<Rightarrow> git_inbound" where
  "read_git_inbound J typ raw =
     (if typ = ''git_sync_config'' then ConfigMsg (gj_config J raw)
      else if typ = ''git_sync_now'' then (case gj_sync_now J raw of Some rid \<Rightarrow> SyncNowMsg rid | None \<Rightarrow> MalformedMsg)
      else UnknownMsg typ)"

section \<open>The parts\<close>

abbreviation client_of :: "world manager \<Rightarrow> client" where
  "client_of m \<equiv> cl (hooked m)"

definition set_client :: "client \<Rightarrow> world manager \<Rightarrow> world manager" where
  "set_client c m = m\<lparr>hooked := (hooked m)\<lparr>cl := c\<rparr>\<rparr>"

text \<open>\<open>applyConfig\<close>, with the manager resized under the same lock.\<close>

definition accept_config :: "go_lib \<Rightarrow> config_wire \<Rightarrow> world manager \<Rightarrow> bool \<times> world manager" where
  "accept_config lib wire m =
     (case apply_config lib wire (client_of m) of
        (None, c) \<Rightarrow> (False, set_client c m)
      | (Some n, c) \<Rightarrow> (True, set_client c (m\<lparr>slot := (slot m)\<lparr>pool := resize n (pool (slot m))\<rparr>\<rparr>)))"

definition reconcile_schedule :: "world manager \<Rightarrow> world manager" where
  "reconcile_schedule m = set_client (sched_reconcile (clock (hooked m)) (rand_stream (hooked m)) (client_of m)) m"

definition start_syncs :: "go_lib \<Rightarrow> repo_id list \<Rightarrow> world manager \<Rightarrow> world manager" where
  "start_syncs lib rids m =
     (if rids = [] then m
      else if critical_patch (client_of m) then m
      else enqueue (client_sync_hooks lib) rids m)"

definition sync_now :: "repo_id \<Rightarrow> world manager \<Rightarrow> repo_id list \<times> world manager" where
  "sync_now rid m =
     (case handle_sync_now (clock (hooked m)) rid (client_of m) of (rids, c) \<Rightarrow> (rids, set_client c m))"

section \<open>The handler\<close>

type_synonym gaps = "nat \<Rightarrow> world manager \<Rightarrow> world manager"

record git_handler =
  gh_mgr :: "world manager"
  gh_gc :: mirror_gc
  gh_seq :: nat

text \<open>\<open>emitStatus\<close>: the status is sent; a send that fails is only logged.\<close>

definition report_status :: "time_format \<Rightarrow> string \<Rightarrow> git_handler \<Rightarrow> git_handler \<times> status_msg" where
  "report_status tf boot h =
     (case send_status tf boot (clock (hooked (gh_mgr h))) (client_of (gh_mgr h)) (gh_seq h) of
        (msg, sq) \<Rightarrow> (h\<lparr>gh_seq := sq\<rparr>, msg))"

definition start_configured :: "go_lib \<Rightarrow> gaps \<Rightarrow> world manager \<Rightarrow> world manager" where
  "start_configured lib gap m =
     (let m1 = gap 2 (reconcile_schedule m); rids = syncable_repos (client_of m1)
      in start_syncs lib rids (gap 3 m1))"

text \<open>The branch of a configuration, up to the status that is then sent.\<close>

definition handle_config ::
  "go_lib \<Rightarrow> string \<Rightarrow> gaps \<Rightarrow> config_wire \<Rightarrow> git_handler \<Rightarrow> bool \<times> git_handler" where
  "handle_config lib mroot gap wire h =
     (case accept_config lib wire (gh_mgr h) of
        (accepted, m) \<Rightarrow>
          (let m1 = gap 0 m;
               g = note_config_applied lib mroot (clock (hooked m1)) accepted (client_of m1) (gh_gc h);
               m2 = gap 1 m1;
               m3 = (if accepted then start_configured lib gap m2 else m2)
           in (accepted, h\<lparr>gh_mgr := m3, gh_gc := g\<rparr>)))"

definition handle_now :: "go_lib \<Rightarrow> gaps \<Rightarrow> repo_id \<Rightarrow> git_handler \<Rightarrow> git_handler" where
  "handle_now lib gap rid h =
     (case sync_now rid (gh_mgr h) of
        (rids, m) \<Rightarrow> h\<lparr>gh_mgr := gap 1 (start_syncs lib rids (gap 0 m))\<rparr>)"

text \<open>\<open>HandleMessage\<close>: the new state and the status that answers it, if any.\<close>

definition handle_git_message ::
  "time_format \<Rightarrow> string \<Rightarrow> go_lib \<Rightarrow> string \<Rightarrow> gaps \<Rightarrow> git_inbound \<Rightarrow> git_handler \<Rightarrow> git_handler \<times> status_msg option" where
  "handle_git_message tf boot lib mroot gap msg h =
     (case msg of
        ConfigMsg wire \<Rightarrow>
          (let h0 = snd (handle_config lib mroot gap wire h) in
           case report_status tf boot (h0\<lparr>gh_mgr := gap 4 (gh_mgr h0)\<rparr>) of (h1, st) \<Rightarrow> (h1, Some st))
      | SyncNowMsg rid \<Rightarrow> (case report_status tf boot (handle_now lib gap rid h) of (h1, st) \<Rightarrow> (h1, Some st))
      | MalformedMsg \<Rightarrow> (h, None)
      | UnknownMsg t \<Rightarrow> (h, None))"

text \<open>\<open>OnHandshake\<close>.\<close>

definition on_git_handshake :: "bool \<Rightarrow> world manager \<Rightarrow> world manager" where
  "on_git_handshake critical m = set_client ((client_of m)\<lparr>critical_patch := critical\<rparr>) m"

text \<open>\<open>setProviders\<close> after its critical section: the schedule, then the repositories to sync again.\<close>

definition swap_providers ::
  "go_lib \<Rightarrow> gaps \<Rightarrow> (string \<times> local_entry) list option \<Rightarrow> world manager \<Rightarrow> world manager" where
  "swap_providers lib gap st m =
     (case set_providers lib st (client_of m) of
        (None, c) \<Rightarrow> set_client c m
      | (Some (resync, stopped), c) \<Rightarrow>
          gap 2 (start_syncs lib resync (gap 1 (reconcile_schedule (gap 0 (set_client c m))))))"

section \<open>Handling is steps of the connector\<close>

abbreviation conn_step :: "go_lib \<Rightarrow> world manager \<Rightarrow> world manager \<Rightarrow> bool" where
  "conn_step lib \<equiv> mgr_step (client_sync_hooks lib) (client_moves lib)"

definition gaps_ok :: "go_lib \<Rightarrow> gaps \<Rightarrow> bool" where
  "gaps_ok lib gap \<longleftrightarrow> (\<forall>i m. (conn_step lib)\<^sup>*\<^sup>* m (gap i m))"

lemma event_step:
  assumes "outside e" "c = eng (engine_step lib \<lparr>eng = client_of m, running = {}\<rparr> e)"
  shows "conn_step lib m (set_client c m)"
proof -
  have "client_moves lib (hooked m) ((hooked m)\<lparr>cl := c\<rparr>)" using assms unfolding client_moves_def by auto
  then show ?thesis unfolding set_client_def by (rule mgr_step.elsewhere)
qed

lemma accept_config_steps: "(conn_step lib)\<^sup>*\<^sup>* m (snd (accept_config lib wire m))"
proof -
  obtain r c where a: "apply_config lib wire (client_of m) = (r, c)" by force
  show ?thesis
  proof (cases r)
    case None
    have "conn_step lib m (set_client c m)" by (rule event_step [of "EConfig wire"]) (simp_all add: a)
    with None show ?thesis by (simp add: accept_config_def a)
  next
    case (Some n)
    let ?m = "m\<lparr>slot := (slot m)\<lparr>pool := resize n (pool (slot m))\<rparr>\<rparr>"
    have "conn_step lib m ?m" by (rule mgr_step.resized) (rule slot_step.change_limit)
    moreover have "conn_step lib ?m (set_client c ?m)" by (rule event_step [of "EConfig wire"]) (simp_all add: a)
    ultimately show ?thesis using Some by (simp add: accept_config_def a rtranclp.rtrancl_into_rtrancl [OF r_into_rtranclp])
  qed
qed

lemma reconcile_step: "conn_step lib m (reconcile_schedule m)"
  unfolding reconcile_schedule_def
  by (rule event_step [of "EReconcile (clock (hooked m)) (rand_stream (hooked m))"]) simp_all

lemma start_syncs_steps: "(conn_step lib)\<^sup>*\<^sup>* m (start_syncs lib rids m)"
  unfolding start_syncs_def by (auto intro: mgr_step.trigger)

lemma sync_now_step: "conn_step lib m (snd (sync_now rid m))"
proof -
  obtain rids c where h: "handle_sync_now (clock (hooked m)) rid (client_of m) = (rids, c)" by force
  show ?thesis unfolding sync_now_def h
    by simp (rule event_step [of "ESyncNow rid (clock (hooked m))"], simp_all add: h)
qed

lemma gap_steps: "gaps_ok lib gap \<Longrightarrow> (conn_step lib)\<^sup>*\<^sup>* m0 m \<Longrightarrow> (conn_step lib)\<^sup>*\<^sup>* m0 (gap i m)"
  unfolding gaps_ok_def by (blast intro: rtranclp_trans)

lemma steps_trans: "(conn_step lib)\<^sup>*\<^sup>* a b \<Longrightarrow> (conn_step lib)\<^sup>*\<^sup>* b c \<Longrightarrow> (conn_step lib)\<^sup>*\<^sup>* a c"
  by (rule rtranclp_trans)

lemma start_configured_steps:
  assumes "gaps_ok lib gap"
  shows "(conn_step lib)\<^sup>*\<^sup>* m (start_configured lib gap m)"
proof -
  have "(conn_step lib)\<^sup>*\<^sup>* m (gap 3 (gap 2 (reconcile_schedule m)))"
    by (rule gap_steps [OF assms], rule gap_steps [OF assms], rule r_into_rtranclp, rule reconcile_step)
  then show ?thesis unfolding start_configured_def Let_def by (rule steps_trans [OF _ start_syncs_steps])
qed

lemma handle_config_steps:
  assumes gaps: "gaps_ok lib gap"
  shows "(conn_step lib)\<^sup>*\<^sup>* (gh_mgr h) (gh_mgr (snd (handle_config lib mroot gap wire h)))"
proof -
  obtain accepted m where a: "accept_config lib wire (gh_mgr h) = (accepted, m)" by force
  have m: "(conn_step lib)\<^sup>*\<^sup>* (gh_mgr h) m" using accept_config_steps [of lib "gh_mgr h" wire] by (simp add: a)
  have "(conn_step lib)\<^sup>*\<^sup>* (gh_mgr h) (if accepted then start_configured lib gap (gap 1 (gap 0 m)) else gap 1 (gap 0 m))"
    using steps_trans [OF gap_steps [OF gaps gap_steps [OF gaps m]] start_configured_steps [OF gaps]]
      gap_steps [OF gaps gap_steps [OF gaps m]] by (cases accepted) (simp_all only: if_True if_False)
  then show ?thesis unfolding handle_config_def a Let_def by simp
qed

lemma handle_now_steps:
  assumes gaps: "gaps_ok lib gap"
  shows "(conn_step lib)\<^sup>*\<^sup>* (gh_mgr h) (gh_mgr (handle_now lib gap rid h))"
proof -
  obtain rids m where a: "sync_now rid (gh_mgr h) = (rids, m)" by force
  have "conn_step lib (gh_mgr h) m" using sync_now_step [of lib "gh_mgr h" rid] by (simp add: a)
  then have "(conn_step lib)\<^sup>*\<^sup>* (gh_mgr h) (start_syncs lib rids (gap 0 m))"
    by (intro steps_trans [OF gap_steps [OF gaps] start_syncs_steps] r_into_rtranclp)
  then show ?thesis unfolding handle_now_def a by (simp add: gap_steps [OF gaps])
qed

lemma report_status_mgr [simp]: "gh_mgr (fst (report_status tf boot h)) = gh_mgr h"
  by (simp add: report_status_def send_status_def)

lemma handle_message_steps:
  assumes gaps: "gaps_ok lib gap"
  shows "(conn_step lib)\<^sup>*\<^sup>* (gh_mgr h) (gh_mgr (fst (handle_git_message tf boot lib mroot gap msg h)))"
proof (cases msg)
  case (ConfigMsg wire)
  let ?h = "snd (handle_config lib mroot gap wire h)"
  have "gh_mgr (fst (handle_git_message tf boot lib mroot gap msg h)) = gap 4 (gh_mgr ?h)"
    using report_status_mgr [of tf boot "?h\<lparr>gh_mgr := gap 4 (gh_mgr ?h)\<rparr>"]
    by (cases "report_status tf boot (?h\<lparr>gh_mgr := gap 4 (gh_mgr ?h)\<rparr>)") (simp add: ConfigMsg handle_git_message_def Let_def)
  then show ?thesis using gap_steps [OF gaps handle_config_steps [OF gaps, of h mroot wire]] by simp
next
  case (SyncNowMsg rid)
  have "gh_mgr (fst (handle_git_message tf boot lib mroot gap msg h)) = gh_mgr (handle_now lib gap rid h)"
    using report_status_mgr [of tf boot "handle_now lib gap rid h"]
    by (cases "report_status tf boot (handle_now lib gap rid h)") (simp add: SyncNowMsg handle_git_message_def)
  then show ?thesis using handle_now_steps [OF gaps, of h rid] by simp
qed (simp_all add: handle_git_message_def)

lemma swap_providers_steps:
  assumes gaps: "gaps_ok lib gap" and names: "case st of None \<Rightarrow> True | Some es \<Rightarrow> distinct (map fst es)"
  shows "(conn_step lib)\<^sup>*\<^sup>* m (swap_providers lib gap st m)"
proof -
  obtain r c where a: "set_providers lib st (client_of m) = (r, c)" by force
  have "conn_step lib m (set_client c m)" by (rule event_step [of "EProviders st"]) (use names in \<open>simp_all add: a\<close>)
  then have c: "(conn_step lib)\<^sup>*\<^sup>* m (set_client c m)" by blast
  show ?thesis
  proof (cases r)
    case None
    with c show ?thesis by (simp add: swap_providers_def a)
  next
    case (Some q)
    obtain resync stopped where q: "q = (resync, stopped)" by force
    have "(conn_step lib)\<^sup>*\<^sup>* m (reconcile_schedule (gap 0 (set_client c m)))"
      using steps_trans [OF gap_steps [OF gaps c] r_into_rtranclp [of "conn_step lib", OF reconcile_step]] .
    then have "(conn_step lib)\<^sup>*\<^sup>* m (start_syncs lib resync (gap 1 (reconcile_schedule (gap 0 (set_client c m)))))"
      by (intro steps_trans [OF gap_steps [OF gaps] start_syncs_steps])
    then show ?thesis by (simp add: swap_providers_def a Some q gap_steps [OF gaps])
  qed
qed

section \<open>An accepted configuration is synced\<close>

text \<open>A repository is started: a sync that has not claimed yet is on the way, and it is marked or its rerun is.\<close>

definition started :: "world manager \<Rightarrow> repo_id \<Rightarrow> bool" where
  "started m rid \<longleftrightarrow> covered m rid \<and>
     (rid \<in> rerun m \<or> (case fmlookup (repos (client_of m)) rid of None \<Rightarrow> False | Some r \<Rightarrow> rs_syncing r))"

lemma begin_syncable [simp]: "syncable rid (begin_sync i c) = syncable rid c"
  by (auto simp: begin_sync_def set_syncing_def syncable_def can_sync_def Let_def split: option.splits)

lemma launch_syncable [simp]:
  "syncable rid (client_of (snd (launch (client_sync_hooks lib) i b m))) = syncable rid (client_of m)"
  by (simp add: launch_def client_sync_hooks_def Let_def)

lemma launch_starts:
  assumes "mgr_inv m" and s: "syncable rid (client_of m)"
  shows "started (snd (launch (client_sync_hooks lib) rid True m)) rid"
proof -
  have "hk_syncable (client_sync_hooks lib) rid (hooked m)" using s by (simp add: client_sync_hooks_def)
  from launch_covers [OF assms(1) this] have "covered (snd (launch (client_sync_hooks lib) rid True m)) rid" .
  moreover obtain r where "fmlookup (repos (client_of m)) rid = Some r" using s by (auto simp: syncable_def split: option.splits)
  ultimately show ?thesis
    by (auto simp: started_def launch_def client_sync_hooks_def begin_sync_def set_syncing_def Let_def)
qed

lemma launch_keeps_started:
  assumes inv: "mgr_inv m" and st: "started m rid"
  shows "started (snd (launch (client_sync_hooks lib) i b m)) rid"
  using st launch_keeps [OF inv, of rid "client_sync_hooks lib" i b]
  by (auto simp: started_def launch_def client_sync_hooks_def begin_sync_def set_syncing_def Let_def split: option.splits)

lemma enqueue_syncable [simp]:
  "syncable rid (client_of (enqueue (client_sync_hooks lib) rids m)) = syncable rid (client_of m)"
  by (induction rids arbitrary: m) simp_all

lemma enqueue_keeps_started:
  "mgr_inv m \<Longrightarrow> started m rid \<Longrightarrow> started (enqueue (client_sync_hooks lib) rids m) rid"
  by (induction rids arbitrary: m) (simp_all add: inv_launch launch_keeps_started)

lemma enqueue_starts:
  "mgr_inv m \<Longrightarrow> rid \<in> set rids \<Longrightarrow> syncable rid (client_of m) \<Longrightarrow>
   started (enqueue (client_sync_hooks lib) rids m) rid"
proof (induction rids arbitrary: m)
  case (Cons i rids)
  show ?case
  proof (cases "i = rid")
    case True
    have "hk_syncable (client_sync_hooks lib) rid (hooked m)" using Cons.prems by (simp add: client_sync_hooks_def)
    with True show ?thesis
      using enqueue_keeps_started [OF inv_launch launch_starts] Cons.prems by simp
  next
    case False
    with Cons show ?thesis by (simp add: inv_launch)
  qed
qed simp

lemma connector_reach_steps:
  assumes "(conn_step lib)\<^sup>*\<^sup>* m m'" "connector_reach lib raw_pin st loaded t0 w m"
  shows "connector_reach lib raw_pin st loaded t0 w m'"
  using assms by (induction rule: rtranclp_induct) (auto simp: connector_reach_def intro: mgr_reach.one_step)

lemma connector_reach_inv: "connector_reach lib raw_pin st loaded t0 w m \<Longrightarrow> mgr_inv m"
  unfolding connector_reach_def by (rule mgr_reach_inv)

text \<open>Handling any message, and replacing the providers, with any steps of other goroutines between its
parts, is a sequence of steps of the connector, so everything proved of its reachable states holds
before and after.\<close>

theorem handling_keeps_reachable:
  assumes "connector_reach lib raw_pin st loaded t0 w (gh_mgr h)" and "gaps_ok lib gap"
    and "case new of None \<Rightarrow> True | Some es \<Rightarrow> distinct (map fst es)"
  shows "connector_reach lib raw_pin st loaded t0 w (gh_mgr (fst (handle_git_message tf boot lib mroot gap msg h))) \<and>
    connector_reach lib raw_pin st loaded t0 w (swap_providers lib gap new (gh_mgr h))"
  using connector_reach_steps [OF handle_message_steps [OF assms(2)] assms(1)]
    connector_reach_steps [OF swap_providers_steps [OF assms(2,3)] assms(1)] by blast

text \<open>The repositories the handler lists as syncable, with the steps of others before that.\<close>

definition listed_repos :: "go_lib \<Rightarrow> gaps \<Rightarrow> config_wire \<Rightarrow> git_handler \<Rightarrow> repo_id list" where
  "listed_repos lib gap wire h =
     syncable_repos (client_of (gap 2 (reconcile_schedule (gap 1 (gap 0 (snd (accept_config lib wire (gh_mgr h))))))))"

text \<open>C36. When the handler of an accepted configuration has started its syncs, whatever steps of other
goroutines came between its parts and unless syncing is suspended, every repository it listed as
syncable and that can still be synced has a sync on the way that will claim the configuration then
in force, and the status says it is syncing unless that sync is the pending rerun of one still in
flight. (A repository that a replacement of the providers makes syncable after the listing is
started by that replacement.)\<close>

theorem accepted_config_synced:
  assumes "connector_reach lib raw_pin st loaded t0 w (gh_mgr h)" and "gaps_ok lib gap"
    and handled: "handle_config lib mroot gap wire h = (True, h')" and live: "\<not> critical_patch (client_of (gh_mgr h'))"
  shows "fmpred (\<lambda>rid r. if rid \<in> set (listed_repos lib gap wire h) \<and> can_sync r
      then covered (gh_mgr h') rid \<and>
        (rid \<in> rerun (gh_mgr h') \<or> st_state (repo_status_of tf rns r) = ''syncing'') else True) (repos (client_of (gh_mgr h')))"
proof (rule fmpredI)
  fix rid r
  assume r: "fmlookup (repos (client_of (gh_mgr h'))) rid = Some r"
  obtain accepted m where a: "accept_config lib wire (gh_mgr h) = (accepted, m)" by force
  define m1 where "m1 = gap 3 (gap 2 (reconcile_schedule (gap 1 (gap 0 m))))"
  have acc: "accepted" and h': "gh_mgr h' = start_syncs lib (listed_repos lib gap wire h) m1"
    using handled by (auto simp: handle_config_def a start_configured_def m1_def listed_repos_def Let_def)
  have "(conn_step lib)\<^sup>*\<^sup>* (gh_mgr h) m" using accept_config_steps [of lib "gh_mgr h" wire] by (simp add: a)
  then have "(conn_step lib)\<^sup>*\<^sup>* (gh_mgr h) m1" unfolding m1_def
    by (intro gap_steps [OF assms(2)] steps_trans [OF _ r_into_rtranclp [of "conn_step lib", OF reconcile_step]])
  then have inv: "mgr_inv m1" using connector_reach_steps assms(1) connector_reach_inv by blast
  have crit: "\<not> critical_patch (client_of m1)" if "listed_repos lib gap wire h \<noteq> []"
    using live h' that by (auto simp: start_syncs_def split: if_splits)
  have "covered (gh_mgr h') rid \<and> (rid \<in> rerun (gh_mgr h') \<or> st_state (repo_status_of tf rns r) = ''syncing'')"
    if l: "rid \<in> set (listed_repos lib gap wire h)" and c: "can_sync r"
  proof -
    from r c have "syncable rid (client_of (gh_mgr h'))" by (simp add: syncable_def)
    then have s1: "syncable rid (client_of m1)" by (simp add: h' start_syncs_def split: if_splits)
    have "started (gh_mgr h') rid"
      using enqueue_starts [OF inv l s1] crit l by (auto simp: h' start_syncs_def)
    then have "covered (gh_mgr h') rid" "rid \<in> rerun (gh_mgr h') \<or> rs_syncing r" using r by (auto simp: started_def)
    moreover have "st_state (repo_status_of tf rns r) = ''syncing''" if "rs_syncing r"
      using that c by (simp add: repo_status_of_def can_sync_def Let_def)
    ultimately show ?thesis by auto
  qed
  then show "if rid \<in> set (listed_repos lib gap wire h) \<and> can_sync r
      then covered (gh_mgr h') rid \<and> (rid \<in> rerun (gh_mgr h') \<or> st_state (repo_status_of tf rns r) = ''syncing'') else True"
    by simp
qed

text \<open>Without steps of others after the listing, those are all the repositories that can be synced.\<close>

lemma listed_syncable:
  assumes "handle_config lib mroot gap wire h = (True, h')" "gap 3 = id"
  shows "syncable rid (client_of (gh_mgr h')) \<longleftrightarrow> rid \<in> set (listed_repos lib gap wire h)"
proof -
  have listed: "rid \<in> set (syncable_repos c) \<longleftrightarrow> syncable rid c" for c
    by (auto simp: syncable_repos_def syncable_def fmlookup_dom'_iff split: option.splits)
  have kept: "syncable rid (client_of (start_syncs lib rids m)) = syncable rid (client_of m)" for rids m
    by (simp add: start_syncs_def)
  obtain accepted m where a: "accept_config lib wire (gh_mgr h) = (accepted, m)" by force
  have "gh_mgr h' = start_syncs lib (listed_repos lib gap wire h) (gap 2 (reconcile_schedule (gap 1 (gap 0 m))))"
    using assms by (auto simp: handle_config_def a start_configured_def listed_repos_def Let_def)
  then show ?thesis by (simp add: kept listed_repos_def listed a)
qed

section \<open>A first configuration\<close>

definition demo_start :: "string \<Rightarrow> git_handler" where
  "demo_start tok = \<lparr>gh_mgr = new_manager default_sync_concurrency
       \<lparr>cl = eng (init_engine demo_lib ''git.example:443'' (Some [(''corp'', demo_local tok)]) fmempty), clock = 0,
         rand_stream = (\<lambda>_. Fin 0)\<rparr>,
     gh_gc = new_mirror_gc, gh_seq = 0\<rparr>"

definition no_gaps :: gaps where
  "no_gaps = (\<lambda>_. id)"

lemma no_gaps_ok: "gaps_ok lib no_gaps"
  by (simp add: gaps_ok_def no_gaps_def)

lemma demo_start_reach:
  "connector_reach demo_lib ''git.example:443'' (Some [(''corp'', demo_local tok)]) fmempty 0 (\<lambda>_. Fin 0) (gh_mgr (demo_start tok))"
  unfolding connector_reach_def by (simp add: demo_start_def mgr_reach.fresh_manager)

lemma demo_accepted: "\<exists>n. apply_config demo_lib demo_wire (client_of (gh_mgr (demo_start tok))) = (Some n, demo_client tok)"
proof -
  define s0 where "s0 = init_engine demo_lib ''git.example:443'' (Some [(''corp'', demo_local tok)]) fmempty"
  have pin: "replica_host (eng s0) = ''git.example:443''"
    by (simp add: s0_def init_engine_def new_client_def demo_build demo_pin)
  obtain msg where msg: "check_config demo_lib ''git.example:443'' demo_wire =
      Inr (msg, default_limits, fmupd ''r1'' demo_repo fmempty)" using demo_check_config by blast
  have "client_of (gh_mgr (demo_start tok)) = eng s0" by (simp add: demo_start_def new_manager_def s0_def)
  moreover have "snd (apply_config demo_lib demo_wire (eng s0)) = demo_client tok"
    by (simp add: demo_client_def engine_after_def s0_def)
  moreover have "fst (apply_config demo_lib demo_wire (eng s0)) = Some (max_concurrency default_limits)"
    by (simp add: apply_config_def pin msg)
  ultimately show ?thesis by (intro exI) (auto simp: prod_eq_iff)
qed

theorem accepted_config_synced_witness:
  "\<exists>h' r. handle_config demo_lib ''/m'' no_gaps demo_wire (demo_start ''t'') = (True, h') \<and>
     fmlookup (repos (client_of (gh_mgr h'))) ''r1'' = Some r \<and> covered (gh_mgr h') ''r1''"
proof -
  obtain n where n: "apply_config demo_lib demo_wire (client_of (gh_mgr (demo_start ''t''))) = (Some n, demo_client ''t'')"
    using demo_accepted by blast
  obtain acc h' where h: "handle_config demo_lib ''/m'' no_gaps demo_wire (demo_start ''t'') = (acc, h')" by force
  then have acc: "acc" by (auto simp: handle_config_def accept_config_def n Let_def)
  define m where "m = set_client (demo_client ''t'') ((gh_mgr (demo_start ''t''))
      \<lparr>slot := (slot (gh_mgr (demo_start ''t'')))\<lparr>pool := resize n (pool (slot (gh_mgr (demo_start ''t''))))\<rparr>\<rparr>)"
  have m: "gh_mgr h' = start_syncs demo_lib (syncable_repos (client_of (reconcile_schedule m))) (reconcile_schedule m)"
    using h by (auto simp: handle_config_def accept_config_def n m_def Let_def start_configured_def no_gaps_def)
  have "client_of m = demo_client ''t''" by (simp add: m_def set_client_def)
  then have rec: "repos (client_of (reconcile_schedule m)) = repos (demo_client ''t'')"
    "critical_patch (client_of (reconcile_schedule m)) = critical_patch (demo_client ''t'')"
    by (simp_all add: reconcile_schedule_def set_client_def sched_reconcile_def)
  note c = demo_configured [of "''t''"]
  have s: "syncable ''r1'' (client_of (reconcile_schedule m))"
    using c by (simp add: syncable_def rec can_sync_def demo_bound_def demo_repo_def)
  have same: "syncable ''r1'' (client_of (gh_mgr h'))" using s by (simp add: m start_syncs_def)
  then obtain r where r: "fmlookup (repos (client_of (gh_mgr h'))) ''r1'' = Some r" "can_sync r"
    by (auto simp: syncable_def split: option.splits)
  have live: "\<not> critical_patch (client_of (gh_mgr h'))"
  proof -
    have "critical_patch (client_of (enqueue (client_sync_hooks demo_lib) rids m1)) = critical_patch (client_of m1)" for rids m1
      by (induction rids arbitrary: m1)
         (simp_all add: launch_def client_sync_hooks_def begin_sync_def set_syncing_def Let_def split: option.split)
    then show ?thesis using c by (simp add: m start_syncs_def rec)
  qed
  have h1: "handle_config demo_lib ''/m'' no_gaps demo_wire (demo_start ''t'') = (True, h')" using h acc by simp
  have "''r1'' \<in> set (listed_repos demo_lib no_gaps demo_wire (demo_start ''t''))"
    using listed_syncable [OF h1, of "''r1''"] same by (simp add: no_gaps_def)
  with accepted_config_synced [OF demo_start_reach no_gaps_ok h1 live,
      where tf = "\<lparr>tf_nano = \<lambda>_. [], tf_seconds = \<lambda>_. [], tf_parse = \<lambda>_. None\<rparr>" and rns = fmempty] r
  have "covered (gh_mgr h') ''r1''" by (auto dest: fmpredD)
  with h1 r show ?thesis by blast
qed

theorem handling_keeps_reachable_witness:
  "connector_reach demo_lib ''git.example:443'' (Some [(''corp'', demo_local ''t'')]) fmempty 0 (\<lambda>_. Fin 0)
     (gh_mgr (fst (handle_git_message \<lparr>tf_nano = \<lambda>_. [], tf_seconds = \<lambda>_. [], tf_parse = \<lambda>_. None\<rparr> ''b'' demo_lib ''/m'' no_gaps
        (ConfigMsg demo_wire) (demo_start ''t''))))"
  using handling_keeps_reachable [OF demo_start_reach no_gaps_ok, of None] by simp

end
