(* ===== verification/PushPlan.thy ===== *)
theory PushPlan
  imports SyncStats "HOL-Library.Multiset"
begin

text \<open>
  The plan of a batched push (\<open>gitsync/pushbatch.go\<close>): the parser of \<open>git push --dry-run --porcelain\<close>
  output, the choice of the refs that can go in explicit batches, and the batches themselves.
\<close>

section \<open>Ref names\<close>

definition max_batch_arg_bytes :: nat where
  "max_batch_arg_bytes = 65536"

definition max_plan_bytes :: nat where
  "max_plan_bytes = 67108864"

definition max_plan_ref_len :: nat where
  "max_plan_ref_len = 4096"

definition max_plan_line :: nat where
  "max_plan_line = 2 * max_plan_ref_len + 256"

definition max_batch_ref_len :: nat where
  "max_batch_ref_len = 1024"

definition heads :: string where
  "heads = ''refs/heads/''"

definition tags :: string where
  "tags = ''refs/tags/''"

text \<open>\<open>strings.CutPrefix\<close> with the one, then the other prefix.\<close>

definition cut_ref :: "string \<Rightarrow> string option" where
  "cut_ref name =
     (if prefix heads name then Some (drop (length heads) name)
      else if prefix tags name then Some (drop (length tags) name) else None)"

definition is_shadow :: "string \<Rightarrow> bool" where
  "is_shadow name = (case cut_ref name of None \<Rightarrow> False | Some rest \<Rightarrow> prefix ''refs/'' rest)"

definition bad_ref_char :: "char \<Rightarrow> bool" where
  "bad_ref_char c \<longleftrightarrow> byte c < 0x20 \<or> byte c = 0x7f \<or> c \<in> set ('' :*?['' @ [CHR 0x5C] @ ''^~'')"

definition valid_push_ref :: "string \<Rightarrow> bool" where
  "valid_push_ref name =
     (case cut_ref name of
        None \<Rightarrow> False
      | Some rest \<Rightarrow> rest \<noteq> [] \<and> length name \<le> max_plan_ref_len \<and> \<not> list_ex bad_ref_char name)"

section \<open>The plan parser\<close>

record push_plan =
  upserts :: "string list"
  deletes :: "string list"
  shadows :: "string set"
  pl_line :: string
  over_long :: bool
  retained :: nat
  pl_bad :: bool

definition new_push_plan :: push_plan where
  "new_push_plan =
     \<lparr>upserts = [], deletes = [], shadows = {}, pl_line = [], over_long = False, retained = 0, pl_bad = False\<rparr>"

text \<open>The second field of a status line: what lies between its first tab and the next one.\<close>

definition pl_field :: "string \<Rightarrow> string" where
  "pl_field line = takeWhile (\<lambda>c. c \<noteq> tab) (drop 2 line)"

definition retain_ref :: "char \<Rightarrow> string \<Rightarrow> push_plan \<Rightarrow> push_plan" where
  "retain_ref fl to p =
     (let shadow = is_shadow to;
          p1 = (if fl \<noteq> CHR ''='' \<or> shadow then p\<lparr>retained := retained p + length to\<rparr> else p)
      in if (fl \<noteq> CHR ''='' \<or> shadow) \<and> max_plan_bytes < retained p1 then p1\<lparr>pl_bad := True\<rparr>
         else
           (let p2 = (if shadow then p1\<lparr>shadows := insert to (shadows p1)\<rparr> else p1)
            in if fl = CHR ''-'' then p2\<lparr>deletes := deletes p2 @ [to]\<rparr>
               else if fl = CHR ''='' then p2
               else p2\<lparr>upserts := upserts p2 @ [to]\<rparr>))"

definition pl_end_line :: "push_plan \<Rightarrow> push_plan" where
  "pl_end_line p0 =
     (let line = pl_line p0; over = over_long p0; p = p0\<lparr>pl_line := [], over_long := False\<rparr>
      in if length line < 2 \<or> line ! 1 \<noteq> tab then p
         else if line ! 0 \<notin> set ''* +-='' then p
         else if over then p\<lparr>pl_bad := True\<rparr>
         else
           (let fl = line ! 0; (from_ref, to, ok) = cut (CHR '':'') (pl_field line)
            in if \<not> ok \<or> \<not> valid_push_ref to then p\<lparr>pl_bad := True\<rparr>
               else if fl = CHR ''-'' \<and> from_ref \<noteq> [] then p\<lparr>pl_bad := True\<rparr>
               else if fl \<noteq> CHR ''-'' \<and> from_ref \<noteq> to then p\<lparr>pl_bad := True\<rparr>
               else retain_ref fl to p))"

definition pl_byte :: "char \<Rightarrow> push_plan \<Rightarrow> push_plan" where
  "pl_byte c p =
     (if c = newline then pl_end_line p
      else if length (pl_line p) < max_plan_line then p\<lparr>pl_line := pl_line p @ [c]\<rparr>
      else p\<lparr>over_long := True\<rparr>)"

definition pl_write :: "string \<Rightarrow> push_plan \<Rightarrow> push_plan" where
  "pl_write b p = fold pl_byte b p"

definition unusable :: "push_plan \<Rightarrow> bool \<times> push_plan" where
  "unusable p = (let p1 = pl_end_line p in (pl_bad p1, p1))"

section \<open>The batches\<close>

text \<open>The directories of a ref name: its prefixes up to, and without, a slash.\<close>

definition dirs_of :: "string \<Rightarrow> string list" where
  "dirs_of d = [take i d. i \<leftarrow> [0..<length d], d ! i = CHR ''/'']"

definition conflicting :: "string list \<Rightarrow> string set \<Rightarrow> string \<Rightarrow> bool" where
  "conflicting dels shads u \<longleftrightarrow>
     max_batch_ref_len < length u \<or>
     list_ex (\<lambda>d. u \<in> set (dirs_of d)) dels \<or>
     (heads @ u \<in> shads \<or> tags @ u \<in> shads) \<or>
     list_ex (\<lambda>p. p \<in> set dels) (dirs_of u)"

definition split_conflicts :: "string list \<Rightarrow> string list \<Rightarrow> string set \<Rightarrow> string list \<times> string list" where
  "split_conflicts ups dels shads =
     (filter (\<lambda>u. \<not> conflicting dels shads u) ups, filter (conflicting dels shads) ups)"

definition spec_cost :: "string \<Rightarrow> nat" where
  "spec_cost r = 2 * length r + 3"

fun partition_loop :: "int \<Rightarrow> nat \<Rightarrow> string list \<Rightarrow> string list \<Rightarrow> nat \<Rightarrow> string list list" where
  "partition_loop max_refs max_bytes [] cur sz = (if cur \<noteq> [] then [cur] else [])"
| "partition_loop max_refs max_bytes (r # rs) cur sz =
     (if cur \<noteq> [] \<and> (int (length cur) \<ge> max_refs \<or> sz + spec_cost r > max_bytes)
      then cur # partition_loop max_refs max_bytes rs [r] (spec_cost r)
      else partition_loop max_refs max_bytes rs (cur @ [r]) (sz + spec_cost r))"

definition partition_batches :: "string list \<Rightarrow> int \<Rightarrow> nat \<Rightarrow> string list list" where
  "partition_batches rs max_refs max_bytes = partition_loop max_refs max_bytes rs [] 0"

section \<open>The parser against the whole output\<close>

text \<open>What one line of the output says: nothing, that the plan cannot be trusted, or a ref.\<close>

datatype plan_row = NoRow | BadRow | RefRow (row_flag: char) (row_ref: string)

definition field_row :: "char \<Rightarrow> string \<Rightarrow> plan_row" where
  "field_row f s =
     (case split_on (CHR '':'') s of
        x # y # ys \<Rightarrow>
          if valid_push_ref (join '':'' (y # ys)) \<and> (if f = CHR ''-'' then x = [] else x = join '':'' (y # ys))
          then RefRow f (join '':'' (y # ys)) else BadRow
      | _ \<Rightarrow> BadRow)"

definition plan_row :: "string \<Rightarrow> plan_row" where
  "plan_row l =
     (if length l < 2 \<or> l ! 1 \<noteq> tab \<or> l ! 0 \<notin> set ''* +-='' then NoRow
      else if max_plan_line < length l then BadRow
      else field_row (l ! 0) (pl_field l))"

fun kept_row :: "plan_row \<Rightarrow> bool" where
  "kept_row (RefRow f n) \<longleftrightarrow> f \<noteq> CHR ''='' \<or> is_shadow n"
| "kept_row _ \<longleftrightarrow> False"

fun row_size :: "plan_row \<Rightarrow> nat" where
  "row_size (RefRow f n) = length n"
| "row_size _ = 0"

definition plan_size :: "plan_row list \<Rightarrow> nat" where
  "plan_size rows = sum_list (map row_size (filter kept_row rows))"

fun add_plan_row :: "plan_row \<Rightarrow> push_plan \<Rightarrow> push_plan" where
  "add_plan_row NoRow p = p"
| "add_plan_row BadRow p = p\<lparr>pl_bad := True\<rparr>"
| "add_plan_row (RefRow f n) p = retain_ref f n p"

definition mid_plan :: "push_plan \<Rightarrow> string \<Rightarrow> push_plan" where
  "mid_plan p l = p\<lparr>pl_line := take max_plan_line l, over_long := (max_plan_line < length l)\<rparr>"

definition clear_line :: "push_plan \<Rightarrow> bool" where
  "clear_line p \<longleftrightarrow> pl_line p = [] \<and> \<not> over_long p"

lemma plan_line_pos: "2 \<le> max_plan_line"
  by (simp add: max_plan_line_def max_plan_ref_len_def)

lemma split_cut:
  "split_on d s = (case cut d s of (x, y, ok) \<Rightarrow> if ok then x # split_on d y else [s])"
proof (induction s)
  case (Cons c s)
  then show ?case by (cases "c = d") (auto simp: cut_def split: if_splits)
qed (simp add: cut_def)

lemma field_row_cut:
  assumes "cut (CHR '':'') s = (x, y, ok)"
  shows "field_row f s = (if ok \<and> valid_push_ref y \<and> (if f = CHR ''-'' then x = [] else x = y) then RefRow f y else BadRow)"
proof (cases ok)
  case True
  obtain b bs where b: "split_on (CHR '':'') y = b # bs" by (cases "split_on (CHR '':'') y") auto
  have "join '':'' (b # bs) = y" using join_split_on [of "CHR '':''" y] b by simp
  moreover have "split_on (CHR '':'') s = x # b # bs" using assms True b split_cut [of "CHR '':''" s] by simp
  ultimately show ?thesis using True by (simp add: field_row_def del: join.simps)
next
  case False
  with assms have "split_on (CHR '':'') s = [s]" using split_cut [of "CHR '':''" s] by simp
  with False show ?thesis by (simp add: field_row_def)
qed

lemma end_mid_plan:
  assumes "clear_line p"
  shows "pl_end_line (mid_plan p l) = add_plan_row (plan_row l) p"
proof -
  have p: "p\<lparr>pl_line := [], over_long := False\<rparr> = p" using assms by (cases p) (simp add: clear_line_def)
  have short: "length (take max_plan_line l) < 2 \<longleftrightarrow> length l < 2" using plan_line_pos by auto
  have nth: "\<not> length l < 2 \<Longrightarrow> take max_plan_line l ! 1 = l ! 1 \<and> take max_plan_line l ! 0 = l ! 0"
    using plan_line_pos by simp
  obtain x y ok where c: "cut (CHR '':'') (pl_field l) = (x, y, ok)" by (metis prod_cases3)
  note row = field_row_cut [OF c]
  show ?thesis
  proof (cases "length l < 2 \<or> l ! 1 \<noteq> tab \<or> l ! 0 \<notin> set ''* +-=''")
    case True
    then show ?thesis
      using short nth p by (auto simp: pl_end_line_def mid_plan_def plan_row_def  Let_def)
  next
    case False
    show ?thesis
    proof (cases "max_plan_line < length l")
      case True
      with False short nth p show ?thesis
        by (simp add: pl_end_line_def mid_plan_def plan_row_def  Let_def)
    next
      case over: False
      then have "take max_plan_line l = l" by simp
      then have "pl_end_line (mid_plan p l) =
          (if ok \<and> valid_push_ref y \<and> (if l ! 0 = CHR ''-'' then x = [] else x = y)
           then retain_ref (l ! 0) y p else p\<lparr>pl_bad := True\<rparr>)"
        using False over p c by (simp add: pl_end_line_def mid_plan_def Let_def)
      moreover have "plan_row l = field_row (l ! 0) (pl_field l)" using False over by (simp add: plan_row_def)
      ultimately show ?thesis by (simp add: row )
    qed
  qed
qed

lemma clear_add [simp]: "clear_line p \<Longrightarrow> clear_line (add_plan_row r p)"
  by (cases r) (simp_all add:  retain_ref_def clear_line_def Let_def)

lemma clear_fold [simp]: "clear_line p \<Longrightarrow> clear_line (fold add_plan_row rows p)"
  by (induction rows arbitrary: p) simp_all

lemma mid_plan_nil: "clear_line p \<Longrightarrow> mid_plan p [] = p"
  by (cases p) (simp add: mid_plan_def clear_line_def)

text \<open>The lines of the output, folded over, are the parser's state; the unfinished last line is its buffer.\<close>

lemma plan_stream:
  "pl_end_line (fold pl_write chunks new_push_plan) =
     fold add_plan_row (map plan_row (split_on newline (concat chunks))) new_push_plan"
proof -
  let ?f = "\<lambda>l p. add_plan_row (plan_row l) p"
  have clear: "clear_line new_push_plan" by (simp add: clear_line_def new_push_plan_def)
  define mid where "mid q l = mid_plan (fold add_plan_row q new_push_plan) l" for q l
  have step: "pl_byte c (mid q l) = mid q (l @ [c])" if "c \<noteq> newline" for q l c
  proof -
    obtain p where p: "p = fold add_plan_row q new_push_plan" by blast
    show ?thesis
      unfolding mid_def p [symmetric] using that by (cases p) (auto simp: mid_plan_def pl_byte_def Let_def)
  qed
  have finish: "pl_byte newline (mid q l) = mid (q @ [plan_row l]) []" for q l
  proof -
    have c: "clear_line (fold add_plan_row q new_push_plan)" using clear by simp
    then show ?thesis
      by (simp add: mid_def pl_byte_def end_mid_plan [OF c] mid_plan_nil)
  qed
  have w: "pl_write = fold pl_byte" by (simp add: pl_write_def fun_eq_iff)
  have new: "new_push_plan = mid [] []" using clear by (simp add: mid_def mid_plan_nil)
  let ?ls = "split_on newline (concat chunks)"
  have acc: "fold (\<lambda>l q. q @ [plan_row l]) ls q = q @ map plan_row ls" for ls q
    by (induction ls arbitrary: q) simp_all
  have "fold pl_write chunks new_push_plan = mid (fold (\<lambda>l q. q @ [plan_row l]) (butlast ?ls) []) (List.last ?ls)"
    unfolding w fold_concat new
    by (rule fold_lines_new [where f = pl_byte and mid = mid and count = "\<lambda>l q. q @ [plan_row l]"])
      (simp_all add: step finish)
  then have "pl_end_line (fold pl_write chunks new_push_plan) =
      add_plan_row (plan_row (List.last ?ls)) (fold add_plan_row (map plan_row (butlast ?ls)) new_push_plan)"
    using end_mid_plan [of "fold add_plan_row (map plan_row (butlast ?ls)) new_push_plan"] clear
    by (simp add: mid_def acc)
  also have "\<dots> = fold add_plan_row (map plan_row (butlast ?ls @ [List.last ?ls])) new_push_plan"
    unfolding map_append fold_append by simp
  also have "butlast ?ls @ [List.last ?ls] = ?ls" by (simp add: append_butlast_last_id)
  finally show ?thesis .
qed

text \<open>What the rows add up to.\<close>

lemma retain_kept:
  assumes "kept_row (RefRow f n)"
  shows "retained (retain_ref f n p) = retained p + length n"
    "pl_bad (retain_ref f n p) \<longleftrightarrow> pl_bad p \<or> max_plan_bytes < retained p + length n"
  using assms by (auto simp: retain_ref_def Let_def)

lemma retain_unkept:
  "\<not> kept_row (RefRow f n) \<Longrightarrow> retain_ref f n p = p"
  by (auto simp: retain_ref_def Let_def)

lemma rows_bad:
  "(pl_bad (fold add_plan_row rows p) \<longleftrightarrow>
      pl_bad p \<or> BadRow \<in> set rows \<or>
      (filter kept_row rows \<noteq> [] \<and> max_plan_bytes < retained p + plan_size rows))"
proof (induction rows arbitrary: p)
  case (Cons r rows)
  have tail: "filter kept_row rows = [] \<Longrightarrow> plan_size rows = 0" by (simp add: plan_size_def)
  show ?case
  proof (cases r)
    case NoRow
    with Cons.IH show ?thesis by (simp add:  plan_size_def)
  next
    case BadRow
    with Cons.IH show ?thesis by (simp add:  plan_size_def)
  next
    case (RefRow f n)
    show ?thesis
    proof (cases "kept_row r")
      case True
      with RefRow Cons.IH [of "retain_ref f n p"] retain_kept [of f n p] tail show ?thesis
        by (auto simp:  plan_size_def)
    next
      case False
      with RefRow Cons.IH [of p] show ?thesis by (simp add:  retain_unkept plan_size_def)
    qed
  qed
qed simp

definition row_names :: "char set \<Rightarrow> plan_row list \<Rightarrow> string list" where
  "row_names fs rows = [n. RefRow f n \<leftarrow> rows, f \<in> fs]"

lemma row_names_simps [simp]:
  "row_names fs [] = []" "row_names fs (NoRow # rows) = row_names fs rows"
  "row_names fs (BadRow # rows) = row_names fs rows"
  "row_names fs (RefRow f n # rows) = (if f \<in> fs then [n] else []) @ row_names fs rows"
  by (simp_all add: row_names_def)

lemma bad_stays: "pl_bad p \<Longrightarrow> pl_bad (fold add_plan_row rows p)"
  by (simp add: rows_bad)

lemma retain_ok:
  assumes "\<not> pl_bad (retain_ref f n p)"
  shows "upserts (retain_ref f n p) = upserts p @ (if f \<in> {CHR ''-'', CHR ''=''} then [] else [n])"
    "deletes (retain_ref f n p) = deletes p @ (if f = CHR ''-'' then [n] else [])"
    "shadows (retain_ref f n p) = shadows p \<union> (if is_shadow n then {n} else {})"
  using assms by (auto simp: retain_ref_def Let_def split: if_splits)

lemma rows_ok:
  assumes "\<not> pl_bad (fold add_plan_row rows p)" and "\<forall>f n. RefRow f n \<in> set rows \<longrightarrow> f \<in> set ''* +-=''"
  shows "upserts (fold add_plan_row rows p) = upserts p @ row_names (set ''* +'') rows \<and>
    deletes (fold add_plan_row rows p) = deletes p @ row_names (set ''-'') rows \<and>
    shadows (fold add_plan_row rows p) = shadows p \<union> {n \<in> set (row_names (set ''* +-='') rows). is_shadow n}"
  using assms
proof (induction rows arbitrary: p)
  case (Cons r rows)
  show ?case
  proof (cases r)
    case NoRow
    with Cons.IH [of p] Cons.prems show ?thesis by simp
  next
    case BadRow
    with Cons.prems bad_stays [of "p\<lparr>pl_bad := True\<rparr>"] show ?thesis by simp
  next
    case (RefRow f n)
    have f: "f \<in> set ''* +-=''" using Cons.prems(2) RefRow by auto
    have ok: "\<not> pl_bad (retain_ref f n p)"
      using Cons.prems(1) RefRow bad_stays by auto
    have good: "\<not> pl_bad (fold add_plan_row rows (retain_ref f n p))"
      using Cons.prems(1) RefRow by simp
    have flags: "\<forall>f n. RefRow f n \<in> set rows \<longrightarrow> f \<in> set ''* +-=''"
      using Cons.prems(2) by (meson list.set_intros(2))
    note IH = Cons.IH [OF good flags]
    show ?thesis
    proof (intro conjI)
      show "upserts (fold add_plan_row (r # rows) p) = upserts p @ row_names (set ''* +'') (r # rows)"
        using f by (auto simp: RefRow IH retain_ok [OF ok])
      show "deletes (fold add_plan_row (r # rows) p) = deletes p @ row_names (set ''-'') (r # rows)"
        using f by (auto simp: RefRow IH retain_ok [OF ok])
      show "shadows (fold add_plan_row (r # rows) p) =
          shadows p \<union> {n \<in> set (row_names (set ''* +-='') (r # rows)). is_shadow n}"
        using f by (auto simp: RefRow IH retain_ok [OF ok])
    qed
  qed
qed simp

lemma plan_row_flag: "plan_row l = RefRow f n \<Longrightarrow> f \<in> set ''* +-='' \<and> valid_push_ref n"
  by (auto simp: plan_row_def field_row_def split: if_splits list.splits)

text \<open>C32. However its output is split into writes, the plan read from git push --dry-run --porcelain is
refused exactly when some status line is malformed, names an invalid ref or the names kept exceed
their bound; otherwise it lists exactly the refs to write, to delete and the shadowing names, all of
them valid.\<close>

theorem push_plan_exact:
  "let (bad, p) = unusable (fold pl_write chunks new_push_plan);
       rows = map plan_row (split_on newline (concat chunks))
   in (bad \<longleftrightarrow> BadRow \<in> set rows \<or> max_plan_bytes < plan_size rows) \<and>
      (bad \<or> (upserts p = row_names (set ''* +'') rows \<and> deletes p = row_names (set ''-'') rows \<and>
              shadows p = {n \<in> set (row_names (set ''* +-='') rows). is_shadow n} \<and>
              list_all valid_push_ref (upserts p @ deletes p)))"
proof -
  let ?rows = "map plan_row (split_on newline (concat chunks))"
  let ?p = "fold add_plan_row ?rows new_push_plan"
  have u: "unusable (fold pl_write chunks new_push_plan) = (pl_bad ?p, ?p)"
    by (simp only: unusable_def Let_def plan_stream)
  have e: "filter kept_row ?rows = [] \<Longrightarrow> plan_size ?rows = 0" by (simp add: plan_size_def)
  have bad: "pl_bad ?p \<longleftrightarrow> BadRow \<in> set ?rows \<or> max_plan_bytes < plan_size ?rows"
    using rows_bad [of ?rows new_push_plan] e by (auto simp: new_push_plan_def)
  have flags: "\<forall>f n. RefRow f n \<in> set ?rows \<longrightarrow> f \<in> set ''* +-=''" 
  proof (intro allI impI)
    fix f n assume "RefRow f n \<in> set ?rows"
    then obtain l where "plan_row l = RefRow f n" by auto
    then show "f \<in> set ''* +-=''" using plan_row_flag by blast
  qed
  have valid: "valid_push_ref n" if names: "n \<in> set (row_names fs ?rows)" for fs n
  proof -
    obtain l f where "RefRow f n = plan_row l"
      using names by (auto simp: row_names_def split: plan_row.splits if_splits)
    then have "plan_row l = RefRow f n" by simp
    then show ?thesis using plan_row_flag by blast
  qed
  show ?thesis
    unfolding u Let_def prod.case
    using bad rows_ok [OF _ flags, of new_push_plan] valid
    by (auto simp: new_push_plan_def list_all_iff)
qed

section \<open>Properties of the batches\<close>

lemma set_dirs_of: "set (dirs_of d) = (\<lambda>i. take i d) ` {i. i < length d \<and> d ! i = CHR ''/''}"
  by (auto simp: dirs_of_def)

lemma dirs_of_iff: "p \<in> set (dirs_of d) \<longleftrightarrow> prefix (p @ ''/'') d"
proof
  assume "p \<in> set (dirs_of d)"
  then obtain i where i: "i < length d" "d ! i = CHR ''/''" "p = take i d"
    unfolding set_dirs_of by blast
  then have "take (Suc i) d = p @ ''/''" by (simp add: take_Suc_conv_app_nth)
  then show "prefix (p @ ''/'') d" by (metis take_is_prefix)
next
  assume "prefix (p @ ''/'') d"
  then obtain r where r: "d = (p @ ''/'') @ r" by (rule prefixE)
  show "p \<in> set (dirs_of d)"
    unfolding set_dirs_of by (rule image_eqI [of _ _ "length p"]) (simp_all add: r nth_append)
qed

lemma ex_dirs: "list_ex (\<lambda>p. p \<in> set dels) (dirs_of u) \<longleftrightarrow> (\<exists>d\<in>set dels. prefix (d @ ''/'') u)"
  unfolding list_ex_iff dirs_of_iff [symmetric] by blast

lemma not_conflicting:
  "\<not> conflicting dels shads u \<longleftrightarrow> length u \<le> max_batch_ref_len \<and>
     list_all (\<lambda>d. \<not> prefix (u @ ''/'') d \<and> \<not> prefix (d @ ''/'') u) dels \<and> heads @ u \<notin> shads \<and> tags @ u \<notin> shads"
  unfolding conflicting_def ex_dirs unfolding list_ex_iff list_all_iff dirs_of_iff by (simp add: not_less) blast

text \<open>splitConflicts loses no ref and batches exactly those that are short enough, are no directory of a
deleted ref and have none as theirs, and are not made ambiguous by a shadowing name; their order is
kept.\<close>

theorem split_conflicts_exact:
  "let (free, held) = split_conflicts ups dels shads
   in (\<forall>u. u \<in> set free \<longleftrightarrow> u \<in> set ups \<and> length u \<le> max_batch_ref_len \<and>
         list_all (\<lambda>d. \<not> prefix (u @ ''/'') d \<and> \<not> prefix (d @ ''/'') u) dels \<and>
         heads @ u \<notin> shads \<and> tags @ u \<notin> shads) \<and>
      subseq free ups \<and> mset free + mset held = mset ups"
proof -
  have "mset (filter (\<lambda>u. \<not> conflicting dels shads u) ups) + mset (filter (conflicting dels shads) ups) = mset ups"
    by (induction ups) simp_all
  then show ?thesis unfolding split_conflicts_def Let_def prod.case by (simp add: not_conflicting list_all_iff)
qed

definition batch_cost :: "string list \<Rightarrow> nat" where
  "batch_cost b = sum_list (map spec_cost b)"

definition batch_fits :: "int \<Rightarrow> nat \<Rightarrow> string list \<Rightarrow> bool" where
  "batch_fits max_refs max_bytes b \<longleftrightarrow>
     b \<noteq> [] \<and> (length b = 1 \<or> (int (length b) \<le> max_refs \<and> batch_cost b \<le> max_bytes))"

text \<open>No batch but the last could have taken the first ref of its successor.\<close>

fun greedy :: "int \<Rightarrow> nat \<Rightarrow> string list list \<Rightarrow> bool" where
  "greedy max_refs max_bytes (b # b' # bs) \<longleftrightarrow>
     (int (length b) \<ge> max_refs \<or> batch_cost b + spec_cost (hd b') > max_bytes) \<and>
     greedy max_refs max_bytes (b' # bs)"
| "greedy max_refs max_bytes _ \<longleftrightarrow> True"

lemma partition_loop_concat: "concat (partition_loop mr mb rs cur sz) = cur @ rs"
  by (induction mr mb rs cur sz rule: partition_loop.induct) auto

lemma partition_loop_fits:
  assumes "cur = [] \<or> batch_fits mr mb cur" and "sz = batch_cost cur" and "b \<in> set (partition_loop mr mb rs cur sz)"
  shows "batch_fits mr mb b"
  using assms
proof (induction mr mb rs cur sz rule: partition_loop.induct)
  case (2 mr mb r rs cur sz)
  have one: "batch_fits mr mb [r]" "spec_cost r = batch_cost [r]" by (simp_all add: batch_fits_def batch_cost_def)
  show ?case
  proof (cases "cur \<noteq> [] \<and> (int (length cur) \<ge> mr \<or> sz + spec_cost r > mb)")
    case True
    then have "b = cur \<or> b \<in> set (partition_loop mr mb rs [r] (spec_cost r))" using 2(5) by simp
    then show ?thesis using True 2(1) [OF True] 2(3) one by blast
  next
    case False
    have "batch_fits mr mb (cur @ [r])"
    proof (cases "cur = []")
      case True
      then show ?thesis using one by simp
    next
      case cur: False
      with False 2(4) show ?thesis by (simp add: batch_fits_def batch_cost_def)
    qed
    moreover have "sz + spec_cost r = batch_cost (cur @ [r])" using 2(4) by (simp add: batch_cost_def)
    moreover have "b \<in> set (partition_loop mr mb rs (cur @ [r]) (sz + spec_cost r))" using 2(5) False by (simp only: partition_loop.simps if_False)
    ultimately show ?thesis using 2(2) [OF False] by blast
  qed
qed (auto split: if_splits)

lemma partition_loop_hd:
  "cur \<noteq> [] \<Longrightarrow> \<exists>ys bs. partition_loop mr mb rs cur sz = (cur @ ys) # bs"
proof (induction mr mb rs cur sz rule: partition_loop.induct)
  case (2 mr mb r rs cur sz)
  show ?case
  proof (cases "int (length cur) \<ge> mr \<or> sz + spec_cost r > mb")
    case True
    with 2 show ?thesis by auto
  next
    case False
    with 2 obtain ys bs where "partition_loop mr mb rs (cur @ [r]) (sz + spec_cost r) = ((cur @ [r]) @ ys) # bs" by auto
    with False 2(3) show ?thesis by auto
  qed
qed auto

lemma greedy_Cons:
  "greedy mr mb (b # bs) \<longleftrightarrow>
     (bs = [] \<or> ((int (length b) \<ge> mr \<or> batch_cost b + spec_cost (hd (hd bs)) > mb) \<and> greedy mr mb bs))"
  by (cases bs) auto

lemma partition_loop_greedy: "sz = batch_cost cur \<Longrightarrow> greedy mr mb (partition_loop mr mb rs cur sz)"
proof (induction mr mb rs cur sz rule: partition_loop.induct)
  case (2 mr mb r rs cur sz)
  have one: "spec_cost r = batch_cost [r]" by (simp add: batch_cost_def)
  show ?case
  proof (cases "cur \<noteq> [] \<and> (int (length cur) \<ge> mr \<or> sz + spec_cost r > mb)")
    case True
    obtain ys bs where e: "partition_loop mr mb rs [r] (spec_cost r) = ([r] @ ys) # bs"
      using partition_loop_hd [of "[r]"] by blast
    have "greedy mr mb (partition_loop mr mb rs [r] (spec_cost r))" using 2(1) [OF True one] .
    with True e 2(3) show ?thesis by (simp add: greedy_Cons [of _ _ cur])
  next
    case False
    have "sz + spec_cost r = batch_cost (cur @ [r])" using 2(3) by (simp add: batch_cost_def)
    from 2(2) [OF False this] False show ?thesis by (simp only: partition_loop.simps if_False)
  qed
qed simp

text \<open>C33. partitionBatches cuts the refs, in order and without loss, into non-empty batches within both
bounds (a single ref too large for the byte bound excepted), and starts a new batch only when the
next ref would not fit.\<close>

theorem batches_partition:
  "let bs = partition_batches rs mr mb
   in concat bs = rs \<and> list_all (batch_fits mr mb) bs \<and> greedy mr mb bs"
  unfolding Let_def partition_batches_def
  using partition_loop_concat partition_loop_fits [of "[]" mr mb 0] partition_loop_greedy [of 0 "[]"]
  by (auto simp: list_all_iff batch_cost_def)

end
