(* ===== verification/Lfs.thy ===== *)
theory Lfs
  imports GoText SyncStats
begin

text \<open>
  Reading a repository's root \<open>.gitattributes\<close> from its mirror (\<open>gitsync/lfs.go\<close>): the entry printed by
  \<open>git ls-tree\<close>, and the streaming scanner that looks for a line assigning the LFS filter. The two git
  processes that feed them are part of theory SyncRun.
\<close>

section \<open>Bounds and buffers\<close>

definition max_attributes_bytes :: nat where
  "max_attributes_bytes = 1048576"

definition max_attributes_line :: nat where
  "max_attributes_line = 2048"

definition max_ls_tree_output :: nat where
  "max_ls_tree_output = 1024"

definition attributes_file :: string where
  "attributes_file = ''.gitattributes''"

definition lfs_filter_attribute :: string where
  "lfs_filter_attribute = ''filter=lfs''"

definition utf8_bom :: string where
  "utf8_bom = [CHR 0xEF, CHR 0xBB, CHR 0xBF]"

definition attribute_blanks :: string where
  "attribute_blanks = [CHR '' '', tab, CHR 0x0D]"

record capped_buffer =
  cb_max :: nat
  cb_buf :: string
  cb_over :: bool

definition new_capped_buffer :: "nat \<Rightarrow> capped_buffer" where
  "new_capped_buffer n = \<lparr>cb_max = n, cb_buf = [], cb_over = False\<rparr>"

definition cb_write :: "string \<Rightarrow> capped_buffer \<Rightarrow> capped_buffer" where
  "cb_write p b =
     (let room = cb_max b - length (cb_buf b)
      in if room < length p then b\<lparr>cb_over := True, cb_buf := cb_buf b @ take room p\<rparr>
         else b\<lparr>cb_buf := cb_buf b @ p\<rparr>)"

section \<open>The entry of the attributes file\<close>

datatype entry_error = AttributesAbsent | AttributesTooLarge | AttributesMalformed

definition valid_object_id :: "string \<Rightarrow> bool" where
  "valid_object_id s \<longleftrightarrow> (length s = 40 \<or> length s = 64) \<and> list_all is_hex_lower s"

text \<open>\<open>strconv.ParseUint(s, 10, 63)\<close>.\<close>

definition parse_uint63 :: "string \<Rightarrow> nat option" where
  "parse_uint63 s = (if s \<noteq> [] \<and> list_all is_digit s \<and> of_digits s < 2 ^ 63 then Some (of_digits s) else None)"

definition parse_attributes_entry :: "string \<Rightarrow> entry_error + string" where
  "parse_attributes_entry out =
     (if out = [] then Inl AttributesAbsent
      else if \<not> suffix [CHR 0x00] out then Inl AttributesMalformed
      else
        (let (meta, path, ok) = cut tab (butlast out); fs = text_fields meta
         in if \<not> ok \<or> path \<noteq> attributes_file then Inl AttributesMalformed
            else (case fs of
                [mode, typ, object, sz] \<Rightarrow>
                  if mode = ''120000'' \<or> mode = ''040000'' \<or> mode = ''160000'' then Inl AttributesAbsent
                  else if (mode \<noteq> ''100644'' \<and> mode \<noteq> ''100755'') \<or> typ \<noteq> ''blob'' \<or> \<not> valid_object_id object
                  then Inl AttributesMalformed
                  else (case parse_uint63 sz of
                      None \<Rightarrow> Inl AttributesMalformed
                    | Some n \<Rightarrow> if max_attributes_bytes < n then Inl AttributesTooLarge else Inr object)
              | _ \<Rightarrow> Inl AttributesMalformed)))"

section \<open>A line of the attributes file\<close>

text \<open>The index of the quote that closes the string whose rest this is, counted from \<open>i\<close>.\<close>

fun closing_from :: "nat \<Rightarrow> string \<Rightarrow> nat option" where
  "closing_from i [] = None"
| "closing_from i (c # cs) =
     (if c = CHR 0x5C then (case cs of [] \<Rightarrow> None | _ # ds \<Rightarrow> closing_from (i + 2) ds)
      else if c = CHR 0x22 then Some i
      else closing_from (i + 1) cs)"

definition closing_quote :: "string \<Rightarrow> nat option" where
  "closing_quote text = closing_from 1 (drop 1 text)"

definition attribute_char :: "char \<Rightarrow> bool" where
  "attribute_char c \<longleftrightarrow> is_alpha c \<or> is_digit c \<or> c \<in> set ''-._''"

definition valid_attribute_name :: "string \<Rightarrow> bool" where
  "valid_attribute_name name \<longleftrightarrow> name \<noteq> [] \<and> hd name \<noteq> CHR ''-'' \<and> list_all attribute_char name"

definition blank :: "char \<Rightarrow> bool" where
  "blank c \<longleftrightarrow> c \<in> set attribute_blanks"

definition attribute_fields :: "string \<Rightarrow> string list" where
  "attribute_fields s = filter (\<lambda>f. f \<noteq> []) (split_at blank s)"

definition attribute_name :: "string \<Rightarrow> string" where
  "attribute_name attr = (if hd attr = CHR ''-'' \<or> hd attr = CHR ''!'' then tl attr else fst (cut (CHR ''='') attr))"

fun scan_attributes :: "bool \<Rightarrow> string list \<Rightarrow> bool" where
  "scan_attributes found [] = found"
| "scan_attributes found (attr # attrs) =
     (if \<not> valid_attribute_name (attribute_name attr) then False
      else scan_attributes (found \<or> attr = lfs_filter_attribute) attrs)"

text \<open>The pattern of a line and what follows it; None when the line has no attributes or bad quoting.\<close>

definition split_pattern :: "string \<Rightarrow> (string \<times> string) option" where
  "split_pattern text =
     (if hd text = CHR 0x22
      then (case closing_quote text of
          None \<Rightarrow> None
        | Some e \<Rightarrow> Some (drop 1 (take e text), drop (e + 1) text))
      else if list_ex blank text
      then Some (takeWhile (\<lambda>c. \<not> blank c) text, dropWhile (\<lambda>c. \<not> blank c) text)
      else None)"

definition assigns_lfs_filter :: "string \<Rightarrow> bool \<Rightarrow> bool" where
  "assigns_lfs_filter line is_first =
     (let t0 = (if is_first \<and> prefix utf8_bom line then drop (length utf8_bom) line else line);
          text = dropWhile blank t0
      in if text = [] \<or> hd text = CHR ''#'' then False
         else (case split_pattern text of
             None \<Rightarrow> False
           | Some (pattern, rest) \<Rightarrow>
               if prefix ''!'' pattern then False else scan_attributes False (attribute_fields rest)))"

section \<open>The scanner\<close>

record attributes_scanner =
  as_line :: string
  as_long :: bool
  as_lines :: nat
  as_total :: nat
  as_found :: bool

definition new_scanner :: attributes_scanner where
  "new_scanner = \<lparr>as_line = [], as_long = False, as_lines = 0, as_total = 0, as_found = False\<rparr>"

definition as_end_line :: "attributes_scanner \<Rightarrow> attributes_scanner" where
  "as_end_line s =
     s\<lparr>as_found := as_found s \<or> (\<not> as_long s \<and> assigns_lfs_filter (as_line s) (as_lines s = 0)),
       as_line := [], as_long := False, as_lines := as_lines s + 1\<rparr>"

fun as_bytes :: "string \<Rightarrow> attributes_scanner \<Rightarrow> attributes_scanner" where
  "as_bytes [] s = s"
| "as_bytes (c # cs) s =
     (if c = newline then (let s1 = as_end_line s in if as_found s1 then s1 else as_bytes cs s1)
      else if as_long s then as_bytes cs s
      else if length (as_line s) \<ge> max_attributes_line - 1 then as_bytes cs (s\<lparr>as_long := True, as_line := []\<rparr>)
      else as_bytes cs (s\<lparr>as_line := as_line s @ [c]\<rparr>))"

definition as_write :: "string \<Rightarrow> attributes_scanner \<Rightarrow> attributes_scanner" where
  "as_write p s =
     (if as_found s \<or> as_total s \<ge> max_attributes_bytes
      then s\<lparr>as_total := min (as_total s + length p) max_attributes_bytes\<rparr>
      else
        (let room = max_attributes_bytes - as_total s; q = (if room < length p then take room p else p)
         in as_bytes q (s\<lparr>as_total := as_total s + length q\<rparr>)))"

definition attributes_found :: "attributes_scanner \<Rightarrow> bool" where
  "attributes_found s =
     (if \<not> as_found s \<and> (as_line s \<noteq> [] \<or> as_long s) then as_found (as_end_line s) else as_found s)"

section \<open>The scanner against the whole file\<close>

fun lfs_in :: "bool \<Rightarrow> string list \<Rightarrow> bool" where
  "lfs_in is_first [] = False"
| "lfs_in is_first (l # ls) =
     ((length l < max_attributes_line \<and> assigns_lfs_filter l is_first) \<or> lfs_in False ls)"

definition mid_scan :: "nat \<Rightarrow> nat \<Rightarrow> string \<Rightarrow> attributes_scanner" where
  "mid_scan k n l =
     \<lparr>as_line = (if length l < max_attributes_line then l else []), as_long = (max_attributes_line \<le> length l),
      as_lines = n, as_total = k, as_found = False\<rparr>"

lemma assigns_nil [simp]: "\<not> assigns_lfs_filter [] b"
  by (simp add: assigns_lfs_filter_def utf8_bom_def)

lemma mid_scan_byte:
  "c \<noteq> newline \<Longrightarrow> as_bytes (c # cs) (mid_scan t n l) = as_bytes cs (mid_scan t n (l @ [c]))"
  by (simp add: mid_scan_def max_attributes_line_def)

lemma mid_scan_newline:
  "as_bytes (newline # cs) (mid_scan t n l) =
     (if length l < max_attributes_line \<and> assigns_lfs_filter l (n = 0)
      then as_end_line (mid_scan t n l) else as_bytes cs (mid_scan t (n + 1) []))"
  by (auto simp: mid_scan_def as_end_line_def Let_def max_attributes_line_def)

lemma end_found:
  "as_found (as_end_line (mid_scan t n l)) \<longleftrightarrow> length l < max_attributes_line \<and> assigns_lfs_filter l (n = 0)"
  by (auto simp: as_end_line_def mid_scan_def)

lemma scan_found:
  "newline \<notin> set l \<Longrightarrow>
   attributes_found (as_bytes cs (mid_scan t n l)) \<longleftrightarrow> lfs_in (n = 0) (split_on newline (l @ cs))"
proof (induction cs arbitrary: n l)
  case Nil
  have "attributes_found (mid_scan t n l) \<longleftrightarrow> length l < max_attributes_line \<and> assigns_lfs_filter l (n = 0)"
    using end_found [of t n l] by (cases "l = []") (auto simp: attributes_found_def mid_scan_def max_attributes_line_def)
  then show ?case using Nil by (simp add: split_on_word)
next
  case (Cons c cs)
  show ?case
  proof (cases "c = newline")
    case True
    have "attributes_found (as_end_line (mid_scan t n l))" if "length l < max_attributes_line \<and> assigns_lfs_filter l (n = 0)"
      using that end_found [of t n l] by (simp add: attributes_found_def)
    with Cons.IH [of "[]" "n + 1"] Cons.prems True show ?thesis
      by (auto simp add: mid_scan_newline split_on_append simp del: as_bytes.simps)
  next
    case False
    with Cons.IH [of "l @ [c]" n] Cons.prems show ?thesis by (simp add: mid_scan_byte del: as_bytes.simps)
  qed
qed

text \<open>Chunks: the count of the bytes seen does not affect what is found in them.\<close>

lemma as_end_line_total [simp]: "as_end_line (s\<lparr>as_total := k\<rparr>) = (as_end_line s)\<lparr>as_total := k\<rparr>"
  by (cases s) (simp add: as_end_line_def)

lemma as_bytes_total: "as_bytes cs (s\<lparr>as_total := k\<rparr>) = (as_bytes cs s)\<lparr>as_total := k\<rparr>"
proof (induction cs arbitrary: s)
  case (Cons c cs)
  show ?case
  proof (cases "c = newline")
    case True
    with Cons.IH [of "as_end_line s"] show ?thesis by (simp add: Let_def)
  next
    case False
    have "s\<lparr>as_long := True, as_line := [], as_total := k\<rparr> = s\<lparr>as_total := k, as_long := True, as_line := []\<rparr>"
      "s\<lparr>as_line := as_line s @ [c], as_total := k\<rparr> = s\<lparr>as_total := k, as_line := as_line s @ [c]\<rparr>"
      by (cases s; simp)+
    with False Cons.IH [of "s\<lparr>as_long := True, as_line := []\<rparr>"] Cons.IH [of "s\<lparr>as_line := as_line s @ [c]\<rparr>"] Cons.IH [of s]
    show ?thesis by simp
  qed
qed simp

lemma as_bytes_append:
  "\<not> as_found s \<Longrightarrow>
   as_bytes (xs @ ys) s = (if as_found (as_bytes xs s) then as_bytes xs s else as_bytes ys (as_bytes xs s))"
  by (induction xs arbitrary: s) (simp_all add: Let_def)

lemma attributes_found_total [simp]: "attributes_found (s\<lparr>as_total := k\<rparr>) = attributes_found s"
  by (simp add: attributes_found_def)

lemma as_total_bytes [simp]: "as_total (as_bytes cs s) = as_total s"
  by (induction cs arbitrary: s) (simp_all add: Let_def as_end_line_def)

lemma as_write_more:
  assumes "\<not> as_found s" and "as_total s < max_attributes_bytes"
  shows "as_write p s = (as_bytes (take (max_attributes_bytes - as_total s) p) s)
    \<lparr>as_total := min max_attributes_bytes (as_total s + length p)\<rparr>"
proof (cases "max_attributes_bytes - as_total s < length p")
  case True
  then have "as_total s + length (take (max_attributes_bytes - as_total s) p) = min max_attributes_bytes (as_total s + length p)"
    using assms(2) by simp
  with assms True show ?thesis by (simp add: as_write_def Let_def as_bytes_total)
next
  case False
  with assms(2) have "min max_attributes_bytes (as_total s + length p) = as_total s + length p" by linarith
  with assms False show ?thesis by (simp add: as_write_def Let_def as_bytes_total)
qed

lemma scan_writes:
  "as_total s \<le> max_attributes_bytes \<Longrightarrow>
   attributes_found (fold as_write ws s) =
     attributes_found (if as_found s then s else as_bytes (take (max_attributes_bytes - as_total s) (concat ws)) s)"
proof (induction ws arbitrary: s)
  case (Cons p ws)
  show ?case
  proof (cases "as_found s")
    case True
    let ?s = "s\<lparr>as_total := min (as_total s + length p) max_attributes_bytes\<rparr>"
    have "as_write p s = ?s" using True by (simp add: as_write_def)
    with True Cons.IH [of ?s] show ?thesis by simp
  next
    case nf: False
    show ?thesis
    proof (cases "as_total s < max_attributes_bytes")
      case False
      let ?s = "s\<lparr>as_total := min (as_total s + length p) max_attributes_bytes\<rparr>"
      have "as_write p s = ?s" using False by (simp add: as_write_def)
      with nf False Cons.IH [of ?s] show ?thesis by simp
    next
      case True
      let ?room = "max_attributes_bytes - as_total s"
      let ?s = "as_bytes (take ?room p) s"
      let ?k = "min max_attributes_bytes (as_total s + length p)"
      have "?room - length p = max_attributes_bytes - ?k" by simp
      then have t: "take ?room (concat (p # ws)) = take ?room p @ take (max_attributes_bytes - ?k) (concat ws)"
        by simp
      have "attributes_found (fold as_write (p # ws) s) =
          attributes_found (if as_found ?s then ?s else as_bytes (take (max_attributes_bytes - ?k) (concat ws)) ?s)"
        using Cons.IH [of "?s\<lparr>as_total := ?k\<rparr>"] by (simp add: as_write_more [OF nf True] as_bytes_total)
      then show ?thesis
        unfolding t if_not_P [OF nf] as_bytes_append [OF nf] .
    qed
  qed
qed simp

text \<open>The streaming .gitattributes scanner, however its input is split, gives the answer of the line-by-
line reference on the first mebibyte: some line assigns filter=lfs.\<close>

theorem attributes_scan_exact:
  "attributes_found (fold as_write ws new_scanner) =
     lfs_in True (split_on newline (take max_attributes_bytes (concat ws)))"
proof -
  have new: "new_scanner = mid_scan 0 0 []" by (simp add: new_scanner_def mid_scan_def max_attributes_line_def)
  have "attributes_found (fold as_write ws new_scanner) =
      attributes_found (as_bytes (take max_attributes_bytes (concat ws)) new_scanner)"
    using scan_writes [of new_scanner ws] by (simp add: new_scanner_def)
  also have "\<dots> = lfs_in True (split_on newline (take max_attributes_bytes (concat ws)))"
    unfolding new using scan_found [of "[]" _ 0 0] by simp
  finally show ?thesis .
qed

section \<open>The line of \<open>git ls-tree\<close>\<close>

lemma chunks_ascii: "list_all (\<lambda>c. byte c < 128) s \<Longrightarrow> chunks s = map (\<lambda>c. [c]) s"
  by (induction s) (simp_all add: Let_def)

definition ascii_space :: "char \<Rightarrow> bool" where
  "ascii_space c \<longleftrightarrow> is_space (byte c)"

lemma fields_ascii:
  assumes "list_all (\<lambda>c. byte c < 128) s"
  shows "text_fields s = filter (\<lambda>f. f \<noteq> []) (split_at ascii_space s)"
proof -
  have "map concat (split_at space_chunk (map (\<lambda>c. [c]) s)) = split_at ascii_space s"
    using assms
  proof (induction s)
    case (Cons c s)
    obtain y ys where s: "split_at space_chunk (map (\<lambda>c. [c]) s) = y # ys"
      by (cases "split_at space_chunk (map (\<lambda>c. [c]) s)") auto
    have "space_chunk [c] = ascii_space c"
      using Cons.prems by (simp add: space_chunk_def ascii_space_def rune_of_def Let_def)
    moreover obtain z zs where "split_at ascii_space s = z # zs" "z = concat y" "zs = map concat ys"
      using Cons s by auto
    ultimately show ?case by (simp add: s)
  qed simp
  then show ?thesis using assms by (simp add: text_fields_def chunks_ascii)
qed

text \<open>A word, then blanks, then the rest.\<close>

lemma split_at_word:
  "\<forall>c\<in>set w. \<not> P c \<Longrightarrow> P d \<Longrightarrow> split_at P (w @ d # s) = w # split_at P s"
  by (induction w) auto

lemma split_at_end: "\<forall>c\<in>set w. \<not> P c \<Longrightarrow> split_at P w = [w]"
  by (induction w) auto

lemma split_at_blanks: "P d \<Longrightarrow> filter (\<lambda>f. f \<noteq> []) (split_at P (replicate n d @ s)) = filter (\<lambda>f. f \<noteq> []) (split_at P s)"
  by (induction n) auto

lemma cut_at: "d \<notin> set x \<Longrightarrow> cut d (x @ d # s) = (x, s, True)"
  by (induction x) (auto simp: cut_def)

text \<open>The entry git ls-tree prints for a regular .gitattributes is read back: its object when the size is
within the bound, the too-large error otherwise.\<close>

theorem ls_tree_entry_read:
  assumes "valid_object_id object" and "mode \<in> {''100644'', ''100755''}" and "n < 2 ^ 63"
  shows "parse_attributes_entry
      (mode @ '' blob '' @ object @ '' '' @ replicate pad (CHR '' '') @ itoa n @ [tab] @ ''.gitattributes'' @ [CHR 0x00]) =
    (if max_attributes_bytes < n then Inl AttributesTooLarge else Inr object)"
proof -
  let ?meta = "mode @ '' blob '' @ object @ '' '' @ replicate pad (CHR '' '') @ itoa n"
  let ?out = "?meta @ [tab] @ ''.gitattributes'' @ [CHR 0x00]"
  have hex: "\<forall>c\<in>set object. is_hex_lower c" using assms(1) by (simp add: valid_object_id_def list_all_iff)
  have dig: "\<forall>c\<in>set (itoa n). is_digit c" "itoa n \<noteq> []" using itoa_digits [of n] by (simp_all add: list_all_iff)
  have hc: "byte c < 128 \<and> \<not> ascii_space c \<and> c \<noteq> tab" if "is_hex_lower c" for c
    using that by (auto simp: is_hex_lower_def is_digit_def ascii_space_def is_space_def tab_def)
  have dc: "byte c < 128 \<and> \<not> ascii_space c \<and> c \<noteq> tab" if "is_digit c" for c
    using that by (auto simp: is_digit_def ascii_space_def is_space_def tab_def)
  have ascii: "list_all (\<lambda>c. byte c < 128) ?meta"
    using assms(2) hex dig hc dc by (auto simp: list_all_iff)
  have notab: "tab \<notin> set ?meta"
    using assms(2) hex dig hc dc by (auto simp: tab_def)
  have sp: "ascii_space (CHR '' '')" by (simp add: ascii_space_def is_space_def)
  have "text_fields ?meta = [mode, ''blob'', object, itoa n]"
  proof -
    have m: "\<forall>c\<in>set mode. \<not> ascii_space c" "mode \<noteq> []" using assms(2) by (auto simp: ascii_space_def is_space_def)
    have o: "\<forall>c\<in>set object. \<not> ascii_space c" "object \<noteq> []"
      using hex hc assms(1) by (auto simp: valid_object_id_def)
    have b: "\<forall>c\<in>set ''blob''. \<not> ascii_space c" by (simp add: ascii_space_def is_space_def)
    have e: "?meta = mode @ CHR '' '' # (''blob'' @ CHR '' '' # (object @ CHR '' '' # (replicate pad (CHR '' '') @ itoa n)))"
      by simp
    have d: "\<forall>c\<in>set (itoa n). \<not> ascii_space c" using dig dc by blast
    show ?thesis
      unfolding fields_ascii [OF ascii] unfolding e split_at_word [of _ ascii_space, OF m(1) sp] split_at_word [of _ ascii_space, OF b sp]
        split_at_word [of _ ascii_space, OF o(1) sp]
      using m(2) o(2) dig(2) by (simp add: split_at_blanks [of ascii_space, OF sp] split_at_end [OF d])
  qed
  moreover have "cut tab (butlast ?out) = (?meta, ''.gitattributes'', True)"
  proof -
    have out: "?out = (?meta @ tab # ''.gitattributes'') @ [CHR 0x00]" by simp
    have "butlast ?out = ?meta @ tab # ''.gitattributes''" unfolding out butlast_snoc ..
    with cut_at [OF notab, of "''.gitattributes''"] show ?thesis by (simp only:)
  qed
  moreover have "parse_uint63 (itoa n) = Some n" using assms(3) itoa_digits [of n] by (simp add: parse_uint63_def)
  moreover have "suffix [CHR 0x00] ?out" by (simp add: suffix_def)
  ultimately show ?thesis
    using assms(1,2) by (auto simp: parse_attributes_entry_def attributes_file_def Let_def)
qed

theorem ls_tree_entry_read_witness:
  "parse_attributes_entry
     (''100644'' @ '' blob '' @ replicate 40 (CHR ''a'') @ '' '' @ replicate 5 (CHR '' '') @ itoa 42 @ [tab] @
      ''.gitattributes'' @ [CHR 0x00]) = Inr (replicate 40 (CHR ''a''))"
proof -
  have v: "valid_object_id (replicate 40 (CHR ''a''))"
    by (simp add: valid_object_id_def is_hex_lower_def is_digit_def list_all_iff)
  from ls_tree_entry_read [OF v, of "''100644''" 42 5] show ?thesis by (simp add: max_attributes_bytes_def)
qed

end
