(* ===== verification/SyncRun.thy ===== *)
theory SyncRun
  imports Effects GitEnv PushPlan Classify Lfs RunRecords
begin

text \<open>
  One sync of one repository (\<open>gitsync/sync.go\<close>, the push stage of \<open>gitsync/pushbatch.go\<close>, the LFS lookup of
  \<open>gitsync/lfs.go\<close>, \<open>gitsync/mirrorsize.go\<close>), in the state monad. The state is the outside world, of any
  type, and the log of what the sync did to it: what each read of the context and the clock returned,
  each git process with its outcome, each file operation. The world is a parameter: whatever git
  prints, whenever the sync is cancelled, each interaction may change it.
\<close>

section \<open>The world\<close>

record git_call =
  gc_argv :: "string list"
  gc_env :: "string list"
  gc_timeout :: duration

text \<open>
  The outcome of a process: its standard output in the pieces it was written in, its capped stderr, its
  error, and whether its own timeout had passed when it ended.
\<close>

record git_outcome =
  go_stdout :: "string list"
  go_stderr :: string
  go_err :: "git_error option"
  go_deadline :: bool

text \<open>What \<open>filepath.WalkDir\<close> calls back with: an entry that vanished, an error, a directory, a file.\<close>

datatype walk_entry = WalkGone | WalkError git_error | WalkDir | WalkFile bool nat

text \<open>The context of the sync, and the one with a timeout that the LFS lookup derives from it.\<close>

datatype ctx = SyncCtx | LfsCtx

record 'w world_ops =
  w_ctx :: "ctx \<Rightarrow> 'w \<Rightarrow> git_error option \<times> 'w"
  w_now :: "'w \<Rightarrow> gtime \<times> 'w"
  w_git :: "git_call \<Rightarrow> 'w \<Rightarrow> git_outcome \<times> 'w"
  w_ensure_root :: "'w \<Rightarrow> git_error option \<times> 'w"
  w_temp_home :: "'w \<Rightarrow> (git_error + string) \<times> 'w"
  w_exists :: "string \<Rightarrow> 'w \<Rightarrow> bool \<times> 'w"
  w_remove :: "string \<Rightarrow> 'w \<Rightarrow> git_error option \<times> 'w"
  w_walk :: "string \<Rightarrow> 'w \<Rightarrow> walk_entry list \<times> 'w"

datatype step =
    CtxRead "git_error option"
  | ClockRead gtime
  | GitRun git_call git_outcome
  | RootMade "git_error option"
  | HomeMade "git_error + string"
  | MirrorSeen bool
  | Walked "walk_entry list"
  | Removed string "git_error option"

text \<open>\<open>syncDeps\<close> and the library functions the sync uses; \<open>sd_out\<close> says that the output seam is present.\<close>

record sync_deps =
  sd_lib :: go_lib
  sd_lower :: "string \<Rightarrow> string"
  sd_parse_time :: "string \<Rightarrow> gtime option"
  sd_getenv :: "string \<Rightarrow> string option"
  sd_root :: string
  sd_out :: bool
  sd_fetch_timeout :: duration
  sd_limits :: "limits option"
  sd_forms :: "string list"

definition ctx_err :: "'w world_ops \<Rightarrow> ctx \<Rightarrow> (('w, step) sys, git_error option) state" where
  "ctx_err W c = effect (w_ctx W c) CtxRead"

definition clock_now :: "'w world_ops \<Rightarrow> (('w, step) sys, gtime) state" where
  "clock_now W = effect (w_now W) ClockRead"

definition remove_all :: "'w world_ops \<Rightarrow> string \<Rightarrow> (('w, step) sys, git_error option) state" where
  "remove_all W p = effect (w_remove W p) (Removed p)"

section \<open>Running git\<close>

definition run_bounded_out ::
  "'w world_ops \<Rightarrow> sync_deps \<Rightarrow> ctx \<Rightarrow> duration \<Rightarrow> string \<Rightarrow> string list \<Rightarrow> string list \<Rightarrow>
   (('w, step) sys, string list \<times> string \<times> git_error option) state" where
  "run_bounded_out W d c timeout what argv env = do {
     e \<leftarrow> ctx_err W c;
     (case e of
        Some er \<Rightarrow> ret ([], [], Some er)
      | None \<Rightarrow> do {
          out \<leftarrow> effect (w_git W \<lparr>gc_argv = argv, gc_env = env, gc_timeout = timeout\<rparr>)
                  (GitRun \<lparr>gc_argv = argv, gc_env = env, gc_timeout = timeout\<rparr>);
          ret (if sd_out d then go_stdout out else [], redact_secrets (go_stderr out) (sd_forms d),
               case go_err out of None \<Rightarrow> None | Some er \<Rightarrow> Some (if go_deadline out then TimedOut what else er))
        })
   }"

definition default_fetch_timeout :: duration where
  "default_fetch_timeout = 30 * minute"

definition fetch_timeout_or_default :: "sync_deps \<Rightarrow> duration" where
  "fetch_timeout_or_default d = (if sd_fetch_timeout d > 0 then sd_fetch_timeout d else default_fetch_timeout)"

definition current_limits :: "sync_deps \<Rightarrow> limits" where
  "current_limits d = (case sd_limits d of Some l \<Rightarrow> l | None \<Rightarrow> default_limits)"

definition parse_expiry :: "sync_deps \<Rightarrow> string \<Rightarrow> gtime option" where
  "parse_expiry d s = (if s = [] then None else sd_parse_time d s)"

definition token_expired :: "'w world_ops \<Rightarrow> sync_deps \<Rightarrow> sync_task \<Rightarrow> (('w, step) sys, bool) state" where
  "token_expired W d t =
     (case parse_expiry d (token_expires_at t) of
        None \<Rightarrow> ret False
      | Some e \<Rightarrow> do { now \<leftarrow> clock_now W; ret (\<not> now < e) })"

definition local_fault :: "sync_deps \<Rightarrow> git_error \<Rightarrow> sync_result" where
  "local_fault d e =
     (case classify_git_failure (sd_lower d) OriginSide (Some e) (error_text e) False of
        (ty, detail) \<Rightarrow> error_result ty detail)"

definition git_dir_arg :: "sync_deps \<Rightarrow> sync_task \<Rightarrow> string" where
  "git_dir_arg d t = ''--git-dir='' @ mirror_dir (sd_lib d) (sd_root d) (task_repo t)"

definition mirror_refspecs :: "string list" where
  "mirror_refspecs = [''+refs/heads/*:refs/heads/*'', ''+refs/tags/*:refs/tags/*'']"

section \<open>Statistics\<close>

definition default_branch_timeout :: duration where
  "default_branch_timeout = 30 * second"

definition max_symref_output :: nat where
  "max_symref_output = 65536"

definition learn_default_branch ::
  "'w world_ops \<Rightarrow> sync_deps \<Rightarrow> string \<Rightarrow> sync_task \<Rightarrow> sync_stats \<Rightarrow> (('w, step) sys, sync_stats) state" where
  "learn_default_branch W d home t st =
     (if \<not> sd_out d then ret st
      else do {
        e \<leftarrow> ctx_err W SyncCtx;
        if e \<noteq> None then ret st
        else do {
          (out, stderr, er) \<leftarrow> run_bounded_out W d SyncCtx default_branch_timeout ''default branch''
            [''git'', ''ls-remote'', ''--symref'', ''--'', canonical_url t, ''HEAD''] (origin_env (sd_getenv d) home t);
          ret (if er \<noteq> None then st
               else (case parse_symref_head (lb_bytes (fold lb_write out (new_limited_buffer max_symref_output))) of
                   None \<Rightarrow> st
                 | Some name \<Rightarrow> st\<lparr>default_branch := name\<rparr>))
        }
      })"

definition newest_commit_timeout :: duration where
  "newest_commit_timeout = 5 * minute"

definition max_commit_clock_skew :: duration where
  "max_commit_clock_skew = 24 * hour"

definition newest_format :: string where
  "newest_format = ''%(committerdate:unix)|%(*committerdate:unix)''"

definition newest_commit ::
  "'w world_ops \<Rightarrow> sync_deps \<Rightarrow> string \<Rightarrow> sync_task \<Rightarrow> (('w, step) sys, gtime) state" where
  "newest_commit W d home t = do {
     now \<leftarrow> clock_now W;
     (out, stderr, er) \<leftarrow> run_bounded_out W d SyncCtx newest_commit_timeout ''newest commit''
       [''git'', git_dir_arg d t, ''for-each-ref'', ''--format='' @ newest_format, ''refs/heads'', ''refs/tags'']
       (git_base_env (sd_getenv d) home);
     ret (if er \<noteq> None then zero_time
          else (case nt_newest (fold nt_write out (new_newest_tracker (unix (now + max_commit_clock_skew)))) of
              None \<Rightarrow> zero_time
            | Some at_time \<Rightarrow> at_time))
   }"

section \<open>The mirror\<close>

definition fetch_argv :: "sync_deps \<Rightarrow> sync_task \<Rightarrow> string list" where
  "fetch_argv d t =
     [''git'', git_dir_arg d t, ''fetch'', ''--prune'', ''--force'', ''--'', canonical_url t] @ mirror_refspecs"

definition init_argv :: "sync_deps \<Rightarrow> sync_task \<Rightarrow> string list" where
  "init_argv d t =
     [''git'', ''init'', ''--bare'', ''--initial-branch=main'', ''--'', mirror_dir (sd_lib d) (sd_root d) (task_repo t)]"

definition run_fetch ::
  "'w world_ops \<Rightarrow> sync_deps \<Rightarrow> string \<Rightarrow> sync_task \<Rightarrow> limits \<Rightarrow> (('w, step) sys, string \<times> git_error option) state" where
  "run_fetch W d home t l = do {
     (out, stderr, er) \<leftarrow> run_bounded_out W d SyncCtx (fetch_timeout_or_default d) ''fetch'' (fetch_argv d t)
       (fetch_env (sd_getenv d) home t l);
     ret (stderr, er)
   }"

text \<open>\<open>git init\<close> and the first fetch; a failure removes what they left.\<close>

definition create_mirror ::
  "'w world_ops \<Rightarrow> sync_deps \<Rightarrow> string \<Rightarrow> sync_task \<Rightarrow> limits \<Rightarrow> (('w, step) sys, string \<times> git_error option) state" where
  "create_mirror W d home t l = do {
     (out, stderr0, er0) \<leftarrow> run_bounded_out W d SyncCtx (fetch_timeout_or_default d) ''init'' (init_argv d t)
       (git_base_env (sd_getenv d) home);
     (stderr, er) \<leftarrow> (if er0 = None then run_fetch W d home t l else ret (stderr0, er0));
     (if er \<noteq> None
      then do { _ \<leftarrow> remove_all W (mirror_dir (sd_lib d) (sd_root d) (task_repo t)); ret (stderr, er) }
      else ret (stderr, er))
   }"

definition update_mirror ::
  "'w world_ops \<Rightarrow> sync_deps \<Rightarrow> string \<Rightarrow> sync_task \<Rightarrow> limits \<Rightarrow> (('w, step) sys, string \<times> git_error option) state" where
  "update_mirror W d home t l = do {
     there \<leftarrow> effect (w_exists W (mirror_dir (sd_lib d) (sd_root d) (task_repo t))) MirrorSeen;
     (if \<not> there then create_mirror W d home t l
      else do {
        (stderr, er) \<leftarrow> run_fetch W d home t l;
        (if er = None then ret ([], None)
         else do {
           c \<leftarrow> ctx_err W SyncCtx;
           (if c \<noteq> None \<or> \<not> is_corrupt_mirror (sd_lower d) stderr then ret (stderr, er)
            else do {
              rm \<leftarrow> remove_all W (mirror_dir (sd_lib d) (sd_root d) (task_repo t));
              (case rm of
                 Some e \<Rightarrow> ret (error_text e, Some e)
               | None \<Rightarrow> create_mirror W d home t l)
            })
         })
      })
   }"

definition show_ref_argv :: "sync_deps \<Rightarrow> sync_task \<Rightarrow> string list" where
  "show_ref_argv d t = [''git'', git_dir_arg d t, ''show-ref'', ''--quiet'', ''--heads'', ''--tags'']"

fun exit_one :: "git_error \<Rightarrow> bool" where
  "exit_one (ExitStatus n _) = (n = 1)"
| "exit_one _ = False"

definition has_pushable_refs ::
  "'w world_ops \<Rightarrow> sync_deps \<Rightarrow> string \<Rightarrow> sync_task \<Rightarrow> (('w, step) sys, string \<times> git_error option) state" where
  "has_pushable_refs W d home t = do {
     (out, stderr, er) \<leftarrow> run_bounded_out W d SyncCtx (fetch_timeout_or_default d) ''ref check'' (show_ref_argv d t)
       (git_base_env (sd_getenv d) home);
     ret (case er of
            None \<Rightarrow> ([], None)
          | Some e \<Rightarrow> if exit_one e then ([], Some NoRefs) else (stderr, Some e))
   }"

definition mebibyte :: int where
  "mebibyte = 1048576"

text \<open>\<open>mirrorExceeds\<close> over the entries of the walk.\<close>

fun walk_exceeds :: "int \<Rightarrow> int \<Rightarrow> walk_entry list \<Rightarrow> git_error + bool" where
  "walk_exceeds cap_bytes acc [] = Inr False"
| "walk_exceeds cap_bytes acc (WalkGone # es) = walk_exceeds cap_bytes acc es"
| "walk_exceeds cap_bytes acc (WalkError e # es) = Inl e"
| "walk_exceeds cap_bytes acc (WalkDir # es) = walk_exceeds cap_bytes acc es"
| "walk_exceeds cap_bytes acc (WalkFile regular n # es) =
     (if \<not> regular then walk_exceeds cap_bytes acc es
      else if cap_bytes < acc + int n then Inr True
      else walk_exceeds cap_bytes (acc + int n) es)"

definition mirror_exceeds ::
  "'w world_ops \<Rightarrow> string \<Rightarrow> int \<Rightarrow> (('w, step) sys, git_error + bool) state" where
  "mirror_exceeds W dir cap_bytes = do {
     es \<leftarrow> effect (w_walk W dir) Walked;
     ret (walk_exceeds cap_bytes 0 es)
   }"

section \<open>The push stage\<close>

definition push_argv :: "sync_deps \<Rightarrow> sync_task \<Rightarrow> string list \<Rightarrow> bool \<Rightarrow> string list" where
  "push_argv d t refspecs prune =
     [''git'', git_dir_arg d t, ''push'', ''--porcelain''] @ (if prune then [''--prune''] else []) @
     [''--force'', ''--'', replica_url t] @ refspecs"

definition plan_argv :: "sync_deps \<Rightarrow> sync_task \<Rightarrow> string list" where
  "plan_argv d t =
     [''git'', git_dir_arg d t, ''push'', ''--dry-run'', ''--porcelain'', ''--prune'', ''--force'', ''--'', replica_url t] @
     mirror_refspecs"

definition err_push_rejected :: git_error where
  "err_push_rejected = OtherError ''push reported rejected refs''"

text \<open>
  The counter is asked for rejections only when git reported success, which settles its last line.
\<close>

definition settle_if_ok :: "git_error option \<Rightarrow> push_counter \<Rightarrow> push_counter" where
  "settle_if_ok er p = (if er = None then pc_settle p else p)"

definition push_error :: "git_error option \<Rightarrow> push_counter \<Rightarrow> git_error option" where
  "push_error er p = (if er = None \<and> rejected p > 0 then Some err_push_rejected else er)"

definition push_failure ::
  "'w world_ops \<Rightarrow> sync_deps \<Rightarrow> string \<Rightarrow> sync_task \<Rightarrow> sync_stats \<Rightarrow> push_counter \<Rightarrow> git_error \<Rightarrow> string \<Rightarrow>
   (('w, step) sys, sync_result \<times> sync_stats) state" where
  "push_failure W d home t st counter e stderr = do {
     c \<leftarrow> ctx_err W SyncCtx;
     (if c \<noteq> None then ret (pending_result, st)
      else do {
        expired \<leftarrow> token_expired W d t;
        st1 \<leftarrow> learn_default_branch W d home t st;
        ret (case classify_git_failure (sd_lower d) ReplicaSide (Some e) (stderr @ pc_rejection_text counter) expired of
               (ty, detail) \<Rightarrow> (error_result ty detail, st1))
      })
   }"

definition push_once ::
  "'w world_ops \<Rightarrow> sync_deps \<Rightarrow> string \<Rightarrow> sync_task \<Rightarrow> limits \<Rightarrow> sync_stats \<Rightarrow> push_counter \<Rightarrow> string list \<Rightarrow> bool \<Rightarrow>
   (('w, step) sys, sync_result \<times> bool \<times> sync_stats \<times> push_counter) state" where
  "push_once W d home t l st counter refspecs prune = do {
     c \<leftarrow> ctx_err W SyncCtx;
     (if c \<noteq> None then ret (pending_result, False, st, counter)
      else do {
        expired \<leftarrow> token_expired W d t;
        (if expired then ret (error_result PushTokenExpired [], False, st, counter)
         else do {
           (out, stderr, er) \<leftarrow> run_bounded_out W d SyncCtx (eff_push_timeout l) ''push''
             (push_argv d t refspecs prune) (replica_env (sd_getenv d) home t l);
           (let counter1 = settle_if_ok er (fold pc_write out counter)
            in case push_error er counter1 of
                 None \<Rightarrow> ret (ok_result, True, st, counter1)
               | Some e \<Rightarrow> do {
                   (res, st1) \<leftarrow> push_failure W d home t st counter1 e stderr;
                   ret (res, False, st1, counter1)
                 })
         })
      })
   }"

definition err_plan_detail :: string where
  "err_plan_detail = ''push plan could not be read; replica left unchanged''"

definition plan_push ::
  "'w world_ops \<Rightarrow> sync_deps \<Rightarrow> string \<Rightarrow> sync_task \<Rightarrow> limits \<Rightarrow> sync_stats \<Rightarrow>
   (('w, step) sys, (sync_result + push_plan) \<times> sync_stats) state" where
  "plan_push W d home t l st = do {
     c \<leftarrow> ctx_err W SyncCtx;
     (if c \<noteq> None then ret (Inl pending_result, st)
      else do {
        expired \<leftarrow> token_expired W d t;
        (if expired then ret (Inl (error_result PushTokenExpired []), st)
         else do {
           (out, stderr, er) \<leftarrow> run_bounded_out W d SyncCtx (eff_push_timeout l) ''push plan''
             (plan_argv d t) (replica_env (sd_getenv d) home t l);
           (let plan = fold pl_write out new_push_plan; counter = settle_if_ok er (fold pc_write out new_push_counter)
            in case push_error er counter of
                 Some e \<Rightarrow> do {
                   (res, st1) \<leftarrow> push_failure W d home t st counter e stderr;
                   ret (Inl res, st1)
                 }
               | None \<Rightarrow>
                   (case unusable plan of
                      (bad, p) \<Rightarrow>
                        ret (if bad then Inl (error_result Unclassified err_plan_detail)
                             else Inr (p\<lparr>upserts := sort (upserts p), deletes := sort (deletes p)\<rparr>), st)))
         })
      })
   }"

definition mirror_may_exceed_batch ::
  "'w world_ops \<Rightarrow> sync_deps \<Rightarrow> string \<Rightarrow> sync_task \<Rightarrow> int \<Rightarrow> (('w, step) sys, bool) state" where
  "mirror_may_exceed_batch W d home t batch = do {
     (out, stderr, er) \<leftarrow> run_bounded_out W d SyncCtx (fetch_timeout_or_default d) ''ref count''
       [''git'', git_dir_arg d t, ''for-each-ref'', ''--format=x'', ''refs/heads'', ''refs/tags'']
       (git_base_env (sd_getenv d) home);
     ret (er \<noteq> None \<or> batch < int (sum_list (map (\<lambda>b. length (filter (\<lambda>c. c = newline) b)) out)))
   }"

definition batch_specs :: "string list \<Rightarrow> string list" where
  "batch_specs batch = map (\<lambda>ref. ''+'' @ ref @ '':'' @ ref) batch"

text \<open>The batches, and after all of them the one push that prunes.\<close>

fun push_all ::
  "'w world_ops \<Rightarrow> sync_deps \<Rightarrow> string \<Rightarrow> sync_task \<Rightarrow> limits \<Rightarrow> string list list \<Rightarrow> sync_stats \<Rightarrow> push_counter \<Rightarrow>
   (('w, step) sys, sync_result \<times> sync_stats \<times> push_counter) state" where
  "push_all W d home t l [] st counter = do {
     (res, ok, st1, counter1) \<leftarrow> push_once W d home t l st counter mirror_refspecs True;
     ret (res, st1, counter1)
   }"
| "push_all W d home t l (batch # batches) st counter = do {
     (res, ok, st1, counter1) \<leftarrow> push_once W d home t l st counter (batch_specs batch) False;
     (if \<not> ok then ret (res, st1, counter1) else push_all W d home t l batches st1 counter1)
   }"

definition batches_of :: "push_plan \<Rightarrow> int \<Rightarrow> string list list" where
  "batches_of p n =
     (if int (length (upserts p)) > n
      then partition_batches (fst (split_conflicts (upserts p) (deletes p) (shadows p))) n max_batch_arg_bytes
      else [])"

definition push_stage ::
  "'w world_ops \<Rightarrow> sync_deps \<Rightarrow> string \<Rightarrow> sync_task \<Rightarrow> limits \<Rightarrow> sync_stats \<Rightarrow> (('w, step) sys, sync_result \<times> sync_stats) state" where
  "push_stage W d home t l st = do {
     (planned, st1) \<leftarrow>
       (if push_batch_refs l > 0 \<and> sd_out d then do {
          may \<leftarrow> mirror_may_exceed_batch W d home t (push_batch_refs l);
          (if \<not> may then ret (Inr [], st)
           else do {
             (p, st1) \<leftarrow> plan_push W d home t l st;
             ret (case p of Inl res \<Rightarrow> Inl res | Inr plan \<Rightarrow> Inr (batches_of plan (push_batch_refs l)), st1)
           })
        } else ret (Inr [], st));
     (res, st2, counter) \<leftarrow>
       (case planned of
          Inl res \<Rightarrow> ret (res, st1, new_push_counter)
        | Inr batches \<Rightarrow> push_all W d home t l batches st1 new_push_counter);
     ret (res, if sd_out d then st2\<lparr>refs_pushed := Some (pc_refs counter)\<rparr> else st2)
   }"

section \<open>The LFS warning\<close>

definition lfs_detect_timeout :: duration where
  "lfs_detect_timeout = 30 * second"

datatype lfs_reason = NoBranch | GitFailed | LfsTimeout | UnexpectedOutput | AttributesOver

definition lfs_failure :: "git_error \<Rightarrow> lfs_reason" where
  "lfs_failure e = (if is_deadline e then LfsTimeout else GitFailed)"

definition uses_lfs ::
  "'w world_ops \<Rightarrow> sync_deps \<Rightarrow> string \<Rightarrow> sync_task \<Rightarrow> string \<Rightarrow> (('w, step) sys, lfs_reason + bool) state" where
  "uses_lfs W d home t branch =
     (if branch = [] then ret (Inl NoBranch)
      else
        (let env = git_base_env (sd_getenv d) home @ [''GIT_NO_REPLACE_OBJECTS=1'']
         in do {
           (out, stderr, er) \<leftarrow> run_bounded_out W d LfsCtx lfs_detect_timeout ''lfs lookup''
             [''git'', git_dir_arg d t, ''ls-tree'', ''-l'', ''-z'', ''refs/heads/'' @ branch, ''--'', attributes_file] env;
           (let listing = fold cb_write out (new_capped_buffer max_ls_tree_output)
            in case er of
                 Some e \<Rightarrow> ret (Inl (lfs_failure e))
               | None \<Rightarrow>
                   if cb_over listing then ret (Inl UnexpectedOutput)
                   else (case parse_attributes_entry (cb_buf listing) of
                       Inl AttributesAbsent \<Rightarrow> ret (Inr False)
                     | Inl AttributesTooLarge \<Rightarrow> ret (Inl AttributesOver)
                     | Inl AttributesMalformed \<Rightarrow> ret (Inl UnexpectedOutput)
                     | Inr entry \<Rightarrow> do {
                         (out2, stderr2, er2) \<leftarrow> run_bounded_out W d LfsCtx lfs_detect_timeout ''lfs read''
                           [''git'', git_dir_arg d t, ''cat-file'', ''blob'', entry] env;
                         ret (case er2 of
                                Some e \<Rightarrow> Inl (lfs_failure e)
                              | None \<Rightarrow> Inr (attributes_found (fold as_write out2 new_scanner)))
                       }))
         }))"

definition warn_lfs :: string where
  "warn_lfs = ''lfs_not_replicated''"

definition detect_lfs ::
  "'w world_ops \<Rightarrow> sync_deps \<Rightarrow> string \<Rightarrow> sync_task \<Rightarrow> string \<Rightarrow> (('w, step) sys, string list \<times> bool) state" where
  "detect_lfs W d home t branch =
     (if \<not> sd_out d then ret ([], False)
      else do {
        c \<leftarrow> ctx_err W SyncCtx;
        (if c \<noteq> None then ret ([], False)
         else do {
           r \<leftarrow> uses_lfs W d home t branch;
           ret (case r of
                  Inl reason \<Rightarrow> ([], False)
                | Inr found \<Rightarrow> (if found then [warn_lfs] else [], True))
         })
      })"

section \<open>The sync\<close>

definition err_origin_empty :: string where
  "err_origin_empty = ''origin has no branches or tags; replica left unchanged''"

definition fetch_failure :: "sync_deps \<Rightarrow> sync_task \<Rightarrow> string \<Rightarrow> git_error \<Rightarrow> sync_result" where
  "fetch_failure d t stderr e =
     (case classify_git_failure (sd_lower d) OriginSide (Some e) stderr False of
        (ty, detail) \<Rightarrow> (error_result ty detail)
          \<lparr>origin_credential_rejected :=
             ty = OriginAccessDenied \<and> le_auth (origin t) \<noteq> [] \<and> credential_rejected_by_origin (sd_lower d) stderr\<rparr>)"

text \<open>From the end of the checks on the mirror to the end of the sync.\<close>

definition push_and_report ::
  "'w world_ops \<Rightarrow> sync_deps \<Rightarrow> string \<Rightarrow> sync_task \<Rightarrow> limits \<Rightarrow> sync_stats \<Rightarrow> (('w, step) sys, sync_result \<times> sync_stats) state" where
  "push_and_report W d home t l st = do {
     (cancelled, st1) \<leftarrow>
       (if sd_out d then do {
          at_time \<leftarrow> newest_commit W d home t;
          c \<leftarrow> ctx_err W SyncCtx;
          ret (c \<noteq> None, st\<lparr>newest_commit_at := at_time\<rparr>)
        } else ret (False, st));
     (if cancelled then ret (pending_result, st1)
      else do {
        (res, st2) \<leftarrow> push_stage W d home t l st1;
        (if res_state res \<noteq> StateOK then ret (res, st2)
         else do {
           st3 \<leftarrow> learn_default_branch W d home t st2;
           (warns, decided) \<leftarrow> detect_lfs W d home t (default_branch st3);
           ret (ok_result\<lparr>warnings := warns, warnings_undecided := \<not> decided\<rparr>, st3)
         })
      })
   }"

definition sync_in_home ::
  "'w world_ops \<Rightarrow> sync_deps \<Rightarrow> string \<Rightarrow> sync_task \<Rightarrow> limits \<Rightarrow> sync_stats \<Rightarrow> (('w, step) sys, sync_result \<times> sync_stats) state" where
  "sync_in_home W d home t l st = do {
     (stderr, er) \<leftarrow> update_mirror W d home t l;
     (case er of
        Some e \<Rightarrow> do {
          c \<leftarrow> ctx_err W SyncCtx;
          ret (if c \<noteq> None then pending_result else fetch_failure d t stderr e, st)
        }
      | None \<Rightarrow> do {
          (stderr2, er2) \<leftarrow> has_pushable_refs W d home t;
          (case er2 of
             Some e \<Rightarrow> do {
               c \<leftarrow> ctx_err W SyncCtx;
               ret (if c \<noteq> None then pending_result
                    else if e = NoRefs then error_result Unclassified err_origin_empty
                    else (case classify_git_failure (sd_lower d) OriginSide (Some e) stderr2 False of
                        (ty, detail) \<Rightarrow> error_result ty detail), st)
             }
           | None \<Rightarrow> do {
               over \<leftarrow> (if max_repository_mb l > 0
                        then mirror_exceeds W (mirror_dir (sd_lib d) (sd_root d) (task_repo t)) (max_repository_mb l * mebibyte)
                        else ret (Inr False));
               (case over of
                  Inl e \<Rightarrow> ret (local_fault d e, st)
                | Inr True \<Rightarrow> ret (error_result RepositoryOverLimit [], st)
                | Inr False \<Rightarrow> push_and_report W d home t l st)
             })
        })
   }"

definition sync_attempt ::
  "'w world_ops \<Rightarrow> sync_deps \<Rightarrow> sync_task \<Rightarrow> sync_stats \<Rightarrow> (('w, step) sys, sync_result \<times> sync_stats) state" where
  "sync_attempt W d0 t st =
     (let d = d0\<lparr>sd_forms := secret_forms (origin t) (push_token t)\<rparr>; l = current_limits d
      in do {
        c \<leftarrow> ctx_err W SyncCtx;
        (if c \<noteq> None then ret (pending_result, st)
         else do {
           expired \<leftarrow> token_expired W d t;
           (if expired then ret (error_result PushTokenExpired [], st)
            else do {
              e \<leftarrow> effect (w_ensure_root W) RootMade;
              (case e of
                 Some er \<Rightarrow> ret (local_fault d er, st)
               | None \<Rightarrow> do {
                   h \<leftarrow> effect (w_temp_home W) HomeMade;
                   (case h of
                      Inl er \<Rightarrow> ret (local_fault d er, st)
                    | Inr home \<Rightarrow> do {
                        r \<leftarrow> sync_in_home W d home t l st;
                        _ \<leftarrow> remove_all W home;
                        ret r
                      })
                 })
            })
         })
      })"

definition sync_repo :: "'w world_ops \<Rightarrow> sync_deps \<Rightarrow> sync_task \<Rightarrow> (('w, step) sys, sync_result) state" where
  "sync_repo W d t = do {
     (res, st) \<leftarrow> sync_attempt W d t (no_stats\<lparr>refs_pushed := if sd_out d then Some 0 else None\<rparr>);
     ret (res\<lparr>stats := st\<rparr>)
   }"

end
