(* ===== verification/SyncSafety.thy ===== *)
theory SyncSafety
  imports SyncRun
begin

text \<open>
  What one sync may do to the world, and in which order. Each piece of the sync has
  a specification over the log it emits; the policies are checked at every step of the log against what
  came before it.
\<close>

section \<open>What a git process is\<close>

text \<open>Read off the argument vector: the command, its options (what stands before \<open>--\<close>), the remote after it.\<close>

definition command :: "git_call \<Rightarrow> string" where
  "command c = (if length (gc_argv c) > 2 then gc_argv c ! 2 else [])"

definition options :: "git_call \<Rightarrow> string list" where
  "options c = takeWhile (\<lambda>a. a \<noteq> ''--'') (drop 3 (gc_argv c))"

definition operands :: "git_call \<Rightarrow> string list" where
  "operands c = tl (dropWhile (\<lambda>a. a \<noteq> ''--'') (drop 3 (gc_argv c)))"

definition is_push :: "git_call \<Rightarrow> bool" where
  "is_push c \<longleftrightarrow> command c = ''push''"

definition dry_run :: "git_call \<Rightarrow> bool" where
  "dry_run c \<longleftrightarrow> ''--dry-run'' \<in> set (options c)"

definition prunes :: "git_call \<Rightarrow> bool" where
  "prunes c \<longleftrightarrow> ''--prune'' \<in> set (options c)"

definition contacts_remote :: "git_call \<Rightarrow> bool" where
  "contacts_remote c \<longleftrightarrow> command c \<in> {''fetch'', ''push''} \<or> (length (gc_argv c) > 1 \<and> gc_argv c ! 1 = ''ls-remote'')"

text \<open>The pushes that reach the replica, in order, with how each ended.\<close>

fun replica_pushes :: "step list \<Rightarrow> (git_call \<times> git_outcome) list" where
  "replica_pushes [] = []"
| "replica_pushes (GitRun c r # es) = (if is_push c \<and> \<not> dry_run c then (c, r) # replica_pushes es else replica_pushes es)"
| "replica_pushes (_ # es) = replica_pushes es"

fun homes :: "step list \<Rightarrow> string list" where
  "homes [] = []"
| "homes (HomeMade (Inr h) # es) = h # homes es"
| "homes (_ # es) = homes es"

fun was_cancelled :: "step list \<Rightarrow> bool" where
  "was_cancelled [] = False"
| "was_cancelled (CtxRead (Some e) # es) = True"
| "was_cancelled (_ # es) = was_cancelled es"

text \<open>The lines of a push report, which only the output seam delivers, and a push that was accepted in full.\<close>

definition report_lines :: "sync_deps \<Rightarrow> git_outcome \<Rightarrow> string list" where
  "report_lines d r = split_on newline (concat (if sd_out d then go_stdout r else []))"

definition clean_push :: "sync_deps \<Rightarrow> git_outcome \<Rightarrow> bool" where
  "clean_push d r \<longleftrightarrow> go_err r = None \<and> filter rejected_line (report_lines d r) = []"

lemma replica_pushes_append [simp]: "replica_pushes (es @ fs) = replica_pushes es @ replica_pushes fs"
  by (induction es rule: replica_pushes.induct) auto

lemma homes_append [simp]: "homes (es @ fs) = homes es @ homes fs"
  by (induction es rule: homes.induct) auto

lemma was_cancelled_append [simp]: "was_cancelled (es @ fs) \<longleftrightarrow> was_cancelled es \<or> was_cancelled fs"
  by (induction es rule: was_cancelled.induct) auto

lemma was_cancelled_later [simp]: "was_cancelled es \<Longrightarrow> was_cancelled (x # es)"
  using was_cancelled_append [of "[x]" es] by simp

section \<open>The policies of a sync\<close>

text \<open>
  A git process starts only straight after the context was read as live, and a push (planning included)
  only when, before that, the clock was read as before the token's expiry, if that is known.
\<close>

fun starts_live :: "sync_deps \<Rightarrow> sync_task \<Rightarrow> step list \<Rightarrow> step \<Rightarrow> bool" where
  "starts_live d t before (GitRun c r) =
     (case rev before of
        CtxRead None # earlier \<Rightarrow>
          \<not> is_push c \<or>
          (case parse_expiry d (token_expires_at t) of
             None \<Rightarrow> True
           | Some e \<Rightarrow> (case earlier of ClockRead now # _ \<Rightarrow> now < e | _ \<Rightarrow> False))
      | _ \<Rightarrow> False)"
| "starts_live d t before _ = True"

text \<open>
  The origin credential goes only to a process that contacts the canonical URL, the push token only to
  a push to the replica URL, and every other process contacts no remote and is given neither.
\<close>

definition credential_ok :: "sync_deps \<Rightarrow> sync_task \<Rightarrow> limits \<Rightarrow> string \<Rightarrow> git_call \<Rightarrow> bool" where
  "credential_ok d t l home c \<longleftrightarrow>
     \<not> contacts_remote c \<and>
       gc_env c \<in> {git_base_env (sd_getenv d) home, git_base_env (sd_getenv d) home @ [''GIT_NO_REPLACE_OBJECTS=1'']} \<or>
     gc_argv c = [''git'', ''ls-remote'', ''--symref'', ''--'', canonical_url t, ''HEAD''] \<and>
       gc_env c = origin_env (sd_getenv d) home t \<or>
     gc_argv c = fetch_argv d t \<and> gc_env c = fetch_env (sd_getenv d) home t l \<or>
     is_push c \<and> take 1 (operands c) = [replica_url t] \<and> gc_env c = replica_env (sd_getenv d) home t l"

fun credentials_confined :: "sync_deps \<Rightarrow> sync_task \<Rightarrow> limits \<Rightarrow> step list \<Rightarrow> step \<Rightarrow> bool" where
  "credentials_confined d t l before (GitRun c r) = list_ex (\<lambda>home. credential_ok d t l home c) (homes before)"
| "credentials_confined d t l before _ = True"

text \<open>Before any push the mirror was fetched, and after that found to hold a branch or a tag.\<close>

fun fetched :: "sync_deps \<Rightarrow> sync_task \<Rightarrow> step \<Rightarrow> bool" where
  "fetched d t (GitRun c r) = (gc_argv c = fetch_argv d t \<and> go_err r = None)"
| "fetched d t _ = False"

fun refs_found :: "sync_deps \<Rightarrow> sync_task \<Rightarrow> step \<Rightarrow> bool" where
  "refs_found d t (GitRun c r) = (gc_argv c = show_ref_argv d t \<and> go_err r = None)"
| "refs_found d t _ = False"

definition mirror_checked :: "sync_deps \<Rightarrow> sync_task \<Rightarrow> step list \<Rightarrow> bool" where
  "mirror_checked d t es \<longleftrightarrow> list_ex (refs_found d t) (dropWhile (\<lambda>x. \<not> fetched d t x) es)"

fun push_guarded :: "sync_deps \<Rightarrow> sync_task \<Rightarrow> step list \<Rightarrow> step \<Rightarrow> bool" where
  "push_guarded d t before (GitRun c r) = (\<not> is_push c \<or> mirror_checked d t before)"
| "push_guarded d t before _ = True"

text \<open>
  A directory is removed only if it is the sync's own temporary home, or the mirror of the task when
  there was none, or when fetching into it failed with a corruption marker in a sync still live. (A git
  that was not started, the context being cancelled, has an empty stderr.)
\<close>

fun corrupt_fetch :: "sync_deps \<Rightarrow> sync_task \<Rightarrow> step \<Rightarrow> bool" where
  "corrupt_fetch d t (GitRun c r) =
     (gc_argv c = fetch_argv d t \<and> go_err r \<noteq> None \<and>
      is_corrupt_mirror (sd_lower d) (redact_secrets (go_stderr r) (sd_forms d)))"
| "corrupt_fetch d t (CtxRead (Some e)) = is_corrupt_mirror (sd_lower d) []"
| "corrupt_fetch d t _ = False"

definition rebuild_reason :: "sync_deps \<Rightarrow> sync_task \<Rightarrow> step list \<Rightarrow> bool" where
  "rebuild_reason d t es \<longleftrightarrow>
     MirrorSeen False \<in> set es \<or>
     list_ex (\<lambda>(x, y). corrupt_fetch d t x \<and> y = CtxRead None) (zip es (tl es))"

fun removal_justified :: "sync_deps \<Rightarrow> sync_task \<Rightarrow> step list \<Rightarrow> step \<Rightarrow> bool" where
  "removal_justified d t before (Removed p e) =
     (p \<in> set (homes before) \<or>
      p = mirror_dir (sd_lib d) (sd_root d) (task_repo t) \<and> rebuild_reason d t before)"
| "removal_justified d t before _ = True"

definition safe_step :: "sync_deps \<Rightarrow> sync_task \<Rightarrow> limits \<Rightarrow> step list \<Rightarrow> step \<Rightarrow> bool" where
  "safe_step d t l before x \<longleftrightarrow>
     starts_live d t before x \<and> credentials_confined d t l before x \<and> push_guarded d t before x \<and>
     removal_justified d t before x"

lemma rebuild_reason_append [simp]: "rebuild_reason d t es \<Longrightarrow> rebuild_reason d t (es @ fs)"
proof -
  have "set (zip es (tl es)) \<subseteq> set (zip (es @ fs) (tl (es @ fs)))"
    by (induction es rule: induct_list012) auto
  then show "rebuild_reason d t es \<Longrightarrow> rebuild_reason d t (es @ fs)"
    by (auto simp: rebuild_reason_def list_ex_iff)
qed

lemma mirror_checked_append [simp]: "mirror_checked d t es \<Longrightarrow> mirror_checked d t (es @ fs)"
  by (induction es) (auto simp: mirror_checked_def)

lemma mirror_checked_join:
  "list_ex (fetched d t) es \<Longrightarrow> list_ex (refs_found d t) fs \<Longrightarrow> mirror_checked d t (es @ fs)"
  by (induction es) (auto simp: mirror_checked_def)

section \<open>The building blocks\<close>

lemma emits_ctx: "(\<And>e. Q e [CtxRead e]) \<Longrightarrow> emits (ctx_err W c) Q"
  by (simp add: ctx_err_def emits_effect)

lemma emits_clock: "(\<And>a. Q a [ClockRead a]) \<Longrightarrow> emits (clock_now W) Q"
  by (simp add: clock_now_def emits_effect)

lemma emits_remove: "(\<And>a. Q a [Removed p a]) \<Longrightarrow> emits (remove_all W p) Q"
  by (simp add: remove_all_def emits_effect)

definition run_error :: "string \<Rightarrow> git_outcome \<Rightarrow> git_error option" where
  "run_error what r =
     (case go_err r of None \<Rightarrow> None | Some e \<Rightarrow> Some (if go_deadline r then TimedOut what else e))"

lemma run_error_simps [simp]:
  "run_error what r = None \<longleftrightarrow> go_err r = None"
  "run_error what r = Some y \<longleftrightarrow> (\<exists>e. go_err r = Some e \<and> y = (if go_deadline r then TimedOut what else e))"
  by (auto simp: run_error_def split: option.split)

lemma emits_run:
  assumes "\<And>e. Q ([], [], Some e) [CtxRead (Some e)]"
    "\<And>r. Q (if sd_out d then go_stdout r else [], redact_secrets (go_stderr r) (sd_forms d), run_error what r)
        [CtxRead None, GitRun \<lparr>gc_argv = argv, gc_env = env, gc_timeout = timeout\<rparr> r]"
  shows "emits (run_bounded_out W d c timeout what argv env) Q"
  unfolding run_bounded_out_def run_error_def [symmetric]
  by (rule emits_bind, rule emits_ctx, rule emits_option)
    (rule emits_bind, rule emits_effect, rule emits_return, simp add: assms(2), rule emits_return, simp add: assms(1))

lemma emits_expired:
  assumes "parse_expiry d (token_expires_at t) = None \<Longrightarrow> Q False []"
    "\<And>e now. parse_expiry d (token_expires_at t) = Some e \<Longrightarrow> Q (\<not> now < e) [ClockRead now]"
  shows "emits (token_expired W d t) Q"
  unfolding token_expired_def
  by (rule emits_option) (auto intro!: emits_return emits_bind emits_clock assms)

lemmas emits_intros =
  emits_bind emits_return emits_ctx emits_clock emits_remove emits_run emits_expired emits_effect
  emits_if emits_option emits_sum emits_prod emits_let

text \<open>What each argument vector is.\<close>

lemma git_dir_arg_option [simp]: "git_dir_arg d t \<noteq> ''--''" "git_dir_arg d t \<noteq> ''ls-remote''"
  by (simp_all add: git_dir_arg_def)

lemmas call_kinds = command_def contacts_remote_def is_push_def dry_run_def prunes_def options_def operands_def

lemma push_argv_kind [simp]:
  "is_push \<lparr>gc_argv = push_argv d t specs prune, gc_env = env, gc_timeout = to\<rparr>"
  "\<not> dry_run \<lparr>gc_argv = push_argv d t specs prune, gc_env = env, gc_timeout = to\<rparr>"
  "prunes \<lparr>gc_argv = push_argv d t specs prune, gc_env = env, gc_timeout = to\<rparr> = prune"
  "operands \<lparr>gc_argv = push_argv d t specs prune, gc_env = env, gc_timeout = to\<rparr> = replica_url t # specs"
  by (auto simp: call_kinds push_argv_def)

lemma plan_argv_kind [simp]:
  "is_push \<lparr>gc_argv = plan_argv d t, gc_env = env, gc_timeout = to\<rparr>"
  "dry_run \<lparr>gc_argv = plan_argv d t, gc_env = env, gc_timeout = to\<rparr>"
  "operands \<lparr>gc_argv = plan_argv d t, gc_env = env, gc_timeout = to\<rparr> = replica_url t # mirror_refspecs"
  by (auto simp: call_kinds plan_argv_def)

lemma fetch_argv_kind [simp]:
  "\<not> is_push \<lparr>gc_argv = fetch_argv d t, gc_env = env, gc_timeout = to\<rparr>"
  by (auto simp: call_kinds fetch_argv_def)

lemma is_push_remote: "is_push c \<Longrightarrow> contacts_remote c"
  by (simp add: is_push_def contacts_remote_def)

text \<open>A piece of a sync that keeps the policies, reaches no replica and makes no home.\<close>

definition calm :: "sync_deps \<Rightarrow> sync_task \<Rightarrow> limits \<Rightarrow> step list \<Rightarrow> step list \<Rightarrow> bool" where
  "calm d t l before es \<longleftrightarrow>
     each_step (safe_step d t l) before es \<and> replica_pushes es = [] \<and> homes es = []"

lemma calm_simps [simp]:
  "calm d t l before []"
  "calm d t l before (es @ fs) \<longleftrightarrow> calm d t l before es \<and> calm d t l (before @ es) fs"
  by (auto simp: calm_def)

lemma calm_reads [simp]:
  "calm d t l before (CtxRead e # es) \<longleftrightarrow> calm d t l (before @ [CtxRead e]) es"
  "calm d t l before (ClockRead a # es) \<longleftrightarrow> calm d t l (before @ [ClockRead a]) es"
  "calm d t l before (MirrorSeen b # es) \<longleftrightarrow> calm d t l (before @ [MirrorSeen b]) es"
  "calm d t l before (Walked ws # es) \<longleftrightarrow> calm d t l (before @ [Walked ws]) es"
  "calm d t l before (RootMade e # es) \<longleftrightarrow> calm d t l (before @ [RootMade e]) es"
  "calm d t l before (HomeMade (Inl er) # es) \<longleftrightarrow> calm d t l (before @ [HomeMade (Inl er)]) es"
  by (cases e; simp add: calm_def safe_step_def)
    (simp_all add: calm_def safe_step_def)

lemma calm_run:
  assumes "last before = CtxRead None" "home \<in> set (homes before)" "\<not> is_push c" "credential_ok d t l home c"
  shows "calm d t l before (GitRun c r # es) \<longleftrightarrow> calm d t l (before @ [GitRun c r]) es"
proof -
  from assms(1,2) obtain p where "before = p @ [CtxRead None]" by (cases before rule: rev_cases) auto
  with assms show ?thesis
    by (auto simp: calm_def safe_step_def list_ex_iff)
qed

lemma calm_local [simp]:
  assumes "last before = CtxRead None" "home \<in> set (homes before)" "\<not> contacts_remote c"
    "gc_env c = git_base_env (sd_getenv d) home \<or>
     gc_env c = git_base_env (sd_getenv d) home @ [''GIT_NO_REPLACE_OBJECTS=1'']"
  shows "calm d t l before (GitRun c r # es) \<longleftrightarrow> calm d t l (before @ [GitRun c r]) es"
  using assms is_push_remote [of c] by (intro calm_run) (auto simp: credential_ok_def)

lemma calm_origin [simp]:
  assumes "last before = CtxRead None" "home \<in> set (homes before)"
    "gc_argv c = [''git'', ''ls-remote'', ''--symref'', ''--'', canonical_url t, ''HEAD''] \<and>
       gc_env c = origin_env (sd_getenv d) home t \<or>
     gc_argv c = fetch_argv d t \<and> gc_env c = fetch_env (sd_getenv d) home t l"
  shows "calm d t l before (GitRun c r # es) \<longleftrightarrow> calm d t l (before @ [GitRun c r]) es"
  using assms by (intro calm_run) (auto simp: credential_ok_def call_kinds fetch_argv_def)

lemma learn_emits:
  assumes "home \<in> set (homes before)"
  shows "emits (learn_default_branch W d home t st)
    (\<lambda>st' es. calm d t l before es \<and> refs_pushed st' = refs_pushed st)"
  unfolding learn_default_branch_def
  using assms by (intro emits_intros) (auto split: option.split)

lemma newest_emits:
  assumes "home \<in> set (homes before)"
  shows "emits (newest_commit W d home t) (\<lambda>_ es. calm d t l before es)"
  unfolding newest_commit_def
  using assms by (intro emits_intros) (auto simp: contacts_remote_def command_def)

lemma may_exceed_emits:
  assumes "home \<in> set (homes before)"
  shows "emits (mirror_may_exceed_batch W d home t n) (\<lambda>_ es. calm d t l before es)"
  unfolding mirror_may_exceed_batch_def
  using assms by (intro emits_intros) (auto simp: contacts_remote_def command_def)

lemma uses_lfs_emits:
  assumes "home \<in> set (homes before)"
  shows "emits (uses_lfs W d home t branch) (\<lambda>_ es. calm d t l before es)"
  unfolding uses_lfs_def
  using assms
  by (intro emits_intros) (auto simp: contacts_remote_def command_def intro!: emits_intros split: entry_error.split)

lemma detect_lfs_emits:
  assumes "home \<in> set (homes before)"
  shows "emits (detect_lfs W d home t branch) (\<lambda>_ es. calm d t l before es)"
  unfolding detect_lfs_def
  using assms by (intro emits_intros emits_weaken [OF uses_lfs_emits]) auto

lemma has_refs_emits:
  assumes "home \<in> set (homes before)"
  shows "emits (has_pushable_refs W d home t)
    (\<lambda>(stderr, er) es. calm d t l before es \<and> (er = None \<longrightarrow> list_ex (refs_found d t) es))"
  unfolding has_pushable_refs_def
  using assms
  by (intro emits_intros) (auto simp: contacts_remote_def command_def show_ref_argv_def split: option.split)

lemma run_fetch_emits:
  assumes "home \<in> set (homes before)"
  shows "emits (run_fetch W d home t l)
    (\<lambda>(stderr, er) es. calm d t l before es \<and> (er = None \<longrightarrow> list_ex (fetched d t) es) \<and>
       (er \<noteq> None \<and> is_corrupt_mirror (sd_lower d) stderr \<longrightarrow> es \<noteq> [] \<and> corrupt_fetch d t (last es)))"
  unfolding run_fetch_def
  using assms by (intro emits_intros) auto

lemma rebuild_reason_seen: "MirrorSeen False \<in> set es \<Longrightarrow> rebuild_reason d t es"
  by (simp add: rebuild_reason_def)

lemma adjacent_pair: "(x, y) \<in> set (zip (q @ x # y # r) (tl (q @ x # y # r)))"
  by (induction q rule: induct_list012) auto

lemma rebuild_reason_corrupt:
  assumes "es \<noteq> []" "corrupt_fetch d t (last es)"
  shows "rebuild_reason d t (before @ es @ [CtxRead None])"
proof -
  from assms(1) obtain p where "es = p @ [last es]" by (metis append_butlast_last_id)
  then have "before @ es @ [CtxRead None] = (before @ p) @ last es # CtxRead None # []" by simp
  then have "(last es, CtxRead None) \<in> set (zip (before @ es @ [CtxRead None]) (tl (before @ es @ [CtxRead None])))"
    by (simp only: adjacent_pair)
  with assms(2) show ?thesis unfolding rebuild_reason_def list_ex_iff by blast
qed

lemma calm_removed:
  assumes "p \<in> set (homes before) \<or> p = mirror_dir (sd_lib d) (sd_root d) (task_repo t) \<and> rebuild_reason d t before"
  shows "calm d t l before (Removed p e # es) \<longleftrightarrow> calm d t l (before @ [Removed p e]) es"
  using assms by (simp add: calm_def safe_step_def)

lemma create_mirror_emits:
  assumes "home \<in> set (homes before)" "rebuild_reason d t before"
  shows "emits (create_mirror W d home t l)
    (\<lambda>(stderr, er) es. calm d t l before es \<and> (er = None \<longrightarrow> list_ex (fetched d t) es))"
proof -
  have init: "emits (run_bounded_out W d SyncCtx (fetch_timeout_or_default d) ''init'' (init_argv d t)
      (git_base_env (sd_getenv d) home)) (\<lambda>_ es. calm d t l before es)"
    using assms(1) by (intro emits_run) (simp_all add: contacts_remote_def command_def init_argv_def)
  show ?thesis
    unfolding create_mirror_def
    by (rule emits_then [OF init], intro emits_prod, rule emits_bind, rule emits_if)
      (intro emits_weaken [OF run_fetch_emits [where before = "before @ _"]] emits_intros;
        use assms in \<open>auto simp: calm_removed\<close>)+
qed

lemma update_mirror_emits:
  assumes "home \<in> set (homes before)"
  shows "emits (update_mirror W d home t l)
    (\<lambda>(stderr, er) es. calm d t l before es \<and> (er = None \<longrightarrow> list_ex (fetched d t) es))"
proof -
  have rebuilt: "emits (create_mirror W d home t l)
      (\<lambda>(stderr, er) fs. calm d t l (before @ es) fs \<and> (er = None \<longrightarrow> list_ex (fetched d t) fs))"
    if "rebuild_reason d t (before @ es)" for es
    by (rule create_mirror_emits) (use assms that in auto)
  show ?thesis
    unfolding update_mirror_def
    apply (rule emits_bind, rule emits_effect, rule emits_if)
    subgoal for there
      by (rule emits_weaken [OF rebuilt [of "[MirrorSeen there]"]]) (auto simp: rebuild_reason_seen)
    subgoal for there
      apply (rule emits_then [OF run_fetch_emits [where before = "before @ [MirrorSeen there]"]])
       apply (use assms in simp)
      apply (rule emits_prod, rule emits_if)
       apply (rule emits_return, (auto)[1])
      apply (rule emits_bind, rule emits_ctx, rule emits_if)
       apply (rule emits_return, (auto)[1])
      apply (rule emits_bind, rule emits_remove, rule emits_option)
      subgoal premises p for x es stderr er c r
      proof -
        from p rebuild_reason_corrupt [of es d t "before @ [MirrorSeen there]"]
        have why: "rebuild_reason d t (before @ MirrorSeen there # es @ [CtxRead None])" by simp
        then show ?thesis
          using p rebuilt [of "MirrorSeen there # es @ [CtxRead None, Removed (mirror_dir (sd_lib d) (sd_root d) (task_repo t)) r]"]
            rebuild_reason_append [OF why, of "[Removed (mirror_dir (sd_lib d) (sd_root d) (task_repo t)) r]"]
          by (auto simp: calm_removed elim!: emits_weaken)
      qed
      subgoal premises p for x es stderr er c r e
      proof (rule emits_return)
        from p rebuild_reason_corrupt [of es d t "before @ [MirrorSeen there]"]
        have "rebuild_reason d t (before @ MirrorSeen there # es @ [CtxRead None])" by simp
        then show "(case (error_text e, Some e) of (stderr, er) \<Rightarrow> \<lambda>es.
            calm d t l before es \<and> (er = None \<longrightarrow> list_ex (fetched d t) es))
              ([MirrorSeen there] @ es @ [CtxRead c] @ [Removed (mirror_dir (sd_lib d) (sd_root d) (task_repo t)) r] @ [])"
          using p by (auto simp: calm_removed)
      qed
      done
    done
qed

section \<open>The pushes\<close>

definition fresh :: "sync_deps \<Rightarrow> sync_task \<Rightarrow> step list \<Rightarrow> bool" where
  "fresh d t before \<longleftrightarrow>
     (case parse_expiry d (token_expires_at t) of
        None \<Rightarrow> True
      | Some e \<Rightarrow> \<exists>p now. before = p @ [ClockRead now, CtxRead None] \<and> now < e)"

lemma safe_push:
  assumes "last before = CtxRead None" "home \<in> set (homes before)" "fresh d t before" "mirror_checked d t before"
    "is_push c" "take 1 (operands c) = [replica_url t]" "gc_env c = replica_env (sd_getenv d) home t l"
  shows "safe_step d t l before (GitRun c r)"
proof -
  from assms(1,2) obtain p where "before = p @ [CtxRead None]" by (cases before rule: rev_cases) auto
  with assms show ?thesis
    by (auto simp: safe_step_def list_ex_iff credential_ok_def fresh_def split: option.splits)
qed

lemma safe_reads [simp]: "safe_step d t l before (CtxRead e)" "safe_step d t l before (ClockRead a)"
  by (simp_all add: safe_step_def)

lemma expired_emits:
  "emits (token_expired W d t) (\<lambda>b es. calm d t l before es \<and> (\<not> b \<longrightarrow> fresh d t (before @ es @ [CtxRead None])))"
  by (rule emits_expired) (auto simp: fresh_def)

lemma push_failure_emits:
  assumes "home \<in> set (homes before)"
  shows "emits (push_failure W d home t st counter e stderr)
    (\<lambda>(res, st') es. calm d t l before es \<and> refs_pushed st' = refs_pushed st \<and> res_state res \<noteq> StateOK \<and>
       (res_state res = StatePending \<longrightarrow> was_cancelled es))"
  unfolding push_failure_def
  apply (rule emits_bind, rule emits_ctx, rule emits_if)
   apply (rule emits_return, force)
  subgoal for c
    apply (rule emits_then [OF expired_emits [where before = "before @ [CtxRead None]"]])
    apply (rule emits_then [OF learn_emits [where before = "before @ CtxRead None # _" and home = home]])
     apply (use assms in simp)
    apply (rule emits_return)
    apply (auto simp: error_result_def split: prod.splits)
    done
  done

text \<open>The totals of the counter after some pushes: changed refs, rejected refs, kept explanations.\<close>

definition totals :: "sync_deps \<Rightarrow> nat \<times> nat \<times> string \<Rightarrow> (git_call \<times> git_outcome) list \<Rightarrow> nat \<times> nat \<times> string" where
  "totals d acc ps = fold (\<lambda>(c, r). fold count_line (report_lines d r)) ps acc"

lemma totals_simps [simp]:
  "totals d acc [] = acc"
  "totals d acc (ps @ qs) = totals d (totals d acc ps) qs"
  "totals d acc ((c, r) # ps) = totals d (fold count_line (report_lines d r) acc) ps"
  by (simp_all add: totals_def)

lemma mid_counter_sel [simp]: "refs (mid_counter acc []) = fst acc" "rejected (mid_counter acc []) = fst (snd acc)"
  by (simp_all add: mid_counter_def split: prod.split)

lemma settle_settled [simp]: "pc_settle (mid_counter acc []) = mid_counter acc []"
  by (simp add: settle_mid count_line_empty)

lemma counted_push:
  "pc_settle (fold pc_write (if sd_out d then go_stdout r else []) (mid_counter acc [])) =
     mid_counter (fold count_line (report_lines d r) acc) []"
  by (simp only: pc_stream_from report_lines_def)

lemma rejected_total:
  "fst (snd (fold count_line ls acc)) = fst (snd acc) + length (filter rejected_line ls)"
  using count_line_snd [of ls "fst acc" "fst (snd acc)" "snd (snd acc)"] by simp

definition push_ended ::
  "sync_deps \<Rightarrow> nat \<times> nat \<times> string \<Rightarrow> bool \<Rightarrow> step list \<Rightarrow> sync_result \<times> bool \<times> sync_stats \<times> push_counter \<Rightarrow> bool" where
  "push_ended d acc prune es out =
     (case out of (res, ok, st', counter') \<Rightarrow>
        pc_settle counter' = mid_counter (totals d acc (replica_pushes es)) [] \<and>
        (if ok then res = ok_result \<and> pc_settle counter' = counter' \<and> rejected counter' = 0 \<and>
             (\<exists>c r. replica_pushes es = [(c, r)] \<and> prunes c = prune \<and> clean_push d r)
         else res_state res \<noteq> StateOK \<and> length (replica_pushes es) \<le> 1 \<and>
             (\<forall>(c, r)\<in>set (replica_pushes es). prunes c = prune) \<and>
             (res_state res = StatePending \<longrightarrow> was_cancelled es)))"

lemma push_failed_emits:
  assumes "home \<in> set (homes before)"
  shows "emits (do { (res, st1) \<leftarrow> push_failure W d home t st counter e stderr; ret (res, False, st1, counter) })
    (\<lambda>(res, ok, st', counter') es. calm d t l before es \<and> refs_pushed st' = refs_pushed st \<and> \<not> ok \<and>
       counter' = counter \<and> res_state res \<noteq> StateOK \<and> (res_state res = StatePending \<longrightarrow> was_cancelled es))"
  by (rule emits_then [OF push_failure_emits [OF assms]]) (auto intro!: emits_return split: prod.splits)

lemma push_once_emits:
  assumes "home \<in> set (homes before)" "mirror_checked d t before" "fst (snd acc) = 0"
  shows "emits (push_once W d home t l st (mid_counter acc []) specs prune)
    (\<lambda>out es. each_step (safe_step d t l) before es \<and> homes es = [] \<and> push_ended d acc prune es out \<and>
       refs_pushed (fst (snd (snd out))) = refs_pushed st)"
  unfolding push_once_def
  apply (rule emits_bind, rule emits_ctx, rule emits_if)
   apply (rule emits_return, auto simp: push_ended_def)[1]
  subgoal for c
    apply (rule emits_then [OF expired_emits [where before = "before @ [CtxRead None]"]])
    apply (rule emits_if)
     apply (rule emits_return, auto simp: push_ended_def calm_def error_result_def)[1]
    apply (rule emits_bind, rule emits_run)
    subgoal for expired es e
      apply (simp add: settle_if_ok_def push_error_def Let_def)
      apply (rule emits_weaken [OF push_failed_emits [where before = "before @ CtxRead None # es @ [CtxRead (Some e)]" and l = l]])
       apply (use assms in simp)
      apply (auto simp: calm_def push_ended_def)
      done
    subgoal premises p for expired es r
    proof -
      let ?run = "GitRun \<lparr>gc_argv = push_argv d t specs prune, gc_env = replica_env (sd_getenv d) home t l,
        gc_timeout = eff_push_timeout l\<rparr> r"
      let ?acc = "fold count_line (report_lines d r) acc"
      let ?before = "before @ CtxRead None # es @ [CtxRead None]"
      from p have c: "c = None" and es: "calm d t l (before @ [CtxRead None]) es" and f: "fresh d t ?before" by auto
      have "mirror_checked d t ?before" by (rule mirror_checked_append) (rule assms)
      with assms(1) f have safe: "safe_step d t l ?before ?run" by (intro safe_push [where home = home]) auto
      define out where "out = (if sd_out d then go_stdout r else [])"
      note counted = counted_push [of d r acc, folded out_def]
      show ?thesis
      proof (cases "go_err r")
        case None
        let ?n = "length (filter rejected_line (report_lines d r))"
        from None have ran: "run_error ''push'' r = None" by simp
        have n: "rejected (mid_counter ?acc []) = ?n" by (simp add: rejected_total assms(3))
        show ?thesis
        proof (cases "?n = 0")
          case True
          with None n es safe c show ?thesis
            unfolding out_def [symmetric]
            apply (simp add: Let_def settle_if_ok_def push_error_def counted ran)
            apply (rule emits_return)
            apply (auto simp: push_ended_def calm_def clean_push_def counted)
            done
        next
          case False
          with None n es safe c show ?thesis
            unfolding out_def [symmetric]
            apply (simp add: settle_if_ok_def push_error_def counted Let_def ran)
            apply (rule emits_weaken [OF push_failed_emits [where before = "?before @ [?run]" and l = l]])
             apply (use assms in simp)
            apply (auto simp: calm_def push_ended_def)
            done
        qed
      next
        case (Some e)
        then obtain e' where ran: "run_error ''push'' r = Some e'" by auto
        from Some es safe c show ?thesis
            unfolding out_def [symmetric]
          apply (simp add: settle_if_ok_def push_error_def Let_def ran)
          apply (rule emits_weaken [OF push_failed_emits [where before = "?before @ [?run]" and l = l]])
           apply (use assms in simp)
          apply (auto simp: calm_def push_ended_def counted)
          done
      qed
    qed
    done
  done

text \<open>Only the last push may prune or fail.\<close>

definition prune_last :: "sync_deps \<Rightarrow> (git_call \<times> git_outcome) list \<Rightarrow> bool" where
  "prune_last d ps \<longleftrightarrow> list_all (\<lambda>(c, r). \<not> prunes c \<and> clean_push d r) (butlast ps)"

definition pruned_clean :: "sync_deps \<Rightarrow> (git_call \<times> git_outcome) list \<Rightarrow> bool" where
  "pruned_clean d ps \<longleftrightarrow> ps \<noteq> [] \<and> (case last ps of (c, r) \<Rightarrow> prunes c \<and> clean_push d r)"

definition pushes_ended ::
  "sync_deps \<Rightarrow> nat \<times> nat \<times> string \<Rightarrow> step list \<Rightarrow> sync_result \<Rightarrow> push_counter \<Rightarrow> bool" where
  "pushes_ended d acc es res counter' \<longleftrightarrow>
     pc_settle counter' = mid_counter (totals d acc (replica_pushes es)) [] \<and>
     prune_last d (replica_pushes es) \<and>
     (res_state res = StateOK \<longrightarrow> pruned_clean d (replica_pushes es)) \<and>
     (res_state res = StatePending \<longrightarrow> was_cancelled es)"

lemma push_all_emits:
  assumes "home \<in> set (homes before)" "mirror_checked d t before" "fst (snd acc) = 0"
  shows "emits (push_all W d home t l batches st (mid_counter acc []))
    (\<lambda>(res, st', counter') es. each_step (safe_step d t l) before es \<and> homes es = [] \<and>
       pushes_ended d acc es res counter' \<and> refs_pushed st' = refs_pushed st)"
  using assms
proof (induction batches arbitrary: before acc st)
  case Nil
  show ?case
    unfolding push_all.simps
    apply (rule emits_then [OF push_once_emits [OF Nil]])
    apply (rule emits_prod)+
    apply (rule emits_return)
    apply (auto simp: push_ended_def pushes_ended_def prune_last_def pruned_clean_def split: if_splits)
    apply (case_tac "replica_pushes es"; auto)+
    done
next
  case (Cons batch batches)
  show ?case
    unfolding push_all.simps
    apply (rule emits_then [OF push_once_emits [OF Cons.prems]])
    apply (rule emits_prod)+
    apply (rule emits_if)
    subgoal premises p for out es res rest ok rest' st1 counter1
    proof -
      from p have "length (replica_pushes es) \<le> 1" "\<not> ok" by (auto simp: push_ended_def)
      then have "prune_last d (replica_pushes es)"
        by (cases "replica_pushes es") (auto simp: prune_last_def)
      with p show ?thesis by (auto simp: push_ended_def pushes_ended_def intro!: emits_return)
    qed
    subgoal premises p for out es res rest ok rest' st1 counter1
    proof -
      let ?acc = "totals d acc (replica_pushes es)"
      from p have c: "counter1 = mid_counter ?acc []" and r: "fst (snd ?acc) = 0"
        by (auto simp: push_ended_def)
      from p obtain pc pr where push: "replica_pushes es = [(pc, pr)]" "\<not> prunes pc" "clean_push d pr"
        by (auto simp: push_ended_def)
      have m: "mirror_checked d t (before @ es)" by (rule mirror_checked_append) (rule Cons.prems)
      have h: "home \<in> set (homes (before @ es))" using Cons.prems(1) by simp
      show ?thesis
        unfolding c
        apply (rule emits_weaken [OF Cons.IH [OF h m r, of st1]])
        using p push
        apply (auto simp: pushes_ended_def prune_last_def pruned_clean_def)
        done
    qed
    done
qed

definition not_planned :: "step list \<Rightarrow> (sync_result + 'a) \<Rightarrow> bool" where
  "not_planned es planned \<longleftrightarrow>
     (case planned of Inl res \<Rightarrow> res_state res \<noteq> StateOK \<and> (res_state res = StatePending \<longrightarrow> was_cancelled es) | Inr p \<Rightarrow> True)"

lemma plan_failed_emits:
  assumes "home \<in> set (homes before)"
  shows "emits (do { (res, st1) \<leftarrow> push_failure W d home t st counter e stderr; ret (Inl res, st1) })
    (\<lambda>(planned, st') es. calm d t l before es \<and> refs_pushed st' = refs_pushed st \<and> not_planned es planned)"
  by (rule emits_then [OF push_failure_emits [OF assms]])
    (auto intro!: emits_return simp: not_planned_def split: prod.splits)

lemma plan_push_emits:
  assumes "home \<in> set (homes before)" "mirror_checked d t before"
  shows "emits (plan_push W d home t l st)
    (\<lambda>(planned, st') es. calm d t l before es \<and> refs_pushed st' = refs_pushed st \<and> not_planned es planned)"
  unfolding plan_push_def
  apply (rule emits_bind, rule emits_ctx, rule emits_if)
   apply (rule emits_return, auto simp: not_planned_def)[1]
  subgoal for c
    apply (rule emits_then [OF expired_emits [where before = "before @ [CtxRead None]"]])
    apply (rule emits_if)
     apply (rule emits_return, auto simp: not_planned_def error_result_def)[1]
    apply (rule emits_bind, rule emits_run)
    subgoal for expired es e
      apply (simp add: settle_if_ok_def push_error_def Let_def)
      apply (rule emits_weaken [OF plan_failed_emits [where before = "before @ CtxRead None # es @ [CtxRead (Some e)]" and l = l]])
       apply (use assms in simp)
      apply (auto simp: not_planned_def split: sum.splits)
      done
    subgoal premises p for expired es r
    proof -
      let ?run = "GitRun \<lparr>gc_argv = plan_argv d t, gc_env = replica_env (sd_getenv d) home t l,
        gc_timeout = eff_push_timeout l\<rparr> r"
      let ?before = "before @ CtxRead None # es @ [CtxRead None]"
      from p have c: "c = None" and es: "calm d t l (before @ [CtxRead None]) es" and f: "fresh d t ?before" by auto
      have "mirror_checked d t ?before" by (rule mirror_checked_append) (rule assms)
      with assms(1) f have "safe_step d t l ?before ?run" by (intro safe_push [where home = home]) auto
      then have run: "calm d t l ?before (?run # fs) \<longleftrightarrow> calm d t l (?before @ [?run]) fs" for fs
        by (simp add: calm_def)
      have failed: "emits (do { (res, st1) \<leftarrow> push_failure W d home t st counter e stderr; ret (Inl res, st1) })
        (\<lambda>b fs. (case b of (planned, st') \<Rightarrow> \<lambda>es. calm d t l before es \<and> refs_pushed st' = refs_pushed st \<and>
            not_planned es planned) ([CtxRead c] @ es @ [CtxRead None, ?run] @ fs))" for counter e stderr
        apply (rule emits_weaken [OF plan_failed_emits [where before = "?before @ [?run]" and l = l]])
         apply (use assms in simp)
        apply (use es c run in \<open>auto simp: not_planned_def split: sum.splits\<close>)
        done
      show ?thesis
        apply (simp only: prod.case Let_def)
        apply (rule emits_option)
         apply (rule emits_prod)
         apply (rule emits_return)
         apply (use es c run in \<open>auto simp: not_planned_def error_result_def\<close>)[1]
        apply (rule failed)
        done
    qed
    done
  done

text \<open>The number of refs reported is what the replica's reports counted, over all pushes.\<close>

definition counted_refs :: "sync_deps \<Rightarrow> step list \<Rightarrow> nat" where
  "counted_refs d es = fst (totals d (0, 0, []) (replica_pushes es))"

definition stage_ended :: "sync_deps \<Rightarrow> step list \<Rightarrow> sync_result \<Rightarrow> sync_stats \<Rightarrow> bool" where
  "stage_ended d es res st \<longleftrightarrow>
     prune_last d (replica_pushes es) \<and>
     (res_state res = StateOK \<longrightarrow> pruned_clean d (replica_pushes es)) \<and>
     (res_state res = StatePending \<longrightarrow> was_cancelled es) \<and>
     (sd_out d \<longrightarrow> refs_pushed st = Some (counted_refs d es))"

lemma push_stage_emits:
  assumes "home \<in> set (homes before)" "mirror_checked d t before"
  shows "emits (push_stage W d home t l st)
    (\<lambda>(res, st') es. each_step (safe_step d t l) before es \<and> homes es = [] \<and> stage_ended d es res st' \<and>
       (\<not> sd_out d \<longrightarrow> refs_pushed st' = refs_pushed st))"
proof -
  have planned: "emits (if push_batch_refs l > 0 \<and> sd_out d then do {
          may \<leftarrow> mirror_may_exceed_batch W d home t (push_batch_refs l);
          (if \<not> may then ret (Inr [], st)
           else do {
             (p, st1) \<leftarrow> plan_push W d home t l st;
             ret (case p of Inl res \<Rightarrow> Inl res | Inr plan \<Rightarrow> Inr (batches_of plan (push_batch_refs l)), st1)
           })
        } else ret (Inr [], st))
     (\<lambda>(planned, st') es. calm d t l before es \<and> refs_pushed st' = refs_pushed st \<and> not_planned es planned)"
    apply (rule emits_if)
     apply (rule emits_then [OF may_exceed_emits [OF assms(1)]])
     apply (rule emits_if)
      apply (rule emits_return, simp add: not_planned_def)
    subgoal for may es
      apply (rule emits_then [OF plan_push_emits [where before = "before @ es"]])
        apply (use assms in simp)
       apply (use assms in simp)
      apply (rule emits_prod, rule emits_return)
      apply (auto simp: not_planned_def split: sum.splits)
      done
    apply (rule emits_return, simp add: not_planned_def)
    done
  show ?thesis
    unfolding push_stage_def
    apply (rule emits_then [OF planned], rule emits_prod)
    subgoal premises p for x es planned st1
    proof (cases planned)
      case (Inl res)
      with p show ?thesis
        by (auto intro!: emits_return emits_bind
          simp: calm_def not_planned_def stage_ended_def prune_last_def counted_refs_def new_push_counter_mid pc_refs_def)
    next
      case (Inr batches)
      from p have calm: "calm d t l before es" "refs_pushed st1 = refs_pushed st" by auto
      have m: "mirror_checked d t (before @ es)" by (rule mirror_checked_append) (rule assms)
      have h: "home \<in> set (homes (before @ es))" using assms by simp
      note pushed = push_all_emits [OF h m, of "(0, 0, [])", folded new_push_counter_mid, simplified]
      show ?thesis
        apply (simp only: Inr sum.case)
        apply (rule emits_then [OF pushed], (rule emits_prod)+)
        apply (rule emits_return)
        apply (use calm in \<open>auto simp: calm_def stage_ended_def pushes_ended_def counted_refs_def pc_refs_def\<close>)
        done
    qed
    done
qed

section \<open>The whole sync\<close>

definition attempt_ended :: "sync_deps \<Rightarrow> step list \<Rightarrow> sync_result \<Rightarrow> sync_stats \<Rightarrow> bool" where
  "attempt_ended d es res st \<longleftrightarrow>
     prune_last d (replica_pushes es) \<and>
     (res_state res = StateOK \<longrightarrow> pruned_clean d (replica_pushes es)) \<and>
     (res_state res = StatePending \<longrightarrow> was_cancelled es) \<and>
     refs_pushed st = (if sd_out d then Some (counted_refs d es) else None)"

definition starting_stats :: "sync_deps \<Rightarrow> sync_stats \<Rightarrow> bool" where
  "starting_stats d st \<longleftrightarrow> refs_pushed st = (if sd_out d then Some 0 else None)"

lemma attempt_ended_early:
  "replica_pushes es = [] \<Longrightarrow> starting_stats d st \<Longrightarrow> res_state res \<noteq> StateOK \<Longrightarrow>
   (res_state res = StatePending \<Longrightarrow> was_cancelled es) \<Longrightarrow> attempt_ended d es res st"
  by (auto simp: attempt_ended_def starting_stats_def prune_last_def counted_refs_def)

lemma push_and_report_emits:
  assumes "home \<in> set (homes before)" "mirror_checked d t before" "starting_stats d st"
  shows "emits (push_and_report W d home t l st)
    (\<lambda>(res, st') es. each_step (safe_step d t l) before es \<and> homes es = [] \<and> attempt_ended d es res st')"
proof -
  have newest: "emits (if sd_out d then do {
          at_time \<leftarrow> newest_commit W d home t;
          c \<leftarrow> ctx_err W SyncCtx;
          ret (c \<noteq> None, st\<lparr>newest_commit_at := at_time\<rparr>)
        } else ret (False, st))
     (\<lambda>(cancelled, st') es. calm d t l before es \<and> starting_stats d st' \<and> (cancelled \<longrightarrow> was_cancelled es))"
    apply (rule emits_if)
     apply (rule emits_then [OF newest_emits [OF assms(1)]], rule emits_bind, rule emits_ctx, rule emits_return)
     apply (use assms(3) in \<open>auto simp: starting_stats_def\<close>)[1]
    apply (rule emits_return, use assms(3) in simp)
    done
  show ?thesis
    unfolding push_and_report_def
    apply (rule emits_then [OF newest], rule emits_prod, rule emits_if)
     apply (rule emits_return, auto simp: calm_def intro!: attempt_ended_early)[1]
    subgoal premises p for x es cancelled st1
    proof -
      have m: "mirror_checked d t (before @ es)" by (rule mirror_checked_append) (rule assms)
      have h: "home \<in> set (homes (before @ es))" using assms by simp
      from p have es: "calm d t l before es" "starting_stats d st1" by auto
      show ?thesis
        apply (rule emits_then [OF push_stage_emits [OF h m]], rule emits_prod, rule emits_if)
         apply (rule emits_return)
         apply (use es in \<open>auto simp: calm_def stage_ended_def attempt_ended_def starting_stats_def counted_refs_def\<close>)[1]
        subgoal premises q for y fs res st2
          apply (rule emits_then [OF learn_emits [where before = "before @ es @ fs" and home = home and l = l]])
           apply (use assms in simp)
          subgoal for st3 gs
            apply (rule emits_then [OF detect_lfs_emits [where before = "before @ es @ fs @ gs" and home = home and l = l]])
             apply (use assms in simp)
            apply (rule emits_prod, rule emits_return)
            apply (use q es in \<open>auto simp: calm_def stage_ended_def attempt_ended_def starting_stats_def counted_refs_def\<close>)
            done
          done
        done
    qed
    done
qed

lemma sync_in_home_emits:
  assumes "home \<in> set (homes before)" "starting_stats d st"
  shows "emits (sync_in_home W d home t l st)
    (\<lambda>(res, st') es. each_step (safe_step d t l) before es \<and> homes es = [] \<and> attempt_ended d es res st')"
  unfolding sync_in_home_def
  apply (rule emits_then [OF update_mirror_emits [OF assms(1), where l = l]], rule emits_prod, rule emits_option)
  subgoal premises p for x es stderr er
    apply (rule emits_then [OF has_refs_emits [where before = "before @ es" and home = home and l = l]])
     apply (use assms in simp)
    apply (rule emits_prod, rule emits_option)
    subgoal premises q for y fs stderr2 er2
    proof -
      from p q have calm: "calm d t l before (es @ fs)" by auto
      have "mirror_checked d t ((before @ es) @ fs)"
        using p q by (intro mirror_checked_join) (auto simp: list_ex_append)
      then have m: "mirror_checked d t (before @ es @ fs @ gs)" for gs
        using mirror_checked_append [of d t "before @ es @ fs" gs] by simp
      have over: "emits (if max_repository_mb l > 0
            then mirror_exceeds W (mirror_dir (sd_lib d) (sd_root d) (task_repo t)) (max_repository_mb l * mebibyte)
            else ret (Inr False)) (\<lambda>_ gs. calm d t l (before @ es @ fs) gs)"
        by (auto simp: mirror_exceeds_def intro!: emits_intros)
      have early: "emits (ret (error_result ty detail, st)) (\<lambda>b hs. case b of (res, st') \<Rightarrow>
          each_step (safe_step d t l) before (es @ fs @ gs @ hs) \<and> homes (es @ fs @ gs @ hs) = [] \<and>
          attempt_ended d (es @ fs @ gs @ hs) res st')" if "calm d t l (before @ es @ fs) gs" for ty detail gs
        using calm that assms(2) by (auto simp: calm_def error_result_def intro!: emits_return attempt_ended_early)
      show ?thesis
        apply (rule emits_then [OF over])
        subgoal premises r for gl gs
          apply (rule emits_sum)
          subgoal using early [OF r] by (simp add: local_fault_def case_prod_beta)
          subgoal for b
            apply (cases b)
            subgoal using early [OF r] by (simp add: case_prod_beta)
            subgoal
              apply simp
              apply (rule emits_weaken [OF push_and_report_emits [where before = "before @ es @ fs @ gs" and home = home]])
                 apply (use assms in simp)
                apply (rule m)
               apply (rule assms(2))
              apply (use calm r in \<open>auto simp: calm_def attempt_ended_def counted_refs_def\<close>)
              done
            done
          done
        done
    qed
    subgoal premises q for y fs stderr2 er2 e
      apply (rule emits_bind, rule emits_ctx, rule emits_return)
      apply (use p q assms(2) in \<open>auto simp: calm_def error_result_def intro!: attempt_ended_early split: prod.splits\<close>)
      done
    done
  subgoal premises p for x es stderr er e
    apply (rule emits_bind, rule emits_ctx, rule emits_return)
    apply (use p assms(2) in \<open>auto simp: calm_def fetch_failure_def error_result_def intro!: attempt_ended_early split: prod.splits\<close>)
    done
  done

text \<open>The last thing a sync that made a temporary home does is to remove it.\<close>

definition home_removed :: "step list \<Rightarrow> bool" where
  "home_removed es \<longleftrightarrow>
     (case homes es of
        [] \<Rightarrow> True
      | h # others \<Rightarrow> others = [] \<and> (case rev es of Removed p e # _ \<Rightarrow> p = h | _ \<Rightarrow> False))"

definition task_deps :: "sync_deps \<Rightarrow> sync_task \<Rightarrow> sync_deps" where
  "task_deps d t = d\<lparr>sd_forms := secret_forms (origin t) (push_token t)\<rparr>"

lemma task_deps_sel [simp]:
  "sd_out (task_deps d t) = sd_out d" "sd_limits (task_deps d t) = sd_limits d"
  by (simp_all add: task_deps_def)

lemma local_fault_state [simp]: "res_state (local_fault d e) = StateError"
  by (simp add: local_fault_def error_result_def split: prod.split)

lemma sync_attempt_emits:
  assumes "starting_stats d0 st"
  shows "emits (sync_attempt W d0 t st)
    (\<lambda>(res, st') es. each_step (safe_step (task_deps d0 t) t (current_limits d0)) [] es \<and> home_removed es \<and>
       attempt_ended (task_deps d0 t) es res st')"
proof -
  let ?d = "task_deps d0 t" and ?l = "current_limits d0"
  have st: "starting_stats ?d st" using assms by (simp add: starting_stats_def)
  have l: "current_limits ?d = ?l" by (simp add: current_limits_def)
  have early: "emits (ret (res, st)) (\<lambda>b fs. (case b of (res, st') \<Rightarrow> \<lambda>es. each_step (safe_step ?d t ?l) [] es \<and>
      home_removed es \<and> attempt_ended ?d es res st') (es @ fs))"
    if "calm ?d t ?l [] es" "res_state res \<noteq> StateOK" "res_state res = StatePending \<Longrightarrow> was_cancelled es" for es res
    using that st by (auto simp: calm_def home_removed_def intro!: emits_return attempt_ended_early)
  show ?thesis
    unfolding sync_attempt_def task_deps_def [symmetric] Let_def l
    apply (rule emits_bind, rule emits_ctx, rule emits_if)
    subgoal by (rule early) auto
    subgoal for c
      apply (rule emits_then [OF expired_emits [where before = "[CtxRead None]" and l = ?l]], rule emits_if)
      subgoal premises p for expired es
        using early [of "[CtxRead c] @ es" "error_result PushTokenExpired []"] p by (simp add: error_result_def)
      subgoal premises p for expired es
      proof -
        have calm: "calm ?d t ?l [] (CtxRead c # es)" using p by simp
        have in_home: "emits (do { r \<leftarrow> sync_in_home W ?d home t ?l st; _ \<leftarrow> remove_all W home; ret r })
          (\<lambda>b fs. (case b of (res, st') \<Rightarrow> \<lambda>es. each_step (safe_step ?d t ?l) [] es \<and>
            home_removed es \<and> attempt_ended ?d es res st')
            ([CtxRead c] @ es @ [RootMade e] @ [HomeMade (Inr home)] @ fs))" for e home
          apply (rule emits_then [OF sync_in_home_emits [where
              before = "CtxRead c # es @ [RootMade e, HomeMade (Inr home)]" and home = home, OF _ st]])
           apply simp
          apply (rule emits_bind, rule emits_remove, rule emits_return)
          apply (use calm in \<open>auto simp: calm_def home_removed_def safe_step_def attempt_ended_def counted_refs_def\<close>)
          done
        show ?thesis
          apply (rule emits_bind, rule emits_effect, rule emits_option)
           apply (rule emits_bind, rule emits_effect, rule emits_sum)
          subgoal for e h er
            using early [of "CtxRead c # es @ [RootMade e, HomeMade h]" "local_fault ?d er"] calm by simp
          subgoal for e h home using in_home [of home e] by simp
          subgoal for e er
            using early [of "CtxRead c # es @ [RootMade e]" "local_fault ?d er"] calm by simp
          done
      qed
      done
    done
qed

text \<open>One sync in the world \<open>w\<close>: its result and its log.\<close>

definition sync_run :: "'w world_ops \<Rightarrow> sync_deps \<Rightarrow> sync_task \<Rightarrow> 'w \<Rightarrow> sync_result \<times> step list" where
  "sync_run W d t w = (case run_state (sync_repo W d t) \<lparr>ext = w, trace = []\<rparr> of (res, s) \<Rightarrow> (res, trace s))"

lemma sync_repo_emits:
  "emits (sync_repo W d t)
    (\<lambda>res es. each_step (safe_step (task_deps d t) t (current_limits d)) [] es \<and> home_removed es \<and>
       attempt_ended (task_deps d t) es res (stats res))"
  unfolding sync_repo_def
  apply (rule emits_then [OF sync_attempt_emits])
   apply (simp add: starting_stats_def)
  apply (rule emits_prod, rule emits_return)
  apply (auto simp: attempt_ended_def)
  done

lemma sync_run_facts:
  "each_step (safe_step (task_deps d t) t (current_limits d)) [] (snd (sync_run W d t w))"
  "home_removed (snd (sync_run W d t w))"
  "attempt_ended (task_deps d t) (snd (sync_run W d t w)) (fst (sync_run W d t w)) (stats (fst (sync_run W d t w)))"
  using sync_repo_emits [of W d t, unfolded emits_def, THEN spec, of "\<lparr>ext = w, trace = []\<rparr>"]
  by (auto simp: sync_run_def split: prod.splits)

lemma sync_step_facts:
  fixes W :: "'w world_ops"
  shows "each_step (push_guarded (task_deps d t) t) [] (snd (sync_run W d t w))"
    "each_step (starts_live (task_deps d t) t) [] (snd (sync_run W d t w))"
    "each_step (credentials_confined (task_deps d t) t (current_limits d)) [] (snd (sync_run W d t w))"
    "each_step (removal_justified (task_deps d t) t) [] (snd (sync_run W d t w))"
  by (rule each_step_mono [OF sync_run_facts(1)]; simp add: safe_step_def)+

text \<open>C1. Whatever git answers, before any push of a sync the mirror was fetched successfully and then
found to hold a branch or tag; and of the pushes that reach the replica only the last may prune or
fail, so nothing is deleted from the replica unless every batch before was accepted in full.\<close>

theorem replica_pruned_last:
  "case sync_run W d t w of (res, es) \<Rightarrow>
     each_step (push_guarded (task_deps d t) t) [] es \<and> prune_last (task_deps d t) (replica_pushes es)"
  using sync_step_facts [where d = d and t = t and W = W and w = w] sync_run_facts(3) [where d = d and t = t and W = W and w = w]
  by (auto simp: safe_step_def attempt_ended_def case_prod_beta)

text \<open>
  What the result claims: a healthy sync ended with a push that pruned and was accepted in full, a
  pending one saw its context cancelled, and the count of refs is what the reports counted.
\<close>

definition result_backed :: "sync_deps \<Rightarrow> step list \<Rightarrow> sync_result \<Rightarrow> bool" where
  "result_backed d es res \<longleftrightarrow>
     (case res_state res of
        StateOK \<Rightarrow> pruned_clean d (replica_pushes es)
      | StatePending \<Rightarrow> was_cancelled es
      | _ \<Rightarrow> True) \<and>
     refs_pushed (stats res) = (if sd_out d then Some (counted_refs d es) else None)"

text \<open>C8. The result of a sync is backed by what happened: a healthy one ended with a pruning push that
git and the replica accepted without rejecting a ref, a pending one saw its context cancelled, and
the number of refs reported is what the reports of all pushes of the attempt counted.\<close>

theorem sync_result_backed:
  "case sync_run W d t w of (res, es) \<Rightarrow> result_backed (task_deps d t) es res"
  using sync_run_facts(3) [where d = d and t = t and W = W and w = w]
  by (auto simp: attempt_ended_def result_backed_def case_prod_beta split: sync_state.split)

text \<open>C9. A sync starts a git process only straight after reading its context as live, and a push or
planning push only if just before that the clock was before the known expiry of the push token.\<close>

theorem git_starts_live:
  "case sync_run W d t w of (res, es) \<Rightarrow> each_step (starts_live (task_deps d t) t) [] es"
  using sync_step_facts [where d = d and t = t and W = W and w = w]
  by (auto simp: safe_step_def case_prod_beta)


text \<open>C12. A sync removes a directory only if it is its own temporary home, or the mirror of its
repository when there was none before or a live fetch into it failed with a corruption marker; and
if it made a home, removing it is its last action.\<close>

theorem mirror_removed_for_cause:
  "case sync_run W d t w of (res, es) \<Rightarrow>
     each_step (removal_justified (task_deps d t) t) [] es \<and> home_removed es"
  using sync_step_facts [where d = d and t = t and W = W and w = w] sync_run_facts(2) [where d = d and t = t and W = W and w = w]
  by (auto simp: safe_step_def case_prod_beta)

end
