(* ===== verification/MirrorSafety.thy ===== *)
theory MirrorSafety
  imports MirrorGC
begin

text \<open>
  What a sweep may do to the mirrors root: every destructive file operation is checked against what the
  sweep had seen before it, in every world.
\<close>

section \<open>The policy\<close>

definition trash_path :: "string \<Rightarrow> string" where
  "trash_path n = join_path gc_trash_dir_name n"

fun saw_directory :: "string \<Rightarrow> gc_step \<Rightarrow> bool" where
  "saw_directory p (Lstat q (Inr i)) \<longleftrightarrow> q = p \<and> fi_kind i = DirFile"
| "saw_directory p _ \<longleftrightarrow> False"

fun prepares_trash :: "gc_step \<Rightarrow> bool" where
  "prepares_trash (Lstat p r) \<longleftrightarrow> p = gc_trash_dir_name"
| "prepares_trash (MadeDir p e) \<longleftrightarrow> p = gc_trash_dir_name"
| "prepares_trash (Random b) \<longleftrightarrow> True"
| "prepares_trash _ \<longleftrightarrow> False"

text \<open>
  The mirror \<open>n\<close> is due: it was seen as a real directory, not in flight, with a readable mark at least the
  grace period old and not older than the last configuration that named it; and then, in the critical
  section that moves it, again not in flight, with cleanup enabled, the last configuration accepted, no
  critical update pending, and no configured repository having that directory.
\<close>

definition unconfigured :: "gc_deps \<Rightarrow> client \<Rightarrow> string \<Rightarrow> bool" where
  "unconfigured d c n \<longleftrightarrow>
     config_accepted c \<and> repos c \<noteq> fmempty \<and> n \<notin> dir_name (gd_lib d) (gd_root d) ` fmdom' (repos c)"

definition grace_over :: "gc_deps \<Rightarrow> gtime \<Rightarrow> mirror_gc \<Rightarrow> string \<Rightarrow> string \<Rightarrow> bool" where
  "grace_over d now g n content \<longleftrightarrow>
     (case marker_time d now content of
        None \<Rightarrow> False
      | Some since \<Rightarrow> mirror_gc_grace \<le> now - since \<and>
          (case last_configured g n of None \<Rightarrow> True | Some t \<Rightarrow> t \<le> since))"

definition due_evidence :: "gc_deps \<Rightarrow> gtime \<Rightarrow> string \<Rightarrow> gc_step list \<Rightarrow> bool" where
  "due_evidence d now n es \<longleftrightarrow>
     (\<exists>ids1 content m g ids2 v g1 c1 c2.
        es = [InflightSeen ids1, Lstat (marker_path n) (Inr m), ReadFile (marker_path n) (Some content), GcSeen g,
              InflightSeen ids2, EnvSeen v, GcSeen g1, ClientSeen c1, ClientSeen c2] \<and>
        \<not> mirror_inflight (gd_lib d) (gd_root d) ids1 n \<and>
        fi_kind m = RegularFile \<and> grace_over d now g n content \<and>
        \<not> mirror_inflight (gd_lib d) (gd_root d) ids2 n \<and>
        \<not> mirror_gc_disabled v \<and> \<not> gc_rejected g1 \<and> \<not> critical_patch c1 \<and> unconfigured d c2 n)"

definition mirror_due :: "gc_deps \<Rightarrow> string \<Rightarrow> gc_step list \<Rightarrow> bool" where
  "mirror_due d n before \<longleftrightarrow>
     (\<exists>pre seen es prep now. before = pre @ seen # es @ prep \<and> GcNow now \<in> set pre \<and> saw_directory n seen \<and>
        due_evidence d now n es \<and> list_all prepares_trash prep)"

text \<open>
  Nothing outside the mirrors and the trash is written or removed; a mirror is moved to the trash only
  when it is due; a tree is removed only in the trash, straight after it was moved there or seen to be a
  directory with the name of a mirror set aside.
\<close>

fun gc_safe :: "gc_deps \<Rightarrow> gc_step list \<Rightarrow> gc_step \<Rightarrow> bool" where
  "gc_safe d before (Renamed a b e) \<longleftrightarrow>
     (\<exists>n. mirror_dir_name n \<and>
        (a = marker_tmp_path n \<and> b = marker_path n \<and> list_ex (saw_directory n) before \<or>
         a = n \<and> (\<exists>bs. b = trash_path (n @ ''.'' @ hex_encode bs)) \<and> mirror_due d n before))"
| "gc_safe d before (RemovedTree p e) \<longleftrightarrow>
     before \<noteq> [] \<and>
     ((\<exists>n. tombstone_name n \<and> p = trash_path n \<and> saw_directory p (last before)) \<or>
      (\<exists>n. mirror_dir_name n \<and> last before = Renamed n p None))"
| "gc_safe d before (RemovedFile p e) \<longleftrightarrow>
     (\<exists>n. mirror_dir_name n \<and> p \<in> {marker_path n, marker_tmp_path n} \<and> list_ex (saw_directory n) before)"
| "gc_safe d before (CreatedFile p e) \<longleftrightarrow>
     (\<exists>n. mirror_dir_name n \<and> p = marker_tmp_path n \<and> list_ex (saw_directory n) before)"
| "gc_safe d before (MadeDir p e) \<longleftrightarrow> p = gc_trash_dir_name"
| "gc_safe d before _ \<longleftrightarrow> True"

declare gc_safe.simps(1-5) [simp del]

section \<open>The operations keep it\<close>

abbreviation safe :: "gc_deps \<Rightarrow> gc_step list \<Rightarrow> gc_step list \<Rightarrow> bool" where
  "safe d \<equiv> each_step (gc_safe d)"

lemma emits_lstat: "(\<And>r. Q r [Lstat p r]) \<Longrightarrow> emits (lstat W p) Q"
  by (simp add: lstat_def emits_effect)

lemma emits_remove_file: "(\<And>r. Q r [RemovedFile p r]) \<Longrightarrow> emits (remove_file W p) Q"
  by (simp add: remove_file_def emits_effect)

lemmas gc_intros =
  emits_bind emits_return emits_lstat emits_remove_file emits_effect
  emits_if emits_option emits_sum emits_prod emits_let

text \<open>The pieces that write a mark, inside a mirror seen as a directory.\<close>

definition in_mirror :: "string \<Rightarrow> gc_step list \<Rightarrow> bool" where
  "in_mirror n before \<longleftrightarrow> mirror_dir_name n \<and> list_ex (saw_directory n) before"

lemma in_mirror_append [simp]: "in_mirror n es \<Longrightarrow> in_mirror n (es @ fs)"
  by (simp add: in_mirror_def)

lemma safe_mark [simp]:
  assumes "in_mirror n before"
  shows "gc_safe d before (RemovedFile (marker_path n) e)" "gc_safe d before (RemovedFile (marker_tmp_path n) e)"
    "gc_safe d before (CreatedFile (marker_tmp_path n) e)"
    "gc_safe d before (Renamed (marker_tmp_path n) (marker_path n) e)"
  using assms by (auto simp: in_mirror_def gc_safe.simps)

lemma read_marker_emits:
  "emits (read_marker W d now n) (\<lambda>mark es. safe d before es \<and>
     (\<forall>since. mark = Some since \<longrightarrow> (\<exists>m content. es = [Lstat (marker_path n) (Inr m), ReadFile (marker_path n) (Some content)] \<and>
        fi_kind m = RegularFile \<and> marker_time d now content = Some since)))"
  unfolding read_marker_def by (intro gc_intros) (auto split: option.splits)

lemma clear_tmp_emits:
  "in_mirror n before \<Longrightarrow> emits (clear_tmp W n) (\<lambda>_ es. safe d before es)"
  unfolding clear_tmp_def by (intro gc_intros) auto

lemma clear_squatter_emits:
  "in_mirror n before \<Longrightarrow> emits (clear_squatter W n) (\<lambda>_ es. safe d before es)"
  unfolding clear_squatter_def by (intro gc_intros) auto

lemma write_and_close_emits: "emits (write_and_close W content) (\<lambda>_ es. safe d before es)"
  unfolding write_and_close_def by (intro gc_intros) auto

lemma clear_marker_emits:
  "in_mirror n before \<Longrightarrow> emits (clear_marker W n r) (\<lambda>_ es. safe d before es)"
  unfolding clear_marker_def
  by (rule emits_then [OF clear_tmp_emits]) (assumption, intro gc_intros, auto)

lemma write_marker_emits:
  assumes "in_mirror n before"
  shows "emits (write_marker W d now n r) (\<lambda>_ es. safe d before es)"
  unfolding write_marker_def
  apply (rule emits_then [OF clear_tmp_emits [OF assms]], rule emits_if)
   apply (rule emits_return, simp)
  subgoal for free es
    apply (rule emits_then [OF clear_squatter_emits [where before = "before @ es"]])
     apply (use assms in simp)
    apply (rule emits_if)
     apply (rule emits_return, simp)
    apply (rule emits_bind, rule emits_effect, rule emits_if)
     apply (rule emits_return, use assms in simp)
    subgoal for free2 fs e
      apply (rule emits_then [OF write_and_close_emits [where before = "before @ es @ fs @ [CreatedFile (marker_tmp_path n) e]"]])
      apply (use assms in \<open>intro gc_intros, auto\<close>)
      done
    done
  done

lemma keep_set:
  "accepted_mirror_keep (gd_lib d) (gd_root d) c = Some keep \<Longrightarrow> n \<notin> set keep \<longleftrightarrow> unconfigured d c n"
  by (auto simp: accepted_mirror_keep_def unconfigured_def split: if_splits)

lemma allowed_emits:
  "emits (mirror_gc_allowed W) (\<lambda>ok es. safe d before es \<and>
     (ok \<longrightarrow> (\<exists>v g c. es = [EnvSeen v, GcSeen g, ClientSeen c] \<and>
        \<not> mirror_gc_disabled v \<and> \<not> gc_rejected g \<and> \<not> critical_patch c)))"
  unfolding mirror_gc_allowed_def by (intro gc_intros) auto

lemma orphaned_emits:
  "emits (mirror_orphaned W d n) (\<lambda>ok es. safe d before es \<and>
     (ok \<longrightarrow> (\<exists>v g c1 c2. es = [EnvSeen v, GcSeen g, ClientSeen c1, ClientSeen c2] \<and>
        \<not> mirror_gc_disabled v \<and> \<not> gc_rejected g \<and> \<not> critical_patch c1 \<and> unconfigured d c2 n)))"
  unfolding mirror_orphaned_def
  by (rule emits_then [OF allowed_emits [where before = before]], intro gc_intros)
    (auto simp: keep_set split: option.splits)

lemma ensure_trash_emits:
  "emits (ensure_trash W) (\<lambda>_ es. safe d before es \<and> list_all prepares_trash es)"
  unfolding ensure_trash_def
  by (intro gc_intros) (auto simp: gc_safe.simps split: fs_error.split intro!: gc_intros)

lemma due_append: "mirror_due d n before \<Longrightarrow> list_all prepares_trash es \<Longrightarrow> mirror_due d n (before @ es)"
  unfolding mirror_due_def by (metis append.assoc append_Cons list_all_append)

lemma move_to_trash_emits:
  assumes "mirror_due d n before" "mirror_dir_name n"
  shows "emits (move_to_trash W n) (\<lambda>moved es. safe d before es \<and>
    (\<forall>p. moved = Inr p \<longrightarrow> es \<noteq> [] \<and> last es = Renamed n p None))"
proof -
  have renamed: "gc_safe d (before @ es @ [Random b]) (Renamed n (join_path gc_trash_dir_name (n @ ''.'' @ hex_encode bs)) e)"
    if "list_all prepares_trash es" for es b bs e
    using due_append [OF assms(1), of "es @ [Random b]"] that assms(2)
    by (auto simp: gc_safe.simps trash_path_def)
  show ?thesis
    unfolding move_to_trash_def
    by (rule emits_then [OF ensure_trash_emits [where before = before]], intro gc_intros)
      (use renamed in \<open>auto split: option.splits\<close>)
qed

text \<open>What a sweep has seen of a mirror when it decides to claim it.\<close>

definition half_due :: "gc_deps \<Rightarrow> string \<Rightarrow> gc_step list \<Rightarrow> bool" where
  "half_due d n before \<longleftrightarrow>
     (\<exists>pre seen ids m content g now.
        before = pre @ [seen, InflightSeen ids, Lstat (marker_path n) (Inr m), ReadFile (marker_path n) (Some content), GcSeen g] \<and>
        GcNow now \<in> set pre \<and> saw_directory n seen \<and> \<not> mirror_inflight (gd_lib d) (gd_root d) ids n \<and>
        fi_kind m = RegularFile \<and> grace_over d now g n content)"

lemma half_due_claimed:
  assumes "half_due d n before" "\<not> mirror_inflight (gd_lib d) (gd_root d) ids n" "\<not> mirror_gc_disabled v"
    "\<not> gc_rejected g1" "\<not> critical_patch c1" "unconfigured d c2 n"
  shows "mirror_due d n (before @ [InflightSeen ids, EnvSeen v, GcSeen g1, ClientSeen c1, ClientSeen c2])"
proof -
  from assms(1) obtain pre seen ids' m content g now where
    b: "before = pre @ [seen, InflightSeen ids', Lstat (marker_path n) (Inr m), ReadFile (marker_path n) (Some content), GcSeen g]"
    and h: "GcNow now \<in> set pre" "saw_directory n seen" "\<not> mirror_inflight (gd_lib d) (gd_root d) ids' n"
      "fi_kind m = RegularFile" "grace_over d now g n content"
    unfolding half_due_def by blast
  let ?es = "[InflightSeen ids', Lstat (marker_path n) (Inr m), ReadFile (marker_path n) (Some content), GcSeen g,
    InflightSeen ids, EnvSeen v, GcSeen g1, ClientSeen c1, ClientSeen c2]"
  have "due_evidence d now n ?es" unfolding due_evidence_def using h assms(2-6) by blast
  then show ?thesis
    unfolding mirror_due_def using h
    by (intro exI [of _ pre] exI [of _ seen] exI [of _ ?es] exI [of _ "[]"] exI [of _ now]) (simp add: b)
qed

lemma claim_mirror_emits:
  assumes "half_due d n before" "mirror_dir_name n"
  shows "emits (claim_mirror W d n) (\<lambda>claimed es. safe d before es \<and>
    (\<forall>p. claimed = Some (Inr p) \<longrightarrow> es \<noteq> [] \<and> last es = Renamed n p None))"
  unfolding claim_mirror_def
  apply (rule emits_bind, rule emits_effect, rule emits_if)
   apply (rule emits_return, simp)
  subgoal for ids
    apply (rule emits_then [OF orphaned_emits [where before = "before @ [InflightSeen ids]"]], rule emits_if)
     apply (rule emits_return, simp)
    subgoal premises p for orphan es
    proof -
      from p obtain v g c1 c2 where es: "es = [EnvSeen v, GcSeen g, ClientSeen c1, ClientSeen c2]"
        and h: "\<not> mirror_gc_disabled v" "\<not> gc_rejected g" "\<not> critical_patch c1" "unconfigured d c2 n" by auto
      have "mirror_due d n (before @ InflightSeen ids # es)"
        unfolding es by (rule half_due_claimed [OF assms(1) p(1) h, simplified])
      from move_to_trash_emits [OF this assms(2)] show ?thesis
        by (rule emits_then) (use p in \<open>auto intro!: emits_return\<close>)
    qed
    done
  done

lemma remove_due_emits:
  assumes "half_due d n before" "mirror_dir_name n"
  shows "emits (remove_due W d n r) (\<lambda>_ es. safe d before es)"
  unfolding remove_due_def
  apply (rule emits_then [OF claim_mirror_emits [OF assms]], rule emits_option)
   apply (rule emits_return, simp)
  apply (rule emits_sum)
   apply (rule emits_return, simp)
  apply (rule emits_bind, rule emits_effect, rule emits_return)
  apply (use assms(2) in \<open>auto simp: gc_safe.simps\<close>)
  done

lemma grace_length: "mirror_gc_grace \<le> time_sub now since \<longleftrightarrow> mirror_gc_grace \<le> now - since"
  by (rule time_sub_ge_iff) (simp_all add: mirror_gc_grace_def max_duration_def)

lemma sweep_one_emits:
  assumes "GcNow now \<in> set before" "mirror_dir_name n"
  shows "emits (sweep_one W d keep now mirror_gc_grace n r) (\<lambda>_ es. safe d before es)"
  unfolding sweep_one_def
  apply (rule emits_bind, rule emits_lstat, rule emits_sum)
   apply (rule emits_return, simp)
  apply (rule emits_if)
   apply (rule emits_return, simp)
  subgoal for fi i
    apply (rule emits_if)
     apply (rule emits_weaken [OF clear_marker_emits [where before = "before @ [Lstat n fi]" and d = d]])
      apply (use assms in \<open>simp add: in_mirror_def\<close>)
     apply simp
    apply (rule emits_bind, rule emits_effect, rule emits_if)
     apply (rule emits_return, simp)
    subgoal for ids
      apply (rule emits_then [OF read_marker_emits [where before = "before @ [Lstat n fi, InflightSeen ids]" and d = d]])
      subgoal premises p for mark es
      proof (cases mark)
        case None
        with p assms show ?thesis
          by (auto simp: in_mirror_def intro!: emits_weaken [OF write_marker_emits [where before = "before @ Lstat n fi # InflightSeen ids # es" and d = d]])
      next
        case (Some since)
        with p obtain m content where es: "es = [Lstat (marker_path n) (Inr m), ReadFile (marker_path n) (Some content)]"
          and m: "fi_kind m = RegularFile" "marker_time d now content = Some since" by auto
        show ?thesis
          unfolding Some option.case
          apply (rule emits_bind, rule emits_effect, rule emits_if)
          subgoal for g
            apply (rule emits_weaken [OF write_marker_emits [where before = "before @ Lstat n fi # InflightSeen ids # es @ [GcSeen g]" and d = d]])
             apply (use assms p in \<open>auto simp: in_mirror_def\<close>)
            done
          subgoal premises q for g
          proof (cases "mirror_gc_grace \<le> time_sub now since")
            case True
            have "grace_over d now g n content"
              using q m(2) True by (auto simp: grace_over_def grace_length split: option.splits)
            then have "half_due d n (before @ [Lstat n fi, InflightSeen ids, Lstat (marker_path n) (Inr m), ReadFile (marker_path n) (Some content), GcSeen g])"
              using p m(1) assms(1) unfolding half_due_def by fastforce
            from remove_due_emits [OF this assms(2)] True show ?thesis
              by (auto simp: es elim!: emits_weaken)
          qed (use p in \<open>auto intro!: emits_return\<close>)
          done
      qed
      done
    done
  done

lemma recover_one_emits: "emits (recover_one W n r) (\<lambda>_ es. safe d before es)"
  unfolding recover_one_def
  by (intro gc_intros) (auto simp: gc_safe.simps trash_path_def)

lemma until_cancelled_emits:
  assumes "\<And>before n r. n \<in> set ns \<Longrightarrow> K before \<Longrightarrow> emits (body n r) (\<lambda>_ es. safe d before es)"
    and "\<And>b es. K b \<Longrightarrow> K (b @ es)" and "K before"
  shows "emits (until_cancelled W body ns r) (\<lambda>_ es. safe d before es)"
  using assms(1,3)
proof (induction ns arbitrary: before r)
  case (Cons n ns)
  show ?case
    unfolding until_cancelled.simps
    apply (rule emits_bind, rule emits_effect, rule emits_if)
     apply (rule emits_return, simp)
    subgoal for c
      apply (rule emits_then [OF Cons.prems(1) [where before = "before @ [GcCtx c]"]])
        apply simp
       apply (rule assms(2), rule Cons.prems(2))
      subgoal for r1 es
        apply (rule emits_weaken [OF Cons.IH [where before = "before @ [GcCtx c] @ es"]])
          apply (rule Cons.prems(1), simp, assumption)
         apply (rule assms(2), rule Cons.prems(2))
        apply simp
        done
      done
    done
qed (auto intro: emits_return)

lemma list_names_emits: "emits (list_names W p) (\<lambda>_ es. safe d before es)"
  unfolding list_names_def by (intro gc_intros) auto

lemma recover_tombstones_emits: "emits (recover_tombstones W r) (\<lambda>_ es. safe d before es)"
  unfolding recover_tombstones_def
  apply (rule emits_bind, rule emits_lstat, rule emits_sum)
   apply (rule emits_return, simp)
  apply (rule emits_if)
   apply (rule emits_return, simp)
  subgoal for fi i
    apply (rule emits_then [OF list_names_emits [where before = "before @ [Lstat gc_trash_dir_name fi]" and d = d]])
    subgoal for ns es
      apply (rule emits_weaken [OF until_cancelled_emits [where K = "\<lambda>_. True" and d = d
          and before = "before @ Lstat gc_trash_dir_name fi # es", OF recover_one_emits]])
        apply auto
      done
    done
  done

lemma sweep_mirrors_emits:
  assumes "GcNow now \<in> set before"
  shows "emits (sweep_mirrors W d keep now mirror_gc_grace) (\<lambda>_ es. safe d before es)"
  unfolding sweep_mirrors_def
  apply (rule emits_if, rule emits_return, simp)
  apply (rule emits_if, rule emits_return, simp)
  apply (rule emits_bind, rule emits_effect, rule emits_if, rule emits_return, simp)
  subgoal for e
    apply (rule emits_then [OF recover_tombstones_emits [where before = "before @ [RootOpened e]" and d = d]])
    subgoal for r es
      apply (rule emits_then [OF list_names_emits [where before = "before @ RootOpened e # es" and d = d]])
      subgoal for ns fs
        apply (rule emits_weaken [OF until_cancelled_emits [where K = "\<lambda>b. GcNow now \<in> set b" and d = d
            and before = "before @ RootOpened e # es @ fs", OF sweep_one_emits]])
        using assms apply auto
        done
      done
    done
  done

text \<open>One cleanup in the world \<open>w\<close>: its counts and its log.\<close>

definition gc_sweep :: "'w gc_world \<Rightarrow> gc_deps \<Rightarrow> 'w \<Rightarrow> sweep_result \<times> gc_step list" where
  "gc_sweep W d w = (case run_state (collect_mirrors W d) \<lparr>ext = w, trace = []\<rparr> of (r, s) \<Rightarrow> (r, trace s))"

lemma collect_mirrors_emits: "emits (collect_mirrors W d) (\<lambda>_ es. safe d [] es)"
  unfolding collect_mirrors_def
  apply (rule emits_then [OF allowed_emits [where before = "[]" and d = d]], rule emits_if, rule emits_return, simp)
  apply (rule emits_bind, rule emits_effect, rule emits_option, rule emits_return, simp)
  subgoal for ok es c keep
    apply (rule emits_bind, rule emits_effect)
    subgoal for now
      apply (rule emits_weaken [OF sweep_mirrors_emits [where before = "es @ [ClientSeen c, GcNow now]" and d = d]])
       apply auto
      done
    done
  done

text \<open>In every world, a cleanup of the mirrors removes and writes only inside the mirrors root: it moves a
mirror to the trash only when it was seen as a directory with a readable mark at least mirrorGCGrace
old, not older than the last configuration that named it, and, under the lock that keeps a sync from
starting, it is not in flight, no configured repository owns it, the last configuration was accepted
and cleanup is allowed; it removes a tree only in the trash, just after moving it there or seeing a
directory with the exact name of one set aside; it writes or removes files only under the two mark
names of a mirror it saw as a directory.\<close>

theorem mirror_collected_for_cause:
  "case gc_sweep W d w of (r, es) \<Rightarrow> each_step (gc_safe d) [] es"
  using collect_mirrors_emits [of W d, unfolded emits_def, THEN spec, of "\<lparr>ext = w, trace = []\<rparr>"]
  by (auto simp: gc_sweep_def split: prod.splits)

section \<open>What is remembered of the configurations\<close>

type_synonym config_outcome = "bool \<times> client \<times> gtime"

definition gc_after :: "go_lib \<Rightarrow> string \<Rightarrow> config_outcome list \<Rightarrow> mirror_gc" where
  "gc_after lib mroot evs =
     fold (\<lambda>(accepted, c, now). note_config_applied lib mroot now accepted c) evs new_mirror_gc"

definition keeps :: "go_lib \<Rightarrow> string \<Rightarrow> string \<Rightarrow> config_outcome \<Rightarrow> bool" where
  "keeps lib mroot n ev =
     (case ev of (accepted, c, now) \<Rightarrow>
        accepted \<and> config_accepted c \<and> n \<in> dir_name lib mroot ` fmdom' (repos c))"

lemma note_configured_lookup:
  "last_configured (note_configured keep now g) n = (if n \<in> set keep then Some now else last_configured g n)"
proof -
  have "fmlookup (fold (\<lambda>n. fmupd n now) keep m) n = (if n \<in> set keep then Some now else fmlookup m n)" for m
    by (induction keep arbitrary: m) auto
  then show ?thesis by (simp add: last_configured_def note_configured_def)
qed

lemma keep_some:
  "(case accepted_mirror_keep lib mroot c of None \<Rightarrow> False | Some keep \<Rightarrow> n \<in> set keep) \<longleftrightarrow>
     config_accepted c \<and> n \<in> dir_name lib mroot ` fmdom' (repos c)"
  by (auto simp: accepted_mirror_keep_def)

lemma note_config_step:
  "last_configured (note_config_applied lib mroot now accepted c g) n =
     (if keeps lib mroot n (accepted, c, now) then Some now else last_configured g n)"
  "gc_rejected (note_config_applied lib mroot now accepted c g) \<longleftrightarrow> \<not> accepted"
  "gc_wake (note_config_applied lib mroot now accepted c g) \<longleftrightarrow> accepted \<or> gc_wake g"
proof -
  have flags: "last_configured (gc_config_applied a h) = last_configured h" for a h
    by (simp add: fun_eq_iff last_configured_def gc_config_applied_def Let_def)
  show "last_configured (note_config_applied lib mroot now accepted c g) n =
      (if keeps lib mroot n (accepted, c, now) then Some now else last_configured g n)"
    using keep_some [where lib = lib and mroot = mroot and c = c and n = n]
    by (cases "accepted_mirror_keep lib mroot c")
      (auto simp: note_config_applied_def flags keeps_def note_configured_lookup)
  show "gc_rejected (note_config_applied lib mroot now accepted c g) \<longleftrightarrow> \<not> accepted"
    "gc_wake (note_config_applied lib mroot now accepted c g) \<longleftrightarrow> accepted \<or> gc_wake g"
    by (auto simp: note_config_applied_def gc_config_applied_def note_configured_def Let_def split: option.split)
qed

text \<open>After any sequence of configurations, the cleanup remembers for each mirror exactly the time of the
last accepted configuration that named it, is paused exactly when the last configuration was
rejected, and has a sweep requested exactly when one was accepted since it last took the request.\<close>

theorem last_configured_exact:
  "last_configured (gc_after lib mroot evs) n =
     (case rev (filter (keeps lib mroot n) evs) of [] \<Rightarrow> None | (accepted, c, now) # _ \<Rightarrow> Some now) \<and>
   (gc_rejected (gc_after lib mroot evs) \<longleftrightarrow> (case rev evs of [] \<Rightarrow> False | (accepted, c, now) # _ \<Rightarrow> \<not> accepted)) \<and>
   (gc_wake (gc_after lib mroot evs) \<longleftrightarrow> list_ex fst evs)"
proof (induction evs rule: rev_induct)
  case Nil
  show ?case by (simp add: gc_after_def new_mirror_gc_def last_configured_def)
next
  case (snoc ev evs)
  obtain accepted c now where ev: "ev = (accepted, c, now)" by (metis prod_cases3)
  have g: "gc_after lib mroot (evs @ [ev]) = note_config_applied lib mroot now accepted c (gc_after lib mroot evs)"
    by (simp add: gc_after_def ev)
  from snoc show ?case unfolding g note_config_step by (auto simp: ev)
qed

end
