(* ===== verification/Reload.thy ===== *)
theory Reload
  imports ProviderStore "HOL-Library.Sublist"
begin

text \<open>
  The live reload of the provider configuration (\<open>gitsync/reload.go\<close>). A read of the configuration is a
  bundle, its digest identifies what was read. The reloader is a state machine: looks at every poll, a
  confirming read once a change has held, a forced one on SIGHUP. What the files hold at each read is
  arbitrary. The log lines are left out, except for the report of an unusable configuration.
\<close>

definition reload_poll_interval :: duration where
  "reload_poll_interval = 5 * second"

definition reload_settle :: duration where
  "reload_settle = second"

section \<open>One read\<close>

datatype bundle_kind = BundleOK | BundleMissing | BundleInvalid

record config_bundle =
  bd_kind :: bundle_kind
  bd_digest :: string
  bd_store :: "provider_store option"
  bd_category :: "issue_class option"
  bd_loose :: bool
  bd_dropped :: nat

definition bundle_of :: "load_deps \<Rightarrow> string \<Rightarrow> loaded_config \<Rightarrow> config_bundle" where
  "bundle_of d path res =
     (let dg = sources_digest d (sorted_sources (lc_sources res)) (lc_loose res);
          b = \<lparr>bd_kind = BundleOK, bd_digest = dg, bd_store = None, bd_category = None, bd_loose = lc_loose res, bd_dropped = 0\<rparr>
      in if lc_missing res then b\<lparr>bd_kind := BundleMissing\<rparr>
         else if lc_issues res = [] \<or> lc_missing_token res \<noteq> []
         then b\<lparr>bd_store := Some \<lparr>ps_path = path, ps_data = lc_entries res, ps_sources = lc_sources res, ps_digest = dg\<rparr>,
                bd_dropped := length (lc_missing_token res)\<rparr>
         else b\<lparr>bd_kind := BundleInvalid, bd_category := Some (ci_class (hd (lc_issues res)))\<rparr>)"

text \<open>\<open>fileSource.read\<close>.\<close>

definition read_bundle ::
  "'w file_world \<Rightarrow> load_deps \<Rightarrow> string \<Rightarrow> bool \<Rightarrow> (('w, file_step) sys, config_bundle) state" where
  "read_bundle W d path confirm = do { res \<leftarrow> load_config_mode W d path confirm; ret (bundle_of d path res) }"

section \<open>The reloader\<close>

text \<open>\<open>rl_last_bad\<close> and \<open>rl_bad_from\<close> are the code's value and flag pairs.\<close>

record reloader =
  rl_applied :: string
  rl_pending :: bool
  rl_pending_seen :: string
  rl_pending_loose :: bool
  rl_last_bad :: "string option"
  rl_bad_from :: "string option"

definition new_reloader :: "string \<Rightarrow> reloader" where
  "new_reloader applied = \<lparr>rl_applied = applied, rl_pending = False, rl_pending_seen = [], rl_pending_loose = False,
     rl_last_bad = None, rl_bad_from = None\<rparr>"

text \<open>What a step does besides: it puts a store in force, or reports an unusable configuration.\<close>

datatype reload_action = Apply "provider_store option" | Report "issue_class option"

definition expect :: "config_bundle \<Rightarrow> reloader \<Rightarrow> reloader" where
  "expect b r = r\<lparr>rl_pending := True, rl_pending_seen := bd_digest b, rl_pending_loose := bd_loose b\<rparr>"

definition sight :: "config_bundle \<Rightarrow> reloader \<Rightarrow> bool \<times> reloader" where
  "sight b r =
     (if bd_digest b = rl_applied r then (False, r\<lparr>rl_last_bad := None, rl_bad_from := None\<rparr>)
      else if rl_last_bad r = Some (bd_digest b) then (False, r)
      else if rl_bad_from r = Some (bd_digest b) then (False, r)
      else (True, expect b r))"

definition put_in_force :: "string \<Rightarrow> reloader \<Rightarrow> reloader" where
  "put_in_force dg r = r\<lparr>rl_applied := dg, rl_last_bad := None, rl_bad_from := None\<rparr>"

definition decide_bundle :: "config_bundle \<Rightarrow> bool \<Rightarrow> reloader \<Rightarrow> reload_action option \<times> reloader" where
  "decide_bundle b explicit r =
     (case bd_kind b of
        BundleOK \<Rightarrow> (Some (Apply (bd_store b)), put_in_force (bd_digest b) r)
      | BundleMissing \<Rightarrow> (Some (Apply None), put_in_force (bd_digest b) r)
      | BundleInvalid \<Rightarrow>
          (if explicit \<or> rl_last_bad r \<noteq> Some (bd_digest b) then Some (Report (bd_category b)) else None,
           r\<lparr>rl_last_bad := Some (bd_digest b)\<rparr>))"

text \<open>The second sighting \<open>b\<close>: whether another settle wait must start, and what is done.\<close>

definition confirm :: "config_bundle \<Rightarrow> reloader \<Rightarrow> bool \<times> reload_action option \<times> reloader" where
  "confirm b r0 =
     (let r = r0\<lparr>rl_pending := False\<rparr>
      in if bd_digest b = rl_applied r then (False, None, r)
         else if bd_kind b = BundleInvalid \<and> bd_category b = Some IssueFile \<and> rl_pending_loose r \<and>
                 bd_digest b \<noteq> rl_pending_seen r
         then (False, decide_bundle b False (r\<lparr>rl_bad_from := Some (rl_pending_seen r)\<rparr>))
         else if bd_digest b \<noteq> rl_pending_seen r
         then (case sight b r of (again, r1) \<Rightarrow> (again, None, r1))
         else (False, decide_bundle b False r))"

definition forced :: "config_bundle \<Rightarrow> reloader \<Rightarrow> bool \<times> reload_action option \<times> reloader" where
  "forced b r =
     (if bd_kind b = BundleMissing \<and> bd_digest b \<noteq> rl_applied r then (True, None, expect b r)
      else if bd_digest b = rl_applied r then (False, None, r)
      else (False, decide_bundle b True r))"

section \<open>The loop\<close>

text \<open>\<open>lp_due\<close> is when the armed settle timer fires.\<close>

record reload_loop =
  lp_reloader :: reloader
  lp_due :: "gtime option"

datatype reload_event =
    Looked gtime config_bundle
  | Confirmed gtime config_bundle
  | Forced gtime config_bundle
  | Acted reload_action

definition new_loop :: "string \<Rightarrow> reload_loop" where
  "new_loop applied = \<lparr>lp_reloader = new_reloader applied, lp_due = None\<rparr>"

definition acted :: "reload_action option \<Rightarrow> reload_event list" where
  "acted a = (case a of None \<Rightarrow> [] | Some x \<Rightarrow> [Acted x])"

definition on_tick :: "duration \<Rightarrow> gtime \<Rightarrow> config_bundle \<Rightarrow> reload_loop \<Rightarrow> reload_event list \<times> reload_loop" where
  "on_tick settle t b s =
     (if rl_pending (lp_reloader s) then ([], s)
      else (case sight b (lp_reloader s) of
          (arm, r) \<Rightarrow> ([Looked t b], \<lparr>lp_reloader = r, lp_due = (if arm then Some (t + settle) else lp_due s)\<rparr>)))"

definition on_settle :: "duration \<Rightarrow> gtime \<Rightarrow> config_bundle \<Rightarrow> reload_loop \<Rightarrow> reload_event list \<times> reload_loop" where
  "on_settle settle t b s =
     (case confirm b (lp_reloader s) of
        (arm, a, r) \<Rightarrow> (Confirmed t b # acted a, \<lparr>lp_reloader = r, lp_due = (if arm then Some (t + settle) else None)\<rparr>))"

definition on_hup :: "duration \<Rightarrow> gtime \<Rightarrow> config_bundle \<Rightarrow> reload_loop \<Rightarrow> reload_event list \<times> reload_loop" where
  "on_hup settle t b s =
     (case forced b ((lp_reloader s)\<lparr>rl_pending := False\<rparr>) of
        (arm, a, r) \<Rightarrow> (Forced t b # acted a, \<lparr>lp_reloader = r, lp_due = (if arm then Some (t + settle) else None)\<rparr>))"

text \<open>The loop in any order of its events, at times that never go back: its state, the time, what happened.\<close>

inductive reload_reach :: "duration \<Rightarrow> string \<Rightarrow> reload_loop \<Rightarrow> gtime \<Rightarrow> reload_event list \<Rightarrow> bool" for settle applied where
  start: "reload_reach settle applied (new_loop applied) t []"
| tick: "reload_reach settle applied s t es \<Longrightarrow> t \<le> t' \<Longrightarrow> on_tick settle t' b s = (out, s') \<Longrightarrow>
    reload_reach settle applied s' t' (es @ out)"
| settled: "reload_reach settle applied s t es \<Longrightarrow> t \<le> t' \<Longrightarrow> lp_due s = Some due \<Longrightarrow> due \<le> t' \<Longrightarrow>
    on_settle settle t' b s = (out, s') \<Longrightarrow> reload_reach settle applied s' t' (es @ out)"
| hup: "reload_reach settle applied s t es \<Longrightarrow> t \<le> t' \<Longrightarrow> on_hup settle t' b s = (out, s') \<Longrightarrow>
    reload_reach settle applied s' t' (es @ out)"

section \<open>What is put in force\<close>

fun sighting :: "reload_event \<Rightarrow> (gtime \<times> config_bundle) option" where
  "sighting (Looked t b) = Some (t, b)"
| "sighting (Confirmed t b) = Some (t, b)"
| "sighting (Forced t b) = Some (t, b)"
| "sighting (Acted a) = None"

text \<open>
  A configuration is put in force only by the read just before: a forced read of a usable one, or a
  confirming read of a usable or missing one whose digest the read before that, at least the settle time
  earlier, had seen as well.
\<close>

definition right_store :: "config_bundle \<Rightarrow> provider_store option \<Rightarrow> bool" where
  "right_store b st \<longleftrightarrow> (bd_kind b = BundleOK \<and> st = bd_store b) \<or> (bd_kind b = BundleMissing \<and> st = None)"

fun apply_safe :: "duration \<Rightarrow> reload_event list \<Rightarrow> reload_event \<Rightarrow> bool" where
  "apply_safe settle before (Acted (Apply st)) \<longleftrightarrow>
     (\<exists>pre t b. before = pre @ [Forced t b] \<and> bd_kind b = BundleOK \<and> st = bd_store b) \<or>
     (\<exists>pre e t1 b1 t b. before = pre @ [e, Confirmed t b] \<and> sighting e = Some (t1, b1) \<and>
        bd_digest b1 = bd_digest b \<and> t1 + settle \<le> t \<and> right_store b st)"
| "apply_safe settle before _ \<longleftrightarrow> True"

text \<open>The digest in force: that of the read behind the last application.\<close>

fun force_digest :: "string \<Rightarrow> reload_event list \<Rightarrow> string" where
  "force_digest dg (e # Acted (Apply st) # es) =
     force_digest (case sighting e of None \<Rightarrow> dg | Some (t, b) \<Rightarrow> bd_digest b) es"
| "force_digest dg (e # es) = force_digest dg es"
| "force_digest dg [] = dg"

definition loop_inv :: "duration \<Rightarrow> reload_loop \<Rightarrow> reload_event list \<Rightarrow> bool" where
  "loop_inv settle s es \<longleftrightarrow>
     each_step (apply_safe settle) [] es \<and>
     (rl_pending (lp_reloader s) \<longleftrightarrow> lp_due s \<noteq> None) \<and>
     (case lp_due s of None \<Rightarrow> True
      | Some due \<Rightarrow> \<exists>pre e t b. es = pre @ [e] \<and> sighting e = Some (t, b) \<and> due = t + settle \<and>
          rl_pending_seen (lp_reloader s) = bd_digest b)"

lemmas loop_defs = on_tick_def on_settle_def on_hup_def confirm_def sight_def forced_def decide_bundle_def expect_def put_in_force_def
  acted_def Let_def

lemma apply_safe_other [simp]:
  "apply_safe settle before (Looked t b)" "apply_safe settle before (Confirmed t b)"
  "apply_safe settle before (Forced t b)" "apply_safe settle before (Acted (Report c))"
  by simp_all

declare apply_safe.simps(1) [simp del]

lemma forced_apply: "bd_kind b = BundleOK \<Longrightarrow> apply_safe settle (pre @ [Forced t b]) (Acted (Apply (bd_store b)))"
  by (simp add: apply_safe.simps)

lemma confirmed_apply:
  "sighting e = Some (t1, b1) \<Longrightarrow> bd_digest b1 = bd_digest b \<Longrightarrow> t1 + settle \<le> t \<Longrightarrow> right_store b st \<Longrightarrow>
   apply_safe settle (pre @ [e, Confirmed t b]) (Acted (Apply st))"
  unfolding apply_safe.simps by blast

lemma tick_inv: "loop_inv settle s es \<Longrightarrow> on_tick settle t b s = (out, s') \<Longrightarrow> loop_inv settle s' (es @ out)"
  by (fastforce simp: loop_inv_def on_tick_def sight_def expect_def split: if_splits option.splits)

lemma hup_inv:
  assumes "on_hup settle t b s = (out, s')" "loop_inv settle s es"
  shows "loop_inv settle s' (es @ out)"
proof -
  have es: "each_step (apply_safe settle) [] es" using assms(2) by (simp add: loop_inv_def)
  consider "bd_kind b = BundleMissing" | "bd_kind b = BundleOK" | "bd_kind b = BundleInvalid" by (cases "bd_kind b") auto
  then show ?thesis
    using assms(1) es
    by cases (auto simp: on_hup_def forced_def decide_bundle_def expect_def put_in_force_def acted_def loop_inv_def forced_apply split: if_splits)
qed

lemma settle_inv:
  assumes "on_settle settle t b s = (out, s')" "loop_inv settle s es" "lp_due s = Some d" "d \<le> t"
  shows "loop_inv settle s' (es @ out)"
proof -
  obtain pre e t1 b1 where e: "es = pre @ [e]" "sighting e = Some (t1, b1)" "d = t1 + settle"
    "rl_pending_seen (lp_reloader s) = bd_digest b1"
    using assms(2,3) by (auto simp: loop_inv_def)
  have es: "each_step (apply_safe settle) [] es" using assms(2) by (simp add: loop_inv_def)
  have app: "apply_safe settle (es @ [Confirmed t b]) (Acted (Apply st))"
    if "bd_digest b = rl_pending_seen (lp_reloader s)" "right_store b st" for st
    using confirmed_apply [OF e(2), of b settle t st pre] that e assms(4) by simp
  consider "bd_kind b = BundleMissing" | "bd_kind b = BundleOK" | "bd_kind b = BundleInvalid" by (cases "bd_kind b") auto
  then show ?thesis
    using assms(1) es app
    by cases (auto simp: on_settle_def confirm_def sight_def decide_bundle_def expect_def put_in_force_def acted_def loop_inv_def Let_def
        right_store_def split: if_splits)
qed

lemma reach_inv: "reload_reach settle applied s t es \<Longrightarrow> loop_inv settle s es"
proof (induction rule: reload_reach.induct)
  case (start t)
  show ?case by (simp add: loop_inv_def new_loop_def new_reloader_def)
qed (auto intro: tick_inv hup_inv settle_inv)

lemma force_digest_at:
  "sighting e \<noteq> None \<Longrightarrow> force_digest dg (es @ e # out) = force_digest (force_digest dg es) (e # out)"
  by (induction dg es rule: force_digest.induct) (auto, (case_tac e; simp; fail)+)

lemma step_digest:
  assumes "on_tick settle t b s = (out, s') \<or> on_settle settle t b s = (out, s') \<or> on_hup settle t b s = (out, s')"
  shows "rl_applied (lp_reloader s') = force_digest (rl_applied (lp_reloader s)) out \<and>
    (case out of [] \<Rightarrow> True | e # _ \<Rightarrow> sighting e \<noteq> None)"
  using assms by (cases "bd_kind b") (auto simp: loop_defs split: if_splits)

lemma reach_digest: "reload_reach settle applied s t es \<Longrightarrow> rl_applied (lp_reloader s) = force_digest applied es"
proof (induction rule: reload_reach.induct)
  case (start t)
  show ?case by (simp add: new_loop_def new_reloader_def)
next
  case (tick s t es t' b out s')
  with step_digest [of settle t' b s out s'] show ?case by (cases out) (auto simp: force_digest_at)
next
  case (settled s t es t' due b out s')
  with step_digest [of settle t' b s out s'] show ?case by (cases out) (auto simp: force_digest_at)
next
  case (hup s t es t' b out s')
  with step_digest [of settle t' b s out s'] show ?case by (cases out) (auto simp: force_digest_at)
qed

text \<open>C15. Whatever the files hold at each read and in whatever order ticks, settle timers and SIGHUPs
come, a configuration is put in force only straight after reading it: a usable one on SIGHUP, or one
whose digest the read before, at least the settle time earlier, had seen as well; a missing file
empties the configuration only in that second way, an unusable one never changes it; and the digest
the reloader holds in force is that of the last configuration put in force.\<close>

theorem reload_settled:
  assumes "reload_reach settle applied s t es"
  shows "each_step (apply_safe settle) [] es \<and> rl_applied (lp_reloader s) = force_digest applied es"
  using reach_inv [OF assms] reach_digest [OF assms] by (simp add: loop_inv_def)

definition empty_bundle :: "string \<Rightarrow> config_bundle" where
  "empty_bundle dg = \<lparr>bd_kind = BundleMissing, bd_digest = dg, bd_store = None, bd_category = None, bd_loose = False,
     bd_dropped = 0\<rparr>"

definition after_look :: reload_loop where
  "after_look = snd (on_tick second 1 (empty_bundle ''b'') (new_loop ''a''))"

lemma after_look_reach: "reload_reach second ''a'' after_look 1 [Looked 1 (empty_bundle ''b'')]"
  using reload_reach.tick [OF reload_reach.start [of second "''a''" 0], of 1 "empty_bundle ''b''"
      "[Looked 1 (empty_bundle ''b'')]" after_look]
  by (simp add: after_look_def on_tick_def sight_def new_loop_def new_reloader_def empty_bundle_def)

theorem reload_settled_witness:
  "each_step (apply_safe second) [] [Looked 1 (empty_bundle ''b'')] \<and> rl_applied (lp_reloader after_look) = ''a''"
  using reload_settled [OF after_look_reach] by simp

section \<open>A change that holds is put in force\<close>

definition unseen_change :: "config_bundle \<Rightarrow> reloader \<Rightarrow> bool" where
  "unseen_change b r \<longleftrightarrow>
     bd_kind b \<noteq> BundleInvalid \<and> bd_digest b \<noteq> rl_applied r \<and> rl_last_bad r \<noteq> Some (bd_digest b) \<and>
     rl_bad_from r \<noteq> Some (bd_digest b)"

text \<open>A change of the configuration to a usable one or to none, not already refused, that is seen at a
tick while the reloader is idle and still there when the settle timer fires is put in force at that
moment.\<close>

theorem stable_change_applied:
  assumes "reload_reach settle applied s t es" "lp_due s = None" "unseen_change b (lp_reloader s)"
  shows "case on_tick settle t1 b s of (out1, s1) \<Rightarrow>
    out1 = [Looked t1 b] \<and> lp_due s1 = Some (t1 + settle) \<and>
    (case on_settle settle t2 b s1 of (out2, s2) \<Rightarrow>
       out2 = [Confirmed t2 b, Acted (Apply (if bd_kind b = BundleOK then bd_store b else None))] \<and>
       rl_applied (lp_reloader s2) = bd_digest b)"
proof -
  have "\<not> rl_pending (lp_reloader s)" using reach_inv [OF assms(1)] assms(2) by (simp add: loop_inv_def)
  with assms(3) show ?thesis
    by (cases "bd_kind b") (auto simp: loop_defs unseen_change_def)
qed

theorem stable_change_applied_witness:
  "case on_tick second 1 (empty_bundle ''b'') (new_loop ''a'') of (out1, s1) \<Rightarrow>
    out1 = [Looked 1 (empty_bundle ''b'')] \<and> lp_due s1 = Some (1 + second) \<and>
    (case on_settle second (2 + second) (empty_bundle ''b'') s1 of (out2, s2) \<Rightarrow>
       out2 = [Confirmed (2 + second) (empty_bundle ''b''), Acted (Apply None)] \<and> rl_applied (lp_reloader s2) = ''b'')"
  using stable_change_applied [OF reload_reach.start [of second "''a''" 0], of "empty_bundle ''b''" 1 "2 + second"]
  by (auto simp: unseen_change_def empty_bundle_def new_loop_def new_reloader_def)

section \<open>What a bundle drops\<close>

text \<open>
  The second pass: of the names done, each with a token file is an entry or has one problem, and the
  providers whose token file is gone are among the problems.
\<close>

definition pass_two_counts :: "string set \<Rightarrow> string set \<Rightarrow> pass_two \<Rightarrow> bool" where
  "pass_two_counts inline_names handled st \<longleftrightarrow>
     set (map ci_provider (pt_issues st)) \<subseteq> handled \<and>
     fmdom' (pt_entries st) = inline_names \<union> (handled - set (map ci_provider (pt_issues st))) \<and>
     subseq (pt_missing st) (map ci_provider (pt_issues st))"

lemma token_issue_provider [simp]: "ci_provider (token_file_issue name w) = name"
  by (simp add: token_file_issue_def config_issue_of_def)

lemma subseq_snoc: "subseq xs ys \<Longrightarrow> subseq xs (ys @ [y])"
  by (rule list_emb_prefix)

lemma take_token_counts:
  assumes "pass_two_counts E H st" "name \<notin> H"
  shows "pass_two_counts E (insert name H) (take_token name e raw st)"
  using assms by (auto simp: take_token_def Let_def pass_two_counts_def subseq_snoc split: sum.split option.split)

lemma load_token_counts:
  assumes "pass_two_counts E H st" "name \<notin> H"
  shows "emits (load_token W d name e st) (\<lambda>r es. pass_two_counts E (insert name H) r)"
proof -
  have "pass_two_counts E H (st\<lparr>pt_contents := c, pt_sources := ss\<rparr>)" for c ss
    using assms(1) by (simp add: pass_two_counts_def)
  note taken = take_token_counts [OF this assms(2)] take_token_counts [OF assms]
  have missing: "pass_two_counts E (insert name H)
      (st\<lparr>pt_issues := pt_issues st @ [token_file_issue name w],
          pt_missing := (if b then pt_missing st @ [name] else pt_missing st)\<rparr>)" for w b
    using assms by (auto simp: pass_two_counts_def subseq_snoc list_emb_append_mono)
  show ?thesis
    unfolding load_token_def
    apply (intro emits_option emits_return)
    subgoal by (rule emits_then [OF read_token_shape], rule emits_return) (auto simp: taken missing split: sum.split)
    subgoal by (rule taken)
    done
qed

lemma load_tokens_counts:
  assumes "pass_two_counts E H st" "distinct names" "set names \<inter> H = {}"
  shows "emits (load_tokens W d pending names st)
    (\<lambda>r es. pass_two_counts E (H \<union> (set names \<inter> fmdom' pending)) r)"
  using assms
proof (induction names arbitrary: st H)
  case Nil
  then show ?case by (simp add: emits_return)
next
  case (Cons name names)
  show ?case
  proof (cases "fmlookup pending name")
    case None
    then have "set (name # names) \<inter> fmdom' pending = set names \<inter> fmdom' pending" by (auto simp: fmlookup_dom'_iff)
    with None Cons.IH [OF Cons.prems(1)] Cons.prems show ?thesis by simp
  next
    case (Some e)
    then have eq: "H \<union> (set (name # names) \<inter> fmdom' pending) = insert name H \<union> (set names \<inter> fmdom' pending)"
      by (auto intro: fmdom'I)
    have fresh: "name \<notin> H" using Cons.prems(3) by simp
    have "emits (load_token W d name e st \<bind> load_tokens W d pending names)
        (\<lambda>r es. pass_two_counts E (insert name H \<union> (set names \<inter> fmdom' pending)) r)"
    proof (rule emits_then [OF load_token_counts [OF Cons.prems(1) fresh]])
      fix st1 :: pass_two and es
      assume "pass_two_counts E (insert name H) st1"
      then show "emits (load_tokens W d pending names st1)
          (\<lambda>r fs. pass_two_counts E (insert name H \<union> (set names \<inter> fmdom' pending)) r)"
        by (rule Cons.IH) (use Cons.prems in auto)
    qed
    then show ?thesis unfolding eq by (simp add: Some)
  qed
qed

lemma counts_exact:
  assumes "pass_two_counts E P pt" "E \<inter> P = {}" "length (pt_missing pt) = length (pt_issues pt)"
  shows "fmdom' (pt_entries pt) = E \<union> P - set (pt_missing pt)"
proof -
  have "pt_missing pt = map ci_provider (pt_issues pt)"
    using assms(1,3) by (intro subseq_same_length) (simp_all add: pass_two_counts_def)
  with assms(1,2) show ?thesis by (auto simp: pass_two_counts_def)
qed

definition drops_exactly :: "loaded_config \<Rightarrow> bool" where
  "drops_exactly r \<longleftrightarrow> (lc_issues r = [] \<or> lc_missing_token r \<noteq> [] \<longrightarrow>
     fmdom' (lc_entries r) = fmdom' (lc_host_keys r) - set (lc_missing_token r))"

lemma load_decoded_drops:
  assumes "lc_entries res = fmempty" "lc_host_keys res = fmempty" "lc_missing_token res = []"
  shows "emits (load_decoded W d foreign dc res) (\<lambda>r es. drops_exactly r)"
proof -
  let ?po = "check_providers (ld_lib d) dc"
  have ok: "pass_one_ok (ld_lib d) ?po" by (rule check_providers_ok)
  then have doms: "fmdom' (po_host_keys ?po) = fmdom' (po_entries ?po) \<union> fmdom' (po_pending ?po)"
    by (simp add: pass_one_ok_def)
  have disj: "fmdom' (po_entries ?po) \<inter> fmdom' (po_pending ?po) = {}"
    using ok by (simp add: pass_one_ok_def)
  have "fmdom' (po_host_keys ?po) \<subseteq> fmdom' dc"
    using check_providers_fold [OF nothing_checked_ok, where nes = "named_entries dc" and lib = "ld_lib d" and hosts = "{}"]
    by (simp add: check_providers_def nothing_checked_def) (auto simp: named_entries_def)
  with doms have sub: "fmdom' (po_pending ?po) \<subseteq> fmdom' dc" by blast
  have exact: "drops_exactly (r\<lparr>lc_host_keys := po_host_keys ?po, lc_issues := pt_issues pt, lc_entries := pt_entries pt,
      lc_sources := pt_sources pt,
      lc_missing_token := (if length (pt_missing pt) = length (pt_issues pt) then pt_missing pt else [])\<rparr>)"
    if pc: "pass_two_counts (fmdom' (po_entries ?po)) (fmdom' (po_pending ?po)) pt" for pt r
  proof (cases "length (pt_missing pt) = length (pt_issues pt)")
    case True
    then show ?thesis using counts_exact [OF pc disj True] by (cases "pt_missing pt = []") (simp_all add: drops_exactly_def doms)
  next
    case False
    then have "pt_issues pt \<noteq> []" using pc by (auto simp: pass_two_counts_def)
    with False show ?thesis by (simp add: drops_exactly_def)
  qed
  show ?thesis
    unfolding load_decoded_def Let_def
    apply (intro emits_if emits_return)
    subgoal using assms by (simp add: drops_exactly_def)
    subgoal using assms(3) by (simp add: drops_exactly_def)
    subgoal
      apply (rule emits_then [OF load_tokens_counts [where E = "fmdom' (po_entries ?po)" and H = "{}"]])
      subgoal by (simp add: pass_two_counts_def)
      subgoal by simp
      subgoal by simp
      subgoal for pt es
        by (rule emits_return) (use exact [of pt "res\<lparr>lc_host_keys := x\<rparr>" for x] in \<open>simp add: Int_absorb1 [OF sub] drops_exactly_def\<close>)
      done
    done
qed

lemma load_drops: "emits (load_config_mode W d path tighten) (\<lambda>r es. drops_exactly r)"
proof -
  show ?thesis
    unfolding load_config_mode_def reject_foreign_config_owner_def
    apply (rule emits_then [OF read_config_shape])
    apply (intro emits_sum emits_let)
    subgoal by (auto intro!: emits_return simp: nothing_loaded_def drops_exactly_def)
    subgoal by (auto intro!: emits_return simp: nothing_loaded_def drops_exactly_def)
    subgoal by (rule emits_weaken [OF load_decoded_drops]) (simp_all add: nothing_loaded_def)
    done
qed

text \<open>What a read offers for use is exactly the providers that loaded, all valid and with distinct hosts:
every provider of the file, less those whose token file does not exist when that is the only kind of
problem; with any other problem, or no file, it offers none.\<close>

theorem bundle_store_exact:
  "case load_in W d path tighten w of (r, es) \<Rightarrow>
     (case bd_store (bundle_of d path r) of
        None \<Rightarrow> lc_missing r \<or> lc_issues r \<noteq> [] \<and> lc_missing_token r = []
      | Some st \<Rightarrow> ps_data st = lc_entries r \<and> store_ok (ld_lib d) (ps_data st) \<and>
          fmdom' (ps_data st) = fmdom' (lc_host_keys r) - set (lc_missing_token r))"
proof (cases "load_in W d path tighten w")
  case (Pair r es)
  have "drops_exactly r"
    using load_drops [of W d path tighten, unfolded emits_def, THEN spec, of "\<lparr>ext = w, trace = []\<rparr>"] Pair
    by (auto simp: load_in_def split: prod.splits)
  moreover have "store_ok (ld_lib d) (lc_entries r)" by (rule loaded_entries_ok [OF Pair])
  ultimately show ?thesis
    by (auto simp: Pair bundle_of_def Let_def drops_exactly_def)
qed

end
