(* ===== verification/Spec2Isabelle.thy ===== *)
theory Spec2Isabelle
  imports OperatorCli GitProcess CredCli TlsTransport StatusCli StartConfig SavedFiles ApiExample ApiClient GatewayProtocol OriginProbe RunSaves GitHandler Connector SyncSafety MirrorSafety StatusReport Reload
begin

text \<open>
  The mkonnect connectors (Go), as HOL definitions translated from the source and the theorems that make them
  correct. The file names below are relative to \<open>src/internal\<close>.

  Two programs share one library. The \<^emph>\<open>git-sync connector\<close> keeps local bare mirrors of a customer's
  repositories and pushes them to replicas: the platform sends configurations (which repositories, which
  replica URL, which push token, which limits), a local file gives the providers (the origins' hosts and
  credentials). A scheduler decides when a repository is due, a manager runs at most one sync of it at a
  time within a bounded number of slots, a sync runs git processes, and its result is folded back into the
  connector's state unless what it ran with has been replaced meanwhile. The \<^emph>\<open>API connector\<close> forwards HTTP
  requests of the platform to upstreams of the customer, with credentials that are kept locally. Both hold a
  WebSocket connection to the gateway, on which they enrol once and then authenticate with a stored key.

  How it is modelled. A Go string is a list of bytes, a struct a record, an error a constructor, a map an
  \<open>fmap\<close>, a time an \<open>int\<close> of nanoseconds (words where overflow matters). Code under a mutex is a function on
  the state the mutex guards. Code that acts on the world (files, processes, sockets, clocks) is a program in
  the state monad over an arbitrary world type, whose operations may answer anything at any time and are
  written to a log; \<open>emits m Q\<close> (theory \<open>Effects\<close>) says that in every world \<open>Q\<close> holds of the value and the
  log. Goroutines are interleavings of their critical sections: an inductive step relation, or a list of events
  the theorems quantify over. The two goroutines of a gateway connection are programs of their own, and for each of them
  what the other does between two of its steps is part of the arbitrary world its next call finds.

  A property's specification does not reuse what the code builds: the entry a command stores, the hello of a connection,
  the requests of preflight, the forms of a secret are written out, so that a builder that is wrong falsifies it.

  What the code calls and the repository does not contain is a parameter: \<open>encoding/json\<close>, \<open>net/url\<close>'s parser,
  \<open>net/netip\<close>, SHA-256 and HMAC, ML-DSA, the parsers and printers of times and durations, \<open>strings.ToLower\<close> and
  the other Unicode tables, the quoting verb of \<open>fmt\<close>, \<open>text/tabwriter\<close>, certificate pools, the usage texts of
  \<open>flag\<close>. Where a theorem relies on one, the documented law is a hypothesis and a witness instantiates it.

  \<^bold>\<open>Foundations\<close>
  \<^item> \<open>Prelude\<close>: times, maps, runs and generic lemmas; \<open>Effects\<close>: the logic of logs and policies.
  \<^item> \<open>GoStrings\<close>, \<open>GoText\<close>, \<open>GoPath\<close>, \<open>GoHttp\<close>, \<open>GoFlags\<close>, \<open>GoRegexp\<close>: what the code uses of Go's library, the last
    a leftmost-first backtracking matcher for the code's regular expressions.
  \<^item> \<open>Machines\<close>: interleavings as lists of events; the locale \<open>keeper\<close> lifts what every event keeps to them.
  \<^item> \<open>AtomicSave\<close>: writing a file through a temporary one. The locale \<open>atomic_save\<close> gives, from the rule a saver
    follows, that the file is the old one or the whole new one at every point.

  \<^bold>\<open>The state of the git-sync connector\<close> (\<open>gitsync/\<close>)
  \<^item> \<open>SyncTypes\<close>, \<open>SyncLimits\<close> (\<open>limits.go\<close>), \<open>RunRecords\<close> (\<open>runstate.go\<close>): data, limits and their validation, the
    record kept of a repository's attempts.
  \<^item> \<open>SlotPool\<close> (\<open>slots.go\<close>): the resizable semaphore, as operations and as an interleaving of acquirers (locale
    \<open>slot_provider\<close>).
  \<^item> \<open>ProviderGates\<close> (\<open>providergate.go\<close>, locale \<open>pass_keeper\<close>): the holds on a credential after a refused login.
  \<^item> \<open>Scheduler\<close> (\<open>scheduler.go\<close>): intervals, stagger, back-off and gates; which repositories are due.
  \<^item> \<open>Hosts\<close> (\<open>localconfig.go\<close>, \<open>replicahost.go\<close>), \<open>Providers\<close> (\<open>providers.go\<close>, \<open>config.go\<close>): URL canonicalisation, the pin
    of the replica host, provider sets, credential generations and bindings.
  \<^item> \<open>Engine\<close>, \<open>EngineSafety\<close> (\<open>client.go\<close>, \<open>config.go\<close>, \<open>attempts.go\<close>, \<open>providerswap.go\<close>): the state under \<open>Client.mu\<close>,
    every operation on it, and the machine of its operations in any order, with its invariant.
  \<^item> \<open>Manager\<close> (\<open>manager.go\<close>): runners, slots and triggers, as an interleaving of their critical sections over
    arbitrary hooks; \<open>Connector\<close>: the manager with the connector's state behind its hooks, and its refinement of
    the machine of \<open>Engine\<close>.
  \<^item> \<open>Coalesce\<close> (\<open>status.go\<close>, \<open>client.go\<close>): coalesced requests; \<open>RunSaves\<close> (\<open>client.go\<close>): when the run state is written.
  \<^item> \<open>StatusReport\<close> (\<open>status.go\<close>): the report, exact and free of secrets.
  \<^item> \<open>GitHandler\<close> (\<open>client.go\<close>, \<open>config.go\<close>, \<open>status.go\<close>): the handling of the gateway's messages, part by part, with any
    steps of other goroutines in between.

  \<^bold>\<open>Running git\<close> (\<open>gitsync/\<close>)
  \<^item> \<open>GitEnv\<close> (\<open>gitexec.go\<close>, \<open>redact.go\<close>, \<open>mirror.go\<close>): the environment of a git process, redaction, mirror paths.
  \<^item> \<open>SyncStats\<close> (\<open>syncstats.go\<close>), \<open>PushPlan\<close> (\<open>pushbatch.go\<close>), \<open>Lfs\<close> (\<open>lfs.go\<close>), \<open>Classify\<close> (\<open>classify.go\<close>, \<open>probe.go\<close>): the
    readers of what git prints, byte by byte, against references on whole texts.
  \<^item> \<open>SyncRun\<close>, \<open>SyncSafety\<close> (\<open>sync.go\<close>, \<open>pushbatch.go\<close>, \<open>mirrorsize.go\<close>, \<open>lfs.go\<close>): one sync, and what it may do to the
    world in which order.
  \<^item> \<open>MirrorGC\<close>, \<open>MirrorSafety\<close> (\<open>gc.go\<close>): the cleanup of mirrors, and that each removal has its cause.
  \<^item> \<open>TempHomes\<close> (\<open>gitexec.go\<close>, \<open>preflight.go\<close>): temporary directories and their sweep.
  \<^item> \<open>GitProcess\<close> (\<open>probe.go\<close>): how a git process and its group are stopped.
  \<^item> \<open>OriginProbe\<close> (\<open>probe.go\<close>, \<open>originprobe.go\<close>): the reachability check and when its result is kept.

  \<^bold>\<open>Files\<close>
  \<^item> \<open>LocalFile\<close> (\<open>gitsync/localfile.go\<close>), \<open>ProviderConfig\<close>, \<open>ConfigSafety\<close> (\<open>gitsync/entry.go\<close>, \<open>configload.go\<close>,
    \<open>sources.go\<close>): vetted reads, the load of the provider configuration, what it guarantees.
  \<^item> \<open>ProviderStore\<close> (\<open>gitsync/store.go\<close>), \<open>Reload\<close> (\<open>gitsync/reload.go\<close>): the store and its live reload.
  \<^item> \<open>KeyStore\<close> (\<open>auth/keystore.go\<close>, \<open>mldsa.go\<close>), \<open>RunStateFile\<close> (\<open>gitsync/runstate.go\<close>, \<open>runstateread.go\<close>), \<open>CredStore\<close>
    (\<open>creds/store.go\<close>), \<open>SavedFiles\<close>: the saved files, each an interpretation of \<open>atomic_save\<close>, and their round trips.

  \<^bold>\<open>The API connector and the gateway\<close>
  \<^item> \<open>ApiRequest\<close>, \<open>ApiHandler\<close> (\<open>plugin/\<close>): what is sent upstream and what is relayed; \<open>ApiConfinement\<close>,
    \<open>ApiCredential\<close>, \<open>ApiHandlerSafety\<close>: a request stays under its base URL, carries the local credential alone, and
    nothing of that credential comes back; \<open>ApiExample\<close>: one request evaluated.
  \<^item> \<open>ApiClient\<close> (\<open>ws/client.go\<close>): workers, probes, the status, the drain.
  \<^item> \<open>TlsTransport\<close> (\<open>httpclient/direct.go\<close>): transports and CA bundles.
  \<^item> \<open>Gateway\<close>, \<open>GatewayProtocol\<close> (\<open>gateway/gateway.go\<close>): the connection, and the automaton it follows.

  \<^bold>\<open>Start and commands\<close>
  \<^item> \<open>StartConfig\<close> (\<open>config/\<close>, \<open>gitsync/keyfile.go\<close>): the settings and the registration token.
  \<^item> \<open>CredCli\<close> (\<open>cli/config.go\<close>), \<open>ProviderCli\<close> (\<open>gitsync/cli/config.go\<close>, \<open>check.go\<close>), \<open>StatusCli\<close> (\<open>gitsync/cli/status.go\<close>):
    the commands, with what they print and store.
  \<^item> \<open>PreflightHost\<close>, \<open>PreflightNet\<close>, \<open>PreflightSafety\<close> (\<open>gitsync/cli/preflight*.go\<close>, \<open>gitsync/preflight.go\<close>): the preflight
    command, what it may do, and how its verdict relates to the start of the connector.
  \<^item> \<open>Startup\<close> (\<open>cmd/mkonnect-gitsync/main.go\<close>): the start of the git-sync process, up to its client; \<open>OperatorCli\<close>
    (\<open>gitsync/cli/config.go\<close>, \<open>preflight.go\<close>): the dispatch of its commands and the preflight report.

  The groups of properties, in the order of the manifest: what a sync may do to a replica, with which
  credential and when (C1-C13); the files (C14-C16, C23); the commands and the start (C17-C22); the API
  connector and the gateway (C24-C29); the git processes and the batches of a push (C30-C33); triggers,
  configurations, the start, and the goroutines around the state (C34-C40).

  Bounds. No definition runs on fuel: recursion is structural or has a termination proof. Loops that the code
  runs until it is told to stop are given the list of what happens to them (\<open>gateway_run\<close> how many
  frames each connection reads, \<open>heartbeat\<close> how many times it waits, \<open>api_run\<close>, \<open>saver_run\<close> and the machines their
  events); the theorems quantify over that, so they speak of every finite prefix of a run.

  Granularity. Where the code lets go of a lock between two parts and the model takes them as one step: the insertion into
  the in-flight set and the mark that follows it (\<open>launch\<close>, \<open>decide\<close> of \<open>Manager\<close>), the loop of \<open>startSyncs\<close> over its
  repositories (\<open>GitHandler\<close>), the end of a job of the API connector (\<open>ApiClient\<close>). That \<open>http.NewRequest\<close> reads back
  the URL it is given as text is taken as given (\<open>ApiRequest\<close>).

  \<^bold>\<open>Not modelled.\<close> The encoding of messages as JSON; log lines, and the wording of the errors that only carry a
  text; the layout of tables, the texts of preflight's details and remedies; the goroutines that call a modelled operation on a
  ticker (\<open>scheduler.start\<close>, \<open>startMirrorGC\<close>, \<open>startReload\<close>); the file descriptors of a sender;
  the signals and the last wait of \<open>cmd/mkonnect-gitsync\<close>; \<open>cmd/mkonnect\<close>, which only wires the parts together; \<open>testca\<close>, which serves the tests. The race detector's
  view, that every shared field is accessed under its mutex, is taken from the code, not proved.
\<close>

end
